(* ===== verification/Prelude.thy ===== *)
theory Prelude
  imports Main "HOL-Library.Word"
begin

text \<open>
  Shared vocabulary of the development: the machine integer types of the code, the
  collections of rewrite rules the components fill, the ring slice that both the
  in-process queue and the shared-memory descriptor rings are abstracted to, and
  big-endian byte strings (the PowerPC host and the CPRI network byte order).
\<close>

unbundle bit_operations_syntax

section \<open>Machine types\<close>

text \<open>
  The user-space code is built for a 32-bit PowerPC ABI (int, long, size_t and pointers
  are 32 bits wide); physical addresses of the system-on-chip are 64 bits wide.
\<close>

type_synonym u8 = "8 word"
type_synonym u16 = "16 word"
type_synonym u32 = "32 word"
type_synonym u64 = "64 word"
type_synonym vaddr = "32 word"
type_synonym paddr = "64 word"

section \<open>Rule collections\<close>

named_theorems ring_simps \<open>rewrite rules on ring slices\<close>
named_theorems wrap_simps \<open>rewrite rules on wrap-around arithmetic\<close>
named_theorems inv_intros \<open>each operation keeps its component's invariant\<close>

section \<open>Ring slices\<close>

text \<open>
  \<open>ring_slice xs t n\<close> is the sequence of the \<open>n\<close> entries of the array \<open>xs\<close> that
  start at index \<open>t\<close> and wrap around at its end.
\<close>

definition ring_slice :: "'a list \<Rightarrow> nat \<Rightarrow> nat \<Rightarrow> 'a list" where
  "ring_slice xs t n = map (\<lambda>i. xs ! ((t + i) mod length xs)) [0..<n]"

lemma length_ring_slice [simp]: "length (ring_slice xs t n) = n"
  by (simp add: ring_slice_def)

lemma ring_slice_0 [simp]: "ring_slice xs t 0 = []"
  by (simp add: ring_slice_def)

lemma ring_slice_Suc_front:
  "ring_slice xs t (Suc n) = xs ! (t mod length xs) # ring_slice xs (Suc t) n"
  unfolding ring_slice_def by (subst upt_conv_Cons) (simp_all add: map_Suc_upt [symmetric] del: upt_Suc)

lemma ring_slice_Suc_back:
  "ring_slice xs t (Suc n) = ring_slice xs t n @ [xs ! ((t + n) mod length xs)]"
  by (simp add: ring_slice_def)

lemma ring_slice_mod [ring_simps]: "ring_slice xs (t mod length xs) n = ring_slice xs t n"
  by (simp add: ring_slice_def mod_add_left_eq)

lemma mod_offset_neq:
  fixes t i j m :: nat
  assumes "i < j" "j < m"
  shows "(t + i) mod m \<noteq> (t + j) mod m"
proof
  assume eq: "(t + i) mod m = (t + j) mod m"
  have "m dvd (t + j) - (t + i)"
    using eq by (intro mod_eq_dvd_iff_nat [THEN iffD1]) (use assms in auto)
  then have "m dvd j - i" by simp
  with assms show False by (auto dest: dvd_imp_le)
qed

text \<open>Writing the slot just behind a slice that does not fill the ring appends to it.\<close>

lemma ring_slice_update_outside [ring_simps]:
  assumes "n < length xs"
  shows "ring_slice (xs[(t + n) mod length xs := x]) t n = ring_slice xs t n"
  unfolding ring_slice_def
  using assms mod_offset_neq [where t = t and j = n and m = "length xs"]
  by (auto intro!: map_cong nth_list_update_neq simp: eq_commute [of "(t + n) mod length xs"])

lemma ring_slice_append [ring_simps]:
  assumes "n < length xs"
  shows "ring_slice (xs[(t + n) mod length xs := x]) t (Suc n) = ring_slice xs t n @ [x]"
proof -
  have "(t + n) mod length xs < length xs"
    using assms by (intro mod_less_divisor) linarith
  then show ?thesis
    by (simp add: ring_slice_Suc_back ring_slice_update_outside [OF assms])
qed

lemma ring_slice_pos:
  assumes "0 < n"
  shows "ring_slice xs t n = xs ! (t mod length xs) # ring_slice xs (Suc t) (n - 1)"
  using assms by (cases n) (simp_all add: ring_slice_Suc_front)

section \<open>Words\<close>

lemma unat_less_exp: "unat (w :: 'a::len word) < 2 ^ LENGTH('a)"
  by (rule unsigned_less)

lemma unat_and_mask_pow2 [wrap_simps]:
  fixes w :: "'a::len word"
  assumes "k < LENGTH('a)"
  shows "unat (w AND (2 ^ k - 1)) = unat w mod 2 ^ k"
proof -
  have "w AND (2 ^ k - 1) = take_bit k w"
    by (simp add: take_bit_eq_mask mask_eq_exp_minus_1)
  then show ?thesis
    by (simp only: unsigned_take_bit_eq) (simp add: take_bit_eq_mod)
qed

lemma unat_pow2_word [simp]:
  assumes "k < LENGTH('a)"
  shows "unat ((2 :: 'a::len word) ^ k) = 2 ^ k"
  using assms by (simp add: of_nat_inverse)

lemma unat_Suc_word [wrap_simps]:
  fixes w :: "'a::len word"
  assumes "unat w + 1 < 2 ^ LENGTH('a)"
  shows "unat (w + 1) = unat w + 1"
  using assms by (simp add: unat_word_ariths)

lemma unat_pred_word [wrap_simps]:
  fixes w :: "'a::len word"
  assumes "w \<noteq> 0"
  shows "unat (w - 1) = unat w - 1"
  using assms by (metis unat_minus_one)

lemma sint_small [wrap_simps]:
  fixes w :: u32
  assumes "unat w < 2 ^ 31"
  shows "sint w = int (unat w)"
proof -
  have "int (unat w) < 2 ^ 31" using assms by (simp only: of_nat_less_numeral_power_cancel_iff)
  moreover have "- (2 ^ 31) \<le> int (unat w)"
    by (rule order_trans [OF _ of_nat_0_le_iff]) simp
  ultimately have "signed_take_bit 31 (int (unat w)) = int (unat w)"
    by (intro signed_take_bit_int_eq_self)
  then show ?thesis by (simp only: sint_uint uint_nat) simp
qed

lemma sless_zero_iff:
  fixes w :: u32
  assumes "unat w < 2 ^ 31"
  shows "0 <s w \<longleftrightarrow> w \<noteq> 0"
  proof -
  have "0 <s w \<longleftrightarrow> 0 < int (unat w)" by (simp only: word_sless_alt sint_small [OF assms] signed_0)
  then show ?thesis by (simp only: of_nat_0_less_iff unat_gt_0)
qed

text \<open>Truncating a physical address to 32 bits commutes with address arithmetic.\<close>

lemma take_bit_32_64 [simp]: "take_bit 32 (take_bit 64 (a :: int)) = take_bit 32 a"
  by simp

lemma ucast_down_add [wrap_simps]: "(ucast (a + b :: u64) :: u32) = ucast a + ucast b"
proof (transfer, goal_cases)
  case (1 a b)
  have "take_bit 32 (take_bit 64 a + take_bit 64 b) = take_bit 32 (a + b)"
    using take_bit_add [of 32 a b] take_bit_add [of 32 "take_bit 64 a" "take_bit 64 b"]
    by (simp only: take_bit_32_64)
  then show ?case by simp
qed

lemma ucast_down_diff [wrap_simps]: "(ucast (a - b :: u64) :: u32) = ucast a - ucast b"
proof (transfer, goal_cases)
  case (1 a b)
  have "take_bit 32 (take_bit 64 a - take_bit 64 b) = take_bit 32 (a - b)"
    using take_bit_diff [of 32 a b] take_bit_diff [of 32 "take_bit 64 a" "take_bit 64 b"]
    by (simp only: take_bit_32_64)
  then show ?case by simp
qed

lemma ucast_down_mult [wrap_simps]: "(ucast (a * b :: u64) :: u32) = ucast a * ucast b"
proof (transfer, goal_cases)
  case (1 a b)
  have "take_bit 32 (take_bit 64 a * take_bit 64 b) = take_bit 32 (a * b)"
    using take_bit_mult [of 32 a b] take_bit_mult [of 32 "take_bit 64 a" "take_bit 64 b"]
    by (simp only: take_bit_32_64)
  then show ?case by simp
qed

lemma ucast_down_of_int [wrap_simps]: "(ucast (word_of_int i :: u64) :: u32) = word_of_int i"
  by transfer simp

text \<open>Sign extension of a word below the sign bit.\<close>

lemma scast_small:
  fixes a :: u32
  assumes "unat a < 2 ^ 31"
  shows "(scast a :: u64) = ucast a"
proof (rule bit_word_eqI)
  have nb: "\<not> bit a n" if "31 \<le> n" for n
  proof -
    have "unat a < 2 ^ n" using assms that power_increasing [of 31 n "2 :: nat"] by simp
    then have "\<not> bit (unat a) n" by (simp add: bit_iff_odd)
    moreover have "bit a n \<Longrightarrow> bit (unat a) n" by (simp add: bit_unsigned_iff possible_bit_def)
    ultimately show ?thesis by blast
  qed
  fix n
  assume "n < LENGTH(64)"
  then show "bit (scast a :: u64) n = bit (ucast a :: u64) n"
    using nb [of n] nb [of 31] by (cases "31 \<le> n") (auto simp: bit_simps min_def)
qed

lemma ucast_scast [simp]: "(ucast (scast (a :: u32) :: u64) :: u32) = a"
proof (rule bit_word_eqI)
  fix n
  assume "n < LENGTH(32)"
  then have "min n 31 = n" by simp
  then show "bit (ucast (scast a :: u64) :: u32) n = bit a n" by (auto simp: bit_simps)
qed

lemma ucast_up_down [simp]: "(ucast (ucast (w :: u32) :: u64) :: u32) = w"
  by transfer simp

text \<open>Clearing the lowest set bit makes a number smaller, and keeps its highest set bit.\<close>

lemma and_pred_less:
  fixes n :: "'a::len word"
  assumes "n AND (n - 1) \<noteq> 0"
  shows "unat (n AND (n - 1)) < unat n"
proof -
  have "n \<noteq> 0" using assms by auto
  then have "unat (n - 1) < unat n"
    by (simp add: unat_pred_word unat_gt_0)
  moreover have "n AND (n - 1) \<le> n - 1" by (simp add: word_and_le1)
  ultimately show ?thesis by (simp add: word_le_nat_alt)
qed

lemma and_pred_keeps_high_bit:
  fixes n :: nat
  assumes "2 ^ k \<le> n" "n < 2 ^ Suc k"
  shows "n AND (n - 1) = 0 \<and> n = 2 ^ k \<or> 2 ^ k \<le> n AND (n - 1)"
proof (cases "n = 2 ^ k")
  case True
  have "(2 ^ k :: nat) AND mask k = 0"
    by (simp flip: take_bit_eq_mask)
  with True show ?thesis by (simp add: mask_eq_exp_minus_1)
next
  case False
  have hi: "bit m k" if "2 ^ k \<le> m" "m < 2 ^ Suc k" for m :: nat
    using that by (simp add: bit_iff_odd div_nat_eqI [of "2 ^ k" 1])
  have "bit (n AND (n - 1)) k"
    using assms False hi [of n] hi [of "n - 1"] by (simp add: bit_simps)
  then have "2 ^ k \<le> n AND (n - 1)"
    by (rule contrapos_pp) (simp add: bit_iff_odd)
  then show ?thesis ..
qed

section \<open>Big-endian byte strings\<close>

definition be16 :: "u16 \<Rightarrow> u8 list" where
  "be16 w = [ucast (drop_bit 8 w), ucast w]"

definition be32 :: "u32 \<Rightarrow> u8 list" where
  "be32 w = [ucast (drop_bit 24 w), ucast (drop_bit 16 w), ucast (drop_bit 8 w), ucast w]"

definition of_be16 :: "u8 \<Rightarrow> u8 \<Rightarrow> u16" where
  "of_be16 a b = push_bit 8 (ucast a) OR ucast b"

definition of_be32 :: "u8 \<Rightarrow> u8 \<Rightarrow> u8 \<Rightarrow> u8 \<Rightarrow> u32" where
  "of_be32 a b c d =
     push_bit 24 (ucast a) OR push_bit 16 (ucast b) OR push_bit 8 (ucast c) OR ucast d"

lemma length_be16 [simp]: "length (be16 w) = 2"
  by (simp add: be16_def)

lemma length_be32 [simp]: "length (be32 w) = 4"
  by (simp add: be32_def)

lemma of_be16_be16 [simp]: "of_be16 (ucast (drop_bit 8 w)) (ucast w) = w"
  unfolding of_be16_def
  by (rule bit_word_eqI) (auto simp: bit_simps)

lemma of_be32_be32 [simp]:
  "of_be32 (ucast (drop_bit 24 w)) (ucast (drop_bit 16 w)) (ucast (drop_bit 8 w)) (ucast w) = w"
  unfolding of_be32_def
proof (rule bit_word_eqI, goal_cases)
  case (1 n)
  then show ?case
    by (cases "n < 8"; cases "n < 16"; cases "n < 24") (auto simp: bit_simps)
qed

end
