(* ===== verification/Core_Time.thy ===== *)
theory Core_Time
  imports Prelude
begin

text \<open>
  Model of the time arithmetic of \<open>src/lib/core/time.c\<close>, used for the deadline of the
  timed pop. The fields of \<open>struct timeval\<close> are 32-bit \<open>long\<close>s; the additions and
  subtractions are written over the integers, and the one product, in
  \<open>timeval_get_monotone\<close>, is reduced to the width of \<open>long\<close> before it is converted.
\<close>

record timeval =
  tv_sec :: int
  tv_usec :: int

definition timeval_add :: "timeval \<Rightarrow> timeval \<Rightarrow> timeval" where
  "timeval_add a b =
     (let sec = tv_sec a + tv_sec b; usec = tv_usec a + tv_usec b
      in if usec \<ge> 1000000 then \<lparr>tv_sec = sec + 1, tv_usec = usec - 1000000\<rparr>
         else \<lparr>tv_sec = sec, tv_usec = usec\<rparr>)"

text \<open>The result is the absolute difference and whether it is negative.\<close>

definition timeval_sub :: "timeval \<Rightarrow> timeval \<Rightarrow> bool \<times> timeval" where
  "timeval_sub a b =
     (if tv_sec a > tv_sec b then
        (False,
         if tv_usec a \<ge> tv_usec b
         then \<lparr>tv_sec = tv_sec a - tv_sec b, tv_usec = tv_usec a - tv_usec b\<rparr>
         else \<lparr>tv_sec = tv_sec a - tv_sec b - 1, tv_usec = 1000000 - tv_usec b + tv_usec a\<rparr>)
      else if tv_sec a < tv_sec b then
        (True,
         if tv_usec a > tv_usec b
         then \<lparr>tv_sec = tv_sec b - tv_sec a - 1, tv_usec = 1000000 - tv_usec a + tv_usec b\<rparr>
         else \<lparr>tv_sec = tv_sec b - tv_sec a, tv_usec = tv_usec b - tv_usec a\<rparr>)
      else
        (if tv_usec a \<ge> tv_usec b
         then (False, \<lparr>tv_sec = 0, tv_usec = tv_usec a - tv_usec b\<rparr>)
         else (True, \<lparr>tv_sec = 0, tv_usec = tv_usec b - tv_usec a\<rparr>)))"

definition timeval_get_monotone :: "timeval \<Rightarrow> u64" where
  "timeval_get_monotone a =
     word_of_int (signed_take_bit 31 (signed_take_bit 31 (tv_sec a * 1000000) + tv_usec a))"

definition timeval_from_monotone_us :: "u64 \<Rightarrow> timeval" where
  "timeval_from_monotone_us us =
     \<lparr>tv_sec = signed_take_bit 31 (uint us div 1000000), tv_usec = uint us mod 1000000\<rparr>"

section \<open>Microsecond value\<close>

definition tv_micro :: "timeval \<Rightarrow> int" where
  "tv_micro a = tv_sec a * 1000000 + tv_usec a"

definition tv_norm :: "timeval \<Rightarrow> bool" where
  "tv_norm a = (0 \<le> tv_usec a \<and> tv_usec a < 1000000)"

lemma tv_micro_less:
  assumes "tv_norm a" "tv_norm b"
  shows "tv_micro a < tv_micro b \<longleftrightarrow>
    tv_sec a < tv_sec b \<or> (tv_sec a = tv_sec b \<and> tv_usec a < tv_usec b)"
  using assms by (auto simp: tv_micro_def tv_norm_def)

text \<open>Addition and subtraction of normalised times are exact in microseconds and give
  normalised times; the subtraction gives the absolute difference and its sign.\<close>

lemma timeval_arith_exact:
  assumes "tv_norm a" "tv_norm b"
  shows "tv_norm (timeval_add a b) \<and> tv_micro (timeval_add a b) = tv_micro a + tv_micro b \<and>
    tv_norm (snd (timeval_sub a b)) \<and> tv_micro (snd (timeval_sub a b)) = \<bar>tv_micro a - tv_micro b\<bar> \<and>
    (fst (timeval_sub a b) \<longleftrightarrow> tv_micro a < tv_micro b)"
  using assms
  by (auto simp: timeval_add_def timeval_sub_def tv_norm_def tv_micro_def Let_def abs_if)

theorem timeval_arith_exact_witness:
  "fst (timeval_sub \<lparr>tv_sec = 1, tv_usec = 5\<rparr> \<lparr>tv_sec = 2, tv_usec = 1\<rparr>)"
  using timeval_arith_exact [of "\<lparr>tv_sec = 1, tv_usec = 5\<rparr>" "\<lparr>tv_sec = 2, tv_usec = 1\<rparr>"]
  by (simp add: tv_norm_def tv_micro_def)

text \<open>Converting a microsecond count to a \<open>timeval\<close> is exact up to the range of the
  seconds field; converting back is exact below 2^31 microseconds (about 35 minutes);
  from 2148 seconds on it overflows the 32-bit \<open>long\<close> and yields a wrong count.\<close>

lemma monotone_round_trip:
  "(uint us div 1000000 < 2 ^ 31 \<longrightarrow>
      tv_norm (timeval_from_monotone_us us) \<and> tv_micro (timeval_from_monotone_us us) = uint us) \<and>
   (uint us < 2 ^ 31 \<longrightarrow> timeval_get_monotone (timeval_from_monotone_us us) = us) \<and>
   timeval_get_monotone \<lparr>tv_sec = 2148, tv_usec = 0\<rparr> = - 2146967296"
proof (intro conjI impI)
  assume a: "uint us div 1000000 < 2 ^ 31"
  have "0 \<le> uint us div 1000000" by (simp add: pos_imp_zdiv_nonneg_iff)
  with a have s: "signed_take_bit 31 (uint us div 1000000) = uint us div 1000000"
    by (intro signed_take_bit_int_eq_self) linarith+
  show "tv_norm (timeval_from_monotone_us us)"
    by (simp add: timeval_from_monotone_us_def tv_norm_def)
  show "tv_micro (timeval_from_monotone_us us) = uint us"
    unfolding tv_micro_def timeval_from_monotone_us_def s by simp
next
  assume a: "uint us < 2 ^ 31"
  have z: "0 \<le> uint us" "0 \<le> uint us div 1000000" by (simp_all add: pos_imp_zdiv_nonneg_iff)
  have m: "uint us div 1000000 * 1000000 + uint us mod 1000000 = uint us" by simp
  have r: "0 \<le> uint us mod 1000000" by simp
  have fit: "signed_take_bit 31 x = x" if "0 \<le> x" "x \<le> uint us" for x :: int
    using that a by (intro signed_take_bit_int_eq_self) linarith+
  have "signed_take_bit 31 (uint us div 1000000) = uint us div 1000000"
    "signed_take_bit 31 (uint us div 1000000 * 1000000) = uint us div 1000000 * 1000000"
    "signed_take_bit 31 (uint us) = uint us"
    using z r m by (intro fit; linarith)+
  then show "timeval_get_monotone (timeval_from_monotone_us us) = us"
    by (simp only: timeval_get_monotone_def timeval_from_monotone_us_def timeval.simps m) simp
qed (simp add: timeval_get_monotone_def)

theorem monotone_round_trip_witness:
  "timeval_get_monotone (timeval_from_monotone_us 2500000) = 2500000"
  using monotone_round_trip [of 2500000] by simp

end
