(* ===== verification/User_DMA.thy ===== *)
theory User_DMA
  imports Prelude
begin

text \<open>
  Model of \<open>ipc/lib/fsl_user_dma.c\<close>: the user-space driver of one DMA channel. A driver
  object owns a descriptor list in shared memory (at most \<open>MAX_DMA_ENTRIES\<close> entries,
  chained by the physical address of the next entry) and the channel's register block.
  Reads of the volatile status register return the value the register block holds when
  the operation runs. Cache flushes and barriers have no counterpart.
\<close>

record mem_range =
  phys_addr :: u64
  range_vaddr :: vaddr
  range_size :: u32

record dma_regs =
  dma_mr :: u32
  dma_sr :: u32
  dma_eclndar :: u32
  dma_clndar :: u32

record dma_list_entry =
  sattr :: u32
  src :: u32
  dattr :: u32
  dest :: u32
  enlndar :: u32
  nlndar :: u32
  dlength :: u32
  reserved :: u32

record uspace_dma =
  dma_reg_addr :: vaddr
  dma_reg :: dma_regs
  list_index :: int
  dma_list_mem :: mem_range
  dma_list :: "int \<Rightarrow> dma_list_entry"

abbreviation (input) "MAX_DMA_ENTRIES \<equiv> (144 :: int)"
abbreviation (input) "DMA_ATTR \<equiv> (0x00050000 :: u32)"
abbreviation (input) "DMA_BUSY \<equiv> (4 :: u32)"
abbreviation (input) "DMA_START \<equiv> (0x08200001 :: u32)"
abbreviation (input) "DMA_STOP \<equiv> (0x08200000 :: u32)"
abbreviation (input) "DMA_ERRORS \<equiv> (0x90 :: u32)"
abbreviation (input) "ERR_DMA_LIST_FULL \<equiv> (20 :: int)"
abbreviation (input) "ERR_DMA_BUSY \<equiv> (21 :: int)"

text \<open>\<open>sizeof(dma_list_t)\<close> is 32: eight words.\<close>

abbreviation (input) "sizeof_dma_list \<equiv> (32 :: u64)"

definition fsl_uspace_dma_list_clear :: "uspace_dma \<Rightarrow> uspace_dma" where
  "fsl_uspace_dma_list_clear d = d\<lparr>list_index := 0\<rparr>"

text \<open>
  \<open>mapped\<close> is the address the UIO device was mapped at, \<open>regs\<close> and \<open>lst\<close> what the register
  block and the descriptor memory hold, \<open>None\<close> a failed allocation.
\<close>

definition fsl_uspace_dma_init ::
  "bool \<Rightarrow> vaddr \<Rightarrow> dma_regs \<Rightarrow> (int \<Rightarrow> dma_list_entry) \<Rightarrow> mem_range \<Rightarrow> u32 \<Rightarrow> uspace_dma option" where
  "fsl_uspace_dma_init malloc_ok mapped regs lst list_mem dma_ch_id =
     (if \<not> malloc_ok then None
      else Some \<lparr>dma_reg_addr = mapped + 0x100 + dma_ch_id * 0x80,
                 dma_reg = regs\<lparr>dma_clndar := ucast (phys_addr list_mem)\<rparr>,
                 list_index = 0, dma_list_mem = list_mem, dma_list = lst\<rparr>)"

definition dma_entry_addr :: "uspace_dma \<Rightarrow> int \<Rightarrow> u32" where
  "dma_entry_addr d i = ucast (phys_addr (dma_list_mem d) + word_of_int i * sizeof_dma_list)"

definition fsl_uspace_dma_add_entry :: "u32 \<Rightarrow> u64 \<Rightarrow> u32 \<Rightarrow> uspace_dma \<Rightarrow> int \<times> uspace_dma" where
  "fsl_uspace_dma_add_entry sa da len d =
     (let i = list_index d in
      if i = MAX_DMA_ENTRIES then (- ERR_DMA_LIST_FULL, d)
      else
        (0, d\<lparr>dma_list := (dma_list d)(i :=
                \<lparr>sattr = DMA_ATTR, src = sa,
                 dattr = DMA_ATTR OR ucast (drop_bit 32 da AND 0x0f),
                 dest = ucast da, enlndar = 0,
                 nlndar = dma_entry_addr d (i + 1),
                 dlength = len, reserved = 0\<rparr>),
              list_index := i + 1\<rparr>))"

definition fsl_uspace_dma_busy :: "uspace_dma \<Rightarrow> bool" where
  "fsl_uspace_dma_busy d = ((dma_sr (dma_reg d) AND DMA_BUSY) = DMA_BUSY)"

text \<open>\<open>None\<close>: the list is empty and the terminator would be written before its first entry.\<close>

definition fsl_uspace_dma_start :: "uspace_dma \<Rightarrow> (int \<times> uspace_dma) option" where
  "fsl_uspace_dma_start d =
     (if fsl_uspace_dma_busy d then Some (- ERR_DMA_BUSY, d)
      else if list_index d \<le> 0 then None
      else
        (let dma_err = dma_sr (dma_reg d) AND DMA_ERRORS;
             r1 = (if dma_err \<noteq> 0 then (dma_reg d)\<lparr>dma_sr := dma_sr (dma_reg d) OR dma_err\<rparr> else dma_reg d);
             n = list_index d - 1;
             l = (dma_list d)(n := (dma_list d n)\<lparr>nlndar := 1\<rparr>)
         in Some (0, d\<lparr>list_index := n, dma_list := l,
                       dma_reg := r1\<lparr>dma_mr := DMA_START, dma_eclndar := 0,
                                     dma_clndar := ucast (phys_addr (dma_list_mem d))\<rparr>\<rparr>)))"

text \<open>Adding several entries in order, as \<open>fsl_ipc_send_tx_req\<close> does.\<close>

fun dma_add_all :: "(u32 \<times> u64 \<times> u32) list \<Rightarrow> uspace_dma \<Rightarrow> uspace_dma" where
  "dma_add_all [] d = d"
| "dma_add_all ((sa, da, len) # es) d = dma_add_all es (snd (fsl_uspace_dma_add_entry sa da len d))"

section \<open>The descriptor chain\<close>

text \<open>
  \<open>dma_chain n d a\<close> follows the links from the descriptor at physical address \<open>a\<close> until
  the end-of-list marker, reading at most \<open>n\<close> descriptors of the list; \<open>None\<close> when a link
  leaves the list or the marker is not met.
\<close>

definition dma_index_of :: "uspace_dma \<Rightarrow> u32 \<Rightarrow> int option" where
  "dma_index_of d a =
     (if a = dma_entry_addr d (uint (a - dma_entry_addr d 0) div 32) \<and>
         uint (a - dma_entry_addr d 0) div 32 < MAX_DMA_ENTRIES
      then Some (uint (a - dma_entry_addr d 0) div 32) else None)"

fun dma_chain :: "nat \<Rightarrow> uspace_dma \<Rightarrow> u32 \<Rightarrow> dma_list_entry list option" where
  "dma_chain 0 d a = None"
| "dma_chain (Suc n) d a =
     (case dma_index_of d a of
        None \<Rightarrow> None
      | Some i \<Rightarrow>
          (let e = dma_list d i in
           if nlndar e = 1 then Some [e]
           else map_option ((#) e) (dma_chain n d (nlndar e))))"

lemma dma_entry_addr_eq: "dma_entry_addr d i = ucast (phys_addr (dma_list_mem d)) + word_of_int i * 32"
  by (simp add: dma_entry_addr_def wrap_simps)

lemma uint_times32:
  assumes "0 \<le> i" "i < 144"
  shows "uint (word_of_int i * 32 :: u32) = i * 32"
proof -
  have "word_of_int i * 32 = (word_of_int (i * 32) :: u32)" by simp
  moreover have "uint (word_of_int (i * 32) :: u32) = i * 32"
    using assms by (simp only: uint_word_of_int_eq) (simp add: take_bit_int_eq_self)
  ultimately show ?thesis by simp
qed

lemma dma_index_of_entry:
  assumes "0 \<le> i" "i < 144"
  shows "dma_index_of d (dma_entry_addr d i) = Some i"
  using assms uint_times32 [OF assms]
  by (simp add: dma_index_of_def dma_entry_addr_eq)

text \<open>The end marker is odd, so no link into a 32-byte aligned list is mistaken for it.\<close>

lemma dma_link_not_end:
  assumes "ucast (phys_addr (dma_list_mem d)) mod (32 :: u32) = 0"
  shows "dma_entry_addr d i \<noteq> 1"
proof
  assume one: "dma_entry_addr d i = 1"
  have "(2 :: u32) dvd 32" by (rule dvdI [of _ _ 16]) simp
  moreover have "(32 :: u32) dvd ucast (phys_addr (dma_list_mem d))" using assms by (rule mod_0_imp_dvd)
  ultimately have "even (ucast (phys_addr (dma_list_mem d)) :: u32)" by (rule dvd_trans)
  moreover have "even (word_of_int i * 32 :: u32)" using \<open>(2 :: u32) dvd 32\<close> by (rule dvd_mult)
  ultimately have "even (dma_entry_addr d i)" unfolding dma_entry_addr_eq by (rule dvd_add)
  with one show False by simp
qed

definition dma_entry :: "uspace_dma \<Rightarrow> int \<Rightarrow> u32 \<times> u64 \<times> u32 \<Rightarrow> dma_list_entry" where
  "dma_entry d i = (\<lambda>(sa, da, len).
     \<lparr>sattr = DMA_ATTR, src = sa, dattr = DMA_ATTR OR ucast (drop_bit 32 da AND 0x0f),
      dest = ucast da, enlndar = 0, nlndar = dma_entry_addr d (i + 1), dlength = len, reserved = 0\<rparr>)"

lemma add_entry_room:
  assumes "list_index d \<noteq> 144"
  shows "fsl_uspace_dma_add_entry sa da len d =
    (0, d\<lparr>dma_list := (dma_list d)(list_index d := dma_entry d (list_index d) (sa, da, len)),
          list_index := list_index d + 1\<rparr>)"
  using assms by (simp add: fsl_uspace_dma_add_entry_def dma_entry_def Let_def)

lemma dma_entry_addr_cong:
  assumes "dma_list_mem d' = dma_list_mem d"
  shows "dma_entry_addr d' i = dma_entry_addr d i"
    "dma_entry d' i e = dma_entry d i e" "dma_index_of d' a = dma_index_of d a"
  by (simp_all add: dma_entry_addr_def dma_entry_def dma_index_of_def assms split: prod.split)

lemma dma_add_all_spec:
  assumes "0 \<le> list_index d" "list_index d + int (length es) \<le> 144"
  shows "list_index (dma_add_all es d) = list_index d + int (length es) \<and>
    dma_list_mem (dma_add_all es d) = dma_list_mem d \<and> dma_reg (dma_add_all es d) = dma_reg d \<and>
    (\<forall>i. i < list_index d \<longrightarrow> dma_list (dma_add_all es d) i = dma_list d i) \<and>
    (\<forall>j < length es. dma_list (dma_add_all es d) (list_index d + int j) =
        dma_entry d (list_index d + int j) (es ! j))"
  using assms
proof (induction es arbitrary: d)
  case (Cons e es)
  obtain sa da len where e: "e = (sa, da, len)" by (cases e)
  let ?d = "d\<lparr>dma_list := (dma_list d)(list_index d := dma_entry d (list_index d) e),
              list_index := list_index d + 1\<rparr>"
  have step: "dma_add_all (e # es) d = dma_add_all es ?d"
    using Cons.prems by (simp add: e add_entry_room)
  have ih: "list_index (dma_add_all es ?d) = list_index ?d + int (length es) \<and>
    dma_list_mem (dma_add_all es ?d) = dma_list_mem ?d \<and> dma_reg (dma_add_all es ?d) = dma_reg ?d \<and>
    (\<forall>i. i < list_index ?d \<longrightarrow> dma_list (dma_add_all es ?d) i = dma_list ?d i) \<and>
    (\<forall>j < length es. dma_list (dma_add_all es ?d) (list_index ?d + int j) =
        dma_entry ?d (list_index ?d + int j) (es ! j))"
    using Cons.prems by (intro Cons.IH) auto
  have tl: "dma_list (dma_add_all es ?d) (list_index d + int j) =
      dma_entry d (list_index d + int j) ((e # es) ! j)" if "j < length (e # es)" for j
  proof (cases j)
    case 0
    then show ?thesis using ih by simp
  next
    case (Suc m)
    then have "dma_list (dma_add_all es ?d) (list_index ?d + int m) =
        dma_entry ?d (list_index ?d + int m) (es ! m)"
      using ih that by simp
    then show ?thesis
      using dma_entry_addr_cong(2) [of ?d d] Suc by (simp add: algebra_simps)
  qed
  show ?case unfolding step using ih tl by (auto simp: algebra_simps)
qed simp

lemma dma_chain_walk:
  assumes links: "\<And>i. 0 \<le> i \<Longrightarrow> i < int n \<Longrightarrow>
      nlndar (dma_list d i) = (if i = int n - 1 then 1 else dma_entry_addr d (i + 1))"
    and noend: "\<And>i. dma_entry_addr d i \<noteq> 1" and n: "n \<le> 144"
  shows "k < n \<Longrightarrow> n - k \<le> m \<Longrightarrow>
    dma_chain m d (dma_entry_addr d (int k)) = Some (map (\<lambda>i. dma_list d (int i)) [k..<n])"
proof (induction "n - k" arbitrary: k m)
  case (Suc x)
  obtain m' where m: "m = Suc m'" using Suc.prems Suc.hyps(2) by (cases m) auto
  have idx: "dma_index_of d (dma_entry_addr d (int k)) = Some (int k)"
    using Suc.prems n by (intro dma_index_of_entry) auto
  have l: "nlndar (dma_list d (int k)) = (if int k = int n - 1 then 1 else dma_entry_addr d (int k + 1))"
    using links [of "int k"] Suc.prems by simp
  show ?case
  proof (cases "Suc k = n")
    case True
    then have "nlndar (dma_list d (int k)) = 1" using l by auto
    then show ?thesis using True by (auto simp: m idx Let_def)
  next
    case False
    then have "dma_chain m' d (dma_entry_addr d (int (Suc k))) = Some (map (\<lambda>i. dma_list d (int i)) [Suc k..<n])"
      using Suc.prems Suc.hyps(2) m by (intro Suc.hyps(1)) auto
    moreover have "nlndar (dma_list d (int k)) = dma_entry_addr d (int (Suc k))"
      using l False Suc.prems by (auto simp: algebra_simps)
    ultimately show ?thesis
      using noend Suc.prems by (simp add: m idx Let_def upt_conv_Cons)
  qed
qed simp

lemma dma_start_idle:
  assumes "\<not> fsl_uspace_dma_busy d" "0 < list_index d"
  shows "\<exists>d'. fsl_uspace_dma_start d = Some (0, d') \<and> dma_list_mem d' = dma_list_mem d \<and>
    dma_clndar (dma_reg d') = ucast (phys_addr (dma_list_mem d)) \<and> dma_mr (dma_reg d') = DMA_START \<and>
    dma_list d' = (dma_list d)(list_index d - 1 := (dma_list d (list_index d - 1))\<lparr>nlndar := 1\<rparr>)"
  using assms by (simp add: fsl_uspace_dma_start_def Let_def)

lemma dma_chain_after_start:
  assumes "\<not> fsl_uspace_dma_busy d" "0 < length es" "length es \<le> 144"
    "ucast (phys_addr (dma_list_mem d)) mod (32 :: u32) = 0"
  shows "\<exists>d' c. fsl_uspace_dma_start (dma_add_all es (fsl_uspace_dma_list_clear d)) = Some (0, d') \<and>
    dma_mr (dma_reg d') = DMA_START \<and>
    dma_chain 144 d' (dma_clndar (dma_reg d')) = Some c \<and>
    map (\<lambda>e. (src e, dest e, dlength e)) c = map (\<lambda>(sa, da, len). (sa, ucast da, len)) es"
proof -
  let ?c = "fsl_uspace_dma_list_clear d"
  let ?a = "dma_add_all es ?c"
  have c: "list_index ?c = 0" "dma_list_mem ?c = dma_list_mem d" "dma_reg ?c = dma_reg d"
    by (simp_all add: fsl_uspace_dma_list_clear_def)
  have spec: "list_index ?a = int (length es)" "dma_list_mem ?a = dma_list_mem d"
    "dma_reg ?a = dma_reg d"
    "\<And>j. j < length es \<Longrightarrow> dma_list ?a (int j) = dma_entry ?c (int j) (es ! j)"
    using dma_add_all_spec [of ?c es] assms(3) c by auto
  have nb: "\<not> fsl_uspace_dma_busy ?a" using assms(1) spec(3) by (simp add: fsl_uspace_dma_busy_def)
  have pos: "0 < list_index ?a" using spec(1) assms(2) by simp
  from dma_start_idle [OF nb pos] obtain d' where d': "fsl_uspace_dma_start ?a = Some (0, d')"
    "dma_list_mem d' = dma_list_mem d"
    "dma_clndar (dma_reg d') = ucast (phys_addr (dma_list_mem d))" "dma_mr (dma_reg d') = DMA_START"
    "dma_list d' = (dma_list ?a)(int (length es) - 1 := (dma_list ?a (int (length es) - 1))\<lparr>nlndar := 1\<rparr>)"
    by (auto simp: spec(1,2))
  note addr = dma_entry_addr_cong [OF d'(2)] dma_entry_addr_cong [OF c(2)]
  have links: "nlndar (dma_list d' i) = (if i = int (length es) - 1 then 1 else dma_entry_addr d' (i + 1))"
    if "0 \<le> i" "i < int (length es)" for i
    using that spec(4) [of "nat i"] by (auto simp: d'(5) dma_entry_def addr split: prod.split)
  have start: "dma_clndar (dma_reg d') = dma_entry_addr d' (int 0)"
    by (simp add: d'(2,3) dma_entry_addr_def)
  have walk: "dma_chain 144 d' (dma_entry_addr d' (int 0)) = Some (map (\<lambda>i. dma_list d' (int i)) [0..<length es])"
    by (rule dma_chain_walk [OF links])
       (use assms(2,3,4) dma_link_not_end [of d] in \<open>auto simp: addr\<close>)
  have proj: "(src (dma_list d' (int i)), dest (dma_list d' (int i)), dlength (dma_list d' (int i))) =
      (\<lambda>(sa, da, len). (sa, ucast da, len)) (es ! i)" if "i < length es" for i
    using spec(4) [OF that] by (auto simp: d'(5) dma_entry_def split: prod.split)
  have "map (\<lambda>e. (src e, dest e, dlength e)) (map (\<lambda>i. dma_list d' (int i)) [0..<length es]) =
      map (\<lambda>(sa, da, len). (sa, ucast da, len)) es"
    using proj by (intro nth_equalityI) auto
  then show ?thesis using d'(1,4) walk start by auto
qed

text \<open>A transfer built on an idle channel and an aligned list by clearing the list and
  adding up to 144 entries is started, and following the links from the address given to
  the controller meets exactly the added transfers, in the order they were added, and
  then the end marker.\<close>

lemma dma_chain_complete:
  assumes "\<not> fsl_uspace_dma_busy d" "0 < length es" "length es \<le> 144"
    "ucast (phys_addr (dma_list_mem d)) mod (32 :: u32) = 0"
  shows "\<exists>d' c. fsl_uspace_dma_start (dma_add_all es (fsl_uspace_dma_list_clear d)) = Some (0, d') \<and>
    dma_mr (dma_reg d') = DMA_START \<and>
    dma_chain 144 d' (dma_clndar (dma_reg d')) = Some c \<and>
    map (\<lambda>e. (src e, dest e, dlength e)) c = map (\<lambda>(sa, da, len). (sa, ucast da, len)) es"
  using assms by (rule dma_chain_after_start)

definition dma_sample :: uspace_dma where
  "dma_sample = \<lparr>dma_reg_addr = 0x100,
     dma_reg = \<lparr>dma_mr = 0, dma_sr = 0, dma_eclndar = 0, dma_clndar = 0\<rparr>, list_index = 7,
     dma_list_mem = \<lparr>phys_addr = 0x1000, range_vaddr = 0x2000, range_size = 0x2000\<rparr>,
     dma_list = (\<lambda>_. \<lparr>sattr = 0, src = 0, dattr = 0, dest = 0, enlndar = 0, nlndar = 0,
                     dlength = 0, reserved = 0\<rparr>)\<rparr>"

theorem dma_chain_complete_witness:
  "\<exists>d' c. fsl_uspace_dma_start (dma_add_all [(1, 2, 3), (4, 0x500000006, 7)] (fsl_uspace_dma_list_clear dma_sample)) =
     Some (0, d') \<and> dma_chain 144 d' (dma_clndar (dma_reg d')) = Some c \<and>
     map (\<lambda>e. (src e, dest e, dlength e)) c = [(1, 2, 3), (4, 6, 7)]"
  using dma_chain_complete [of dma_sample "[(1, 2, 3), (4, 0x500000006, 7)]"]
  by (auto simp: fsl_uspace_dma_busy_def dma_sample_def)

text \<open>A full list and a busy channel are reported and leave the driver unchanged.\<close>

lemma dma_errors_keep_state:
  "(list_index d = 144 \<longrightarrow> fsl_uspace_dma_add_entry sa da len d = (- 20, d)) \<and>
   (fsl_uspace_dma_busy d \<longrightarrow> fsl_uspace_dma_start d = Some (- 21, d)) \<and>
   (list_index d \<noteq> 144 \<longrightarrow> fst (fsl_uspace_dma_add_entry sa da len d) = 0)"
  by (simp add: fsl_uspace_dma_add_entry_def fsl_uspace_dma_start_def Let_def)

theorem dma_errors_keep_state_witness:
  "fsl_uspace_dma_add_entry 1 2 3 (dma_sample\<lparr>list_index := 144\<rparr>) = (- 20, dma_sample\<lparr>list_index := 144\<rparr>)"
  using dma_errors_keep_state [of "dma_sample\<lparr>list_index := 144\<rparr>" 1 2 3] by simp

end
