(* ===== verification/IPC_Channel.thy ===== *)
theory IPC_Channel
  imports User_DMA
begin

text \<open>
  Model of the channel operations of \<open>ipc/lib/fsl_ipc_channel.c\<close> over the shared
  structures of \<open>kernel/fsl_heterogeneous_ipc.h\<close>. A state holds the user-space instance,
  the table of channel addresses, and the mapped memory as one heap per type: channel
  control structures, buffer descriptors, bytes, and the sequence of doorbell writes to
  the DSP's register space. Each operation returns the code's return value and the new
  state, or a fault where the C code would index outside an array, dereference a null
  pointer or divide by zero.

  The result of \<open>fsl_ipc_lock\<close> for a channel is the argument \<open>lk\<close> (constantly 0 when the
  library is built without \<open>CONFIG_LOCK\<close>).
\<close>

section \<open>Shared structures\<close>

datatype os_het_ipc_ind =
  OS_HET_VIRTUAL_INT | OS_HET_PA_MPIC | OS_HET_DSP_MESH | OS_HET_DSP_MPIC_MSI | OS_HET_NO_INT

datatype ipc_ch_type = IPC_MSG_CH | IPC_PTR_CH | IPC_TXREQ_CH

record os_het_ipc_bd =
  msg_ptr :: u64
  msg_len :: u32

record os_het_ipc_channel =
  start_validation_value :: u32
  producer_initialized :: u32
  consumer_initialized :: u32
  ch_id :: u32
  producer_num :: u32
  consumer_num :: u32
  bd_ring_size :: u32
  max_msg_size :: u32
  ch_type :: ipc_ch_type
  bd_base :: u64
  ipc_ind :: os_het_ipc_ind
  ind_offset :: u32
  ind_value :: u32
  local_producer_num :: u32
  local_consumer_num :: u32
  semaphore_pointer :: u64
  end_validation_value :: u32

text \<open>The global IPC structure, and the fields of the control structure the IPC code uses.\<close>

record os_het_ipc =
  ipc_start_validation :: u32
  num_ipc_channels :: u32
  ipc_max_bd_size :: u32
  ipc_channels :: u64
  ipc_end_validation :: u32

record os_het_control =
  pa_initialized :: u32
  sc_initialized :: u32
  ctrl_ipc :: u64

text \<open>User-space side: one \<open>ipc_channel_us\<close> per configured channel, one instance per RAT.\<close>

record ipc_channel_us =
  us_cbfunc :: vaddr
  us_signal :: u32
  us_channel_id :: u32

record ipc_userspace =
  max_txreq_lbuff_size :: u32
  txreq_tb_lbuff_paddr :: u32
  us_channels :: "ipc_channel_us list"
  p2vcb :: "u32 \<Rightarrow> vaddr"
  dev_het_ipc :: int
  txreq_inprocess :: bool
  max_depth :: u32
  max_channels :: u32
  sh_ctrl_area :: mem_range
  dsp_ccsr :: mem_range
  pa_ccsr :: mem_range
  udma :: "uspace_dma option"
  rat_id :: u32
  ipc_inst :: vaddr

record ipc_state =
  us :: ipc_userspace
  ctrl :: os_het_control
  het_ipcs :: "vaddr \<Rightarrow> os_het_ipc"
  chvpaddr_arr :: "(u32 \<times> vaddr) list"
  chans :: "vaddr \<Rightarrow> os_het_ipc_channel"
  bds :: "vaddr \<Rightarrow> os_het_ipc_bd"
  bytes :: "vaddr \<Rightarrow> u8"
  doorbells :: "(vaddr \<times> u32) list"

datatype ipc_fault = Bad_channel | Null_pointer | Division_by_zero | Array_bounds | No_dma

type_synonym 'a ipc = "ipc_fault + 'a"
type_synonym lock_result = "u32 \<Rightarrow> int"

abbreviation (input) "OS_HET_INITIALIZED \<equiv> (0xFEDCBA98 :: u32)"
abbreviation (input) "GCR_OFFSET \<equiv> (0x8F2000 :: u32)"
abbreviation (input) "MAX_CHANNELS \<equiv> (64 :: nat)"
abbreviation (input) "MAX_TX_REQ_MSG_SIZE \<equiv> (1020 :: u32)"
abbreviation (input) "ERR_CHANNEL_NOT_FOUND \<equiv> (1 :: int)"
abbreviation (input) "ERR_CHANNEL_FULL \<equiv> (3 :: int)"
abbreviation (input) "ERR_CHANNEL_EMPTY \<equiv> (5 :: int)"
abbreviation (input) "TXREQ_DONE \<equiv> (6 :: int)"
abbreviation (input) "TXREQ_IN_PROCESS \<equiv> (7 :: int)"
abbreviation (input) "TXREQ_ERR \<equiv> (8 :: int)"
abbreviation (input) "ERR_INVALID_DEPTH \<equiv> (9 :: int)"
abbreviation (input) "ERR_CALLOC \<equiv> (13 :: int)"
abbreviation (input) "ERR_DEV_HETIPC_FAIL \<equiv> (14 :: int)"
abbreviation (input) "ERR_INCORRECT_RAT_MODE \<equiv> (27 :: int)"
abbreviation (input) "ERR_PRODUCER_NOT_INIT \<equiv> (25 :: int)"
abbreviation (input) "ERR_CONSUMER_NOT_INIT \<equiv> (26 :: int)"
abbreviation (input) "ERR_MAX_MSG_SIZE_EXCD \<equiv> (28 :: int)"
abbreviation (input) "ERR_MAX_MSG_SIZE_EXCD_TXREQ \<equiv> (29 :: int)"

section \<open>Tracker arithmetic\<close>

text \<open>
  \<open>os_het_ch_free_bds\<close>: in the second branch the correction term \<open>1ULL << 32\<close> makes the
  subtraction 64 bits wide; the result is truncated to \<open>int\<close>.
\<close>

definition os_het_ch_free_bds :: "os_het_ipc_channel \<Rightarrow> u32" where
  "os_het_ch_free_bds ch =
     (if producer_num ch \<ge> consumer_num ch
      then bd_ring_size ch - (producer_num ch - consumer_num ch)
      else ucast ((ucast (bd_ring_size ch) :: u64) -
                  (ucast (producer_num ch - consumer_num ch) + push_bit 32 1)))"

definition OS_HET_CH_EMPTY :: "os_het_ipc_channel \<Rightarrow> bool" where
  "OS_HET_CH_EMPTY ch = (producer_num ch = consumer_num ch)"

definition OS_HET_CH_FULL :: "os_het_ipc_channel \<Rightarrow> bool" where
  "OS_HET_CH_FULL ch = (os_het_ch_free_bds ch = 0)"

section \<open>Memory access\<close>

definition get_channel_vaddr :: "u32 \<Rightarrow> ipc_state \<Rightarrow> vaddr option" where
  "get_channel_vaddr c st =
     (if unat c < length (chvpaddr_arr st) then Some (snd (chvpaddr_arr st ! unat c)) else None)"

definition get_channel_paddr :: "u32 \<Rightarrow> ipc_state \<Rightarrow> u32 option" where
  "get_channel_paddr c st =
     (if unat c < length (chvpaddr_arr st) then Some (fst (chvpaddr_arr st ! unat c)) else None)"

text \<open>\<open>IPC_CH_VADDR\<close>: physical to virtual address inside the shared control area.\<close>

definition IPC_CH_VADDR :: "u64 \<Rightarrow> ipc_state \<Rightarrow> vaddr" where
  "IPC_CH_VADDR a st =
     ucast a - ucast (phys_addr (sh_ctrl_area (us st))) + range_vaddr (sh_ctrl_area (us st))"

text \<open>\<open>&bd_base[i]\<close> with \<open>sizeof(os_het_ipc_bd_t) = 16\<close>.\<close>

definition bd_at :: "ipc_state \<Rightarrow> os_het_ipc_channel \<Rightarrow> u32 \<Rightarrow> vaddr" where
  "bd_at st ch i = IPC_CH_VADDR (bd_base ch) st + i * 16"

definition memcpy :: "(vaddr \<Rightarrow> u8) \<Rightarrow> vaddr \<Rightarrow> vaddr \<Rightarrow> u32 \<Rightarrow> vaddr \<Rightarrow> u8" where
  "memcpy m dst s n = (\<lambda>a. if a - dst < n then m (s + (a - dst)) else m a)"

definition store_be32 :: "(vaddr \<Rightarrow> u8) \<Rightarrow> vaddr \<Rightarrow> u32 \<Rightarrow> vaddr \<Rightarrow> u8" where
  "store_be32 m a w = (\<lambda>b. if b - a < 4 then be32 w ! unat (b - a) else m b)"

definition set_chan :: "vaddr \<Rightarrow> os_het_ipc_channel \<Rightarrow> ipc_state \<Rightarrow> ipc_state" where
  "set_chan v ch st = st\<lparr>chans := (chans st)(v := ch)\<rparr>"

definition generate_indication :: "os_het_ipc_channel \<Rightarrow> ipc_state \<Rightarrow> ipc_state" where
  "generate_indication ch st =
     (if ipc_ind ch = OS_HET_VIRTUAL_INT
      then st\<lparr>doorbells := doorbells st @
             [(range_vaddr (dsp_ccsr (us st)) + GCR_OFFSET + ind_offset ch, ind_value ch)]\<rparr>
      else st)"

text \<open>The two counters of each side advance together.\<close>

definition advance_producer :: "os_het_ipc_channel \<Rightarrow> os_het_ipc_channel" where
  "advance_producer ch =
     ch\<lparr>producer_num := producer_num ch + 1,
        local_producer_num := (local_producer_num ch + 1) mod bd_ring_size ch\<rparr>"

definition advance_consumer :: "os_het_ipc_channel \<Rightarrow> os_het_ipc_channel" where
  "advance_consumer ch =
     ch\<lparr>consumer_num := consumer_num ch + 1,
        local_consumer_num := (local_consumer_num ch + 1) mod bd_ring_size ch\<rparr>"

section \<open>Producer operations\<close>

definition fsl_ipc_open_prod_ch :: "u32 \<Rightarrow> ipc_state \<Rightarrow> (int \<times> ipc_state) ipc" where
  "fsl_ipc_open_prod_ch c st =
     (case get_channel_vaddr c st of
        None \<Rightarrow> Inl Bad_channel
      | Some v \<Rightarrow> Inr (0, set_chan v ((chans st v)\<lparr>producer_initialized := OS_HET_INITIALIZED\<rparr>) st))"

definition fsl_ipc_send_ptr ::
  "lock_result \<Rightarrow> u32 \<Rightarrow> u32 \<Rightarrow> u32 \<Rightarrow> ipc_state \<Rightarrow> (int \<times> ipc_state) ipc" where
  "fsl_ipc_send_ptr lk c addr len st =
     (case get_channel_vaddr c st of
        None \<Rightarrow> Inl Bad_channel
      | Some v \<Rightarrow>
          (let ch = chans st v in
           if consumer_initialized ch \<noteq> OS_HET_INITIALIZED then Inr (- ERR_CONSUMER_NOT_INIT, st)
           else if lk c < 0 then Inr (lk c, st)
           else if OS_HET_CH_FULL ch then Inr (- ERR_CHANNEL_FULL, st)
           else if bd_ring_size ch = 0 then Inl Division_by_zero
           else
             (let bd = bd_at st ch (local_producer_num ch);
                  st1 = st\<lparr>bds := (bds st)(bd := \<lparr>msg_ptr = ucast addr, msg_len = len\<rparr>)\<rparr>;
                  st2 = set_chan v (advance_producer ch) st1
              in Inr (lk c, if ipc_ind ch \<noteq> OS_HET_NO_INT then generate_indication ch st2 else st2))))"

definition fsl_ipc_send_msg ::
  "lock_result \<Rightarrow> u32 \<Rightarrow> vaddr \<Rightarrow> u32 \<Rightarrow> ipc_state \<Rightarrow> (int \<times> ipc_state) ipc" where
  "fsl_ipc_send_msg lk c src_buf len st =
     (case get_channel_vaddr c st of
        None \<Rightarrow> Inl Bad_channel
      | Some v \<Rightarrow>
          (let ch = (chans st v)\<lparr>producer_initialized := OS_HET_INITIALIZED\<rparr>;
               st0 = set_chan v ch st
           in
           if consumer_initialized ch \<noteq> OS_HET_INITIALIZED then Inr (- ERR_CONSUMER_NOT_INIT, st0)
           else if lk c < 0 then Inr (lk c, st0)
           else if OS_HET_CH_FULL ch then Inr (- ERR_CHANNEL_FULL, st0)
           else
             (let bd = bd_at st0 ch (local_producer_num ch);
                  va = p2vcb (us st) (ucast (msg_ptr (bds st0 bd)))
              in
              if va = 0 then Inr (- 1, st0)
              else if len > max_msg_size ch then Inr (- ERR_MAX_MSG_SIZE_EXCD, st0)
              else if bd_ring_size ch = 0 then Inl Division_by_zero
              else
                (let st1 = st0\<lparr>bytes := memcpy (bytes st0) va src_buf len,
                               bds := (bds st0)(bd := (bds st0 bd)\<lparr>msg_len := len\<rparr>)\<rparr>;
                     st2 = set_chan v (advance_producer ch) st1
                 in Inr (lk c, if ipc_ind ch \<noteq> OS_HET_NO_INT then generate_indication ch st2 else st2)))))"

section \<open>Consumer operations\<close>

text \<open>The out-parameters are written only where the code reaches their assignment.\<close>

definition fsl_ipc_recv_ptr ::
  "lock_result \<Rightarrow> u32 \<Rightarrow> ipc_state \<Rightarrow> (int \<times> (u32 \<times> u32) option \<times> ipc_state) ipc" where
  "fsl_ipc_recv_ptr lk c st =
     (if c \<ge> max_channels (us st) then Inr (- ERR_CHANNEL_NOT_FOUND, None, st)
      else case get_channel_vaddr c st of
        None \<Rightarrow> Inl Bad_channel
      | Some v \<Rightarrow>
          (let ch = chans st v in
           if producer_initialized ch \<noteq> OS_HET_INITIALIZED then Inr (- ERR_PRODUCER_NOT_INIT, None, st)
           else if lk c < 0 then Inr (lk c, None, st)
           else if OS_HET_CH_EMPTY ch then Inr (- ERR_CHANNEL_EMPTY, None, st)
           else if bd_ring_size ch = 0 then Inl Division_by_zero
           else
             (let bd = bds st (bd_at st ch (local_consumer_num ch))
              in Inr (lk c, Some (ucast (msg_ptr bd), msg_len bd), set_chan v (advance_consumer ch) st))))"

text \<open>
  \<open>rd\<close> stands for the blocking \<open>read\<close> of the IPC device: its return value, the mask of
  ready channels, and the state of the shared memory when it returns.
\<close>

definition fsl_ipc_recv_ptr_block ::
  "lock_result \<Rightarrow> (ipc_state \<Rightarrow> int \<times> u32 \<times> ipc_state) \<Rightarrow> u32 \<Rightarrow> ipc_state \<Rightarrow>
     (int \<times> (u32 \<times> u32) option \<times> ipc_state) ipc" where
  "fsl_ipc_recv_ptr_block lk rd c st =
     (if c \<ge> max_channels (us st) then Inr (- ERR_CHANNEL_NOT_FOUND, None, st)
      else case fsl_ipc_recv_ptr lk c st of
        Inl e \<Rightarrow> Inl e
      | Inr (ret, out, st1) \<Rightarrow>
          if ret = 0 then Inr (ret, out, st1)
          else
            (case rd st1 of (n, ready_mask, st2) \<Rightarrow>
               if n = 4 \<and> ready_mask AND push_bit (unat c) 1 \<noteq> 0 then fsl_ipc_recv_ptr lk c st2
               else Inr (- ERR_CHANNEL_EMPTY, None, st2)))"

definition fsl_ipc_recv_ptr_hold ::
  "lock_result \<Rightarrow> u32 \<Rightarrow> ipc_state \<Rightarrow> (int \<times> (u32 \<times> u32) option \<times> ipc_state) ipc" where
  "fsl_ipc_recv_ptr_hold lk c st =
     (case get_channel_vaddr c st of
        None \<Rightarrow> Inl Bad_channel
      | Some v \<Rightarrow>
          (let ch = chans st v in
           if lk c < 0 then Inr (lk c, None, st)
           else if OS_HET_CH_EMPTY ch then Inr (- ERR_CHANNEL_EMPTY, None, st)
           else
             (let bd = bds st (bd_at st ch (local_consumer_num ch))
              in Inr (lk c, Some (ucast (msg_ptr bd), msg_len bd), st))))"

definition fsl_ipc_set_consumed_status :: "lock_result \<Rightarrow> u32 \<Rightarrow> ipc_state \<Rightarrow> (int \<times> ipc_state) ipc" where
  "fsl_ipc_set_consumed_status lk c st =
     (case get_channel_vaddr c st of
        None \<Rightarrow> Inl Bad_channel
      | Some v \<Rightarrow>
          (let ch = chans st v in
           if lk c < 0 then Inr (lk c, st)
           else if OS_HET_CH_EMPTY ch then Inr (lk c, st)
           else if bd_ring_size ch = 0 then Inl Division_by_zero
           else Inr (lk c, set_chan v (advance_consumer ch) st)))"

text \<open>\<open>fsl_ipc_recv_msg\<close> copies through the translated pointer without testing it for null.\<close>

definition fsl_ipc_recv_msg ::
  "lock_result \<Rightarrow> u32 \<Rightarrow> vaddr \<Rightarrow> ipc_state \<Rightarrow> (int \<times> u32 option \<times> ipc_state) ipc" where
  "fsl_ipc_recv_msg lk c addr st =
     (case get_channel_vaddr c st of
        None \<Rightarrow> Inl Bad_channel
      | Some v \<Rightarrow>
          (let ch = chans st v in
           if lk c < 0 then Inr (lk c, None, st)
           else if OS_HET_CH_EMPTY ch then Inr (- ERR_CHANNEL_EMPTY, None, st)
           else
             (let bd = bds st (bd_at st ch (local_consumer_num ch));
                  va = p2vcb (us st) (ucast (msg_ptr bd));
                  len = msg_len bd
              in
              if va = 0 \<and> len \<noteq> 0 then Inl Null_pointer
              else if bd_ring_size ch = 0 then Inl Division_by_zero
              else Inr (lk c, Some len,
                     set_chan v (advance_consumer ch) (st\<lparr>bytes := memcpy (bytes st) addr va len\<rparr>)))))"

definition fsl_ipc_recv_msg_ptr ::
  "lock_result \<Rightarrow> u32 \<Rightarrow> ipc_state \<Rightarrow> (int \<times> (vaddr \<times> u32) option \<times> ipc_state) ipc" where
  "fsl_ipc_recv_msg_ptr lk c st =
     (case get_channel_vaddr c st of
        None \<Rightarrow> Inl Bad_channel
      | Some v \<Rightarrow>
          (let ch = chans st v in
           if producer_initialized ch = 0 then Inr (- ERR_PRODUCER_NOT_INIT, None, st)
           else if lk c < 0 then Inr (lk c, None, st)
           else if OS_HET_CH_EMPTY ch then Inr (- ERR_CHANNEL_EMPTY, None, st)
           else
             (let bd = bds st (bd_at st ch (local_consumer_num ch))
              in Inr (lk c, Some (p2vcb (us st) (ucast (msg_ptr bd)), msg_len bd), st))))"

section \<open>Receive status\<close>

fun chk_recv_loop :: "ipc_channel_us list \<Rightarrow> ipc_state \<Rightarrow> u64 \<Rightarrow> u64 ipc" where
  "chk_recv_loop [] st bmask = Inr bmask"
| "chk_recv_loop (u # chs) st bmask =
     (case get_channel_vaddr (us_channel_id u) st of
        None \<Rightarrow> Inl Bad_channel
      | Some v \<Rightarrow>
          chk_recv_loop chs st
            (if \<not> OS_HET_CH_EMPTY (chans st v)
             then bmask OR push_bit (unat (63 - us_channel_id u)) 1 else bmask))"

definition fsl_ipc_chk_recv_status :: "ipc_state \<Rightarrow> (int \<times> u64) ipc" where
  "fsl_ipc_chk_recv_status st =
     (case get_channel_vaddr 0 st of
        None \<Rightarrow> Inl Bad_channel
      | Some v \<Rightarrow>
          (case chk_recv_loop (us_channels (us st)) st
                  (if \<not> OS_HET_CH_EMPTY (chans st v) then push_bit 63 1 else 0) of
             Inl e \<Rightarrow> Inl e
           | Inr bmask \<Rightarrow> Inr (0, bmask)))"

section \<open>Channel configuration\<close>

text \<open>The loop of \<open>ipc_channel_attach_msg_ring\<close>; \<open>a\<close> is the address of the next descriptor.\<close>

fun attach_ring_loop ::
  "nat \<Rightarrow> u32 \<Rightarrow> u32 \<Rightarrow> vaddr \<Rightarrow> (vaddr \<Rightarrow> os_het_ipc_bd) \<Rightarrow> vaddr \<Rightarrow> os_het_ipc_bd" where
  "attach_ring_loop 0 pa sz a m = m"
| "attach_ring_loop (Suc n) pa sz a m =
     attach_ring_loop n (pa + sz) sz (a + 16) (m(a := (m a)\<lparr>msg_ptr := ucast pa\<rparr>))"

definition ipc_channel_attach_msg_ring :: "vaddr \<Rightarrow> u32 \<Rightarrow> u32 \<Rightarrow> ipc_state \<Rightarrow> ipc_state" where
  "ipc_channel_attach_msg_ring v msg_phys_addr msg_size st =
     (let ch = chans st v in
      st\<lparr>bds := attach_ring_loop (nat (sint (bd_ring_size ch))) msg_phys_addr msg_size
                  (IPC_CH_VADDR (bd_base ch) st) (bds st)\<rparr>)"

text \<open>
  The part of the two configuration calls before the user-space channel is allocated: a
  channel whose consumer is not yet initialised gets its ring, type and message buffers.
\<close>

definition configure_ring ::
  "vaddr \<Rightarrow> u32 \<Rightarrow> ipc_ch_type \<Rightarrow> u32 \<Rightarrow> u32 \<Rightarrow> ipc_state \<Rightarrow> ipc_state option" where
  "configure_ring v depth type msg_ring_paddr msg_size st =
     (let ch = chans st v in
      if consumer_initialized ch = OS_HET_INITIALIZED then Some st
      else if bd_ring_size ch > max_depth (us st) then None
      else
        (let st1 = set_chan v (ch\<lparr>bd_ring_size := depth, ch_type := type\<rparr>) st;
             st2 = (if type = IPC_MSG_CH
                    then (let s = ipc_channel_attach_msg_ring v msg_ring_paddr msg_size st1
                          in set_chan v ((chans s v)\<lparr>max_msg_size := msg_size\<rparr>) s)
                    else st1)
         in Some (set_chan v ((chans st2 v)\<lparr>ipc_ind := OS_HET_NO_INT\<rparr>) st2)))"

definition attach_us_channel :: "ipc_channel_us \<Rightarrow> ipc_state \<Rightarrow> ipc_state ipc" where
  "attach_us_channel u st =
     (if length (us_channels (us st)) < MAX_CHANNELS
      then Inr (st\<lparr>us := (us st)\<lparr>us_channels := us_channels (us st) @ [u]\<rparr>\<rparr>)
      else Inl Array_bounds)"

definition fsl_ipc_configure_channel ::
  "lock_result \<Rightarrow> bool \<Rightarrow> u32 \<Rightarrow> u32 \<Rightarrow> ipc_ch_type \<Rightarrow> u32 \<Rightarrow> u32 \<Rightarrow> ipc_state \<Rightarrow>
     (int \<times> ipc_state) ipc" where
  "fsl_ipc_configure_channel lk calloc_ok c depth type msg_ring_paddr msg_size st =
     (case get_channel_vaddr c st of
        None \<Rightarrow> Inl Bad_channel
      | Some v \<Rightarrow>
          if lk c < 0 then Inr (lk c, st)
          else (case configure_ring v depth type msg_ring_paddr msg_size st of
             None \<Rightarrow> Inr (- ERR_INVALID_DEPTH, st)
           | Some st1 \<Rightarrow>
               if \<not> calloc_ok then Inr (- ERR_CALLOC, st1)
               else (case attach_us_channel \<lparr>us_cbfunc = 0, us_signal = 0, us_channel_id = c\<rparr> st1 of
                  Inl e \<Rightarrow> Inl e
                | Inr st2 \<Rightarrow>
                    Inr (lk c, set_chan v ((chans st2 v)\<lparr>consumer_initialized := OS_HET_INITIALIZED\<rparr>) st2))))"

text \<open>
  \<open>free_sig\<close> is what \<open>ipc_get_free_rt_signal\<close> returns, \<open>ioctl_rc\<close> the result of registering
  the signal with the IPC driver; a callback address of 0 means no callback.
\<close>

definition fsl_ipc_configure_channel_int ::
  "lock_result \<Rightarrow> bool \<Rightarrow> u32 \<Rightarrow> int \<Rightarrow> u32 \<Rightarrow> u32 \<Rightarrow> ipc_ch_type \<Rightarrow> u32 \<Rightarrow> u32 \<Rightarrow> vaddr \<Rightarrow>
     ipc_state \<Rightarrow> (int \<times> ipc_state) ipc" where
  "fsl_ipc_configure_channel_int lk calloc_ok free_sig ioctl_rc c depth type msg_ring_paddr msg_size cb st =
     (case get_channel_vaddr c st of
        None \<Rightarrow> Inl Bad_channel
      | Some v \<Rightarrow>
          if lk c < 0 then Inr (lk c, st)
          else (case configure_ring v depth type msg_ring_paddr msg_size st of
             None \<Rightarrow> Inr (- ERR_INVALID_DEPTH, st)
           | Some st1 \<Rightarrow>
               if \<not> calloc_ok then Inr (- ERR_CALLOC, st1)
               else
                 (let sig = (if cb \<noteq> 0 then free_sig else 0);
                      fails = (cb \<noteq> 0 \<and> free_sig = 0) \<or> ioctl_rc \<noteq> 0;
                      u = \<lparr>us_cbfunc = (if fails then 0 else cb),
                           us_signal = (if fails then 0 else sig), us_channel_id = c\<rparr>
                  in case attach_us_channel u st1 of
                    Inl e \<Rightarrow> Inl e
                  | Inr st2 \<Rightarrow>
                      if fails then Inr (lk c, st2)
                      else Inr (lk c, set_chan v ((chans st2 v)\<lparr>ipc_ind := OS_HET_PA_MPIC,
                                   consumer_initialized := OS_HET_INITIALIZED\<rparr>) st2))))"

text \<open>
  The signal search: \<open>disp i\<close> is the disposition \<open>sigaction\<close> reports for signal \<open>i\<close>
  (\<open>None\<close> when the call fails, \<open>Some True\<close> when the signal is ignored or default).
\<close>

fun find_free_signal :: "(nat \<Rightarrow> bool option) \<Rightarrow> nat list \<Rightarrow> nat" where
  "find_free_signal disp [] = 0"
| "find_free_signal disp (i # is) =
     (if disp i = Some True then i else find_free_signal disp is)"

definition ipc_get_free_rt_signal :: "(nat \<Rightarrow> bool option) \<Rightarrow> nat \<Rightarrow> nat \<Rightarrow> nat" where
  "ipc_get_free_rt_signal disp sigrtmin sigrtmax = find_free_signal disp [sigrtmin + 4..<sigrtmax]"

section \<open>Transmit requests\<close>

record sg_entry =
  src_addr :: u32
  sg_len :: u32
  is_tb_start :: bool
  is_valid :: bool

text \<open>Offsets of the two producer counters inside \<open>os_het_ipc_channel_t\<close>.\<close>

abbreviation (input) "OFFSET_PRODUCER_NUM \<equiv> (16 :: u32)"
abbreviation (input) "OFFSET_LOCAL_PRODUCER_NUM \<equiv> (60 :: u32)"

text \<open>
  \<open>mapped\<close>, \<open>regs\<close>, \<open>lst\<close> and \<open>malloc_ok\<close> are what \<open>fsl_uspace_dma_init\<close> obtains from the
  operating system and finds in the mapped memory.
\<close>

definition txreq_list_paddr :: "os_het_ipc_channel \<Rightarrow> u32 \<Rightarrow> u32 \<Rightarrow> u32" where
  "txreq_list_paddr ch lbuff lsize =
     (let p = lbuff + bd_ring_size ch * lsize + 32 * 4
      in if p mod 32 \<noteq> 0 then p + (32 - p mod 32) else p)"

definition fsl_ipc_configure_txreq ::
  "lock_result \<Rightarrow> bool \<Rightarrow> vaddr \<Rightarrow> dma_regs \<Rightarrow> (int \<Rightarrow> dma_list_entry) \<Rightarrow> u32 \<Rightarrow> u32 \<Rightarrow> u32 \<Rightarrow>
     ipc_state \<Rightarrow> (int \<times> ipc_state) ipc" where
  "fsl_ipc_configure_txreq lk malloc_ok mapped regs lst c paddr lsize st =
     (if c \<ge> max_channels (us st) then Inr (- ERR_CHANNEL_NOT_FOUND, st)
      else case get_channel_vaddr c st of
        None \<Rightarrow> Inl Bad_channel
      | Some v \<Rightarrow>
          (let ch = chans st v in
           if lk c < 0 then Inr (lk c, st)
           else if producer_initialized ch \<noteq> OS_HET_INITIALIZED then Inr (- ERR_PRODUCER_NOT_INIT, st)
           else
             (let lp = txreq_list_paddr ch paddr lsize;
                  lm = \<lparr>phys_addr = ucast lp, range_vaddr = p2vcb (us st) lp, range_size = 0\<rparr>
              in Inr (lk c, st\<lparr>us := (us st)\<lparr>txreq_tb_lbuff_paddr := paddr, max_txreq_lbuff_size := lsize,
                        udma := fsl_uspace_dma_init malloc_ok mapped regs lst lm (rat_id (us st))\<rparr>\<rparr>))))"

text \<open>
  The scatter-gather loop runs to the first invalid entry; \<open>None\<close> when the whole table is
  valid and the loop reads past its end.
\<close>

fun sg_transfers :: "sg_entry list \<Rightarrow> u32 \<Rightarrow> (u32 \<times> u64 \<times> u32) list option" where
  "sg_transfers [] pa = None"
| "sg_transfers (e # es) pa =
     (if is_valid e
      then map_option ((#) (src_addr e, ucast pa, sg_len e)) (sg_transfers es (pa + sg_len e))
      else Some [])"

text \<open>The transfers that publish the message: both producer counters, then the doorbell.\<close>

definition txreq_tail :: "os_het_ipc_channel \<Rightarrow> u32 \<Rightarrow> u32 \<Rightarrow> u64 \<Rightarrow> (u32 \<times> u64 \<times> u32) list" where
  "txreq_tail ch spare ch_paddr ccsr =
     [(spare, ucast (ch_paddr + OFFSET_PRODUCER_NUM), 4),
      (spare + 4, ucast (ch_paddr + OFFSET_LOCAL_PRODUCER_NUM), 4)] @
     (if ipc_ind ch = OS_HET_VIRTUAL_INT
      then [(spare + 8, ccsr + ucast GCR_OFFSET + ucast (ind_offset ch), 4)] else [])"

definition fsl_ipc_send_tx_req ::
  "lock_result \<Rightarrow> u32 \<Rightarrow> sg_entry list \<Rightarrow> vaddr \<Rightarrow> u32 \<Rightarrow> ipc_state \<Rightarrow> (int \<times> ipc_state) ipc" where
  "fsl_ipc_send_tx_req lk c sgl req_vaddr req_len st =
     (case (get_channel_vaddr c st, get_channel_paddr c st) of
        (Some v, Some pch) \<Rightarrow>
          (let ch = chans st v in
           if consumer_initialized ch \<noteq> OS_HET_INITIALIZED then Inr (- ERR_CONSUMER_NOT_INIT, st)
           else if lk c < 0 then Inr (lk c, st)
           else if OS_HET_CH_FULL ch then Inr (- ERR_CHANNEL_FULL, st)
           else case udma (us st) of
             None \<Rightarrow> Inl No_dma
           | Some d \<Rightarrow>
               (let d0 = fsl_uspace_dma_list_clear d;
                    bd = bd_at st ch (local_producer_num ch);
                    st1 = st\<lparr>us := (us st)\<lparr>udma := Some d0\<rparr>,
                             bds := (bds st)(bd := (bds st bd)\<lparr>msg_len := req_len\<rparr>)\<rparr>;
                    va = p2vcb (us st) (ucast (msg_ptr (bds st bd)))
                in
                if va = 0 then Inr (- 1, st1)
                else if req_len > MAX_TX_REQ_MSG_SIZE then Inr (- ERR_MAX_MSG_SIZE_EXCD_TXREQ, st1)
                else
                  (let lbuff = txreq_tb_lbuff_paddr (us st) +
                               local_producer_num ch * max_txreq_lbuff_size (us st);
                       m1 = store_be32 (memcpy (bytes st1) va req_vaddr req_len)
                              (va + MAX_TX_REQ_MSG_SIZE) lbuff;
                       spare = txreq_tb_lbuff_paddr (us st) + bd_ring_size ch * max_txreq_lbuff_size (us st);
                       sva = p2vcb (us st) spare
                   in
                   case sg_transfers sgl lbuff of
                     None \<Rightarrow> Inl Array_bounds
                   | Some ts \<Rightarrow>
                       if bd_ring_size ch = 0 then Inl Division_by_zero
                       else if sva = 0 then Inl Null_pointer
                       else
                         (let m2 = store_be32 (store_be32 m1 sva (producer_num ch + 1))
                                     (sva + 4) ((local_producer_num ch + 1) mod bd_ring_size ch);
                              m3 = (if ipc_ind ch = OS_HET_VIRTUAL_INT
                                    then store_be32 m2 (sva + 8) (ind_value ch) else m2);
                              d1 = dma_add_all (ts @ txreq_tail ch spare pch (phys_addr (dsp_ccsr (us st)))) d0
                          in case fsl_uspace_dma_start d1 of
                               None \<Rightarrow> Inl Array_bounds
                             | Some (_, d2) \<Rightarrow>
                                 Inr (lk c, st1\<lparr>bytes := m3,
                                   us := (us st1)\<lparr>udma := Some d2, txreq_inprocess := True\<rparr>\<rparr>)))))
      | _ \<Rightarrow> Inl Bad_channel)"

definition fsl_ipc_get_last_tx_req_status :: "ipc_state \<Rightarrow> (int \<times> ipc_state) ipc" where
  "fsl_ipc_get_last_tx_req_status st =
     (if txreq_inprocess (us st) then
        (case udma (us st) of
           None \<Rightarrow> Inl No_dma
         | Some d \<Rightarrow>
             if fsl_uspace_dma_busy d then Inr (TXREQ_IN_PROCESS, st)
             else Inr (TXREQ_DONE, st\<lparr>us := (us st)\<lparr>txreq_inprocess := False\<rparr>\<rparr>))
      else Inr (TXREQ_ERR, st))"

section \<open>Instance set-up and teardown\<close>

text \<open>
  What the operating system answers during \<open>fsl_ipc_init_rat\<close>: the descriptors the two
  devices open to (-1 on failure) and the RAT-mode ioctl's result and value.
\<close>

record init_env =
  open_het_mgr :: int
  rat_mode_rc :: int
  rat_regions :: u32
  open_het_ipc :: int

definition init_het_ipc :: "init_env \<Rightarrow> ipc_state \<Rightarrow> int \<times> ipc_state" where
  "init_het_ipc env st =
     (if open_het_ipc env = - 1 then - ERR_DEV_HETIPC_FAIL else 0,
      st\<lparr>us := (us st)\<lparr>dev_het_ipc := open_het_ipc env\<rparr>\<rparr>)"

text \<open>\<open>sizeof(os_het_ipc_t) = 32\<close> and \<open>sizeof(os_het_ipc_channel_t) = 88\<close>.\<close>

abbreviation (input) "sizeof_het_ipc \<equiv> (32 :: u32)"
abbreviation (input) "sizeof_het_channel \<equiv> (88 :: u32)"
abbreviation (input) "sizeof_het_bd \<equiv> (16 :: u32)"

definition get_ipc_inst :: "u32 \<Rightarrow> ipc_state \<Rightarrow> int \<times> ipc_state" where
  "get_ipc_inst inst_id st =
     (let a = IPC_CH_VADDR (ctrl_ipc (ctrl st)) st + sizeof_het_ipc * inst_id;
          ipc = het_ipcs st a
      in if a = 0 then (- 1, st)
         else if num_ipc_channels ipc > 64 then (- 1, st)
         else if ipc_channels ipc AND 0xFFFFFFFF = 0 then (- ERR_INCORRECT_RAT_MODE, st)
         else (0, st\<lparr>us := (us st)\<lparr>max_channels := num_ipc_channels ipc,
                                    max_depth := ipc_max_bd_size ipc, ipc_inst := a\<rparr>\<rparr>))"

definition get_channels_info :: "ipc_state \<Rightarrow> u32 \<Rightarrow> int \<times> ipc_state" where
  "get_channels_info st inst_id = get_ipc_inst inst_id st"

text \<open>The two address computations \<open>__get_channel_paddr\<close> and \<open>__get_channel_vaddr\<close>.\<close>

definition calc_channel_paddr :: "u32 \<Rightarrow> ipc_state \<Rightarrow> u32" where
  "calc_channel_paddr c st = ucast (ipc_channels (het_ipcs st (ipc_inst (us st)))) + sizeof_het_channel * c"

definition calc_channel_vaddr :: "u32 \<Rightarrow> ipc_state \<Rightarrow> vaddr" where
  "calc_channel_vaddr paddr st = IPC_CH_VADDR (ucast paddr) st"

definition fill_channel_table :: "ipc_state \<Rightarrow> (u32 \<times> vaddr) list" where
  "fill_channel_table st =
     map (\<lambda>i. let p = calc_channel_paddr (of_nat i) st in (p, calc_channel_vaddr p st)) [0..<MAX_CHANNELS]"

definition blank_us :: "(u32 \<Rightarrow> vaddr) \<Rightarrow> mem_range \<Rightarrow> mem_range \<Rightarrow> mem_range \<Rightarrow> ipc_userspace" where
  "blank_us p2v sh dsp pa =
     \<lparr>max_txreq_lbuff_size = 0, txreq_tb_lbuff_paddr = 0, us_channels = [], p2vcb = p2v,
      dev_het_ipc = 0, txreq_inprocess = False, max_depth = 0, max_channels = 0,
      sh_ctrl_area = sh, dsp_ccsr = dsp, pa_ccsr = pa, udma = None, rat_id = 0, ipc_inst = 0\<rparr>"

text \<open>The flag of the result tells whether a handle (a non-null pointer) is returned.\<close>

definition fsl_ipc_init_rat ::
  "init_env \<Rightarrow> u32 \<Rightarrow> (u32 \<Rightarrow> vaddr) option \<Rightarrow> mem_range \<Rightarrow> mem_range \<Rightarrow> mem_range \<Rightarrow> ipc_state \<Rightarrow>
     bool \<times> ipc_state" where
  "fsl_ipc_init_rat env rat p2v sh dsp pa st =
     (case p2v of
        None \<Rightarrow> (False, st)
      | Some f \<Rightarrow>
          if rat \<noteq> 0 \<and> (open_het_mgr env = - 1 \<or> rat_mode_rc env \<noteq> 0 \<or> rat \<ge> rat_regions env)
          then (False, st)
          else
            (let st1 = st\<lparr>us := blank_us f sh dsp pa\<rparr> in
             case init_het_ipc env st1 of (r1, st2) \<Rightarrow>
               if r1 \<noteq> 0 then (False, st2)
               else case get_channels_info st2 rat of (r2, st3) \<Rightarrow>
                 if r2 \<noteq> 0 then (False, st3)
                 else (True, st3\<lparr>chvpaddr_arr := fill_channel_table st3, us := (us st3)\<lparr>rat_id := rat\<rparr>\<rparr>)))"

definition fsl_ipc_init ::
  "init_env \<Rightarrow> (u32 \<Rightarrow> vaddr) option \<Rightarrow> mem_range \<Rightarrow> mem_range \<Rightarrow> mem_range \<Rightarrow> ipc_state \<Rightarrow>
     bool \<times> ipc_state" where
  "fsl_ipc_init env p2v sh dsp pa st = fsl_ipc_init_rat env 0 p2v sh dsp pa st"

definition fsl_ipc_us_reinit :: "ipc_state \<Rightarrow> ipc_state" where
  "fsl_ipc_us_reinit st = st\<lparr>us := (us st)\<lparr>us_channels := []\<rparr>\<rparr>"

definition reinit_channel :: "os_het_ipc_channel \<Rightarrow> os_het_ipc_channel" where
  "reinit_channel ch =
     ch\<lparr>producer_initialized := 0,
        consumer_initialized := (if ch_id ch \<noteq> 0 then 0 else consumer_initialized ch),
        consumer_num := 0, producer_num := 0,
        bd_ring_size := (if ch_id ch \<noteq> 0 then 0 else bd_ring_size ch),
        max_msg_size := 0,
        ch_type := (if ch_id ch \<noteq> 0 then IPC_MSG_CH else IPC_PTR_CH),
        ipc_ind := OS_HET_NO_INT, ind_offset := 0, ind_value := 0,
        local_producer_num := 0, local_consumer_num := 0, semaphore_pointer := 0\<rparr>"

fun reinit_loop :: "nat list \<Rightarrow> ipc_state \<Rightarrow> ipc_state ipc" where
  "reinit_loop [] st = Inr st"
| "reinit_loop (i # is) st =
     (case get_channel_vaddr (of_nat i) st of
        None \<Rightarrow> Inl Bad_channel
      | Some v \<Rightarrow> reinit_loop is (set_chan v (reinit_channel (chans st v)) st))"

definition fsl_ipc_reinit :: "ipc_state \<Rightarrow> (int \<times> ipc_state) ipc" where
  "fsl_ipc_reinit st =
     (case reinit_loop [0..<MAX_CHANNELS] st of
        Inl e \<Rightarrow> Inl e
      | Inr st1 \<Rightarrow>
          Inr (0, fsl_ipc_us_reinit (st1\<lparr>ctrl := (ctrl st1)\<lparr>pa_initialized := 0, sc_initialized := 0\<rparr>\<rparr>)))"

section \<open>Delivery by signal\<close>

text \<open>
  The first configured channel with the signal is served: its consumer counters advance
  and then its callback is called with the descriptor's data. The result is the call
  made (callback, channel, context, length), if any.
\<close>

definition signal_handler ::
  "lock_result \<Rightarrow> u32 \<Rightarrow> ipc_state \<Rightarrow> ((vaddr \<times> u32 \<times> vaddr \<times> u32) option \<times> ipc_state) ipc" where
  "signal_handler lk signo st =
     (case find (\<lambda>u. us_signal u = signo) (us_channels (us st)) of
        None \<Rightarrow> Inr (None, st)
      | Some u \<Rightarrow>
          (case get_channel_vaddr (us_channel_id u) st of
             None \<Rightarrow> Inl Bad_channel
           | Some v \<Rightarrow>
               (let ch = chans st v in
                if lk (us_channel_id u) < 0 then Inr (None, st)
                else if OS_HET_CH_EMPTY ch then Inr (None, st)
                else if bd_ring_size ch = 0 then Inl Division_by_zero
                else
                  (let bd = bds st (bd_at st ch (local_consumer_num ch));
                       context = (if ch_type ch = IPC_MSG_CH
                                  then p2vcb (us st) (ucast (msg_ptr bd)) else ucast (msg_ptr bd));
                       st1 = set_chan v (advance_consumer ch) st
                   in Inr (if us_cbfunc u \<noteq> 0
                           then Some (us_cbfunc u, us_channel_id u, context, msg_len bd) else None, st1)))))"

end
