(* ===== verification/Fifo_Interface.thy ===== *)
theory Fifo_Interface
  imports Prelude
begin

text \<open>
  The contract shared by every first-in first-out component of the program: the
  in-process block queue (\<open>src/lib/core/block_queue.c\<close>) and the pointer and message
  rings of the inter-processor channels (\<open>fsl_ipc_channel.c\<close>). A bounded FIFO is given
  by an enqueue that may be refused and a dequeue that may find nothing; clients are
  sequences of such attempts.
\<close>

datatype 'x fifo_op = Enq 'x | Deq

text \<open>
  \<open>fifo_run enq deq ops q\<close> executes the attempts in order and returns the items that
  were accepted, the items that were delivered, and the final state.
\<close>

fun fifo_run ::
  "('x \<Rightarrow> 'q \<Rightarrow> 'q option) \<Rightarrow> ('q \<Rightarrow> ('x \<times> 'q) option) \<Rightarrow> 'x fifo_op list \<Rightarrow> 'q
     \<Rightarrow> 'x list \<times> 'x list \<times> 'q" where
  "fifo_run enq deq [] q = ([], [], q)"
| "fifo_run enq deq (Enq x # ops) q =
     (case enq x q of
        None \<Rightarrow> fifo_run enq deq ops q
      | Some q' \<Rightarrow> (case fifo_run enq deq ops q' of (ins, outs, r) \<Rightarrow> (x # ins, outs, r)))"
| "fifo_run enq deq (Deq # ops) q =
     (case deq q of
        None \<Rightarrow> fifo_run enq deq ops q
      | Some (x, q') \<Rightarrow> (case fifo_run enq deq ops q' of (ins, outs, r) \<Rightarrow> (ins, x # outs, r)))"

text \<open>The reference implementation: a list bounded by \<open>n\<close>.\<close>

definition list_enq :: "nat \<Rightarrow> 'x \<Rightarrow> 'x list \<Rightarrow> 'x list option" where
  "list_enq n x xs = (if length xs < n then Some (xs @ [x]) else None)"

fun list_deq :: "'x list \<Rightarrow> ('x \<times> 'x list) option" where
  "list_deq [] = None"
| "list_deq (x # xs) = Some (x, xs)"

locale bounded_fifo =
  fixes contents :: "'q \<Rightarrow> 'x list"
    and capacity :: "'q \<Rightarrow> nat"
    and invar :: "'q \<Rightarrow> bool"
    and enq :: "'x \<Rightarrow> 'q \<Rightarrow> 'q option"
    and deq :: "'q \<Rightarrow> ('x \<times> 'q) option"
  assumes bounded: "invar q \<Longrightarrow> length (contents q) \<le> capacity q"
    and enq_full: "invar q \<Longrightarrow> length (contents q) = capacity q \<Longrightarrow> enq x q = None"
    and enq_room: "invar q \<Longrightarrow> length (contents q) < capacity q \<Longrightarrow>
      \<exists>q'. enq x q = Some q' \<and> contents q' = contents q @ [x] \<and> capacity q' = capacity q \<and> invar q'"
    and deq_empty: "invar q \<Longrightarrow> contents q = [] \<Longrightarrow> deq q = None"
    and deq_item: "invar q \<Longrightarrow> contents q = x # xs \<Longrightarrow>
      \<exists>q'. deq q = Some (x, q') \<and> contents q' = xs \<and> capacity q' = capacity q \<and> invar q'"
begin

lemma enq_sim:
  assumes "invar q"
  shows "map_option contents (enq x q) = list_enq (capacity q) x (contents q)"
  using assms bounded [of q] enq_full [of q x] enq_room [of q x]
  by (cases "length (contents q) < capacity q") (auto simp: list_enq_def)

lemma deq_sim:
  assumes "invar q"
  shows "map_option (map_prod id contents) (deq q) = list_deq (contents q)"
proof (cases "contents q")
  case Nil
  then show ?thesis using deq_empty [OF assms] by simp
next
  case (Cons x xs)
  then show ?thesis using deq_item [OF assms Cons] by auto
qed

lemma enq_SomeD:
  assumes "invar q" "enq x q = Some q'"
  shows "invar q'" "capacity q' = capacity q" "contents q' = contents q @ [x]"
    "length (contents q) < capacity q"
  using assms bounded [of q] enq_full [of q x] enq_room [of q x]
  by (cases "length (contents q) < capacity q"; auto)+

lemma deq_SomeD:
  assumes "invar q" "deq q = Some (x, q')"
  shows "invar q'" "capacity q' = capacity q" "contents q = x # contents q'"
  using assms deq_empty [of q] deq_item [of q]
  by (cases "contents q"; auto)+

text \<open>Every run delivers, in order, what was in the queue followed by what was accepted.\<close>

lemma run_fifo:
  assumes "invar q" "fifo_run enq deq ops q = (ins, outs, r)"
  shows "contents q @ ins = outs @ contents r \<and> invar r \<and> capacity r = capacity q"
  using assms
proof (induction ops arbitrary: q ins outs)
  case (Cons p ops)
  show ?case
  proof (cases p)
    case (Enq x)
    show ?thesis
    proof (cases "enq x q")
      case (Some q')
      note D = enq_SomeD [OF Cons.prems(1) Some]
      show ?thesis
        using Cons.IH [OF D(1)] Cons.prems(2) D(2,3) by (auto simp: Enq Some split: prod.splits)
    qed (use Cons Enq in simp)
  next
    case Deq
    show ?thesis
    proof (cases "deq q")
      case (Some xq)
      obtain x q' where xq: "xq = (x, q')" by (cases xq)
      note D = deq_SomeD [OF Cons.prems(1) Some [unfolded xq]]
      show ?thesis
        using Cons.IH [OF D(1)] Cons.prems(2) D(2,3) by (auto simp: Deq Some xq split: prod.splits)
    qed (use Cons Deq in simp)
  qed
qed simp

text \<open>The run is the run of the reference list with the same capacity.\<close>

lemma run_refines:
  assumes "invar q" "fifo_run enq deq ops q = (ins, outs, r)"
  shows "fifo_run (list_enq (capacity q)) list_deq ops (contents q) = (ins, outs, contents r)"
  using assms
proof (induction ops arbitrary: q ins outs)
  case (Cons p ops)
  show ?case
  proof (cases p)
    case (Enq x)
    show ?thesis
    proof (cases "enq x q")
      case None
      then show ?thesis using Cons Enq enq_sim [of q x] by simp
    next
      case (Some q')
      note D = enq_SomeD [OF Cons.prems(1) Some]
      show ?thesis
        using Cons.prems Cons.IH [OF D(1)] D Enq Some
        by (auto simp: list_enq_def split: prod.splits)
    qed
  next
    case Deq
    show ?thesis
    proof (cases "deq q")
      case None
      then show ?thesis using Cons Deq deq_sim [of q] by simp
    next
      case (Some xq)
      obtain x q' where xq: "xq = (x, q')" by (cases xq)
      note D = deq_SomeD [OF Cons.prems(1) Some [unfolded xq]]
      show ?thesis
        using Cons.prems Cons.IH [OF D(1)] D Deq Some xq
        by (auto split: prod.splits)
    qed
  qed
qed simp

lemma run_fill:
  assumes "invar q" "length (contents q) + length xs \<le> capacity q"
  shows "\<exists>r. contents r = contents q @ xs \<and> invar r \<and>
    (\<forall>rest i ou s. fifo_run enq deq rest r = (i, ou, s) \<longrightarrow>
       fifo_run enq deq (map Enq xs @ rest) q = (xs @ i, ou, s))"
  using assms
proof (induction xs arbitrary: q)
  case (Cons x xs)
  obtain q' where q': "enq x q = Some q'" "contents q' = contents q @ [x]"
      "capacity q' = capacity q" "invar q'"
    using enq_room [of q x] Cons.prems by auto
  obtain r where r: "contents r = contents q' @ xs" "invar r"
      "\<And>rest i ou s. fifo_run enq deq rest r = (i, ou, s) \<Longrightarrow>
         fifo_run enq deq (map Enq xs @ rest) q' = (xs @ i, ou, s)"
    using Cons.IH [of q'] Cons.prems q' by auto
  show ?case
    by (rule exI [of _ r]) (simp add: r q')
qed auto

lemma run_drain:
  assumes "invar q"
  shows "\<exists>r. fifo_run enq deq (replicate (length (contents q)) Deq) q = ([], contents q, r) \<and>
      contents r = []"
  using assms
proof (induction "contents q" arbitrary: q)
  case (Cons x xs)
  obtain q' where q': "deq q = Some (x, q')" "contents q' = xs" "invar q'"
    using deq_item [of q x xs] Cons by auto
  show ?case using Cons(1) [of q'] Cons(2) [symmetric] q' by (auto split: prod.splits)
qed simp

text \<open>Pushing no more than the free room and then popping as often gives back the items.\<close>

lemma run_round_trip:
  assumes "invar q" "contents q = []" "length xs \<le> capacity q"
  shows "\<exists>r. fifo_run enq deq (map Enq xs @ replicate (length xs) Deq) q = (xs, xs, r) \<and>
             contents r = []"
proof -
  obtain m where m: "contents m = xs" "invar m"
      "\<And>rest i ou s. fifo_run enq deq rest m = (i, ou, s) \<Longrightarrow>
         fifo_run enq deq (map Enq xs @ rest) q = (xs @ i, ou, s)"
    using run_fill [of q xs] assms by auto
  show ?thesis using run_drain [OF m(2)] m(3) by (fastforce simp: m(1))
qed

end

end
