(* ===== verification/IPC_Ring.thy ===== *)
theory IPC_Ring
  imports IPC_Channel Fifo_Interface
begin

text \<open>
  The descriptor ring of a channel as a bounded FIFO: the tracker counters are free
  running and wrap at 2^32, the local indices wrap at the ring size, and the refinement
  to a list holds through both wrap-arounds. Pointer channels interpret the FIFO
  interface; message channels are treated in a second part.
\<close>

section \<open>Counters\<close>

definition ch_used :: "os_het_ipc_channel \<Rightarrow> nat" where
  "ch_used ch = unat (producer_num ch - consumer_num ch)"

definition chan_ok :: "os_het_ipc_channel \<Rightarrow> bool" where
  "chan_ok ch =
     (0 < bd_ring_size ch \<and> unat (bd_ring_size ch) \<le> 2 ^ 27 \<and>
      ch_used ch \<le> unat (bd_ring_size ch) \<and>
      unat (local_consumer_num ch) < unat (bd_ring_size ch) \<and>
      unat (local_producer_num ch) =
        (unat (local_consumer_num ch) + ch_used ch) mod unat (bd_ring_size ch))"

lemma chan_okD:
  assumes "chan_ok ch"
  shows "0 < unat (bd_ring_size ch)" "unat (bd_ring_size ch) \<le> 2 ^ 27"
    "ch_used ch \<le> unat (bd_ring_size ch)"
    "unat (local_consumer_num ch) < unat (bd_ring_size ch)"
    "unat (local_producer_num ch) =
        (unat (local_consumer_num ch) + ch_used ch) mod unat (bd_ring_size ch)"
    "unat (local_producer_num ch) < unat (bd_ring_size ch)"
    "bd_ring_size ch \<noteq> 0"
  using assms by (auto simp: chan_ok_def word_less_nat_alt)

lemma free_bds_eq: "os_het_ch_free_bds ch = bd_ring_size ch - (producer_num ch - consumer_num ch)"
proof -
  have z: "(ucast (push_bit 32 1 :: u64) :: u32) = 0" by simp
  have "(ucast ((ucast (bd_ring_size ch) :: u64) -
      (ucast (producer_num ch - consumer_num ch) + push_bit 32 1)) :: u32) =
      bd_ring_size ch - (producer_num ch - consumer_num ch)"
    unfolding ucast_down_diff ucast_down_add z ucast_up_down by simp
  then show ?thesis by (simp only: os_het_ch_free_bds_def if_cancel split: if_split)
qed

lemma full_iff:
  "OS_HET_CH_FULL ch \<longleftrightarrow> ch_used ch = unat (bd_ring_size ch)"
proof -
  have "OS_HET_CH_FULL ch \<longleftrightarrow> producer_num ch - consumer_num ch = bd_ring_size ch"
    unfolding OS_HET_CH_FULL_def free_bds_eq by auto
  then show ?thesis by (simp only: ch_used_def word_unat_eq_iff)
qed

lemma empty_iff: "OS_HET_CH_EMPTY ch \<longleftrightarrow> ch_used ch = 0"
  by (simp add: OS_HET_CH_EMPTY_def ch_used_def unat_eq_zero)

lemma free_bds_count:
  assumes "chan_ok ch"
  shows "unat (os_het_ch_free_bds ch) = unat (bd_ring_size ch) - ch_used ch"
  using chan_okD(3) [OF assms]
  by (simp add: free_bds_eq ch_used_def unat_sub word_le_nat_alt)

lemma unat_succ_mod:
  fixes a m :: u32
  assumes "unat a < unat m" "unat m \<le> 2 ^ 27"
  shows "unat ((a + 1) mod m) = (unat a + 1) mod unat m"
proof -
  have "unat (a + 1) = unat a + 1" using assms by (intro unat_Suc_word) simp
  then show ?thesis by (simp add: unat_mod_distrib)
qed

lemma advance_producer_ok:
  assumes "chan_ok ch" "\<not> OS_HET_CH_FULL ch"
  shows "chan_ok (advance_producer ch)" "ch_used (advance_producer ch) = Suc (ch_used ch)"
proof -
  note D = chan_okD [OF assms(1)]
  have lt: "ch_used ch < unat (bd_ring_size ch)" using assms(2) D(3) by (simp add: full_iff)
  have "unat (producer_num ch - consumer_num ch + 1) = unat (producer_num ch - consumer_num ch) + 1"
    using lt D(2) by (intro unat_Suc_word) (simp add: ch_used_def)
  then show u: "ch_used (advance_producer ch) = Suc (ch_used ch)"
    by (simp add: ch_used_def advance_producer_def algebra_simps)
  show "chan_ok (advance_producer ch)"
    using D lt unat_succ_mod [OF D(6,2)] u
    by (simp add: chan_ok_def advance_producer_def word_less_nat_alt mod_Suc_eq)
qed

lemma advance_consumer_ok:
  assumes "chan_ok ch" "\<not> OS_HET_CH_EMPTY ch"
  shows "chan_ok (advance_consumer ch)" "Suc (ch_used (advance_consumer ch)) = ch_used ch"
proof -
  note D = chan_okD [OF assms(1)]
  have ne: "producer_num ch - consumer_num ch \<noteq> 0" using assms(2) by (simp add: OS_HET_CH_EMPTY_def)
  have "unat (producer_num ch - consumer_num ch - 1) = unat (producer_num ch - consumer_num ch) - 1"
    by (rule unat_pred_word [OF ne])
  moreover have "0 < unat (producer_num ch - consumer_num ch)" using ne unat_gt_0 by blast
  ultimately show u: "Suc (ch_used (advance_consumer ch)) = ch_used ch"
    by (simp add: ch_used_def advance_consumer_def algebra_simps)
  have "(unat (local_consumer_num ch) + ch_used ch) mod unat (bd_ring_size ch) =
      ((unat (local_consumer_num ch) + 1) mod unat (bd_ring_size ch) + ch_used (advance_consumer ch))
        mod unat (bd_ring_size ch)"
    by (subst mod_add_left_eq) (simp flip: u)
  moreover have "(unat (local_consumer_num ch) + 1) mod unat (bd_ring_size ch) < unat (bd_ring_size ch)"
    using D(1) by (rule mod_less_divisor)
  ultimately show "chan_ok (advance_consumer ch)"
    using D u unat_succ_mod [OF D(4,2)]
    by (simp add: chan_ok_def advance_consumer_def word_less_nat_alt)
qed

section \<open>Descriptors of a ring\<close>

definition ring_bds :: "ipc_state \<Rightarrow> os_het_ipc_channel \<Rightarrow> os_het_ipc_bd list" where
  "ring_bds st ch = map (\<lambda>i. bds st (bd_at st ch (of_nat i))) [0..<unat (bd_ring_size ch)]"

definition ch_contents :: "ipc_state \<Rightarrow> os_het_ipc_channel \<Rightarrow> os_het_ipc_bd list" where
  "ch_contents st ch = ring_slice (ring_bds st ch) (unat (local_consumer_num ch)) (ch_used ch)"

lemma length_ring_bds [simp]: "length (ring_bds st ch) = unat (bd_ring_size ch)"
  by (simp add: ring_bds_def)

lemma length_ch_contents [simp]: "length (ch_contents st ch) = ch_used ch"
  by (simp add: ch_contents_def)

lemma of_nat_times16_inj:
  assumes "(of_nat i * 16 :: u32) = of_nat j * 16" "i < 2 ^ 28" "j < 2 ^ 28"
  shows "i = j"
proof -
  have "unat (of_nat (n * 16) :: u32) = n * 16" if "n < 2 ^ 28" for n
    using that by (simp only: unat_of_nat) simp
  moreover have "(of_nat (i * 16) :: u32) = of_nat (j * 16)" using assms(1) by simp
  ultimately have "i * 16 = j * 16" using assms(2,3) by metis
  then show ?thesis by simp
qed

lemma bd_at_inj:
  assumes "bd_at st ch (of_nat i) = bd_at st ch (of_nat j)" "i < 2 ^ 28" "j < 2 ^ 28"
  shows "i = j"
  using assms of_nat_times16_inj by (simp add: bd_at_def)

lemma ring_bds_update:
  assumes "unat k < unat (bd_ring_size ch)" "unat (bd_ring_size ch) \<le> 2 ^ 27"
    "us st' = us st" "bds st' = (bds st)(bd_at st ch k := b)"
  shows "ring_bds st' ch = (ring_bds st ch)[unat k := b]"
proof (rule nth_equalityI)
  fix i assume "i < length (ring_bds st' ch)"
  then have i: "i < unat (bd_ring_size ch)" by simp
  have same: "bd_at st' ch x = bd_at st ch x" for x
    using assms(3) by (simp add: bd_at_def IPC_CH_VADDR_def)
  have "bd_at st ch (of_nat i) = bd_at st ch (of_nat (unat k)) \<longleftrightarrow> i = unat k"
    using bd_at_inj [of st ch i "unat k"] i assms(1,2) by auto
  then show "ring_bds st' ch ! i = (ring_bds st ch)[unat k := b] ! i"
    using i assms(4) by (auto simp: ring_bds_def same nth_list_update)
qed simp

lemma bd_at_advance [simp]:
  "bd_at st (advance_producer ch) = bd_at st ch" "bd_at st (advance_consumer ch) = bd_at st ch"
  "bd_ring_size (advance_producer ch) = bd_ring_size ch"
  "bd_ring_size (advance_consumer ch) = bd_ring_size ch"
  "local_consumer_num (advance_producer ch) = local_consumer_num ch"
  "local_consumer_num (advance_consumer ch) = (local_consumer_num ch + 1) mod bd_ring_size ch"
  by (simp_all add: bd_at_def fun_eq_iff advance_producer_def advance_consumer_def)

lemma ring_bds_advance [simp]:
  "ring_bds st (advance_producer ch) = ring_bds st ch"
  "ring_bds st (advance_consumer ch) = ring_bds st ch"
  by (simp_all add: ring_bds_def)

text \<open>Writing the producer's slot and advancing appends; advancing the consumer drops the head.\<close>

lemma ch_contents_produce:
  assumes ok: "chan_ok ch" and nf: "\<not> OS_HET_CH_FULL ch"
    and st': "us st' = us st" "bds st' = (bds st)(bd_at st ch (local_producer_num ch) := b)"
  shows "ch_contents st' (advance_producer ch) = ch_contents st ch @ [b]"
proof -
  note D = chan_okD [OF ok]
  have lt: "ch_used ch < length (ring_bds st ch)" using nf D(3) by (simp add: full_iff)
  have "ring_bds st' ch = (ring_bds st ch)[unat (local_producer_num ch) := b]"
    using D(2,6) st' by (intro ring_bds_update)
  then show ?thesis
    using ring_slice_append [OF lt, of "unat (local_consumer_num ch)" b] D(5)
    by (simp add: ch_contents_def advance_producer_ok(2) [OF ok nf])
qed

lemma ch_contents_consume:
  assumes ok: "chan_ok ch" and ne: "\<not> OS_HET_CH_EMPTY ch"
  shows "ch_contents st ch = bds st (bd_at st ch (local_consumer_num ch)) # ch_contents st (advance_consumer ch)"
proof -
  note D = chan_okD [OF ok] and A = advance_consumer_ok [OF ok ne]
  have "ch_contents st ch = ring_bds st ch ! unat (local_consumer_num ch) #
      ring_slice (ring_bds st ch) (Suc (unat (local_consumer_num ch))) (ch_used (advance_consumer ch))"
    using D(4) by (simp add: ch_contents_def ring_slice_Suc_front flip: A(2))
  moreover have "ring_slice (ring_bds st ch) (Suc (unat (local_consumer_num ch))) (ch_used (advance_consumer ch)) =
      ch_contents st (advance_consumer ch)"
    using ring_slice_mod [of "ring_bds st ch" "Suc (unat (local_consumer_num ch))"] unat_succ_mod [OF D(4,2)]
    by (simp add: ch_contents_def)
  ultimately show ?thesis using D(4) by (simp add: ring_bds_def)
qed

lemma ch_contents_cong:
  assumes "us st' = us st" "bds st' = bds st"
  shows "ch_contents st' ch = ch_contents st ch"
  using assms by (simp add: ch_contents_def ring_bds_def bd_at_def IPC_CH_VADDR_def)

section \<open>Pointer channels are bounded FIFOs\<close>

definition chan_of :: "u32 \<Rightarrow> ipc_state \<Rightarrow> os_het_ipc_channel" where
  "chan_of c st = chans st (snd (chvpaddr_arr st ! unat c))"

definition ptr_wf :: "u32 \<Rightarrow> ipc_state \<Rightarrow> bool" where
  "ptr_wf c st =
     (unat c < length (chvpaddr_arr st) \<and> c < max_channels (us st) \<and>
      producer_initialized (chan_of c st) = OS_HET_INITIALIZED \<and>
      consumer_initialized (chan_of c st) = OS_HET_INITIALIZED \<and> chan_ok (chan_of c st))"

definition bd_view :: "os_het_ipc_bd \<Rightarrow> u32 \<times> u32" where
  "bd_view b = (ucast (msg_ptr b), msg_len b)"

definition ptr_contents :: "u32 \<Rightarrow> ipc_state \<Rightarrow> (u32 \<times> u32) list" where
  "ptr_contents c st = map bd_view (ch_contents st (chan_of c st))"

definition ptr_capacity :: "u32 \<Rightarrow> ipc_state \<Rightarrow> nat" where
  "ptr_capacity c st = unat (bd_ring_size (chan_of c st))"

text \<open>The calls as the client sees them, in a build without locking.\<close>

definition ptr_enq :: "u32 \<Rightarrow> u32 \<times> u32 \<Rightarrow> ipc_state \<Rightarrow> ipc_state option" where
  "ptr_enq c x st =
     (case fsl_ipc_send_ptr (\<lambda>_. 0) c (fst x) (snd x) st of
        Inr (r, st') \<Rightarrow> if r = 0 then Some st' else None
      | Inl _ \<Rightarrow> None)"

definition ptr_deq :: "u32 \<Rightarrow> ipc_state \<Rightarrow> ((u32 \<times> u32) \<times> ipc_state) option" where
  "ptr_deq c st =
     (case fsl_ipc_recv_ptr (\<lambda>_. 0) c st of
        Inr (r, out, st') \<Rightarrow> if r = 0 then map_option (\<lambda>x. (x, st')) out else None
      | Inl _ \<Rightarrow> None)"

lemma generate_indication_frame [simp]:
  "us (generate_indication ch st) = us st" "chans (generate_indication ch st) = chans st"
  "bds (generate_indication ch st) = bds st" "bytes (generate_indication ch st) = bytes st"
  "chvpaddr_arr (generate_indication ch st) = chvpaddr_arr st"
  by (simp_all add: generate_indication_def)

lemma set_chan_frame [simp]:
  "us (set_chan v ch st) = us st" "bds (set_chan v ch st) = bds st"
  "bytes (set_chan v ch st) = bytes st" "chvpaddr_arr (set_chan v ch st) = chvpaddr_arr st"
  "chans (set_chan v ch st) = (chans st)(v := ch)"
  by (simp_all add: set_chan_def)

text \<open>One successful send: the descriptor written and the channel advanced, nothing else.\<close>

lemma send_ptr_success:
  assumes "unat c < length (chvpaddr_arr st)" "0 \<le> lk c"
    "consumer_initialized (chan_of c st) = OS_HET_INITIALIZED"
    "\<not> OS_HET_CH_FULL (chan_of c st)" "bd_ring_size (chan_of c st) \<noteq> 0"
  shows "\<exists>st'. fsl_ipc_send_ptr lk c a l st = Inr (lk c, st') \<and> us st' = us st \<and>
    chvpaddr_arr st' = chvpaddr_arr st \<and> bytes st' = bytes st \<and>
    chans st' = (chans st)(snd (chvpaddr_arr st ! unat c) := advance_producer (chan_of c st)) \<and>
    bds st' = (bds st)(bd_at st (chan_of c st) (local_producer_num (chan_of c st)) :=
                 \<lparr>msg_ptr = ucast a, msg_len = l\<rparr>)"
  using assms
  by (simp add: fsl_ipc_send_ptr_def get_channel_vaddr_def chan_of_def Let_def split: if_split)

lemma recv_ptr_success:
  assumes "unat c < length (chvpaddr_arr st)" "0 \<le> lk c" "c < max_channels (us st)"
    "producer_initialized (chan_of c st) = OS_HET_INITIALIZED"
    "\<not> OS_HET_CH_EMPTY (chan_of c st)" "bd_ring_size (chan_of c st) \<noteq> 0"
  shows "fsl_ipc_recv_ptr lk c st =
    Inr (lk c, Some (bd_view (bds st (bd_at st (chan_of c st) (local_consumer_num (chan_of c st))))),
         set_chan (snd (chvpaddr_arr st ! unat c)) (advance_consumer (chan_of c st)) st)"
  using assms
  by (simp add: fsl_ipc_recv_ptr_def get_channel_vaddr_def chan_of_def bd_view_def Let_def)

lemma ptr_enq_room:
  assumes wf: "ptr_wf c st" and nf: "\<not> OS_HET_CH_FULL (chan_of c st)"
  shows "\<exists>st'. ptr_enq c x st = Some st' \<and> ptr_contents c st' = ptr_contents c st @ [x] \<and>
    ptr_capacity c st' = ptr_capacity c st \<and> ptr_wf c st'"
proof -
  let ?ch = "chan_of c st" and ?b = "\<lparr>msg_ptr = ucast (fst x), msg_len = snd x\<rparr>"
  have ok: "chan_ok ?ch" using wf by (simp add: ptr_wf_def)
  obtain st' where st': "fsl_ipc_send_ptr (\<lambda>_. 0) c (fst x) (snd x) st = Inr (0, st')" "us st' = us st"
      "chvpaddr_arr st' = chvpaddr_arr st"
      "chans st' = (chans st)(snd (chvpaddr_arr st ! unat c) := advance_producer ?ch)"
      "bds st' = (bds st)(bd_at st ?ch (local_producer_num ?ch) := ?b)"
    using send_ptr_success [of c st "\<lambda>_. 0" "fst x" "snd x"] wf nf chan_okD(7) [OF ok]
    by (auto simp: ptr_wf_def)
  have c': "chan_of c st' = advance_producer ?ch" by (simp add: chan_of_def st')
  have "ptr_contents c st' = ptr_contents c st @ [x]"
    using ch_contents_produce [OF ok nf st'(2,5)] by (simp add: ptr_contents_def c' bd_view_def)
  moreover have "ptr_wf c st'"
    using wf advance_producer_ok(1) [OF ok nf]
    by (simp add: ptr_wf_def st' c') (simp add: advance_producer_def)
  ultimately show ?thesis
    by (auto simp: ptr_enq_def st'(1) ptr_capacity_def c')
qed

lemma ptr_deq_item:
  assumes wf: "ptr_wf c st" and ne: "\<not> OS_HET_CH_EMPTY (chan_of c st)"
  shows "\<exists>x st'. ptr_deq c st = Some (x, st') \<and> ptr_contents c st = x # ptr_contents c st' \<and>
    ptr_capacity c st' = ptr_capacity c st \<and> ptr_wf c st'"
proof -
  let ?ch = "chan_of c st"
  let ?st' = "set_chan (snd (chvpaddr_arr st ! unat c)) (advance_consumer ?ch) st"
  have ok: "chan_ok ?ch" using wf by (simp add: ptr_wf_def)
  have r: "fsl_ipc_recv_ptr (\<lambda>_. 0) c st =
      Inr (0, Some (bd_view (bds st (bd_at st ?ch (local_consumer_num ?ch)))), ?st')"
    using recv_ptr_success [of c st "\<lambda>_. 0"] wf ne chan_okD(7) [OF ok] by (simp add: ptr_wf_def)
  have c': "chan_of c ?st' = advance_consumer ?ch" by (simp add: chan_of_def)
  have "ptr_contents c st = bd_view (bds st (bd_at st ?ch (local_consumer_num ?ch))) # ptr_contents c ?st'"
    using ch_contents_consume [OF ok ne, of st] ch_contents_cong [of ?st' st]
    by (simp add: ptr_contents_def c')
  moreover have "ptr_wf c ?st'"
    using wf advance_consumer_ok(1) [OF ok ne]
    by (simp add: ptr_wf_def c') (simp add: advance_consumer_def)
  ultimately show ?thesis
    by (auto simp: ptr_deq_def r ptr_capacity_def c')
qed

interpretation chq: bounded_fifo "ptr_contents c" "ptr_capacity c" "ptr_wf c" "ptr_enq c" "ptr_deq c" for c
proof (unfold_locales, goal_cases)
  case (1 q)
  then show ?case by (simp add: ptr_wf_def chan_ok_def ptr_contents_def ptr_capacity_def)
next
  case (2 q x)
  then show ?case
    by (simp add: ptr_enq_def fsl_ipc_send_ptr_def get_channel_vaddr_def ptr_wf_def chan_of_def
        ptr_contents_def ptr_capacity_def full_iff Let_def)
next
  case (3 q x)
  then show ?case by (intro ptr_enq_room) (simp_all add: ptr_contents_def ptr_capacity_def full_iff)
next
  case (4 q)
  then show ?case
    by (simp add: ptr_deq_def fsl_ipc_recv_ptr_def get_channel_vaddr_def ptr_wf_def chan_of_def
        ptr_contents_def empty_iff Let_def flip: length_0_conv)
next
  case (5 q x xs)
  then have "length (ptr_contents c q) \<noteq> 0" by simp
  then have "\<not> OS_HET_CH_EMPTY (chan_of c q)" by (simp add: ptr_contents_def empty_iff)
  from ptr_deq_item [OF 5(1) this] 5(2) show ?case by auto
qed

section \<open>A sample system\<close>

text \<open>
  Sixty-four pointer channels with rings of four descriptors; the counters of channel 3
  are about to wrap around.
\<close>

definition sample_channel :: "nat \<Rightarrow> os_het_ipc_channel" where
  "sample_channel i =
     \<lparr>start_validation_value = 0, producer_initialized = OS_HET_INITIALIZED,
      consumer_initialized = OS_HET_INITIALIZED, ch_id = of_nat i,
      producer_num = (if i = 3 then 0xFFFFFFFF else 0), consumer_num = (if i = 3 then 0xFFFFFFFE else 0),
      bd_ring_size = 4, max_msg_size = 16, ch_type = IPC_PTR_CH,
      bd_base = 0x2000 + 64 * of_nat i, ipc_ind = OS_HET_NO_INT, ind_offset = 0, ind_value = 0,
      local_producer_num = (if i = 3 then 0 else 1), local_consumer_num = (if i = 3 then 3 else 1),
      semaphore_pointer = 0, end_validation_value = 0\<rparr>"

definition sample_state :: ipc_state where
  "sample_state =
     (let r = \<lparr>phys_addr = 0x0, range_vaddr = 0x0, range_size = 0x10000\<rparr> in
      \<lparr>us = (blank_us (\<lambda>a. a) r r r)\<lparr>max_channels := 64, max_depth := 4\<rparr>,
       ctrl = \<lparr>pa_initialized = 0, sc_initialized = 0, ctrl_ipc = 0\<rparr>,
       het_ipcs = (\<lambda>_. \<lparr>ipc_start_validation = 0, num_ipc_channels = 64, ipc_max_bd_size = 4,
                       ipc_channels = 0x100, ipc_end_validation = 0\<rparr>),
       chvpaddr_arr = map (\<lambda>i. (0x100 + 88 * of_nat i, 0x100 + 88 * of_nat i)) [0..<64],
       chans = (\<lambda>a. sample_channel (unat ((a - 0x100) div 88))),
       bds = (\<lambda>_. \<lparr>msg_ptr = 7, msg_len = 8\<rparr>),
       bytes = (\<lambda>_. 0), doorbells = []\<rparr>)"

lemma chan_of_sample:
  "chan_of 3 sample_state = sample_channel 3" "chan_of 5 sample_state = sample_channel 5"
  by (simp_all add: chan_of_def sample_state_def Let_def)

lemma sample_wf: "ptr_wf 3 sample_state" "ptr_wf 5 sample_state"
  unfolding ptr_wf_def chan_of_sample
  by (simp_all add: sample_channel_def chan_ok_def ch_used_def sample_state_def Let_def)

section \<open>Properties\<close>

text \<open>The free-descriptor count of a channel is the ring size less the messages in
  flight, also after the 32-bit producer counter has wrapped around below the consumer's;
  the channel is full or empty exactly when that count says so.\<close>

lemma free_bds_correct:
  assumes "chan_ok ch"
  shows "unat (os_het_ch_free_bds ch) = unat (bd_ring_size ch) - length (ch_contents st ch) \<and>
    (OS_HET_CH_FULL ch \<longleftrightarrow> length (ch_contents st ch) = unat (bd_ring_size ch)) \<and>
    (OS_HET_CH_EMPTY ch \<longleftrightarrow> ch_contents st ch = [])"
  using free_bds_count [OF assms] full_iff [of ch] empty_iff [of ch] length_ch_contents [of st ch]
  by (simp flip: length_0_conv)

theorem free_bds_correct_witness:
  "unat (os_het_ch_free_bds (advance_producer (advance_producer (sample_channel 3)))) = 1"
proof -
  have ok: "chan_ok (sample_channel 3)" using sample_wf(1) by (simp add: ptr_wf_def chan_of_sample)
  have nf: "\<not> OS_HET_CH_FULL (sample_channel 3)" "\<not> OS_HET_CH_FULL (advance_producer (sample_channel 3))"
    by (simp_all add: full_iff ch_used_def sample_channel_def advance_producer_def)
  have "chan_ok (advance_producer (advance_producer (sample_channel 3)))"
    using advance_producer_ok(1) ok nf by blast
  from free_bds_correct [OF this, of sample_state] show ?thesis
    by (simp add: ch_used_def) (simp add: sample_channel_def advance_producer_def)
qed

text \<open>C1: A pointer channel is a bounded FIFO through every wrap-around of its counters:
  any sequence of \<open>fsl_ipc_send_ptr\<close> and \<open>fsl_ipc_recv_ptr\<close> calls accepts and delivers
  what a list bounded by the ring size does, in order.\<close>

theorem ipc_ptr_channel_refines_list:
  assumes "ptr_wf c st" "fifo_run (ptr_enq c) (ptr_deq c) ops st = (ins, outs, st')"
  shows "fifo_run (list_enq (unat (bd_ring_size (chan_of c st)))) list_deq ops (ptr_contents c st) =
      (ins, outs, ptr_contents c st') \<and>
    ptr_contents c st @ ins = outs @ ptr_contents c st' \<and> ptr_wf c st'"
  using chq.run_refines [OF assms] chq.run_fifo [OF assms] by (simp add: ptr_capacity_def)

theorem ipc_ptr_channel_refines_list_witness:
  "\<exists>st'. ptr_contents 3 sample_state @ fst (fifo_run (ptr_enq 3) (ptr_deq 3) [Enq (1, 2), Deq, Deq] sample_state) =
    fst (snd (fifo_run (ptr_enq 3) (ptr_deq 3) [Enq (1, 2), Deq, Deq] sample_state)) @ ptr_contents 3 st'"
proof -
  obtain ins outs st' where r: "fifo_run (ptr_enq 3) (ptr_deq 3) [Enq (1, 2), Deq, Deq] sample_state = (ins, outs, st')"
    by (rule prod_cases3)
  from ipc_ptr_channel_refines_list [OF sample_wf(1) r] show ?thesis unfolding r by auto
qed

end
