(* ===== verification/IPC_Services.thy ===== *)
theory IPC_Services
  imports IPC_Ring
begin

text \<open>
  Properties of the channel operations beyond the pointer FIFO: error paths, two-phase
  receive, isolation of channels, the receive status mask, message channels, and the
  transmit-request path with its DMA chain.
\<close>

section \<open>Error paths\<close>

lemma send_ptr_cases:
  assumes "unat c < length (chvpaddr_arr st)" "chan_ok (chan_of c st)"
  shows "\<exists>r st'. fsl_ipc_send_ptr lk c a l st = Inr (r, st') \<and>
    (r < 0 \<longrightarrow> st' = st) \<and>
    (r \<ge> 0 \<longrightarrow> ch_contents st' (chan_of c st') =
        ch_contents st (chan_of c st) @ [\<lparr>msg_ptr = ucast a, msg_len = l\<rparr>] \<and> chan_ok (chan_of c st'))"
proof (cases "consumer_initialized (chan_of c st) = OS_HET_INITIALIZED \<and> 0 \<le> lk c \<and>
    \<not> OS_HET_CH_FULL (chan_of c st)")
  case True
  then obtain st' where st': "fsl_ipc_send_ptr lk c a l st = Inr (lk c, st')" "us st' = us st"
      "chvpaddr_arr st' = chvpaddr_arr st"
      "chans st' = (chans st)(snd (chvpaddr_arr st ! unat c) := advance_producer (chan_of c st))"
      "bds st' = (bds st)(bd_at st (chan_of c st) (local_producer_num (chan_of c st)) :=
                 \<lparr>msg_ptr = ucast a, msg_len = l\<rparr>)"
    using send_ptr_success [of c st lk a l] assms chan_okD(7) [OF assms(2)] by auto
  have "chan_of c st' = advance_producer (chan_of c st)" by (simp add: chan_of_def st')
  then show ?thesis
    using ch_contents_produce [OF assms(2) _ st'(2,5)] advance_producer_ok(1) [OF assms(2)] True st'(1)
    by auto
next
  case False
  then show ?thesis
    using assms(1) by (auto simp: fsl_ipc_send_ptr_def get_channel_vaddr_def chan_of_def Let_def)
qed

lemma recv_ptr_cases:
  assumes "unat c < length (chvpaddr_arr st)" "chan_ok (chan_of c st)"
  shows "\<exists>r out st'. fsl_ipc_recv_ptr lk c st = Inr (r, out, st') \<and>
    (r < 0 \<longrightarrow> out = None \<and> st' = st) \<and>
    (r \<ge> 0 \<longrightarrow> (\<exists>b. out = Some (bd_view b) \<and>
        ch_contents st (chan_of c st) = b # ch_contents st' (chan_of c st')) \<and> chan_ok (chan_of c st'))"
proof (cases "c < max_channels (us st) \<and> producer_initialized (chan_of c st) = OS_HET_INITIALIZED \<and>
    0 \<le> lk c \<and> \<not> OS_HET_CH_EMPTY (chan_of c st)")
  case True
  let ?ch = "chan_of c st"
  let ?st' = "set_chan (snd (chvpaddr_arr st ! unat c)) (advance_consumer ?ch) st"
  have c': "chan_of c ?st' = advance_consumer ?ch" by (simp add: chan_of_def)
  have "ch_contents ?st' (advance_consumer ?ch) = ch_contents st (advance_consumer ?ch)"
    by (rule ch_contents_cong) simp_all
  then show ?thesis
    using recv_ptr_success [of c st lk] True assms chan_okD(7) [OF assms(2)]
      ch_contents_consume [OF assms(2), of st] advance_consumer_ok(1) [OF assms(2)]
    by (auto simp: c')
next
  case False
  then show ?thesis
    using assms(1) by (auto simp: fsl_ipc_recv_ptr_def get_channel_vaddr_def chan_of_def Let_def)
qed

text \<open>On a channel with consistent counters the pointer calls never fault; a call that
  reports an error leaves the whole state as it was, and a call that reports success
  appends to, respectively removes from, the channel and keeps its counters consistent.\<close>

lemma ipc_ptr_calls_total:
  assumes "unat c < length (chvpaddr_arr st)" "chan_ok (chan_of c st)"
  shows "(\<exists>r st'. fsl_ipc_send_ptr lk c a l st = Inr (r, st') \<and>
      (r < 0 \<longrightarrow> st' = st) \<and>
      (r \<ge> 0 \<longrightarrow> ch_contents st' (chan_of c st') =
          ch_contents st (chan_of c st) @ [\<lparr>msg_ptr = ucast a, msg_len = l\<rparr>] \<and> chan_ok (chan_of c st'))) \<and>
    (\<exists>r out st'. fsl_ipc_recv_ptr lk c st = Inr (r, out, st') \<and>
      (r < 0 \<longrightarrow> out = None \<and> st' = st) \<and>
      (r \<ge> 0 \<longrightarrow> (\<exists>b. out = Some (bd_view b) \<and>
          ch_contents st (chan_of c st) = b # ch_contents st' (chan_of c st')) \<and> chan_ok (chan_of c st')))"
  using send_ptr_cases [OF assms] recv_ptr_cases [OF assms] by blast

theorem ipc_ptr_calls_total_witness:
  "\<exists>r st'. fsl_ipc_send_ptr (\<lambda>_. -1) 3 1 2 sample_state = Inr (r, st')"
  using ipc_ptr_calls_total [of 3 sample_state "\<lambda>_. -1" 1 2] sample_wf(1)
  unfolding ptr_wf_def by blast

section \<open>Two-phase receive\<close>

text \<open>Peeking with \<open>fsl_ipc_recv_ptr_hold\<close> changes nothing, and followed by
  \<open>fsl_ipc_set_consumed_status\<close> it is exactly \<open>fsl_ipc_recv_ptr\<close>.\<close>

theorem recv_hold_then_consume:
  assumes "ptr_wf c st" "fsl_ipc_recv_ptr_hold lk c st = Inr (r, Some out, st1)"
  shows "st1 = st \<and> (\<exists>st2. fsl_ipc_set_consumed_status lk c st1 = Inr (r, st2) \<and>
    fsl_ipc_recv_ptr lk c st = Inr (r, Some out, st2))"
proof -
  have "bd_ring_size (chan_of c st) \<noteq> 0" using assms(1) chan_okD(7) by (auto simp: ptr_wf_def)
  then show ?thesis
    using assms
    by (auto simp: fsl_ipc_recv_ptr_hold_def fsl_ipc_set_consumed_status_def fsl_ipc_recv_ptr_def
        get_channel_vaddr_def ptr_wf_def chan_of_def Let_def split: if_splits)
qed

theorem recv_hold_then_consume_witness:
  "\<exists>st2. fsl_ipc_recv_ptr (\<lambda>_. 0) 3 sample_state = Inr (0, Some (7, 8), st2)"
proof -
  have "fsl_ipc_recv_ptr_hold (\<lambda>_. 0) 3 sample_state = Inr (0, Some (7, 8), sample_state)"
    using chan_of_sample(1)
    by (simp add: fsl_ipc_recv_ptr_hold_def get_channel_vaddr_def chan_of_def OS_HET_CH_EMPTY_def
        sample_channel_def Let_def) (simp add: sample_state_def Let_def)
  from recv_hold_then_consume [OF sample_wf(1) this] show ?thesis by blast
qed

section \<open>Isolation\<close>

text \<open>Two channels with different structures and different descriptors. This does not exclude that the ring of one lies over the
  structure of the other; \<open>channel_bytes\<close> below does.\<close>

definition channel_sep :: "u32 \<Rightarrow> u32 \<Rightarrow> ipc_state \<Rightarrow> bool" where
  "channel_sep c d st =
     (snd (chvpaddr_arr st ! unat c) \<noteq> snd (chvpaddr_arr st ! unat d) \<and>
      (\<forall>i < unat (bd_ring_size (chan_of c st)). \<forall>j < unat (bd_ring_size (chan_of d st)).
         bd_at st (chan_of c st) (of_nat i) \<noteq> bd_at st (chan_of d st) (of_nat j)))"

definition same_channel :: "u32 \<Rightarrow> ipc_state \<Rightarrow> ipc_state \<Rightarrow> bool" where
  "same_channel d st st' =
     (chan_of d st' = chan_of d st \<and> ch_contents st' (chan_of d st') = ch_contents st (chan_of d st))"

text \<open>What a call on channel \<open>c\<close> may write besides bytes and doorbells.\<close>

definition only_touches :: "u32 \<Rightarrow> ipc_state \<Rightarrow> ipc_state \<Rightarrow> bool" where
  "only_touches c st st' =
     (us st' = us st \<and> chvpaddr_arr st' = chvpaddr_arr st \<and>
      (\<forall>v. v \<noteq> snd (chvpaddr_arr st ! unat c) \<longrightarrow> chans st' v = chans st v) \<and>
      (\<forall>a. a \<noteq> bd_at st (chan_of c st) (local_producer_num (chan_of c st)) \<longrightarrow> bds st' a = bds st a))"

lemma same_channel_frame:
  assumes "only_touches c st st'" "channel_sep c d st" "chan_ok (chan_of c st)"
  shows "same_channel d st st'"
proof -
  let ?k = "local_producer_num (chan_of c st)"
  have d: "chan_of d st' = chan_of d st"
    using assms(1,2) by (auto simp: chan_of_def channel_sep_def only_touches_def)
  have k: "of_nat (unat ?k) = ?k" by simp
  have "unat ?k < unat (bd_ring_size (chan_of c st))" using chan_okD(6) [OF assms(3)] .
  then have "bd_at st (chan_of d st) (of_nat j) \<noteq> bd_at st (chan_of c st) ?k"
    if "j < unat (bd_ring_size (chan_of d st))" for j
    using assms(2) that unfolding channel_sep_def by (metis k)
  then have "ring_bds st' (chan_of d st) = ring_bds st (chan_of d st)"
    using assms(1) by (simp add: ring_bds_def bd_at_def IPC_CH_VADDR_def only_touches_def)
  then show ?thesis by (simp add: same_channel_def d ch_contents_def)
qed

lemma bd_at_set_chan [simp]:
  "bd_at (set_chan v x st) = bd_at st"
  "bd_at st (ch\<lparr>producer_initialized := p\<rparr>) = bd_at st ch"
  by (simp_all add: fun_eq_iff bd_at_def IPC_CH_VADDR_def)

lemma only_touches_refl [simp]: "only_touches c st st"
  by (simp add: only_touches_def)

lemma touches_send_ptr:
  "fsl_ipc_send_ptr lk c a l st = Inr (r, st') \<Longrightarrow> only_touches c st st'"
  by (auto simp: fsl_ipc_send_ptr_def get_channel_vaddr_def only_touches_def chan_of_def Let_def
      split: if_splits)

lemma touches_send_msg:
  "fsl_ipc_send_msg lk c a l st = Inr (r, st') \<Longrightarrow> only_touches c st st'"
  by (auto simp: fsl_ipc_send_msg_def get_channel_vaddr_def only_touches_def chan_of_def Let_def
      split: if_splits)

lemma touches_recv_ptr:
  "fsl_ipc_recv_ptr lk c st = Inr (r, out, st') \<Longrightarrow> only_touches c st st'"
  by (auto simp: fsl_ipc_recv_ptr_def get_channel_vaddr_def only_touches_def Let_def split: if_splits)

lemma touches_recv_msg:
  "fsl_ipc_recv_msg lk c a st = Inr (r, out, st') \<Longrightarrow> only_touches c st st'"
  by (auto simp: fsl_ipc_recv_msg_def get_channel_vaddr_def only_touches_def Let_def split: if_splits)

lemma touches_set_consumed:
  "fsl_ipc_set_consumed_status lk c st = Inr (r, st') \<Longrightarrow> only_touches c st st'"
  by (auto simp: fsl_ipc_set_consumed_status_def get_channel_vaddr_def only_touches_def Let_def
      split: if_splits)

lemmas touches = touches_send_ptr touches_send_msg touches_recv_ptr touches_recv_msg touches_set_consumed

text \<open>
  The bytes a channel consists of: its control structure of 88 bytes and its ring of descriptors of 16 bytes. The buffers of its
  descriptors and the bytes in which two states differ, a control structure or a descriptor that differs counting as a whole.
\<close>

definition extent :: "vaddr \<Rightarrow> nat \<Rightarrow> vaddr set" where
  "extent a n = (\<lambda>i. a + of_nat i) ` {..<n}"

definition structure_bytes :: "u32 \<Rightarrow> ipc_state \<Rightarrow> vaddr set" where
  "structure_bytes c st = extent (snd (chvpaddr_arr st ! unat c)) 88"

definition ring_bytes :: "u32 \<Rightarrow> ipc_state \<Rightarrow> vaddr set" where
  "ring_bytes c st = extent (bd_at st (chan_of c st) 0) (16 * unat (bd_ring_size (chan_of c st)))"

definition channel_bytes :: "u32 \<Rightarrow> ipc_state \<Rightarrow> vaddr set" where
  "channel_bytes c st = structure_bytes c st \<union> ring_bytes c st"

definition ring_bd :: "u32 \<Rightarrow> nat \<Rightarrow> ipc_state \<Rightarrow> os_het_ipc_bd" where
  "ring_bd c k st = bds st (bd_at st (chan_of c st) (of_nat k))"

definition buffer_bytes :: "u32 \<Rightarrow> ipc_state \<Rightarrow> vaddr set" where
  "buffer_bytes c st = (\<Union>k < unat (bd_ring_size (chan_of c st)).
     extent (p2vcb (us st) (ucast (msg_ptr (ring_bd c k st)))) (unat (max_msg_size (chan_of c st))))"

definition received_bytes :: "u32 \<Rightarrow> vaddr \<Rightarrow> ipc_state \<Rightarrow> vaddr set" where
  "received_bytes c dst st = (\<Union>k < unat (bd_ring_size (chan_of c st)). extent dst (unat (msg_len (ring_bd c k st))))"

definition changed_bytes :: "ipc_state \<Rightarrow> ipc_state \<Rightarrow> vaddr set" where
  "changed_bytes st st' = (\<Union>v \<in> {v. chans st' v \<noteq> chans st v}. extent v 88) \<union>
     (\<Union>a \<in> {a. bds st' a \<noteq> bds st a}. extent a 16) \<union> {a. bytes st' a \<noteq> bytes st a}"

lemma extent_start: "0 < n \<Longrightarrow> a \<in> extent a n"
  by (auto simp: extent_def intro: image_eqI [of _ _ 0])

lemma extent_iff: "x - a < n \<Longrightarrow> x \<in> extent a (unat n)"
  by (auto simp: extent_def word_less_nat_alt intro: image_eqI [of _ _ "unat (x - a)"])

lemma extent_bd:
  assumes "unat k < unat (bd_ring_size (chan_of c st))"
  shows "extent (bd_at st (chan_of c st) k) 16 \<subseteq> ring_bytes c st"
proof
  fix x assume "x \<in> extent (bd_at st (chan_of c st) k) 16"
  then obtain i where i: "i < 16" "x = bd_at st (chan_of c st) k + of_nat i" by (auto simp: extent_def)
  have "x = bd_at st (chan_of c st) 0 + of_nat (16 * unat k + i)" using i(2) by (simp add: bd_at_def algebra_simps)
  moreover have "16 * unat k + i < 16 * unat (bd_ring_size (chan_of c st))" using assms i(1) by linarith
  ultimately show "x \<in> ring_bytes c st" unfolding ring_bytes_def extent_def by blast
qed

lemma apart_sep:
  assumes "channel_bytes c st \<inter> channel_bytes d st = {}"
  shows "channel_sep c d st"
proof -
  have s: "snd (chvpaddr_arr st ! unat e) \<in> channel_bytes e st" for e
    by (simp add: channel_bytes_def structure_bytes_def extent_start)
  have r: "bd_at st (chan_of e st) (of_nat i) \<in> channel_bytes e st" if "i < unat (bd_ring_size (chan_of e st))" for e i
  proof -
    have "i < 2 ^ 32" using less_trans [OF that unsigned_less] by simp
    then have "unat (of_nat i :: u32) = i" by (simp add: unat_of_nat)
    then show ?thesis using extent_bd [of "of_nat i" e st] that extent_start [of 16] by (auto simp: channel_bytes_def)
  qed
  show ?thesis unfolding channel_sep_def using s [of c] s [of d] r [of _ c] r [of _ d] assms by (metis disjoint_iff)
qed

text \<open>Every byte a call changes in a structure or a ring is one of its own channel.\<close>

lemma changed_only:
  assumes "only_touches c st st'" "chan_ok (chan_of c st)"
  shows "changed_bytes st st' \<subseteq> channel_bytes c st \<union> {a. bytes st' a \<noteq> bytes st a}"
proof -
  have "v = snd (chvpaddr_arr st ! unat c)" if "chans st' v \<noteq> chans st v" for v using assms(1) that by (auto simp: only_touches_def)
  then have "(\<Union>v \<in> {v. chans st' v \<noteq> chans st v}. extent v 88) \<subseteq> structure_bytes c st" by (auto simp: structure_bytes_def)
  moreover have "a = bd_at st (chan_of c st) (local_producer_num (chan_of c st))" if "bds st' a \<noteq> bds st a" for a
    using assms(1) that by (auto simp: only_touches_def)
  then have "(\<Union>a \<in> {a. bds st' a \<noteq> bds st a}. extent a 16) \<subseteq> ring_bytes c st"
    using extent_bd [OF chan_okD(6) [OF assms(2)]] by auto
  ultimately show ?thesis by (auto simp: changed_bytes_def channel_bytes_def)
qed

lemma memcpy_changes: "{a. memcpy m dst s n a \<noteq> m a} \<subseteq> extent dst (unat n)"
  by (auto simp: memcpy_def intro: extent_iff split: if_splits)

lemma ring_bd_at: "ring_bd c (unat k) st = bds st (bd_at st (chan_of c st) k)"
  by (simp add: ring_bd_def)

lemma extent_mono: "m \<le> n \<Longrightarrow> extent a m \<subseteq> extent a n"
  by (auto simp: extent_def)

lemma bytes_send_msg:
  assumes "fsl_ipc_send_msg lk c a l st = Inr (r, st')" "chan_ok (chan_of c st)"
  shows "{x. bytes st' x \<noteq> bytes st x} \<subseteq> buffer_bytes c st"
proof -
  let ?ch = "chan_of c st" let ?k = "local_producer_num ?ch"
  let ?va = "p2vcb (us st) (ucast (msg_ptr (ring_bd c (unat ?k) st)))"
  have "bytes st' = bytes st \<or> bytes st' = memcpy (bytes st) ?va a l \<and> l \<le> max_msg_size ?ch"
    using assms(1)
    by (auto simp: fsl_ipc_send_msg_def get_channel_vaddr_def chan_of_def ring_bd_at Let_def not_less
        split: if_splits)
  then show ?thesis
  proof
    assume m: "bytes st' = memcpy (bytes st) ?va a l \<and> l \<le> max_msg_size ?ch"
    then have "{x. bytes st' x \<noteq> bytes st x} \<subseteq> extent ?va (unat l)" by (simp add: memcpy_changes)
    also have "\<dots> \<subseteq> extent ?va (unat (max_msg_size ?ch))" using m by (intro extent_mono) (simp add: word_le_nat_alt)
    also have "\<dots> \<subseteq> buffer_bytes c st" using chan_okD(6) [OF assms(2)] by (auto simp: buffer_bytes_def)
    finally show ?thesis .
  qed simp
qed

lemma bytes_recv_msg:
  assumes "fsl_ipc_recv_msg lk c a st = Inr (r, out, st')" "chan_ok (chan_of c st)"
  shows "{x. bytes st' x \<noteq> bytes st x} \<subseteq> received_bytes c a st"
proof -
  let ?ch = "chan_of c st" let ?k = "local_consumer_num ?ch"
  have "bytes st' = bytes st \<or> (\<exists>va. bytes st' = memcpy (bytes st) a va (msg_len (ring_bd c (unat ?k) st)))"
    using assms(1) by (auto simp: fsl_ipc_recv_msg_def get_channel_vaddr_def chan_of_def ring_bd_at Let_def split: if_splits)
  moreover have "unat ?k < unat (bd_ring_size ?ch)" using chan_okD(4) [OF assms(2)] .
  then have "extent a (unat (msg_len (ring_bd c (unat ?k) st))) \<subseteq> received_bytes c a st" by (auto simp: received_bytes_def)
  ultimately show ?thesis using subset_trans [OF memcpy_changes] by (elim disjE exE) simp_all
qed

lemma bytes_kept:
  "fsl_ipc_send_ptr lk c a l st = Inr (r, st') \<Longrightarrow> bytes st' = bytes st"
  "fsl_ipc_recv_ptr lk c st = Inr (r, out, st') \<Longrightarrow> bytes st' = bytes st"
  "fsl_ipc_set_consumed_status lk c st = Inr (r, st') \<Longrightarrow> bytes st' = bytes st"
  by (auto simp: fsl_ipc_send_ptr_def fsl_ipc_recv_ptr_def fsl_ipc_set_consumed_status_def Let_def split: option.splits if_splits)

definition undisturbed :: "u32 \<Rightarrow> ipc_state \<Rightarrow> ipc_state \<Rightarrow> bool" where
  "undisturbed d st st' \<longleftrightarrow> same_channel d st st' \<and> changed_bytes st st' \<inter> channel_bytes d st = {}"

lemma undisturbedI:
  assumes "only_touches c st st'" "chan_ok (chan_of c st)" "channel_bytes c st \<inter> channel_bytes d st = {}"
    "{a. bytes st' a \<noteq> bytes st a} \<subseteq> B" "B \<inter> channel_bytes d st = {}"
  shows "undisturbed d st st'"
  using same_channel_frame [OF assms(1) apart_sep [OF assms(3)] assms(2)] changed_only [OF assms(1,2)] assms(3-5)
  unfolding undisturbed_def by blast

text \<open>C27: Channels that share no memory do not influence each other. Let no byte of channel d, neither of its control structure nor of
  its ring, be a byte of the structure or the ring of channel c. Then no pointer send or receive on c and no release of a held pointer
  changes a byte of d, and the counters and the queued descriptors of d are as they were. The same holds of a message send whose
  buffers lie outside d, and of a message receive whose destination lies outside d.
  The channels of the kernel's layout do not all satisfy the condition after the library's initialisation: there the ring of channel 0
  lies over the structure of the last channel.\<close>

theorem ipc_channel_isolation:
  assumes "chan_ok (chan_of c st)" "channel_bytes c st \<inter> channel_bytes d st = {}"
  shows "(fsl_ipc_send_ptr lk c a l st = Inr (r1, st1) \<longrightarrow> undisturbed d st st1) \<and>
    (fsl_ipc_send_msg lk c m l st = Inr (r2, st2) \<and> buffer_bytes c st \<inter> channel_bytes d st = {} \<longrightarrow> undisturbed d st st2) \<and>
    (fsl_ipc_recv_ptr lk c st = Inr (r3, out3, st3) \<longrightarrow> undisturbed d st st3) \<and>
    (fsl_ipc_recv_msg lk c b st = Inr (r4, out4, st4) \<and> received_bytes c b st \<inter> channel_bytes d st = {} \<longrightarrow> undisturbed d st st4) \<and>
    (fsl_ipc_set_consumed_status lk c st = Inr (r5, st5) \<longrightarrow> undisturbed d st st5)"
proof -
  have k: "undisturbed d st st'" if "only_touches c st st'" "bytes st' = bytes st" for st'
    by (rule undisturbedI [OF that(1) assms(1,2), of "{}"]) (simp_all add: that(2))
  show ?thesis
  proof (intro conjI impI)
    show "undisturbed d st st1" if "fsl_ipc_send_ptr lk c a l st = Inr (r1, st1)"
      by (rule k [OF touches_send_ptr [OF that] bytes_kept(1) [OF that]])
    show "undisturbed d st st2" if "fsl_ipc_send_msg lk c m l st = Inr (r2, st2) \<and> buffer_bytes c st \<inter> channel_bytes d st = {}"
      using undisturbedI [OF touches_send_msg assms(1,2) bytes_send_msg [OF _ assms(1)]] that by blast
    show "undisturbed d st st3" if "fsl_ipc_recv_ptr lk c st = Inr (r3, out3, st3)"
      by (rule k [OF touches_recv_ptr [OF that] bytes_kept(2) [OF that]])
    show "undisturbed d st st4" if "fsl_ipc_recv_msg lk c b st = Inr (r4, out4, st4) \<and> received_bytes c b st \<inter> channel_bytes d st = {}"
      using undisturbedI [OF touches_recv_msg assms(1,2) bytes_recv_msg [OF _ assms(1)]] that by blast
    show "undisturbed d st st5" if "fsl_ipc_set_consumed_status lk c st = Inr (r5, st5)"
      by (rule k [OF touches_set_consumed [OF that] bytes_kept(3) [OF that]])
  qed
qed

lemma sample_bd_at:
  "bd_at sample_state (chan_of 3 sample_state) k = 0x20C0 + k * 16"
  "bd_at sample_state (chan_of 5 sample_state) k = 0x2140 + k * 16"
  unfolding chan_of_sample
  by (simp_all add: bd_at_def IPC_CH_VADDR_def sample_channel_def sample_state_def blank_us_def Let_def)

lemma sample_bytes:
  "channel_bytes 3 sample_state = extent 0x208 88 \<union> extent 0x20C0 64" "channel_bytes 5 sample_state = extent 0x2B8 88 \<union> extent 0x2140 64"
proof -
  have s: "snd (chvpaddr_arr sample_state ! 3) = 0x208" "snd (chvpaddr_arr sample_state ! 5) = 0x2B8"
    by (simp_all add: sample_state_def Let_def)
  have r: "bd_ring_size (chan_of 3 sample_state) = 4" "bd_ring_size (chan_of 5 sample_state) = 4"
    unfolding chan_of_sample by (simp_all add: sample_channel_def)
  show "channel_bytes 3 sample_state = extent 0x208 88 \<union> extent 0x20C0 64" "channel_bytes 5 sample_state = extent 0x2B8 88 \<union> extent 0x2140 64"
    by (simp_all add: channel_bytes_def structure_bytes_def ring_bytes_def sample_bd_at s r)
qed

lemma extent_apart:
  assumes "unat a + m \<le> unat b \<or> unat b + n \<le> unat a" "unat a + m < 2 ^ 32" "unat b + n < 2 ^ 32"
  shows "extent a m \<inter> extent b n = {}"
proof -
  have u: "unat (x + of_nat i) = unat x + i" if "unat x + k < 2 ^ 32" "i < k" for x :: u32 and i k
    using that by (simp add: unat_word_ariths unat_of_nat)
  have "a + of_nat i \<noteq> b + of_nat j" if "i < m" "j < n" for i j
  proof
    assume "a + of_nat i = b + of_nat j"
    then have "unat a + i = unat b + j" using u [OF assms(2) that(1)] u [OF assms(3) that(2)] by simp
    then show False using assms(1) that by linarith
  qed
  then show ?thesis by (auto simp: extent_def)
qed

theorem ipc_channel_isolation_witness:
  "\<exists>r st'. fsl_ipc_send_ptr (\<lambda>_. 0) 3 1 2 sample_state = Inr (r, st') \<and> undisturbed 5 sample_state st'"
proof -
  have ok: "chan_ok (chan_of 3 sample_state)" "unat (3 :: u32) < length (chvpaddr_arr sample_state)"
    using sample_wf(1) by (simp_all add: ptr_wf_def)
  obtain r st' where s: "fsl_ipc_send_ptr (\<lambda>_. 0) 3 1 2 sample_state = Inr (r, st')"
    using send_ptr_cases [OF ok(2,1)] by blast
  have "channel_bytes 3 sample_state \<inter> channel_bytes 5 sample_state = {}"
    unfolding sample_bytes Int_Un_distrib Int_Un_distrib2 by (simp add: extent_apart)
  then have "undisturbed 5 sample_state st'"
    using ipc_channel_isolation [OF ok(1), of 5 "\<lambda>_. 0" 1 2 r st'] s by blast
  with s show ?thesis by blast
qed

section \<open>Receive status\<close>

lemma get_channel_vaddr_some:
  assumes "unat c < length (chvpaddr_arr st)"
  shows "\<exists>v. get_channel_vaddr c st = Some v \<and> chans st v = chan_of c st"
  using assms by (simp add: get_channel_vaddr_def chan_of_def)

lemma chk_recv_loop_bits:
  assumes "\<And>u. u \<in> set chs \<Longrightarrow> unat (us_channel_id u) < length (chvpaddr_arr st)"
  shows "\<exists>m. chk_recv_loop chs st b = Inr m \<and>
    (\<forall>n < 64. bit m n \<longleftrightarrow> bit b n \<or>
       (\<exists>u \<in> set chs. \<not> OS_HET_CH_EMPTY (chan_of (us_channel_id u) st) \<and> n = unat (63 - us_channel_id u)))"
  using assms
proof (induction chs arbitrary: b)
  case (Cons u chs)
  obtain v where v: "get_channel_vaddr (us_channel_id u) st = Some v" "chans st v = chan_of (us_channel_id u) st"
    using get_channel_vaddr_some Cons.prems by force
  let ?b = "if \<not> OS_HET_CH_EMPTY (chan_of (us_channel_id u) st)
            then b OR push_bit (unat (63 - us_channel_id u)) 1 else b"
  obtain m where m: "chk_recv_loop chs st ?b = Inr m"
      "\<And>n. n < 64 \<Longrightarrow> bit m n \<longleftrightarrow> bit ?b n \<or>
       (\<exists>u \<in> set chs. \<not> OS_HET_CH_EMPTY (chan_of (us_channel_id u) st) \<and> n = unat (63 - us_channel_id u))"
    using Cons.IH [of ?b] Cons.prems by auto
  have "bit ?b n \<longleftrightarrow> bit b n \<or>
      (\<not> OS_HET_CH_EMPTY (chan_of (us_channel_id u) st) \<and> n = unat (63 - us_channel_id u))" if "n < 64" for n
    using that by (auto simp: bit_simps)
  then show ?case using m v by (intro exI [of _ m]) auto
qed simp

lemma unat_63_minus:
  fixes c :: u32
  assumes "unat c < 64"
  shows "unat (63 - c) = 63 - unat c"
  using assms by (simp add: unat_sub word_le_nat_alt)

text \<open>The mask of \<open>fsl_ipc_chk_recv_status\<close> has bit 63 - k set exactly for the channels k
  that are channel zero or configured by this process and hold a message.\<close>

theorem chk_recv_status_exact:
  assumes "64 \<le> length (chvpaddr_arr st)" "\<forall>u \<in> set (us_channels (us st)). unat (us_channel_id u) < 64"
  shows "\<exists>m. fsl_ipc_chk_recv_status st = Inr (0, m) \<and>
    (\<forall>k < 64. bit m (63 - k) \<longleftrightarrow>
       (k = 0 \<or> (\<exists>u \<in> set (us_channels (us st)). unat (us_channel_id u) = k)) \<and>
       \<not> OS_HET_CH_EMPTY (chan_of (of_nat k) st))"
proof -
  let ?b = "(if \<not> OS_HET_CH_EMPTY (chan_of 0 st) then push_bit 63 1 else 0) :: u64"
  obtain v where v: "get_channel_vaddr 0 st = Some v" "chans st v = chan_of 0 st"
    using get_channel_vaddr_some [of 0 st] assms(1) by force
  have rng: "\<And>u. u \<in> set (us_channels (us st)) \<Longrightarrow> unat (us_channel_id u) < length (chvpaddr_arr st)"
    using assms by (meson order_less_le_trans)
  obtain m where m: "chk_recv_loop (us_channels (us st)) st ?b = Inr m"
      "\<And>n. n < 64 \<Longrightarrow> bit m n \<longleftrightarrow> bit ?b n \<or> (\<exists>u \<in> set (us_channels (us st)).
         \<not> OS_HET_CH_EMPTY (chan_of (us_channel_id u) st) \<and> n = unat (63 - us_channel_id u))"
    using chk_recv_loop_bits [OF rng] by blast
  have idx: "63 - k = unat (63 - us_channel_id u) \<longleftrightarrow> unat (us_channel_id u) = k"
    if "u \<in> set (us_channels (us st))" "k < 64" for u k
    using assms(2) that unat_63_minus [of "us_channel_id u"] by auto
  have ofn: "us_channel_id u = of_nat k" if "unat (us_channel_id u) = k" for u :: ipc_channel_us and k
    using that by auto
  have "bit m (63 - k) \<longleftrightarrow> (k = 0 \<or> (\<exists>u \<in> set (us_channels (us st)). unat (us_channel_id u) = k)) \<and>
      \<not> OS_HET_CH_EMPTY (chan_of (of_nat k) st)" if "k < 64" for k
  proof -
    have "bit (push_bit 63 1 :: u64) (63 - k) \<longleftrightarrow> 63 - k < 64 \<and> 63 = 63 - k"
      by (simp only: push_bit_of_1 bit_exp_iff possible_bit_word) simp
    then have "bit ?b (63 - k) \<longleftrightarrow> k = 0 \<and> \<not> OS_HET_CH_EMPTY (chan_of 0 st)"
      using that by (simp only: bit_0_eq bot_fun_def split: if_split) auto
    then show ?thesis using m(2) [of "63 - k"] idx [OF _ that] ofn by auto
  qed
  then show ?thesis using m(1) v by (auto simp: fsl_ipc_chk_recv_status_def)
qed

theorem chk_recv_status_exact_witness:
  "\<exists>m. fsl_ipc_chk_recv_status sample_state = Inr (0, m)"
  using chk_recv_status_exact [of sample_state] by (auto simp: sample_state_def Let_def blank_us_def)

section \<open>Message channels\<close>

text \<open>
  On a message channel the consumer owns one buffer per descriptor; a message is the
  bytes in the buffer, up to the length in the descriptor.
\<close>

definition read_bytes :: "(vaddr \<Rightarrow> u8) \<Rightarrow> vaddr \<Rightarrow> nat \<Rightarrow> u8 list" where
  "read_bytes m a n = map (\<lambda>i. m (a + of_nat i)) [0..<n]"

definition bd_buf :: "ipc_state \<Rightarrow> os_het_ipc_bd \<Rightarrow> vaddr" where
  "bd_buf st b = p2vcb (us st) (ucast (msg_ptr b))"

definition msg_of :: "ipc_state \<Rightarrow> os_het_ipc_bd \<Rightarrow> u8 list" where
  "msg_of st b = read_bytes (bytes st) (bd_buf st b) (unat (msg_len b))"

definition msg_contents :: "u32 \<Rightarrow> ipc_state \<Rightarrow> u8 list list" where
  "msg_contents c st = map (msg_of st) (ch_contents st (chan_of c st))"

text \<open>Two memory regions do not meet.\<close>

definition apart :: "vaddr \<Rightarrow> u32 \<Rightarrow> vaddr \<Rightarrow> u32 \<Rightarrow> bool" where
  "apart a n b k = (\<forall>x < n. \<forall>y < k. a + x \<noteq> b + y)"

definition ring_buf :: "u32 \<Rightarrow> ipc_state \<Rightarrow> nat \<Rightarrow> vaddr" where
  "ring_buf c st i = bd_buf st (ring_bds st (chan_of c st) ! i)"

definition msg_wf :: "u32 \<Rightarrow> ipc_state \<Rightarrow> bool" where
  "msg_wf c st =
     (unat c < length (chvpaddr_arr st) \<and> chan_ok (chan_of c st) \<and>
      consumer_initialized (chan_of c st) = OS_HET_INITIALIZED \<and>
      (\<forall>i < unat (bd_ring_size (chan_of c st)). ring_buf c st i \<noteq> 0) \<and>
      (\<forall>i < unat (bd_ring_size (chan_of c st)). \<forall>j < unat (bd_ring_size (chan_of c st)). i \<noteq> j \<longrightarrow>
         apart (ring_buf c st i) (max_msg_size (chan_of c st)) (ring_buf c st j) (max_msg_size (chan_of c st))) \<and>
      (\<forall>b \<in> set (ch_contents st (chan_of c st)). msg_len b \<le> max_msg_size (chan_of c st)))"

lemma memcpy_hit:
  assumes "x < n"
  shows "memcpy m dst s n (dst + x) = m (s + x)"
  using assms by (simp add: memcpy_def)

lemma memcpy_apart:
  assumes "apart dst n a k" "x < k"
  shows "memcpy m dst s n (a + x) = m (a + x)"
proof -
  have "\<not> a + x - dst < n"
  proof
    assume "a + x - dst < n"
    then have "dst + (a + x - dst) \<noteq> a + x" using assms unfolding apart_def by blast
    then show False by simp
  qed
  then show ?thesis by (simp add: memcpy_def)
qed

lemma of_nat_less_word:
  fixes n :: u32
  assumes "i < unat n"
  shows "of_nat i < n"
proof -
  have "unat (of_nat i :: u32) = i"
    using assms unat_less_exp [of n] by (simp only: unat_of_nat) simp
  then show ?thesis using assms by (simp only: word_less_nat_alt)
qed

lemma read_bytes_copied:
  "read_bytes (memcpy m dst s n) dst (unat n) = read_bytes m s (unat n)"
  by (simp add: read_bytes_def memcpy_hit of_nat_less_word)

lemma read_bytes_apart:
  assumes "apart dst n a k" "l \<le> k"
  shows "read_bytes (memcpy m dst s n) a (unat l) = read_bytes m a (unat l)"
proof -
  have "memcpy m dst s n (a + of_nat i) = m (a + of_nat i)" if "i < unat l" for i
    by (rule memcpy_apart [OF assms(1)]) (rule order_less_le_trans [OF of_nat_less_word [OF that] assms(2)])
  then show ?thesis by (simp add: read_bytes_def)
qed

lemma apart_mono:
  assumes "apart a n b k" "n' \<le> n" "k' \<le> k"
  shows "apart a n' b k'"
  using assms unfolding apart_def by (meson order_less_le_trans)

lemma apart_sym: "apart a n b k \<Longrightarrow> apart b k a n"
  unfolding apart_def by metis

text \<open>The queued descriptors are the ring entries from the consumer index on.\<close>

lemma ch_contents_nth:
  assumes "k < ch_used ch"
  shows "ch_contents st ch ! k = ring_bds st ch ! ((unat (local_consumer_num ch) + k) mod unat (bd_ring_size ch))"
  using assms by (simp add: ch_contents_def ring_slice_def)

lemma ch_contents_in_ring:
  assumes "chan_ok ch" "b \<in> set (ch_contents st ch)"
  shows "\<exists>j < unat (bd_ring_size ch). b = ring_bds st ch ! j"
proof -
  obtain k where k: "k < ch_used ch" "b = ch_contents st ch ! k"
    using assms(2) by (auto simp: in_set_conv_nth)
  have "(unat (local_consumer_num ch) + k) mod unat (bd_ring_size ch) < unat (bd_ring_size ch)"
    using chan_okD(1) [OF assms(1)] by (rule mod_less_divisor)
  then show ?thesis using k ch_contents_nth [OF k(1), of st] by auto
qed

lemma ch_contents_slot:
  assumes ok: "chan_ok ch" and nf: "\<not> OS_HET_CH_FULL ch" and b: "b \<in> set (ch_contents st ch)"
  shows "\<exists>j < unat (bd_ring_size ch). b = ring_bds st ch ! j \<and> j \<noteq> unat (local_producer_num ch)"
proof -
  note D = chan_okD [OF ok]
  obtain k where k: "k < ch_used ch" "b = ch_contents st ch ! k"
    using b by (auto simp: in_set_conv_nth)
  let ?j = "(unat (local_consumer_num ch) + k) mod unat (bd_ring_size ch)"
  have lt: "ch_used ch < unat (bd_ring_size ch)" using nf D(3) by (simp add: full_iff)
  have "?j \<noteq> unat (local_producer_num ch)" unfolding D(5) by (rule mod_offset_neq [OF k(1) lt])
  moreover have "?j < unat (bd_ring_size ch)" using D(1) by (rule mod_less_divisor)
  ultimately show ?thesis using k ch_contents_nth [OF k(1), of st] by auto
qed

lemma ring_bds_len_update:
  assumes "chan_ok ch" "us st' = us st"
    "bds st' = (bds st)(bd_at st ch (local_producer_num ch) := b)" "msg_ptr b = msg_ptr (bds st (bd_at st ch (local_producer_num ch)))"
    "i < unat (bd_ring_size ch)"
  shows "msg_ptr (ring_bds st' ch ! i) = msg_ptr (ring_bds st ch ! i)"
proof -
  note D = chan_okD [OF assms(1)]
  have r: "ring_bds st' ch = (ring_bds st ch)[unat (local_producer_num ch) := b]"
    by (rule ring_bds_update [OF D(6,2) assms(2,3)])
  show ?thesis using D(6) assms(4,5) unfolding r by (cases "i = unat (local_producer_num ch)") (auto simp: ring_bds_def)
qed

text \<open>The outcome of a successful message send.\<close>

lemma send_msg_success:
  assumes wf: "msg_wf c st" and nf: "\<not> OS_HET_CH_FULL (chan_of c st)" and lk: "0 \<le> lk c"
    and len: "len \<le> max_msg_size (chan_of c st)"
  defines "ch \<equiv> (chan_of c st)\<lparr>producer_initialized := OS_HET_INITIALIZED\<rparr>"
  defines "slot \<equiv> bd_at st (chan_of c st) (local_producer_num (chan_of c st))"
  shows "\<exists>st'. fsl_ipc_send_msg lk c sb len st = Inr (lk c, st') \<and> us st' = us st \<and>
    chvpaddr_arr st' = chvpaddr_arr st \<and> chan_of c st' = advance_producer ch \<and>
    bds st' = (bds st)(slot := (bds st slot)\<lparr>msg_len := len\<rparr>) \<and>
    bytes st' = memcpy (bytes st) (bd_buf st (bds st slot)) sb len"
proof -
  have ok: "chan_ok (chan_of c st)" using wf by (simp add: msg_wf_def)
  note D = chan_okD [OF ok]
  have k: "of_nat (unat (local_producer_num (chan_of c st))) = local_producer_num (chan_of c st)" by simp
  have "bd_buf st (bds st slot) \<noteq> 0"
    using wf D(6) by (auto simp: msg_wf_def ring_buf_def ring_bds_def slot_def k)
  moreover have "OS_HET_CH_FULL ch = OS_HET_CH_FULL (chan_of c st)"
    by (simp add: ch_def full_iff ch_used_def)
  ultimately show ?thesis
    using wf nf lk len D(7)
    by (simp add: fsl_ipc_send_msg_def get_channel_vaddr_def msg_wf_def Let_def slot_def ch_def bd_buf_def
        chan_of_def not_less)
qed

lemma ring_view_cong [simp]:
  "ring_bds st (ch\<lparr>producer_initialized := p\<rparr>) = ring_bds st ch"
  "ch_used (ch\<lparr>producer_initialized := p\<rparr>) = ch_used ch"
  "ch_contents st (ch\<lparr>producer_initialized := p\<rparr>) = ch_contents st ch"
  "chan_ok (ch\<lparr>producer_initialized := p\<rparr>) = chan_ok ch"
  by (simp_all add: ring_bds_def ch_contents_def ch_used_def chan_ok_def)

lemma advance_fields [simp]:
  "max_msg_size (advance_producer ch) = max_msg_size ch"
  "max_msg_size (advance_consumer ch) = max_msg_size ch"
  "consumer_initialized (advance_producer ch) = consumer_initialized ch"
  "consumer_initialized (advance_consumer ch) = consumer_initialized ch"
  by (simp_all add: advance_producer_def advance_consumer_def)

lemma msg_of_apart:
  assumes "us st' = us st" "bytes st' = memcpy (bytes st) dst s n"
    "apart dst n (bd_buf st b) k" "msg_len b \<le> k"
  shows "msg_of st' b = msg_of st b"
  using read_bytes_apart [OF assms(3,4)] assms(1,2) by (simp add: msg_of_def bd_buf_def)

lemma send_msg_appends:
  assumes wf: "msg_wf c st" and nf: "\<not> OS_HET_CH_FULL (chan_of c st)" and lk: "0 \<le> lk c"
    and len: "len \<le> max_msg_size (chan_of c st)"
  shows "\<exists>st'. fsl_ipc_send_msg lk c sb len st = Inr (lk c, st') \<and> msg_wf c st' \<and>
    msg_contents c st' = msg_contents c st @ [read_bytes (bytes st) sb (unat len)]"
proof -
  let ?ch = "chan_of c st"
  let ?k = "local_producer_num ?ch"
  let ?slot = "bd_at st ?ch ?k"
  let ?b = "(bds st ?slot)\<lparr>msg_len := len\<rparr>"
  have ok: "chan_ok ?ch" using wf by (simp add: msg_wf_def)
  note D = chan_okD [OF ok]
  obtain st' where st': "fsl_ipc_send_msg lk c sb len st = Inr (lk c, st')" "us st' = us st"
      "chvpaddr_arr st' = chvpaddr_arr st"
      "chan_of c st' = advance_producer (?ch\<lparr>producer_initialized := OS_HET_INITIALIZED\<rparr>)"
      "bds st' = (bds st)(?slot := ?b)" "bytes st' = memcpy (bytes st) (bd_buf st (bds st ?slot)) sb len"
    using send_msg_success [where c = c and st = st and lk = lk and len = len and sb = sb, OF wf nf lk len] by blast
  let ?ch1 = "?ch\<lparr>producer_initialized := OS_HET_INITIALIZED\<rparr>"
  have nf1: "\<not> OS_HET_CH_FULL ?ch1" using nf by (simp add: full_iff)
  have ok1: "chan_ok ?ch1" using ok by simp
  have cont: "ch_contents st' (chan_of c st') = ch_contents st ?ch @ [?b]"
    using ch_contents_produce [OF ok1 nf1, of st' st ?b] st'(2,4,5) by simp
  have ring: "ring_buf c st' i = ring_buf c st i" if "i < unat (bd_ring_size ?ch)" for i
    using ring_bds_len_update [OF ok st'(2,5)] that by (simp add: ring_buf_def bd_buf_def st'(2,4))
  have slot: "bd_buf st (bds st ?slot) = ring_buf c st (unat ?k)"
    using D(6) by (simp add: ring_buf_def ring_bds_def)
  have old: "msg_of st' b = msg_of st b" "msg_len b \<le> max_msg_size ?ch"
    if b: "b \<in> set (ch_contents st ?ch)" for b
  proof -
    obtain j where j: "j < unat (bd_ring_size ?ch)" "b = ring_bds st ?ch ! j" "j \<noteq> unat ?k"
      using ch_contents_slot [OF ok nf b] by blast
    have "apart (ring_buf c st (unat ?k)) (max_msg_size ?ch) (ring_buf c st j) (max_msg_size ?ch)"
      using wf D(6) j by (auto simp: msg_wf_def)
    then have "apart (bd_buf st (bds st ?slot)) len (bd_buf st b) (max_msg_size ?ch)"
      unfolding slot using apart_mono len order_refl by (metis j(2) ring_buf_def)
    then show "msg_of st' b = msg_of st b"
      using wf b by (intro msg_of_apart [OF st'(2,6)]) (auto simp: msg_wf_def)
    show "msg_len b \<le> max_msg_size ?ch" using wf b by (simp add: msg_wf_def)
  qed
  have new: "msg_of st' ?b = read_bytes (bytes st) sb (unat len)"
    by (simp add: msg_of_def bd_buf_def st'(2,6)) (simp add: read_bytes_copied flip: bd_buf_def)
  have "msg_wf c st'"
    using wf advance_producer_ok(1) [OF ok1 nf1] ring old(2) len
    by (simp add: msg_wf_def cont st'(3)) (simp add: st'(4))
  moreover have "msg_contents c st' = msg_contents c st @ [read_bytes (bytes st) sb (unat len)]"
    using old(1) new by (simp add: msg_contents_def cont)
  ultimately show ?thesis using st'(1) by blast
qed

lemma ring_buf_consume:
  assumes "us st' = us st" "bds st' = bds st" "chan_of c st' = advance_consumer (chan_of c st)"
  shows "ring_buf c st' i = ring_buf c st i"
  unfolding ring_buf_def assms(3)
  by (simp add: bd_buf_def ring_bds_def bd_at_def IPC_CH_VADDR_def assms(1,2))

lemma recv_msg_removes:
  assumes wf: "msg_wf c st" and ne: "\<not> OS_HET_CH_EMPTY (chan_of c st)" and lk: "0 \<le> lk c"
    and dst: "\<And>i. i < unat (bd_ring_size (chan_of c st)) \<Longrightarrow>
      apart dst (max_msg_size (chan_of c st)) (ring_buf c st i) (max_msg_size (chan_of c st))"
  shows "\<exists>l st'. fsl_ipc_recv_msg lk c dst st = Inr (lk c, Some l, st') \<and> msg_wf c st' \<and>
    msg_contents c st = read_bytes (bytes st') dst (unat l) # msg_contents c st'"
proof -
  let ?ch = "chan_of c st"
  let ?k = "local_consumer_num ?ch"
  let ?b = "bds st (bd_at st ?ch ?k)"
  let ?st' = "set_chan (snd (chvpaddr_arr st ! unat c)) (advance_consumer ?ch)
                (st\<lparr>bytes := memcpy (bytes st) dst (bd_buf st ?b) (msg_len ?b)\<rparr>)"
  have ok: "chan_ok ?ch" using wf by (simp add: msg_wf_def)
  note D = chan_okD [OF ok]
  have slot: "bd_buf st ?b = ring_buf c st (unat ?k)" using D(4) by (simp add: ring_buf_def ring_bds_def)
  have nz: "bd_buf st ?b \<noteq> 0" unfolding slot using wf D(4) by (simp add: msg_wf_def)
  have call: "fsl_ipc_recv_msg lk c dst st = Inr (lk c, Some (msg_len ?b), ?st')"
    using wf ne lk nz D(7)
    by (simp add: fsl_ipc_recv_msg_def get_channel_vaddr_def msg_wf_def Let_def bd_buf_def chan_of_def)
  have c': "chan_of c ?st' = advance_consumer ?ch" by (simp add: chan_of_def)
  have cont: "ch_contents st ?ch = ?b # ch_contents ?st' (chan_of c ?st')"
    using ch_contents_consume [OF ok ne, of st] ch_contents_cong [of ?st' st] by (simp add: c')
  have lens: "msg_len b \<le> max_msg_size ?ch" if "b \<in> set (ch_contents st ?ch)" for b
    using wf that by (simp add: msg_wf_def)
  have keep: "msg_of ?st' b = msg_of st b" if "b \<in> set (ch_contents ?st' (chan_of c ?st'))" for b
  proof -
    have b: "b \<in> set (ch_contents st ?ch)" "?b \<in> set (ch_contents st ?ch)" using that cont by auto
    obtain j where j: "j < unat (bd_ring_size ?ch)" "b = ring_bds st ?ch ! j"
      using ch_contents_in_ring [OF ok b(1)] by blast
    have "apart dst (msg_len ?b) (bd_buf st b) (max_msg_size ?ch)"
      using apart_mono [OF dst [OF j(1)] lens [OF b(2)] order_refl] j(2) by (simp add: ring_buf_def)
    then show ?thesis using lens [OF b(1)] by (intro msg_of_apart) auto
  qed
  have got: "msg_of st ?b = read_bytes (bytes ?st') dst (unat (msg_len ?b))"
    by (simp add: msg_of_def read_bytes_copied)
  have "ring_buf c ?st' i = ring_buf c st i" for i
    by (rule ring_buf_consume [OF _ _ c']) simp_all
  then have "msg_wf c ?st'"
    using wf advance_consumer_ok(1) [OF ok ne] lens cont
    by (simp add: msg_wf_def c')
  then show ?thesis
    using call got keep cont by (auto simp: msg_contents_def)
qed

text \<open>C12: Message channels deliver byte for byte, in order: \<open>fsl_ipc_send_msg\<close> on a channel
  that is not full appends exactly the bytes of the caller's buffer, leaving the queued
  messages intact; \<open>fsl_ipc_recv_msg\<close> into a buffer outside the ring puts exactly the
  oldest message into it and leaves the others intact.\<close>

theorem ipc_msg_channel_fifo:
  assumes "msg_wf c st" "0 \<le> lk c"
  shows "(\<not> OS_HET_CH_FULL (chan_of c st) \<and> len \<le> max_msg_size (chan_of c st) \<longrightarrow>
      (\<exists>st'. fsl_ipc_send_msg lk c sb len st = Inr (lk c, st') \<and> msg_wf c st' \<and>
        msg_contents c st' = msg_contents c st @ [read_bytes (bytes st) sb (unat len)])) \<and>
    (msg_contents c st \<noteq> [] \<and> (\<forall>i < unat (bd_ring_size (chan_of c st)).
        apart dst (max_msg_size (chan_of c st)) (ring_buf c st i) (max_msg_size (chan_of c st))) \<longrightarrow>
      (\<exists>l st'. fsl_ipc_recv_msg lk c dst st = Inr (lk c, Some l, st') \<and> msg_wf c st' \<and>
        msg_contents c st = read_bytes (bytes st') dst (unat l) # msg_contents c st'))"
proof -
  have e: "\<not> OS_HET_CH_EMPTY (chan_of c st)" if "msg_contents c st \<noteq> []"
  proof -
    have "length (msg_contents c st) \<noteq> 0" using that by simp
    then show ?thesis by (simp add: msg_contents_def empty_iff)
  qed
  show ?thesis
    using send_msg_appends [where c = c and st = st and lk = lk and len = len and sb = sb] 
      recv_msg_removes [where c = c and st = st and lk = lk and dst = dst] assms e by blast
qed

section \<open>Buffers laid out in a row\<close>

lemma unat_slot:
  fixes sz x :: u32
  assumes "i < n" "n * unat sz \<le> 2 ^ 32" "x < sz"
  shows "unat (of_nat i * sz + x) = i * unat sz + unat x"
proof -
  have "unat x < unat sz" using assms(3) by (simp only: word_less_nat_alt)
  moreover have "Suc i * unat sz \<le> n * unat sz" using assms(1) by (intro mult_le_mono1) simp
  ultimately have "i * unat sz + unat x < 2 ^ 32" using assms(2) by simp
  moreover have "of_nat i * sz + x = of_nat (i * unat sz + unat x)" by simp
  ultimately show ?thesis by (simp only: unat_of_nat) (simp add: take_bit_nat_eq_self)
qed

lemma apart_slots:
  fixes sz :: u32
  assumes "i \<noteq> j" "i < n" "j < n" "n * unat sz \<le> 2 ^ 32"
  shows "apart (b + of_nat i * sz) sz (b + of_nat j * sz) sz"
  unfolding apart_def
proof (intro allI impI notI)
  fix x y assume xy: "x < sz" "y < sz" and eq: "b + of_nat i * sz + x = b + of_nat j * sz + y"
  have "of_nat i * sz + x = of_nat j * sz + y" using eq by (simp add: add.assoc)
  then have "i * unat sz + unat x = j * unat sz + unat y"
    using unat_slot [OF assms(2,4) xy(1)] unat_slot [OF assms(3,4) xy(2)] by simp
  moreover have "unat x < unat sz" "unat y < unat sz" using xy by (simp_all only: word_less_nat_alt)
  moreover from this have "(i * unat sz + unat x) div unat sz = i" "(j * unat sz + unat y) div unat sz = j"
    by simp_all
  ultimately show False using assms(1) by simp
qed

lemma attach_ring_before:
  assumes "i < k" "k + n \<le> 2 ^ 28"
  shows "attach_ring_loop n pa sz (b + of_nat k * 16) m (b + of_nat i * 16) = m (b + of_nat i * 16)"
  using assms
proof (induction n arbitrary: k pa m)
  case (Suc n)
  let ?a = "b + of_nat k * 16"
  let ?m = "m(?a := (m ?a)\<lparr>msg_ptr := ucast pa\<rparr>)"
  have nxt: "?a + 16 = b + of_nat (Suc k) * 16" by (simp add: algebra_simps)
  have "attach_ring_loop n (pa + sz) sz (b + of_nat (Suc k) * 16) ?m (b + of_nat i * 16) = ?m (b + of_nat i * 16)"
    by (rule Suc.IH) (use Suc.prems in auto)
  moreover have "b + of_nat i * 16 \<noteq> ?a"
    using of_nat_times16_inj [of i k] Suc.prems by auto
  ultimately show ?case unfolding attach_ring_loop.simps nxt by simp
qed simp

lemma attach_ring_nth:
  assumes "i < n" "k + n \<le> 2 ^ 28"
  shows "msg_ptr (attach_ring_loop n pa sz (b + of_nat k * 16) m (b + of_nat (k + i) * 16)) =
    ucast (pa + of_nat i * sz)"
  using assms
proof (induction n arbitrary: k pa m i)
  case (Suc n)
  let ?a = "b + of_nat k * 16"
  let ?m = "m(?a := (m ?a)\<lparr>msg_ptr := ucast pa\<rparr>)"
  have nxt: "?a + 16 = b + of_nat (Suc k) * 16" by (simp add: algebra_simps)
  show ?case
  proof (cases i)
    case 0
    have "attach_ring_loop n (pa + sz) sz (b + of_nat (Suc k) * 16) ?m (b + of_nat k * 16) = ?m ?a"
      by (rule attach_ring_before) (use Suc.prems in auto)
    then show ?thesis unfolding attach_ring_loop.simps nxt by (simp add: 0)
  next
    case (Suc j)
    have "msg_ptr (attach_ring_loop n (pa + sz) sz (b + of_nat (Suc k) * 16) ?m (b + of_nat (Suc k + j) * 16)) =
        ucast (pa + sz + of_nat j * sz)"
      by (rule Suc.IH) (use Suc.prems \<open>i = Suc j\<close> in auto)
    then show ?thesis unfolding attach_ring_loop.simps nxt by (simp add: Suc algebra_simps)
  qed
qed simp

text \<open>
  A channel before its first configuration: consumer not initialised, all counters zero.
\<close>

definition fresh_channel :: "os_het_ipc_channel \<Rightarrow> bool" where
  "fresh_channel ch =
     (consumer_initialized ch \<noteq> OS_HET_INITIALIZED \<and> producer_num ch = consumer_num ch \<and>
      local_producer_num ch = 0 \<and> local_consumer_num ch = 0)"

lemma configure_ring_fresh:
  assumes "consumer_initialized (chans st v) \<noteq> OS_HET_INITIALIZED" "bd_ring_size (chans st v) \<le> max_depth (us st)"
    "unat depth \<le> 2 ^ 27"
  shows "\<exists>s1. configure_ring v depth IPC_MSG_CH pa msz st = Some s1 \<and> us s1 = us st \<and>
    chvpaddr_arr s1 = chvpaddr_arr st \<and>
    chans s1 v = (chans st v)\<lparr>bd_ring_size := depth, ch_type := IPC_MSG_CH, max_msg_size := msz,
      ipc_ind := OS_HET_NO_INT\<rparr> \<and>
    bds s1 = attach_ring_loop (unat depth) pa msz (IPC_CH_VADDR (bd_base (chans st v)) st) (bds st)"
proof -
  have "nat (sint depth) = unat depth" using assms(3) by (subst sint_small) simp_all
  then show ?thesis
    using assms(1,2)
    by (simp add: configure_ring_def ipc_channel_attach_msg_ring_def Let_def IPC_CH_VADDR_def not_less)
qed

lemma configure_msg_channel_establishes:
  assumes c: "unat c < length (chvpaddr_arr st)" "0 \<le> lk c" "fresh_channel (chan_of c st)"
    and room: "bd_ring_size (chan_of c st) \<le> max_depth (us st)" "length (us_channels (us st)) < 64"
    and depth: "0 < depth" "unat depth \<le> 2 ^ 27" "unat depth * unat msz \<le> 2 ^ 32"
    and p2v: "\<forall>i < unat depth. p2vcb (us st) (pa + of_nat i * msz) = va + of_nat i * msz \<and>
        va + of_nat i * msz \<noteq> 0"
  shows "\<exists>st'. fsl_ipc_configure_channel lk True c depth IPC_MSG_CH pa msz st = Inr (lk c, st') \<and>
    msg_wf c st' \<and> msg_contents c st' = []"
proof -
  let ?v = "snd (chvpaddr_arr st ! unat c)"
  let ?ch = "(chan_of c st)\<lparr>bd_ring_size := depth, ch_type := IPC_MSG_CH, max_msg_size := msz,
      ipc_ind := OS_HET_NO_INT, consumer_initialized := OS_HET_INITIALIZED\<rparr>"
  let ?base = "IPC_CH_VADDR (bd_base (chan_of c st)) st"
  obtain s1 where s1: "configure_ring ?v depth IPC_MSG_CH pa msz st = Some s1" "us s1 = us st"
      "chvpaddr_arr s1 = chvpaddr_arr st"
      "chans s1 ?v = (chans st ?v)\<lparr>bd_ring_size := depth, ch_type := IPC_MSG_CH, max_msg_size := msz,
        ipc_ind := OS_HET_NO_INT\<rparr>"
      "bds s1 = attach_ring_loop (unat depth) pa msz ?base (bds st)"
    using configure_ring_fresh [of st ?v depth pa msz] c(3) room(1) depth(2)
    unfolding chan_of_def fresh_channel_def by blast
  let ?us = "(us st)\<lparr>us_channels := us_channels (us st) @ [\<lparr>us_cbfunc = 0, us_signal = 0, us_channel_id = c\<rparr>]\<rparr>"
  have "\<exists>st'. fsl_ipc_configure_channel lk True c depth IPC_MSG_CH pa msz st = Inr (lk c, st') \<and>
      chvpaddr_arr st' = chvpaddr_arr st \<and> us st' = ?us \<and> chan_of c st' = ?ch \<and> bds st' = bds s1"
    using c(1,2) room(2) s1(1,2,3,4)
    by (simp add: fsl_ipc_configure_channel_def get_channel_vaddr_def attach_us_channel_def chan_of_def)
  then obtain st' where st': "fsl_ipc_configure_channel lk True c depth IPC_MSG_CH pa msz st = Inr (lk c, st')"
      "chvpaddr_arr st' = chvpaddr_arr st" "sh_ctrl_area (us st') = sh_ctrl_area (us st)"
      "p2vcb (us st') = p2vcb (us st)" "chan_of c st' = ?ch"
      "bds st' = attach_ring_loop (unat depth) pa msz ?base (bds st)"
    unfolding s1(5) by auto
  have used: "ch_used ?ch = 0" using c(3) by (simp add: ch_used_def fresh_channel_def)
  have ok: "chan_ok ?ch"
    using c(3) depth used by (simp add: chan_ok_def fresh_channel_def word_less_nat_alt)
  have buf: "ring_buf c st' i = va + of_nat i * msz" if "i < unat depth" for i
  proof -
    have "msg_ptr (ring_bds st' ?ch ! i) = ucast (pa + of_nat i * msz)"
      using attach_ring_nth [OF that, of 0 pa msz ?base "bds st"] that depth(2) st'(3,6)
      by (simp add: ring_bds_def bd_at_def IPC_CH_VADDR_def)
    then show ?thesis using p2v that by (simp add: ring_buf_def bd_buf_def st'(4,5))
  qed
  have cont: "ch_contents st' ?ch = []" using used by (simp add: ch_contents_def)
  have "msg_wf c st'"
    using c(1) ok buf p2v apart_slots [OF _ _ _ depth(3)] by (simp add: msg_wf_def st'(2,5) cont)
  moreover have "msg_contents c st' = []" by (simp add: msg_contents_def st'(5) cont)
  ultimately show ?thesis using st'(1) by blast
qed

text \<open>Configuring a fresh message channel for \<open>depth\<close> messages of \<open>msz\<close> bytes, over a
  buffer area that the address translation maps linearly, succeeds and establishes the
  message-channel invariant with no message queued: one non-null buffer per descriptor,
  no two of them overlapping.\<close>

theorem configure_msg_channel_ready:
  assumes c: "unat c < length (chvpaddr_arr st)" "0 \<le> lk c" "fresh_channel (chan_of c st)"
    and room: "bd_ring_size (chan_of c st) \<le> max_depth (us st)" "length (us_channels (us st)) < 64"
    and depth: "0 < depth" "unat depth \<le> 2 ^ 27" "unat depth * unat msz \<le> 2 ^ 32"
    and p2v: "\<forall>i < unat depth. p2vcb (us st) (pa + of_nat i * msz) = va + of_nat i * msz \<and>
        va + of_nat i * msz \<noteq> 0"
  shows "\<exists>st'. fsl_ipc_configure_channel lk True c depth IPC_MSG_CH pa msz st = Inr (lk c, st') \<and>
    msg_wf c st' \<and> msg_contents c st' = []"
  using assms by (rule configure_msg_channel_establishes)

definition fresh_sample :: ipc_state where
  "fresh_sample = sample_state\<lparr>chans := (\<lambda>_. (sample_channel 0)\<lparr>consumer_initialized := 0,
     local_producer_num := 0, local_consumer_num := 0\<rparr>)\<rparr>"

lemma fresh_sample_facts:
  "unat (5 :: u32) < length (chvpaddr_arr fresh_sample)" "fresh_channel (chan_of 5 fresh_sample)"
  "bd_ring_size (chan_of 5 fresh_sample) \<le> max_depth (us fresh_sample)"
  "length (us_channels (us fresh_sample)) < 64"
  "\<forall>i < unat (4 :: u32). p2vcb (us fresh_sample) (0x8000 + of_nat i * 16) = 0x8000 + of_nat i * 16 \<and>
     (0x8000 :: u32) + of_nat i * 16 \<noteq> 0"
proof -
  have "(0x8000 :: u32) + of_nat i * 16 \<noteq> 0" if "i < 4" for i :: nat
  proof -
    have "i = 0 \<or> i = 1 \<or> i = 2 \<or> i = 3" using that by auto
    then show ?thesis by (elim disjE) simp_all
  qed
  then show "\<forall>i < unat (4 :: u32). p2vcb (us fresh_sample) (0x8000 + of_nat i * 16) = 0x8000 + of_nat i * 16 \<and>
     (0x8000 :: u32) + of_nat i * 16 \<noteq> 0"
    by (simp add: fresh_sample_def sample_state_def blank_us_def Let_def)
qed (simp_all add: fresh_sample_def sample_state_def sample_channel_def blank_us_def Let_def chan_of_def
      fresh_channel_def)

theorem configure_msg_channel_ready_witness:
  "\<exists>st'. fsl_ipc_configure_channel (\<lambda>_. 0) True 5 4 IPC_MSG_CH 0x8000 16 fresh_sample = Inr (0, st') \<and> msg_wf 5 st'"
  using configure_msg_channel_ready [where c = 5 and st = fresh_sample and lk = "\<lambda>_. 0" and depth = 4 and msz = 16
      and pa = "0x8000" and va = "0x8000"] fresh_sample_facts by auto

theorem ipc_msg_channel_fifo_witness:
  "\<exists>st st' lk. fsl_ipc_send_msg lk 5 0x9000 3 st = Inr (0, st') \<and> msg_contents 5 st' = [read_bytes (bytes st) 0x9000 3]"
proof -
  let ?lk = "(\<lambda>_. 0) :: lock_result"
  obtain st where st: "fsl_ipc_configure_channel ?lk True 5 4 IPC_MSG_CH 0x8000 16 fresh_sample = Inr (0, st)"
      "msg_wf 5 st" "msg_contents 5 st = []"
    using configure_msg_channel_establishes [where c = 5 and st = fresh_sample and lk = ?lk and depth = 4 and msz = 16
      and pa = "0x8000" and va = "0x8000"] fresh_sample_facts by auto
  have "bd_ring_size (chan_of 5 st) = 4" "max_msg_size (chan_of 5 st) = 16"
    using st(1)
    by (auto simp: fsl_ipc_configure_channel_def get_channel_vaddr_def configure_ring_def chan_of_def
        ipc_channel_attach_msg_ring_def attach_us_channel_def Let_def fresh_sample_def sample_state_def
        sample_channel_def blank_us_def split: if_splits option.splits sum.splits)
  moreover have "ch_used (chan_of 5 st) = 0"
    using arg_cong [OF st(3), of length] by (simp add: msg_contents_def)
  ultimately show ?thesis
    using ipc_msg_channel_fifo [where c = 5 and st = st and lk = ?lk and len = 3 and sb = "0x9000"] st(2,3) by (auto simp: full_iff)
qed

end
