(* ===== verification/IPC_TxReq.thy ===== *)
theory IPC_TxReq
  imports IPC_Services
begin

text \<open>
  The transmit-request path: \<open>fsl_ipc_configure_txreq\<close> places the DMA list,
  \<open>fsl_ipc_send_tx_req\<close> builds one DMA chain that gathers the payload and then publishes
  the message by writing the producer counters and ringing the doorbell.
\<close>

lemma word_mod_32_eq_0: "(w * 32 :: u32) mod 32 = 0"
proof -
  have "(w * 32) mod 32 = take_bit 5 (push_bit 5 w)" by (simp add: take_bit_eq_mod push_bit_eq_mult)
  also have "\<dots> = 0" by (rule bit_word_eqI) (simp add: bit_simps)
  finally show ?thesis .
qed

lemma word_align_32: "(p + (32 - p mod 32) :: u32) mod 32 = 0"
proof -
  have "p = p div 32 * 32 + p mod 32" by (rule div_mult_mod_eq [symmetric])
  then have "p + (32 - p mod 32) = (p div 32 + 1) * 32" by (simp add: algebra_simps)
  then show ?thesis by (simp only: word_mod_32_eq_0)
qed

lemma txreq_list_aligned: "txreq_list_paddr ch lbuff lsize mod 32 = 0"
  by (simp only: txreq_list_paddr_def Let_def word_align_32 split: if_split) blast

lemma sg_transfers_length:
  "sg_transfers sgl pa = Some ts \<Longrightarrow> length ts < length sgl"
  by (induction sgl arbitrary: pa ts) (auto split: if_splits)

text \<open>Each gathered piece lands right behind the previous one.\<close>

lemma sg_transfers_contiguous:
  "sg_transfers sgl pa = Some ts \<Longrightarrow> i < length ts \<Longrightarrow>
     ts ! i = (src_addr (sgl ! i), ucast (pa + sum_list (map sg_len (take i sgl))), sg_len (sgl ! i)) \<and>
     is_valid (sgl ! i)"
proof (induction sgl arbitrary: pa ts i)
  case (Cons e es)
  then obtain ts' where ts': "sg_transfers es (pa + sg_len e) = Some ts'"
      "ts = (src_addr e, ucast pa, sg_len e) # ts'" "is_valid e"
    by (auto split: if_splits)
  show ?case
    using Cons.IH [OF ts'(1)] Cons.prems(2) by (cases i) (auto simp: ts'(2,3) add.assoc)
qed simp

definition txreq_lbuff :: "u32 \<Rightarrow> ipc_state \<Rightarrow> u32" where
  "txreq_lbuff c st =
     txreq_tb_lbuff_paddr (us st) + local_producer_num (chan_of c st) * max_txreq_lbuff_size (us st)"

definition txreq_spare :: "u32 \<Rightarrow> ipc_state \<Rightarrow> u32" where
  "txreq_spare c st =
     txreq_tb_lbuff_paddr (us st) + bd_ring_size (chan_of c st) * max_txreq_lbuff_size (us st)"

text \<open>
  The specification of publication: the counters at offsets 16 and 60 of the channel
  structure, from the words behind the transmit buffers, then the doorbell register.
\<close>

definition txreq_chain :: "u32 \<Rightarrow> ipc_state \<Rightarrow> (u32 \<times> u64 \<times> u32) list" where
  "txreq_chain c st =
     (let p = fst (chvpaddr_arr st ! unat c); s = txreq_spare c st; ch = chan_of c st in
      [(s, ucast (p + 16), 4), (s + 4, ucast (p + 60), 4)] @
      (if ipc_ind ch = OS_HET_VIRTUAL_INT
       then [(s + 8, phys_addr (dsp_ccsr (us st)) + 0x8F2000 + ucast (ind_offset ch), 4)] else []))"

lemma txreq_chain_eq:
  "txreq_tail (chan_of c st) (txreq_spare c st) (fst (chvpaddr_arr st ! unat c)) (phys_addr (dsp_ccsr (us st))) =
     txreq_chain c st"
  by (simp add: txreq_chain_def txreq_tail_def Let_def)

definition word_at :: "ipc_state \<Rightarrow> vaddr \<Rightarrow> u32" where
  "word_at st a = of_be32 (bytes st a) (bytes st (a + 1)) (bytes st (a + 2)) (bytes st (a + 3))"

text \<open>A channel on which a transmit request of \<open>len\<close> bytes can be sent.\<close>

definition txreq_ready :: "u32 \<Rightarrow> u32 \<Rightarrow> ipc_state \<Rightarrow> bool" where
  "txreq_ready c len st =
     (unat c < length (chvpaddr_arr st) \<and>
      consumer_initialized (chan_of c st) = OS_HET_INITIALIZED \<and>
      \<not> OS_HET_CH_FULL (chan_of c st) \<and> bd_ring_size (chan_of c st) \<noteq> 0 \<and> len \<le> 1020 \<and>
      bd_buf st (bds st (bd_at st (chan_of c st) (local_producer_num (chan_of c st)))) \<noteq> 0 \<and>
      p2vcb (us st) (txreq_spare c st) \<noteq> 0)"

lemma send_tx_req_start:
  assumes "txreq_ready c len st" "0 \<le> lk c" "udma (us st) = Some d"
    "sg_transfers sgl (txreq_lbuff c st) = Some ts"
    "fsl_uspace_dma_start (dma_add_all (ts @ txreq_chain c st) (fsl_uspace_dma_list_clear d)) = Some (r, d')"
  shows "\<exists>st'. fsl_ipc_send_tx_req lk c sgl req len st = Inr (lk c, st') \<and> udma (us st') = Some d' \<and>
    txreq_inprocess (us st') \<and> chans st' = chans st \<and>
    word_at st' (p2vcb (us st) (txreq_spare c st)) = producer_num (chan_of c st) + 1 \<and>
    word_at st' (p2vcb (us st) (txreq_spare c st) + 4) =
      (local_producer_num (chan_of c st) + 1) mod bd_ring_size (chan_of c st)"
  using assms unfolding txreq_chain_eq [symmetric]
  by (simp add: fsl_ipc_send_tx_req_def get_channel_vaddr_def get_channel_paddr_def txreq_ready_def
      chan_of_def txreq_lbuff_def txreq_spare_def bd_buf_def Let_def not_less word_at_def
      store_be32_def be32_def)

definition txreq_sample :: ipc_state where
  "txreq_sample = sample_state\<lparr>us := (us sample_state)\<lparr>udma := Some dma_sample,
     txreq_tb_lbuff_paddr := 0x3000, max_txreq_lbuff_size := 0x100\<rparr>\<rparr>"

definition sg_sample :: "sg_entry list" where
  "sg_sample = [\<lparr>src_addr = 0x5000, sg_len = 32, is_tb_start = True, is_valid = True\<rparr>,
     \<lparr>src_addr = 0x6000, sg_len = 8, is_tb_start = False, is_valid = True\<rparr>,
     \<lparr>src_addr = 0, sg_len = 0, is_tb_start = False, is_valid = False\<rparr>]"

lemma txreq_sample_facts:
  "txreq_ready 5 100 txreq_sample" "udma (us txreq_sample) = Some dma_sample"
  "sg_transfers sg_sample (txreq_lbuff 5 txreq_sample) = Some [(0x5000, 0x3100, 32), (0x6000, 0x3120, 8)]"
  "length sg_sample \<le> 128"
proof -
  have ch: "chan_of 5 txreq_sample = sample_channel 5"
    using chan_of_sample(2) by (simp add: chan_of_def txreq_sample_def)
  show "txreq_ready 5 100 txreq_sample"
    unfolding txreq_ready_def txreq_spare_def ch
    by (simp add: txreq_sample_def sample_state_def sample_channel_def blank_us_def bd_buf_def full_iff
        ch_used_def Let_def)
  show "sg_transfers sg_sample (txreq_lbuff 5 txreq_sample) = Some [(0x5000, 0x3100, 32), (0x6000, 0x3120, 8)]"
    unfolding txreq_lbuff_def ch by (simp add: sg_sample_def txreq_sample_def sample_channel_def)
qed (simp_all add: txreq_sample_def sg_sample_def)

text \<open>C31: A transmit request on an idle DMA channel with an aligned list always fits into
  the 144 descriptors, and the chain handed to the controller copies the payload pieces
  first, in order, then the two advanced producer counters, and rings the doorbell last.\<close>

theorem send_tx_req_publishes_last:
  assumes "txreq_ready c len st" "0 \<le> lk c" "length sgl \<le> 128"
    "sg_transfers sgl (txreq_lbuff c st) = Some ts" "udma (us st) = Some d" "\<not> fsl_uspace_dma_busy d"
    "ucast (phys_addr (dma_list_mem d)) mod (32 :: u32) = 0"
  shows "\<exists>st' d' chain. fsl_ipc_send_tx_req lk c sgl req len st = Inr (lk c, st') \<and>
    udma (us st') = Some d' \<and> txreq_inprocess (us st') \<and> chans st' = chans st \<and>
    dma_chain 144 d' (dma_clndar (dma_reg d')) = Some chain \<and>
    map (\<lambda>e. (src e, dest e, dlength e)) chain =
      map (\<lambda>(sa, da, n). (sa, ucast da, n)) (ts @ txreq_chain c st) \<and>
    word_at st' (p2vcb (us st) (txreq_spare c st)) = producer_num (chan_of c st) + 1 \<and>
    word_at st' (p2vcb (us st) (txreq_spare c st) + 4) =
      (local_producer_num (chan_of c st) + 1) mod bd_ring_size (chan_of c st)"
proof -
  let ?es = "ts @ txreq_chain c st"
  have "length (txreq_chain c st) \<le> 3" "0 < length (txreq_chain c st)"
    by (simp_all add: txreq_chain_def Let_def)
  then have len: "0 < length ?es" "length ?es \<le> 144"
    using sg_transfers_length [OF assms(4)] assms(3) by simp_all
  obtain d' chain where d': "fsl_uspace_dma_start (dma_add_all ?es (fsl_uspace_dma_list_clear d)) = Some (0, d')"
      "dma_chain 144 d' (dma_clndar (dma_reg d')) = Some chain"
      "map (\<lambda>e. (src e, dest e, dlength e)) chain = map (\<lambda>(sa, da, n). (sa, ucast da, n)) ?es"
    using dma_chain_after_start [OF assms(6) len assms(7)] by blast
  show ?thesis
    using send_tx_req_start [where lk = lk and req = req, OF assms(1,2,5,4) d'(1)] d'(2,3) by blast
qed

theorem send_tx_req_publishes_last_witness:
  "\<exists>st'. fsl_ipc_send_tx_req (\<lambda>_. 0) 5 sg_sample 0x9000 100 txreq_sample = Inr (0, st') \<and> txreq_inprocess (us st')"
proof -
  have d: "\<not> fsl_uspace_dma_busy dma_sample" "ucast (phys_addr (dma_list_mem dma_sample)) mod (32 :: u32) = 0"
    by (simp_all add: fsl_uspace_dma_busy_def dma_sample_def)
  obtain st' where "fsl_ipc_send_tx_req (\<lambda>_. 0) 5 sg_sample 0x9000 100 txreq_sample = Inr (0, st')"
      "txreq_inprocess (us st')"
    using send_tx_req_publishes_last [where lk = "\<lambda>_. 0" and req = "0x9000", OF txreq_sample_facts(1) order_refl
        txreq_sample_facts(4,3,2) d] by (elim exE conjE) 
  then show ?thesis by (intro exI conjI)
qed

text \<open>While the previous transfer is still running a transmit request is reported as
  sent although it is not: the start is refused, the registers are left alone, and the
  list the controller is reading has been overwritten.\<close>

lemma send_tx_req_busy_reports_success:
  assumes "txreq_ready c len st" "0 \<le> lk c" "length sgl \<le> 128"
    "sg_transfers sgl (txreq_lbuff c st) = Some ts" "udma (us st) = Some d" "fsl_uspace_dma_busy d"
  shows "\<exists>st' d'. fsl_ipc_send_tx_req lk c sgl req len st = Inr (lk c, st') \<and>
    udma (us st') = Some d' \<and> txreq_inprocess (us st') \<and> dma_reg d' = dma_reg d \<and>
    (\<forall>j < length (ts @ txreq_chain c st). dma_list d' (int j) = dma_entry d (int j) ((ts @ txreq_chain c st) ! j))"
proof -
  let ?es = "ts @ txreq_chain c st" and ?c = "fsl_uspace_dma_list_clear d"
  have "length (txreq_chain c st) \<le> 3" by (simp add: txreq_chain_def Let_def)
  then have "length ?es \<le> 144" using sg_transfers_length [OF assms(4)] assms(3) by simp
  moreover have c: "list_index ?c = 0" "dma_list_mem ?c = dma_list_mem d" "dma_reg ?c = dma_reg d"
    by (simp_all add: fsl_uspace_dma_list_clear_def)
  ultimately have spec: "dma_reg (dma_add_all ?es ?c) = dma_reg d"
    "\<And>j. j < length ?es \<Longrightarrow> dma_list (dma_add_all ?es ?c) (int j) = dma_entry d (int j) (?es ! j)"
    using dma_add_all_spec [of ?c ?es] dma_entry_addr_cong(2) [OF c(2)] by auto
  have "fsl_uspace_dma_start (dma_add_all ?es ?c) = Some (- 21, dma_add_all ?es ?c)"
    using assms(6) spec(1) by (simp add: fsl_uspace_dma_start_def fsl_uspace_dma_busy_def)
  then show ?thesis
    using send_tx_req_start [where lk = lk and req = req, OF assms(1,2,5,4)] spec by blast
qed

theorem send_tx_req_busy_reports_success_witness:
  "\<exists>st st'. fsl_ipc_send_tx_req (\<lambda>_. 0) 5 sg_sample 0x9000 100 st = Inr (0, st') \<and> txreq_inprocess (us st')"
proof -
  let ?d = "dma_sample\<lparr>dma_reg := (dma_reg dma_sample)\<lparr>dma_sr := 4\<rparr>\<rparr>"
  let ?st = "txreq_sample\<lparr>us := (us txreq_sample)\<lparr>udma := Some ?d\<rparr>\<rparr>"
  have "fsl_uspace_dma_busy ?d" by (simp add: fsl_uspace_dma_busy_def)
  moreover have "txreq_ready 5 100 ?st"
    using txreq_sample_facts(1)
    by (simp add: txreq_ready_def txreq_spare_def chan_of_def bd_buf_def bd_at_def IPC_CH_VADDR_def)
  moreover have "sg_transfers sg_sample (txreq_lbuff 5 ?st) = Some [(0x5000, 0x3100, 32), (0x6000, 0x3120, 8)]"
    using txreq_sample_facts(3) by (simp add: txreq_lbuff_def chan_of_def)
  ultimately show ?thesis
    using send_tx_req_busy_reports_success [where lk = "\<lambda>_. 0" and req = "0x9000" and st = ?st and c = 5
        and len = 100 and sgl = sg_sample and d = ?d] txreq_sample_facts(4) by auto
qed

end
