(* ===== verification/IPC_Layout.thy ===== *)
theory IPC_Layout
  imports IPC_Services
begin

text \<open>
  The layout of the shared control area: \<open>fsl_B4_ipc_init\<close> writes the channel structures
  and assigns every channel its descriptor ring behind them, \<open>fsl_ipc_init\<close> computes the
  table of channel addresses from the same base. The mapping the initialisation makes for
  itself is identified with the mapping the channel code uses (both show the same memory).
\<close>

abbreviation (input) "HET_START_VALID_VALUE \<equiv> (0x12345678 :: u32)"
abbreviation (input) "HET_END_VALID_VALUE \<equiv> (0x87654321 :: u32)"

record b4_env =
  b4_map_ok :: bool
  b4_rat_rc :: int
  b4_rat_regions :: u32
  b4_params_rc :: int
  b4_params :: u32

definition open_channel_zero :: "vaddr \<Rightarrow> u16 \<Rightarrow> ipc_state \<Rightarrow> ipc_state" where
  "open_channel_zero v depth st =
     set_chan v ((chans st v)\<lparr>consumer_initialized := OS_HET_INITIALIZED, ch_id := 0,
                   bd_ring_size := ucast depth, ch_type := IPC_PTR_CH\<rparr>) st"

definition b4_init_channel :: "u32 \<Rightarrow> u32 \<Rightarrow> os_het_ipc_channel \<Rightarrow> os_het_ipc_channel" where
  "b4_init_channel i base ch =
     ch\<lparr>start_validation_value := HET_START_VALID_VALUE, end_validation_value := HET_END_VALID_VALUE,
        ch_id := i, bd_base := ucast base, producer_initialized := 0,
        consumer_initialized := (if i \<noteq> 0 then 0 else consumer_initialized ch),
        consumer_num := 0, producer_num := 0,
        bd_ring_size := (if i \<noteq> 0 then 0 else bd_ring_size ch),
        max_msg_size := 0,
        ch_type := (if i \<noteq> 0 then IPC_MSG_CH else IPC_PTR_CH),
        ipc_ind := OS_HET_NO_INT, local_producer_num := 0, local_consumer_num := 0,
        semaphore_pointer := 0\<rparr>"

fun b4_init_loop :: "nat \<Rightarrow> nat \<Rightarrow> vaddr \<Rightarrow> u32 \<Rightarrow> u32 \<Rightarrow> ipc_state \<Rightarrow> ipc_state" where
  "b4_init_loop 0 i chv p step st = st"
| "b4_init_loop (Suc n) i chv p step st =
     (let v = chv + sizeof_het_channel * of_nat i
      in b4_init_loop n (Suc i) chv (p + step) step
           (set_chan v (b4_init_channel (of_nat i) p (chans st v)) st))"

definition b4_num_channels :: "b4_env \<Rightarrow> u16" where
  "b4_num_channels env =
     (let n = ucast (b4_params env AND 0x0000FFFF) in if n = 0 then 64 else n)"

definition b4_channel_depth :: "b4_env \<Rightarrow> u16" where
  "b4_channel_depth env =
     (let n = ucast (drop_bit 16 (b4_params env AND 0xFFFF0000)) in if n = 0 then 16 else n)"

definition fsl_B4_ipc_init :: "b4_env \<Rightarrow> ipc_state \<Rightarrow> int \<times> ipc_state" where
  "fsl_B4_ipc_init env st =
     (if \<not> b4_map_ok env then (- 1, st)
      else if b4_rat_rc env \<noteq> 0 then (- 1, st)
      else if b4_params_rc env \<noteq> 0 then (- 1, st)
      else if b4_rat_regions env = 2 then (0, st)
      else
        (let ipc = het_ipcs st (IPC_CH_VADDR (ctrl_ipc (ctrl st)) st);
             start = ucast (ctrl_ipc (ctrl st)) + sizeof_het_ipc;
             n = b4_num_channels env; depth = b4_channel_depth env;
             p1 = start + sizeof_het_channel * ucast n;
             chv = IPC_CH_VADDR (ipc_channels ipc) st
         in (0, open_channel_zero chv depth
                  (b4_init_loop (unat n) 0 chv p1 (sizeof_het_bd * ucast depth) st))))"

definition fsl_B4_ipc_reinit :: "b4_env \<Rightarrow> bool \<Rightarrow> ipc_state \<Rightarrow> int \<times> ipc_state" where
  "fsl_B4_ipc_reinit env has_ipc st =
     (case fsl_B4_ipc_init env st of (r, st1) \<Rightarrow>
        if r \<noteq> 0 then (- 1, st1)
        else (0, if has_ipc then fsl_ipc_us_reinit st1 else st1))"

definition fsl_B4_ipc_reinit_old :: "b4_env \<Rightarrow> bool \<Rightarrow> ipc_state \<Rightarrow> int \<times> ipc_state" where
  "fsl_B4_ipc_reinit_old env has_ipc st =
     (if has_ipc then
        (case fsl_B4_ipc_init env st of (r, st1) \<Rightarrow>
           if r \<noteq> 0 then (- 1, st1) else (0, fsl_ipc_us_reinit st1))
      else (0, st))"

section \<open>What the initialisation writes\<close>

lemma of_nat_times88_inj:
  assumes "(88 * of_nat i :: u32) = 88 * of_nat j" "i < 2 ^ 25" "j < 2 ^ 25"
  shows "i = j"
proof -
  have "unat (of_nat (88 * n) :: u32) = 88 * n" if "n < 2 ^ 25" for n
    using that by (simp only: unat_of_nat) simp
  moreover have "(of_nat (88 * i) :: u32) = of_nat (88 * j)" using assms(1) by simp
  ultimately have "88 * i = 88 * j" using assms(2,3) by metis
  then show ?thesis by simp
qed

lemma b4_init_loop_frame [simp]:
  "us (b4_init_loop n i chv p step st) = us st"
  "chvpaddr_arr (b4_init_loop n i chv p step st) = chvpaddr_arr st"
  "het_ipcs (b4_init_loop n i chv p step st) = het_ipcs st"
  "ctrl (b4_init_loop n i chv p step st) = ctrl st"
  by (induction n arbitrary: i p st) (simp_all add: Let_def set_chan_def)

lemma b4_init_loop_before:
  assumes "j < i" "i + n \<le> 2 ^ 25"
  shows "chans (b4_init_loop n i chv p step st) (chv + 88 * of_nat j) = chans st (chv + 88 * of_nat j)"
  using assms
proof (induction n arbitrary: i p st)
  case (Suc n)
  have "chv + 88 * of_nat j \<noteq> chv + 88 * of_nat i"
    using of_nat_times88_inj [of j i] Suc.prems by auto
  then show ?case using Suc by (simp add: Let_def)
qed simp

lemma b4_init_loop_chan:
  assumes "j < n" "i + n \<le> 2 ^ 25"
  shows "chans (b4_init_loop n i chv p step st) (chv + 88 * of_nat (i + j)) =
    b4_init_channel (of_nat (i + j)) (p + of_nat j * step) (chans st (chv + 88 * of_nat (i + j)))"
  using assms
proof (induction n arbitrary: i p st j)
  case (Suc n)
  let ?v = "chv + 88 * of_nat i"
  let ?st = "set_chan ?v (b4_init_channel (of_nat i) p (chans st ?v)) st"
  show ?case
  proof (cases j)
    case 0
    have "chans (b4_init_loop n (Suc i) chv (p + step) step ?st) ?v = chans ?st ?v"
      by (rule b4_init_loop_before) (use Suc.prems in auto)
    then show ?thesis using 0 by (simp add: Let_def)
  next
    case (Suc k)
    have "chans (b4_init_loop n (Suc i) chv (p + step) step ?st) (chv + 88 * of_nat (Suc i + k)) =
        b4_init_channel (of_nat (Suc i + k)) (p + step + of_nat k * step) (chans ?st (chv + 88 * of_nat (Suc i + k)))"
      by (rule Suc.IH) (use Suc.prems \<open>j = Suc k\<close> in auto)
    moreover have "chv + 88 * of_nat (Suc i + k) \<noteq> ?v"
      using of_nat_times88_inj [of "Suc i + k" i] Suc.prems \<open>j = Suc k\<close> by auto
    ultimately show ?thesis using \<open>j = Suc k\<close> by (simp add: Let_def algebra_simps)
  qed
qed simp

text \<open>The address translation of the control area is linear.\<close>

lemma IPC_CH_VADDR_linear:
  "IPC_CH_VADDR (ucast (p + q :: u32)) st = IPC_CH_VADDR (ucast p) st + q"
  by (simp add: IPC_CH_VADDR_def)

lemma IPC_CH_VADDR_low: "IPC_CH_VADDR a st = IPC_CH_VADDR (ucast (ucast a :: u32)) st"
  by (simp add: IPC_CH_VADDR_def)

definition b4_ring_base :: "b4_env \<Rightarrow> ipc_state \<Rightarrow> nat \<Rightarrow> u32" where
  "b4_ring_base env st i =
     ucast (ctrl_ipc (ctrl st)) + 32 + 88 * ucast (b4_num_channels env) +
     of_nat i * (16 * ucast (b4_channel_depth env))"

lemma b4_init_bd_base:
  assumes "fsl_B4_ipc_init env st = (0, st1)" "b4_rat_regions env \<noteq> 2" "i < unat (b4_num_channels env)"
  defines "chv \<equiv> IPC_CH_VADDR (ipc_channels (het_ipcs st (IPC_CH_VADDR (ctrl_ipc (ctrl st)) st))) st"
  shows "bd_base (chans st1 (chv + 88 * of_nat i)) = ucast (b4_ring_base env st i)"
    "us st1 = us st" "het_ipcs st1 = het_ipcs st" "ctrl st1 = ctrl st"
proof -
  let ?n = "unat (b4_num_channels env)" and ?step = "16 * ucast (b4_channel_depth env) :: u32"
  let ?p1 = "ucast (ctrl_ipc (ctrl st)) + 32 + 88 * ucast (b4_num_channels env) :: u32"
  have st1: "st1 = open_channel_zero chv (b4_channel_depth env) (b4_init_loop ?n 0 chv ?p1 ?step st)"
    using assms(1,2) by (auto simp: fsl_B4_ipc_init_def Let_def chv_def split: if_splits)
  have "?n < 2 ^ 16" using unat_less_exp [of "b4_num_channels env"] by simp
  then have "bd_base (chans (b4_init_loop ?n 0 chv ?p1 ?step st) (chv + 88 * of_nat (0 + i))) =
      ucast (?p1 + of_nat i * ?step)"
    using b4_init_loop_chan [of i ?n 0 chv ?p1 ?step st] assms(3) by (simp add: b4_init_channel_def)
  then show "bd_base (chans st1 (chv + 88 * of_nat i)) = ucast (b4_ring_base env st i)"
    by (auto simp: st1 open_channel_zero_def b4_ring_base_def)
  show "us st1 = us st" "het_ipcs st1 = het_ipcs st" "ctrl st1 = ctrl st"
    by (simp_all add: st1 open_channel_zero_def set_chan_def)
qed

section \<open>Separation of the channels\<close>

lemma fill_channel_table_nth:
  assumes "i < 64"
  shows "snd (fill_channel_table st ! i) =
    IPC_CH_VADDR (ipc_channels (het_ipcs st (ipc_inst (us st)))) st + 88 * of_nat i"
proof -
  have "snd (fill_channel_table st ! i) =
      IPC_CH_VADDR (ucast (ucast (ipc_channels (het_ipcs st (ipc_inst (us st)))) + 88 * of_nat i :: u32)) st"
    using assms by (simp add: fill_channel_table_def calc_channel_paddr_def calc_channel_vaddr_def Let_def)
  then show ?thesis
    unfolding IPC_CH_VADDR_linear using IPC_CH_VADDR_low [of "ipc_channels (het_ipcs st (ipc_inst (us st)))" st]
    by simp
qed

text \<open>A state in which the tables and ring bases are as the two initialisations leave them.\<close>

definition b4_layout :: "b4_env \<Rightarrow> ipc_state \<Rightarrow> ipc_state \<Rightarrow> bool" where
  "b4_layout env st0 st =
     (\<forall>i < unat (b4_num_channels env).
        snd (chvpaddr_arr st ! i) =
          IPC_CH_VADDR (ipc_channels (het_ipcs st0 (IPC_CH_VADDR (ctrl_ipc (ctrl st0)) st0))) st0 + 88 * of_nat i \<and>
        bd_base (chans st (snd (chvpaddr_arr st ! i))) = ucast (b4_ring_base env st0 i))"

lemma fsl_ipc_init_table:
  assumes "fsl_ipc_init env (Some f) sh dsp pa st = (True, st2)"
  shows "chvpaddr_arr st2 = fill_channel_table st2" "chans st2 = chans st" "het_ipcs st2 = het_ipcs st"
    "ctrl st2 = ctrl st" "sh_ctrl_area (us st2) = sh"
    "ipc_inst (us st2) = ucast (ctrl_ipc (ctrl st)) - ucast (phys_addr sh) + range_vaddr sh"
    "length (chvpaddr_arr st2) = 64"
  using assms
  by (auto simp: fsl_ipc_init_def fsl_ipc_init_rat_def init_het_ipc_def get_channels_info_def get_ipc_inst_def
      blank_us_def Let_def IPC_CH_VADDR_def fill_channel_table_def calc_channel_paddr_def
      calc_channel_vaddr_def split: if_splits)

lemma b4_layout_established:
  assumes "fsl_B4_ipc_init env st = (0, st1)" "b4_rat_regions env \<noteq> 2" "unat (b4_num_channels env) \<le> 64"
    "fsl_ipc_init ienv (Some f) (sh_ctrl_area (us st)) dsp pa st1 = (True, st2)"
  shows "b4_layout env st st2"
proof -
  note T = fsl_ipc_init_table [OF assms(4)]
  let ?chv = "IPC_CH_VADDR (ipc_channels (het_ipcs st (IPC_CH_VADDR (ctrl_ipc (ctrl st)) st))) st"
  have "snd (chvpaddr_arr st2 ! i) = ?chv + 88 * of_nat i \<and>
      bd_base (chans st2 (snd (chvpaddr_arr st2 ! i))) = ucast (b4_ring_base env st i)"
    if i: "i < unat (b4_num_channels env)" for i
  proof -
    note B = b4_init_bd_base [OF assms(1,2) i]
    have "snd (chvpaddr_arr st2 ! i) = ?chv + 88 * of_nat i"
      unfolding T(1) using fill_channel_table_nth [of i st2] i assms(3)
      by (simp add: T(3,5,6) B(3,4) IPC_CH_VADDR_def)
    then show ?thesis using B(1) by (simp add: T(2))
  qed
  then show ?thesis unfolding b4_layout_def by blast
qed

lemma b4_ring_bd_at:
  assumes "b4_layout env st0 st" "unat c < unat (b4_num_channels env)"
  shows "bd_at st (chan_of c st) k =
    IPC_CH_VADDR (ucast (b4_ring_base env st0 0)) st +
      of_nat (unat c) * (16 * ucast (b4_channel_depth env)) + k * 16"
proof -
  have "b4_ring_base env st0 (unat c) =
      b4_ring_base env st0 0 + of_nat (unat c) * (16 * ucast (b4_channel_depth env))"
    by (simp add: b4_ring_base_def)
  moreover have "bd_base (chan_of c st) = ucast (b4_ring_base env st0 (unat c))"
    using assms unfolding b4_layout_def chan_of_def by blast
  ultimately show ?thesis by (simp only: bd_at_def IPC_CH_VADDR_linear)
qed

lemma depth_step:
  "unat (16 * ucast (d :: u16) :: u32) = 16 * unat d" "unat d < 2 ^ 16"
proof -
  show d: "unat d < 2 ^ 16" using unat_less_exp [of d] by simp
  have "take_bit 32 (unat d) = unat d" using d by (intro take_bit_nat_eq_self) simp
  then have "unat (ucast d :: u32) = unat d" by (simp add: unsigned_ucast_eq)
  then show "unat (16 * ucast d :: u32) = 16 * unat d"
    using d by (simp add: unat_word_ariths)
qed

lemma b4_layout_separate:
  assumes lay: "b4_layout env st0 st" and n: "unat (b4_num_channels env) \<le> 64"
    and cd: "unat c < unat (b4_num_channels env)" "unat d < unat (b4_num_channels env)" "c \<noteq> d"
    and sz: "unat (bd_ring_size (chan_of c st)) \<le> unat (b4_channel_depth env)"
      "unat (bd_ring_size (chan_of d st)) \<le> unat (b4_channel_depth env)"
  shows "channel_sep c d st"
proof -
  let ?D = "16 * ucast (b4_channel_depth env) :: u32"
  let ?B = "IPC_CH_VADDR (ucast (b4_ring_base env st0 0)) st"
  have ne: "unat c \<noteq> unat d" using cd(3) by (simp add: word_unat_eq_iff)
  have "unat (b4_num_channels env) * unat ?D \<le> 64 * 2 ^ 20"
    using n depth_step [of "b4_channel_depth env"] by (intro mult_le_mono) simp_all
  then have ap: "apart (?B + of_nat (unat c) * ?D) ?D (?B + of_nat (unat d) * ?D) ?D"
    using cd(1,2) ne by (intro apart_slots [of _ _ "unat (b4_num_channels env)"]) simp_all
  have in_slot: "of_nat i * 16 < ?D" if "i < unat (b4_channel_depth env)" for i
  proof -
    have "unat (of_nat (16 * i) :: u32) = 16 * i"
      using that depth_step(2) [of "b4_channel_depth env"] by (simp only: unat_of_nat) simp
    then show ?thesis
      using that depth_step(1) [of "b4_channel_depth env"] by (simp add: word_less_nat_alt mult.commute)
  qed
  have "bd_at st (chan_of c st) (of_nat i) \<noteq> bd_at st (chan_of d st) (of_nat j)"
    if "i < unat (bd_ring_size (chan_of c st))" "j < unat (bd_ring_size (chan_of d st))" for i j
    unfolding b4_ring_bd_at [OF lay cd(1)] b4_ring_bd_at [OF lay cd(2)]
    using ap in_slot [of i] in_slot [of j] that sz unfolding apart_def by auto
  moreover have "snd (chvpaddr_arr st ! unat c) \<noteq> snd (chvpaddr_arr st ! unat d)"
    using lay cd ne n of_nat_times88_inj [of "unat c" "unat d"] by (auto simp: b4_layout_def)
  ultimately show ?thesis by (simp add: channel_sep_def)
qed

text \<open>C5: Initialisation gives every channel its own control structure and descriptor ring:
  after \<open>fsl_B4_ipc_init\<close> for up to 64 channels and \<open>fsl_ipc_init\<close>, and for as long as the
  table and the ring bases stay as they are, any two channels whose ring sizes do not
  exceed the configured channel depth are separate (and so isolated from each other).\<close>

theorem b4_init_separates_channels:
  assumes "fsl_B4_ipc_init env st = (0, st1)" "b4_rat_regions env \<noteq> 2" "unat (b4_num_channels env) \<le> 64"
    "fsl_ipc_init ienv (Some f) (sh_ctrl_area (us st)) dsp pa st1 = (True, st2)"
    "chvpaddr_arr st3 = chvpaddr_arr st2" "sh_ctrl_area (us st3) = sh_ctrl_area (us st2)"
    "\<forall>i < unat (b4_num_channels env). bd_base (chan_of (of_nat i) st3) = bd_base (chan_of (of_nat i) st2)"
    "unat c < unat (b4_num_channels env)" "unat d < unat (b4_num_channels env)" "c \<noteq> d"
    "unat (bd_ring_size (chan_of c st3)) \<le> unat (b4_channel_depth env)"
    "unat (bd_ring_size (chan_of d st3)) \<le> unat (b4_channel_depth env)"
  shows "channel_sep c d st3"
proof -
  have lay: "b4_layout env st st2" by (rule b4_layout_established [OF assms(1-4)])
  have "bd_base (chans st3 (snd (chvpaddr_arr st3 ! i))) = bd_base (chans st2 (snd (chvpaddr_arr st2 ! i)))"
    if "i < unat (b4_num_channels env)" for i
  proof -
    have "unat (of_nat i :: u32) = i" using that assms(3) by (simp only: unat_of_nat) simp
    then show ?thesis using assms(7) that unfolding chan_of_def by metis
  qed
  then have "b4_layout env st st3" using lay unfolding b4_layout_def assms(5) by metis
  then show ?thesis by (rule b4_layout_separate [OF _ assms(3,8-12)])
qed

definition b4_sample_env :: b4_env where
  "b4_sample_env = \<lparr>b4_map_ok = True, b4_rat_rc = 0, b4_rat_regions = 1, b4_params_rc = 0,
     b4_params = 0x00100040\<rparr>"

definition init_sample_env :: init_env where
  "init_sample_env = \<lparr>open_het_mgr = 3, rat_mode_rc = 0, rat_regions = 1, open_het_ipc = 4\<rparr>"

definition layout_sample :: ipc_state where
  "layout_sample = sample_state\<lparr>ctrl := \<lparr>pa_initialized = 0, sc_initialized = 0, ctrl_ipc = 0x40\<rparr>\<rparr>"

lemma b4_sample_params:
  "b4_num_channels b4_sample_env = 64" "b4_channel_depth b4_sample_env = 16"
  by (simp_all add: b4_num_channels_def b4_channel_depth_def b4_sample_env_def Let_def)

lemma b4_sample_run:
  "\<exists>st1 st2. fsl_B4_ipc_init b4_sample_env layout_sample = (0, st1) \<and>
    fsl_ipc_init init_sample_env (Some id) (sh_ctrl_area (us layout_sample)) (sh_ctrl_area (us layout_sample))
      (sh_ctrl_area (us layout_sample)) st1 = (True, st2) \<and>
    us_channels (us st2) = [] \<and> max_depth (us st2) = 4"
proof -
  obtain st1 where st1: "fsl_B4_ipc_init b4_sample_env layout_sample = (0, st1)"
    by (simp add: fsl_B4_ipc_init_def b4_sample_env_def Let_def)
  have r: "b4_rat_regions b4_sample_env \<noteq> 2" "1 < unat (b4_num_channels b4_sample_env)"
    by (simp add: b4_sample_env_def) (simp add: b4_sample_params)
  have "het_ipcs st1 = het_ipcs layout_sample" "ctrl st1 = ctrl layout_sample"
    using b4_init_bd_base(3,4) [OF st1 r] by blast+
  then show ?thesis
    by (simp add: st1 fsl_ipc_init_def fsl_ipc_init_rat_def init_het_ipc_def get_channels_info_def get_ipc_inst_def
        blank_us_def IPC_CH_VADDR_def init_sample_env_def Let_def)
       (simp add: layout_sample_def sample_state_def blank_us_def Let_def)
qed

theorem b4_init_separates_channels_witness:
  "\<exists>st. channel_sep 1 2 st"
proof -
  let ?sh = "sh_ctrl_area (us layout_sample)"
  obtain st1 st2 where st: "fsl_B4_ipc_init b4_sample_env layout_sample = (0, st1)"
      "fsl_ipc_init init_sample_env (Some id) ?sh ?sh ?sh st1 = (True, st2)"
    using b4_sample_run by blast
  have r: "b4_rat_regions b4_sample_env \<noteq> 2" by (simp add: b4_sample_env_def)
  let ?st3 = "st2\<lparr>chans := (\<lambda>v. (chans st2 v)\<lparr>bd_ring_size := 16\<rparr>)\<rparr>"
  have "channel_sep 1 2 ?st3"
    by (rule b4_init_separates_channels [OF st(1) r _ st(2)]) (simp_all add: b4_sample_params chan_of_def)
  then show ?thesis by blast
qed

section \<open>The depth of a channel is not checked\<close>

lemma configure_ptr_channel:
  assumes "unat c < length (chvpaddr_arr st)" "0 \<le> lk c" "consumer_initialized (chan_of c st) \<noteq> OS_HET_INITIALIZED"
    "bd_ring_size (chan_of c st) \<le> max_depth (us st)" "length (us_channels (us st)) < 64"
  shows "\<exists>st'. fsl_ipc_configure_channel lk True c depth IPC_PTR_CH pa sz st = Inr (lk c, st') \<and>
    chvpaddr_arr st' = chvpaddr_arr st \<and> sh_ctrl_area (us st') = sh_ctrl_area (us st) \<and>
    chans st' = (chans st)(snd (chvpaddr_arr st ! unat c) := (chan_of c st)\<lparr>bd_ring_size := depth,
      ch_type := IPC_PTR_CH, ipc_ind := OS_HET_NO_INT, consumer_initialized := OS_HET_INITIALIZED\<rparr>)"
  using assms
  by (simp add: fsl_ipc_configure_channel_def get_channel_vaddr_def configure_ring_def chan_of_def
      attach_us_channel_def Let_def not_less set_chan_def)

text \<open>Configuring a channel accepts any depth: the check compares the channel's previous
  ring size with the limit. A depth above the configured channel depth is accepted and
  makes the channel's ring run into the ring of the next channel.\<close>

lemma configure_depth_unchecked:
  assumes "b4_layout env st0 st" "unat (b4_num_channels env) \<le> 64"
    "unat c + 1 < unat (b4_num_channels env)" "unat (b4_num_channels env) \<le> length (chvpaddr_arr st)"
    "0 \<le> lk c" "consumer_initialized (chan_of c st) \<noteq> OS_HET_INITIALIZED"
    "bd_ring_size (chan_of c st) \<le> max_depth (us st)" "length (us_channels (us st)) < 64"
    "unat (b4_channel_depth env) < unat depth" "0 < bd_ring_size (chan_of (c + 1) st)"
  shows "\<exists>st'. fsl_ipc_configure_channel lk True c depth IPC_PTR_CH pa sz st = Inr (lk c, st') \<and>
    bd_ring_size (chan_of c st') = depth \<and> \<not> channel_sep c (c + 1) st'"
proof -
  have c1: "unat (c + 1) = unat c + 1" using assms(2,3) by (intro unat_Suc_word) simp
  obtain st' where st': "fsl_ipc_configure_channel lk True c depth IPC_PTR_CH pa sz st = Inr (lk c, st')"
      "chvpaddr_arr st' = chvpaddr_arr st" "sh_ctrl_area (us st') = sh_ctrl_area (us st)"
      "chans st' = (chans st)(snd (chvpaddr_arr st ! unat c) := (chan_of c st)\<lparr>bd_ring_size := depth,
        ch_type := IPC_PTR_CH, ipc_ind := OS_HET_NO_INT, consumer_initialized := OS_HET_INITIALIZED\<rparr>)"
    using configure_ptr_channel [of c st lk depth pa sz] assms(3-8) by auto
  have far: "snd (chvpaddr_arr st ! unat (c + 1)) \<noteq> snd (chvpaddr_arr st ! unat c)"
    using assms(1-3) of_nat_times88_inj [of "unat c + 1" "unat c"] by (auto simp: b4_layout_def c1)
  have ch: "bd_ring_size (chan_of c st') = depth" "chan_of (c + 1) st' = chan_of (c + 1) st"
    using far by (simp_all add: chan_of_def st'(2,4))
  have lay: "b4_layout env st0 st'"
    using assms(1) unfolding b4_layout_def by (auto simp: st'(2,4) chan_of_def)
  have "bd_at st' (chan_of c st') (of_nat (unat (b4_channel_depth env))) = bd_at st' (chan_of (c + 1) st') (of_nat 0)"
    using b4_ring_bd_at [OF lay, of c] b4_ring_bd_at [OF lay, of "c + 1"] assms(3) c1
    by (simp add: algebra_simps)
  then have "\<not> channel_sep c (c + 1) st'"
    using assms(9,10) ch unfolding channel_sep_def by (metis unat_gt_0 word_neq_0_conv)
  then show ?thesis using st'(1) ch(1) by blast
qed

theorem configure_depth_unchecked_witness:
  "\<exists>st st'. fsl_ipc_configure_channel (\<lambda>_. 0) True 1 17 IPC_PTR_CH 0 0 st = Inr (0, st') \<and>
    bd_ring_size (chan_of 1 st') = 17 \<and> \<not> channel_sep 1 2 st'"
proof -
  let ?sh = "sh_ctrl_area (us layout_sample)"
  obtain st1 st2 where st: "fsl_B4_ipc_init b4_sample_env layout_sample = (0, st1)"
      "fsl_ipc_init init_sample_env (Some id) ?sh ?sh ?sh st1 = (True, st2)"
      "us_channels (us st2) = []" "max_depth (us st2) = 4"
    using b4_sample_run by blast
  have r: "b4_rat_regions b4_sample_env \<noteq> 2" "unat (b4_num_channels b4_sample_env) \<le> 64"
    by (simp add: b4_sample_env_def) (simp add: b4_sample_params)
  let ?st3 = "st2\<lparr>chans := (\<lambda>v. (chans st2 v)\<lparr>bd_ring_size := 1, consumer_initialized := 0\<rparr>)\<rparr>"
  have "b4_layout b4_sample_env layout_sample st2" by (rule b4_layout_established [OF st(1) r st(2)])
  then have lay: "b4_layout b4_sample_env layout_sample ?st3" unfolding b4_layout_def by auto
  show ?thesis
    using configure_depth_unchecked [OF lay r(2), of 1 "\<lambda>_. 0" 17 0 0] st(3,4) fsl_ipc_init_table(7) [OF st(2)]
    by (auto simp: b4_sample_params chan_of_def)
qed

end
