(* ===== verification/IPC_Lock.thy ===== *)
theory IPC_Lock
  imports Prelude
begin

text \<open>
  The locks of \<open>ipc/lib/fsl_ipc_lock.c\<close>: one System V semaphore per lock, taken by the pair of
  operations \<open>wait for zero; add one\<close> and released by \<open>subtract one, do not wait\<close>, both with
  \<open>SEM_UNDO\<close>. \<open>semop\<close> is the kernel's documented behaviour: the operations of a call take effect
  together or not at all, and the adjustment kept for a process is added back when it exits.
  The lock of a channel is used when the library is built with \<open>CONFIG_LOCK\<close>; without it
  \<open>fsl_ipc_lock\<close> and \<open>fsl_ipc_unlock\<close> return 0.
\<close>

section \<open>Semaphores\<close>

record ipc_sem =
  sem_exists :: bool
  semval :: nat
  semadj :: "nat \<Rightarrow> int"

record sembuf =
  sem_op :: int
  sem_nowait :: bool

datatype sem_outcome = Sem_done int ipc_sem | Sem_block

datatype sem_scan = Scan_ok nat int | Scan_again | Scan_wait

fun sem_scan_ops :: "sembuf list \<Rightarrow> nat \<Rightarrow> int \<Rightarrow> sem_scan" where
  "sem_scan_ops [] v adj = Scan_ok v adj"
| "sem_scan_ops (o1 # os) v adj =
     (if (if sem_op o1 = 0 then v \<noteq> 0 else int v + sem_op o1 < 0)
      then (if sem_nowait o1 then Scan_again else Scan_wait)
      else sem_scan_ops os (nat (int v + sem_op o1)) (adj - sem_op o1))"

definition semop :: "nat \<Rightarrow> sembuf list \<Rightarrow> ipc_sem \<Rightarrow> sem_outcome" where
  "semop pid os s =
     (if \<not> sem_exists s then Sem_done (- 1) s
      else case sem_scan_ops os (semval s) (semadj s pid) of
        Scan_ok v adj \<Rightarrow> Sem_done 0 (s\<lparr>semval := v, semadj := (semadj s)(pid := adj)\<rparr>)
      | Scan_again \<Rightarrow> Sem_done (- 1) s
      | Scan_wait \<Rightarrow> Sem_block)"

definition fsl_ipc_sem_lock :: "nat \<Rightarrow> ipc_sem \<Rightarrow> sem_outcome" where
  "fsl_ipc_sem_lock pid s =
     (case semop pid [\<lparr>sem_op = 0, sem_nowait = False\<rparr>, \<lparr>sem_op = 1, sem_nowait = True\<rparr>] s of
        Sem_done rc s' \<Rightarrow> Sem_done (if rc < 0 then - 1 else rc) s'
      | Sem_block \<Rightarrow> Sem_block)"

definition fsl_ipc_sem_unlock :: "nat \<Rightarrow> ipc_sem \<Rightarrow> sem_outcome" where
  "fsl_ipc_sem_unlock pid s =
     (case semop pid [\<lparr>sem_op = - 1, sem_nowait = True\<rparr>] s of
        Sem_done rc s' \<Rightarrow> Sem_done (if rc < 0 then - 1 else rc) s'
      | Sem_block \<Rightarrow> Sem_block)"

definition fsl_ipc_sem_destroy :: "ipc_sem \<Rightarrow> int \<times> ipc_sem" where
  "fsl_ipc_sem_destroy s = (if sem_exists s then (0, s\<lparr>sem_exists := False\<rparr>) else (- 1, s))"

text \<open>\<open>semget\<close> with \<open>IPC_CREAT\<close>: the semaphore of the key, created with value zero if there is none.\<close>

definition fsl_ipc_sem_init :: "bool \<Rightarrow> ipc_sem \<Rightarrow> int \<times> ipc_sem" where
  "fsl_ipc_sem_init ok s =
     (if \<not> ok then (- 1, s)
      else (0, if sem_exists s then s else \<lparr>sem_exists = True, semval = 0, semadj = (\<lambda>_. 0)\<rparr>))"

definition sem_exit :: "nat \<Rightarrow> ipc_sem \<Rightarrow> ipc_sem" where
  "sem_exit pid s = s\<lparr>semval := nat (int (semval s) + semadj s pid), semadj := (semadj s)(pid := 0)\<rparr>"

definition fsl_ipc_lock :: "bool \<Rightarrow> nat \<Rightarrow> ipc_sem \<Rightarrow> sem_outcome" where
  "fsl_ipc_lock config_lock pid s = (if config_lock then fsl_ipc_sem_lock pid s else Sem_done 0 s)"

definition fsl_ipc_unlock :: "bool \<Rightarrow> nat \<Rightarrow> ipc_sem \<Rightarrow> sem_outcome" where
  "fsl_ipc_unlock config_lock pid s = (if config_lock then fsl_ipc_sem_unlock pid s else Sem_done 0 s)"

definition fsl_ipc_init_lock :: "bool \<Rightarrow> bool \<Rightarrow> ipc_sem \<Rightarrow> int \<times> ipc_sem" where
  "fsl_ipc_init_lock config_lock ok s = (if config_lock then fsl_ipc_sem_init ok s else (0, s))"

definition fsl_ipc_destroy_lock :: "bool \<Rightarrow> ipc_sem \<Rightarrow> int \<times> ipc_sem" where
  "fsl_ipc_destroy_lock config_lock s = (if config_lock then fsl_ipc_sem_destroy s else (0, s))"

lemma lock_cases:
  "fsl_ipc_sem_lock pid s =
     (if \<not> sem_exists s then Sem_done (- 1) s
      else if semval s = 0 then Sem_done 0 (s\<lparr>semval := 1, semadj := (semadj s)(pid := semadj s pid - 1)\<rparr>)
      else Sem_block)"
  by (simp add: fsl_ipc_sem_lock_def semop_def)

lemma unlock_cases:
  "fsl_ipc_sem_unlock pid s =
     (if \<not> sem_exists s \<or> semval s = 0 then Sem_done (- 1) s
      else Sem_done 0 (s\<lparr>semval := semval s - 1, semadj := (semadj s)(pid := semadj s pid + 1)\<rparr>))"
  by (auto simp: fsl_ipc_sem_unlock_def semop_def nat_diff_distrib)

section \<open>Processes sharing a lock\<close>

datatype lock_phase = Outside | Waiting | Inside | Gone

record lock_sys =
  lk_sem :: ipc_sem
  lk_phase :: "nat \<Rightarrow> lock_phase"

inductive lock_step :: "lock_sys \<Rightarrow> lock_sys \<Rightarrow> bool" where
  enter: "lk_phase y p \<in> {Outside, Waiting} \<Longrightarrow> fsl_ipc_sem_lock p (lk_sem y) = Sem_done 0 s \<Longrightarrow>
    lock_step y \<lparr>lk_sem = s, lk_phase = (lk_phase y)(p := Inside)\<rparr>"
| refused: "lk_phase y p \<in> {Outside, Waiting} \<Longrightarrow> fsl_ipc_sem_lock p (lk_sem y) = Sem_done (- 1) s \<Longrightarrow>
    lock_step y \<lparr>lk_sem = s, lk_phase = (lk_phase y)(p := Outside)\<rparr>"
| blocks: "lk_phase y p \<in> {Outside, Waiting} \<Longrightarrow> fsl_ipc_sem_lock p (lk_sem y) = Sem_block \<Longrightarrow>
    lock_step y (y\<lparr>lk_phase := (lk_phase y)(p := Waiting)\<rparr>)"
| leave: "lk_phase y p = Inside \<Longrightarrow> fsl_ipc_sem_unlock p (lk_sem y) = Sem_done rc s \<Longrightarrow>
    lock_step y \<lparr>lk_sem = s, lk_phase = (lk_phase y)(p := Outside)\<rparr>"
| dies: "lk_phase y p \<noteq> Gone \<Longrightarrow>
    lock_step y \<lparr>lk_sem = sem_exit p (lk_sem y), lk_phase = (lk_phase y)(p := Gone)\<rparr>"

definition lock_start :: lock_sys where
  "lock_start = \<lparr>lk_sem = snd (fsl_ipc_sem_init True \<lparr>sem_exists = False, semval = 0, semadj = (\<lambda>_. 0)\<rparr>),
     lk_phase = (\<lambda>_. Outside)\<rparr>"

text \<open>The value of the semaphore counts the holders, and each holder has the undo entry that gives it back.\<close>

definition lock_ok :: "lock_sys \<Rightarrow> bool" where
  "lock_ok y \<longleftrightarrow> sem_exists (lk_sem y) \<and>
     (\<forall>p. semadj (lk_sem y) p = (if lk_phase y p = Inside then - 1 else 0)) \<and>
     (if semval (lk_sem y) = 0 then \<forall>p. lk_phase y p \<noteq> Inside
      else semval (lk_sem y) = 1 \<and> (\<exists>p. \<forall>q. (lk_phase y q = Inside) = (q = p)))"

lemma lock_ok_step:
  assumes step: "lock_step y y'" and ok: "lock_ok y"
  shows "lock_ok y'"
  using step
proof cases
  case (dies p)
  show ?thesis
  proof (cases "lk_phase y p = Inside")
    case True
    then have "semval (lk_sem y) = 1" "\<And>q. (lk_phase y q = Inside) = (q = p)"
      using ok by (auto simp: lock_ok_def split: if_splits)
    then show ?thesis using ok dies True by (auto simp: lock_ok_def sem_exit_def)
  next
    case False
    then show ?thesis using ok dies by (auto simp: lock_ok_def sem_exit_def split: if_splits)
  qed
next
  case (leave p rc s)
  have "semval (lk_sem y) = 1" "\<And>q. (lk_phase y q = Inside) = (q = p)" "sem_exists (lk_sem y)"
    using ok leave(2) by (auto simp: lock_ok_def split: if_splits)
  then show ?thesis using ok leave by (auto simp: lock_ok_def unlock_cases)
next
  case (blocks p)
  then have "(((lk_phase y)(p := Waiting)) q = Inside) = (lk_phase y q = Inside)" for q by auto
  then show ?thesis using ok unfolding lock_ok_def blocks(1) by (simp split: if_splits)
qed (use ok in \<open>auto simp: lock_ok_def lock_cases split: if_splits\<close>)

lemma lock_reach_ok: "lock_step\<^sup>*\<^sup>* lock_start y \<Longrightarrow> lock_ok y"
proof (induction rule: rtranclp_induct)
  case base
  then show ?case by (simp add: lock_ok_def lock_start_def fsl_ipc_sem_init_def)
qed (rule lock_ok_step)

text \<open>C28: However the processes sharing a lock interleave their requests, releases and deaths, at most
  one of them is inside; a request blocks exactly while another process is inside, succeeds
  otherwise, and a holder's release succeeds. A process that dies inside does not keep the lock.\<close>

theorem lock_mutual_exclusion:
  assumes "lock_step\<^sup>*\<^sup>* lock_start y"
  shows "(lk_phase y p = Inside \<and> lk_phase y q = Inside \<longrightarrow> p = q) \<and>
    (fsl_ipc_sem_lock r (lk_sem y) = Sem_block \<longleftrightarrow> (\<exists>p. lk_phase y p = Inside)) \<and>
    ((\<forall>p. lk_phase y p \<noteq> Inside) \<longrightarrow> (\<exists>s. fsl_ipc_sem_lock r (lk_sem y) = Sem_done 0 s)) \<and>
    (lk_phase y p = Inside \<longrightarrow> (\<exists>s. fsl_ipc_sem_unlock p (lk_sem y) = Sem_done 0 s \<and> semval s = 0))"
  using lock_reach_ok [OF assms] by (auto simp: lock_ok_def lock_cases unlock_cases split: if_splits)

theorem lock_mutual_exclusion_witness:
  "fsl_ipc_sem_lock 2 (lk_sem \<lparr>lk_sem = \<lparr>sem_exists = True, semval = 1, semadj = (\<lambda>_. 0)(1 := - 1)\<rparr>,
     lk_phase = (\<lambda>_. Outside)(1 := Inside)\<rparr>) = Sem_block"
proof -
  let ?y = "\<lparr>lk_sem = \<lparr>sem_exists = True, semval = 1, semadj = (\<lambda>_. 0)(1 := - 1)\<rparr>, lk_phase = (\<lambda>_. Outside)(1 := Inside)\<rparr>"
  have "lock_step lock_start ?y"
    using lock_step.enter [of lock_start 1] by (simp add: lock_start_def fsl_ipc_sem_init_def lock_cases)
  then have "lock_step\<^sup>*\<^sup>* lock_start ?y" by (rule r_into_rtranclp)
  from lock_mutual_exclusion [OF this, of 1 1 2] show ?thesis by auto
qed

end
