(* ===== verification/IR_Messages.thy ===== *)
theory IR_Messages
  imports Prelude
begin

text \<open>
  The Ir control protocol messages the baseband unit sends to a remote radio unit
  (\<open>src/b4860/fapi_b4860_ir.h\<close>): packed big-endian structures, a 15-byte header followed
  by information elements, each with its number and length. The builders write the
  \<open>sizeof\<close> of each structure into its length field; the decoder is the reader's view, an
  element chain walked by those lengths.
\<close>

section \<open>Information elements\<close>

datatype ir_ie =
    IE_11 (ie11_second: u8) (ie11_minute: u8) (ie11_hour: u8) (ie11_day: u8) (ie11_month: u8) (ie11_year: u16)
  | IE_12 (ie12_addr: u32)
  | IE_13 (ie13_status: u32)
  | IE_14 (ie14_software_type: u8) (ie14_result: u32)
  | IE_501 (ie501_carrier: u8) (ie501_antenna: u8) (ie501_axc: u8) (ie501_fiber: u8)
  | IE_504 (ie504_mode: u32)
  | IE_507 (ie507_mode: u8) (ie507_group: u8) (ie507_uplink: u16) (ie507_downlink: u16)
  | IE_901 (ie901_port: u8)
  | IE_921 (ie921_port: u8) (ie921_t12: u32) (ie921_t32: u32) (ie921_dl_offset: u32)
           (ie921_dl_cal: u32) (ie921_ul_cal: u32)
  | IE_1301 (ie1301_reset_type: u32)
  | IE_1501 (ie1501_reason: u8) (ie1501_cell_id: u32) (ie1501_power: u16) (ie1501_ant_group: u8)
            (ie1501_n_freqs: u8)
  | IE_1502 (ie1502_reason: u8) (ie1502_cell_id: u32) (ie1502_carrier: u8) (ie1502_center: u32)
            (ie1502_type: u32) (ie1502_tdd_config: u8) (ie1502_subframe: u32) (ie1502_bandwidth: u32)
            (ie1502_sff: u8) (ie1502_cp: u8)
  | IE_1503 (ie1503_reason: u8) (ie1503_cell_id: u32) (ie1503_carrier: u8) (ie1503_dl_freq: u32)
            (ie1503_ul_freq: u32) (ie1503_type: u32) (ie1503_dl_bw: u32) (ie1503_ul_bw: u32) (ie1503_cp: u8)

fun ie_no :: "ir_ie \<Rightarrow> u16" where
  "ie_no (IE_11 _ _ _ _ _ _) = 11"
| "ie_no (IE_12 _) = 12"
| "ie_no (IE_13 _) = 13"
| "ie_no (IE_14 _ _) = 14"
| "ie_no (IE_501 _ _ _ _) = 501"
| "ie_no (IE_504 _) = 504"
| "ie_no (IE_507 _ _ _ _) = 507"
| "ie_no (IE_901 _) = 901"
| "ie_no (IE_921 _ _ _ _ _ _) = 921"
| "ie_no (IE_1301 _) = 1301"
| "ie_no (IE_1501 _ _ _ _ _) = 1501"
| "ie_no (IE_1502 _ _ _ _ _ _ _ _ _ _) = 1502"
| "ie_no (IE_1503 _ _ _ _ _ _ _ _ _) = 1503"

text \<open>\<open>sizeof\<close> of the packed structures.\<close>

fun ie_sizeof :: "ir_ie \<Rightarrow> nat" where
  "ie_sizeof (IE_11 _ _ _ _ _ _) = 11"
| "ie_sizeof (IE_12 _) = 8"
| "ie_sizeof (IE_13 _) = 8"
| "ie_sizeof (IE_14 _ _) = 289"
| "ie_sizeof (IE_501 _ _ _ _) = 8"
| "ie_sizeof (IE_504 _) = 8"
| "ie_sizeof (IE_507 _ _ _ _) = 10"
| "ie_sizeof (IE_901 _) = 5"
| "ie_sizeof (IE_921 _ _ _ _ _ _) = 25"
| "ie_sizeof (IE_1301 _) = 8"
| "ie_sizeof (IE_1501 _ _ _ _ _) = 13"
| "ie_sizeof (IE_1502 _ _ _ _ _ _ _ _ _ _) = 29"
| "ie_sizeof (IE_1503 _ _ _ _ _ _ _ _ _) = 31"

text \<open>The fields behind number and length, in declaration order; bytes never assigned are zero.\<close>

fun ie_fields :: "ir_ie \<Rightarrow> u8 list" where
  "ie_fields (IE_11 s mi h d mo y) = [s, mi, h, d, mo] @ be16 y"
| "ie_fields (IE_12 a) =
     [ucast (drop_bit 24 (a AND 0xff000000)), ucast (drop_bit 16 (a AND 0x00ff0000)),
      ucast (drop_bit 8 (a AND 0x0000ff00)), ucast (a AND 0x000000ff)]"
| "ie_fields (IE_13 st) = be32 st"
| "ie_fields (IE_14 t r) = [t] @ be32 r @ replicate 280 0"
| "ie_fields (IE_501 c a x f) = [c, a, x, f]"
| "ie_fields (IE_504 m) = be32 m"
| "ie_fields (IE_507 m g u d) = [m, g] @ be16 u @ be16 d"
| "ie_fields (IE_901 p) = [p]"
| "ie_fields (IE_921 p t12 t32 off dl ul) = [p] @ be32 t12 @ be32 t32 @ be32 off @ be32 dl @ be32 ul"
| "ie_fields (IE_1301 t) = be32 t"
| "ie_fields (IE_1501 r c p g n) = [r] @ be32 c @ be16 p @ [g, n]"
| "ie_fields (IE_1502 r c k ce t td sf b s cp) =
     [r] @ be32 c @ [k] @ be32 ce @ be32 t @ [td] @ be32 sf @ be32 b @ [s, cp]"
| "ie_fields (IE_1503 r c k dl ul t db ub cp) =
     [r] @ be32 c @ [k] @ be32 dl @ be32 ul @ be32 t @ be32 db @ be32 ub @ [cp]"

definition ie_bytes :: "ir_ie \<Rightarrow> u8 list" where
  "ie_bytes ie = be16 (ie_no ie) @ be16 (of_nat (ie_sizeof ie)) @ ie_fields ie"

record ir_header =
  h_msg_no :: u32
  h_msg_len :: u32
  h_rru_id :: u8
  h_bbu_id :: u8
  h_port :: u8
  h_flow :: u32

definition header_bytes :: "ir_header \<Rightarrow> u8 list" where
  "header_bytes h = be32 (h_msg_no h) @ be32 (h_msg_len h) @ [h_rru_id h, h_bbu_id h, h_port h] @ be32 (h_flow h)"

section \<open>Reading\<close>

text \<open>Fields read at a position of a byte buffer.\<close>

definition rd16 :: "u8 list \<Rightarrow> nat \<Rightarrow> u16" where
  "rd16 b i = of_be16 (b ! i) (b ! (i + 1))"

definition rd32 :: "u8 list \<Rightarrow> nat \<Rightarrow> u32" where
  "rd32 b i = of_be32 (b ! i) (b ! (i + 1)) (b ! (i + 2)) (b ! (i + 3))"

definition read_header :: "u8 list \<Rightarrow> ir_header" where
  "read_header b = \<lparr>h_msg_no = rd32 b 0, h_msg_len = rd32 b 4, h_rru_id = b ! 8, h_bbu_id = b ! 9,
     h_port = b ! 10, h_flow = rd32 b 11\<rparr>"

text \<open>The element chain; \<open>None\<close> when a length is too small or runs past the end.\<close>

function split_ies :: "u8 list \<Rightarrow> (u16 \<times> u8 list) list option" where
  "split_ies b =
     (if b = [] then Some []
      else if length b < 4 then None
      else
        (let n = unat (rd16 b 2)
         in if n < 4 \<or> length b < n then None
            else map_option ((#) (rd16 b 0, take (n - 4) (drop 4 b))) (split_ies (drop n b))))"
  by auto
termination
  by (relation "measure length") auto

declare split_ies.simps [simp del]

definition ir_decode :: "u8 list \<Rightarrow> (ir_header \<times> (u16 \<times> u8 list) list) option" where
  "ir_decode b =
     (if length b < 15 \<or> unat (h_msg_len (read_header b)) \<noteq> length b then None
      else map_option (\<lambda>ies. (read_header b, ies)) (split_ies (drop 15 b)))"

section \<open>Round trip\<close>

lemma length_ie_fields: "length (ie_fields ie) + 4 = ie_sizeof ie"
  by (cases ie) simp_all

lemma ie_sizeof_bounds: "5 \<le> ie_sizeof ie" "ie_sizeof ie \<le> 289"
  by (cases ie; simp)+

lemma length_ie_bytes [simp]: "length (ie_bytes ie) = ie_sizeof ie"
  using length_ie_fields [of ie] by (simp add: ie_bytes_def)

lemma length_header_bytes [simp]: "length (header_bytes h) = 15"
  by (simp add: header_bytes_def)

lemma rd16_be16 [simp]: "rd16 (be16 w @ r) 0 = w"
  by (simp add: rd16_def be16_def)

lemma rd16_be16_second [simp]: "rd16 (be16 v @ be16 w @ r) 2 = w"
  by (simp add: rd16_def be16_def)

lemma unat_ie_sizeof [simp]: "unat (of_nat (ie_sizeof ie) :: u16) = ie_sizeof ie"
  using ie_sizeof_bounds(2) [of ie] by (simp only: unat_of_nat) simp

lemma split_ies_bytes:
  "split_ies (concat (map ie_bytes ies)) = Some (map (\<lambda>ie. (ie_no ie, ie_fields ie)) ies)"
proof (induction ies)
  case (Cons ie ies)
  let ?r = "concat (map ie_bytes ies)"
  have b: "ie_bytes ie @ ?r = be16 (ie_no ie) @ be16 (of_nat (ie_sizeof ie)) @ ie_fields ie @ ?r"
    by (simp add: ie_bytes_def)
  have rd: "rd16 (ie_bytes ie @ ?r) 0 = ie_no ie" "unat (rd16 (ie_bytes ie @ ?r) 2) = ie_sizeof ie"
    unfolding b by simp_all
  have parts: "take (ie_sizeof ie - 4) (drop 4 (ie_bytes ie @ ?r)) = ie_fields ie"
    "drop (ie_sizeof ie) (ie_bytes ie @ ?r) = ?r"
    unfolding b using length_ie_fields [of ie] by (simp_all flip: length_ie_fields [of ie])
  have "ie_bytes ie \<noteq> []"
    using ie_sizeof_bounds(1) [of ie] length_ie_bytes [of ie] by (metis list.size(3) not_numeral_le_zero)
  then have ne: "ie_bytes ie @ ?r \<noteq> []" "\<not> length (ie_bytes ie @ ?r) < 4" "\<not> ie_sizeof ie < 4"
    "\<not> length (ie_bytes ie @ ?r) < ie_sizeof ie"
    using ie_sizeof_bounds(1) [of ie] length_ie_bytes [of ie] by auto
  show ?case
    using ne Cons.IH
    by (simp only: list.map concat.simps split_ies.simps [of "ie_bytes ie @ ?r"] Let_def rd parts) simp
qed (simp add: split_ies.simps)

lemma read_header_bytes: "read_header (header_bytes h @ r) = h"
  by (cases h) (simp add: read_header_def header_bytes_def rd32_def be32_def nth_append)

end
