(* ===== verification/RRU_Manager.thy ===== *)
theory RRU_Manager
  imports IR_Messages
begin

text \<open>
  Model of the RRU manager of \<open>src/b4860/fapi_b4860_cpri_eth.c\<close>: the table of remote radio
  units, the control protocol handlers and the body of the manager thread. A handler
  takes the unit's record and the receive buffer (4096 bytes, of which the last \<open>read\<close>
  filled \<open>len\<close>) and returns the new record and the messages sent on the unit's socket, or
  a fault where the code reads outside the buffer or through a null pointer.

  The Time Division Duplex build is modelled (the default); its cell messages are the
  \<open>_tdd\<close> functions, the \<open>_fdd\<close> ones are modelled beside them.
\<close>

section \<open>State\<close>

datatype rru_state =
    RRU_STATE_NONE | RRU_STATE_INIT | RRU_STATE_CONNECTED | RRU_STATE_CONN_EST_RECV
  | RRU_STATE_CONN_SETUP_SENT | RRU_STATE_CONN_SETUP_ACK | RRU_STATE_NEED_PARAMS_CONFIG
  | RRU_STATE_WAIT_PARAMS_CONFIG_RESP | RRU_STATE_WAIT_CELL_CONFIG_RESP
  | RRU_STATE_WAIT_CELL_CLEAR_RESP | RRU_STATE_WAIT | RRU_STATE_READY

text \<open>
  A configured unit: the address \<open>inet_aton\<close> reads from its configured string, if any,
  and the radio parameters.
\<close>

record rru_cfg =
  cfg_ip :: "u32 option"
  freq_dl :: int
  freq_ul :: int
  power_dbm :: int

record rru =
  r_id :: u32
  r_bbu_id :: u32
  r_port :: u32
  r_fd :: int
  r_state :: rru_state
  r_timer :: int
  r_mac :: "u8 list"
  r_ip :: u32
  r_cfg :: "rru_cfg option"
  r_timeout :: int
  serial_out :: u32
  serial_in :: u32
  heartbeat_counter :: u32
  need_reset :: bool
  ie_1 :: "u8 list"

text \<open>The radio part of the FAPI configuration, and the broken-down wall clock time.\<close>

record rf_config =
  dl_channel_bandwidth :: nat
  tx_antenna_ports :: nat

record tm =
  tm_sec :: u8
  tm_min :: u8
  tm_hour :: u8
  tm_mday :: u8
  tm_mon :: u8
  tm_year :: u16

datatype rru_fault = Buffer_overread | Null_cfg | Table_full

type_synonym msgs = "u8 list list"
type_synonym 'a rru_result = "rru_fault + 'a"

abbreviation (input) "BBU_IP \<equiv> (0xc0a81f01 :: u32)"
abbreviation (input) "IR_MSG_RRU_PARAMETERS_CONFIGURATION_REQ \<equiv> (61 :: u32)"
abbreviation (input) "IR_MSG_RRU_PARAMETERS_CONFIGURATION_RESP \<equiv> (62 :: u32)"
abbreviation (input) "IR_MSG_RRU_INIT_CALIBRATION_REPORT \<equiv> (71 :: u32)"
abbreviation (input) "IR_MSG_RRU_DELAY_MEASURE_REQ \<equiv> (101 :: u32)"
abbreviation (input) "IR_MSG_RRU_DELAY_MEASURE_RESP \<equiv> (102 :: u32)"
abbreviation (input) "IR_MSG_RRU_DELAY_CONFIG_REQ \<equiv> (103 :: u32)"
abbreviation (input) "IR_MSG_RRU_DELAY_CONFIG_RESP \<equiv> (104 :: u32)"
abbreviation (input) "IR_MSG_RRU_ALARM_REPORT \<equiv> (111 :: u32)"
abbreviation (input) "IR_MSG_RRU_RESET_REQ \<equiv> (141 :: u32)"
abbreviation (input) "IR_MSG_RRU_CELL_CONFIGURATION_REQ \<equiv> (193 :: u32)"
abbreviation (input) "IR_MSG_RRU_CELL_CONFIGURATION_RESP \<equiv> (194 :: u32)"
abbreviation (input) "IR_MSG_RRU_RESET_EVENT \<equiv> (221 :: u32)"

section \<open>Sending\<close>

text \<open>
  Every message starts the same way: ids of the unit, the next serial number, and the
  length accumulated over the header and the elements.
\<close>

definition ir_send :: "u32 \<Rightarrow> ir_ie list \<Rightarrow> rru \<Rightarrow> rru \<times> u8 list" where
  "ir_send msg_no ies r =
     (r\<lparr>serial_out := serial_out r + 1\<rparr>,
      header_bytes \<lparr>h_msg_no = msg_no, h_msg_len = of_nat (15 + sum_list (map ie_sizeof ies)),
        h_rru_id = ucast (r_id r), h_bbu_id = ucast (r_bbu_id r), h_port = ucast (r_port r),
        h_flow = serial_out r\<rparr> @ concat (map ie_bytes ies))"

text \<open>Send a message and enter a state; the inactivity counter restarts.\<close>

definition ir_send_enter :: "u32 \<Rightarrow> ir_ie list \<Rightarrow> rru_state \<Rightarrow> rru \<Rightarrow> rru \<times> msgs" where
  "ir_send_enter msg_no ies s r =
     (case ir_send msg_no ies r of (r', m) \<Rightarrow> (r'\<lparr>r_state := s, r_timeout := 0\<rparr>, [m]))"

definition send_channel_establishment_config :: "tm \<Rightarrow> rru \<Rightarrow> rru \<times> msgs" where
  "send_channel_establishment_config t =
     ir_send_enter 2
       [IE_11 (tm_sec t) (tm_min t) (tm_hour t) (tm_mday t) (tm_mon t + 1) (tm_year t + 1900),
        IE_12 BBU_IP, IE_13 0, IE_14 0 0, IE_504 1] RRU_STATE_CONN_SETUP_SENT"

definition send_bbu_heartbeat :: "rru \<Rightarrow> rru \<times> msgs" where
  "send_bbu_heartbeat r = (case ir_send 181 [] r of (r', m) \<Rightarrow> (r', [m]))"

definition send_rru_reset_req :: "rru \<Rightarrow> rru \<times> msgs" where
  "send_rru_reset_req r =
     (case ir_send IR_MSG_RRU_RESET_REQ [IE_1301 0] r of (r', m) \<Rightarrow> (r', [m]))"

definition param_ies :: "rf_config \<Rightarrow> ir_ie list" where
  "param_ies rf =
     [IE_501 1 1 0 0] @
     (if dl_channel_bandwidth rf = 25 then [IE_501 1 1 1 0] else []) @
     (if tx_antenna_ports rf = 2
      then [IE_501 1 2 2 0] @ (if dl_channel_bandwidth rf = 25 then [IE_501 1 2 3 0] else [])
      else []) @
     [if tx_antenna_ports rf = 2 then IE_507 1 1 0xfc 0xfc
      else if tx_antenna_ports rf = 1 then IE_507 1 1 0xfe 0xfe
      else IE_507 1 1 0 0]"

definition send_parameter_configuration :: "rf_config \<Rightarrow> rru \<Rightarrow> rru \<times> msgs" where
  "send_parameter_configuration rf =
     ir_send_enter IR_MSG_RRU_PARAMETERS_CONFIGURATION_REQ (param_ies rf) RRU_STATE_WAIT_PARAMS_CONFIG_RESP"

definition send_cell_clear_tdd :: "rru \<Rightarrow> rru \<times> msgs" where
  "send_cell_clear_tdd =
     ir_send_enter IR_MSG_RRU_CELL_CONFIGURATION_REQ
       [IE_1501 1 1 20 1 1, IE_1502 1 1 1 23500 0 0 0 20 0 0] RRU_STATE_WAIT_CELL_CLEAR_RESP"

definition tdd_bandwidth :: "nat \<Rightarrow> u32" where
  "tdd_bandwidth n = (if n = 15 then 3 else if n = 25 then 5 else if n = 50 then 10 else if n = 100 then 20 else 0)"

definition send_cell_configuration_tdd :: "rf_config \<Rightarrow> rru \<Rightarrow> (rru \<times> msgs) rru_result" where
  "send_cell_configuration_tdd rf r =
     (case r_cfg r of
        None \<Rightarrow> Inl Null_cfg
      | Some c \<Rightarrow>
          Inr (ir_send_enter IR_MSG_RRU_CELL_CONFIGURATION_REQ
            [IE_1501 0 1 (word_of_int (power_dbm c * 256)) 1 1,
             IE_1502 2 1 1 (word_of_int (freq_dl c)) 0 0 0 (tdd_bandwidth (dl_channel_bandwidth rf)) 0 0]
            RRU_STATE_WAIT_CELL_CONFIG_RESP r))"

definition send_cell_clear_fdd :: "rru \<Rightarrow> rru \<times> msgs" where
  "send_cell_clear_fdd =
     ir_send_enter IR_MSG_RRU_CELL_CONFIGURATION_REQ
       [IE_1501 2 1 20 1 1, IE_1503 2 1 1 4650 4550 0 5 5 0] RRU_STATE_WAIT_CELL_CLEAR_RESP"

definition fdd_bandwidth :: "nat \<Rightarrow> u32" where
  "fdd_bandwidth n = (if n = 15 then 3 else if n = 25 then 5 else 0)"

text \<open>C division truncates towards zero.\<close>

definition freq_100khz :: "int \<Rightarrow> u32" where
  "freq_100khz f = word_of_int (if f \<ge> 0 then f div 100000 else - (- f div 100000))"

definition send_cell_configuration_fdd :: "rf_config \<Rightarrow> rru \<Rightarrow> (rru \<times> msgs) rru_result" where
  "send_cell_configuration_fdd rf r =
     (case r_cfg r of
        None \<Rightarrow> Inl Null_cfg
      | Some c \<Rightarrow>
          Inr (ir_send_enter IR_MSG_RRU_CELL_CONFIGURATION_REQ
            [IE_1501 0 1 (word_of_int (power_dbm c * 256)) 1 1,
             IE_1503 0 1 1 (freq_100khz (freq_dl c)) (freq_100khz (freq_ul c)) 0
               (fdd_bandwidth (dl_channel_bandwidth rf)) (fdd_bandwidth (dl_channel_bandwidth rf)) 0]
            RRU_STATE_WAIT_CELL_CONFIG_RESP r))"

definition send_delay_measure :: "rru \<Rightarrow> rru \<times> msgs" where
  "send_delay_measure = ir_send_enter IR_MSG_RRU_DELAY_MEASURE_REQ [IE_901 0] RRU_STATE_WAIT_CELL_CONFIG_RESP"

definition send_delay_configuration :: "rru \<Rightarrow> rru \<times> msgs" where
  "send_delay_configuration =
     ir_send_enter IR_MSG_RRU_DELAY_CONFIG_REQ
       [IE_921 0 (943 + 2573) (943 + 2426) 256 24240 40227] RRU_STATE_WAIT_CELL_CONFIG_RESP"

section \<open>Receiving\<close>

abbreviation (input) "RECV_BUF \<equiv> (4096 :: nat)"

text \<open>
  The element loop of the channel establishment request. It advances by the length field
  of each element and has no check on it: \<open>None\<close> is a loop that never ends.
\<close>

partial_function (option) parse_ies :: "u8 list \<Rightarrow> int \<Rightarrow> nat \<Rightarrow> rru \<Rightarrow> rru rru_result option" where
  "parse_ies buf len off r =
     (if int off < len then
        (if off + 4 > RECV_BUF then Some (Inl Buffer_overread)
         else if rd16 buf off = 1 \<and> rd16 buf (off + 2) = 100 then
           (if off + 100 > RECV_BUF then Some (Inl Buffer_overread)
            else parse_ies buf len (off + 100) (r\<lparr>ie_1 := take 100 (drop off buf)\<rparr>))
         else parse_ies buf len (off + unat (rd16 buf (off + 2))) r)
      else Some (Inr r))"

definition process_channel_establishment_req ::
  "tm \<Rightarrow> rru \<Rightarrow> u8 list \<Rightarrow> int \<Rightarrow> (rru \<times> msgs) rru_result option" where
  "process_channel_establishment_req t r buf len =
     (let h = read_header buf;
          r1 = r\<lparr>r_id := ucast (h_rru_id h), r_bbu_id := ucast (h_bbu_id h), r_port := ucast (h_port h)\<rparr>
      in case parse_ies buf len 15 r1 of
           None \<Rightarrow> None
         | Some (Inl e) \<Rightarrow> Some (Inl e)
         | Some (Inr r2) \<Rightarrow> Some (Inr (send_channel_establishment_config t r2)))"

definition process_channel_establishment_resp :: "rru \<Rightarrow> u8 list \<Rightarrow> rru \<times> msgs" where
  "process_channel_establishment_resp r buf =
     (if rd16 buf 15 \<noteq> 21 then (r, [])
      else
        (let r1 = r\<lparr>r_state := RRU_STATE_CONN_SETUP_ACK, r_timeout := 0\<rparr>
         in if need_reset r1
            then (case send_rru_reset_req r1 of (r2, ms) \<Rightarrow> (r2\<lparr>need_reset := False\<rparr>, ms))
            else send_delay_measure r1))"

definition process_rru_init_calibration_report :: "rru \<Rightarrow> rru \<times> msgs" where
  "process_rru_init_calibration_report r = send_cell_clear_tdd r"

definition process_delay_measure_resp :: "rru \<Rightarrow> u8 list \<Rightarrow> rru \<times> msgs" where
  "process_delay_measure_resp r buf =
     (if rd16 buf 15 \<noteq> 911 then (r, [])
      else send_delay_configuration (r\<lparr>r_state := RRU_STATE_CONN_SETUP_ACK, r_timeout := 0\<rparr>))"

definition process_delay_configuration_resp :: "rf_config \<Rightarrow> rru \<Rightarrow> u8 list \<Rightarrow> rru \<times> msgs" where
  "process_delay_configuration_resp rf r buf =
     (if rd16 buf 15 \<noteq> 931 then (r, [])
      else send_parameter_configuration rf (r\<lparr>r_timeout := 0\<rparr>))"

definition process_rru_heartbeat :: "rru \<Rightarrow> rru \<times> msgs" where
  "process_rru_heartbeat r = (case send_bbu_heartbeat r of (r', ms) \<Rightarrow> (r'\<lparr>r_timeout := 0\<rparr>, ms))"

definition process_rru_reset_event :: "rru \<Rightarrow> rru \<times> msgs" where
  "process_rru_reset_event r = (r\<lparr>r_timeout := 0\<rparr>, [])"

definition process_parameter_configuration_resp :: "rru \<Rightarrow> rru \<times> msgs" where
  "process_parameter_configuration_resp r = (r, [])"

definition process_cell_clear_resp :: "rf_config \<Rightarrow> rru \<Rightarrow> (rru \<times> msgs) rru_result" where
  "process_cell_clear_resp rf r = send_cell_configuration_tdd rf r"

definition process_cell_configuration_resp :: "rru \<Rightarrow> rru \<times> msgs" where
  "process_cell_configuration_resp r = (r\<lparr>r_state := RRU_STATE_READY, r_timeout := 0\<rparr>, [])"

text \<open>
  The dispatcher. The length test compares the signed length with an unsigned \<open>sizeof\<close>,
  so a negative length (a failed \<open>read\<close>) passes it.
\<close>

definition process_rru_message ::
  "tm \<Rightarrow> rf_config \<Rightarrow> rru \<Rightarrow> u8 list \<Rightarrow> int \<Rightarrow> (rru \<times> msgs) rru_result option" where
  "process_rru_message t rf r buf len =
     (if (word_of_int len :: u32) < 15 then Some (Inr (r, []))
      else
        (let no = h_msg_no (read_header buf) in
         if no = 1 then process_channel_establishment_req t r buf len
         else if no = 3 then Some (Inr (process_channel_establishment_resp r buf))
         else if no = IR_MSG_RRU_PARAMETERS_CONFIGURATION_RESP
           then Some (Inr (process_parameter_configuration_resp r))
         else if no = IR_MSG_RRU_CELL_CONFIGURATION_RESP then
           (if r_state r = RRU_STATE_WAIT_CELL_CLEAR_RESP then Some (process_cell_clear_resp rf r)
            else Some (Inr (process_cell_configuration_resp r)))
         else if no = IR_MSG_RRU_DELAY_MEASURE_RESP then Some (Inr (process_delay_measure_resp r buf))
         else if no = IR_MSG_RRU_DELAY_CONFIG_RESP
           then Some (Inr (process_delay_configuration_resp rf r buf))
         else if no = 171 then Some (Inr (process_rru_heartbeat r))
         else if no = IR_MSG_RRU_ALARM_REPORT then Some (Inr (process_rru_reset_event r))
         else if no = IR_MSG_RRU_INIT_CALIBRATION_REPORT \<or> no = IR_MSG_RRU_RESET_EVENT then
           (if r_state r \<noteq> RRU_STATE_READY then Some (Inr (process_rru_init_calibration_report r))
            else Some (Inr (r, [])))
         else Some (Inr (r, []))))"

section \<open>The table of units and the manager thread\<close>

abbreviation (input) "MAX_RRU_CLIENTS \<equiv> (10 :: nat)"
abbreviation (input) "RRU_INACTIVITY_TIMEOUT_SECS \<equiv> (10 :: int)"

text \<open>
  The thread's variables and what it emits: control messages per socket, configuration
  datagrams, closed sockets.
\<close>

record rru_mgr =
  rrus :: "rru list"
  rru_count :: u32
  next_bbu_id :: u8
  rru_need_reset :: bool
  outbox :: "(int \<times> u8 list) list"
  cfg_out :: "u8 list list"
  closed :: "int list"

definition blank_rru :: rru where
  "blank_rru = \<lparr>r_id = 0, r_bbu_id = 0, r_port = 0, r_fd = 0, r_state = RRU_STATE_NONE, r_timer = 0,
     r_mac = replicate 6 0, r_ip = 0, r_cfg = None, r_timeout = 0, serial_out = 0, serial_in = 0,
     heartbeat_counter = 0, need_reset = False, ie_1 = replicate 100 0\<rparr>"

definition mgr_init :: rru_mgr where
  "mgr_init = \<lparr>rrus = replicate MAX_RRU_CLIENTS blank_rru, rru_count = 0, next_bbu_id = 0,
     rru_need_reset = True, outbox = [], cfg_out = [], closed = []\<rparr>"

fun find_index :: "('a \<Rightarrow> bool) \<Rightarrow> 'a list \<Rightarrow> nat option" where
  "find_index P [] = None"
| "find_index P (x # xs) = (if P x then Some 0 else map_option Suc (find_index P xs))"

definition find_rru_by_mac :: "u8 list \<Rightarrow> rru list \<Rightarrow> nat option" where
  "find_rru_by_mac mac = find_index (\<lambda>r. r_mac r = mac)"

definition find_rru_by_fd :: "u32 \<Rightarrow> rru list \<Rightarrow> nat option" where
  "find_rru_by_fd fd = find_index (\<lambda>r. (word_of_int (r_fd r) :: u32) = fd)"

definition find_rru_by_ip :: "u32 \<Rightarrow> rru list \<Rightarrow> nat option" where
  "find_rru_by_ip ip = find_index (\<lambda>r. r_ip r = ip)"

definition add_rru_by_mac :: "u8 list \<Rightarrow> rru list \<Rightarrow> (nat \<times> rru list) option" where
  "add_rru_by_mac mac rs =
     map_option (\<lambda>i. (i, rs[i := (rs ! i)\<lparr>r_mac := mac, r_timeout := 0, need_reset := True\<rparr>]))
       (find_index (\<lambda>r. r_state r = RRU_STATE_NONE) rs)"

definition rrus_reconfigure :: "rru list \<Rightarrow> rru list" where
  "rrus_reconfigure =
     map (\<lambda>r. if r_state r = RRU_STATE_READY
              then r\<lparr>r_state := RRU_STATE_NEED_PARAMS_CONFIG, r_timer := 0\<rparr> else r)"

definition rru_connected :: "rru list \<Rightarrow> bool" where
  "rru_connected rs = list_ex (\<lambda>r. r_state r = RRU_STATE_READY) rs"

text \<open>A poll timeout (one second without activity), first and second loop, per unit.\<close>

definition tick_params :: "rf_config \<Rightarrow> rru \<Rightarrow> rru \<times> msgs" where
  "tick_params rf r =
     (if r_state r = RRU_STATE_NEED_PARAMS_CONFIG then
        (if r_timer r \<ge> 10
         then (case send_parameter_configuration rf r of (r', ms) \<Rightarrow> (r'\<lparr>r_state := RRU_STATE_WAIT\<rparr>, ms))
         else (r\<lparr>r_timer := r_timer r + 1\<rparr>, []))
      else (r, []))"

definition tick_timeout :: "rru \<Rightarrow> rru \<times> bool" where
  "tick_timeout r =
     (if r_state r \<noteq> RRU_STATE_NONE then
        (if r_timeout r > RRU_INACTIVITY_TIMEOUT_SECS
         then (r\<lparr>r_state := RRU_STATE_NONE, r_timeout := 0\<rparr>, True)
         else (r\<lparr>r_timeout := r_timeout r + 1\<rparr>, False))
      else (r, False))"

definition mgr_tick :: "rf_config \<Rightarrow> rru_mgr \<Rightarrow> rru_mgr" where
  "mgr_tick rf m =
     (let ps = map (tick_params rf) (rrus m);
          ts = map (tick_timeout \<circ> fst) ps;
          dead = concat (map (\<lambda>(r, d). if d then [r_fd r] else []) ts)
      in m\<lparr>rrus := map fst ts,
           outbox := outbox m @ concat (map (\<lambda>(r, ms). map (Pair (r_fd r)) ms) ps),
           closed := closed m @ dead,
           rru_need_reset := (rru_need_reset m \<or> dead \<noteq> [])\<rparr>)"

text \<open>A configuration request: port, unit id and hardware address.\<close>

definition assign_ip :: "rru_cfg list \<Rightarrow> u8 \<Rightarrow> u32 \<Rightarrow> rru \<Rightarrow> rru \<times> u32" where
  "assign_ip cfgs port count r =
     (let r1 = r\<lparr>r_state := RRU_STATE_INIT, r_timeout := 0, r_ip := 0\<rparr>;
          r2 = (if unat port < length cfgs then
                  (case cfg_ip (cfgs ! unat port) of
                     Some a \<Rightarrow> r1\<lparr>r_ip := a, r_cfg := Some (cfgs ! unat port)\<rparr>
                   | None \<Rightarrow> r1)
                else r1)
      in if r_ip r2 = 0
         then (r2\<lparr>r_ip := 0xc0a81e41 + (count AND 0xff)\<rparr>,
               if count + 1 > 0xfe - 0x41 then 0 else count + 1)
         else (r2, count))"

definition cfg_resp_bytes :: "u8 \<Rightarrow> u8 \<Rightarrow> u8 \<Rightarrow> u8 list \<Rightarrow> u32 \<Rightarrow> u8 list" where
  "cfg_resp_bytes port rid bid mac ip =
     [port, rid, bid] @ mac @ be32 ip @ be32 0xc0a81e01 @ be32 0xffffff00"

definition mgr_cfg_request :: "rru_cfg list \<Rightarrow> u8 \<Rightarrow> u8 \<Rightarrow> u8 list \<Rightarrow> rru_mgr \<Rightarrow> rru_mgr rru_result" where
  "mgr_cfg_request cfgs port rid mac m =
     (case (case find_rru_by_mac mac (rrus m) of
              Some i \<Rightarrow> Some (i, rrus m)
            | None \<Rightarrow> add_rru_by_mac mac (rrus m)) of
        None \<Rightarrow> Inl Table_full
      | Some (i, rs) \<Rightarrow>
          (case assign_ip cfgs port (rru_count m) (rs ! i) of (r, cnt) \<Rightarrow>
             Inr (m\<lparr>rrus := rs[i := r], rru_count := cnt, next_bbu_id := next_bbu_id m + 0x10,
                    cfg_out := cfg_out m @ [cfg_resp_bytes port rid (next_bbu_id m) mac (r_ip r)]\<rparr>)))"

definition mgr_accept :: "int \<Rightarrow> u32 \<Rightarrow> rru_mgr \<Rightarrow> rru_mgr" where
  "mgr_accept sock ip m =
     (case find_rru_by_ip ip (rrus m) of
        None \<Rightarrow> m
      | Some i \<Rightarrow>
          if r_state (rrus m ! i) = RRU_STATE_INIT
          then m\<lparr>rrus := (rrus m)[i := (rrus m ! i)\<lparr>r_fd := sock, r_state := RRU_STATE_CONNECTED, r_timeout := 0\<rparr>]\<rparr>
          else m)"

text \<open>Input on the socket of unit \<open>i\<close>: \<open>recv_len\<close> is what \<open>read\<close> returned.\<close>

definition mgr_input ::
  "tm \<Rightarrow> rf_config \<Rightarrow> nat \<Rightarrow> u8 list \<Rightarrow> int \<Rightarrow> rru_mgr \<Rightarrow> rru_mgr rru_result option" where
  "mgr_input t rf i buf recv_len m =
     (let r = rrus m ! i in
      if r_state r = RRU_STATE_NONE then Some (Inr m)
      else if recv_len = 0
      then Some (Inr (m\<lparr>rrus := (rrus m)[i := r\<lparr>r_state := RRU_STATE_NONE\<rparr>], closed := closed m @ [r_fd r]\<rparr>))
      else (case process_rru_message t rf r buf recv_len of
              None \<Rightarrow> None
            | Some (Inl e) \<Rightarrow> Some (Inl e)
            | Some (Inr (r', ms)) \<Rightarrow>
                Some (Inr (m\<lparr>rrus := (rrus m)[i := r'\<lparr>r_timeout := 0\<rparr>],
                             outbox := outbox m @ map (Pair (r_fd r)) ms\<rparr>))))"

end
