(* ===== verification/RRU_Props.thy ===== *)
theory RRU_Props
  imports RRU_Manager
begin

text \<open>
  Properties of the RRU message handlers: framing and serial numbers of everything they
  send, termination and non-termination of the element loop, and the length test.
\<close>

section \<open>Framing and serial numbers\<close>

lemma sum_ie_lengths: "length (concat (map ie_bytes ies)) = sum_list (map ie_sizeof ies)"
  by (simp add: length_concat comp_def)

lemma ir_send_decode:
  assumes "sum_list (map ie_sizeof ies) < 2 ^ 31" "ir_send no ies r = (r', m)"
  shows "\<exists>h. ir_decode m = Some (h, map (\<lambda>ie. (ie_no ie, ie_fields ie)) ies) \<and> h_msg_no h = no \<and>
    h_flow h = serial_out r \<and> h_rru_id h = ucast (r_id r) \<and> unat (h_msg_len h) = length m"
    "r' = r\<lparr>serial_out := serial_out r + 1\<rparr>"
proof -
  let ?n = "15 + sum_list (map ie_sizeof ies)"
  let ?h = "\<lparr>h_msg_no = no, h_msg_len = of_nat ?n,
        h_rru_id = ucast (r_id r), h_bbu_id = ucast (r_bbu_id r), h_port = ucast (r_port r),
        h_flow = serial_out r\<rparr>"
  have m: "m = header_bytes ?h @ concat (map ie_bytes ies)" using assms(2) by (simp add: ir_send_def)
  have len: "length m = ?n" by (simp add: m sum_ie_lengths)
  have n: "unat (of_nat ?n :: u32) = ?n" using assms(1) by (simp only: unat_of_nat) simp
  have "ir_decode m = Some (?h, map (\<lambda>ie. (ie_no ie, ie_fields ie)) ies)"
    using len n by (simp add: ir_decode_def m read_header_bytes split_ies_bytes)
  then show "\<exists>h. ir_decode m = Some (h, map (\<lambda>ie. (ie_no ie, ie_fields ie)) ies) \<and> h_msg_no h = no \<and>
    h_flow h = serial_out r \<and> h_rru_id h = ucast (r_id r) \<and> unat (h_msg_len h) = length m"
    using len n by (intro exI [of _ ?h]) simp
  show "r' = r\<lparr>serial_out := serial_out r + 1\<rparr>" using assms(2) by (simp add: ir_send_def)
qed

text \<open>
  \<open>sends r no ies r' ms\<close>: exactly one message, number \<open>no\<close> with the elements \<open>ies\<close>, went
  out under the serial number of \<open>r\<close>.
\<close>

definition sends :: "rru \<Rightarrow> u32 \<Rightarrow> ir_ie list \<Rightarrow> rru \<Rightarrow> msgs \<Rightarrow> bool" where
  "sends r no ies r' ms =
     (\<exists>m h. ms = [m] \<and> ir_decode m = Some (h, map (\<lambda>ie. (ie_no ie, ie_fields ie)) ies) \<and>
        h_msg_no h = no \<and> h_flow h = serial_out r \<and> h_rru_id h = ucast (r_id r) \<and>
        unat (h_msg_len h) = length m \<and> serial_out r' = serial_out r + 1)"

lemma sends_ir_send:
  assumes "sum_list (map ie_sizeof ies) < 2 ^ 31"
  shows "sends r no ies (fst (ir_send no ies r)) [snd (ir_send no ies r)]"
  using ir_send_decode [OF assms, of no r "fst (ir_send no ies r)" "snd (ir_send no ies r)"]
  by (auto simp: sends_def)

lemma sends_enter:
  assumes "sum_list (map ie_sizeof ies) < 2 ^ 31" "ir_send_enter no ies s r = (r', ms)"
  shows "sends r no ies r' ms" "r_state r' = s" "r_cfg r' = r_cfg r" "need_reset r' = need_reset r" "r_id r' = r_id r"
    "serial_out r' = serial_out r + 1" "r_mac r' = r_mac r"
proof -
  have "sends r no ies (fst (ir_send no ies r)) [snd (ir_send no ies r)]"
    by (rule sends_ir_send [OF assms(1)])
  then show "sends r no ies r' ms"
    using assms(2) by (auto simp: ir_send_enter_def sends_def split: prod.splits)
qed (use assms(2) in \<open>auto simp: ir_send_enter_def ir_send_def\<close>)

lemma param_ies_size: "sum_list (map ie_sizeof (param_ies rf)) < 2 ^ 31"
  by (simp add: param_ies_def)

lemmas send_defs =
  send_channel_establishment_config_def send_parameter_configuration_def send_cell_clear_tdd_def
  send_delay_measure_def send_delay_configuration_def process_rru_init_calibration_report_def

definition ie1_only :: "rru \<Rightarrow> rru \<Rightarrow> bool" where
  "ie1_only r r' = (r'\<lparr>ie_1 := []\<rparr> = r\<lparr>ie_1 := []\<rparr>)"

lemma ie1_only_simps [simp]:
  "ie1_only r r" "ie1_only (r\<lparr>ie_1 := x\<rparr>) r' = ie1_only r r'"
  by (simp_all add: ie1_only_def)

lemma ie1_onlyD:
  assumes "ie1_only r r'"
  shows "serial_out r' = serial_out r" "r_cfg r' = r_cfg r" "need_reset r' = need_reset r" "r_id r' = r_id r"
    "r_mac r' = r_mac r"
proof -
  have e: "r'\<lparr>ie_1 := []\<rparr> = r\<lparr>ie_1 := []\<rparr>" using assms by (simp add: ie1_only_def)
  show "serial_out r' = serial_out r" using arg_cong [OF e, of serial_out] by simp
  show "r_cfg r' = r_cfg r" using arg_cong [OF e, of r_cfg] by simp
  show "need_reset r' = need_reset r" using arg_cong [OF e, of need_reset] by simp
  show "r_id r' = r_id r" using arg_cong [OF e, of r_id] by simp
  show "r_mac r' = r_mac r" using arg_cong [OF e, of r_mac] by simp
qed

lemma parse_ies_frame:
  assumes "parse_ies buf len off r = Some (Inr r')"
  shows "ie1_only r r'"
proof -
  have "\<forall>r'. y = Inr r' \<longrightarrow> ie1_only r r'" if "parse_ies buf len off r = Some y" for y
  proof (rule parse_ies.raw_induct [OF _ that, where P = "\<lambda>buf len off r y. \<forall>r'. y = Inr r' \<longrightarrow> ie1_only r r'"])
    fix f :: "u8 list \<Rightarrow> int \<Rightarrow> nat \<Rightarrow> rru \<Rightarrow> rru rru_result option" and buf len off r y
    assume ih: "\<And>buf len off r y. f buf len off r = Some y \<Longrightarrow> \<forall>r'. y = Inr r' \<longrightarrow> ie1_only r r'"
      and eq: "(if int off < len then
        (if off + 4 > RECV_BUF then Some (Inl Buffer_overread)
         else if rd16 buf off = 1 \<and> rd16 buf (off + 2) = 100 then
           (if off + 100 > RECV_BUF then Some (Inl Buffer_overread)
            else f buf len (off + 100) (r\<lparr>ie_1 := take 100 (drop off buf)\<rparr>))
         else f buf len (off + unat (rd16 buf (off + 2))) r)
      else Some (Inr r)) = Some y"
    show "\<forall>r'. y = Inr r' \<longrightarrow> ie1_only r r'"
      using eq ih [of buf len "off + 100" "r\<lparr>ie_1 := take 100 (drop off buf)\<rparr>" y]
        ih [of buf len "off + unat (rd16 buf (off + 2))" r y]
      by (auto split: if_splits)
  qed
  with assms show ?thesis by blast
qed

definition one_message :: "rru \<Rightarrow> rru \<Rightarrow> msgs \<Rightarrow> bool" where
  "one_message r r' ms =
     ((ms = [] \<and> serial_out r' = serial_out r) \<or>
      (\<exists>m h ies. ms = [m] \<and> ir_decode m = Some (h, ies) \<and> h_flow h = serial_out r \<and>
         unat (h_msg_len h) = length m \<and> serial_out r' = serial_out r + 1))"

lemma sends_one_message: "sends r no ies r' ms \<Longrightarrow> serial_out r0 = serial_out r \<Longrightarrow> one_message r0 r' ms"
  by (auto simp: sends_def one_message_def)

lemma enter_one_message:
  assumes "ir_send_enter no ies s r = (r', ms)" "sum_list (map ie_sizeof ies) < 2 ^ 31"
    "serial_out r0 = serial_out r"
  shows "one_message r0 r' ms"
  using sends_enter(1) [OF assms(2,1)] assms(3) by (rule sends_one_message)

lemma channel_establishment_req_message:
  assumes "process_channel_establishment_req t r buf len = Some (Inr (r', ms))"
  shows "one_message r r' ms" "r_state r' = RRU_STATE_CONN_SETUP_SENT"
proof -
  obtain r1 r2 where r2: "parse_ies buf len 15 r1 = Some (Inr r2)" "serial_out r1 = serial_out r"
      "send_channel_establishment_config t r2 = (r', ms)"
    using assms by (auto simp: process_channel_establishment_req_def Let_def split: option.splits sum.splits)
  have so: "serial_out r = serial_out r2" using ie1_onlyD(1) [OF parse_ies_frame [OF r2(1)]] r2(2) by simp
  show "one_message r r' ms"
    by (rule enter_one_message [OF r2(3) [unfolded send_channel_establishment_config_def] _ so]) simp
  show "r_state r' = RRU_STATE_CONN_SETUP_SENT"
    using sends_enter(2) [OF _ r2(3) [unfolded send_channel_establishment_config_def]] by simp
qed

lemma channel_establishment_resp_message: "one_message r (fst (process_channel_establishment_resp r buf)) (snd (process_channel_establishment_resp r buf))"
proof -
  let ?r1 = "r\<lparr>r_state := RRU_STATE_CONN_SETUP_ACK, r_timeout := 0\<rparr>"
  have "sends ?r1 141 [IE_1301 0] (fst (send_rru_reset_req ?r1)) (snd (send_rru_reset_req ?r1))"
    using sends_ir_send [of "[IE_1301 0]" ?r1 141] by (auto simp: send_rru_reset_req_def split: prod.splits)
  then have a: "one_message r ((fst (send_rru_reset_req ?r1))\<lparr>need_reset := False\<rparr>) (snd (send_rru_reset_req ?r1))"
    by (auto simp: sends_def one_message_def)
  have b: "one_message r (fst (send_delay_measure ?r1)) (snd (send_delay_measure ?r1))"
    by (rule enter_one_message [where r = ?r1]) (auto simp: send_delay_measure_def)
  show ?thesis
    using a b by (auto simp: process_channel_establishment_resp_def Let_def one_message_def split: prod.splits)
qed

lemma one_message_same: "serial_out r' = serial_out r \<Longrightarrow> one_message r r' []"
  by (simp add: one_message_def)

lemma handlers_one_message:
  "one_message r (fst (process_rru_init_calibration_report r)) (snd (process_rru_init_calibration_report r))"
  "one_message r (fst (process_delay_measure_resp r buf)) (snd (process_delay_measure_resp r buf))"
  "one_message r (fst (process_delay_configuration_resp rf r buf)) (snd (process_delay_configuration_resp rf r buf))"
  "one_message r (fst (process_rru_heartbeat r)) (snd (process_rru_heartbeat r))"
  "process_cell_clear_resp rf r = Inr (r', ms) \<Longrightarrow> one_message r r' ms"
proof -
  show "one_message r (fst (process_rru_init_calibration_report r)) (snd (process_rru_init_calibration_report r))"
    by (rule enter_one_message [where r = r]) (auto simp: send_defs)
  show "one_message r (fst (process_delay_measure_resp r buf)) (snd (process_delay_measure_resp r buf))"
    using enter_one_message [of 103 "[IE_921 0 (943 + 2573) (943 + 2426) 256 24240 40227]" RRU_STATE_WAIT_CELL_CONFIG_RESP
        "r\<lparr>r_state := RRU_STATE_CONN_SETUP_ACK, r_timeout := 0\<rparr>" _ _ r]
    by (auto simp: process_delay_measure_resp_def send_delay_configuration_def one_message_same)
  show "one_message r (fst (process_delay_configuration_resp rf r buf)) (snd (process_delay_configuration_resp rf r buf))"
    using enter_one_message [of 61 "param_ies rf" RRU_STATE_WAIT_PARAMS_CONFIG_RESP "r\<lparr>r_timeout := 0\<rparr>" _ _ r]
      param_ies_size [of rf]
    by (auto simp: process_delay_configuration_resp_def send_parameter_configuration_def one_message_same)
  have "sends r 181 [] (fst (ir_send 181 [] r)) [snd (ir_send 181 [] r)]" by (rule sends_ir_send) simp
  then show "one_message r (fst (process_rru_heartbeat r)) (snd (process_rru_heartbeat r))"
    by (auto simp: process_rru_heartbeat_def send_bbu_heartbeat_def sends_def one_message_def split: prod.splits)
  show "one_message r r' ms" if "process_cell_clear_resp rf r = Inr (r', ms)"
    using that enter_one_message [of 193 _ RRU_STATE_WAIT_CELL_CONFIG_RESP r r' ms r]
    by (auto simp: process_cell_clear_resp_def send_cell_configuration_tdd_def split: option.splits)
qed

lemma process_message_one:
  assumes "process_rru_message t rf r buf len = Some (Inr (r', ms))"
  shows "one_message r r' ms"
  using assms handlers_one_message [where r = r] channel_establishment_req_message(1)
    channel_establishment_resp_message [where r = r]
  by (auto simp: process_rru_message_def Let_def process_parameter_configuration_resp_def
      process_cell_configuration_resp_def process_rru_reset_event_def one_message_same split: if_splits)
     (metis fst_conv snd_conv)+

text \<open>C32: Whatever a unit sends, the manager answers with at most one message, and that
  message is well framed: its header length is the number of bytes sent, its elements can
  be walked by their length fields to exactly its end, and it carries the next serial
  number.\<close>

theorem rru_replies_well_framed:
  assumes "process_rru_message t rf r buf len = Some (Inr (r', ms))"
  shows "(ms = [] \<and> serial_out r' = serial_out r) \<or>
    (\<exists>m h ies. ms = [m] \<and> ir_decode m = Some (h, ies) \<and> h_flow h = serial_out r \<and>
       unat (h_msg_len h) = length m \<and> serial_out r' = serial_out r + 1)"
  using process_message_one [OF assms] by (simp add: one_message_def)

section \<open>Sample data\<close>

text \<open>Sample data: a configured unit, the radio configuration, and a bare message.\<close>

definition sample_cfg :: rru_cfg where
  "sample_cfg = \<lparr>cfg_ip = Some 0xc0a81e42, freq_dl = 465000000, freq_ul = 455000000, power_dbm = 20\<rparr>"

definition sample_rru :: rru where
  "sample_rru = blank_rru\<lparr>r_fd := 7, r_state := RRU_STATE_CONNECTED, r_mac := [2, 0, 0, 0, 0, 1],
     r_cfg := Some sample_cfg, need_reset := True\<rparr>"

definition sample_rf :: rf_config where
  "sample_rf = \<lparr>dl_channel_bandwidth = 25, tx_antenna_ports = 2\<rparr>"

definition sample_tm :: tm where
  "sample_tm = \<lparr>tm_sec = 5, tm_min = 30, tm_hour = 12, tm_mday = 1, tm_mon = 0, tm_year = 124\<rparr>"

definition bare_msg :: "u32 \<Rightarrow> u8 list" where
  "bare_msg no = header_bytes \<lparr>h_msg_no = no, h_msg_len = 15, h_rru_id = 1, h_bbu_id = 0, h_port = 0, h_flow = 0\<rparr>"

text \<open>The receive buffer after a message was read into it; what it held before is zero.\<close>

definition recv_buf :: "u8 list \<Rightarrow> u8 list" where
  "recv_buf m = m @ replicate (RECV_BUF - length m) 0"

lemma read_bare_msg [simp]: "h_msg_no (read_header (recv_buf (bare_msg no @ x))) = no"
  by (simp add: recv_buf_def bare_msg_def read_header_bytes)

lemma length_bare_msg [simp]: "length (bare_msg no) = 15"
  by (simp add: bare_msg_def)

lemma length_recv_buf [simp]: "length m \<le> 4096 \<Longrightarrow> length (recv_buf m) = 4096"
  by (simp add: recv_buf_def)

lemma rd16_after_header [simp]: "rd16 (recv_buf (bare_msg no @ be16 v @ x)) 15 = v"
  by (simp add: recv_buf_def rd16_def be16_def nth_append)

lemma rru_replies_well_framed_witness:
  "\<exists>r' m h ies. process_rru_message sample_tm sample_rf sample_rru (recv_buf (bare_msg 171)) 15 = Some (Inr (r', [m])) \<and>
     ir_decode m = Some (h, ies) \<and> h_flow h = 0 \<and> unat (h_msg_len h) = length m \<and> serial_out r' = 1"
proof -
  have no: "h_msg_no (read_header (recv_buf (bare_msg 171))) = 171"
    using read_bare_msg [of 171 "[]"] by simp
  have p: "process_rru_message sample_tm sample_rf sample_rru (recv_buf (bare_msg 171)) 15
      = Some (Inr (process_rru_heartbeat sample_rru))"
    by (simp add: process_rru_message_def no)
  obtain r' ms where h: "process_rru_heartbeat sample_rru = (r', ms)" by (rule prod.exhaust)
  then have "ms \<noteq> []"
    by (auto simp: process_rru_heartbeat_def send_bbu_heartbeat_def split: prod.splits)
  then show ?thesis
    using rru_replies_well_framed [OF p [unfolded h]] p h by (auto simp: sample_rru_def blank_rru_def)
qed

section \<open>The element loop\<close>

text \<open>
  The sender's view of an element chain: at offset \<open>off\<close> the elements follow each other by
  their lengths, each at least its own header long, up to exactly \<open>len\<close>.
\<close>

lemma rd16_drop: "off + i + 1 < length b \<Longrightarrow> rd16 (drop off b) i = rd16 b (off + i)"
  by (simp add: rd16_def)

lemma rd16_take: "i + 1 < n \<Longrightarrow> rd16 (take n b) i = rd16 b i"
  by (simp add: rd16_def)

lemma parse_ies_total:
  assumes "split_ies (take (len - off) (drop off buf)) = Some ies" "off \<le> len" "len \<le> 4096" "length buf = 4096"
  shows "\<exists>r'. parse_ies buf (int len) off r = Some (Inr r')"
  using assms(1,2)
proof (induction "len - off" arbitrary: off ies r rule: less_induct)
  case less
  let ?b = "take (len - off) (drop off buf)"
  show ?case
  proof (cases "off = len")
    case True
    then show ?thesis by (simp add: parse_ies.simps)
  next
    case False
    have lb: "length ?b = len - off" using assms(3,4) less.prems(2) by simp
    have ne: "?b \<noteq> []" using lb False less.prems(2) by (metis diff_is_0_eq le_antisym list.size(3))
    have l4: "4 \<le> len - off"
      using less.prems(1) ne lb unfolding split_ies.simps [of ?b] by (auto split: if_splits)
    let ?n = "unat (rd16 buf (off + 2))"
    have n: "unat (rd16 ?b 2) = ?n" using l4 assms(3,4) by (simp add: rd16_take rd16_drop)
    have d: "drop ?n ?b = take (len - (off + ?n)) (drop (off + ?n) buf)"
      by (simp add: drop_take add.commute)
    obtain ies' where n4: "4 \<le> ?n" "?n \<le> len - off"
      and rest: "split_ies (take (len - (off + ?n)) (drop (off + ?n) buf)) = Some ies'"
      using less.prems(1) ne lb l4 n d unfolding split_ies.simps [of ?b] by (auto simp: Let_def split: if_splits)
    have ih: "\<exists>r''. parse_ies buf (int len) (off + ?n) r0 = Some (Inr r'')" for r0
      by (rule less.hyps [OF _ rest]) (use n4 l4 in auto)
    have o: "off + 4 \<le> 4096" "int off < int len" using l4 assms(3) by auto
    show ?thesis
    proof (cases "rd16 buf off = 1 \<and> rd16 buf (off + 2) = 100")
      case True
      then have "?n = 100" by simp
      then show ?thesis using ih [of "r\<lparr>ie_1 := take 100 (drop off buf)\<rparr>"] n4 o True assms(3)
        by (simp add: parse_ies.simps [of buf "int len" off r])
    next
      case False
      then show ?thesis using ih [of r] o by (simp add: parse_ies.simps [of buf "int len" off r] del: de_Morgan_conj)
    qed
  qed
qed

text \<open>C38: A channel establishment request whose elements chain up to the received length is
  always answered: the element loop ends, reads nothing outside the 4096-byte receive
  buffer, and the channel configuration goes out.\<close>

theorem establishment_request_answered:
  assumes "split_ies (take (len - 15) (drop 15 buf)) = Some ies" "15 \<le> len" "len \<le> 4096" "length buf = 4096"
    "h_msg_no (read_header buf) = 1"
  shows "\<exists>r' m h. process_rru_message t rf r buf (int len) = Some (Inr (r', [m])) \<and>
    ir_decode m = Some h \<and> r_state r' = RRU_STATE_CONN_SETUP_SENT \<and> r_id r' = ucast (h_rru_id (read_header buf))"
proof -
  let ?r1 = "r\<lparr>r_id := ucast (h_rru_id (read_header buf)), r_bbu_id := ucast (h_bbu_id (read_header buf)),
    r_port := ucast (h_port (read_header buf))\<rparr>"
  obtain r2 where r2: "parse_ies buf (int len) 15 ?r1 = Some (Inr r2)"
    using parse_ies_total [OF assms(1-4), of ?r1] by blast
  have "uint (word_of_int (int len) :: u32) = int len"
    using assms(2,3) by (simp only: uint_word_of_int) simp
  then have l: "\<not> (word_of_int (int len) :: u32) < 15" using assms(2) by (simp add: word_less_def)
  obtain r' ms where s: "send_channel_establishment_config t r2 = (r', ms)" by (rule prod.exhaust)
  then have p: "process_rru_message t rf r buf (int len) = Some (Inr (r', ms))"
    using l r2 assms(5) by (simp add: process_rru_message_def process_channel_establishment_req_def)
  have se: "sends r2 2 [IE_11 (tm_sec t) (tm_min t) (tm_hour t) (tm_mday t) (tm_mon t + 1) (tm_year t + 1900),
        IE_12 BBU_IP, IE_13 0, IE_14 0 0, IE_504 1] r' ms" "r_state r' = RRU_STATE_CONN_SETUP_SENT" "r_id r' = r_id r2"
    using sends_enter [OF _ s [unfolded send_channel_establishment_config_def]] by simp_all
  then show ?thesis using p ie1_onlyD(4) [OF parse_ies_frame [OF r2]] by (auto simp: sends_def)
qed

lemma establishment_request_answered_witness:
  "\<exists>r' m h. process_rru_message sample_tm sample_rf sample_rru (recv_buf (bare_msg 1 @ be16 2 @ be16 5 @ [9])) 20
      = Some (Inr (r', [m])) \<and>
    ir_decode m = Some h \<and> r_state r' = RRU_STATE_CONN_SETUP_SENT"
proof -
  let ?b = "recv_buf (bare_msg 1 @ be16 2 @ be16 5 @ [9])"
  have "take (20 - 15) (drop 15 ?b) = be16 2 @ be16 5 @ [9]" by (simp add: recv_buf_def)
  then have s: "split_ies (take (20 - 15) (drop 15 ?b)) = Some [(2, [9])]"
    by (simp add: split_ies.simps be16_def rd16_def of_be16_def)
  show ?thesis
    using establishment_request_answered [OF s, of sample_tm sample_rf sample_rru] by auto
qed


text \<open>
  An element of length zero: the loop does not advance. Every approximation of the loop
  is undefined there, hence so is its fixpoint.
\<close>

lemma parse_ies_stuck:
  assumes "int off < len" "off + 4 \<le> 4096" "rd16 buf (off + 2) = 0"
  shows "parse_ies buf len off r = None"
proof (rule ccontr)
  assume "parse_ies buf len off r \<noteq> None"
  then obtain y where y: "parse_ies buf len off r = Some y" by blast
  define P where "P buf len off r y \<longleftrightarrow> \<not> (int off < len \<and> off + 4 \<le> 4096 \<and> rd16 buf (off + 2) = 0)"
    for buf :: "u8 list" and len :: int and off :: nat and r :: rru and y :: "rru rru_result"
  have "P buf len off r y"
  proof (rule parse_ies.raw_induct [OF _ y])
    fix f :: "u8 list \<Rightarrow> int \<Rightarrow> nat \<Rightarrow> rru \<Rightarrow> rru rru_result option" and buf len off r y
    assume ih: "\<And>buf len off r y. f buf len off r = Some y \<Longrightarrow> P buf len off r y"
      and eq: "(if int off < len then
        (if off + 4 > RECV_BUF then Some (Inl Buffer_overread)
         else if rd16 buf off = 1 \<and> rd16 buf (off + 2) = 100 then
           (if off + 100 > RECV_BUF then Some (Inl Buffer_overread)
            else f buf len (off + 100) (r\<lparr>ie_1 := take 100 (drop off buf)\<rparr>))
         else f buf len (off + unat (rd16 buf (off + 2))) r)
      else Some (Inr r)) = Some y"
    show "P buf len off r y"
    proof (rule ccontr)
      assume "\<not> P buf len off r y"
      then have c: "int off < len" "off + 4 \<le> 4096" "rd16 buf (off + 2) = 0" by (simp_all add: P_def)
      then have "f buf len off r = Some y" using eq by simp
      from ih [OF this] c show False by (simp add: P_def)
    qed
  qed
  with assms show False by (simp add: P_def)
qed

text \<open>A channel establishment request whose first element carries the length zero makes
  the handler loop forever: no later unit and no timeout is served.\<close>

lemma zero_length_element_hangs:
  assumes "h_msg_no (read_header buf) = 1" "rd16 buf 17 = 0" "16 \<le> len" "len \<le> 4096"
  shows "process_rru_message t rf r buf len = None"
proof -
  have "uint (word_of_int len :: u32) = len" using assms(3,4) by (simp only: uint_word_of_int) simp
  then have l: "\<not> (word_of_int len :: u32) < 15" using assms(3) by (simp add: word_less_def)
  show ?thesis
    using parse_ies_stuck [of 15 len buf] assms l
    by (simp add: process_rru_message_def process_channel_establishment_req_def Let_def)
qed

lemma zero_length_element_hangs_witness:
  "process_rru_message sample_tm sample_rf sample_rru (recv_buf (bare_msg 1 @ be16 2 @ be16 0)) 19 = None"
proof (rule zero_length_element_hangs)
  show "h_msg_no (read_header (recv_buf (bare_msg 1 @ be16 2 @ be16 0))) = 1" by (rule read_bare_msg)
  show "rd16 (recv_buf (bare_msg 1 @ be16 2 @ be16 0)) 17 = 0"
    by (simp add: recv_buf_def rd16_def be16_def of_be16_def nth_append)
qed simp_all

section \<open>Lengths\<close>

text \<open>The length test lets a failed read through: with \<open>read\<close> returning -1 the message
  an earlier read left in the buffer is processed again exactly as if it had just arrived
  (a channel establishment request apart, whose element loop is then empty), while lengths
  0 to 14 are rejected without an effect.\<close>

lemma failed_read_replays_buffer:
  assumes "h_msg_no (read_header buf) \<noteq> 1" "15 \<le> len" "len \<le> 4096" "0 \<le> n" "n < 15"
  shows "process_rru_message t rf r buf (- 1) = process_rru_message t rf r buf len \<and>
    process_rru_message t rf r buf n = Some (Inr (r, []))"
proof
  have "uint (word_of_int len :: u32) = len" using assms(2,3) by (simp only: uint_word_of_int) simp
  then have l: "\<not> (word_of_int len :: u32) < 15" using assms(2) by (simp add: word_less_def)
  have m: "\<not> (- 1 :: u32) < 15" by simp
  show "process_rru_message t rf r buf (- 1) = process_rru_message t rf r buf len"
    unfolding process_rru_message_def using l m assms(1) by (simp add: Let_def)
  have "uint (word_of_int n :: u32) = n" using assms(4,5) by (simp only: uint_word_of_int) simp
  then have "(word_of_int n :: u32) < 15" using assms(5) by (simp add: word_less_def)
  then show "process_rru_message t rf r buf n = Some (Inr (r, []))" by (simp add: process_rru_message_def)
qed

lemma failed_read_replays_buffer_witness:
  "process_rru_message sample_tm sample_rf sample_rru (recv_buf (bare_msg 171)) (- 1) =
     process_rru_message sample_tm sample_rf sample_rru (recv_buf (bare_msg 171)) 15 \<and>
   process_rru_message sample_tm sample_rf sample_rru (recv_buf (bare_msg 171)) 14 = Some (Inr (sample_rru, []))"
  using failed_read_replays_buffer [of "recv_buf (bare_msg 171)" 15 14 sample_tm sample_rf sample_rru]
    read_bare_msg [of 171 "[]"] by simp

end
