(* ===== verification/RRU_Protocol.thy ===== *)
theory RRU_Protocol
  imports RRU_Props
begin

text \<open>
  The control protocol as an abstract state machine, and the refinement: on every message
  the handlers of the manager change the unit's state, its reset flag and the numbers of
  the messages sent exactly as the machine does.
\<close>

section \<open>The machine\<close>

datatype ir_input =
    In_est_req | In_est_resp | In_params_resp | In_cell_resp | In_delay_meas | In_delay_conf
  | In_heartbeat | In_alarm | In_calib | In_other

text \<open>What the dispatcher and the handlers look at: message number and first element number.\<close>

definition classify :: "u8 list \<Rightarrow> ir_input" where
  "classify b =
     (let no = h_msg_no (read_header b); ie = rd16 b 15 in
      if no = 1 then In_est_req
      else if no = 3 \<and> ie = 21 then In_est_resp
      else if no = 62 then In_params_resp
      else if no = 194 then In_cell_resp
      else if no = 102 \<and> ie = 911 then In_delay_meas
      else if no = 104 \<and> ie = 931 then In_delay_conf
      else if no = 171 then In_heartbeat
      else if no = 111 then In_alarm
      else if no = 71 \<or> no = 221 then In_calib
      else In_other)"

text \<open>
  The state: connection state, pending reset, and whether a configuration is attached.
  The result: state, pending reset and the message numbers sent; \<open>None\<close> is the null
  configuration pointer.
\<close>

fun ir_fsm :: "ir_input \<Rightarrow> rru_state \<times> bool \<times> bool \<Rightarrow> (rru_state \<times> bool \<times> u32 list) option" where
  "ir_fsm In_est_req (s, nr, c) = Some (RRU_STATE_CONN_SETUP_SENT, nr, [2])"
| "ir_fsm In_est_resp (s, nr, c) =
     Some (if nr then (RRU_STATE_CONN_SETUP_ACK, False, [141]) else (RRU_STATE_WAIT_CELL_CONFIG_RESP, False, [101]))"
| "ir_fsm In_delay_meas (s, nr, c) = Some (RRU_STATE_WAIT_CELL_CONFIG_RESP, nr, [103])"
| "ir_fsm In_delay_conf (s, nr, c) = Some (RRU_STATE_WAIT_PARAMS_CONFIG_RESP, nr, [61])"
| "ir_fsm In_calib (s, nr, c) =
     Some (if s = RRU_STATE_READY then (s, nr, []) else (RRU_STATE_WAIT_CELL_CLEAR_RESP, nr, [193]))"
| "ir_fsm In_cell_resp (s, nr, c) =
     (if s = RRU_STATE_WAIT_CELL_CLEAR_RESP
      then (if c then Some (RRU_STATE_WAIT_CELL_CONFIG_RESP, nr, [193]) else None)
      else Some (RRU_STATE_READY, nr, []))"
| "ir_fsm In_heartbeat (s, nr, c) = Some (s, nr, [181])"
| "ir_fsm In_params_resp (s, nr, c) = Some (s, nr, [])"
| "ir_fsm In_alarm (s, nr, c) = Some (s, nr, [])"
| "ir_fsm In_other (s, nr, c) = Some (s, nr, [])"

definition fsm_view :: "rru \<Rightarrow> rru_state \<times> bool \<times> bool" where
  "fsm_view r = (r_state r, need_reset r, r_cfg r \<noteq> None)"

text \<open>The numbers of the messages in a list of sent messages.\<close>

definition msg_nos :: "msgs \<Rightarrow> u32 list" where
  "msg_nos ms = map (h_msg_no \<circ> read_header) ms"

text \<open>The fields no handler touches.\<close>

definition same_link :: "rru \<Rightarrow> rru \<Rightarrow> bool" where
  "same_link r r' = (r_cfg r' = r_cfg r \<and> r_fd r' = r_fd r \<and> r_ip r' = r_ip r \<and> r_mac r' = r_mac r \<and> r_timer r' = r_timer r)"

text \<open>A message as a unit sends it: received whole, and its elements chain up if it is an establishment request.\<close>

definition proper_msg :: "u8 list \<Rightarrow> int \<Rightarrow> bool" where
  "proper_msg b len = (15 \<le> len \<and> len \<le> 4096 \<and> length b = 4096 \<and>
     (h_msg_no (read_header b) = 1 \<longrightarrow> split_ies (take (nat len - 15) (drop 15 b)) \<noteq> None))"

section \<open>Refinement\<close>

definition fsm_result :: "rru \<Rightarrow> (rru_state \<times> bool \<times> u32 list) \<Rightarrow> rru \<times> msgs \<Rightarrow> bool" where
  "fsm_result r res out =
     (case (res, out) of ((s, nr, nos), (r', ms)) \<Rightarrow>
        r_state r' = s \<and> need_reset r' = nr \<and> msg_nos ms = nos \<and> same_link r r')"

lemma same_link_refl [simp]: "same_link r r"
  by (simp add: same_link_def)

lemma same_link_trans: "same_link a b \<Longrightarrow> same_link b c \<Longrightarrow> same_link a c"
  by (simp add: same_link_def)

lemma fsm_result_enter:
  "fsm_result r (s, need_reset r, [no]) (ir_send_enter no ies s r)"
  by (simp add: fsm_result_def ir_send_enter_def ir_send_def msg_nos_def same_link_def read_header_bytes)

lemma fsm_result_send:
  "fsm_result r (r_state r, need_reset r, [no]) (case ir_send no ies r of (r', m) \<Rightarrow> (r', [m]))"
  by (simp add: fsm_result_def ir_send_def msg_nos_def same_link_def read_header_bytes)

lemma same_link_upd [simp]:
  "same_link (r\<lparr>r_state := s\<rparr>) r' = same_link r r'" "same_link (r\<lparr>r_timeout := t\<rparr>) r' = same_link r r'"
  "same_link r (r'\<lparr>r_state := s\<rparr>) = same_link r r'" "same_link r (r'\<lparr>r_timeout := t\<rparr>) = same_link r r'"
  "same_link r (r'\<lparr>need_reset := b\<rparr>) = same_link r r'"
  by (simp_all add: same_link_def)

lemma fsm_result_upd [simp]:
  "fsm_result (r\<lparr>r_state := s\<rparr>) res out = fsm_result r res out"
  "fsm_result (r\<lparr>r_timeout := t\<rparr>) res out = fsm_result r res out"
  by (simp_all add: fsm_result_def split: prod.splits)

lemma ie1_only_link:
  assumes "ie1_only r r'"
  shows "same_link r r'" "need_reset r' = need_reset r"
proof -
  have e: "r'\<lparr>ie_1 := []\<rparr> = r\<lparr>ie_1 := []\<rparr>" using assms by (simp add: ie1_only_def)
  show "same_link r r'"
    unfolding same_link_def
    using arg_cong [OF e, of r_cfg] arg_cong [OF e, of r_fd] arg_cong [OF e, of r_ip] arg_cong [OF e, of r_mac]
      arg_cong [OF e, of r_timer]
    by simp
  show "need_reset r' = need_reset r" using arg_cong [OF e, of need_reset] by simp
qed

lemma est_req_fsm:
  assumes "proper_msg b len" "h_msg_no (read_header b) = 1"
  shows "\<exists>out. process_channel_establishment_req t r b len = Some (Inr out) \<and>
    fsm_result r (RRU_STATE_CONN_SETUP_SENT, need_reset r, [2]) out"
proof -
  let ?r1 = "r\<lparr>r_id := ucast (h_rru_id (read_header b)), r_bbu_id := ucast (h_bbu_id (read_header b)),
    r_port := ucast (h_port (read_header b))\<rparr>"
  obtain ies where "split_ies (take (nat len - 15) (drop 15 b)) = Some ies" "int (nat len) = len" "15 \<le> nat len" "nat len \<le> 4096"
    using assms by (auto simp: proper_msg_def)
  then obtain r2 where r2: "parse_ies b len 15 ?r1 = Some (Inr r2)"
    using parse_ies_total [of "nat len" 15 b ies ?r1] assms(1) by (auto simp: proper_msg_def)
  have l: "same_link r r2" "need_reset r2 = need_reset r"
    using ie1_only_link [OF parse_ies_frame [OF r2]] by (simp_all add: same_link_def)
  have "fsm_result r2 (RRU_STATE_CONN_SETUP_SENT, need_reset r2, [2]) (send_channel_establishment_config t r2)"
    unfolding send_channel_establishment_config_def by (rule fsm_result_enter)
  then have "fsm_result r (RRU_STATE_CONN_SETUP_SENT, need_reset r, [2]) (send_channel_establishment_config t r2)"
    using l same_link_trans by (auto simp: fsm_result_def split: prod.splits)
  then show ?thesis using r2 by (simp add: process_channel_establishment_req_def Let_def)
qed

lemma est_resp_fsm:
  assumes "rd16 b 15 = 21"
  shows "fsm_result r (if need_reset r then (RRU_STATE_CONN_SETUP_ACK, False, [141])
      else (RRU_STATE_WAIT_CELL_CONFIG_RESP, False, [101])) (process_channel_establishment_resp r b)"
proof -
  let ?r1 = "r\<lparr>r_state := RRU_STATE_CONN_SETUP_ACK, r_timeout := 0\<rparr>"
  show ?thesis
    using fsm_result_send [of ?r1 141 "[IE_1301 0]"] fsm_result_enter [of ?r1 RRU_STATE_WAIT_CELL_CONFIG_RESP 101 "[IE_901 0]"] assms
    by (auto simp: process_channel_establishment_resp_def Let_def send_rru_reset_req_def send_delay_measure_def
        fsm_result_def split: prod.splits)
qed

lemma delay_fsm:
  "rd16 b 15 = 911 \<Longrightarrow> fsm_result r (RRU_STATE_WAIT_CELL_CONFIG_RESP, need_reset r, [103]) (process_delay_measure_resp r b)"
  "rd16 b 15 = 931 \<Longrightarrow> fsm_result r (RRU_STATE_WAIT_PARAMS_CONFIG_RESP, need_reset r, [61]) (process_delay_configuration_resp rf r b)"
  using fsm_result_enter [of "r\<lparr>r_state := RRU_STATE_CONN_SETUP_ACK, r_timeout := 0\<rparr>"]
    fsm_result_enter [of "r\<lparr>r_timeout := 0\<rparr>"]
  by (simp_all add: process_delay_measure_resp_def process_delay_configuration_resp_def
      send_delay_configuration_def send_parameter_configuration_def)

lemma idle_fsm:
  "fsm_result r (r_state r, need_reset r, []) (r, [])"
  "fsm_result r (r_state r, need_reset r, []) (process_rru_reset_event r)"
  "fsm_result r (r_state r, need_reset r, []) (process_parameter_configuration_resp r)"
  "fsm_result r (RRU_STATE_READY, need_reset r, []) (process_cell_configuration_resp r)"
  "fsm_result r (RRU_STATE_WAIT_CELL_CLEAR_RESP, need_reset r, [193]) (process_rru_init_calibration_report r)"
  "fsm_result r (r_state r, need_reset r, [181]) (process_rru_heartbeat r)"
proof -
  show "fsm_result r (RRU_STATE_WAIT_CELL_CLEAR_RESP, need_reset r, [193]) (process_rru_init_calibration_report r)"
    unfolding process_rru_init_calibration_report_def send_cell_clear_tdd_def by (rule fsm_result_enter)
  show "fsm_result r (r_state r, need_reset r, [181]) (process_rru_heartbeat r)"
    using fsm_result_send [of r 181 "[]"]
    by (simp add: process_rru_heartbeat_def send_bbu_heartbeat_def fsm_result_def split: prod.splits)
qed (simp_all add: fsm_result_def msg_nos_def process_rru_reset_event_def process_parameter_configuration_resp_def
    process_cell_configuration_resp_def)

lemma cell_clear_fsm:
  "r_cfg r = None \<Longrightarrow> process_cell_clear_resp rf r = Inl Null_cfg"
  "r_cfg r = Some c \<Longrightarrow> \<exists>out. process_cell_clear_resp rf r = Inr out \<and>
     fsm_result r (RRU_STATE_WAIT_CELL_CONFIG_RESP, need_reset r, [193]) out"
  using fsm_result_enter [of r RRU_STATE_WAIT_CELL_CONFIG_RESP 193]
  by (simp_all add: process_cell_clear_resp_def send_cell_configuration_tdd_def)


lemma wrong_element_ignored:
  "rd16 b 15 \<noteq> 21 \<Longrightarrow> process_channel_establishment_resp r b = (r, [])"
  "rd16 b 15 \<noteq> 911 \<Longrightarrow> process_delay_measure_resp r b = (r, [])"
  "rd16 b 15 \<noteq> 931 \<Longrightarrow> process_delay_configuration_resp rf r b = (r, [])"
  by (simp_all add: process_channel_establishment_resp_def process_delay_measure_resp_def
      process_delay_configuration_resp_def)

lemma proper_msg_long:
  assumes "proper_msg b len"
  shows "\<not> (word_of_int len :: u32) < 15"
proof -
  have "uint (word_of_int len :: u32) = len"
    using assms unfolding proper_msg_def by (simp only: uint_word_of_int) simp
  then show ?thesis using assms by (simp add: proper_msg_def word_less_def)
qed

lemma process_msg_fsm:
  assumes "proper_msg b len"
  shows "case ir_fsm (classify b) (fsm_view r) of
      None \<Rightarrow> process_rru_message t rf r b len = Some (Inl Null_cfg)
    | Some res \<Rightarrow> \<exists>out. process_rru_message t rf r b len = Some (Inr out) \<and> fsm_result r res out"
proof -
  let ?no = "h_msg_no (read_header b)"
  note L = proper_msg_long [OF assms]
  consider (req) "?no = 1" | (resp) "?no = 3" | (cell) "?no = 194" | (meas) "?no = 102" | (conf) "?no = 104"
    | (calib) "?no = 71 \<or> ?no = 221" | (oth) "?no \<notin> {1, 3, 194, 102, 104, 71, 221}" by auto
  then show ?thesis
  proof cases
    case req
    then show ?thesis using est_req_fsm [OF assms req, of t r] L
      by (simp add: process_rru_message_def classify_def fsm_view_def)
  next
    case resp
    then show ?thesis using est_resp_fsm [of b r] idle_fsm(1) [of r] L
      by (cases "rd16 b 15 = 21") (simp_all add: process_rru_message_def classify_def fsm_view_def wrong_element_ignored)
  next
    case cell
    then show ?thesis using cell_clear_fsm [of r] idle_fsm(4) [of r] L
      by (cases "r_cfg r") (auto simp: process_rru_message_def classify_def fsm_view_def)
  next
    case meas
    then show ?thesis using delay_fsm(1) [of b r] idle_fsm(1) [of r] L
      by (cases "rd16 b 15 = 911") (simp_all add: process_rru_message_def classify_def fsm_view_def wrong_element_ignored)
  next
    case conf
    then show ?thesis using delay_fsm(2) [of b r rf] idle_fsm(1) [of r] L
      by (cases "rd16 b 15 = 931") (simp_all add: process_rru_message_def classify_def fsm_view_def wrong_element_ignored)
  next
    case calib
    then have c: "classify b = In_calib" by (auto simp: classify_def)
    have "process_rru_message t rf r b len = Some (Inr (if r_state r \<noteq> RRU_STATE_READY
        then process_rru_init_calibration_report r else (r, [])))"
      using calib L by (elim disjE) (simp_all add: process_rru_message_def)
    then show ?thesis using idle_fsm(1,5) [of r] c by (cases "r_state r = RRU_STATE_READY") (simp_all add: fsm_view_def)
  next
    case oth
    then show ?thesis using idle_fsm(1,2,3,6) [of r] L
      by (auto simp: process_rru_message_def classify_def fsm_view_def Let_def)
  qed
qed

text \<open>C3: The message handlers refine the protocol state machine: on every properly received
  message, in every state, the unit's next state, its pending reset flag and the numbers of
  the messages sent are the machine's, the link data of the unit is untouched, and the only
  fault is the missing configuration the machine also has.\<close>

theorem rru_handlers_refine_fsm:
  assumes "proper_msg b len"
  shows "case ir_fsm (classify b) (r_state r, need_reset r, r_cfg r \<noteq> None) of
      None \<Rightarrow> process_rru_message t rf r b len = Some (Inl Null_cfg)
    | Some (s, nr, nos) \<Rightarrow> \<exists>r' ms. process_rru_message t rf r b len = Some (Inr (r', ms)) \<and>
        r_state r' = s \<and> need_reset r' = nr \<and> msg_nos ms = nos \<and> same_link r r'"
  using process_msg_fsm [OF assms, where r = r and t = t and rf = rf]
  by (auto simp: fsm_view_def fsm_result_def split: option.splits prod.splits)

lemma proper_bare_msg: "no \<noteq> 1 \<Longrightarrow> length x \<le> 100 \<Longrightarrow> proper_msg (recv_buf (bare_msg no @ x)) (15 + int (length x))"
  by (simp add: proper_msg_def)

lemma rru_handlers_refine_fsm_witness:
  "\<exists>r' ms. process_rru_message sample_tm sample_rf sample_rru (recv_buf (bare_msg 3 @ be16 21)) 17 = Some (Inr (r', ms)) \<and>
     r_state r' = RRU_STATE_CONN_SETUP_ACK \<and> \<not> need_reset r' \<and> msg_nos ms = [141]"
proof -
  have p: "proper_msg (recv_buf (bare_msg 3 @ be16 21)) 17" using proper_bare_msg [of 3 "be16 21"] by simp
  have c: "classify (recv_buf (bare_msg 3 @ be16 21)) = In_est_resp"
    using rd16_after_header [of 3 21 "[]"] by (simp add: classify_def)
  show ?thesis
    using rru_handlers_refine_fsm [OF p, where r = sample_rru and t = sample_tm and rf = sample_rf]
    by (auto simp: c sample_rru_def)
qed


section \<open>Bringing a unit up\<close>

text \<open>A sequence of reads on the socket of unit \<open>i\<close>, served by the manager thread.\<close>

fun mgr_feed :: "tm \<Rightarrow> rf_config \<Rightarrow> nat \<Rightarrow> (u8 list \<times> int) list \<Rightarrow> rru_mgr \<Rightarrow> rru_mgr rru_result option" where
  "mgr_feed t rf i [] m = Some (Inr m)"
| "mgr_feed t rf i ((b, len) # xs) m =
     (case mgr_input t rf i b len m of
        Some (Inr m') \<Rightarrow> mgr_feed t rf i xs m'
      | e \<Rightarrow> e)"

fun fsm_run :: "ir_input list \<Rightarrow> rru_state \<times> bool \<times> bool \<Rightarrow> (rru_state \<times> bool \<times> u32 list) option" where
  "fsm_run [] (s, nr, c) = Some (s, nr, [])"
| "fsm_run (x # xs) (s, nr, c) =
     (case ir_fsm x (s, nr, c) of
        None \<Rightarrow> None
      | Some (s', nr', nos) \<Rightarrow> map_option (\<lambda>(s'', nr'', nos'). (s'', nr'', nos @ nos')) (fsm_run xs (s', nr', c)))"

lemma ir_fsm_connected:
  "ir_fsm x (s, nr, c) = Some (s', nr', nos) \<Longrightarrow> s \<noteq> RRU_STATE_NONE \<Longrightarrow> s' \<noteq> RRU_STATE_NONE"
  by (cases x) (auto split: if_splits)

lemma msg_nos_append [simp]: "msg_nos (a @ b) = msg_nos a @ msg_nos b"
  by (simp add: msg_nos_def)

lemma mgr_feed_refines:
  assumes "\<forall>(b, len) \<in> set xs. proper_msg b len" "i < length (rrus m)" "r_state (rrus m ! i) \<noteq> RRU_STATE_NONE"
    "fsm_run (map (\<lambda>p. classify (fst p)) xs) (fsm_view (rrus m ! i)) = Some (s, nr, nos)"
  shows "\<exists>r' ms. mgr_feed t rf i xs m = Some (Inr (m\<lparr>rrus := (rrus m)[i := r'],
      outbox := outbox m @ map (Pair (r_fd (rrus m ! i))) ms\<rparr>)) \<and>
    r_state r' = s \<and> need_reset r' = nr \<and> msg_nos ms = nos \<and> same_link (rrus m ! i) r'"
  using assms
proof (induction xs arbitrary: m nos)
  case Nil
  then show ?case by (intro exI [of _ "rrus m ! i"] exI [of _ "[]"]) (auto simp: fsm_view_def msg_nos_def)
next
  case (Cons x xs)
  obtain b len where x: "x = (b, len)" by (cases x)
  let ?r = "rrus m ! i"
  obtain s1 nr1 nos1 nos2 where f: "ir_fsm (classify b) (fsm_view ?r) = Some (s1, nr1, nos1)"
      and g: "fsm_run (map (\<lambda>p. classify (fst p)) xs) (s1, nr1, r_cfg ?r \<noteq> None) = Some (s, nr, nos2)" and n: "nos = nos1 @ nos2"
    using Cons.prems(4) x by (auto simp: fsm_view_def comp_def split: option.splits)
  have p: "proper_msg b len" using Cons.prems(1) x by auto
  obtain r1 ms1 where r1: "process_rru_message t rf ?r b len = Some (Inr (r1, ms1))"
      "r_state r1 = s1" "need_reset r1 = nr1" "msg_nos ms1 = nos1" "same_link ?r r1"
    using process_msg_fsm [OF p, where r = ?r and t = t and rf = rf] f by (auto simp: fsm_result_def)
  let ?m1 = "m\<lparr>rrus := (rrus m)[i := r1\<lparr>r_timeout := 0\<rparr>], outbox := outbox m @ map (Pair (r_fd ?r)) ms1\<rparr>"
  have step: "mgr_input t rf i b len m = Some (Inr ?m1)"
    using r1(1) Cons.prems(3) p by (simp add: mgr_input_def Let_def proper_msg_def)
  have m1: "rrus ?m1 ! i = r1\<lparr>r_timeout := 0\<rparr>" "i < length (rrus ?m1)" using Cons.prems(2) by simp_all
  have v: "fsm_view (rrus ?m1 ! i) = (s1, nr1, r_cfg ?r \<noteq> None)"
    unfolding m1(1) using r1 by (simp add: fsm_view_def same_link_def)
  have ne: "s1 \<noteq> RRU_STATE_NONE" using ir_fsm_connected f Cons.prems(3) unfolding fsm_view_def by blast
  obtain r' ms where ih: "mgr_feed t rf i xs ?m1 = Some (Inr (?m1\<lparr>rrus := (rrus ?m1)[i := r'],
      outbox := outbox ?m1 @ map (Pair (r_fd (rrus ?m1 ! i))) ms\<rparr>))"
      "r_state r' = s" "need_reset r' = nr" "msg_nos ms = nos2" "same_link (rrus ?m1 ! i) r'"
    using Cons.IH [of ?m1 nos2] Cons.prems(1) m1 v ne g r1(2) by auto
  have fd: "r_fd (rrus ?m1 ! i) = r_fd ?r" unfolding m1(1) using r1(5) by (simp add: same_link_def)
  have "mgr_feed t rf i (x # xs) m = Some (Inr (m\<lparr>rrus := (rrus m)[i := r'],
      outbox := outbox m @ map (Pair (r_fd ?r)) (ms1 @ ms)\<rparr>))"
    using step ih(1) x by (simp only: mgr_feed.simps fd) simp
  moreover have "same_link ?r r'" using ih(5) r1(5) unfolding m1(1) by (auto simp: same_link_def)
  ultimately show ?case using ih(2-4) r1(4) n by (intro exI [of _ r'] exI [of _ "ms1 @ ms"]) simp
qed

text \<open>Messages the protocol does not wait for: heartbeats, alarms, parameter responses, unknown ones.\<close>

definition background :: "ir_input \<Rightarrow> bool" where
  "background x = (x \<in> {In_heartbeat, In_alarm, In_params_resp, In_other})"

lemma ir_fsm_background: "background x \<Longrightarrow> \<exists>nos. ir_fsm x (s, nr, c) = Some (s, nr, nos) \<and> set nos \<subseteq> {181}"
  by (auto simp: background_def)

lemma ir_fsm_no_heartbeat: "\<not> background x \<Longrightarrow> ir_fsm x (s, nr, c) = Some (s', nr', nos) \<Longrightarrow> 181 \<notin> set nos"
  by (cases x) (auto simp: background_def split: if_splits)

lemma fsm_run_background:
  "fsm_run (filter (\<lambda>x. \<not> background x) xs) (s, nr, c) = Some (s', nr', nos) \<Longrightarrow>
   \<exists>nos'. fsm_run xs (s, nr, c) = Some (s', nr', nos') \<and> filter (\<lambda>n. n \<noteq> 181) nos' = filter (\<lambda>n. n \<noteq> 181) nos"
proof (induction xs arbitrary: s nr nos)
  case (Cons x xs)
  show ?case
  proof (cases "background x")
    case True
    then obtain n where "ir_fsm x (s, nr, c) = Some (s, nr, n)" "set n \<subseteq> {181}" using ir_fsm_background by blast
    then show ?thesis using Cons.IH [of s nr nos] Cons.prems True by (auto simp: filter_empty_conv)
  next
    case False
    then show ?thesis using Cons.prems Cons.IH by (force split: option.splits)
  qed
qed auto

definition bring_up :: "ir_input list" where
  "bring_up = [In_est_req, In_est_resp, In_delay_meas, In_delay_conf, In_calib, In_cell_resp, In_cell_resp]"

text \<open>C14: A connected unit with a configuration and no pending reset that answers every
  request of the protocol, with heartbeats, alarms and other messages anywhere in between,
  ends in the ready state. The manager has then sent it the channel configuration, the
  delay request, the delay and parameter settings, the cell clear and the cell
  configuration, in this order, and the unit counts as connected.\<close>

theorem rru_bring_up:
  assumes "i < length (rrus m)" "r_state (rrus m ! i) = RRU_STATE_CONNECTED" "\<not> need_reset (rrus m ! i)"
    "r_cfg (rrus m ! i) = Some c" "\<forall>(b, len) \<in> set xs. proper_msg b len"
    "filter (\<lambda>x. \<not> background x) (map (\<lambda>p. classify (fst p)) xs) = bring_up"
  shows "\<exists>m' ms. mgr_feed t rf i xs m = Some (Inr m') \<and> r_state (rrus m' ! i) = RRU_STATE_READY \<and>
    rru_connected (rrus m') \<and> outbox m' = outbox m @ map (Pair (r_fd (rrus m ! i))) ms \<and>
    filter (\<lambda>n. n \<noteq> 181) (msg_nos ms) = [2, 101, 103, 61, 193, 193]"
proof -
  have "fsm_run bring_up (RRU_STATE_CONNECTED, False, True) = Some (RRU_STATE_READY, False, [2, 101, 103, 61, 193, 193])"
    by (simp add: bring_up_def)
  then obtain nos where nos: "fsm_run (map (\<lambda>p. classify (fst p)) xs) (RRU_STATE_CONNECTED, False, True) = Some (RRU_STATE_READY, False, nos)"
      "filter (\<lambda>n. n \<noteq> 181) nos = [2, 101, 103, 61, 193, 193]"
    using fsm_run_background [of "map (\<lambda>p. classify (fst p)) xs"] assms(6) by fastforce
  have v: "fsm_view (rrus m ! i) = (RRU_STATE_CONNECTED, False, True)" using assms(2-4) by (simp add: fsm_view_def)
  obtain r' ms where r: "mgr_feed t rf i xs m = Some (Inr (m\<lparr>rrus := (rrus m)[i := r'],
      outbox := outbox m @ map (Pair (r_fd (rrus m ! i))) ms\<rparr>))" "r_state r' = RRU_STATE_READY" "msg_nos ms = nos"
    using mgr_feed_refines [OF assms(5,1), of RRU_STATE_READY False nos t rf] nos(1) v assms(2) by auto
  have "rru_connected ((rrus m)[i := r'])"
    using r(2) assms(1) by (auto simp: rru_connected_def list_ex_iff set_update_memI intro!: bexI [of _ r'])
  then show ?thesis using r nos(2) assms(1) by auto
qed


definition sample_mgr :: rru_mgr where
  "sample_mgr = mgr_init\<lparr>rrus := (rrus mgr_init)[0 := sample_rru\<lparr>need_reset := False\<rparr>]\<rparr>"

definition sample_session :: "(u8 list \<times> int) list" where
  "sample_session = map (\<lambda>(no, ie). (recv_buf (bare_msg no @ be16 ie @ be16 4), 19))
     [(1, 2), (3, 21), (171, 0), (102, 911), (104, 931), (62, 0), (71, 0), (194, 0), (171, 0), (194, 0)]"

lemma classify_sample [simp]:
  "classify (recv_buf (bare_msg no @ be16 ie @ x)) =
     (if no = 1 then In_est_req
      else if no = 3 \<and> ie = 21 then In_est_resp
      else if no = 62 then In_params_resp
      else if no = 194 then In_cell_resp
      else if no = 102 \<and> ie = 911 then In_delay_meas
      else if no = 104 \<and> ie = 931 then In_delay_conf
      else if no = 171 then In_heartbeat
      else if no = 111 then In_alarm
      else if no = 71 \<or> no = 221 then In_calib
      else In_other)"
  by (simp add: classify_def)

lemma proper_sample: "proper_msg (recv_buf (bare_msg no @ be16 ie @ be16 4)) 19"
proof -
  have "take (19 - 15) (drop 15 (recv_buf (bare_msg no @ be16 ie @ be16 4))) = be16 ie @ be16 4"
    by (simp add: recv_buf_def)
  then have "split_ies (take (19 - 15) (drop 15 (recv_buf (bare_msg no @ be16 ie @ be16 4)))) \<noteq> None"
    by (simp add: split_ies.simps be16_def rd16_def of_be16_def)
  then show ?thesis by (auto simp: proper_msg_def)
qed

lemma rru_bring_up_witness:
  "\<exists>m' ms. mgr_feed sample_tm sample_rf 0 sample_session sample_mgr = Some (Inr m') \<and>
     r_state (rrus m' ! 0) = RRU_STATE_READY \<and> outbox m' = map (Pair 7) ms \<and>
     filter (\<lambda>n. n \<noteq> 181) (msg_nos ms) = [2, 101, 103, 61, 193, 193]"
proof -
  have p: "\<forall>(b, len) \<in> set sample_session. proper_msg b len"
    by (simp add: sample_session_def proper_sample)
  have f: "filter (\<lambda>x. \<not> background x) (map (\<lambda>p. classify (fst p)) sample_session) = bring_up"
    by (simp add: sample_session_def background_def bring_up_def)
  have l: "rrus sample_mgr ! 0 = sample_rru\<lparr>need_reset := False\<rparr>" "0 < length (rrus sample_mgr)" "outbox sample_mgr = []"
    by (simp_all add: sample_mgr_def mgr_init_def)
  show ?thesis
    using rru_bring_up [OF l(2) _ _ _ p f, of sample_cfg sample_tm sample_rf] l(3)
    by (auto simp: l(1) sample_rru_def)
qed

end
