(* ===== verification/RRU_Table.thy ===== *)
theory RRU_Table
  imports RRU_Protocol
begin

text \<open>
  The manager thread as a step relation over its events: poll timeouts, configuration
  requests, accepted connections, input from a unit, and a reconfiguration requested by
  the upper layer. Invariants of the table of units over all reachable states, the outcome
  of a configuration request, and the inactivity timeout.
\<close>

section \<open>Events\<close>

datatype mgr_event =
    Ev_tick
  | Ev_cfg u8 u8 "u8 list"
  | Ev_accept int u32
  | Ev_input nat "u8 list" int
  | Ev_reconfigure

definition mgr_step :: "tm \<Rightarrow> rf_config \<Rightarrow> rru_cfg list \<Rightarrow> mgr_event \<Rightarrow> rru_mgr \<Rightarrow> rru_mgr rru_result option" where
  "mgr_step t rf cfgs e m =
     (case e of
        Ev_tick \<Rightarrow> Some (Inr (mgr_tick rf m))
      | Ev_cfg port rid mac \<Rightarrow> Some (mgr_cfg_request cfgs port rid mac m)
      | Ev_accept sock ip \<Rightarrow> Some (Inr (mgr_accept sock ip m))
      | Ev_input i buf len \<Rightarrow> (if i < length (rrus m) then mgr_input t rf i buf len m else Some (Inr m))
      | Ev_reconfigure \<Rightarrow> Some (Inr (m\<lparr>rrus := rrus_reconfigure (rrus m)\<rparr>)))"

inductive mgr_reach :: "rf_config \<Rightarrow> rru_cfg list \<Rightarrow> rru_mgr \<Rightarrow> bool" for rf cfgs where
  reach_init: "mgr_reach rf cfgs mgr_init"
| reach_step: "mgr_reach rf cfgs m \<Longrightarrow> mgr_step t rf cfgs e m = Some (Inr m') \<Longrightarrow> mgr_reach rf cfgs m'"

section \<open>Searching the table\<close>

lemma find_index_Some: "find_index P xs = Some i \<Longrightarrow> i < length xs \<and> P (xs ! i) \<and> (\<forall>j < i. \<not> P (xs ! j))"
proof (induction xs arbitrary: i)
  case (Cons x xs)
  show ?case
  proof (cases "P x")
    case False
    then obtain k where "find_index P xs = Some k" "i = Suc k" using Cons.prems by auto
    then show ?thesis using Cons.IH [of k] False by (auto simp: less_Suc_eq_0_disj)
  qed (use Cons.prems in auto)
qed simp

lemma find_index_None: "find_index P xs = None \<longleftrightarrow> (\<forall>x \<in> set xs. \<not> P x)"
  by (induction xs) auto

section \<open>The table invariant\<close>

abbreviation (input) "no_mac \<equiv> (replicate 6 0 :: u8 list)"

definition macs_ok :: "rru list \<Rightarrow> bool" where
  "macs_ok rs = (\<forall>i j. i < length rs \<longrightarrow> j < length rs \<longrightarrow> i \<noteq> j \<longrightarrow> r_mac (rs ! i) \<noteq> no_mac \<longrightarrow>
     r_mac (rs ! i) \<noteq> r_mac (rs ! j))"

definition mgr_ok :: "rru_mgr \<Rightarrow> bool" where
  "mgr_ok m = (length (rrus m) = 10 \<and> rru_count m \<le> 0xfe - 0x41 \<and> macs_ok (rrus m))"

lemma macs_ok_map: "macs_ok rs \<Longrightarrow> map r_mac rs' = map r_mac rs \<Longrightarrow> macs_ok rs'"
proof -
  assume a: "macs_ok rs" "map r_mac rs' = map r_mac rs"
  have l: "length rs' = length rs" using arg_cong [OF a(2), of length] by simp
  have "r_mac (rs' ! i) = r_mac (rs ! i)" if "i < length rs" for i
    using arg_cong [OF a(2), of "\<lambda>x. x ! i"] that l by simp
  then show ?thesis using a(1) l by (simp add: macs_ok_def)
qed

lemma map_mac_update: "i < length rs \<Longrightarrow> r_mac r' = r_mac (rs ! i) \<Longrightarrow> map r_mac (rs[i := r']) = map r_mac rs"
  by (metis list_update_id map_update nth_map)

lemma macs_ok_new:
  assumes "macs_ok rs" "\<forall>r \<in> set rs. r_mac r \<noteq> mac" "i < length rs" "r_mac r' = mac"
  shows "macs_ok (rs[i := r'])"
  using assms unfolding macs_ok_def by (auto simp: nth_list_update)

lemma tick_mac [simp]: "r_mac (fst (tick_params rf r)) = r_mac r" "r_mac (fst (tick_timeout r)) = r_mac r"
  by (simp_all add: tick_params_def tick_timeout_def send_parameter_configuration_def ir_send_enter_def ir_send_def)

lemma mgr_tick_ok: "mgr_ok m \<Longrightarrow> mgr_ok (mgr_tick rf m)"
  unfolding mgr_ok_def by (auto simp: mgr_tick_def Let_def comp_def intro: macs_ok_map)

lemma reconfigure_ok: "mgr_ok m \<Longrightarrow> mgr_ok (m\<lparr>rrus := rrus_reconfigure (rrus m)\<rparr>)"
  unfolding mgr_ok_def by (auto simp: rrus_reconfigure_def comp_def intro: macs_ok_map)

lemma accept_ok: "mgr_ok m \<Longrightarrow> mgr_ok (mgr_accept sock ip m)"
  using find_index_Some [of "\<lambda>r. r_ip r = ip" "rrus m"] unfolding mgr_ok_def
  by (auto simp: mgr_accept_def find_rru_by_ip_def split: option.splits intro!: macs_ok_map [of "rrus m"] map_mac_update)


lemma process_mac:
  assumes "process_rru_message t rf r buf len = Some (Inr (r', ms))"
  shows "r_mac r' = r_mac r"
proof -
  have est: "r_mac r' = r_mac r" if "process_channel_establishment_req t r buf len = Some (Inr (r', ms))"
    using that ie1_onlyD(5) [OF parse_ies_frame]
    by (auto simp: process_channel_establishment_req_def Let_def send_defs ir_send_enter_def ir_send_def
        split: option.splits sum.splits)
  show ?thesis
    using assms est
    by (auto simp: process_rru_message_def Let_def process_channel_establishment_resp_def
        process_parameter_configuration_resp_def process_cell_configuration_resp_def process_delay_measure_resp_def
        process_delay_configuration_resp_def process_rru_heartbeat_def process_rru_reset_event_def
        process_cell_clear_resp_def send_cell_configuration_tdd_def send_defs send_rru_reset_req_def
        send_bbu_heartbeat_def ir_send_enter_def ir_send_def split: if_splits option.splits)
qed

lemma input_ok:
  assumes "mgr_ok m" "i < length (rrus m)" "mgr_input t rf i buf len m = Some (Inr m')"
  shows "mgr_ok m'"
  using assms process_mac [of t rf "rrus m ! i" buf len] unfolding mgr_ok_def
  by (auto simp: mgr_input_def Let_def split: if_splits option.splits sum.splits
      intro!: macs_ok_map [of "rrus m"] map_mac_update)

text \<open>A slot for the requesting unit: its own, or the first free one.\<close>

lemma request_slot:
  assumes "(case find_rru_by_mac mac rs of Some i \<Rightarrow> Some (i, rs) | None \<Rightarrow> add_rru_by_mac mac rs) = Some (i, rs')"
  shows "i < length rs" "length rs' = length rs" "r_mac (rs' ! i) = mac" "\<forall>j < length rs. j \<noteq> i \<longrightarrow> rs' ! j = rs ! j"
    "macs_ok rs \<Longrightarrow> macs_ok rs'"
proof -
  consider (old) "find_rru_by_mac mac rs = Some i" "rs' = rs"
    | (new) "find_rru_by_mac mac rs = None" "find_index (\<lambda>r. r_state r = RRU_STATE_NONE) rs = Some i"
        "rs' = rs[i := (rs ! i)\<lparr>r_mac := mac, r_timeout := 0, need_reset := True\<rparr>]"
    using assms by (auto simp: add_rru_by_mac_def split: option.splits)
  then have "i < length rs \<and> length rs' = length rs \<and> r_mac (rs' ! i) = mac \<and>
      (\<forall>j < length rs. j \<noteq> i \<longrightarrow> rs' ! j = rs ! j) \<and> (macs_ok rs \<longrightarrow> macs_ok rs')"
  proof cases
    case old
    then show ?thesis using find_index_Some [OF old(1) [unfolded find_rru_by_mac_def]] by simp
  next
    case new
    have "\<forall>r \<in> set rs. r_mac r \<noteq> mac" using new(1) by (simp add: find_rru_by_mac_def find_index_None)
    then show ?thesis using find_index_Some [OF new(2)] new(3) macs_ok_new [of rs mac i] by simp
  qed
  then show "i < length rs" "length rs' = length rs" "r_mac (rs' ! i) = mac"
    "\<forall>j < length rs. j \<noteq> i \<longrightarrow> rs' ! j = rs ! j" "macs_ok rs \<Longrightarrow> macs_ok rs'" by simp_all
qed

lemma assign_ip_facts:
  assumes "assign_ip cfgs port count r = (r', count')" "count \<le> 0xfe - 0x41"
  shows "r_mac r' = r_mac r" "r_state r' = RRU_STATE_INIT" "r_timeout r' = 0" "count' \<le> 0xfe - 0x41"
    "r_ip r' \<noteq> 0"
    "(unat port < length cfgs \<and> cfg_ip (cfgs ! unat port) = Some (r_ip r') \<and> r_cfg r' = Some (cfgs ! unat port)) \<or>
     (0xc0a81e41 \<le> r_ip r' \<and> r_ip r' \<le> 0xc0a81efe)"
proof -
  have a: "(count AND 0xff) = count"
  proof -
    have "unat count < 2 ^ 8" using assms(2) by unat_arith
    then have "unat (take_bit 8 count) = unat count" by (simp only: unsigned_take_bit_eq take_bit_nat_eq_self)
    then have "take_bit 8 count = count" by (simp only: word_unat_eq_iff)
    then show ?thesis by (simp add: take_bit_eq_mask mask_eq_exp_minus_1)
  qed
  have u: "unat count \<le> 189" using assms(2) by (simp add: word_le_nat_alt)
  then have s: "unat (0xc0a81e41 + count) = 0xc0a81e41 + unat count"
    by (simp add: unat_word_ariths(1))
  have b: "0xc0a81e41 \<le> 0xc0a81e41 + count" "0xc0a81e41 + count \<le> 0xc0a81efe"
    using u by (simp_all add: word_le_nat_alt s)
  have "unat (0xc0a81e41 + count) \<noteq> 0" by (simp add: s)
  then have b0: "0xc0a81e41 + count \<noteq> 0" by (metis unat_0)
  have c: "count + 1 \<le> 0xfe - 0x41 \<or> count + 1 > 0xfe - 0x41" by auto
  show "r_mac r' = r_mac r" "r_state r' = RRU_STATE_INIT" "r_timeout r' = 0" "count' \<le> 0xfe - 0x41" "r_ip r' \<noteq> 0"
    "(unat port < length cfgs \<and> cfg_ip (cfgs ! unat port) = Some (r_ip r') \<and> r_cfg r' = Some (cfgs ! unat port)) \<or>
     (0xc0a81e41 \<le> r_ip r' \<and> r_ip r' \<le> 0xc0a81efe)"
    using assms a b b0 c by (auto simp: assign_ip_def Let_def split: if_splits option.splits)
qed


lemma cfg_request_ok:
  assumes "mgr_ok m" "mgr_cfg_request cfgs port rid mac m = Inr m'"
  shows "mgr_ok m'"
proof -
  obtain i rs r cnt where sl: "(case find_rru_by_mac mac (rrus m) of Some i \<Rightarrow> Some (i, rrus m)
        | None \<Rightarrow> add_rru_by_mac mac (rrus m)) = Some (i, rs)"
      and a: "assign_ip cfgs port (rru_count m) (rs ! i) = (r, cnt)" and m': "rrus m' = rs[i := r]" "rru_count m' = cnt"
    using assms(2) by (auto simp: mgr_cfg_request_def split: option.splits prod.splits)
  note f = request_slot [OF sl] and g = assign_ip_facts [OF a]
  have c: "rru_count m \<le> 0xfe - 0x41" using assms(1) by (simp add: mgr_ok_def)
  have "macs_ok (rs[i := r])"
    by (rule macs_ok_map [OF f(5) map_mac_update]) (use assms(1) f g(1) [OF c] in \<open>auto simp: mgr_ok_def\<close>)
  then show ?thesis using assms(1) m' f(2) g(4) [OF c] by (simp add: mgr_ok_def)
qed

lemma mgr_init_ok: "mgr_ok mgr_init"
  by (simp add: mgr_ok_def mgr_init_def macs_ok_def blank_rru_def)

lemma mgr_reach_ok: "mgr_reach rf cfgs m \<Longrightarrow> mgr_ok m"
proof (induction rule: mgr_reach.induct)
  case (reach_step m t e m')
  then show ?case
    by (cases e) (auto simp: mgr_step_def mgr_tick_ok accept_ok reconfigure_ok split: if_splits
        intro: cfg_request_ok input_ok)
qed (rule mgr_init_ok)

text \<open>C29: In every state the manager thread can reach, the table has its ten entries, no
  hardware address other than the all-zero one is in two entries, and the counter behind
  the automatically assigned addresses stays at most 189, so that those addresses stay
  within 192.168.30.65 to 192.168.30.254.\<close>

theorem rru_table_invariant:
  assumes "mgr_reach rf cfgs m"
  shows "length (rrus m) = 10 \<and> rru_count m \<le> 189 \<and>
    (\<forall>i j. i < 10 \<and> j < 10 \<and> i \<noteq> j \<and> r_mac (rrus m ! i) \<noteq> no_mac \<longrightarrow> r_mac (rrus m ! i) \<noteq> r_mac (rrus m ! j)) \<and>
    0xc0a81e41 \<le> 0xc0a81e41 + rru_count m \<and> 0xc0a81e41 + rru_count m \<le> 0xc0a81efe"
proof -
  have ok: "mgr_ok m" by (rule mgr_reach_ok [OF assms])
  then have u: "unat (rru_count m) \<le> 189" by (simp add: mgr_ok_def word_le_nat_alt)
  then have "unat (0xc0a81e41 + rru_count m) = 0xc0a81e41 + unat (rru_count m)"
    by (simp add: unat_word_ariths(1))
  then show ?thesis using ok u by (auto simp: mgr_ok_def macs_ok_def word_le_nat_alt)
qed

lemma cfg_request_full_iff:
  "mgr_cfg_request cfgs port rid mac m = Inl Table_full \<longleftrightarrow>
     (\<forall>r \<in> set (rrus m). r_mac r \<noteq> mac \<and> r_state r \<noteq> RRU_STATE_NONE)"
  using find_index_None [of "\<lambda>r. r_mac r = mac" "rrus m"] find_index_None [of "\<lambda>r. r_state r = RRU_STATE_NONE" "rrus m"]
  by (auto simp: mgr_cfg_request_def find_rru_by_mac_def add_rru_by_mac_def split: option.splits prod.splits)

lemma cfg_request_on_init: "\<exists>m. mgr_cfg_request cfgs port rid mac mgr_init = Inr m"
proof (cases "mgr_cfg_request cfgs port rid mac mgr_init")
  case (Inl e)
  then have "e = Table_full" by (auto simp: mgr_cfg_request_def split: option.splits prod.splits)
  then show ?thesis using Inl by (simp add: cfg_request_full_iff mgr_init_def blank_rru_def)
qed simp

lemma rru_table_invariant_witness:
  "\<exists>m. mgr_step sample_tm sample_rf [sample_cfg] (Ev_cfg 0 3 [2, 0, 0, 0, 0, 1]) mgr_init = Some (Inr m) \<and>
     length (rrus m) = 10 \<and> rru_count m \<le> 189"
proof -
  obtain m where "mgr_cfg_request [sample_cfg] 0 3 [2, 0, 0, 0, 0, 1] mgr_init = Inr m"
    using cfg_request_on_init by blast
  then have s: "mgr_step sample_tm sample_rf [sample_cfg] (Ev_cfg 0 3 [2, 0, 0, 0, 0, 1]) mgr_init = Some (Inr m)"
    by (simp add: mgr_step_def)
  have "mgr_reach sample_rf [sample_cfg] m" by (rule reach_step [OF reach_init s])
  from rru_table_invariant [OF this] show ?thesis using s by blast
qed

section \<open>Configuration requests\<close>

text \<open>A configuration request from a hardware address the table does not know, while no
  entry is free, is a null pointer dereference; every other request is answered. The
  answer repeats port, unit id and hardware address and carries the address now stored for
  the unit, which is the configured one or one of the automatic range; the unit is in the
  initial state and no other entry changes.\<close>

lemma cfg_request_outcome:
  assumes "rru_count m \<le> 189"
  shows "(mgr_cfg_request cfgs port rid mac m = Inl Table_full \<longleftrightarrow>
      (\<forall>r \<in> set (rrus m). r_mac r \<noteq> mac \<and> r_state r \<noteq> RRU_STATE_NONE)) \<and>
    (\<forall>m'. mgr_cfg_request cfgs port rid mac m = Inr m' \<longrightarrow>
      (\<exists>i < length (rrus m). let r = rrus m' ! i in
         r_mac r = mac \<and> r_state r = RRU_STATE_INIT \<and> r_timeout r = 0 \<and>
         (unat port < length cfgs \<and> cfg_ip (cfgs ! unat port) = Some (r_ip r) \<or>
          0xc0a81e41 \<le> r_ip r \<and> r_ip r \<le> 0xc0a81efe) \<and>
         cfg_out m' = cfg_out m @ [[port, rid, next_bbu_id m] @ mac @ be32 (r_ip r) @ be32 0xc0a81e01 @ be32 0xffffff00] \<and>
         (\<forall>j < length (rrus m). j \<noteq> i \<longrightarrow> rrus m' ! j = rrus m ! j)))"
proof (intro conjI allI impI)
  show "mgr_cfg_request cfgs port rid mac m = Inl Table_full \<longleftrightarrow>
      (\<forall>r \<in> set (rrus m). r_mac r \<noteq> mac \<and> r_state r \<noteq> RRU_STATE_NONE)"
    by (rule cfg_request_full_iff)
next
  fix m' assume e: "mgr_cfg_request cfgs port rid mac m = Inr m'"
  obtain i rs r cnt where sl: "(case find_rru_by_mac mac (rrus m) of Some i \<Rightarrow> Some (i, rrus m)
        | None \<Rightarrow> add_rru_by_mac mac (rrus m)) = Some (i, rs)"
      and a: "assign_ip cfgs port (rru_count m) (rs ! i) = (r, cnt)" and m': "rrus m' = rs[i := r]"
        "cfg_out m' = cfg_out m @ [cfg_resp_bytes port rid (next_bbu_id m) mac (r_ip r)]"
    using e by (auto simp: mgr_cfg_request_def split: option.splits prod.splits)
  note f = request_slot [OF sl]
  have c: "rru_count m \<le> 0xfe - 0x41" using assms by simp
  note g = assign_ip_facts [OF a c]
  show "\<exists>i < length (rrus m). let r = rrus m' ! i in
         r_mac r = mac \<and> r_state r = RRU_STATE_INIT \<and> r_timeout r = 0 \<and>
         (unat port < length cfgs \<and> cfg_ip (cfgs ! unat port) = Some (r_ip r) \<or>
          0xc0a81e41 \<le> r_ip r \<and> r_ip r \<le> 0xc0a81efe) \<and>
         cfg_out m' = cfg_out m @ [[port, rid, next_bbu_id m] @ mac @ be32 (r_ip r) @ be32 0xc0a81e01 @ be32 0xffffff00] \<and>
         (\<forall>j < length (rrus m). j \<noteq> i \<longrightarrow> rrus m' ! j = rrus m ! j)"
    using f(1-4) g m' by (intro exI [of _ i]) (auto simp: Let_def cfg_resp_bytes_def)
qed


lemma cfg_request_outcome_witness:
  "\<exists>m' i. mgr_cfg_request [sample_cfg] 0 3 [2, 0, 0, 0, 0, 1] mgr_init = Inr m' \<and> r_mac (rrus m' ! i) = [2, 0, 0, 0, 0, 1] \<and>
     r_state (rrus m' ! i) = RRU_STATE_INIT \<and> length (cfg_out m') = 1"
proof -
  have c: "rru_count mgr_init \<le> 189" by (simp add: mgr_init_def)
  obtain m' where m': "mgr_cfg_request [sample_cfg] 0 3 [2, 0, 0, 0, 0, 1] mgr_init = Inr m'"
    using cfg_request_on_init by blast
  then show ?thesis
    using cfg_request_outcome [OF c, of "[sample_cfg]" 0 3 "[2, 0, 0, 0, 0, 1]"]
    by (auto simp: Let_def mgr_init_def)
qed

section \<open>Poll timeouts\<close>

lemma mgr_tick_nth:
  "i < length (rrus m) \<Longrightarrow> rrus (mgr_tick rf m) ! i = fst (tick_timeout (fst (tick_params rf (rrus m ! i))))"
  by (simp add: mgr_tick_def Let_def)

lemma mgr_tick_length [simp]: "length (rrus (mgr_tick rf m)) = length (rrus m)"
  by (simp add: mgr_tick_def Let_def)

lemma ticks_length [simp]: "length (rrus ((mgr_tick rf ^^ n) m)) = length (rrus m)"
  by (induction n) simp_all

lemma ticks_silent:
  assumes "i < length (rrus m)" "r_state (rrus m ! i) \<notin> {RRU_STATE_NONE, RRU_STATE_NEED_PARAMS_CONFIG}"
    "r_timeout (rrus m ! i) = 0" "n \<le> 11"
  shows "rrus ((mgr_tick rf ^^ n) m) ! i = (rrus m ! i)\<lparr>r_timeout := int n\<rparr>"
  using assms(4)
proof (induction n)
  case 0
  then show ?case using assms(3) by simp
next
  case (Suc n)
  then show ?case using assms(1,2)
    by (simp add: mgr_tick_nth tick_params_def tick_timeout_def)
qed

text \<open>A unit from which nothing is heard (and which is not waiting to be reconfigured)
  keeps its state through eleven idle poll periods and is dropped on the twelfth: its
  socket is closed, its entry becomes free, and a reset of the units is noted.\<close>

lemma silent_unit_dropped:
  assumes "i < length (rrus m)" "r_state (rrus m ! i) \<notin> {RRU_STATE_NONE, RRU_STATE_NEED_PARAMS_CONFIG}"
    "r_timeout (rrus m ! i) = 0"
  shows "(\<forall>n \<le> 11. r_state (rrus ((mgr_tick rf ^^ n) m) ! i) = r_state (rrus m ! i)) \<and>
    r_state (rrus ((mgr_tick rf ^^ 12) m) ! i) = RRU_STATE_NONE \<and>
    r_fd (rrus m ! i) \<in> set (closed ((mgr_tick rf ^^ 12) m)) \<and> rru_need_reset ((mgr_tick rf ^^ 12) m)"
proof -
  let ?m = "(mgr_tick rf ^^ 11) m"
  have r: "rrus ?m ! i = (rrus m ! i)\<lparr>r_timeout := 11\<rparr>" using ticks_silent [OF assms, of 11 rf] by simp
  have t: "tick_timeout (fst (tick_params rf (rrus ?m ! i))) = ((rrus m ! i)\<lparr>r_state := RRU_STATE_NONE, r_timeout := 0\<rparr>, True)"
    unfolding r using assms(2) by (simp add: tick_params_def tick_timeout_def)
  have i: "i < length (rrus ?m)" using assms(1) by simp
  have d: "r_fd (rrus m ! i) \<in> set (closed (mgr_tick rf ?m))" "rru_need_reset (mgr_tick rf ?m)"
    using t i by (auto simp: mgr_tick_def Let_def in_set_conv_nth intro!: bexI [of _ "rrus ?m ! i"])
  have "(mgr_tick rf ^^ 12) m = mgr_tick rf ?m" by (simp add: eval_nat_numeral)
  then show ?thesis
    using ticks_silent [OF assms, of _ rf] d mgr_tick_nth [OF i, of rf] t by simp
qed


lemma silent_unit_dropped_witness:
  "r_state (rrus ((mgr_tick sample_rf ^^ 12) sample_mgr) ! 0) = RRU_STATE_NONE \<and>
   7 \<in> set (closed ((mgr_tick sample_rf ^^ 12) sample_mgr))"
proof -
  have m: "rrus sample_mgr ! 0 = sample_rru\<lparr>need_reset := False\<rparr>" "0 < length (rrus sample_mgr)"
    by (simp_all add: sample_mgr_def mgr_init_def)
  show ?thesis
    using silent_unit_dropped [OF m(2), of sample_rf] by (simp add: m(1) sample_rru_def blank_rru_def)
qed

lemma ticks_reconfigure:
  assumes "i < length (rrus m)" "r_state (rrus m ! i) = RRU_STATE_NEED_PARAMS_CONFIG" "r_timer (rrus m ! i) = 0"
    "0 \<le> r_timeout (rrus m ! i)" "r_timeout (rrus m ! i) \<le> 1" "n \<le> 10"
  shows "rrus ((mgr_tick rf ^^ n) m) ! i =
    (rrus m ! i)\<lparr>r_timer := int n, r_timeout := r_timeout (rrus m ! i) + int n\<rparr>"
  using assms(6)
proof (induction n)
  case 0
  then show ?case using assms(3) by simp
next
  case (Suc n)
  then show ?case using assms(1-5)
    by (simp add: mgr_tick_nth tick_params_def tick_timeout_def)
qed

text \<open>When the upper layer asks for a reconfiguration, a ready unit heard of in the last
  poll period is sent the radio parameters again on the eleventh idle poll period, not
  earlier, before the inactivity timeout can drop it, and then waits for the calibration
  report; units that are not ready are not touched by the request.\<close>

lemma reconfigure_resends_parameters:
  assumes "i < length (rrus m)" "r_state (rrus m ! i) = RRU_STATE_READY"
    "0 \<le> r_timeout (rrus m ! i)" "r_timeout (rrus m ! i) \<le> 1"
  shows "let m1 = m\<lparr>rrus := rrus_reconfigure (rrus m)\<rparr>; m10 = (mgr_tick rf ^^ 10) m1; m11 = mgr_tick rf m10 in
    r_state (rrus m10 ! i) = RRU_STATE_NEED_PARAMS_CONFIG \<and> r_state (rrus m11 ! i) = RRU_STATE_WAIT \<and>
    (\<exists>msg h. (r_fd (rrus m ! i), msg) \<in> set (outbox m11) \<and> h_msg_no h = 61 \<and>
       ir_decode msg = Some (h, map (\<lambda>ie. (ie_no ie, ie_fields ie)) (param_ies rf))) \<and>
    (\<forall>j < length (rrus m). r_state (rrus m ! j) \<noteq> RRU_STATE_READY \<longrightarrow> rrus m1 ! j = rrus m ! j)"
proof -
  let ?m1 = "m\<lparr>rrus := rrus_reconfigure (rrus m)\<rparr>" and ?r = "rrus m ! i"
  let ?m10 = "(mgr_tick rf ^^ 10) ?m1"
  have r1: "rrus ?m1 ! i = ?r\<lparr>r_state := RRU_STATE_NEED_PARAMS_CONFIG, r_timer := 0\<rparr>" "i < length (rrus ?m1)"
    using assms(1,2) by (simp_all add: rrus_reconfigure_def)
  have r10: "rrus ?m10 ! i = ?r\<lparr>r_state := RRU_STATE_NEED_PARAMS_CONFIG, r_timer := 10, r_timeout := r_timeout ?r + 10\<rparr>"
    using ticks_reconfigure [OF r1(2), of 10 rf] assms(3,4) unfolding r1(1) by simp
  obtain r' ms where s: "send_parameter_configuration rf (rrus ?m10 ! i) = (r', ms)" by (rule prod.exhaust)
  note se = sends_enter [OF param_ies_size s [unfolded send_parameter_configuration_def]]
  have fd: "r_fd r' = r_fd ?r" "r_timeout r' = 0"
    using s unfolding r10 by (auto simp: send_parameter_configuration_def ir_send_enter_def ir_send_def)
  have tp: "tick_params rf (rrus ?m10 ! i) = (r'\<lparr>r_state := RRU_STATE_WAIT\<rparr>, ms)"
    using s by (simp add: tick_params_def) (simp add: r10)
  have i: "i < length (rrus ?m10)" using r1(2) by simp
  have st: "r_state (rrus (mgr_tick rf ?m10) ! i) = RRU_STATE_WAIT"
    using mgr_tick_nth [OF i, of rf] tp fd(2) by (simp add: tick_timeout_def)
  obtain msg h where msg: "ms = [msg]" "ir_decode msg = Some (h, map (\<lambda>ie. (ie_no ie, ie_fields ie)) (param_ies rf))" "h_msg_no h = 61"
    using se(1) by (auto simp: sends_def)
  have "(r_fd ?r, msg) \<in> set (outbox (mgr_tick rf ?m10))"
    using tp msg(1) fd(1) i by (auto simp: mgr_tick_def Let_def intro!: bexI [of _ "rrus ?m10 ! i"])
  then show ?thesis using st r10 msg by (auto simp: Let_def rrus_reconfigure_def)
qed

lemma reconfigure_resends_parameters_witness:
  "\<exists>msg h. (7, msg) \<in> set (outbox ((mgr_tick sample_rf ^^ 11)
       (sample_mgr\<lparr>rrus := rrus_reconfigure [sample_rru\<lparr>r_state := RRU_STATE_READY\<rparr>]\<rparr>))) \<and>
     ir_decode msg = Some h"
proof -
  let ?m = "sample_mgr\<lparr>rrus := [sample_rru\<lparr>r_state := RRU_STATE_READY\<rparr>]\<rparr>"
  have e: "(mgr_tick sample_rf ^^ 11) x = mgr_tick sample_rf ((mgr_tick sample_rf ^^ 10) x)" for x
    by (simp add: eval_nat_numeral)
  show ?thesis
    using reconfigure_resends_parameters [of 0 ?m sample_rf] unfolding e
    by (simp add: Let_def sample_rru_def blank_rru_def) blast
qed

end
