(* ===== verification/FAPI_Memory.thy ===== *)
theory FAPI_Memory
  imports IPC_Services
begin

text \<open>
  Words in byte memory, as the packed structures of \<open>src/fapi_interface.h\<close> and
  \<open>b4860/fapi_b4860.h\<close> are laid out on the big-endian host, and the sets of addresses that
  loads and stores depend on.
\<close>

type_synonym mem = "vaddr \<Rightarrow> u8"

definition load_be32 :: "mem \<Rightarrow> vaddr \<Rightarrow> u32" where
  "load_be32 m a = of_be32 (m a) (m (a + 1)) (m (a + 2)) (m (a + 3))"

definition span :: "vaddr \<Rightarrow> u32 \<Rightarrow> vaddr set" where
  "span a n = {x. x - a < n}"

definition same_on :: "vaddr set \<Rightarrow> mem \<Rightarrow> mem \<Rightarrow> bool" where
  "same_on S m m' \<longleftrightarrow> (\<forall>x \<in> S. m' x = m x)"

lemma same_onI: "(\<And>x. x \<in> S \<Longrightarrow> m' x = m x) \<Longrightarrow> same_on S m m'"
  by (simp add: same_on_def)

lemma same_on_refl [simp]: "same_on S m m"
  by (simp add: same_on_def)

lemma same_on_subset: "same_on S m m' \<Longrightarrow> T \<subseteq> S \<Longrightarrow> same_on T m m'"
  by (auto simp: same_on_def)

lemma same_on_trans: "same_on S m m' \<Longrightarrow> same_on S m' m'' \<Longrightarrow> same_on S m m''"
  by (simp add: same_on_def)

lemma span_offset [simp]: "a + x \<in> span a n \<longleftrightarrow> x < n"
  by (simp add: span_def)

lemma span_start [simp]: "a \<in> span a n \<longleftrightarrow> 0 < n"
  by (simp add: span_def)

lemma store_outside: "x \<notin> span a 4 \<Longrightarrow> store_be32 m a w x = m x"
  by (simp add: store_be32_def span_def)

lemma store_same_on: "S \<inter> span a 4 = {} \<Longrightarrow> same_on S m (store_be32 m a w)"
  by (rule same_onI, rule store_outside) blast

lemma memcpy_same_on: "S \<inter> span dst n = {} \<Longrightarrow> same_on S m (memcpy m dst s n)"
  by (auto simp: same_on_def memcpy_def span_def)

lemma load_same_on: "same_on (span a 4) m m' \<Longrightarrow> load_be32 m' a = load_be32 m a"
  by (simp add: same_on_def load_be32_def)

lemma load_store [simp]: "load_be32 (store_be32 m a w) a = w"
  by (simp add: load_be32_def store_be32_def be32_def)

lemma span_offsets_disjoint:
  assumes "x + unat n \<le> y" "y + unat k \<le> 2 ^ 32"
  shows "span (a + of_nat x) n \<inter> span (a + of_nat y) k = {}"
proof (rule equals0I)
  fix z assume z: "z \<in> span (a + of_nat x) n \<inter> span (a + of_nat y) k"
  define d where "d = z - a"
  have n: "unat (d - of_nat x) < unat n" and k: "unat (d - of_nat y) < unat k"
    using z by (simp_all add: span_def d_def word_less_nat_alt diff_diff_eq)
  have y: "y < 2 ^ 32" using assms(2) k by linarith
  then have "unat (of_nat x :: u32) = x" "unat (of_nat y :: u32) = y"
    using assms(1) by (simp_all only: unat_of_nat) (simp_all add: take_bit_nat_eq_self)
  then show False
    using n k assms y by (simp add: unat_sub_if' split: if_splits)
qed

lemma span_disjointI:
  assumes "n \<le> y - x" "k \<le> x - y"
  shows "span x n \<inter> span y k = {}"
proof (rule equals0I)
  fix z assume "z \<in> span x n \<inter> span y k"
  then have z: "z - x < y - x" "z - y < x - y" using assms by (auto simp: span_def)
  define u d where "u = z - x" and "d = y - x"
  have ud: "z - y = u - d" "x - y = 0 - d" by (simp_all add: u_def d_def)
  have "u < d" "u - d < 0 - d" using z unfolding ud by (simp_all add: u_def d_def)
  then have "unat u < unat d" "unat (u - d) < unat (0 - d)" by (simp_all only: word_less_nat_alt)
  then show False
    using unat_less_exp [of d] by (simp only: unat_sub_if') (simp split: if_splits)
qed

end
