(* ===== verification/Block_Queue.thy ===== *)
theory Block_Queue
  imports Fifo_Interface
begin

text \<open>
  Model of \<open>src/lib/core/block_queue.c\<close>: the bounded blocking queue that carries
  messages between the threads of the FAPI layer. Every operation runs under the queue's
  mutex, so it is one atomic transformer of the queue record; an operation that would
  call \<open>pthread_cond_wait\<close> reports the condition it sleeps on instead of a result, and
  every \<open>pthread_cond_broadcast\<close> is recorded. An access outside the item array is
  \<open>Undefined\<close>.
\<close>

section \<open>State and operations\<close>

record queue_item =
  item_ptr :: vaddr
  item_len :: u32

record block_queue =
  bq_head :: u32
  bq_tail :: u32
  bq_len :: u32
  bq_queue :: "queue_item list"
  pop_break_flag :: bool
  push_break_flag :: bool
  num_items :: u32
  accumulated_items_len :: u32

datatype bq_cond = Not_empty_cond | Not_full_cond

datatype 'a bq_outcome =
    Returned 'a block_queue "bq_cond list"
  | Blocked bq_cond
  | Undefined

text \<open>\<open>while (n & (n - 1)) n = n & (n - 1);\<close> clears the lowest set bit until one is left.\<close>

function clear_low_bits :: "u32 \<Rightarrow> u32" where
  "clear_low_bits n = (if n AND (n - 1) \<noteq> 0 then clear_low_bits (n AND (n - 1)) else n)"
  by auto
termination
  by (relation "measure unat") (auto dest: and_pred_less)

declare clear_low_bits.simps [simp del]

definition power_of_two_round_up :: "u32 \<Rightarrow> u32" where
  "power_of_two_round_up n = push_bit 1 (clear_low_bits (n - 1))"

definition null_item :: queue_item where
  "null_item = \<lparr>item_ptr = 0, item_len = 0\<rparr>"

definition block_queue_init :: "u32 \<Rightarrow> block_queue" where
  "block_queue_init min_queue_len =
     (let n = power_of_two_round_up min_queue_len in
      \<lparr>bq_head = 0, bq_tail = 0, bq_len = n, bq_queue = replicate (unat n) null_item,
       pop_break_flag = False, push_break_flag = False,
       num_items = 0, accumulated_items_len = 0\<rparr>)"

definition bq_advance :: "block_queue \<Rightarrow> u32 \<Rightarrow> u32" where
  "bq_advance q i = (i + 1) AND (bq_len q - 1)"

text \<open>The store common to \<open>push\<close> and \<open>try_push\<close>.\<close>

definition bq_store :: "block_queue \<Rightarrow> vaddr \<Rightarrow> u32 \<Rightarrow> block_queue" where
  "bq_store q item ilen =
     q\<lparr>bq_queue := (bq_queue q)[unat (bq_head q) := \<lparr>item_ptr = item, item_len = ilen\<rparr>],
       bq_head := bq_advance q (bq_head q),
       accumulated_items_len := accumulated_items_len q + ilen,
       num_items := num_items q + 1\<rparr>"

definition block_queue_push :: "block_queue \<Rightarrow> vaddr \<Rightarrow> u32 \<Rightarrow> bool bq_outcome" where
  "block_queue_push q item ilen =
     (if num_items q = bq_len q \<and> \<not> push_break_flag q then Blocked Not_full_cond
      else if \<not> push_break_flag q then
        (if unat (bq_head q) < length (bq_queue q)
         then Returned True (bq_store q item ilen) [Not_empty_cond] else Undefined)
      else Returned False q [])"

definition block_queue_try_push :: "block_queue \<Rightarrow> vaddr \<Rightarrow> u32 \<Rightarrow> bool bq_outcome" where
  "block_queue_try_push q item ilen =
     (if num_items q = bq_len q then Returned False q []
      else if unat (bq_head q) < length (bq_queue q)
      then Returned True (bq_store q item ilen) [Not_empty_cond] else Undefined)"

text \<open>The removal common to the pops: the oldest entry leaves at \<open>tail\<close>.\<close>

definition bq_remove :: "block_queue \<Rightarrow> block_queue" where
  "bq_remove q =
     q\<lparr>accumulated_items_len := accumulated_items_len q - item_len (bq_queue q ! unat (bq_tail q)),
       num_items := num_items q - 1,
       bq_tail := bq_advance q (bq_tail q)\<rparr>"

definition block_queue_try_pop :: "block_queue \<Rightarrow> vaddr option bq_outcome" where
  "block_queue_try_pop q =
     (if num_items q = 0 then Returned None q []
      else if unat (bq_tail q) < length (bq_queue q)
      then Returned (Some (item_ptr (bq_queue q ! unat (bq_tail q)))) (bq_remove q) [Not_full_cond]
      else Undefined)"

text \<open>
  \<open>block_queue_try_pop_timeout\<close> waits at most once: the call either goes on at once or
  sleeps; after the timed wait it goes on with the wait's return value \<open>rv\<close> (0 when
  woken, an error number such as \<open>ETIMEDOUT\<close> otherwise).
\<close>

definition try_pop_timeout_resume :: "block_queue \<Rightarrow> int \<Rightarrow> vaddr option bq_outcome" where
  "try_pop_timeout_resume q rv =
     (if rv \<noteq> 0 \<or> pop_break_flag q \<or> num_items q = 0 then Returned None q []
      else if unat (bq_tail q) < length (bq_queue q)
      then Returned (Some (item_ptr (bq_queue q ! unat (bq_tail q)))) (bq_remove q) [Not_full_cond]
      else Undefined)"

definition block_queue_try_pop_timeout :: "block_queue \<Rightarrow> vaddr option bq_outcome" where
  "block_queue_try_pop_timeout q =
     (if num_items q = 0 \<and> \<not> pop_break_flag q then Blocked Not_empty_cond
      else try_pop_timeout_resume q 0)"

text \<open>A null pointer is the value 0.\<close>

definition block_queue_pop :: "block_queue \<Rightarrow> vaddr bq_outcome" where
  "block_queue_pop q =
     (if num_items q = 0 \<and> \<not> pop_break_flag q then Blocked Not_empty_cond
      else if unat (bq_tail q) < length (bq_queue q)
      then Returned (if pop_break_flag q then 0 else item_ptr (bq_queue q ! unat (bq_tail q)))
             ((bq_remove q)\<lparr>pop_break_flag := False\<rparr>) [Not_full_cond]
      else Undefined)"

definition block_queue_is_empty :: "block_queue \<Rightarrow> bool" where
  "block_queue_is_empty q = (bq_head q = bq_tail q)"

definition block_queue_break_pop :: "block_queue \<Rightarrow> unit bq_outcome" where
  "block_queue_break_pop q = Returned () (q\<lparr>pop_break_flag := True\<rparr>) [Not_empty_cond]"

definition block_queue_break_push :: "block_queue \<Rightarrow> unit bq_outcome" where
  "block_queue_break_push q = Returned () (q\<lparr>push_break_flag := True\<rparr>) [Not_full_cond]"

definition block_queue_break :: "block_queue \<Rightarrow> unit bq_outcome" where
  "block_queue_break q =
     (case block_queue_break_push q of
        Returned _ q1 b1 \<Rightarrow>
          (case block_queue_break_pop q1 of
             Returned _ q2 b2 \<Rightarrow> Returned () q2 (b1 @ b2)
           | r \<Rightarrow> r)
      | r \<Rightarrow> r)"

definition block_queue_clear :: "block_queue \<Rightarrow> unit bq_outcome" where
  "block_queue_clear q =
     Returned () (q\<lparr>pop_break_flag := True, push_break_flag := True, bq_head := 0, bq_tail := 0,
                    num_items := 0, accumulated_items_len := 0\<rparr>)
       [Not_empty_cond, Not_full_cond]"

definition block_queue_pop_last :: "block_queue \<Rightarrow> vaddr bq_outcome" where
  "block_queue_pop_last q =
     (if num_items q = 0 \<and> \<not> pop_break_flag q then Blocked Not_empty_cond
      else
        (let t = (if 0 <s bq_head q then bq_head q - 1 else bq_len q - 1);
             q1 = q\<lparr>bq_tail := t\<rparr>
         in if unat t < length (bq_queue q)
            then Returned (if pop_break_flag q then 0 else item_ptr (bq_queue q ! unat t))
                   ((bq_remove q1)\<lparr>pop_break_flag := False\<rparr>) [Not_full_cond]
            else Undefined))"

definition block_queue_num_items :: "block_queue \<Rightarrow> int" where
  "block_queue_num_items q = sint (num_items q)"

definition block_queue_accumulated_items_len :: "block_queue \<Rightarrow> u32" where
  "block_queue_accumulated_items_len q = accumulated_items_len q"

section \<open>Rounding up to a power of two\<close>

lemma clear_low_bits_pow2:
  "2 ^ k \<le> unat n \<Longrightarrow> unat n < 2 ^ Suc k \<Longrightarrow> clear_low_bits n = 2 ^ k"
proof (induction n rule: clear_low_bits.induct)
  case (1 n)
  have nz: "n \<noteq> 0" using "1.prems"(1) by auto
  have k: "k < 32"
  proof (rule ccontr)
    assume "\<not> k < 32"
    then have "(2 :: nat) ^ 32 \<le> 2 ^ k" by (intro power_increasing) auto
    with "1.prems"(1) unat_less_exp [of n] show False by simp
  qed
  have u: "unat (n AND (n - 1)) = unat n AND (unat n - 1)"
    by (simp add: unsigned_and_eq unat_pred_word [OF nz])
  note hb = and_pred_keeps_high_bit [OF "1.prems"]
  show ?case
  proof (cases "n AND (n - 1) = 0")
    case True
    then have "unat n = unat ((2 :: u32) ^ k)"
      using hb u k by auto
    then have "n = 2 ^ k" by (simp only: word_unat_eq_iff)
    with True show ?thesis by (simp add: clear_low_bits.simps)
  next
    case False
    have "unat (n AND (n - 1)) \<noteq> 0" using False unsigned_eq_0_iff by blast
    then have "2 ^ k \<le> unat (n AND (n - 1))" using hb u by auto
    moreover have "unat (n AND (n - 1)) < 2 ^ Suc k"
      using and_pred_less [OF False] "1.prems"(2) by simp
    ultimately show ?thesis
      using "1.IH" [OF False] False by (subst clear_low_bits.simps) simp
  qed
qed

lemma power_of_two_round_up_pow2:
  assumes "2 ^ k < unat n" "unat n \<le> 2 ^ Suc k" "k < 30"
  shows "power_of_two_round_up n = 2 ^ Suc k"
proof -
  have "n \<noteq> 0" using assms(1) by auto
  then have "unat (n - 1) = unat n - 1" by (rule unat_pred_word)
  then have "clear_low_bits (n - 1) = 2 ^ k"
    using assms by (intro clear_low_bits_pow2) auto
  then show ?thesis
    by (simp add: power_of_two_round_up_def push_bit_eq_mult)
qed

lemma exists_pow2_above:
  fixes n :: nat
  assumes "2 \<le> n"
  shows "\<exists>k. 2 ^ k < n \<and> n \<le> 2 ^ Suc k"
proof -
  define k where "k = (LEAST j. n \<le> 2 ^ Suc j)"
  have ex: "n \<le> 2 ^ Suc n"
    using less_exp [of n] by (simp add: less_imp_le trans_le_add1 mult_2)
  have le: "n \<le> 2 ^ Suc k" unfolding k_def by (rule LeastI [of "\<lambda>j. n \<le> 2 ^ Suc j", OF ex])
  have "2 ^ k < n"
  proof (cases k)
    case 0 then show ?thesis using assms by simp
  next
    case (Suc j)
    then have "\<not> n \<le> 2 ^ Suc j"
      using not_less_Least [of j "\<lambda>j. n \<le> 2 ^ Suc j"] by (simp add: k_def)
    then show ?thesis using Suc by simp
  qed
  with le show ?thesis by blast
qed

lemma power_of_two_round_up_cases:
  assumes "2 \<le> unat n" "unat n \<le> 2 ^ 30"
  obtains k where "k < 30" "2 ^ k < unat n" "unat n \<le> 2 ^ Suc k"
    "power_of_two_round_up n = 2 ^ Suc k"
proof -
  obtain k where k: "2 ^ k < unat n" "unat n \<le> 2 ^ Suc k"
    using exists_pow2_above [OF assms(1)] by blast
  have "(2 :: nat) ^ k < 2 ^ 30" using k(1) assms(2) by linarith
  then have "k < 30" by (simp only: power_strict_increasing_iff)
  with k power_of_two_round_up_pow2 that show ?thesis by blast
qed

section \<open>Abstraction and invariant\<close>

definition bq_contents :: "block_queue \<Rightarrow> queue_item list" where
  "bq_contents q = ring_slice (bq_queue q) (unat (bq_tail q)) (unat (num_items q))"

definition bq_capacity :: "block_queue \<Rightarrow> nat" where
  "bq_capacity q = unat (bq_len q)"

definition bq_wf :: "block_queue \<Rightarrow> bool" where
  "bq_wf q =
     ((\<exists>k\<in>{..30}. bq_len q = 2 ^ k) \<and>
      length (bq_queue q) = unat (bq_len q) \<and>
      unat (bq_tail q) < unat (bq_len q) \<and>
      unat (num_items q) \<le> unat (bq_len q) \<and>
      unat (bq_head q) = (unat (bq_tail q) + unat (num_items q)) mod unat (bq_len q) \<and>
      accumulated_items_len q = sum_list (map item_len (bq_contents q)))"

lemma bq_wfD:
  assumes "bq_wf q"
  shows "length (bq_queue q) = unat (bq_len q)" "unat (bq_tail q) < unat (bq_len q)"
    "unat (num_items q) \<le> unat (bq_len q)"
    "unat (bq_head q) = (unat (bq_tail q) + unat (num_items q)) mod unat (bq_len q)"
    "unat (bq_head q) < unat (bq_len q)"
    "unat (bq_len q) \<le> 2 ^ 30"
    "accumulated_items_len q = sum_list (map item_len (bq_contents q))"
proof -
  obtain k where k: "k \<le> 30" "bq_len q = 2 ^ k" using assms by (auto simp: bq_wf_def)
  have "unat ((2 :: u32) ^ k) = 2 ^ k" using k by simp
  moreover have "(2 :: nat) ^ k \<le> 2 ^ 30" using k(1) by (intro power_increasing) auto
  ultimately show "unat (bq_len q) \<le> 2 ^ 30" using k by simp
  show "unat (bq_head q) < unat (bq_len q)"
    using assms by (auto simp: bq_wf_def intro!: mod_less_divisor)
qed (use assms in \<open>auto simp: bq_wf_def\<close>)

lemma length_bq_contents [simp]: "length (bq_contents q) = unat (num_items q)"
  by (simp add: bq_contents_def)

lemma unat_bq_advance:
  assumes "bq_wf q" "unat i < unat (bq_len q)"
  shows "unat (bq_advance q i) = (unat i + 1) mod unat (bq_len q)"
proof -
  obtain k where k: "k \<le> 30" "bq_len q = 2 ^ k" using assms(1) by (auto simp: bq_wf_def)
  have "unat i < 2 ^ 30" using assms bq_wfD(6) [OF assms(1)] by linarith
  then have "unat (i + 1) = unat i + 1" by (intro unat_Suc_word) simp
  then show ?thesis
    using k by (simp add: bq_advance_def unat_and_mask_pow2)
qed

lemma num_items_eq_len:
  assumes "bq_wf q"
  shows "num_items q = bq_len q \<longleftrightarrow> length (bq_contents q) = bq_capacity q"
  by (simp add: bq_capacity_def word_unat_eq_iff)

lemma num_items_eq_0: "num_items q = 0 \<longleftrightarrow> bq_contents q = []"
  by (simp add: bq_contents_def ring_slice_def unat_eq_zero)

section \<open>Every operation keeps the invariant and acts as on a list\<close>

lemma bq_wf_init [inv_intros]:
  assumes "2 \<le> unat n" "unat n \<le> 2 ^ 30"
  shows "bq_wf (block_queue_init n)" "bq_contents (block_queue_init n) = []"
proof -
  obtain k where k: "k < 30" "power_of_two_round_up n = 2 ^ Suc k"
    using power_of_two_round_up_cases [OF assms] by metis
  have "(2 :: u32) * 2 ^ k \<in> (\<lambda>j. 2 ^ j) ` {..30}"
    using k(1) by (intro image_eqI [where x = "Suc k"]) auto
  moreover have "unat ((2 :: u32) ^ Suc k) = 2 ^ Suc k"
    using k(1) by (intro unat_pow2_word) simp
  ultimately show "bq_wf (block_queue_init n)"
    by (auto simp: bq_wf_def block_queue_init_def Let_def k(2) bq_contents_def)
  show "bq_contents (block_queue_init n) = []"
    by (simp add: block_queue_init_def Let_def bq_contents_def)
qed

lemma bq_store_sim:
  assumes wf: "bq_wf q" and room: "unat (num_items q) < unat (bq_len q)"
  shows "bq_wf (bq_store q p l)"
    "bq_contents (bq_store q p l) = bq_contents q @ [\<lparr>item_ptr = p, item_len = l\<rparr>]"
    "bq_capacity (bq_store q p l) = bq_capacity q"
proof -
  note D = bq_wfD [OF wf]
  have n: "unat (num_items q + 1) = unat (num_items q) + 1"
    using room D(6) by (intro unat_Suc_word) simp
  show c: "bq_contents (bq_store q p l) = bq_contents q @ [\<lparr>item_ptr = p, item_len = l\<rparr>]"
    using ring_slice_append [of "unat (num_items q)" "bq_queue q" "unat (bq_tail q)"] room D(1,4)
    by (simp add: bq_contents_def bq_store_def n)
  show "bq_wf (bq_store q p l)"
    using wf room D unat_bq_advance [OF wf D(5)] c
    by (auto simp: bq_wf_def bq_store_def n mod_Suc_eq)
  show "bq_capacity (bq_store q p l) = bq_capacity q"
    by (simp add: bq_capacity_def bq_store_def)
qed

lemma bq_remove_sim:
  assumes wf: "bq_wf q" and ne: "num_items q \<noteq> 0"
  shows "bq_wf (bq_remove q)"
    "bq_contents q = bq_queue q ! unat (bq_tail q) # bq_contents (bq_remove q)"
    "bq_capacity (bq_remove q) = bq_capacity q"
proof -
  note D = bq_wfD [OF wf]
  have pos: "0 < unat (num_items q)" using ne by (simp add: unat_gt_0)
  have n: "unat (num_items q - 1) = unat (num_items q) - 1"
    by (rule unat_pred_word [OF ne])
  show c: "bq_contents q = bq_queue q ! unat (bq_tail q) # bq_contents (bq_remove q)"
    using ring_slice_pos [OF pos, of "bq_queue q" "unat (bq_tail q)"]
      ring_slice_mod [of "bq_queue q" "Suc (unat (bq_tail q))"] D(1,2) unat_bq_advance [OF wf D(2)]
    by (simp add: bq_contents_def bq_remove_def n)
  have "accumulated_items_len (bq_remove q) =
      accumulated_items_len q - item_len (bq_queue q ! unat (bq_tail q))"
    by (simp add: bq_remove_def)
  then have acc: "accumulated_items_len (bq_remove q) =
      sum_list (map item_len (bq_contents (bq_remove q)))"
    using D(7) by (simp add: c)
  have "unat (bq_head q) =
      (Suc (unat (bq_tail q)) mod unat (bq_len q) + (unat (num_items q) - 1)) mod unat (bq_len q)"
    using pos by (subst mod_add_left_eq) (simp add: D(4))
  moreover have "Suc (unat (bq_tail q)) mod unat (bq_len q) < unat (bq_len q)"
    using D(2) by (intro mod_less_divisor) linarith
  moreover have "\<exists>k\<in>{..30}. bq_len q = 2 ^ k" using wf by (simp add: bq_wf_def)
  ultimately show "bq_wf (bq_remove q)"
    unfolding bq_wf_def acc using D(1,3) unat_bq_advance [OF wf D(2)]
    by (simp add: bq_remove_def n)
  show "bq_capacity (bq_remove q) = bq_capacity q"
    by (simp add: bq_capacity_def bq_remove_def)
qed

lemma bq_flags_sim [simp]:
  "bq_contents (q\<lparr>pop_break_flag := b\<rparr>) = bq_contents q"
  "bq_contents (q\<lparr>push_break_flag := b\<rparr>) = bq_contents q"
  "bq_wf (q\<lparr>pop_break_flag := b\<rparr>) = bq_wf q"
  "bq_wf (q\<lparr>push_break_flag := b\<rparr>) = bq_wf q"
  "bq_capacity (q\<lparr>pop_break_flag := b\<rparr>) = bq_capacity q"
  "bq_capacity (q\<lparr>push_break_flag := b\<rparr>) = bq_capacity q"
  by (simp_all add: bq_contents_def bq_wf_def bq_capacity_def)

lemma bq_room:
  assumes "bq_wf q" "num_items q \<noteq> bq_len q"
  shows "unat (num_items q) < unat (bq_len q)"
  using bq_wfD(3) [OF assms(1)] assms(2) by (simp add: le_neq_implies_less word_unat_eq_iff)

lemma bq_clear_sim [inv_intros]:
  assumes "bq_wf q" "block_queue_clear q = Returned () q' bs"
  shows "bq_wf q'" "bq_contents q' = []" "bq_capacity q' = bq_capacity q"
  using assms by (auto simp: block_queue_clear_def bq_wf_def bq_contents_def bq_capacity_def)

lemmas bq_sim_rules = bq_store_sim bq_remove_sim bq_room bq_wfD

section \<open>The queue is a bounded FIFO\<close>

text \<open>
  A client pushes pointers, each with the length \<open>lenf\<close> gives it, and pops pointers.
\<close>

definition bq_enq :: "(vaddr \<Rightarrow> u32) \<Rightarrow> vaddr \<Rightarrow> block_queue \<Rightarrow> block_queue option" where
  "bq_enq lenf p q =
     (case block_queue_try_push q p (lenf p) of
        Returned ok q' _ \<Rightarrow> if ok then Some q' else None
      | _ \<Rightarrow> None)"

definition bq_deq :: "block_queue \<Rightarrow> (vaddr \<times> block_queue) option" where
  "bq_deq q =
     (case block_queue_try_pop q of
        Returned r q' _ \<Rightarrow> map_option (\<lambda>p. (p, q')) r
      | _ \<Rightarrow> None)"

definition bq_ptrs :: "block_queue \<Rightarrow> vaddr list" where
  "bq_ptrs q = map item_ptr (bq_contents q)"

lemma try_push_room:
  assumes "bq_wf q" "length (bq_ptrs q) < bq_capacity q"
  shows "block_queue_try_push q p l = Returned True (bq_store q p l) [Not_empty_cond]"
  using assms bq_wfD(1,5) [OF assms(1)]
  by (auto simp: block_queue_try_push_def bq_ptrs_def bq_capacity_def)

lemma try_pop_item:
  assumes "bq_wf q" "bq_ptrs q = p # ps"
  shows "block_queue_try_pop q = Returned (Some p) (bq_remove q) [Not_full_cond]"
    "bq_ptrs (bq_remove q) = ps" "num_items q \<noteq> 0"
proof -
  show ne: "num_items q \<noteq> 0" using assms(2) by (auto simp: num_items_eq_0 bq_ptrs_def)
  show "bq_ptrs (bq_remove q) = ps"
    "block_queue_try_pop q = Returned (Some p) (bq_remove q) [Not_full_cond]"
    using assms(2) bq_remove_sim(2) [OF assms(1) ne] bq_wfD(1,2) [OF assms(1)] ne
    by (auto simp: bq_ptrs_def block_queue_try_pop_def)
qed

interpretation bqf: bounded_fifo bq_ptrs bq_capacity bq_wf "bq_enq lenf" bq_deq for lenf
proof (unfold_locales, goal_cases)
  case (1 q)
  then show ?case using bq_wfD(3) by (simp add: bq_ptrs_def bq_capacity_def)
next
  case (2 q x)
  then show ?case
    by (simp add: bq_enq_def block_queue_try_push_def num_items_eq_len bq_ptrs_def)
next
  case (3 q x)
  then have room: "unat (num_items q) < unat (bq_len q)"
    by (simp add: bq_ptrs_def bq_capacity_def)
  show ?case
    using try_push_room [OF 3, of x "lenf x"] bq_store_sim [OF 3(1) room]
    by (simp add: bq_enq_def bq_ptrs_def)
next
  case (4 q)
  then show ?case
    by (simp add: bq_deq_def block_queue_try_pop_def num_items_eq_0 bq_ptrs_def)
next
  case (5 q x xs)
  then show ?case
    using try_pop_item [OF 5] bq_remove_sim [OF 5(1)] by (simp add: bq_deq_def)
qed

section \<open>Threads sharing a queue\<close>

text \<open>
  Calls of the interface, one critical section each; \<open>Timeout_resume rv\<close> is the second
  half of a timed pop. A thread is idle, about to enter its critical section, or asleep
  in \<open>pthread_cond_wait\<close> on a condition, from where it re-enters when the condition is
  broadcast (or spuriously, or on a timeout).
\<close>

datatype bq_call =
    Push vaddr u32 | Try_push vaddr u32 | Try_pop | Try_pop_timeout | Timeout_resume int
  | Pop | Pop_last | Break_pop | Break_push | Clear

datatype bq_reply = Reply_flag bool | Reply_item "vaddr option" | Reply_ptr vaddr | Reply_unit

fun bq_exec :: "bq_call \<Rightarrow> block_queue \<Rightarrow> bq_reply bq_outcome" where
  "bq_exec (Push p l) q = map_bq_outcome Reply_flag (block_queue_push q p l)"
| "bq_exec (Try_push p l) q = map_bq_outcome Reply_flag (block_queue_try_push q p l)"
| "bq_exec Try_pop q = map_bq_outcome Reply_item (block_queue_try_pop q)"
| "bq_exec Try_pop_timeout q = map_bq_outcome Reply_item (block_queue_try_pop_timeout q)"
| "bq_exec (Timeout_resume rv) q = map_bq_outcome Reply_item (try_pop_timeout_resume q rv)"
| "bq_exec Pop q = map_bq_outcome Reply_ptr (block_queue_pop q)"
| "bq_exec Pop_last q = map_bq_outcome Reply_ptr (block_queue_pop_last q)"
| "bq_exec Break_pop q = map_bq_outcome (\<lambda>_. Reply_unit) (block_queue_break_pop q)"
| "bq_exec Break_push q = map_bq_outcome (\<lambda>_. Reply_unit) (block_queue_break_push q)"
| "bq_exec Clear q = map_bq_outcome (\<lambda>_. Reply_unit) (block_queue_clear q)"

datatype bq_thread = Idle | Ready bq_call | Asleep bq_cond bq_call

fun on_wake :: "bq_call \<Rightarrow> bq_call" where
  "on_wake Try_pop_timeout = Timeout_resume 0"
| "on_wake c = c"

fun wake :: "bq_cond list \<Rightarrow> bq_thread \<Rightarrow> bq_thread" where
  "wake bs (Asleep k c) = (if k \<in> set bs then Ready (on_wake c) else Asleep k c)"
| "wake bs th = th"

record bq_system =
  sys_queue :: block_queue
  sys_thread :: "nat \<Rightarrow> bq_thread"

definition ETIMEDOUT :: int where
  "ETIMEDOUT = 110"

inductive bq_step :: "bq_system \<Rightarrow> bq_system \<Rightarrow> bool" where
  step_call: "sys_thread s t = Idle \<Longrightarrow> (\<forall>rv. c \<noteq> Timeout_resume rv) \<Longrightarrow>
     bq_step s (s\<lparr>sys_thread := (sys_thread s)(t := Ready c)\<rparr>)"
| step_run: "sys_thread s t = Ready c \<Longrightarrow> bq_exec c (sys_queue s) = Returned r q' bs \<Longrightarrow>
     bq_step s \<lparr>sys_queue = q', sys_thread = (wake bs \<circ> sys_thread s)(t := Idle)\<rparr>"
| step_block: "sys_thread s t = Ready c \<Longrightarrow> bq_exec c (sys_queue s) = Blocked k \<Longrightarrow>
     bq_step s (s\<lparr>sys_thread := (sys_thread s)(t := Asleep k c)\<rparr>)"
| step_spurious: "sys_thread s t = Asleep k c \<Longrightarrow>
     bq_step s (s\<lparr>sys_thread := (sys_thread s)(t := Ready (on_wake c))\<rparr>)"
| step_timeout: "sys_thread s t = Asleep k Try_pop_timeout \<Longrightarrow>
     bq_step s (s\<lparr>sys_thread := (sys_thread s)(t := Ready (Timeout_resume ETIMEDOUT))\<rparr>)"

inductive bq_reach :: "u32 \<Rightarrow> bq_system \<Rightarrow> bool" for n where
  reach_init: "bq_reach n \<lparr>sys_queue = block_queue_init n, sys_thread = (\<lambda>_. Idle)\<rparr>"
| reach_step: "bq_reach n s \<Longrightarrow> bq_step s s' \<Longrightarrow> bq_reach n s'"

lemmas bq_op_defs =
  block_queue_push_def block_queue_try_push_def block_queue_try_pop_def
  block_queue_try_pop_timeout_def try_pop_timeout_resume_def block_queue_pop_def
  block_queue_pop_last_def block_queue_break_pop_def block_queue_break_push_def
  block_queue_clear_def

text \<open>Exactly these calls sleep, in exactly these states.\<close>

lemma bq_exec_Blocked:
  "bq_exec c q = Blocked k \<longleftrightarrow>
     (k = Not_empty_cond \<and> c \<in> {Pop, Pop_last, Try_pop_timeout} \<and>
        num_items q = 0 \<and> \<not> pop_break_flag q) \<or>
     (k = Not_full_cond \<and> (\<exists>p l. c = Push p l) \<and>
        num_items q = bq_len q \<and> \<not> push_break_flag q)"
  by (cases c) (auto simp: bq_op_defs Let_def)

lemma bq_store_flags [simp]:
  "push_break_flag (bq_store q p l) = push_break_flag q"
  "pop_break_flag (bq_store q p l) = pop_break_flag q" "bq_len (bq_store q p l) = bq_len q"
  by (simp_all add: bq_store_def)

lemma bq_remove_flags [simp]:
  "push_break_flag (bq_remove q) = push_break_flag q"
  "pop_break_flag (bq_remove q) = pop_break_flag q" "bq_len (bq_remove q) = bq_len q"
  by (simp_all add: bq_remove_def)

text \<open>A completed call that does not broadcast a condition leaves its sleepers blocked.\<close>

lemma bq_exec_keeps_blocked:
  assumes "bq_exec c q = Returned r q' bs" "bq_exec d q = Blocked k" "k \<notin> set bs"
  shows "bq_exec d q' = Blocked k"
  using assms unfolding bq_exec_Blocked
  by (cases c) (auto simp: bq_op_defs Let_def split: if_splits)

lemma wake_Asleep:
  "wake bs th = Asleep k c \<longleftrightarrow> th = Asleep k c \<and> k \<notin> set bs"
  by (cases th) auto

lemma no_lost_wakeup_step:
  assumes "bq_step s s'" "\<And>t k c. sys_thread s t = Asleep k c \<Longrightarrow> bq_exec c (sys_queue s) = Blocked k"
    "sys_thread s' t = Asleep k c"
  shows "bq_exec c (sys_queue s') = Blocked k"
  using assms(1)
proof (cases rule: bq_step.cases)
  case (step_run u d r q' bs)
  then have "sys_thread s t = Asleep k c" "k \<notin> set bs"
    using assms(3) by (auto simp: wake_Asleep split: if_splits)
  then show ?thesis
    using bq_exec_keeps_blocked [OF step_run(3) assms(2)] step_run(1) by auto
qed (use assms(3) in \<open>auto split: if_splits dest: assms(2)\<close>)

lemma no_lost_wakeup_reach:
  "bq_reach n s \<Longrightarrow> sys_thread s t = Asleep k c \<Longrightarrow> bq_exec c (sys_queue s) = Blocked k"
proof (induction arbitrary: t k c rule: bq_reach.induct)
  case (reach_step s s')
  then show ?case using no_lost_wakeup_step by metis
qed simp

section \<open>Which calls keep the invariant\<close>

text \<open>
  Two uses break the bookkeeping: a blocking pop (either end) of an empty queue that a
  break request lets through, and a \<open>pop_last\<close> of a queue with two or more items.
\<close>

definition bq_safe_call :: "bq_call \<Rightarrow> block_queue \<Rightarrow> bool" where
  "bq_safe_call c q =
     (case c of
        Pop \<Rightarrow> num_items q \<noteq> 0 \<or> \<not> pop_break_flag q
      | Pop_last \<Rightarrow> num_items q = 1 \<or> (num_items q = 0 \<and> \<not> pop_break_flag q)
      | _ \<Rightarrow> True)"

lemma pop_last_tail:
  assumes wf: "bq_wf q" and one: "num_items q = 1"
  shows "(if 0 <s bq_head q then bq_head q - 1 else bq_len q - 1) = bq_tail q"
proof -
  note D = bq_wfD [OF wf]
  have h: "unat (bq_head q) = (unat (bq_tail q) + 1) mod unat (bq_len q)" using D(4) one by simp
  have sl: "0 <s bq_head q \<longleftrightarrow> bq_head q \<noteq> 0" using D(5,6) by (intro sless_zero_iff) simp
  have nz: "bq_len q \<noteq> 0" using D(2) by auto
  have "unat (if bq_head q \<noteq> 0 then bq_head q - 1 else bq_len q - 1) = unat (bq_tail q)"
  proof (cases "unat (bq_tail q) + 1 = unat (bq_len q)")
    case True
    then have "bq_head q = 0" using h by (simp add: unat_eq_zero)
    then show ?thesis using True nz by (simp add: unat_pred_word)
  next
    case False
    then have "unat (bq_head q) = unat (bq_tail q) + 1" using h D(2) by simp
    then have "bq_head q \<noteq> 0" by auto
    then show ?thesis using \<open>unat (bq_head q) = unat (bq_tail q) + 1\<close> by (simp add: unat_pred_word)
  qed
  then show ?thesis by (simp only: sl word_unat_eq_iff)
qed

lemma pop_last_single:
  assumes "bq_wf q" "num_items q = 1"
  shows "block_queue_pop_last q = block_queue_pop q"
proof -
  have "q\<lparr>bq_tail := bq_tail q\<rparr> = q" by simp
  then show ?thesis
    using assms(2)
    by (simp only: block_queue_pop_last_def block_queue_pop_def pop_last_tail [OF assms] Let_def)
qed

lemma bq_exec_wf:
  assumes wf: "bq_wf q" and safe: "bq_safe_call c q" and ret: "bq_exec c q = Returned r q' bs"
  shows "bq_wf q'"
proof (cases "c = Pop_last")
  case True
  then have "num_items q = 1"
    using safe ret by (auto simp: bq_safe_call_def block_queue_pop_last_def)
  then have "bq_exec Pop q = Returned r q' bs" "num_items q \<noteq> 0"
    using ret True pop_last_single [OF wf] by auto
  then show ?thesis
    using bq_remove_sim(1) [OF wf] by (auto simp: block_queue_pop_def split: if_splits)
next
  case False
  with assms show ?thesis
    by (cases c)
       (auto simp: bq_op_defs bq_safe_call_def bq_sim_rules split: if_splits
          dest: bq_clear_sim(1) [unfolded block_queue_clear_def])
qed

text \<open>No call on a well-formed queue leaves the item array.\<close>

lemma bq_exec_defined:
  assumes wf: "bq_wf q"
  shows "bq_exec c q \<noteq> Undefined"
proof -
  note D = bq_wfD [OF wf]
  have "unat (if 0 <s bq_head q then bq_head q - 1 else bq_len q - 1) < unat (bq_len q)"
    using D(2,5,6) sless_zero_iff [of "bq_head q"] unat_pred_word [of "bq_len q"]
      unat_pred_word [of "bq_head q"] by (cases "bq_len q = 0"; cases "bq_head q = 0") auto
  then show ?thesis
    using D(1,2,5) by (cases c) (auto simp: bq_op_defs Let_def)
qed

section \<open>Properties\<close>

lemma pow2_least:
  fixes n :: nat
  assumes "2 ^ k < n" "n \<le> 2 ^ j"
  shows "2 ^ Suc k \<le> (2 :: nat) ^ j"
proof -
  have "(2 :: nat) ^ k < 2 ^ j" using assms by (rule order_less_le_trans)
  then have "k < j" by (simp only: power_strict_increasing_iff)
  then show ?thesis by (intro power_increasing) auto
qed

text \<open>For every requested length from 2 to 2^30, \<open>power_of_two_round_up\<close> returns the
  least power of two that is not smaller than the request.\<close>

lemma power_of_two_round_up_least:
  assumes "2 \<le> unat n" "unat n \<le> 2 ^ 30"
  shows "(\<exists>k. unat (power_of_two_round_up n) = 2 ^ k) \<and> unat n \<le> unat (power_of_two_round_up n) \<and>
    (\<forall>j. unat n \<le> 2 ^ j \<longrightarrow> unat (power_of_two_round_up n) \<le> 2 ^ j)"
proof -
  obtain k where k: "k < 30" "2 ^ k < unat n" "unat n \<le> 2 ^ Suc k"
      "power_of_two_round_up n = 2 ^ Suc k"
    using power_of_two_round_up_cases [OF assms] by metis
  have u: "unat (power_of_two_round_up n) = 2 ^ Suc k"
    unfolding k(4) using k(1) by (intro unat_pow2_word) simp
  show ?thesis using k(3) pow2_least [OF k(2)] unfolding u by blast
qed

theorem power_of_two_round_up_least_witness:
  "unat (power_of_two_round_up 5) \<le> 8 \<and> 5 \<le> unat (power_of_two_round_up 5)"
proof -
  have r: "2 \<le> unat (5 :: u32)" "unat (5 :: u32) \<le> 2 ^ 30" "unat (5 :: u32) \<le> 2 ^ 3" by simp_all
  note p = power_of_two_round_up_least [OF r(1,2)]
  from p r(3) have "unat (power_of_two_round_up 5) \<le> 2 ^ 3" by blast
  with p show ?thesis by simp
qed

text \<open>C2: Any sequence of non-blocking pushes and pops on a fresh queue of requested
  length 2 to 2^30 behaves as on a list bounded by the rounded-up length: the same pushes
  are accepted, the same pointers are delivered, in the order they were accepted.\<close>

theorem block_queue_refines_list:
  assumes "2 \<le> unat n" "unat n \<le> 2 ^ 30"
    "fifo_run (bq_enq lenf) bq_deq ops (block_queue_init n) = (ins, outs, r)"
  shows "fifo_run (list_enq (unat (power_of_two_round_up n))) list_deq ops [] = (ins, outs, bq_ptrs r)
    \<and> ins = outs @ bq_ptrs r \<and> bq_wf r"
proof -
  note i = bq_wf_init [OF assms(1,2)]
  have p: "bq_ptrs (block_queue_init n) = []" using i(2) by (simp add: bq_ptrs_def)
  have c: "bq_capacity (block_queue_init n) = unat (power_of_two_round_up n)"
    by (simp add: bq_capacity_def block_queue_init_def Let_def)
  show ?thesis
    using bqf.run_refines [OF i(1) assms(3)] bqf.run_fifo [OF i(1) assms(3)] by (simp add: p c)
qed

lemma block_queue_init_2:
  "block_queue_init 2 =
     \<lparr>bq_head = 0, bq_tail = 0, bq_len = 2, bq_queue = [null_item, null_item],
      pop_break_flag = False, push_break_flag = False, num_items = 0, accumulated_items_len = 0\<rparr>"
proof -
  have "power_of_two_round_up 2 = 2" by (simp add: power_of_two_round_up_def clear_low_bits.simps)
  moreover have "unat (2 :: u32) = Suc (Suc 0)" by simp
  then have "replicate (unat (2 :: u32)) null_item = [null_item, null_item]"
    by (simp only: replicate.simps)
  ultimately show ?thesis by (simp only: block_queue_init_def Let_def)
qed

lemmas bq_eval = block_queue_init_2 bq_op_defs bq_store_def bq_remove_def bq_advance_def null_item_def

theorem block_queue_refines_list_witness:
  "fifo_run (list_enq (unat (power_of_two_round_up 2))) list_deq [Enq 10, Enq 20, Enq 30, Deq] [] =
     ([10, 20], [10], bq_ptrs (snd (snd (fifo_run (bq_enq (\<lambda>_. 1)) bq_deq [Enq 10, Enq 20, Enq 30, Deq] (block_queue_init 2)))))"
proof -
  have "\<exists>r. fifo_run (bq_enq (\<lambda>_. 1)) bq_deq [Enq 10, Enq 20, Enq 30, Deq] (block_queue_init 2) = ([10, 20], [10], r)"
    by (simp add: bq_eval bq_enq_def bq_deq_def)
  then show ?thesis
    using block_queue_refines_list [of 2 "\<lambda>_. 1" "[Enq 10, Enq 20, Enq 30, Deq]"] by auto
qed

text \<open>C13: No wake-up is lost. In every reachable state of any number of threads using a
  queue through any mix of its operations, a thread asleep on a condition is one whose
  call would have to wait on that condition in the present state of the queue.\<close>

theorem block_queue_no_lost_wakeup:
  assumes "bq_reach n s" "sys_thread s t = Asleep k c"
  shows "bq_exec c (sys_queue s) = Blocked k"
  using assms by (rule no_lost_wakeup_reach)

theorem block_queue_no_lost_wakeup_witness:
  "bq_exec Pop (block_queue_init 2) = Blocked Not_empty_cond"
proof -
  let ?s = "\<lparr>sys_queue = block_queue_init 2, sys_thread = (\<lambda>_. Idle)\<rparr>"
  let ?s1 = "?s\<lparr>sys_thread := (sys_thread ?s)(0 := Ready Pop)\<rparr>"
  let ?s2 = "?s1\<lparr>sys_thread := (sys_thread ?s1)(0 := Asleep Not_empty_cond Pop)\<rparr>"
  have "bq_reach 2 ?s1" by (rule reach_step [OF reach_init step_call]) simp_all
  moreover have "bq_step ?s1 ?s2"
    by (rule step_block [where t = 0]) (simp_all add: bq_eval)
  ultimately have "bq_reach 2 ?s2" by (rule reach_step)
  from block_queue_no_lost_wakeup [OF this, of 0 Not_empty_cond Pop] show ?thesis by simp
qed

text \<open>On a well-formed queue every operation but the two unsafe pops stays inside the
  item array and leaves the queue well-formed: indices below the length, count and
  accumulated length equal to those of the items it holds.\<close>

lemma block_queue_invariant:
  assumes "bq_wf q" "bq_safe_call c q"
  shows "bq_exec c q \<noteq> Undefined \<and>
    (\<forall>r q' bs. bq_exec c q = Returned r q' bs \<longrightarrow>
       bq_wf q' \<and> block_queue_accumulated_items_len q' = sum_list (map item_len (bq_contents q')) \<and>
       block_queue_num_items q' = int (length (bq_contents q')))"
proof -
  have "block_queue_num_items q' = int (length (bq_contents q'))" if "bq_wf q'" for q'
  proof -
    have "unat (num_items q') < 2 ^ 31" using bq_wfD(3,6) [OF that] by simp
    then show ?thesis by (simp only: block_queue_num_items_def length_bq_contents sint_small)
  qed
  then show ?thesis
    using bq_exec_defined [OF assms(1)] bq_exec_wf [OF assms] bq_wfD(7)
    by (auto simp: block_queue_accumulated_items_len_def simp del: length_bq_contents)
qed

theorem block_queue_invariant_witness:
  "bq_exec (Push 7 3) (block_queue_init 2) \<noteq> Undefined"
  using block_queue_invariant [of "block_queue_init 2" "Push 7 3"] bq_wf_init(1) [of 2]
  by (simp add: bq_safe_call_def)

text \<open>A break request on an empty queue corrupts it: the pop it releases returns a
  null pointer but still counts an item out, so the count becomes -1 and the next pushed
  item is accepted and yet not delivered by a pop.\<close>

lemma break_pop_loses_next_item:
  assumes "bq_wf q" "bq_contents q = []" "pop_break_flag q"
  shows "\<exists>q1 q2. block_queue_pop q = Returned 0 q1 [Not_full_cond] \<and>
    block_queue_num_items q1 = -1 \<and>
    block_queue_try_push q1 p l = Returned True q2 [Not_empty_cond] \<and>
    block_queue_try_pop q2 = Returned None q2 []"
proof -
  note D = bq_wfD [OF assms(1)]
  have n: "num_items q = 0" using assms(2) by (simp add: num_items_eq_0)
  have "unat (-1 :: u32) = 2 ^ 32 - 1" by (simp add: unsigned_minus_1_eq_mask mask_eq_exp_minus_1)
  then have "unat (bq_len q) \<noteq> unat (-1 :: u32)" using D(6) by simp
  then have "bq_len q \<noteq> - 1" by metis
  then show ?thesis
    using D(1,2,5) n assms(3)
    by (simp add: block_queue_pop_def block_queue_try_push_def block_queue_try_pop_def
          bq_remove_def bq_store_def bq_advance_def block_queue_num_items_def)
qed

theorem break_pop_loses_next_item_witness:
  "\<exists>q1. block_queue_pop ((block_queue_init 2)\<lparr>pop_break_flag := True\<rparr>) = Returned 0 q1 [Not_full_cond]"
  using break_pop_loses_next_item [of "(block_queue_init 2)\<lparr>pop_break_flag := True\<rparr>"]
    bq_wf_init [of 2] by auto

text \<open>\<open>pop_last\<close> on a queue of two or more items delivers the newest item and then
  delivers the same item again.\<close>

lemma pop_last_delivers_twice:
  assumes "bq_wf q" "2 \<le> length (bq_contents q)" "\<not> pop_break_flag q"
  shows "\<exists>p q1 q2. block_queue_pop_last q = Returned p q1 [Not_full_cond] \<and>
    block_queue_pop_last q1 = Returned p q2 [Not_full_cond] \<and> 0 < num_items q1"
proof -
  let ?t = "if 0 <s bq_head q then bq_head q - 1 else bq_len q - 1"
  let ?p = "item_ptr (bq_queue q ! unat ?t)"
  let ?q1 = "(bq_remove (q\<lparr>bq_tail := ?t\<rparr>))\<lparr>pop_break_flag := False\<rparr>"
  let ?q2 = "(bq_remove (?q1\<lparr>bq_tail := ?t\<rparr>))\<lparr>pop_break_flag := False\<rparr>"
  have nz: "num_items q \<noteq> 0" using assms(2) by auto
  have "unat (num_items q - 1) = unat (num_items q) - 1" using nz by (rule unat_pred_word)
  then have pos: "0 < num_items ?q1" using assms(2) by (simp add: bq_remove_def word_less_nat_alt)
  have t: "unat ?t < length (bq_queue q)"
    using bq_exec_defined [OF assms(1), of Pop_last] nz
    by (auto simp: block_queue_pop_last_def Let_def split: if_splits)
  have one: "block_queue_pop_last q = Returned ?p ?q1 [Not_full_cond]"
    using nz t assms(3) by (simp add: block_queue_pop_last_def Let_def)
  have same: "bq_head ?q1 = bq_head q" "bq_len ?q1 = bq_len q" "bq_queue ?q1 = bq_queue q"
    "\<not> pop_break_flag ?q1"
    by (simp_all add: bq_remove_def)
  have "num_items ?q1 \<noteq> 0" using pos by auto
  then have "block_queue_pop_last ?q1 = Returned ?p ?q2 [Not_full_cond]"
    using t by (simp only: block_queue_pop_last_def same Let_def simp_thms if_True if_False)
  with one pos show ?thesis by blast
qed

lemma two_items_queue:
  "\<exists>q. bq_wf q \<and> 2 \<le> length (bq_contents q) \<and> \<not> pop_break_flag q"
proof -
  let ?q = "bq_store (bq_store (block_queue_init 2) 10 1) 20 1"
  have "bq_wf (block_queue_init 2)" using bq_wf_init(1) [of 2] by simp
  then have "bq_wf (bq_store (block_queue_init 2) 10 1)"
    by (rule bq_store_sim) (simp add: block_queue_init_2)
  then have "bq_wf ?q" by (rule bq_store_sim) (simp add: bq_eval)
  then show ?thesis
    by (intro exI [of _ ?q]) (simp add: bq_eval)
qed

theorem pop_last_delivers_twice_witness:
  "\<exists>q p q1 q2. block_queue_pop_last q = Returned p q1 [Not_full_cond] \<and>
    block_queue_pop_last q1 = Returned p q2 [Not_full_cond] \<and> 0 < num_items q1"
  using two_items_queue pop_last_delivers_twice by blast

text \<open>\<open>block_queue_is_empty\<close> answers yes on an empty queue and also on a full one.\<close>

lemma is_empty_iff:
  assumes "bq_wf q"
  shows "block_queue_is_empty q \<longleftrightarrow>
    bq_contents q = [] \<or> length (bq_contents q) = bq_capacity q"
proof -
  note D = bq_wfD [OF assms]
  let ?t = "unat (bq_tail q)" and ?n = "unat (num_items q)" and ?m = "unat (bq_len q)"
  have "(?t + ?n) mod ?m = ?t \<longleftrightarrow> ?n = 0 \<or> ?n = ?m"
    using D(2,3) mod_offset_neq [of 0 ?n ?m ?t] by (cases "?n = ?m"; cases "?n = 0") auto
  then show ?thesis
    using D(4) by (simp add: block_queue_is_empty_def word_unat_eq_iff bq_capacity_def
        flip: num_items_eq_0)
qed

theorem is_empty_iff_witness: "block_queue_is_empty (block_queue_init 2)"
  using is_empty_iff [of "block_queue_init 2"] bq_wf_init [of 2] by simp

text \<open>A queue created for one item has length 0: no item is ever accepted, a
  blocking push sleeps.\<close>

lemma init_one_accepts_nothing:
  "bq_len (block_queue_init 1) = 0 \<and>
   block_queue_try_push (block_queue_init 1) p l = Returned False (block_queue_init 1) [] \<and>
   block_queue_push (block_queue_init 1) p l = Blocked Not_full_cond"
  by (simp add: block_queue_init_def power_of_two_round_up_def clear_low_bits.simps
      block_queue_try_push_def block_queue_push_def)

end
