(* ===== verification/FAPI_Dispatch.thy ===== *)
theory FAPI_Dispatch
  imports FAPI_Memory Block_Queue
begin

text \<open>
  The receiving side of the FAPI library (\<open>b4860/fapi_b4860.c\<close>): the dispatcher thread takes
  message pointers from the channel of the DSP, looks at the message in shared memory and hands
  its body to one of ten block queues, the CPRI ethernet or the log. The build without
  \<open>FAPI_RT_SIGNAL\<close> and \<open>ENABLE_B4860_DIRECT_LOG\<close> is modelled; the counter \<open>p7_msg_num\<close>, whose only
  use is commented out, is left out.

  \<open>ipc_p2v\<close> is the translation the library registers with the channel layer (\<open>p2vcb\<close>). A step
  ends, sleeps in \<open>block_queue_push\<close> on a full queue, or faults where the code dereferences a null
  pointer or walks past the end of the address space.
\<close>

section \<open>State\<close>

datatype fapi_queue =
    Q_p5 | Q_p7 | Q_subframe | Q_rach | Q_rx | Q_harq | Q_sr | Q_cqi | Q_crc | Q_p8

datatype log_level = LOG_E | LOG_W | LOG_I | LOG_D

record fapi_rx =
  fq :: "fapi_queue \<Rightarrow> block_queue"
  fipc :: ipc_state
  cpri_msgs :: "vaddr list"
  fapi_log :: "(log_level \<times> vaddr) list"

datatype fapi_outcome = Fapi_done fapi_rx | Fapi_sleeps fapi_queue vaddr fapi_rx | Fapi_fault

abbreviation (input) "IPC_SC2PA_CH_ID \<equiv> (5 :: u32)"
abbreviation (input) "FAPI_CHANNELS_NUM \<equiv> (10 :: u32)"
abbreviation (input) "FAPI_CHANNEL_P5_IND \<equiv> (1 :: u32)"
abbreviation (input) "FAPI_CHANNEL_P7_IND \<equiv> (3 :: u32)"
abbreviation (input) "FAPI_CHANNEL_LOG \<equiv> (5 :: u32)"
abbreviation (input) "FAPI_CHANNEL_CPRI_ETH \<equiv> (7 :: u32)"
abbreviation (input) "FAPI_CHANNEL_P8_IND \<equiv> (9 :: u32)"
abbreviation (input) "FAPI_RX_ULSCH_INDICATION \<equiv> (0x87 :: u32)"

definition ipc_p2v :: "fapi_rx \<Rightarrow> u32 \<Rightarrow> vaddr" where
  "ipc_p2v st a = p2vcb (us (fipc st)) a"

definition fapi_mem :: "fapi_rx \<Rightarrow> mem" where
  "fapi_mem st = bytes (fipc st)"

definition set_mem :: "mem \<Rightarrow> fapi_rx \<Rightarrow> fapi_rx" where
  "set_mem m st = st\<lparr>fipc := (fipc st)\<lparr>bytes := m\<rparr>\<rparr>"

text \<open>The fields of \<open>fapi_ipc_msg_t\<close> and of \<open>fapi_l1_message_header_t\<close>.\<close>

definition msg_channel_id :: "mem \<Rightarrow> vaddr \<Rightarrow> u32" where
  "msg_channel_id m a = load_be32 m a"

definition msg_body_addr :: "mem \<Rightarrow> vaddr \<Rightarrow> u32" where
  "msg_body_addr m a = load_be32 m (a + 8)"

definition l1_message_id :: "mem \<Rightarrow> vaddr \<Rightarrow> u32" where
  "l1_message_id m a = load_be32 m a"

section \<open>Operations\<close>

text \<open>\<open>sizeof(fapi_l1_message_header_t)\<close> is 8.\<close>

definition fapi_push :: "fapi_queue \<Rightarrow> vaddr \<Rightarrow> fapi_rx \<Rightarrow> fapi_outcome" where
  "fapi_push q item st =
     (case block_queue_push (fq st q) item 8 of
        Returned _ bq _ \<Rightarrow> Fapi_done (st\<lparr>fq := (fq st)(q := bq)\<rparr>)
      | Blocked _ \<Rightarrow> Fapi_sleeps q item st
      | Undefined \<Rightarrow> Fapi_fault)"

definition fapi_try_push :: "fapi_queue \<Rightarrow> vaddr \<Rightarrow> fapi_rx \<Rightarrow> fapi_outcome" where
  "fapi_try_push q item st =
     (case block_queue_try_push (fq st q) item 8 of
        Returned _ bq _ \<Rightarrow> Fapi_done (st\<lparr>fq := (fq st)(q := bq)\<rparr>)
      | Blocked _ \<Rightarrow> Fapi_sleeps q item st
      | Undefined \<Rightarrow> Fapi_fault)"

text \<open>The address of \<open>rx_pdu_list[i].data_ptr\<close>: an RX indication has its PDU count at offset 16 and
  PDUs of 32 bytes from offset 20, each with the pointer in its last four bytes.\<close>

definition rx_data_ptr :: "vaddr \<Rightarrow> nat \<Rightarrow> vaddr" where
  "rx_data_ptr body i = body + 48 + 32 * of_nat i"

fun rx_translate :: "(u32 \<Rightarrow> vaddr) \<Rightarrow> vaddr \<Rightarrow> nat \<Rightarrow> nat \<Rightarrow> mem \<Rightarrow> mem" where
  "rx_translate p2v body i 0 m = m"
| "rx_translate p2v body i (Suc n) m =
     rx_translate p2v body (Suc i) n
       (store_be32 m (rx_data_ptr body i) (p2v (load_be32 m (rx_data_ptr body i))))"

definition ind_queue :: "u32 \<Rightarrow> fapi_queue" where
  "ind_queue mid =
     (if mid = 0x82 then Q_subframe
      else if mid = 0x88 then Q_rach
      else if mid = FAPI_RX_ULSCH_INDICATION then Q_rx
      else if mid = 0x8A then Q_sr
      else if mid = 0x85 then Q_harq
      else if mid = 0x8B then Q_cqi
      else if mid = 0x86 then Q_crc
      else Q_p7)"

definition rx_count :: "mem \<Rightarrow> vaddr \<Rightarrow> nat" where
  "rx_count m body = unat (load_be32 m (body + 16))"

definition fapi_b4860_process_p7_message :: "vaddr \<Rightarrow> fapi_rx \<Rightarrow> fapi_outcome" where
  "fapi_b4860_process_p7_message msg st =
     (if msg = 0 then Fapi_fault
      else
        (let m = fapi_mem st; mid = l1_message_id m msg in
         if mid = FAPI_RX_ULSCH_INDICATION then
           (if 20 + 32 * rx_count m msg \<ge> 2 ^ 32 then Fapi_fault
            else fapi_push Q_rx msg (set_mem (rx_translate (ipc_p2v st) msg 0 (rx_count m msg) m) st))
         else fapi_push (ind_queue mid) msg st))"

definition fapi_b4860_log_fsl :: "vaddr \<Rightarrow> fapi_rx \<Rightarrow> fapi_rx" where
  "fapi_b4860_log_fsl body st =
     (let c = fapi_mem st (body + 1);
          level = (if c = 0x45 then LOG_E else if c = 0x57 then LOG_W else if c = 0x49 then LOG_I
                   else if c = 0x44 then LOG_D else LOG_I)
      in st\<lparr>fapi_log := fapi_log st @ [(level, body)]\<rparr>)"

text \<open>The loop body of \<open>fapi_thread\<close> after a pointer has been received.\<close>

definition fapi_handle :: "u32 \<Rightarrow> fapi_rx \<Rightarrow> fapi_outcome" where
  "fapi_handle msg_addr st =
     (let msg = ipc_p2v st msg_addr; m = fapi_mem st; c = msg_channel_id m msg; body = ipc_p2v st (msg_body_addr m msg) in
      if msg_addr = 0 then Fapi_done st
      else if msg = 0 then Fapi_done st
      else if c \<ge> FAPI_CHANNELS_NUM then Fapi_done st
      else if c = FAPI_CHANNEL_CPRI_ETH then
        Fapi_done ((set_mem (store_be32 m (msg + 8) body) st)\<lparr>cpri_msgs := cpri_msgs st @ [msg]\<rparr>)
      else if c = FAPI_CHANNEL_P5_IND then fapi_push Q_p5 body st
      else if c = FAPI_CHANNEL_P7_IND then fapi_b4860_process_p7_message body st
      else if c = FAPI_CHANNEL_P8_IND then fapi_try_push Q_p8 body st
      else if c = FAPI_CHANNEL_LOG then
        (if body = 0 then Fapi_fault
         else Fapi_done (if m body = 0 then st else fapi_b4860_log_fsl body st))
      else Fapi_done st)"

definition fapi_thread_step :: "lock_result \<Rightarrow> (ipc_state \<Rightarrow> int \<times> u32 \<times> ipc_state) \<Rightarrow> fapi_rx \<Rightarrow> fapi_outcome" where
  "fapi_thread_step lk rd st =
     (case fsl_ipc_recv_ptr_block lk rd IPC_SC2PA_CH_ID (fipc st) of
        Inl _ \<Rightarrow> Fapi_fault
      | Inr (ret, out, ipc') \<Rightarrow>
          (let st' = st\<lparr>fipc := ipc'\<rparr> in
           if ret \<noteq> 0 then Fapi_done st'
           else case out of None \<Rightarrow> Fapi_done st' | Some (msg_addr, _) \<Rightarrow> fapi_handle msg_addr st'))"

fun fapi_thread_run :: "lock_result \<Rightarrow> (ipc_state \<Rightarrow> int \<times> u32 \<times> ipc_state) \<Rightarrow> nat \<Rightarrow> fapi_rx \<Rightarrow> fapi_outcome" where
  "fapi_thread_run lk rd 0 st = Fapi_done st"
| "fapi_thread_run lk rd (Suc n) st =
     (case fapi_thread_step lk rd st of Fapi_done st' \<Rightarrow> fapi_thread_run lk rd n st' | r \<Rightarrow> r)"

text \<open>A thread that sleeps in the push tries again when the queue signals room.\<close>

definition fapi_resume :: "fapi_outcome \<Rightarrow> fapi_outcome" where
  "fapi_resume r = (case r of Fapi_sleeps q item st \<Rightarrow> fapi_push q item st | _ \<Rightarrow> r)"

text \<open>\<open>ipc_reset_channel\<close> reads the channel empty; it ignores its argument.\<close>

lemma recv_ptr_progress:
  assumes "fsl_ipc_recv_ptr lk c st = Inr (0, out, st')"
  shows "ch_used (chan_of c st') < ch_used (chan_of c st)"
proof -
  obtain v where v: "get_channel_vaddr c st = Some v" "\<not> OS_HET_CH_EMPTY (chans st v)" "st' = set_chan v (advance_consumer (chans st v)) st"
    using assms by (auto simp: fsl_ipc_recv_ptr_def Let_def split: if_splits option.splits)
  have c: "chan_of c st = chans st v" "chan_of c st' = advance_consumer (chans st v)"
    using v by (auto simp: chan_of_def get_channel_vaddr_def set_chan_def split: if_splits)
  have "producer_num (chans st v) - consumer_num (chans st v) \<noteq> 0" using v(2) by (simp add: OS_HET_CH_EMPTY_def)
  then have "unat (producer_num (chans st v) - consumer_num (chans st v) - 1) < unat (producer_num (chans st v) - consumer_num (chans st v))"
    by (simp add: unat_pred_word unat_gt_0)
  then show ?thesis by (simp add: c ch_used_def advance_consumer_def diff_diff_eq)
qed

function ipc_drain :: "lock_result \<Rightarrow> ipc_state \<Rightarrow> (int \<times> ipc_state) ipc" where
  "ipc_drain lk st =
     (case fsl_ipc_recv_ptr lk IPC_SC2PA_CH_ID st of
        Inl e \<Rightarrow> Inl e
      | Inr (ret, _, st') \<Rightarrow> if ret = 0 then ipc_drain lk st' else Inr (ret, st'))"
  by auto
termination
  by (relation "measure (\<lambda>(lk, st). ch_used (chan_of 5 st))") (auto dest: recv_ptr_progress)

declare ipc_drain.simps [simp del]

definition ipc_reset_channel :: "lock_result \<Rightarrow> u32 \<Rightarrow> ipc_state \<Rightarrow> (int \<times> ipc_state) ipc" where
  "ipc_reset_channel lk chan st =
     (case ipc_drain lk st of
        Inl e \<Rightarrow> Inl e
      | Inr (ret, st') \<Rightarrow> Inr (if ret = - ERR_CHANNEL_EMPTY then 0 else ret, st'))"

section \<open>Where a message goes\<close>

text \<open>
  The queue a message is meant for and its body, as the memory stands; the addresses this
  depends on; the addresses the handling of the message writes.
\<close>

definition indication_queues :: "(u32 \<times> fapi_queue) list" where
  "indication_queues =
     [(0x82, Q_subframe), (0x85, Q_harq), (0x86, Q_crc), (0x87, Q_rx), (0x88, Q_rach), (0x8A, Q_sr), (0x8B, Q_cqi)]"

definition queue_of_indication :: "u32 \<Rightarrow> fapi_queue" where
  "queue_of_indication mid = (case map_of indication_queues mid of Some q \<Rightarrow> q | None \<Rightarrow> Q_p7)"

lemma queue_of_indication_eq [simp]: "queue_of_indication mid = ind_queue mid"
  by (simp add: queue_of_indication_def indication_queues_def ind_queue_def)

definition fapi_route :: "(u32 \<Rightarrow> vaddr) \<Rightarrow> mem \<Rightarrow> u32 \<Rightarrow> (fapi_queue \<times> vaddr) option" where
  "fapi_route p2v m a =
     (let msg = p2v a; c = msg_channel_id m msg; body = p2v (msg_body_addr m msg) in
      if a = 0 \<or> msg = 0 then None
      else if c = FAPI_CHANNEL_P5_IND then Some (Q_p5, body)
      else if c = FAPI_CHANNEL_P7_IND then Some (queue_of_indication (l1_message_id m body), body)
      else if c = FAPI_CHANNEL_P8_IND then Some (Q_p8, body)
      else None)"

definition is_rx :: "(u32 \<Rightarrow> vaddr) \<Rightarrow> mem \<Rightarrow> u32 \<Rightarrow> bool" where
  "is_rx p2v m a \<longleftrightarrow> msg_channel_id m (p2v a) = FAPI_CHANNEL_P7_IND \<and>
     l1_message_id m (p2v (msg_body_addr m (p2v a))) = FAPI_RX_ULSCH_INDICATION"

definition fapi_reads :: "(u32 \<Rightarrow> vaddr) \<Rightarrow> mem \<Rightarrow> u32 \<Rightarrow> vaddr set" where
  "fapi_reads p2v m a =
     (let msg = p2v a; body = p2v (msg_body_addr m msg) in
      span msg 4 \<union>
      (if msg_channel_id m msg = FAPI_CHANNEL_CPRI_ETH then {}
       else span (msg + 8) 4 \<union> span body 4 \<union> span (body + 16) 4))"

definition fapi_writes :: "(u32 \<Rightarrow> vaddr) \<Rightarrow> mem \<Rightarrow> u32 \<Rightarrow> vaddr set" where
  "fapi_writes p2v m a =
     (let msg = p2v a; body = p2v (msg_body_addr m msg) in
      if msg_channel_id m msg = FAPI_CHANNEL_CPRI_ETH then span (msg + 8) 4
      else if is_rx p2v m a then (\<Union>i < rx_count m body. span (rx_data_ptr body i) 4)
      else {})"

definition fapi_sane :: "(u32 \<Rightarrow> vaddr) \<Rightarrow> mem \<Rightarrow> u32 \<Rightarrow> bool" where
  "fapi_sane p2v m a \<longleftrightarrow>
     (let msg = p2v a; c = msg_channel_id m msg; body = p2v (msg_body_addr m msg) in
      (c = FAPI_CHANNEL_P7_IND \<or> c = FAPI_CHANNEL_LOG \<longrightarrow> body \<noteq> 0) \<and>
      (is_rx p2v m a \<longrightarrow> 20 + 32 * rx_count m body < 2 ^ 32))"

lemma fapi_view_stable:
  assumes "same_on (fapi_reads p2v m a) m m'"
  shows "fapi_route p2v m' a = fapi_route p2v m a" "fapi_reads p2v m' a = fapi_reads p2v m a"
    "fapi_writes p2v m' a = fapi_writes p2v m a" "fapi_sane p2v m' a = fapi_sane p2v m a"
proof -
  let ?msg = "p2v a" and ?body = "p2v (msg_body_addr m (p2v a))"
  have ld: "load_be32 m' x = load_be32 m x" if "span x 4 \<subseteq> fapi_reads p2v m a" for x
    using that assms by (blast intro: load_same_on same_on_subset)
  have c: "msg_channel_id m' ?msg = msg_channel_id m ?msg"
    unfolding msg_channel_id_def by (rule ld) (simp add: fapi_reads_def Let_def)
  have "fapi_route p2v m' a = fapi_route p2v m a \<and> fapi_reads p2v m' a = fapi_reads p2v m a \<and>
      fapi_writes p2v m' a = fapi_writes p2v m a \<and> fapi_sane p2v m' a = fapi_sane p2v m a"
  proof (cases "msg_channel_id m ?msg = 7")
    case True
    then show ?thesis
      using c by (simp add: fapi_route_def fapi_reads_def fapi_writes_def fapi_sane_def is_rx_def Let_def)
  next
    case False
    then have "load_be32 m' (?msg + 8) = load_be32 m (?msg + 8)" "load_be32 m' ?body = load_be32 m ?body"
      "load_be32 m' (?body + 16) = load_be32 m (?body + 16)"
      by (auto simp: fapi_reads_def Let_def intro!: ld)
    then have "msg_body_addr m' ?msg = msg_body_addr m ?msg" "l1_message_id m' ?body = l1_message_id m ?body"
      "rx_count m' ?body = rx_count m ?body"
      by (simp_all add: msg_body_addr_def l1_message_id_def rx_count_def)
    then show ?thesis
      using c False by (simp add: fapi_route_def fapi_reads_def fapi_writes_def fapi_sane_def is_rx_def Let_def)
  qed
  then show "fapi_route p2v m' a = fapi_route p2v m a" "fapi_reads p2v m' a = fapi_reads p2v m a"
    "fapi_writes p2v m' a = fapi_writes p2v m a" "fapi_sane p2v m' a = fapi_sane p2v m a" by simp_all
qed

section \<open>One message\<close>

lemma push_room:
  assumes "bq_wf q" "length (bq_ptrs q) < bq_capacity q" "\<not> push_break_flag q"
  shows "block_queue_push q p l = Returned True (bq_store q p l) [Not_empty_cond]"
  using assms bq_wfD(1,5) [OF assms(1)]
  by (auto simp: block_queue_push_def bq_ptrs_def bq_capacity_def)

lemma store_ptrs:
  assumes "bq_wf q" "length (bq_ptrs q) < bq_capacity q"
  shows "bq_wf (bq_store q p l)" "bq_ptrs (bq_store q p l) = bq_ptrs q @ [p]"
    "bq_capacity (bq_store q p l) = bq_capacity q"
  using assms bq_store_sim [of q p l] by (simp_all add: bq_ptrs_def bq_capacity_def)

definition add_item :: "fapi_queue \<Rightarrow> vaddr \<Rightarrow> (fapi_queue \<Rightarrow> block_queue) \<Rightarrow> fapi_queue \<Rightarrow> block_queue" where
  "add_item q item qs = qs(q := bq_store (qs q) item 8)"

definition q_room :: "fapi_queue \<Rightarrow> fapi_rx \<Rightarrow> bool" where
  "q_room q st \<longleftrightarrow> bq_wf (fq st q) \<and> length (bq_ptrs (fq st q)) < bq_capacity (fq st q) \<and>
     \<not> push_break_flag (fq st q)"

lemma fapi_push_room:
  assumes "q_room q st"
  shows "fapi_push q item st = Fapi_done (st\<lparr>fq := add_item q item (fq st)\<rparr>)"
    "fapi_try_push q item st = Fapi_done (st\<lparr>fq := add_item q item (fq st)\<rparr>)"
  using assms push_room try_push_room
  by (simp_all add: fapi_push_def fapi_try_push_def q_room_def add_item_def)

lemma rx_translate_same_on:
  "same_on (- (\<Union>k \<in> {i..<i + n}. span (rx_data_ptr body k) 4)) m (rx_translate p2v body i n m)"
proof (induction n arbitrary: i m)
  case (Suc n)
  let ?m = "store_be32 m (rx_data_ptr body i) (p2v (load_be32 m (rx_data_ptr body i)))"
  have "same_on (- (\<Union>k \<in> {i..<i + Suc n}. span (rx_data_ptr body k) 4)) m ?m"
    by (rule store_same_on) auto
  moreover have "same_on (- (\<Union>k \<in> {i..<i + Suc n}. span (rx_data_ptr body k) 4)) ?m
      (rx_translate p2v body (Suc i) n ?m)"
    by (rule same_on_subset [OF Suc.IH]) auto
  ultimately show ?case by (auto intro: same_on_trans)
qed simp

text \<open>What handling a message does to the queues and to memory.\<close>

definition fapi_effect :: "u32 \<Rightarrow> fapi_rx \<Rightarrow> fapi_rx \<Rightarrow> bool" where
  "fapi_effect a st st' \<longleftrightarrow>
     fq st' = (case fapi_route (ipc_p2v st) (fapi_mem st) a of
                 None \<Rightarrow> fq st | Some (q, body) \<Rightarrow> add_item q body (fq st)) \<and>
     (\<exists>m. fipc st' = (fipc st)\<lparr>bytes := m\<rparr> \<and>
        same_on (- fapi_writes (ipc_p2v st) (fapi_mem st) a) (fapi_mem st) m)"

lemma process_p7_effect:
  assumes "q_room (ind_queue (l1_message_id (fapi_mem st) body)) st" "body \<noteq> 0"
    "20 + 32 * rx_count (fapi_mem st) body < 2 ^ 32 \<or>
      l1_message_id (fapi_mem st) body \<noteq> FAPI_RX_ULSCH_INDICATION"
  shows "\<exists>st' m. fapi_b4860_process_p7_message body st = Fapi_done st' \<and>
    fq st' = add_item (ind_queue (l1_message_id (fapi_mem st) body)) body (fq st) \<and>
    fipc st' = (fipc st)\<lparr>bytes := m\<rparr> \<and>
    same_on (if l1_message_id (fapi_mem st) body = FAPI_RX_ULSCH_INDICATION
      then - (\<Union>k < rx_count (fapi_mem st) body. span (rx_data_ptr body k) 4) else UNIV) (fapi_mem st) m"
proof (cases "l1_message_id (fapi_mem st) body = FAPI_RX_ULSCH_INDICATION")
  case True
  let ?m = "rx_translate (ipc_p2v st) body 0 (rx_count (fapi_mem st) body) (fapi_mem st)"
  have "q_room Q_rx (set_mem ?m st)" using assms(1) True by (simp add: q_room_def set_mem_def ind_queue_def)
  moreover have "same_on (- (\<Union>k < rx_count (fapi_mem st) body. span (rx_data_ptr body k) 4)) (fapi_mem st) ?m"
    using rx_translate_same_on [of body 0 "rx_count (fapi_mem st) body"] by (simp add: atLeast0LessThan)
  ultimately show ?thesis using assms True
    by (auto simp: fapi_b4860_process_p7_message_def Let_def fapi_push_room ind_queue_def set_mem_def)
next
  case False
  have "fipc st = (fipc st)\<lparr>bytes := fapi_mem st\<rparr>" by (simp add: fapi_mem_def)
  then show ?thesis using assms False
    by (auto simp: fapi_b4860_process_p7_message_def Let_def fapi_push_room intro!: exI [of _ "fapi_mem st"])
qed

lemma channel_numbers [simp]: "\<not> (10 :: u32) \<le> 1"
  by (simp add: word_le_nat_alt)

lemma fapi_handle_effect:
  assumes sane: "fapi_sane (ipc_p2v st) (fapi_mem st) a"
    and room: "\<And>q body. fapi_route (ipc_p2v st) (fapi_mem st) a = Some (q, body) \<Longrightarrow> q_room q st"
  shows "\<exists>st'. fapi_handle a st = Fapi_done st' \<and> fapi_effect a st st'"
proof -
  let ?msg = "ipc_p2v st a" and ?m = "fapi_mem st"
  let ?c = "msg_channel_id ?m ?msg" and ?body = "ipc_p2v st (msg_body_addr ?m ?msg)"
  have id: "\<exists>m. fipc st = (fipc st)\<lparr>bytes := m\<rparr> \<and> same_on S ?m m" for S
    by (rule exI [of _ ?m]) (simp add: fapi_mem_def)
  consider "a = 0 \<or> ?msg = 0" | "a \<noteq> 0" "?msg \<noteq> 0" "?c = 7" | "a \<noteq> 0" "?msg \<noteq> 0" "?c = 1"
    | "a \<noteq> 0" "?msg \<noteq> 0" "?c = 3" | "a \<noteq> 0" "?msg \<noteq> 0" "?c = 9"
    | "a \<noteq> 0" "?msg \<noteq> 0" "?c = 5" | "a \<noteq> 0" "?msg \<noteq> 0" "?c \<notin> {1, 3, 5, 7, 9}" by auto
  then show ?thesis
  proof cases
    case 2
    then show ?thesis
      by (auto simp: fapi_handle_def fapi_effect_def fapi_route_def fapi_writes_def Let_def set_mem_def
          intro!: store_same_on)
  next
    case 3
    then have "q_room Q_p5 st" using room by (simp add: fapi_route_def Let_def)
    then show ?thesis using 3 id
      by (simp add: fapi_handle_def fapi_effect_def fapi_route_def Let_def fapi_push_room)
  next
    case 4
    then have "?body \<noteq> 0" "q_room (ind_queue (l1_message_id ?m ?body)) st"
      using room sane by (simp_all add: fapi_route_def fapi_sane_def Let_def)
    then show ?thesis
      using 4 process_p7_effect [of st ?body] sane
      by (fastforce simp: fapi_handle_def fapi_effect_def fapi_route_def fapi_writes_def fapi_sane_def is_rx_def Let_def
          split: if_splits intro: same_on_subset)
  next
    case 5
    then have "q_room Q_p8 st" using room by (simp add: fapi_route_def Let_def)
    then show ?thesis using 5 id
      by (simp add: fapi_handle_def fapi_effect_def fapi_route_def Let_def fapi_push_room)
  next
    case 6
    then show ?thesis using sane id
      by (auto simp: fapi_handle_def fapi_effect_def fapi_route_def fapi_sane_def fapi_b4860_log_fsl_def Let_def)
  qed (use id in \<open>auto simp: fapi_handle_def fapi_effect_def fapi_route_def Let_def\<close>)
qed

lemma rx_data_ptr_disjoint:
  assumes "i < k" "20 + 32 * k + 32 \<le> 2 ^ 32"
  shows "span (rx_data_ptr body i) 4 \<inter> span (rx_data_ptr body k) 4 = {}"
  using span_offsets_disjoint [of "48 + 32 * i" 4 "48 + 32 * k" 4 body] assms
  by (simp add: rx_data_ptr_def add.assoc)

lemma rx_translate_loads:
  assumes "i \<le> k" "k < i + n" "20 + 32 * (i + n) < 2 ^ 32"
  shows "load_be32 (rx_translate p2v body i n m) (rx_data_ptr body k) = p2v (load_be32 m (rx_data_ptr body k))"
  using assms
proof (induction n arbitrary: i m)
  case (Suc n)
  let ?w = "p2v (load_be32 m (rx_data_ptr body i))"
  let ?m = "store_be32 m (rx_data_ptr body i) ?w"
  show ?case
  proof (cases "i = k")
    case True
    have "span (rx_data_ptr body i) 4 \<inter> span (rx_data_ptr body j) 4 = {}" if "j \<in> {Suc i..<Suc i + n}" for j
      using that Suc.prems by (intro rx_data_ptr_disjoint) auto
    then have "same_on (span (rx_data_ptr body i) 4) ?m (rx_translate p2v body (Suc i) n ?m)"
      by (intro same_on_subset [OF rx_translate_same_on]) blast
    then show ?thesis using True load_same_on [of "rx_data_ptr body i"] by simp
  next
    case False
    then have "i < k" using Suc.prems(1) by simp
    then have "span (rx_data_ptr body i) 4 \<inter> span (rx_data_ptr body k) 4 = {}"
      using Suc.prems by (intro rx_data_ptr_disjoint) auto
    then have "load_be32 ?m (rx_data_ptr body k) = load_be32 m (rx_data_ptr body k)"
      by (intro load_same_on store_same_on) blast
    then show ?thesis using Suc.IH [of "Suc i" ?m] Suc.prems \<open>i < k\<close> by simp
  qed
qed simp

section \<open>The pending messages\<close>

lemma set_bytes_views [simp]:
  "ptr_wf c (s\<lparr>bytes := m\<rparr>) = ptr_wf c s" "ptr_contents c (s\<lparr>bytes := m\<rparr>) = ptr_contents c s"
  "chan_of c (s\<lparr>bytes := m\<rparr>) = chan_of c s"
proof -
  show c: "chan_of c (s\<lparr>bytes := m\<rparr>) = chan_of c s" by (simp add: chan_of_def)
  show "ptr_wf c (s\<lparr>bytes := m\<rparr>) = ptr_wf c s" by (simp add: ptr_wf_def c)
  show "ptr_contents c (s\<lparr>bytes := m\<rparr>) = ptr_contents c s"
    unfolding ptr_contents_def c by (subst ch_contents_cong [of _ s]) simp_all
qed

definition fapi_pending :: "fapi_rx \<Rightarrow> u32 list" where
  "fapi_pending st = map fst (ptr_contents IPC_SC2PA_CH_ID (fipc st))"

lemma pending_not_empty: "ptr_contents c s \<noteq> [] \<Longrightarrow> \<not> OS_HET_CH_EMPTY (chan_of c s)"
  by (auto simp: ptr_contents_def empty_iff simp flip: length_0_conv)

lemma fapi_thread_step_item:
  assumes "ptr_wf 5 (fipc st)" "fapi_pending st = a # as"
  shows "\<exists>ipc'. fapi_thread_step (\<lambda>_. 0) rd st = fapi_handle a (st\<lparr>fipc := ipc'\<rparr>) \<and> ptr_wf 5 ipc' \<and>
    map fst (ptr_contents 5 ipc') = as \<and> us ipc' = us (fipc st) \<and> bytes ipc' = bytes (fipc st)"
proof -
  let ?s = "fipc st" let ?ch = "chan_of 5 ?s"
  have "ptr_contents 5 ?s \<noteq> []" using assms(2) by (auto simp: fapi_pending_def)
  then have ne: "\<not> OS_HET_CH_EMPTY ?ch" by (rule pending_not_empty)
  obtain x s' where d: "ptr_deq 5 ?s = Some (x, s')" "ptr_contents 5 ?s = x # ptr_contents 5 s'" "ptr_wf 5 s'"
    using ptr_deq_item [OF assms(1) ne] by blast
  have "bd_ring_size ?ch \<noteq> 0" using assms(1) chan_okD(7) [of ?ch] by (simp add: ptr_wf_def)
  then have r: "fsl_ipc_recv_ptr (\<lambda>_. 0) 5 ?s = Inr (0, Some x, s')" "us s' = us ?s" "bytes s' = bytes ?s"
    using recv_ptr_success [of 5 ?s "\<lambda>_. 0"] assms(1) ne d(1) by (auto simp: ptr_wf_def ptr_deq_def)
  show ?thesis
    using assms r d by (intro exI [of _ s'])
      (auto simp: fapi_thread_step_def fsl_ipc_recv_ptr_block_def fapi_pending_def ptr_wf_def Let_def split: prod.splits)
qed

text \<open>
  The bodies the pending messages send to a queue, in the order of the channel. The dispatcher is
  ready when the queues have room for them, the messages are well formed, and no message is written
  over by the handling of another.
\<close>

definition routed_to :: "fapi_queue \<Rightarrow> (u32 \<Rightarrow> vaddr) \<Rightarrow> mem \<Rightarrow> u32 list \<Rightarrow> vaddr list" where
  "routed_to q p2v m as =
     concat (map (\<lambda>a. case fapi_route p2v m a of Some (q', body) \<Rightarrow> if q' = q then [body] else [] | None \<Rightarrow> []) as)"

definition msgs_ready :: "(u32 \<Rightarrow> vaddr) \<Rightarrow> mem \<Rightarrow> u32 list \<Rightarrow> bool" where
  "msgs_ready p2v m as \<longleftrightarrow>
     (\<forall>a \<in> set as. fapi_sane p2v m a) \<and>
     (\<forall>a \<in> set as. \<forall>b \<in> set as. fapi_writes p2v m a \<inter> fapi_reads p2v m b = {})"

definition queues_ready :: "(fapi_queue \<Rightarrow> block_queue) \<Rightarrow> (u32 \<Rightarrow> vaddr) \<Rightarrow> mem \<Rightarrow> u32 list \<Rightarrow> bool" where
  "queues_ready qs p2v m as \<longleftrightarrow>
     (\<forall>q. bq_wf (qs q) \<and> \<not> push_break_flag (qs q) \<and>
        length (bq_ptrs (qs q)) + length (routed_to q p2v m as) \<le> bq_capacity (qs q))"

definition fapi_ready :: "fapi_rx \<Rightarrow> bool" where
  "fapi_ready st \<longleftrightarrow> ptr_wf IPC_SC2PA_CH_ID (fipc st) \<and>
     msgs_ready (ipc_p2v st) (fapi_mem st) (fapi_pending st) \<and>
     queues_ready (fq st) (ipc_p2v st) (fapi_mem st) (fapi_pending st)"

lemma msgs_stable:
  assumes "msgs_ready p2v m (a # as)" "same_on (- fapi_writes p2v m a) m m'"
  shows "msgs_ready p2v m' as" "routed_to q p2v m' as = routed_to q p2v m as"
proof -
  have "same_on (fapi_reads p2v m b) m m'" if "b \<in> set as" for b
    by (rule same_on_subset [OF assms(2)]) (use assms(1) that in \<open>auto simp: msgs_ready_def\<close>)
  note st = fapi_view_stable [OF this]
  show "msgs_ready p2v m' as" using assms(1) st by (simp add: msgs_ready_def)
  show "routed_to q p2v m' as = routed_to q p2v m as"
    unfolding routed_to_def using st(1) by (intro arg_cong [where f = concat] map_cong) simp_all
qed

lemma routed_to_Cons:
  "routed_to q p2v m (a # as) =
     (case fapi_route p2v m a of Some (q', body) \<Rightarrow> if q' = q then [body] else [] | None \<Rightarrow> []) @ routed_to q p2v m as"
  by (simp add: routed_to_def)

lemma queues_readyD:
  assumes "queues_ready qs p2v m as"
  shows "bq_wf (qs q)" "\<not> push_break_flag (qs q)"
    "length (bq_ptrs (qs q)) + length (routed_to q p2v m as) \<le> bq_capacity (qs q)"
  using assms by (simp_all add: queues_ready_def)

lemma queues_after:
  assumes "queues_ready qs p2v m (a # as)"
    "qs' = (case fapi_route p2v m a of None \<Rightarrow> qs | Some (q, body) \<Rightarrow> add_item q body qs)"
  shows "queues_ready qs' p2v m as"
    "bq_ptrs (qs' q) @ routed_to q p2v m as = bq_ptrs (qs q) @ routed_to q p2v m (a # as)"
proof -
  have "queues_ready qs' p2v m as \<and>
    bq_ptrs (qs' q) @ routed_to q p2v m as = bq_ptrs (qs q) @ routed_to q p2v m (a # as)"
  proof (cases "fapi_route p2v m a")
    case None
    then show ?thesis using assms by (simp add: queues_ready_def routed_to_Cons)
  next
    case (Some x)
    obtain q' body where x: "x = (q', body)" by (cases x)
    note k = queues_readyD [OF assms(1)]
    have "bq_wf (qs q')" "length (bq_ptrs (qs q')) < bq_capacity (qs q')"
      using k [of q'] by (simp_all add: routed_to_Cons Some x)
    note st = store_ptrs [OF this, of body 8]
    have q': "qs' = qs(q' := bq_store (qs q') body 8)" using assms(2) by (simp add: Some x add_item_def)
    have "bq_wf (qs' k) \<and> \<not> push_break_flag (qs' k) \<and>
        length (bq_ptrs (qs' k)) + length (routed_to k p2v m as) \<le> bq_capacity (qs' k)" for k
      using k [of k] st by (cases "k = q'") (simp_all add: q' routed_to_Cons Some x)
    then have "queues_ready qs' p2v m as" by (simp add: queues_ready_def)
    then show ?thesis using st by (cases "q = q'") (simp_all add: q' routed_to_Cons Some x)
  qed
  then show "queues_ready qs' p2v m as"
    "bq_ptrs (qs' q) @ routed_to q p2v m as = bq_ptrs (qs q) @ routed_to q p2v m (a # as)" by simp_all
qed

lemma dispatch_run:
  assumes "fapi_ready st"
  shows "\<exists>st'. fapi_thread_run (\<lambda>_. 0) rd (length (fapi_pending st)) st = Fapi_done st' \<and> fapi_pending st' = [] \<and>
    (\<forall>q. bq_ptrs (fq st' q) = bq_ptrs (fq st q) @ routed_to q (ipc_p2v st) (fapi_mem st) (fapi_pending st))"
  using assms
proof (induction "fapi_pending st" arbitrary: st)
  case Nil
  then show ?case by (simp add: routed_to_def flip: Nil.hyps)
next
  case (Cons a as)
  let ?m = "fapi_mem st" and ?p = "ipc_p2v st"
  obtain s where s: "fapi_thread_step (\<lambda>_. 0) rd st = fapi_handle a (st\<lparr>fipc := s\<rparr>)" "ptr_wf 5 s"
      "map fst (ptr_contents 5 s) = as" "us s = us (fipc st)" "bytes s = bytes (fipc st)"
    using fapi_thread_step_item [of st a as] Cons.prems Cons.hyps(2) by (metis fapi_ready_def)
  let ?st = "st\<lparr>fipc := s\<rparr>"
  have v: "ipc_p2v ?st = ?p" "fapi_mem ?st = ?m" using s by (simp_all add: ipc_p2v_def fapi_mem_def fun_eq_iff)
  have rdy: "msgs_ready ?p ?m (a # as)" "queues_ready (fq st) ?p ?m (a # as)"
    using Cons.prems Cons.hyps(2) by (simp_all add: fapi_ready_def)
  have "q_room q ?st" if "fapi_route ?p ?m a = Some (q, body)" for q body
    using queues_readyD [OF rdy(2), of q] that by (simp add: q_room_def routed_to_Cons)
  then obtain st1 where h: "fapi_handle a ?st = Fapi_done st1" "fapi_effect a ?st st1"
    using fapi_handle_effect [of ?st a] rdy(1) v by (auto simp: msgs_ready_def)
  obtain m where m: "fipc st1 = s\<lparr>bytes := m\<rparr>" "same_on (- fapi_writes ?p ?m a) ?m m"
    using h(2) v by (auto simp: fapi_effect_def)
  have q1: "fq st1 = (case fapi_route ?p ?m a of None \<Rightarrow> fq st | Some (q, body) \<Rightarrow> add_item q body (fq st))"
    using h(2) v by (simp add: fapi_effect_def split: option.splits prod.splits)
  have v1: "ipc_p2v st1 = ?p" "fapi_mem st1 = m" "fapi_pending st1 = as"
    using m s by (simp_all add: ipc_p2v_def fapi_mem_def fapi_pending_def fun_eq_iff)
  note stable = msgs_stable [OF rdy(1) m(2)] and qs = queues_after [OF rdy(2) q1]
  have "fapi_ready st1"
    using m(1) s(2) stable qs(1) by (simp add: fapi_ready_def v1 queues_ready_def)
  from Cons.hyps(1) [OF v1(3) [symmetric] this] show ?case
    using s(1) h(1) qs(2) stable(2) by (simp add: v1 flip: Cons.hyps(2))
qed

end
