(* ===== verification/FAPI_Rx_Props.thy ===== *)
theory FAPI_Rx_Props
  imports FAPI_Dispatch
begin

text \<open>
  What the dispatcher of the FAPI library guarantees, on a sample system with two messages pending:
  a P5 answer and an uplink data indication with one PDU.
\<close>

section \<open>A sample system\<close>

definition dispatch_mem :: mem where
  "dispatch_mem =
     (\<lambda>_. 0)(0x1203 := 1, 0x120B := 0x40, 0x1303 := 3, 0x130A := 3, 0x130B := 0x40,
             0x1343 := 0x87, 0x1353 := 1, 0x1372 := 0x55)"

definition dispatch_sample :: fapi_rx where
  "dispatch_sample =
     \<lparr>fq = (\<lambda>_. block_queue_init 2),
      fipc = sample_state
        \<lparr>us := (us sample_state)\<lparr>p2vcb := \<lambda>a. a + 0x1000\<rparr>,
         chans := (\<lambda>_. (sample_channel 5)\<lparr>producer_num := 2, local_producer_num := 3\<rparr>),
         bds := (\<lambda>a. \<lparr>msg_ptr = (if a = 0x2150 then 0x200 else 0x300), msg_len = 0\<rparr>),
         bytes := dispatch_mem\<rparr>,
      cpri_msgs = [], fapi_log = []\<rparr>"

lemma dispatch_sample_views [simp]:
  "ipc_p2v dispatch_sample = (\<lambda>a. a + 0x1000)" "fapi_mem dispatch_sample = dispatch_mem"
  "fq dispatch_sample = (\<lambda>_. block_queue_init 2)"
  by (simp_all add: fun_eq_iff ipc_p2v_def fapi_mem_def dispatch_sample_def)

lemma dispatch_sample_channel:
  "ptr_wf 5 (fipc dispatch_sample)" "fapi_pending dispatch_sample = [0x200, 0x300]"
proof -
  let ?ch = "(sample_channel 5)\<lparr>producer_num := 2, local_producer_num := 3\<rparr>"
  have c: "chan_of 5 (fipc dispatch_sample) = ?ch" by (simp add: chan_of_def dispatch_sample_def)
  show "ptr_wf 5 (fipc dispatch_sample)"
    unfolding ptr_wf_def c
    by (simp add: sample_channel_def chan_ok_def ch_used_def dispatch_sample_def sample_state_def Let_def)
  have "bd_at (fipc dispatch_sample) ?ch k = 0x2140 + k * 16" for k
    by (simp add: bd_at_def IPC_CH_VADDR_def sample_channel_def dispatch_sample_def sample_state_def blank_us_def Let_def)
  then have "ring_bds (fipc dispatch_sample) ?ch =
      map (\<lambda>a. \<lparr>msg_ptr = a, msg_len = 0\<rparr>) [0x300, 0x200, 0x300, 0x300]"
    by (simp add: ring_bds_def dispatch_sample_def sample_channel_def upt_rec)
  moreover have "unat (local_consumer_num ?ch) = 1" "ch_used ?ch = Suc (Suc 0)"
    by (simp_all add: sample_channel_def ch_used_def)
  ultimately show "fapi_pending dispatch_sample = [0x200, 0x300]"
    by (simp add: fapi_pending_def ptr_contents_def c ch_contents_def ring_slice_Suc_front bd_view_def)
qed

lemma dispatch_mem_loads:
  "load_be32 dispatch_mem 0x1200 = 1" "load_be32 dispatch_mem 0x1208 = 0x40"
  "load_be32 dispatch_mem 0x1300 = 3" "load_be32 dispatch_mem 0x1308 = 0x340"
  "load_be32 dispatch_mem 0x1340 = 0x87" "load_be32 dispatch_mem 0x1350 = 1"
  "load_be32 dispatch_mem 0x1370 = 0x5500"
  by (simp_all add: load_be32_def dispatch_mem_def of_be32_def)

lemma dispatch_sample_routes:
  "fapi_route (\<lambda>a. a + 0x1000) dispatch_mem 0x200 = Some (Q_p5, 0x1040)"
  "fapi_route (\<lambda>a. a + 0x1000) dispatch_mem 0x300 = Some (Q_rx, 0x1340)"
  by (simp_all add: fapi_route_def msg_channel_id_def msg_body_addr_def l1_message_id_def dispatch_mem_loads
      ind_queue_def Let_def)

lemma dispatch_sample_msgs: "msgs_ready (\<lambda>a. a + 0x1000) dispatch_mem [0x200, 0x300]"
proof -
  note loads = msg_channel_id_def msg_body_addr_def l1_message_id_def dispatch_mem_loads rx_count_def is_rx_def
  have "fapi_writes (\<lambda>a. a + 0x1000) dispatch_mem 0x200 = {}"
    "fapi_writes (\<lambda>a. a + 0x1000) dispatch_mem 0x300 = span 0x1370 4"
    by (simp_all add: fapi_writes_def loads Let_def rx_data_ptr_def lessThan_Suc)
  moreover have "fapi_reads (\<lambda>a. a + 0x1000) dispatch_mem 0x200 =
      span 0x1200 4 \<union> (span 0x1208 4 \<union> span 0x1040 4 \<union> span 0x1050 4)"
    "fapi_reads (\<lambda>a. a + 0x1000) dispatch_mem 0x300 =
      span 0x1300 4 \<union> (span 0x1308 4 \<union> span 0x1340 4 \<union> span 0x1350 4)"
    by (simp_all add: fapi_reads_def loads Let_def)
  moreover have "fapi_sane (\<lambda>a. a + 0x1000) dispatch_mem 0x200" "fapi_sane (\<lambda>a. a + 0x1000) dispatch_mem 0x300"
    by (simp_all add: fapi_sane_def loads Let_def)
  ultimately show ?thesis by (simp add: msgs_ready_def Int_Un_distrib span_disjointI)
qed

lemma init_2_views:
  "bq_wf (block_queue_init 2)" "bq_ptrs (block_queue_init 2) = []" "bq_capacity (block_queue_init 2) = 2"
  using bq_wf_init [of 2] by (simp_all add: bq_ptrs_def bq_capacity_def block_queue_init_2)

lemma dispatch_sample_ready: "fapi_ready dispatch_sample"
  unfolding fapi_ready_def
  by (simp add: dispatch_sample_channel dispatch_sample_msgs queues_ready_def init_2_views routed_to_def
      dispatch_sample_routes) (simp add: block_queue_init_2)

section \<open>Properties\<close>

text \<open>C4: The dispatcher delivers every pending message of the DSP: with room in the queues and messages
  that do not overlap, as many turns of its loop as there are messages empty the channel, and each
  queue has grown by exactly the bodies of the messages meant for it, in the order they were sent.
  The uplink indications it rewrites in between change no other message.\<close>

theorem fapi_dispatch_in_order:
  assumes "fapi_ready st"
  shows "\<exists>st'. fapi_thread_run (\<lambda>_. 0) rd (length (fapi_pending st)) st = Fapi_done st' \<and> fapi_pending st' = [] \<and>
    (\<forall>q. bq_ptrs (fq st' q) = bq_ptrs (fq st q) @ routed_to q (ipc_p2v st) (fapi_mem st) (fapi_pending st))"
  by (rule dispatch_run [OF assms])

theorem fapi_dispatch_in_order_witness:
  "\<exists>st'. fapi_thread_run (\<lambda>_. 0) (\<lambda>s. (0, 0, s)) 2 dispatch_sample = Fapi_done st' \<and>
    bq_ptrs (fq st' Q_p5) = [0x1040] \<and> bq_ptrs (fq st' Q_rx) = [0x1340]"
  using fapi_dispatch_in_order [OF dispatch_sample_ready, of "\<lambda>s. (0, 0, s)"]
  by (auto simp: dispatch_sample_channel(2) init_2_views routed_to_def dispatch_sample_routes numeral_2_eq_2)

text \<open>C34: An uplink data indication reaches its queue with every PDU's data pointer translated from the
  physical address the DSP wrote to an address of this process, each exactly once, and no other byte
  of memory changed.\<close>

theorem rx_indication_translated:
  assumes "q_room Q_rx st" "body \<noteq> 0" "l1_message_id (fapi_mem st) body = FAPI_RX_ULSCH_INDICATION"
    "20 + 32 * rx_count (fapi_mem st) body < 2 ^ 32"
  shows "\<exists>st'. fapi_b4860_process_p7_message body st = Fapi_done st' \<and>
    bq_ptrs (fq st' Q_rx) = bq_ptrs (fq st Q_rx) @ [body] \<and>
    (\<forall>i < rx_count (fapi_mem st) body.
       load_be32 (fapi_mem st') (rx_data_ptr body i) = ipc_p2v st (load_be32 (fapi_mem st) (rx_data_ptr body i))) \<and>
    (\<forall>x. (\<forall>i < rx_count (fapi_mem st) body. x \<notin> span (rx_data_ptr body i) 4) \<longrightarrow> fapi_mem st' x = fapi_mem st x)"
proof -
  let ?m = "rx_translate (ipc_p2v st) body 0 (rx_count (fapi_mem st) body) (fapi_mem st)"
  have "q_room Q_rx (set_mem ?m st)" using assms(1) by (simp add: q_room_def set_mem_def)
  then have r: "fapi_b4860_process_p7_message body st =
      Fapi_done ((set_mem ?m st)\<lparr>fq := add_item Q_rx body (fq (set_mem ?m st))\<rparr>)"
    using assms by (simp add: fapi_b4860_process_p7_message_def Let_def fapi_push_room)
  have "same_on (- (\<Union>k < rx_count (fapi_mem st) body. span (rx_data_ptr body k) 4)) (fapi_mem st) ?m"
    using rx_translate_same_on [of body 0 "rx_count (fapi_mem st) body"] by (simp add: atLeast0LessThan)
  then show ?thesis
    using r rx_translate_loads [of 0 _ "rx_count (fapi_mem st) body"] assms(1,4)
      store_ptrs(2) [of "fq st Q_rx" body 8]
    by (simp add: set_mem_def fapi_mem_def add_item_def q_room_def same_on_def)
qed

theorem rx_indication_translated_witness:
  "\<exists>st'. fapi_b4860_process_p7_message 0x1340 dispatch_sample = Fapi_done st' \<and>
    load_be32 (fapi_mem st') 0x1370 = 0x6500"
proof -
  have "rx_count dispatch_mem 0x1340 = 1" "l1_message_id dispatch_mem 0x1340 = 0x87"
    by (simp_all add: rx_count_def l1_message_id_def dispatch_mem_loads)
  moreover have "q_room Q_rx dispatch_sample" by (simp add: q_room_def init_2_views) (simp add: block_queue_init_2)
  ultimately show ?thesis
    using rx_indication_translated [of dispatch_sample "0x1340"]
    by (auto simp: rx_data_ptr_def dispatch_mem_loads)
qed

section \<open>Full queues\<close>

definition q_full :: "fapi_queue \<Rightarrow> fapi_rx \<Rightarrow> bool" where
  "q_full q st \<longleftrightarrow> bq_wf (fq st q) \<and> length (bq_ptrs (fq st q)) = bq_capacity (fq st q) \<and>
     \<not> push_break_flag (fq st q) \<and> \<not> pop_break_flag (fq st q)"

lemma fapi_push_full:
  assumes "q_full q st"
  shows "fapi_push q item st = Fapi_sleeps q item st" "fapi_try_push q item st = Fapi_done st"
  using assms num_items_eq_len [of "fq st q"]
  by (simp_all add: q_full_def fapi_push_def fapi_try_push_def block_queue_push_def block_queue_try_push_def bq_ptrs_def)

lemma ind_queue_not_p8 [simp]: "ind_queue mid \<noteq> Q_p8" "ind_queue mid \<noteq> Q_p5"
  by (simp_all add: ind_queue_def)

lemma fapi_handle_full:
  assumes "fapi_sane (ipc_p2v st) (fapi_mem st) a" "fapi_route (ipc_p2v st) (fapi_mem st) a = Some (q, body)"
    "q_full q st"
  shows "\<exists>st' m. fapi_handle a st = (if q = Q_p8 then Fapi_done st' else Fapi_sleeps q body st') \<and>
    fq st' = fq st \<and> fipc st' = (fipc st)\<lparr>bytes := m\<rparr>"
proof -
  let ?msg = "ipc_p2v st a" and ?m = "fapi_mem st"
  let ?c = "msg_channel_id ?m ?msg"
  have id: "fipc st = (fipc st)\<lparr>bytes := ?m\<rparr>" by (simp add: fapi_mem_def)
  have nz: "a \<noteq> 0" "?msg \<noteq> 0" and body: "body = ipc_p2v st (msg_body_addr ?m ?msg)"
    using assms(2) by (auto simp: fapi_route_def Let_def split: if_splits)
  consider "?c = 1" "q = Q_p5" | "?c = 9" "q = Q_p8" | "?c = 3" "q = ind_queue (l1_message_id ?m body)"
    using assms(2) by (auto simp: fapi_route_def Let_def split: if_splits)
  then show ?thesis
  proof cases
    case 3
    let ?m' = "rx_translate (ipc_p2v st) body 0 (rx_count ?m body) ?m"
    have "q_full q (set_mem ?m' st)" using assms(3) by (simp add: q_full_def set_mem_def)
    moreover have "body \<noteq> 0" "l1_message_id ?m body = FAPI_RX_ULSCH_INDICATION \<Longrightarrow> 20 + 32 * rx_count ?m body < 2 ^ 32"
      using assms(1) 3 nz body by (auto simp: fapi_sane_def is_rx_def Let_def)
    ultimately have "\<exists>st' m. fapi_b4860_process_p7_message body st = Fapi_sleeps q body st' \<and>
        fq st' = fq st \<and> fipc st' = (fipc st)\<lparr>bytes := m\<rparr>"
      using 3(2) id assms(3) by (cases "l1_message_id ?m body = FAPI_RX_ULSCH_INDICATION")
        (auto simp: fapi_b4860_process_p7_message_def Let_def ind_queue_def fapi_push_full set_mem_def)
    then show ?thesis using 3 nz body by (auto simp: fapi_handle_def Let_def)
  qed (use assms(3) nz body id in \<open>auto simp: fapi_handle_def Let_def fapi_push_full\<close>)
qed

lemma pop_item:
  assumes "bq_wf q" "bq_ptrs q = p # ps" "\<not> pop_break_flag q"
  shows "block_queue_pop q = Returned p ((bq_remove q)\<lparr>pop_break_flag := False\<rparr>) [Not_full_cond]"
    "bq_ptrs ((bq_remove q)\<lparr>pop_break_flag := False\<rparr>) = ps"
  using assms(3) try_pop_item [OF assms(1,2)] by (auto simp: block_queue_pop_def block_queue_try_pop_def bq_ptrs_def split: if_splits)

text \<open>A full queue stops the dispatcher: it sleeps with the message in hand, and the messages behind
  it, for whatever queue, stay in the channel; when a reader pops an entry the message is delivered
  behind the others. Only the P8 queue is different: a message it has no room for is dropped and the
  loop goes on.\<close>

lemma fapi_full_queue:
  assumes "ptr_wf IPC_SC2PA_CH_ID (fipc st)" "fapi_pending st = a # as" "fapi_sane (ipc_p2v st) (fapi_mem st) a"
    "fapi_route (ipc_p2v st) (fapi_mem st) a = Some (q, body)" "q_full q st"
  shows "\<exists>st'. fapi_thread_step (\<lambda>_. 0) rd st = (if q = Q_p8 then Fapi_done st' else Fapi_sleeps q body st') \<and>
    fq st' = fq st \<and> fapi_pending st' = as \<and>
    (\<forall>p bq bs. block_queue_pop (fq st q) = Returned p bq bs \<longrightarrow>
       (\<exists>st''. fapi_resume (Fapi_sleeps q body (st'\<lparr>fq := (fq st')(q := bq)\<rparr>)) = Fapi_done st'' \<and>
          p # bq_ptrs (fq st'' q) = bq_ptrs (fq st q) @ [body] \<and> fapi_pending st'' = as))"
proof -
  obtain s where s: "fapi_thread_step (\<lambda>_. 0) rd st = fapi_handle a (st\<lparr>fipc := s\<rparr>)"
      "map fst (ptr_contents 5 s) = as" "us s = us (fipc st)" "bytes s = bytes (fipc st)"
    using fapi_thread_step_item [OF assms(1,2)] by blast
  have v: "ipc_p2v (st\<lparr>fipc := s\<rparr>) = ipc_p2v st" "fapi_mem (st\<lparr>fipc := s\<rparr>) = fapi_mem st" "q_full q (st\<lparr>fipc := s\<rparr>)"
    using s assms(5) by (simp_all add: ipc_p2v_def fapi_mem_def fun_eq_iff q_full_def)
  obtain st' m where h: "fapi_handle a (st\<lparr>fipc := s\<rparr>) = (if q = Q_p8 then Fapi_done st' else Fapi_sleeps q body st')"
      "fq st' = fq st" "fipc st' = s\<lparr>bytes := m\<rparr>"
    using fapi_handle_full [of "st\<lparr>fipc := s\<rparr>" a q body] assms(3,4) v by auto
  have pend: "fapi_pending st' = as" using h(3) s(2) by (simp add: fapi_pending_def)
  have "\<exists>st''. fapi_resume (Fapi_sleeps q body (st'\<lparr>fq := (fq st')(q := bq)\<rparr>)) = Fapi_done st'' \<and>
      p # bq_ptrs (fq st'' q) = bq_ptrs (fq st q) @ [body] \<and> fapi_pending st'' = as"
    if pop: "block_queue_pop (fq st q) = Returned p bq bs" for p bq bs
  proof -
    have wf: "bq_wf (fq st q)" "length (bq_ptrs (fq st q)) = bq_capacity (fq st q)" "\<not> push_break_flag (fq st q)"
        "\<not> pop_break_flag (fq st q)"
      using assms(5) by (simp_all add: q_full_def)
    then obtain x xs where xs: "bq_ptrs (fq st q) = x # xs"
      using bq_wfD(5) [OF wf(1)] by (cases "bq_ptrs (fq st q)") (simp_all add: bq_capacity_def)
    have ne: "num_items (fq st q) \<noteq> 0" by (rule try_pop_item(3) [OF wf(1) xs])
    have r: "p = x" "bq = (bq_remove (fq st q))\<lparr>pop_break_flag := False\<rparr>" "bq_ptrs bq = xs"
      using pop pop_item [OF wf(1) xs wf(4)] by simp_all
    have b: "bq_wf bq" "length (bq_ptrs bq) < bq_capacity bq" "\<not> push_break_flag bq"
      using bq_remove_sim [OF wf(1) ne] r wf xs by simp_all
    let ?st = "st'\<lparr>fq := (fq st')(q := bq)\<rparr>"
    have "q_room q ?st" using b by (simp add: q_room_def)
    from fapi_push_room(1) [OF this] show ?thesis
      using r xs store_ptrs(2) [OF b(1,2)] pend by (simp add: fapi_resume_def add_item_def fapi_pending_def)
  qed
  with s(1) h pend show ?thesis by auto
qed

definition full_sample :: fapi_rx where
  "full_sample = dispatch_sample\<lparr>fq := (\<lambda>_. bq_store (bq_store (block_queue_init 2) 1 8) 2 8)\<rparr>"

lemma full_sample_views:
  "fapi_pending full_sample = [0x200, 0x300]" "ptr_wf 5 (fipc full_sample)"
  "ipc_p2v full_sample = (\<lambda>a. a + 0x1000)" "fapi_mem full_sample = dispatch_mem" "q_full q full_sample"
  "fq full_sample q = bq_store (bq_store (block_queue_init 2) 1 8) 2 8"
proof -
  show "fapi_pending full_sample = [0x200, 0x300]" "ptr_wf 5 (fipc full_sample)"
    using dispatch_sample_channel by (simp_all add: full_sample_def fapi_pending_def)
  show "ipc_p2v full_sample = (\<lambda>a. a + 0x1000)" "fapi_mem full_sample = dispatch_mem"
    by (simp_all add: full_sample_def dispatch_sample_def ipc_p2v_def fapi_mem_def fun_eq_iff)
  show "q_full q full_sample"
    using store_ptrs [OF init_2_views(1), of 1 8] store_ptrs [of "bq_store (block_queue_init 2) 1 8" 2 8]
    by (simp add: q_full_def full_sample_def init_2_views) (simp add: block_queue_init_2)
qed (simp add: full_sample_def)

theorem fapi_full_queue_witness:
  "\<exists>st'. fapi_thread_step (\<lambda>_. 0) (\<lambda>s. (0, 0, s)) full_sample = Fapi_sleeps Q_p5 0x1040 st' \<and>
    fapi_pending st' = [0x300]"
proof -
  have "fapi_sane (ipc_p2v full_sample) (fapi_mem full_sample) 0x200"
    using dispatch_sample_msgs by (simp add: msgs_ready_def full_sample_views)
  then show ?thesis
    using fapi_full_queue [OF full_sample_views(2,1) _ _ full_sample_views(5), of Q_p5 "0x1040" "\<lambda>s. (0, 0, s)"]
    by (auto simp: full_sample_views dispatch_sample_routes)
qed

section \<open>Resetting the channel\<close>

lemma drain_empties:
  assumes "ptr_wf IPC_SC2PA_CH_ID s"
  shows "\<exists>s'. ipc_drain (\<lambda>_. 0) s = Inr (- ERR_CHANNEL_EMPTY, s') \<and> ptr_wf IPC_SC2PA_CH_ID s' \<and>
    ptr_contents IPC_SC2PA_CH_ID s' = [] \<and> bytes s' = bytes s \<and> bds s' = bds s"
  using assms
proof (induction "ptr_contents 5 s" arbitrary: s)
  case Nil
  then have "OS_HET_CH_EMPTY (chan_of 5 s)" by (simp add: ptr_contents_def empty_iff flip: length_0_conv)
  then show ?case using Nil
    by (subst ipc_drain.simps) (simp add: fsl_ipc_recv_ptr_def get_channel_vaddr_def ptr_wf_def chan_of_def Let_def not_le)
next
  case (Cons x xs)
  let ?s' = "set_chan (snd (chvpaddr_arr s ! unat (5 :: u32))) (advance_consumer (chan_of 5 s)) s"
  have ne: "\<not> OS_HET_CH_EMPTY (chan_of 5 s)"
    using Cons.hyps(2) pending_not_empty [of 5 s] by (metis list.distinct(1))
  have "bd_ring_size (chan_of 5 s) \<noteq> 0" using Cons.prems chan_okD(7) [of "chan_of 5 s"] by (simp add: ptr_wf_def)
  then have r: "fsl_ipc_recv_ptr (\<lambda>_. 0) 5 s = Inr (0, Some x', ?s')"
    if "x' = bd_view (bds s (bd_at s (chan_of 5 s) (local_consumer_num (chan_of 5 s))))" for x'
    using recv_ptr_success [of 5 s "\<lambda>_. 0"] Cons.prems ne that by (simp add: ptr_wf_def)
  then have "ptr_wf 5 ?s'" "ptr_contents 5 ?s' = xs"
    using ptr_deq_item [OF Cons.prems ne] Cons.hyps(2) by (auto simp: ptr_deq_def)
  from Cons.hyps(1) [OF this(2) [symmetric] this(1)] r [OF refl] show ?case
    by (subst ipc_drain.simps) simp
qed

text \<open>Resetting the receive channel ends and reports success, with the channel empty and no
  descriptor or message changed; which channel the caller names makes no difference.\<close>

lemma reset_channel_empties:
  assumes "ptr_wf IPC_SC2PA_CH_ID s"
  shows "\<exists>s'. ipc_reset_channel (\<lambda>_. 0) c s = Inr (0, s') \<and> ptr_wf IPC_SC2PA_CH_ID s' \<and>
    ptr_contents IPC_SC2PA_CH_ID s' = [] \<and> bytes s' = bytes s \<and> bds s' = bds s"
  using drain_empties [OF assms] by (auto simp: ipc_reset_channel_def)

theorem reset_channel_empties_witness:
  "\<exists>s'. ipc_reset_channel (\<lambda>_. 0) 2 (fipc dispatch_sample) = Inr (0, s') \<and> ptr_contents 5 s' = []"
  using reset_channel_empties [OF dispatch_sample_channel(1), of 2] by auto

end
