(* ===== verification/Shm_Allocator.thy ===== *)
theory Shm_Allocator
  imports Prelude
begin

text \<open>
  Model of the shared memory allocator in \<open>kernel/fsl_shm.c\<close>. The memory segment is tiled
  by nodes, each a free or an allocated area, chained in address order on the global list;
  free nodes are also on one of nine lists chosen by size, allocated ones on one of nine
  lists chosen by address. A node is identified by a number (its kernel address), a doubly
  linked list is the list of its nodes, and the \<open>size\<close> field of a list head is the sum of
  its entries' sizes. Every entry point runs under the spin lock and is one transformer.

  Whether \<open>kmalloc\<close> yields memory is an argument of the operations that call it: \<open>ka\<close> for
  a node that becomes allocated, \<open>kf\<close> for a node that becomes free. The entry points may try
  several free nodes in one call, so there \<open>ka\<close> and \<open>kf\<close> depend on the node that is tried.
\<close>

section \<open>State\<close>

record shm_node =
  n_tag :: bool
  n_addr :: u64
  n_size :: u32

record shm_state =
  nodes :: "nat \<Rightarrow> shm_node"
  g_list :: "nat list"
  free_lists :: "nat \<Rightarrow> nat list"
  free_sums :: "nat \<Rightarrow> u32"
  alloc_lists :: "nat \<Rightarrow> nat list"
  alloc_sums :: "nat \<Rightarrow> u32"
  next_node :: nat

abbreviation (input) "NUMBER_OF_LISTS \<equiv> (8 :: nat)"

definition LIST_INDEX_FROM_SIZE :: "u32 \<Rightarrow> nat" where
  "LIST_INDEX_FROM_SIZE sz = unat ((sz AND NOT 0xfff) div 0x1000)"

definition LIST_INDEX_FROM_ADDRESS :: "u64 \<Rightarrow> nat" where
  "LIST_INDEX_FROM_ADDRESS addr = unat ((addr AND NOT 0xfff) div 0x1000)"

definition get_allocated_list_from_address :: "u64 \<Rightarrow> nat" where
  "get_allocated_list_from_address addr =
     (if addr > 0x8000 then NUMBER_OF_LISTS else LIST_INDEX_FROM_ADDRESS addr)"

definition get_list :: "u32 \<Rightarrow> nat" where
  "get_list sz = (if sz > 0x8000 then NUMBER_OF_LISTS else LIST_INDEX_FROM_SIZE sz)"

text \<open>The size of the node at the tail; of an empty list, the head's own sum.\<close>

definition tail_size :: "shm_state \<Rightarrow> nat \<Rightarrow> u32" where
  "tail_size st k = (if free_lists st k = [] then free_sums st k else n_size (nodes st (last (free_lists st k))))"

function scan_lists :: "shm_state \<Rightarrow> u32 \<Rightarrow> nat \<Rightarrow> nat option" where
  "scan_lists st sz k =
     (if k < NUMBER_OF_LISTS + 1 then
        (if free_sums st k > sz \<and> tail_size st k \<ge> sz then Some k else scan_lists st sz (Suc k))
      else None)"
  by auto
termination
  by (relation "measure (\<lambda>(st, sz, k). 9 - k)") auto

declare scan_lists.simps [simp del]

definition get_free_area_list :: "shm_state \<Rightarrow> u32 \<Rightarrow> nat option" where
  "get_free_area_list st sz =
     (if sz > 0x8000 then Some NUMBER_OF_LISTS else scan_lists st sz (LIST_INDEX_FROM_SIZE sz))"

section \<open>List operations\<close>

text \<open>At the tail when not smaller than the tail, at the head when smaller than the first, else second.\<close>

definition list_place :: "(nat \<Rightarrow> shm_node) \<Rightarrow> nat \<Rightarrow> nat list \<Rightarrow> nat list" where
  "list_place nd e xs =
     (case xs of
        [] \<Rightarrow> [e]
      | f # rest \<Rightarrow>
          if n_size (nd (last xs)) \<le> n_size (nd e) then xs @ [e]
          else if n_size (nd f) > n_size (nd e) then e # xs
          else f # e # rest)"

definition list_add_allocated_area :: "nat \<Rightarrow> shm_state \<Rightarrow> shm_state" where
  "list_add_allocated_area e st =
     (let k = get_allocated_list_from_address (n_addr (nodes st e)) in
      st\<lparr>alloc_sums := (alloc_sums st)(k := alloc_sums st k + n_size (nodes st e)),
         alloc_lists := (alloc_lists st)(k := list_place (nodes st) e (alloc_lists st k))\<rparr>)"

definition list_remove_allocated_area :: "nat \<Rightarrow> shm_state \<Rightarrow> shm_state" where
  "list_remove_allocated_area e st =
     (let k = get_allocated_list_from_address (n_addr (nodes st e)) in
      st\<lparr>alloc_sums := (alloc_sums st)(k := alloc_sums st k - n_size (nodes st e)),
         alloc_lists := (\<lambda>i. remove1 e (alloc_lists st i))\<rparr>)"

definition list_add_free_area :: "nat \<Rightarrow> shm_state \<Rightarrow> shm_state" where
  "list_add_free_area e st =
     (let k = get_list (n_size (nodes st e)) in
      st\<lparr>free_sums := (free_sums st)(k := free_sums st k + n_size (nodes st e)),
         free_lists := (free_lists st)(k := list_place (nodes st) e (free_lists st k))\<rparr>)"

definition list_remove_free_area :: "nat \<Rightarrow> shm_state \<Rightarrow> shm_state" where
  "list_remove_free_area e st =
     (let k = get_list (n_size (nodes st e)) in
      st\<lparr>free_sums := (free_sums st)(k := free_sums st k - n_size (nodes st e)),
         free_lists := (\<lambda>i. remove1 e (free_lists st i))\<rparr>)"

text \<open>The global list, split at a node that is on it.\<close>

fun insert_before :: "nat \<Rightarrow> nat \<Rightarrow> nat list \<Rightarrow> nat list" where
  "insert_before e p [] = []"
| "insert_before e p (x # xs) = (if x = p then e # x # xs else x # insert_before e p xs)"

fun insert_after :: "nat \<Rightarrow> nat \<Rightarrow> nat list \<Rightarrow> nat list" where
  "insert_after e p [] = []"
| "insert_after e p (x # xs) = (if x = p then x # e # xs else x # insert_after e p xs)"

fun next_in :: "nat \<Rightarrow> nat list \<Rightarrow> nat option" where
  "next_in p (x # y # xs) = (if x = p then Some y else next_in p (y # xs))"
| "next_in p _ = None"

fun prev_in :: "nat \<Rightarrow> nat list \<Rightarrow> nat option" where
  "prev_in p (x # y # xs) = (if y = p then Some x else prev_in p (y # xs))"
| "prev_in p _ = None"

definition set_node :: "nat \<Rightarrow> shm_node \<Rightarrow> shm_state \<Rightarrow> shm_state" where
  "set_node e n st = st\<lparr>nodes := (nodes st)(e := n)\<rparr>"

section \<open>Allocation\<close>

definition allocate_free_area :: "bool \<Rightarrow> nat \<Rightarrow> u32 \<Rightarrow> shm_state \<Rightarrow> nat option \<times> shm_state" where
  "allocate_free_area ka p sz st =
     (let n = nodes st p in
      if n_size n = sz then
        (Some p, list_add_allocated_area p (list_remove_free_area p (set_node p (n\<lparr>n_tag := True\<rparr>) st)))
      else if n_size n > sz then
        (if \<not> ka then (None, st)
         else
           (let a = next_node st;
                st1 = list_remove_free_area p (st\<lparr>next_node := Suc a\<rparr>);
                st2 = set_node a \<lparr>n_tag = True, n_addr = n_addr n, n_size = sz\<rparr> st1;
                st3 = set_node p \<lparr>n_tag = False, n_addr = n_addr n + ucast sz, n_size = n_size n - sz\<rparr> st2;
                st4 = list_add_allocated_area a (list_add_free_area p st3)
            in (Some a, st4\<lparr>g_list := insert_before a p (g_list st4)\<rparr>)))
      else (None, st))"

text \<open>
  The aligned variant cuts the area of node \<open>p\<close> at the aligned address \<open>al\<close>: what lies
  before stays with \<open>p\<close>, a new node is allocated, and the rest, if any, is a new free node.
\<close>

definition carve_aligned :: "nat \<Rightarrow> u64 \<Rightarrow> u64 \<Rightarrow> shm_state \<Rightarrow> shm_state" where
  "carve_aligned p al sz st =
     (let n = nodes st p; en = n_addr n + ucast (n_size n); a = next_node st; f = Suc a; rest = (al + sz \<noteq> en);
          fn = \<lparr>n_tag = False, n_addr = al + sz, n_size = ucast (en - (al + sz))\<rparr>;
          st1 = list_remove_free_area p (st\<lparr>next_node := (if rest then Suc f else f)\<rparr>);
          st2 = set_node a \<lparr>n_tag = True, n_addr = al, n_size = ucast sz\<rparr> st1;
          st3 = (if rest then set_node f fn st2 else st2);
          st4 = set_node p (n\<lparr>n_size := n_size n - ucast sz - (if rest then n_size fn else 0)\<rparr>) st3;
          st5 = list_add_allocated_area a (list_add_free_area p st4);
          st6 = st5\<lparr>g_list := insert_after a p (g_list st5)\<rparr>
      in if rest then (list_add_free_area f st6)\<lparr>g_list := insert_after f a (g_list st6)\<rparr> else st6)"

definition do_align_valloc :: "bool \<Rightarrow> bool \<Rightarrow> nat \<Rightarrow> u64 \<Rightarrow> u64 \<Rightarrow> shm_state \<Rightarrow> nat option \<times> shm_state" where
  "do_align_valloc ka kf p align sz st =
     (let n = nodes st p; addr = n_addr n; al = addr AND NOT (align - 1) in
      if ucast (n_size n) < sz then (None, st)
      else if addr = 0 \<or> (al \<noteq> 0 \<and> al = addr) then allocate_free_area ka p (ucast sz) st
      else
        (let al2 = (addr + align) AND NOT (align - 1); en = addr + ucast (n_size n) in
         if al2 < en \<and> al2 + sz \<le> en then
           (if \<not> ka then (None, st)
            else if al2 + sz \<noteq> en \<and> \<not> kf then (None, st)
            else (Some (next_node st), carve_aligned p al2 sz st))
         else (None, st)))"

text \<open>The first largest of the entries passed over is taken out and put in again.\<close>

fun first_largest :: "(nat \<Rightarrow> shm_node) \<Rightarrow> nat \<Rightarrow> nat list \<Rightarrow> nat" where
  "first_largest nd t [] = t"
| "first_largest nd t (x # xs) = first_largest nd (if n_size (nd t) < n_size (nd x) then x else t) xs"

definition reposition :: "nat list \<Rightarrow> (nat \<Rightarrow> shm_node) \<Rightarrow> shm_state \<Rightarrow> shm_state" where
  "reposition skipped nd st =
     (case skipped of
        [] \<Rightarrow> st
      | x # xs \<Rightarrow> (let t = first_largest nd x xs in list_add_free_area t (list_remove_free_area t st)))"

text \<open>\<open>shm_alloc_list\<close> is \<open>__alloc\<close>; the result 0 is the null pointer.\<close>

definition shm_alloc_list :: "(nat \<Rightarrow> bool) \<Rightarrow> u64 \<Rightarrow> shm_state \<Rightarrow> u64 \<times> shm_state" where
  "shm_alloc_list ka sz st =
     (if sz = 0 then (0, st)
      else case get_free_area_list st (ucast sz) of
        None \<Rightarrow> (0, st)
      | Some k \<Rightarrow>
          (let fits = (\<lambda>p. ucast (n_size (nodes st p)) \<ge> sz);
               skipped = takeWhile (\<lambda>p. \<not> fits p) (free_lists st k)
           in case dropWhile (\<lambda>p. \<not> fits p) (free_lists st k) of
                [] \<Rightarrow> (0, st)
              | p # _ \<Rightarrow>
                  (case allocate_free_area (ka p) p (ucast sz) st of
                     (None, st1) \<Rightarrow> (0, st1)
                   | (Some a, st1) \<Rightarrow>
                       (n_addr (nodes st1 a), reposition skipped (nodes st) st1))))"

text \<open>\<open>__memalign\<close>: the nodes of one list in order, then the lists of larger areas.\<close>

fun align_nodes :: "(nat \<Rightarrow> bool) \<Rightarrow> (nat \<Rightarrow> bool) \<Rightarrow> u64 \<Rightarrow> u64 \<Rightarrow> nat list \<Rightarrow> nat list \<Rightarrow> shm_state \<Rightarrow> (nat \<times> shm_state) option" where
  "align_nodes ka kf align sz skipped [] st = None"
| "align_nodes ka kf align sz skipped (p # ps) st =
     (case do_align_valloc (ka p) (kf p) p align sz st of
        (Some a, st1) \<Rightarrow> Some (a, reposition skipped (nodes st) st1)
      | (None, _) \<Rightarrow> align_nodes ka kf align sz (skipped @ [p]) ps st)"

function align_lists :: "(nat \<Rightarrow> bool) \<Rightarrow> (nat \<Rightarrow> bool) \<Rightarrow> u64 \<Rightarrow> u64 \<Rightarrow> nat \<Rightarrow> shm_state \<Rightarrow> u64 \<times> shm_state" where
  "align_lists ka kf align sz k st =
     (if k < NUMBER_OF_LISTS + 1 then
        (case align_nodes ka kf align sz [] (free_lists st k) st of
           Some (a, st1) \<Rightarrow> (n_addr (nodes st1 a), st1)
         | None \<Rightarrow> align_lists ka kf align sz (Suc k) st)
      else (0, st))"
  by auto
termination
  by (relation "measure (\<lambda>(ka, kf, align, sz, k, st). 9 - k)") auto

declare align_lists.simps [simp del]

definition shm_memalign_list :: "(nat \<Rightarrow> bool) \<Rightarrow> (nat \<Rightarrow> bool) \<Rightarrow> u64 \<Rightarrow> u64 \<Rightarrow> shm_state \<Rightarrow> u64 \<times> shm_state" where
  "shm_memalign_list ka kf sz align st =
     (if sz = 0 then (0, st)
      else if align = 0 then shm_alloc_list ka sz st
      else case get_free_area_list st (ucast sz) of
        None \<Rightarrow> (0, st)
      | Some k \<Rightarrow> align_lists ka kf align sz k st)"

section \<open>Release\<close>

definition try_merge_downward :: "nat \<Rightarrow> shm_state \<Rightarrow> shm_state" where
  "try_merge_downward c st =
     (case next_in c (g_list st) of
        None \<Rightarrow> st
      | Some x \<Rightarrow>
          if n_tag (nodes st x) then st
          else
            (let st1 = set_node c ((nodes st c)\<lparr>n_size := n_size (nodes st c) + n_size (nodes st x)\<rparr>) st;
                 st2 = list_remove_free_area x st1
             in st2\<lparr>g_list := remove1 x (g_list st2)\<rparr>))"

definition try_merge_upward :: "nat \<Rightarrow> shm_state \<Rightarrow> bool \<times> shm_state" where
  "try_merge_upward c st =
     (case prev_in c (g_list st) of
        None \<Rightarrow> (False, st)
      | Some x \<Rightarrow>
          if n_tag (nodes st x) then (False, st)
          else
            (let st1 = list_remove_free_area x st;
                 st2 = set_node x ((nodes st x)\<lparr>n_size := n_size (nodes st x) + n_size (nodes st c)\<rparr>) st1
             in (True, list_add_free_area x st2)))"

text \<open>\<open>shm_free_list\<close> is \<open>__free\<close>; the flag tells whether the address was found.\<close>

definition shm_free_list :: "u64 \<Rightarrow> shm_state \<Rightarrow> bool \<times> shm_state" where
  "shm_free_list ptr st =
     (case find (\<lambda>p. n_addr (nodes st p) = ptr) (alloc_lists st (get_allocated_list_from_address ptr)) of
        None \<Rightarrow> (False, st)
      | Some p \<Rightarrow>
          (let st1 = list_remove_allocated_area p st;
               st2 = set_node p ((nodes st1 p)\<lparr>n_tag := False\<rparr>) st1;
               st3 = try_merge_downward p st2
           in case try_merge_upward p st3 of
                (True, st4) \<Rightarrow> (True, st4\<lparr>g_list := remove1 p (g_list st4)\<rparr>)
              | (False, st4) \<Rightarrow> (True, list_add_free_area p st4)))"

section \<open>Entry points\<close>

definition shm_initialize :: "u64 \<Rightarrow> u64 \<Rightarrow> shm_state" where
  "shm_initialize paddr sz =
     list_add_free_area 0
       \<lparr>nodes = (\<lambda>_. \<lparr>n_tag = False, n_addr = paddr, n_size = ucast sz\<rparr>), g_list = [0],
        free_lists = (\<lambda>_. []), free_sums = (\<lambda>_. 0), alloc_lists = (\<lambda>_. []), alloc_sums = (\<lambda>_. 0),
        next_node = 1\<rparr>"

definition fsl_shm_alloc :: "(nat \<Rightarrow> bool) \<Rightarrow> u64 \<Rightarrow> shm_state \<Rightarrow> u64 \<times> shm_state" where
  "fsl_shm_alloc ka sz st = shm_alloc_list ka sz st"

definition fsl_shm_memalign :: "(nat \<Rightarrow> bool) \<Rightarrow> (nat \<Rightarrow> bool) \<Rightarrow> u64 \<Rightarrow> u64 \<Rightarrow> shm_state \<Rightarrow> u64 \<times> shm_state" where
  "fsl_shm_memalign ka kf sz align st = shm_memalign_list ka kf sz align st"

definition fsl_shm_free :: "u64 \<Rightarrow> shm_state \<Rightarrow> bool \<times> shm_state" where
  "fsl_shm_free ptr st = (if ptr = 0 then (False, st) else shm_free_list ptr st)"

end
