(* ===== verification/Shm_Invariant.thy ===== *)
theory Shm_Invariant
  imports Shm_Allocator
begin

text \<open>
  The allocator's invariant: the nodes of the global list tile the segment, no two
  neighbours are both free, and the size and address lists hold exactly the free and the
  allocated nodes. Every operation keeps it and changes the set of allocated areas by the
  area it returns or releases.
\<close>

section \<open>The lists of areas\<close>

definition free_inv :: "shm_state \<Rightarrow> nat set \<Rightarrow> bool" where
  "free_inv st F = (\<forall>k. distinct (free_lists st k) \<and>
     set (free_lists st k) = {i \<in> F. get_list (n_size (nodes st i)) = k} \<and>
     free_sums st k = sum_list (map (\<lambda>i. n_size (nodes st i)) (free_lists st k)))"

definition alloc_inv :: "shm_state \<Rightarrow> nat set \<Rightarrow> bool" where
  "alloc_inv st A = (\<forall>k. distinct (alloc_lists st k) \<and>
     set (alloc_lists st k) = {i \<in> A. get_allocated_list_from_address (n_addr (nodes st i)) = k})"

lemma set_list_place [simp]: "set (list_place nd e xs) = insert e (set xs)"
  by (auto simp: list_place_def split: list.splits)

lemma distinct_list_place [simp]: "distinct (list_place nd e xs) \<longleftrightarrow> distinct xs \<and> e \<notin> set xs"
  by (auto simp: list_place_def split: list.splits)

lemma sum_list_place:
  fixes f :: "nat \<Rightarrow> u32"
  shows "sum_list (map f (list_place nd e xs)) = sum_list (map f xs) + f e"
  by (auto simp: list_place_def algebra_simps split: list.splits)

lemma list_ops_frame [simp]:
  "nodes (list_add_free_area e st) = nodes st" "nodes (list_remove_free_area e st) = nodes st"
  "nodes (list_add_allocated_area e st) = nodes st" "nodes (list_remove_allocated_area e st) = nodes st"
  "g_list (list_add_free_area e st) = g_list st" "g_list (list_remove_free_area e st) = g_list st"
  "g_list (list_add_allocated_area e st) = g_list st" "g_list (list_remove_allocated_area e st) = g_list st"
  "next_node (list_add_free_area e st) = next_node st" "next_node (list_remove_free_area e st) = next_node st"
  "next_node (list_add_allocated_area e st) = next_node st" "next_node (list_remove_allocated_area e st) = next_node st"
  by (simp_all add: list_add_free_area_def list_remove_free_area_def list_add_allocated_area_def
      list_remove_allocated_area_def Let_def)

lemma set_node_frame [simp]:
  "nodes (set_node e n st) = (nodes st)(e := n)" "g_list (set_node e n st) = g_list st"
  "next_node (set_node e n st) = next_node st"
  by (simp_all add: set_node_def)

lemma free_inv_other [simp]:
  "free_inv (list_add_allocated_area e st) F = free_inv st F"
  "free_inv (list_remove_allocated_area e st) F = free_inv st F"
  "free_inv (st\<lparr>g_list := g\<rparr>) F = free_inv st F" "free_inv (st\<lparr>next_node := m\<rparr>) F = free_inv st F"
  by (simp_all add: free_inv_def list_add_allocated_area_def list_remove_allocated_area_def Let_def)

lemma alloc_inv_other [simp]:
  "alloc_inv (list_add_free_area e st) A = alloc_inv st A"
  "alloc_inv (list_remove_free_area e st) A = alloc_inv st A"
  "alloc_inv (st\<lparr>g_list := g\<rparr>) A = alloc_inv st A" "alloc_inv (st\<lparr>next_node := m\<rparr>) A = alloc_inv st A"
  by (simp_all add: alloc_inv_def list_add_free_area_def list_remove_free_area_def Let_def)

lemma free_inv_add: "free_inv st F \<Longrightarrow> e \<notin> F \<Longrightarrow> free_inv (list_add_free_area e st) (insert e F)"
  by (auto simp: free_inv_def list_add_free_area_def Let_def sum_list_place)

lemma free_inv_remove:
  assumes "free_inv st F" "e \<in> F"
  shows "free_inv (list_remove_free_area e st) (F - {e})"
proof -
  have "e \<in> set (free_lists st (get_list (n_size (nodes st e))))" using assms by (auto simp: free_inv_def)
  then have s: "sum_list (map (\<lambda>i. n_size (nodes st i)) (remove1 e (free_lists st (get_list (n_size (nodes st e)))))) =
      free_sums st (get_list (n_size (nodes st e))) - n_size (nodes st e)"
    using assms(1) sum_list_map_remove1 [of e _ "\<lambda>i. n_size (nodes st i)"] by (simp add: free_inv_def)
  have o: "remove1 e (free_lists st k) = free_lists st k" if "k \<noteq> get_list (n_size (nodes st e))" for k
    using assms(1) that by (auto simp: free_inv_def remove1_idem)
  show ?thesis
    using assms s o by (auto simp: free_inv_def list_remove_free_area_def Let_def)
qed

lemma alloc_inv_add: "alloc_inv st A \<Longrightarrow> e \<notin> A \<Longrightarrow> alloc_inv (list_add_allocated_area e st) (insert e A)"
  by (auto simp: alloc_inv_def list_add_allocated_area_def Let_def)

lemma alloc_inv_remove: "alloc_inv st A \<Longrightarrow> alloc_inv (list_remove_allocated_area e st) (A - {e})"
  by (auto simp: alloc_inv_def list_remove_allocated_area_def Let_def)

lemma free_inv_set_node: "free_inv st F \<Longrightarrow> e \<notin> F \<Longrightarrow> free_inv (set_node e n st) F"
proof -
  assume a: "free_inv st F" "e \<notin> F"
  have "e \<notin> set (free_lists st k)" for k using a by (auto simp: free_inv_def)
  then have m: "map (\<lambda>i. n_size (if i = e then n else nodes st i)) (free_lists st k) = map (\<lambda>i. n_size (nodes st i)) (free_lists st k)" for k
    by (intro map_cong) auto
  have "{i \<in> F. get_list (n_size (if i = e then n else nodes st i)) = k} = {i \<in> F. get_list (n_size (nodes st i)) = k}" for k
    using a(2) by auto
  then show ?thesis using a(1) by (simp add: free_inv_def set_node_def fun_upd_apply m)
qed

lemma alloc_inv_set_node: "alloc_inv st A \<Longrightarrow> e \<notin> A \<Longrightarrow> alloc_inv (set_node e n st) A"
  by (auto simp: alloc_inv_def set_node_def)

lemma first_largest_in: "first_largest nd t xs \<in> insert t (set xs)"
proof (induction xs arbitrary: t)
  case (Cons x xs)
  then show ?case using Cons.IH [of x] Cons.IH [of t] by auto
qed simp

lemma reposition_frame [simp]:
  "nodes (reposition sk nd st) = nodes st" "g_list (reposition sk nd st) = g_list st"
  "next_node (reposition sk nd st) = next_node st" "alloc_inv (reposition sk nd st) A = alloc_inv st A"
  by (simp_all add: reposition_def Let_def split: list.splits)

lemma reposition_inv:
  assumes "free_inv st F" "set sk \<subseteq> F"
  shows "free_inv (reposition sk nd st) F"
proof (cases sk)
  case (Cons x xs)
  let ?t = "first_largest nd x xs"
  have t: "?t \<in> F" using first_largest_in [of nd x xs] assms(2) Cons by auto
  have "free_inv (list_add_free_area ?t (list_remove_free_area ?t st)) (insert ?t (F - {?t}))"
    by (rule free_inv_add [OF free_inv_remove [OF assms(1) t]]) simp
  then show ?thesis using Cons t by (simp add: reposition_def Let_def insert_absorb)
qed (use assms in \<open>simp add: reposition_def\<close>)

section \<open>Tiling\<close>

fun tiles :: "(nat \<Rightarrow> shm_node) \<Rightarrow> nat \<Rightarrow> nat list \<Rightarrow> nat \<Rightarrow> bool" where
  "tiles nd a [] e = (a = e)"
| "tiles nd a (i # is) e =
     (unat (n_addr (nd i)) = a \<and> 0 < unat (n_size (nd i)) \<and> tiles nd (a + unat (n_size (nd i))) is e)"

lemma tiles_append: "tiles nd a (xs @ ys) e \<longleftrightarrow> (\<exists>m. tiles nd a xs m \<and> tiles nd m ys e)"
  by (induction xs arbitrary: a) auto

lemma tiles_le: "tiles nd a xs e \<Longrightarrow> a \<le> e"
  by (induction xs arbitrary: a) (auto dest: add_leD1 order_trans)

lemma tiles_cong:
  "(\<And>i. i \<in> set xs \<Longrightarrow> n_addr (nd' i) = n_addr (nd i) \<and> n_size (nd' i) = n_size (nd i)) \<Longrightarrow> tiles nd' a xs e = tiles nd a xs e"
  by (induction xs arbitrary: a) auto

lemma tiles_member:
  assumes "tiles nd a xs e" "i \<in> set xs"
  shows "a \<le> unat (n_addr (nd i))" "unat (n_addr (nd i)) + unat (n_size (nd i)) \<le> e" "0 < unat (n_size (nd i))"
proof -
  obtain us vs where xs: "xs = us @ i # vs" using assms(2) by (auto simp: in_set_conv_decomp)
  then obtain m where "tiles nd a us m" "tiles nd m (i # vs) e" using assms(1) by (auto simp: tiles_append)
  then show "a \<le> unat (n_addr (nd i))" "unat (n_addr (nd i)) + unat (n_size (nd i)) \<le> e" "0 < unat (n_size (nd i))"
    using tiles_le [of nd a us m] tiles_le [of nd "m + unat (n_size (nd i))" vs e] by auto
qed

text \<open>Two different nodes of a tiling do not overlap.\<close>

lemma tiles_disjoint:
  assumes "tiles nd a xs e" "i \<in> set xs" "j \<in> set xs" "i \<noteq> j"
  shows "unat (n_addr (nd i)) + unat (n_size (nd i)) \<le> unat (n_addr (nd j)) \<or>
    unat (n_addr (nd j)) + unat (n_size (nd j)) \<le> unat (n_addr (nd i))"
  using assms
proof (induction xs arbitrary: a)
  case (Cons x xs)
  have t: "tiles nd (a + unat (n_size (nd x))) xs e" "unat (n_addr (nd x)) = a" using Cons.prems(1) by auto
  show ?case
    using Cons.IH [OF t(1)] Cons.prems(2-4) tiles_member(1) [OF t(1), of i] tiles_member(1) [OF t(1), of j] t(2) by auto
qed simp

definition seg_ok :: "nat \<Rightarrow> nat \<Rightarrow> bool" where
  "seg_ok b e = (0 < b \<and> b < e \<and> e \<le> 2 ^ 62 \<and> e - b < 2 ^ 32)"

definition free_nodes :: "shm_state \<Rightarrow> nat set" where
  "free_nodes st = {i \<in> set (g_list st). \<not> n_tag (nodes st i)}"

definition alloc_nodes :: "shm_state \<Rightarrow> nat set" where
  "alloc_nodes st = {i \<in> set (g_list st). n_tag (nodes st i)}"

definition shm_ok :: "nat \<Rightarrow> nat \<Rightarrow> shm_state \<Rightarrow> bool" where
  "shm_ok b e st =
     (seg_ok b e \<and> free_inv st (free_nodes st) \<and> alloc_inv st (alloc_nodes st) \<and>
      distinct (g_list st) \<and> (\<forall>i \<in> set (g_list st). i < next_node st) \<and>
      tiles (nodes st) b (g_list st) e \<and>
      successively (\<lambda>i j. n_tag (nodes st i) \<or> n_tag (nodes st j)) (g_list st))"

text \<open>The allocated areas, as start address and length.\<close>

definition areas :: "shm_state \<Rightarrow> (nat \<times> nat) set" where
  "areas st = (\<lambda>i. (unat (n_addr (nodes st i)), unat (n_size (nodes st i)))) ` alloc_nodes st"


lemma shm_okD:
  assumes "shm_ok b e st"
  shows "seg_ok b e" "free_inv st (free_nodes st)" "alloc_inv st (alloc_nodes st)" "distinct (g_list st)"
    "i \<in> set (g_list st) \<Longrightarrow> i < next_node st" "tiles (nodes st) b (g_list st) e"
    "successively (\<lambda>i j. n_tag (nodes st i) \<or> n_tag (nodes st j)) (g_list st)"
    "next_node st \<notin> set (g_list st)"
  using assms by (auto simp: shm_ok_def)

text \<open>Addresses and sizes of nodes stay clear of wrap-around.\<close>

lemma shm_ok_node:
  assumes "shm_ok b e st" "p \<in> set (g_list st)"
  shows "b \<le> unat (n_addr (nodes st p))" "0 < unat (n_addr (nodes st p))" "0 < unat (n_size (nodes st p))"
    "unat (n_addr (nodes st p)) + unat (n_size (nodes st p)) \<le> e" "e \<le> 2 ^ 62" "n_addr (nodes st p) \<noteq> 0"
  using tiles_member [OF shm_okD(6) [OF assms(1)] assms(2)] shm_okD(1) [OF assms(1)]
  by (auto simp: seg_ok_def)

lemma unat_add_ucast:
  fixes a :: u64 and s :: u32
  assumes "unat a + unat s \<le> 2 ^ 62"
  shows "unat (a + ucast s) = unat a + unat s"
proof -
  have "unat s < 2 ^ 64" using unat_less_exp [of s] by simp
  then have u: "unat (ucast s :: u64) = unat s" by (simp add: unsigned_ucast_eq take_bit_nat_eq_self)
  show ?thesis using assms by (simp add: unat_word_ariths(1) u)
qed

lemma unat_diff_u32: "(s :: u32) \<le> t \<Longrightarrow> unat (t - s) = unat t - unat s"
  by (simp add: unat_sub)

lemma insert_before_split [simp]: "p \<notin> set xs \<Longrightarrow> insert_before a p (xs @ p # ys) = xs @ a # p # ys"
  by (induction xs) auto

lemma insert_after_split [simp]: "p \<notin> set xs \<Longrightarrow> insert_after a p (xs @ p # ys) = xs @ p # a # ys"
  by (induction xs) auto

lemma free_inv_set_tag:
  "n_size n = n_size (nodes st p) \<Longrightarrow> free_inv st F \<Longrightarrow> free_inv (set_node p n st) F"
proof -
  assume a: "n_size n = n_size (nodes st p)" "free_inv st F"
  have "n_size (if i = p then n else nodes st i) = n_size (nodes st i)" for i using a(1) by simp
  then show ?thesis using a(2) by (simp add: free_inv_def set_node_def fun_upd_def)
qed

text \<open>
  The step all operations share: a segment \<open>old\<close> of the global list, whose neighbours are
  allocated, is replaced by \<open>mid\<close> covering the same addresses.
\<close>

lemma retile_ok:
  assumes ok: "shm_ok b e st" and g: "g_list st = xs @ old @ ys" "g_list st' = xs @ mid @ ys"
    and ne: "mid \<noteq> []" and tg: "xs = [] \<or> n_tag (nodes st (last xs))" "ys = [] \<or> n_tag (nodes st (hd ys))"
    and d: "distinct mid" "set mid \<inter> (set xs \<union> set ys) = {}"
    and nx: "\<forall>i \<in> set mid. i < next_node st'" "next_node st \<le> next_node st'"
    and nd: "\<forall>i \<in> set xs \<union> set ys. nodes st' i = nodes st i"
    and t: "\<And>m m'. tiles (nodes st) m old m' \<Longrightarrow> b \<le> m \<Longrightarrow> m' \<le> e \<Longrightarrow> tiles (nodes st') m mid m'"
    and su: "successively (\<lambda>i j. n_tag (nodes st' i) \<or> n_tag (nodes st' j)) mid"
    and inv: "free_inv st' (free_nodes st')" "alloc_inv st' (alloc_nodes st')"
  shows "shm_ok b e st'"
proof -
  note D = shm_okD [OF ok]
  have dd: "distinct (g_list st')" using D(4) d by (auto simp: g)
  have nn: "\<forall>i \<in> set (g_list st'). i < next_node st'" using D(5) nx by (fastforce simp: g)
  obtain m m' where tt: "tiles (nodes st) b xs m" "tiles (nodes st) m old m'" "tiles (nodes st) m' ys e"
    using D(6) by (auto simp: g tiles_append)
  have "tiles (nodes st') m mid m'" by (rule t [OF tt(2) tiles_le [OF tt(1)] tiles_le [OF tt(3)]])
  then have ti: "tiles (nodes st') b (g_list st') e"
    using tt tiles_cong [of xs "nodes st'" "nodes st"] tiles_cong [of ys "nodes st'" "nodes st"] nd
    unfolding g(2) tiles_append by auto
  let ?P = "\<lambda>nd i j. n_tag (nd i) \<or> n_tag (nd j)"
  have "successively (?P (nodes st')) xs" "successively (?P (nodes st')) ys"
    using D(7) nd successively_cong [of xs "?P (nodes st')" "?P (nodes st)" xs]
      successively_cong [of ys "?P (nodes st')" "?P (nodes st)" ys]
    by (auto simp: g successively_append_iff)
  moreover have "xs = [] \<or> n_tag (nodes st' (last xs))" "ys = [] \<or> n_tag (nodes st' (hd ys))"
    using tg nd last_in_set [of xs] hd_in_set [of ys] by (metis UnCI)+
  ultimately have "successively (?P (nodes st')) (g_list st')"
    using su ne by (auto simp: g(2) successively_append_iff)
  then show ?thesis using D(1) dd nn ti inv by (simp add: shm_ok_def)
qed

text \<open>The neighbours of a free node are allocated.\<close>

lemma free_neighbours:
  assumes "shm_ok b e st" "g_list st = xs @ p # ys" "\<not> n_tag (nodes st p)"
  shows "xs = [] \<or> n_tag (nodes st (last xs))" "ys = [] \<or> n_tag (nodes st (hd ys))"
    "p \<notin> set xs" "p \<notin> set ys"
  using shm_okD(7) [OF assms(1)] shm_okD(4) [OF assms(1)] assms(2,3)
  by (auto simp: successively_append_iff successively_Cons)

lemma free_node_split:
  assumes "shm_ok b e st" "p \<in> free_nodes st"
  obtains xs ys where "g_list st = xs @ p # ys" "\<not> n_tag (nodes st p)" "p \<notin> alloc_nodes st"
    "xs = [] \<or> n_tag (nodes st (last xs))" "ys = [] \<or> n_tag (nodes st (hd ys))" "p \<notin> set xs" "p \<notin> set ys"
proof -
  have p: "p \<in> set (g_list st)" "\<not> n_tag (nodes st p)" using assms(2) by (auto simp: free_nodes_def)
  then obtain xs ys where g: "g_list st = xs @ p # ys" by (auto simp: in_set_conv_decomp)
  show thesis
    using that [OF g p(2) _ free_neighbours [OF assms(1) g p(2)]] p(2) by (simp add: alloc_nodes_def)
qed

lemma allocate_exact_ok:
  assumes ok: "shm_ok b e st" and p: "p \<in> free_nodes st"
    and st': "st' = list_add_allocated_area p (list_remove_free_area p (set_node p ((nodes st p)\<lparr>n_tag := True\<rparr>) st))"
  shows "shm_ok b e st'" "areas st' = insert (unat (n_addr (nodes st p)), unat (n_size (nodes st p))) (areas st)"
    "free_nodes st' = free_nodes st - {p}"
proof -
  note D = shm_okD [OF ok]
  let ?n = "(nodes st p)\<lparr>n_tag := True\<rparr>"
  obtain xs ys where g: "g_list st = xs @ p # ys" "\<not> n_tag (nodes st p)" "p \<notin> alloc_nodes st"
    "xs = [] \<or> n_tag (nodes st (last xs))" "ys = [] \<or> n_tag (nodes st (hd ys))" "p \<notin> set xs" "p \<notin> set ys"
    by (rule free_node_split [OF ok p])
  have nd: "nodes st' = (nodes st)(p := ?n)" "g_list st' = g_list st" "next_node st' = next_node st" by (simp_all add: st')
  show F: "free_nodes st' = free_nodes st - {p}" by (auto simp: free_nodes_def nd)
  have A: "alloc_nodes st' = insert p (alloc_nodes st)" using g(1) by (auto simp: alloc_nodes_def nd)
  have "free_inv st' (free_nodes st - {p})"
    unfolding st' using free_inv_remove [OF free_inv_set_tag [of ?n st p, OF _ D(2)] p] by simp
  then have fi: "free_inv st' (free_nodes st')" by (simp only: F)
  have "alloc_inv st' (insert p (alloc_nodes st))"
    unfolding st' by (rule alloc_inv_add) (use alloc_inv_set_node [OF D(3) g(3)] g(3) in simp_all)
  then have ai: "alloc_inv st' (alloc_nodes st')" by (simp only: A)
  show "shm_ok b e st'"
    by (rule retile_ok [OF ok, of xs "[p]" ys st' "[p]"]) (use g D(5) fi ai in \<open>auto simp: nd\<close>)
  show "areas st' = insert (unat (n_addr (nodes st p)), unat (n_size (nodes st p))) (areas st)"
    using g(3) unfolding areas_def A by (auto simp: nd image_iff)
qed

lemma allocate_split_ok:
  assumes ok: "shm_ok b e st" and p: "p \<in> free_nodes st" and sz: "0 < sz" "sz < n_size (nodes st p)"
    and st': "allocate_free_area ka p sz st = (Some a, st')"
  shows "shm_ok b e st'" "areas st' = insert (unat (n_addr (nodes st p)), unat sz) (areas st)"
    "free_nodes st' = free_nodes st" "n_addr (nodes st' a) = n_addr (nodes st p)"
proof -
  note D = shm_okD [OF ok]
  let ?n = "nodes st p" and ?F = "free_nodes st"
  let ?an = "\<lparr>n_tag = True, n_addr = n_addr ?n, n_size = sz\<rparr>"
  let ?pn = "\<lparr>n_tag = False, n_addr = n_addr ?n + ucast sz, n_size = n_size ?n - sz\<rparr>"
  let ?st3 = "set_node p ?pn (set_node a ?an (list_remove_free_area p (st\<lparr>next_node := Suc a\<rparr>)))"
  let ?st4 = "list_add_allocated_area a (list_add_free_area p ?st3)"
  have a: "a = next_node st" "st' = ?st4\<lparr>g_list := insert_before a p (g_list st)\<rparr>"
    using st' sz(2) by (auto simp: allocate_free_area_def Let_def split: if_splits)
  obtain xs ys where g: "g_list st = xs @ p # ys" "\<not> n_tag (nodes st p)" "p \<notin> alloc_nodes st"
    "xs = [] \<or> n_tag (nodes st (last xs))" "ys = [] \<or> n_tag (nodes st (hd ys))" "p \<notin> set xs" "p \<notin> set ys"
    by (rule free_node_split [OF ok p])
  have ag: "a \<noteq> p" "a \<notin> ?F" "a \<notin> alloc_nodes st" "a \<notin> set xs" "a \<notin> set ys"
    using D(8) by (auto simp: a(1) free_nodes_def alloc_nodes_def g(1))
  have nd: "nodes st' = (nodes st)(a := ?an, p := ?pn)" "g_list st' = xs @ [a, p] @ ys" "next_node st' = Suc a"
    using g(6) by (auto simp: a(2) g(1))
  show F: "free_nodes st' = ?F" using g(2,6,7) ag by (auto simp: free_nodes_def nd g(1))
  have A: "alloc_nodes st' = insert a (alloc_nodes st)" using g(2,6,7) ag by (auto simp: alloc_nodes_def nd g(1))
  have "free_inv ?st3 (?F - {p})"
    by (intro free_inv_set_node) (use free_inv_remove [of "st\<lparr>next_node := Suc a\<rparr>" ?F p] D(2) p ag in simp_all)
  then have "free_inv st' ?F"
    unfolding a(2) using free_inv_add [of ?st3 "?F - {p}" p] p by (simp add: insert_absorb)
  then have fi: "free_inv st' (free_nodes st')" by (simp only: F)
  have "alloc_inv ?st3 (alloc_nodes st)" by (intro alloc_inv_set_node) (use D(3) ag g(3) in simp_all)
  then have "alloc_inv st' (insert a (alloc_nodes st))"
    unfolding a(2) using alloc_inv_add [of "list_add_free_area p ?st3" "alloc_nodes st" a] ag by simp
  then have ai: "alloc_inv st' (alloc_nodes st')" by (simp only: A)
  have N: "unat (n_addr ?n) + unat (n_size ?n) \<le> e" "e \<le> 2 ^ 62" "0 < unat sz" "unat sz < unat (n_size ?n)"
    using shm_ok_node(4,5) [OF ok, of p] sz by (simp_all add: g(1) word_less_nat_alt)
  then have u: "unat (n_addr ?n + ucast sz) = unat (n_addr ?n) + unat sz"
    "unat (n_size ?n - sz) = unat (n_size ?n) - unat sz"
    by (auto intro!: unat_add_ucast unat_diff_u32 simp: word_le_nat_alt)
  have "p < next_node st" using D(5) g(1) by simp
  then show "shm_ok b e st'"
    by (intro retile_ok [OF ok, of xs "[p]" ys st' "[a, p]"]) (use g ag fi ai u N in \<open>auto simp: nd a(1)\<close>)
  show "areas st' = insert (unat (n_addr ?n), unat sz) (areas st)"
    using g(3) ag unfolding areas_def A by (auto simp: nd image_iff)
  show "n_addr (nodes st' a) = n_addr ?n" using ag by (simp add: nd)
qed


lemma allocate_None: "allocate_free_area ka p sz st = (None, st') \<Longrightarrow> st' = st"
  by (auto simp: allocate_free_area_def Let_def split: if_splits)

lemma allocate_ok:
  assumes ok: "shm_ok b e st" and p: "p \<in> free_nodes st" and sz: "0 < sz"
    and st': "allocate_free_area ka p sz st = (Some a, st')"
  shows "shm_ok b e st'" "areas st' = insert (unat (n_addr (nodes st p)), unat sz) (areas st)"
    "free_nodes st - {p} \<subseteq> free_nodes st'" "n_addr (nodes st' a) = n_addr (nodes st p)"
proof -
  consider "n_size (nodes st p) = sz" | "sz < n_size (nodes st p)"
    using st' by (auto simp: allocate_free_area_def Let_def split: if_splits)
  then have "shm_ok b e st' \<and> areas st' = insert (unat (n_addr (nodes st p)), unat sz) (areas st) \<and>
    free_nodes st - {p} \<subseteq> free_nodes st' \<and> n_addr (nodes st' a) = n_addr (nodes st p)"
  proof cases
    case 1
    then have "a = p" "st' = list_add_allocated_area p (list_remove_free_area p (set_node p ((nodes st p)\<lparr>n_tag := True\<rparr>) st))"
      using st' by (auto simp: allocate_free_area_def Let_def)
    then show ?thesis using allocate_exact_ok [OF ok p] 1 by auto
  next
    case 2
    then show ?thesis using allocate_split_ok [OF ok p sz 2 st'] by auto
  qed
  then show "shm_ok b e st'" "areas st' = insert (unat (n_addr (nodes st p)), unat sz) (areas st)"
    "free_nodes st - {p} \<subseteq> free_nodes st'" "n_addr (nodes st' a) = n_addr (nodes st p)" by simp_all
qed

section \<open>Aligned allocation\<close>

lemma unat_align_down:
  fixes w :: "'a::len word"
  assumes "k < LENGTH('a)"
  shows "unat (w AND NOT (2 ^ k - 1)) = unat w div 2 ^ k * 2 ^ k"
proof -
  have "w AND NOT (2 ^ k - 1) = w AND NOT (take_bit k w)"
    by (rule bit_word_eqI) (auto simp: bit_simps simp flip: mask_eq_exp_minus_1)
  also have "\<dots> = w - take_bit k w"
    by (rule disjunctive_diff [symmetric]) (simp add: bit_simps)
  finally have e: "w AND NOT (2 ^ k - 1) = w - take_bit k w" .
  have m: "unat (take_bit k w) = unat w mod 2 ^ k" by (simp only: unsigned_take_bit_eq) (simp add: take_bit_eq_mod)
  then have "take_bit k w \<le> w" by (simp add: word_le_nat_alt)
  then have "unat (w - take_bit k w) = unat w - unat w mod 2 ^ k" by (simp add: unat_sub m)
  then show ?thesis unfolding e by (simp add: minus_mod_eq_div_mult)
qed

text \<open>The next aligned address lies above an unaligned one, by at most the alignment.\<close>

lemma unat_align_up:
  fixes w :: u64
  assumes "k \<le> 32" "unat w \<le> 2 ^ 62"
  shows "unat ((w + 2 ^ k) AND NOT (2 ^ k - 1)) = (unat w div 2 ^ k + 1) * 2 ^ k"
proof -
  have p: "(2 :: nat) ^ k \<le> 2 ^ 32" using assms(1) by (intro power_increasing) auto
  have "unat ((2 :: u64) ^ k) = 2 ^ k" using assms(1) by (intro unat_pow2_word) simp
  then have "unat (w + 2 ^ k) = unat w + 2 ^ k" using assms(2) p by (simp add: unat_word_ariths(1))
  then show ?thesis using assms(1) by (simp add: unat_align_down div_add_self2)
qed


text \<open>
  The cut of a free area at the next aligned address, in numbers: a non-empty free part, the
  allocated part, and a free rest.
\<close>

lemma align_cut:
  fixes addr sz al :: u64 and s :: u32
  assumes "k \<le> 32" "unat addr + unat s \<le> 2 ^ 62" "sz \<le> ucast s" "al = (addr + 2 ^ k) AND NOT (2 ^ k - 1)"
    "al < addr + ucast s" "al + sz \<le> addr + ucast s"
  shows "unat al mod 2 ^ k = 0" "unat addr < unat al" "unat al + unat sz \<le> unat addr + unat s"
    "unat (ucast sz :: u32) = unat sz" "unat (al + sz) = unat al + unat sz"
    "al + sz = addr + ucast s \<longleftrightarrow> unat al + unat sz = unat addr + unat s"
    "unat (ucast (addr + ucast s - (al + sz)) :: u32) = unat addr + unat s - (unat al + unat sz)"
    "unat (s - ucast sz) = unat s - unat sz"
    "unat (s - ucast sz - ucast (addr + ucast s - (al + sz)) :: u32) = unat al - unat addr"
proof -
  have S: "unat s < 2 ^ 32" using unat_less_exp [of s] by simp
  have us: "unat (ucast s :: u64) = unat s" using S by (simp add: unsigned_ucast_eq take_bit_nat_eq_self)
  have Z: "unat sz \<le> unat s" using assms(3) by (simp add: word_le_nat_alt us)
  have P: "(2 :: nat) ^ k \<le> 2 ^ 32" "0 < (2 :: nat) ^ k" using power_increasing [OF assms(1), of "2 :: nat"] by simp_all
  have T: "unat al = (unat addr div 2 ^ k + 1) * 2 ^ k" using unat_align_up [of k addr] assms by simp
  have lt: "unat addr < unat al"
    using dividend_less_times_div [OF P(2), of "unat addr"] unfolding T by (simp add: mult.commute add.commute)
  have le: "unat al \<le> unat addr + 2 ^ k" unfolding T by (simp add: div_times_less_eq_dividend)
  have E: "unat (addr + ucast s) = unat addr + unat s" using assms(2) by (rule unat_add_ucast)
  show A: "unat (al + sz) = unat al + unat sz"
    using le P Z S assms(2) by (simp add: unat_word_ariths(1))
  show m: "unat al mod 2 ^ k = 0" unfolding T by simp
  show "unat addr < unat al" by (rule lt)
  show c: "unat al + unat sz \<le> unat addr + unat s" using assms(6) by (simp add: word_le_nat_alt A E)
  show z: "unat (ucast sz :: u32) = unat sz" using Z S by (simp add: unsigned_ucast_eq take_bit_nat_eq_self)
  show "al + sz = addr + ucast s \<longleftrightarrow> unat al + unat sz = unat addr + unat s"
    by (simp only: word_unat_eq_iff A E)
  have R: "unat (addr + ucast s - (al + sz)) = unat addr + unat s - (unat al + unat sz)"
    using assms(6) by (simp add: unat_sub A E)
  show r: "unat (ucast (addr + ucast s - (al + sz)) :: u32) = unat addr + unat s - (unat al + unat sz)"
    using lt S by (simp add: unsigned_ucast_eq R take_bit_nat_eq_self)
  show d: "unat (s - ucast sz) = unat s - unat sz" using Z z by (simp add: unat_sub word_le_nat_alt)
  show "unat (s - ucast sz - ucast (addr + ucast s - (al + sz)) :: u32) = unat al - unat addr"
    using r d c lt by (simp add: unat_sub word_le_nat_alt)
qed


lemma do_align_None: "do_align_valloc ka kf p align sz st = (None, st') \<Longrightarrow> st' = st"
  by (auto simp: do_align_valloc_def Let_def dest: allocate_None split: if_splits)

lemma carve_aligned_ok:
  assumes ok: "shm_ok b e st" and p: "p \<in> free_nodes st" and k: "k \<le> 32" and sz: "0 < sz" "sz \<le> ucast (n_size (nodes st p))"
    and al: "al = (n_addr (nodes st p) + 2 ^ k) AND NOT (2 ^ k - 1)" "en = n_addr (nodes st p) + ucast (n_size (nodes st p))"
      "al < en" "al + sz \<le> en" and a: "a = next_node st" and st': "st' = carve_aligned p al sz st"
  shows "shm_ok b e st'" "areas st' = insert (unat al, unat sz) (areas st)" "free_nodes st \<subseteq> free_nodes st'"
    "n_addr (nodes st' a) = al" "unat al mod 2 ^ k = 0"
proof -
  note D = shm_okD [OF ok]
  define f rest fn where f: "f = Suc a" and rest: "rest = (al + sz \<noteq> en)"
    and fn: "fn = \<lparr>n_tag = False, n_addr = al + sz, n_size = ucast (en - (al + sz))\<rparr>"
  define st3 where st3: "st3 = (if rest then set_node f fn else id)
        (set_node a \<lparr>n_tag = True, n_addr = al, n_size = ucast sz\<rparr>
          (list_remove_free_area p (st\<lparr>next_node := (if rest then Suc f else f)\<rparr>)))"
  define st5 where st5: "st5 = list_add_allocated_area a (list_add_free_area p
        (set_node p ((nodes st p)\<lparr>n_size := n_size (nodes st p) - ucast sz - (if rest then n_size fn else 0)\<rparr>) st3))"
  have st': "st' = (if rest then (list_add_free_area f st5)\<lparr>g_list := insert_after f a (insert_after a p (g_list st))\<rparr>
        else st5\<lparr>g_list := insert_after a p (g_list st)\<rparr>)"
    unfolding st' carve_aligned_def Let_def st5 st3 fn rest f a al(2)
    by (simp add: list_add_free_area_def Let_def)
  let ?n = "nodes st p" and ?F = "free_nodes st"
  let ?pn = "?n\<lparr>n_size := n_size ?n - ucast sz - (if rest then n_size fn else 0)\<rparr>"
  let ?an = "\<lparr>n_tag = True, n_addr = al, n_size = ucast sz\<rparr>"
  obtain xs ys where g: "g_list st = xs @ p # ys" "\<not> n_tag (nodes st p)" "p \<notin> alloc_nodes st"
    "xs = [] \<or> n_tag (nodes st (last xs))" "ys = [] \<or> n_tag (nodes st (hd ys))" "p \<notin> set xs" "p \<notin> set ys"
    by (rule free_node_split [OF ok p])
  have lt: "i < a" if "i \<in> set xs \<union> set ys \<union> {p}" for i using that D(5) by (auto simp: g(1) a)
  then have ag: "a \<noteq> p" "f \<noteq> p" "f \<noteq> a" "a \<notin> set xs" "a \<notin> set ys" "f \<notin> set xs" "f \<notin> set ys" "p < a"
    by (force simp: f)+
  then have af: "a \<notin> ?F" "f \<notin> ?F" "a \<notin> alloc_nodes st" "f \<notin> alloc_nodes st"
    by (auto simp: free_nodes_def alloc_nodes_def g(1))
  have nd: "nodes st' = (if rest then (nodes st)(a := ?an, f := fn, p := ?pn) else (nodes st)(a := ?an, p := ?pn))"
    "g_list st' = xs @ (if rest then [p, a, f] else [p, a]) @ ys" "next_node st' = (if rest then Suc f else f)"
    using g(6) ag insert_after_split [of a "xs @ [p]" f ys] by (auto simp: st' st5 st3 g(1))
  have F: "free_nodes st' = (if rest then insert f ?F else ?F)" using g(2,6,7) ag by (auto simp: free_nodes_def nd g(1) fn)
  have A: "alloc_nodes st' = insert a (alloc_nodes st)" using g(2,6,7) ag by (auto simp: alloc_nodes_def nd g(1) fn)
  have "free_inv st3 (?F - {p})"
    unfolding st3 using free_inv_remove [OF D(2) p] free_inv_remove [of "st\<lparr>next_node := m\<rparr>" ?F p for m] D(2) p af
    by (auto intro!: free_inv_set_node)
  then have "free_inv st5 ?F"
    unfolding st5 using free_inv_add [OF free_inv_set_node, of st3 "?F - {p}" p p] p by (simp add: insert_absorb)
  then have "free_inv st' (if rest then insert f ?F else ?F)" using free_inv_add [of st5 ?F f] af by (simp add: st')
  then have fi: "free_inv st' (free_nodes st')" by (simp only: F)
  have "alloc_inv st3 (alloc_nodes st)" unfolding st3 using D(3) af by (auto intro!: alloc_inv_set_node)
  then have "alloc_inv st' (insert a (alloc_nodes st))"
    unfolding st' st5 using alloc_inv_add alloc_inv_set_node g(3) af by simp
  then have ai: "alloc_inv st' (alloc_nodes st')" by (simp only: A)
  have N: "unat (n_addr ?n) + unat (n_size ?n) \<le> 2 ^ 62" using shm_ok_node(4,5) [OF ok, of p] by (simp add: g(1))
  note C = align_cut [OF k N sz(2) al(1) al(3,4) [unfolded al(2)]]
  have z: "0 < unat sz" using sz(1) by (simp add: word_less_nat_alt)
  have ti: "tiles (nodes st') m (if rest then [p, a, f] else [p, a]) m'" if "tiles (nodes st) m [p] m'" for m m'
    using that C z ag by (auto simp: nd fn rest al(2))
  show "shm_ok b e st'"
    by (rule retile_ok [OF ok, of xs "[p]" ys st' "if rest then [p, a, f] else [p, a]"])
      (use g ag fi ai ti less_SucI [OF ag(8)] in \<open>auto simp: nd a less_SucI f\<close>)
  show "areas st' = insert (unat al, unat sz) (areas st)"
    using g(3) ag af C(4) unfolding areas_def A by (auto simp: nd image_iff)
  show "free_nodes st \<subseteq> free_nodes st'" "n_addr (nodes st' a) = al" "unat al mod 2 ^ k = 0"
    using F C(1) ag by (auto simp: nd)
qed

end
