(* ===== verification/Area_Interface.thy ===== *)
theory Area_Interface
  imports Prelude
begin

text \<open>
  The contract of an allocator of memory areas, as its clients rely on it: areas are given
  as start and length, the areas outstanding never overlap, an allocation adds the area it
  returns, a release removes the area at the address given (\<open>key\<close> reads it as a number). A client keeps a ledger of the
  areas it was given and has not returned.
\<close>

type_synonym area = "nat \<times> nat"

definition areas_apart :: "area \<Rightarrow> area \<Rightarrow> bool" where
  "areas_apart x y = (fst x + snd x \<le> fst y \<or> fst y + snd y \<le> fst x)"

datatype ('r, 'k) area_op = Get 'r | Put 'k

fun ledger ::
  "('r \<Rightarrow> 's \<Rightarrow> area option \<times> 's) \<Rightarrow> ('k \<Rightarrow> 's \<Rightarrow> 's) \<Rightarrow> ('k \<Rightarrow> nat) \<Rightarrow> ('r, 'k) area_op list \<Rightarrow> 's \<Rightarrow> area set \<Rightarrow> area set \<times> 's" where
  "ledger get put key [] s L = (L, s)"
| "ledger get put key (Get r # ops) s L =
     (case get r s of
        (None, s') \<Rightarrow> ledger get put key ops s' L
      | (Some x, s') \<Rightarrow> ledger get put key ops s' (insert x L))"
| "ledger get put key (Put a # ops) s L = ledger get put key ops (put a s) {x \<in> L. fst x \<noteq> key a}"

locale area_allocator =
  fixes ok :: "'s \<Rightarrow> bool" and held :: "'s \<Rightarrow> area set"
    and get :: "'r \<Rightarrow> 's \<Rightarrow> area option \<times> 's" and put :: "'k \<Rightarrow> 's \<Rightarrow> 's"
    and key :: "'k \<Rightarrow> nat"
  assumes get_ok: "ok s \<Longrightarrow> get r s = (res, s') \<Longrightarrow> ok s'"
    and get_held: "ok s \<Longrightarrow> get r s = (res, s') \<Longrightarrow> held s' = set_option res \<union> held s"
    and get_fresh: "ok s \<Longrightarrow> get r s = (Some x, s') \<Longrightarrow> y \<in> held s \<Longrightarrow> areas_apart x y"
    and put_ok: "ok s \<Longrightarrow> ok (put a s)"
    and put_held: "ok s \<Longrightarrow> held (put a s) = {x \<in> held s. fst x \<noteq> key a}"
    and apart: "ok s \<Longrightarrow> x \<in> held s \<Longrightarrow> y \<in> held s \<Longrightarrow> x \<noteq> y \<Longrightarrow> areas_apart x y"
begin

text \<open>The client's ledger is the allocator's own account, whatever the sequence of requests.\<close>

lemma ledger_exact: "ok s \<Longrightarrow> ledger get put key ops s (held s) = (L, s') \<Longrightarrow> ok s' \<and> L = held s'"
proof (induction ops arbitrary: s)
  case (Cons opr ops)
  show ?case
  proof (cases opr)
    case (Get r)
    obtain res s1 where g: "get r s = (res, s1)" by (rule prod.exhaust)
    show ?thesis
      using Cons.IH [OF get_ok [OF Cons.prems(1) g]] Cons.prems Get g get_held [OF Cons.prems(1) g]
      by (cases res) auto
  next
    case (Put a)
    then show ?thesis using Cons.IH [OF put_ok [OF Cons.prems(1)]] Cons.prems put_held [OF Cons.prems(1)] by simp
  qed
qed auto

lemma ledger_apart:
  "ok s \<Longrightarrow> ledger get put key ops s (held s) = (L, s') \<Longrightarrow> x \<in> L \<Longrightarrow> y \<in> L \<Longrightarrow> x \<noteq> y \<Longrightarrow> areas_apart x y"
  using ledger_exact apart by blast

lemma ledger_next:
  assumes "ok s" "ledger get put key ops s (held s) = (L, s')" "get r s' = (Some x, s'')"
  shows "held s'' = insert x L" "y \<in> L \<Longrightarrow> areas_apart x y"
proof -
  have e: "ok s'" "L = held s'" using ledger_exact [OF assms(1,2)] by simp_all
  show "held s'' = insert x L" using get_held [OF e(1) assms(3)] e(2) by simp
  show "y \<in> L \<Longrightarrow> areas_apart x y" using get_fresh [OF e(1) assms(3)] e(2) by simp
qed

end

end
