(* ===== verification/Shm_Props.thy ===== *)
theory Shm_Props
  imports Shm_Invariant Area_Interface
begin

text \<open>
  The entry points of the shared memory allocator: what allocation, aligned allocation and
  release do to the set of allocated areas, over all reachable states, and which requests
  are refused.
\<close>

section \<open>Allocation\<close>

lemma shm_ok_reposition:
  assumes "shm_ok b e st" "set sk \<subseteq> free_nodes st"
  shows "shm_ok b e (reposition sk nd st)" "areas (reposition sk nd st) = areas st"
proof -
  have s: "free_nodes (reposition sk nd st) = free_nodes st" "alloc_nodes (reposition sk nd st) = alloc_nodes st"
    by (simp_all add: free_nodes_def alloc_nodes_def)
  show "shm_ok b e (reposition sk nd st)" using assms reposition_inv [OF _ assms(2)] by (simp add: shm_ok_def s)
  show "areas (reposition sk nd st) = areas st" by (simp add: areas_def s)
qed

lemma free_list_nodes: "shm_ok b e st \<Longrightarrow> set (free_lists st k) \<subseteq> free_nodes st"
  using shm_okD(2) by (fastforce simp: free_inv_def)

lemma unat_ucast_le:
  fixes sz :: u64 and s :: u32
  assumes "sz \<le> ucast s"
  shows "unat (ucast sz :: u32) = unat sz" "0 < sz \<Longrightarrow> 0 < (ucast sz :: u32)"
proof -
  have S: "unat s < 2 ^ 32" using unat_less_exp [of s] by simp
  then have "unat (ucast s :: u64) = unat s" by (simp add: unsigned_ucast_eq take_bit_nat_eq_self)
  then have "unat sz < 2 ^ 32" using assms S by (simp add: word_le_nat_alt)
  then show u: "unat (ucast sz :: u32) = unat sz" by (simp add: unsigned_ucast_eq take_bit_nat_eq_self)
  show "0 < sz \<Longrightarrow> 0 < (ucast sz :: u32)" by (simp add: word_less_nat_alt u)
qed

lemma ok_addr_nonzero: "shm_ok b e st \<Longrightarrow> p \<in> free_nodes st \<Longrightarrow> n_addr (nodes st p) \<noteq> 0"
  using shm_ok_node(6) by (simp add: free_nodes_def)

text \<open>An area is granted when it is new and clear of every area held.\<close>

definition grants :: "shm_state \<Rightarrow> shm_state \<Rightarrow> area \<Rightarrow> bool" where
  "grants st st' x \<longleftrightarrow> areas st' = insert x (areas st) \<and> (\<forall>y \<in> areas st. areas_apart x y)"

lemma free_part_apart:
  assumes "shm_ok b e st" "p \<in> free_nodes st" "unat (n_addr (nodes st p)) \<le> a"
    "a + n \<le> unat (n_addr (nodes st p)) + unat (n_size (nodes st p))" "y \<in> areas st"
  shows "areas_apart (a, n) y"
proof -
  obtain i where i: "i \<in> alloc_nodes st" "y = (unat (n_addr (nodes st i)), unat (n_size (nodes st i)))"
    using assms(5) by (auto simp: areas_def)
  then have "i \<noteq> p" "i \<in> set (g_list st)" "p \<in> set (g_list st)" using assms(2) by (auto simp: free_nodes_def alloc_nodes_def)
  then show ?thesis
    using tiles_disjoint [OF shm_okD(6) [OF assms(1)], of i p] assms(3,4) i(2) by (auto simp: areas_apart_def)
qed

lemma grants_reposition [simp]: "grants st (reposition sk nd st') x = grants st st' x"
  by (simp add: grants_def areas_def alloc_nodes_def)

lemma shm_alloc_cases:
  assumes "shm_alloc_list ka sz st = (r, st')"
  obtains (none) "r = 0" "st' = st"
  | (some) k p ps a st1 where "sz \<noteq> 0" "get_free_area_list st (ucast sz) = Some k"
      "dropWhile (\<lambda>p. \<not> sz \<le> ucast (n_size (nodes st p))) (free_lists st k) = p # ps"
      "allocate_free_area (ka p) p (ucast sz) st = (Some a, st1)" "r = n_addr (nodes st1 a)"
      "st' = reposition (takeWhile (\<lambda>p. \<not> sz \<le> ucast (n_size (nodes st p))) (free_lists st k)) (nodes st) st1"
proof (cases "sz = 0 \<or> get_free_area_list st (ucast sz) = None")
  case True
  then show thesis using assms none by (auto simp: shm_alloc_list_def split: option.splits)
next
  case False
  then obtain k where k: "sz \<noteq> 0" "get_free_area_list st (ucast sz) = Some k" by auto
  let ?nf = "\<lambda>p. \<not> sz \<le> ucast (n_size (nodes st p))"
  show thesis
  proof (cases "dropWhile ?nf (free_lists st k)")
    case Nil
    then show thesis using assms k none by (simp add: shm_alloc_list_def Let_def del: dropWhile_eq_Nil_conv)
  next
    case (Cons p ps)
    obtain o1 st1 where al: "allocate_free_area (ka p) p (ucast sz) st = (o1, st1)" by (rule prod.exhaust)
    show thesis
    proof (cases o1)
      case None
      then show thesis using assms k Cons al none allocate_None [of "ka p" p "ucast sz" st st1]
        by (simp add: shm_alloc_list_def Let_def)
    next
      case (Some a)
      then show thesis using assms k Cons al some [OF k Cons] by (simp add: shm_alloc_list_def Let_def)
    qed
  qed
qed

lemma shm_alloc_ok:
  assumes ok: "shm_ok b e st" and r: "shm_alloc_list ka sz st = (r, st')"
  shows "shm_ok b e st' \<and> (r = 0 \<and> st' = st \<or> r \<noteq> 0 \<and> grants st st' (unat r, unat sz))"
  using r
proof (cases rule: shm_alloc_cases)
  case (some k p ps a st1)
  let ?nf = "\<lambda>p. \<not> sz \<le> ucast (n_size (nodes st p))"
  have "p \<in> set (free_lists st k)" using some(3) by (metis list.set_intros(1) set_dropWhileD)
  then have p: "p \<in> free_nodes st" using free_list_nodes [OF ok] by auto
  have fit: "sz \<le> ucast (n_size (nodes st p))"
    using some(3) hd_dropWhile [of ?nf "free_lists st k"] by simp
  note u = unat_ucast_le [OF fit]
  have pos: "0 < (ucast sz :: u32)" using u(2) some(1) by (simp add: word_neq_0_conv)
  note A = allocate_ok [OF ok p pos some(4)]
  have sk: "set (takeWhile ?nf (free_lists st k)) \<subseteq> free_nodes st1"
    using A(3) free_list_nodes [OF ok, of k] fit by (auto dest: set_takeWhileD)
  have "unat sz \<le> unat (n_size (nodes st p))"
    using fit by (simp add: word_le_nat_alt unsigned_ucast_eq take_bit_nat_less_eq_self order_trans)
  then have "grants st st1 (unat (n_addr (nodes st1 a)), unat sz)"
    using A(2,4) u(1) free_part_apart [OF ok p order_refl, of "unat sz"] by (simp add: grants_def)
  then show ?thesis
    using shm_ok_reposition [OF A(1) sk] A(4) ok_addr_nonzero [OF ok p] by (simp add: some(5,6))
qed (use ok in simp)

section \<open>Aligned allocation\<close>

lemma do_align_cases:
  assumes "do_align_valloc ka kf p align sz st = (Some a, st')" "n_addr (nodes st p) \<noteq> 0"
  obtains (here) "n_addr (nodes st p) AND NOT (align - 1) = n_addr (nodes st p)"
      "allocate_free_area ka p (ucast sz) st = (Some a, st')" "sz \<le> ucast (n_size (nodes st p))"
  | (cut) al where "al = (n_addr (nodes st p) + align) AND NOT (align - 1)" "sz \<le> ucast (n_size (nodes st p))"
      "al < n_addr (nodes st p) + ucast (n_size (nodes st p))"
      "al + sz \<le> n_addr (nodes st p) + ucast (n_size (nodes st p))" "a = next_node st" "st' = carve_aligned p al sz st"
  using assms unfolding do_align_valloc_def Let_def by (auto simp: not_less split: if_splits)

lemma do_align_ok:
  assumes ok: "shm_ok b e st" and p: "p \<in> free_nodes st" and k: "k \<le> 32" and sz: "0 < sz"
    and r: "do_align_valloc ka kf p (2 ^ k) sz st = (Some a, st')"
  shows "shm_ok b e st' \<and> grants st st' (unat (n_addr (nodes st' a)), unat sz) \<and>
    free_nodes st - {p} \<subseteq> free_nodes st' \<and> unat (n_addr (nodes st' a)) mod 2 ^ k = 0 \<and> n_addr (nodes st' a) \<noteq> 0"
  using r ok_addr_nonzero [OF ok p]
proof (cases rule: do_align_cases)
  case here
  have "unat (n_addr (nodes st p)) = unat (n_addr (nodes st p)) div 2 ^ k * 2 ^ k"
    using unat_align_down [of k "n_addr (nodes st p)"] k here(1) by simp
  then have "unat (n_addr (nodes st p)) mod 2 ^ k = 0" by (metis mod_mult_self2_is_0)
  moreover have "unat sz \<le> unat (n_size (nodes st p))"
    using here(3) by (simp add: word_le_nat_alt unsigned_ucast_eq take_bit_nat_less_eq_self order_trans)
  ultimately show ?thesis
    using allocate_ok [OF ok p unat_ucast_le(2) [OF here(3) sz] here(2)] unat_ucast_le(1) [OF here(3)]
      ok_addr_nonzero [OF ok p] free_part_apart [OF ok p order_refl, of "unat sz"] by (simp add: grants_def)
next
  case (cut al)
  note C = carve_aligned_ok [OF ok p k sz cut(2) cut(1) refl cut(3,4,5,6)]
  have "unat (n_addr (nodes st p)) + unat (n_size (nodes st p)) \<le> 2 ^ 62"
    using shm_ok_node(4,5) [OF ok, of p] p by (simp add: free_nodes_def)
  note cutb = align_cut [OF k this cut(2,1,3,4)]
  then have "al \<noteq> 0" by (metis not_less_zero unat_0)
  moreover have "areas_apart (unat al, unat sz) y" if "y \<in> areas st" for y
    using free_part_apart [OF ok p _ _ that] cutb(2,3) by simp
  ultimately show ?thesis using C by (auto simp: grants_def)
qed

lemma align_nodes_ok:
  assumes "shm_ok b e st" "k \<le> 32" "0 < sz" "set skipped \<union> set ps \<subseteq> free_nodes st" "distinct (skipped @ ps)"
    "align_nodes ka kf (2 ^ k) sz skipped ps st = Some (a, st')"
  shows "shm_ok b e st' \<and> grants st st' (unat (n_addr (nodes st' a)), unat sz) \<and>
    unat (n_addr (nodes st' a)) mod 2 ^ k = 0 \<and> n_addr (nodes st' a) \<noteq> 0"
  using assms(4-6)
proof (induction ps arbitrary: skipped)
  case (Cons p ps)
  obtain o1 st1 where d: "do_align_valloc (ka p) (kf p) p (2 ^ k) sz st = (o1, st1)" by (rule prod.exhaust)
  show ?case
  proof (cases o1)
    case None
    then show ?thesis using Cons.IH [of "skipped @ [p]"] Cons.prems d by auto
  next
    case (Some c)
    have p: "p \<in> free_nodes st" using Cons.prems(1) by simp
    have C: "shm_ok b e st1 \<and> grants st st1 (unat (n_addr (nodes st1 c)), unat sz) \<and>
        free_nodes st - {p} \<subseteq> free_nodes st1 \<and> unat (n_addr (nodes st1 c)) mod 2 ^ k = 0 \<and> n_addr (nodes st1 c) \<noteq> 0"
      by (rule do_align_ok [OF assms(1) p assms(2,3) d [unfolded Some]])
    have e: "a = c" "st' = reposition skipped (nodes st) st1" using Cons.prems(3) d Some by simp_all
    have "set skipped \<subseteq> free_nodes st1" using C Cons.prems(1,2) by auto
    then show ?thesis using shm_ok_reposition [of b e st1 skipped "nodes st"] C by (simp add: e)
  qed
qed simp

lemma align_lists_ok:
  assumes "shm_ok b e st" "j \<le> 32" "0 < sz" "align_lists ka kf (2 ^ j) sz k st = (r, st')"
  shows "shm_ok b e st' \<and> (r = 0 \<and> st' = st \<or>
    r \<noteq> 0 \<and> grants st st' (unat r, unat sz) \<and> unat r mod 2 ^ j = 0)"
  using assms(4)
proof (induction "9 - k" arbitrary: k)
  case 0
  then show ?case using assms(1) by (simp add: align_lists.simps [of ka kf "2 ^ j" sz k st])
next
  case (Suc n)
  have k: "k < 9" "n = 9 - Suc k" using Suc.hyps(2) by simp_all
  show ?case
  proof (cases "align_nodes ka kf (2 ^ j) sz [] (free_lists st k) st")
    case None
    then have "align_lists ka kf (2 ^ j) sz (Suc k) st = (r, st')"
      using Suc.prems k(1) by (simp add: align_lists.simps [of ka kf "2 ^ j" sz k st])
    then show ?thesis by (rule Suc.hyps(1) [OF k(2)])
  next
    case (Some x)
    obtain a st1 where x: "x = (a, st1)" by (rule prod.exhaust)
    have "distinct (free_lists st k)" using shm_okD(2) [OF assms(1)] by (simp add: free_inv_def)
    then show ?thesis
      using align_nodes_ok [OF assms(1-3), of "[]" "free_lists st k" ka kf a st1] free_list_nodes [OF assms(1), of k]
        Some x Suc.prems k(1) by (auto simp: align_lists.simps [of ka kf "2 ^ j" sz k st])
  qed
qed


section \<open>Release\<close>

lemma tiles_total:
  assumes "tiles nd m xs m'" "m' - m < 2 ^ 32"
  shows "unat (sum_list (map (\<lambda>i. n_size (nd i)) xs)) = m' - m"
  using assms
proof (induction xs arbitrary: m)
  case (Cons x xs)
  have t: "tiles nd (m + unat (n_size (nd x))) xs m'" using Cons.prems(1) by simp
  have le: "m + unat (n_size (nd x)) \<le> m'" by (rule tiles_le [OF t])
  have ih: "unat (sum_list (map (\<lambda>i. n_size (nd i)) xs)) = m' - (m + unat (n_size (nd x)))"
    using Cons.IH [OF t] Cons.prems(2) by simp
  have "unat (n_size (nd x)) + unat (sum_list (map (\<lambda>i. n_size (nd i)) xs)) < 2 ^ 32"
    using Cons.prems(2) le ih by simp
  then show ?case using le ih by (simp add: unat_word_ariths(1))
qed simp

lemma next_in_split: "p \<notin> set xs \<Longrightarrow> next_in p (xs @ p # ys) = (case ys of [] \<Rightarrow> None | y # _ \<Rightarrow> Some y)"
proof (induction xs)
  case Nil
  then show ?case by (cases ys) auto
next
  case (Cons x xs)
  then show ?case by (cases xs) auto
qed

lemma prev_in_none: "p \<notin> set (tl zs) \<Longrightarrow> prev_in p zs = None"
  by (induction p zs rule: prev_in.induct) auto

lemma prev_in_split:
  "p \<notin> set xs \<Longrightarrow> p \<notin> set ys \<Longrightarrow> prev_in p (xs @ p # ys) = (if xs = [] then None else Some (last xs))"
proof (induction xs)
  case Nil
  then show ?case by (simp add: prev_in_none)
next
  case (Cons x xs)
  then show ?case by (cases xs) auto
qed

text \<open>A run of nodes, all but one free, becomes one free node at its start.\<close>

lemma release_ok:
  assumes ok: "shm_ok b e st" and g: "g_list st = xs @ old @ ys" "g_list st' = xs @ [c] @ ys" and c: "old = c # old'"
    and p: "p \<in> set old" "n_tag (nodes st p)" "\<forall>i \<in> set old - {p}. \<not> n_tag (nodes st i)"
    and tg: "xs = [] \<or> n_tag (nodes st (last xs))" "ys = [] \<or> n_tag (nodes st (hd ys))"
    and nd: "\<forall>i \<in> set xs \<union> set ys. nodes st' i = nodes st i" "\<not> n_tag (nodes st' c)"
      "n_addr (nodes st' c) = n_addr (nodes st c)" "n_size (nodes st' c) = sum_list (map (\<lambda>i. n_size (nodes st i)) old)"
    and nx: "next_node st' = next_node st"
    and inv: "free_inv st' (insert c (free_nodes st - set old))" "alloc_inv st' (alloc_nodes st - {p})"
  shows "shm_ok b e st' \<and> areas st' = areas st - {(unat (n_addr (nodes st p)), unat (n_size (nodes st p)))}"
proof
  note D = shm_okD [OF ok]
  have d: "set old \<inter> (set xs \<union> set ys) = {}" "c \<notin> set old'" using D(4) by (auto simp: g(1) c)
  have F: "free_nodes st' = insert c (free_nodes st - set old)"
    using nd d c by (auto simp: free_nodes_def g)
  have A: "alloc_nodes st' = alloc_nodes st - {p}"
    using nd d c p by (auto simp: alloc_nodes_def g)
  have t: "tiles (nodes st') m [c] m'" if "tiles (nodes st) m old m'" "b \<le> m" "m' \<le> e" for m m'
  proof -
    have "m' - m < 2 ^ 32" using D(1) that(2,3) by (auto simp: seg_ok_def)
    from tiles_total [OF that(1) this] have u: "unat (n_size (nodes st' c)) = m' - m" by (simp only: nd(4))
    have "m < m'" "unat (n_addr (nodes st c)) = m"
      using that(1) tiles_le [of "nodes st" "m + unat (n_size (nodes st c))" old' m'] by (auto simp: c)
    then show ?thesis using u nd(3) by simp
  qed
  show "shm_ok b e st'"
    by (rule retile_ok [OF ok g _ tg _ _ _ _ nd(1) t]) (use d c nx D(5) inv g(1) in \<open>auto simp: F A\<close>)
  have nd': "nodes st' i = nodes st i" if "i \<in> alloc_nodes st - {p}" for i
    using that nd(1) p(3) by (auto simp: alloc_nodes_def g(1))
  have "inj_on (\<lambda>i. (unat (n_addr (nodes st i)), unat (n_size (nodes st i)))) (alloc_nodes st)"
  proof (rule inj_onI)
    fix i j assume ij: "i \<in> alloc_nodes st" "j \<in> alloc_nodes st"
      "(unat (n_addr (nodes st i)), unat (n_size (nodes st i))) = (unat (n_addr (nodes st j)), unat (n_size (nodes st j)))"
    then show "i = j"
      using tiles_disjoint [OF D(6), of i j] tiles_member(3) [OF D(6), of j] by (fastforce simp: alloc_nodes_def)
  qed
  moreover have "p \<in> alloc_nodes st" using p by (auto simp: alloc_nodes_def g(1))
  ultimately show "areas st' = areas st - {(unat (n_addr (nodes st p)), unat (n_size (nodes st p)))}"
    unfolding areas_def A using nd' by (auto simp: inj_on_def)
qed


text \<open>
  Merging with the next node: \<open>dn\<close> is the absorbed node, if any. The state \<open>s\<close> is the one
  in which node \<open>p\<close> is on no list.
\<close>

lemma merge_downward_spec:
  assumes g: "g_list s = xs @ p # ys" "distinct (g_list s)" and fi: "free_inv s F" and ai: "alloc_inv s A"
    and F: "\<forall>i \<in> set ys. \<not> n_tag (nodes s i) \<longrightarrow> i \<in> F" "p \<notin> F" "p \<notin> A"
  shows "\<exists>dn ys'. ys = dn @ ys' \<and> length dn \<le> 1 \<and> (\<forall>i \<in> set dn. \<not> n_tag (nodes s i)) \<and>
    (dn = [] \<longrightarrow> ys = [] \<or> n_tag (nodes s (hd ys))) \<and>
    nodes (try_merge_downward p s) = (nodes s)(p := (nodes s p)\<lparr>n_size := n_size (nodes s p) + sum_list (map (\<lambda>i. n_size (nodes s i)) dn)\<rparr>) \<and>
    g_list (try_merge_downward p s) = xs @ p # ys' \<and> next_node (try_merge_downward p s) = next_node s \<and>
    free_inv (try_merge_downward p s) (F - set dn) \<and> alloc_inv (try_merge_downward p s) A"
proof (cases "ys = [] \<or> n_tag (nodes s (hd ys))")
  case True
  then have "try_merge_downward p s = s"
    using g by (auto simp: try_merge_downward_def next_in_split split: list.splits)
  then show ?thesis using True g fi ai by (intro exI [of _ "[]"] exI [of _ ys]) auto
next
  case False
  then obtain y ys' where ys: "ys = y # ys'" "\<not> n_tag (nodes s y)" by (cases ys) auto
  let ?s1 = "set_node p ((nodes s p)\<lparr>n_size := n_size (nodes s p) + n_size (nodes s y)\<rparr>) s"
  have m: "try_merge_downward p s = (list_remove_free_area y ?s1)\<lparr>g_list := xs @ p # ys'\<rparr>"
    using g ys by (auto simp: try_merge_downward_def next_in_split Let_def remove1_append)
  have "free_inv ?s1 F" by (rule free_inv_set_node [OF fi F(2)])
  then have "free_inv (list_remove_free_area y ?s1) (F - {y})" by (rule free_inv_remove) (use F(1) ys in auto)
  moreover have "alloc_inv ?s1 A" by (rule alloc_inv_set_node [OF ai F(3)])
  ultimately show ?thesis using ys m by (intro exI [of _ "[y]"] exI [of _ ys']) auto
qed

text \<open>Merging with the previous node, or joining the free lists: \<open>up\<close> is the absorbing node, if any.\<close>

definition merge_up_or_add :: "nat \<Rightarrow> shm_state \<Rightarrow> shm_state" where
  "merge_up_or_add p s =
     (case try_merge_upward p s of
        (True, s') \<Rightarrow> s'\<lparr>g_list := remove1 p (g_list s')\<rparr>
      | (False, s') \<Rightarrow> list_add_free_area p s')"

lemma merge_upward_spec:
  assumes g: "g_list s = xs @ p # ys" "distinct (g_list s)" and fi: "free_inv s F" and ai: "alloc_inv s A"
    and F: "\<forall>i \<in> set xs. \<not> n_tag (nodes s i) \<longrightarrow> i \<in> F" "p \<notin> F" "\<forall>i \<in> A. n_tag (nodes s i)"
  shows "\<exists>up xs' c. xs = xs' @ up \<and> length up \<le> 1 \<and> (\<forall>i \<in> set up. \<not> n_tag (nodes s i)) \<and>
    (up = [] \<longrightarrow> xs = [] \<or> n_tag (nodes s (last xs))) \<and> c = hd (up @ [p]) \<and>
    nodes (merge_up_or_add p s) =
      (nodes s)(c := (nodes s c)\<lparr>n_size := sum_list (map (\<lambda>i. n_size (nodes s i)) (up @ [p]))\<rparr>) \<and>
    g_list (merge_up_or_add p s) = xs' @ c # ys \<and> next_node (merge_up_or_add p s) = next_node s \<and>
    free_inv (merge_up_or_add p s) (insert c F) \<and> alloc_inv (merge_up_or_add p s) A"
proof (cases "xs = [] \<or> n_tag (nodes s (last xs))")
  case True
  then have "merge_up_or_add p s = list_add_free_area p s"
    using g by (auto simp: merge_up_or_add_def try_merge_upward_def prev_in_split)
  then show ?thesis
    using True g ai free_inv_add [OF fi F(2)] by (intro exI [of _ "[]"] exI [of _ xs] exI [of _ p]) auto
next
  case False
  then obtain x xs' where xs: "xs = xs' @ [x]" "\<not> n_tag (nodes s x)" by (cases xs rule: rev_cases) auto
  let ?s1 = "set_node x ((nodes s x)\<lparr>n_size := n_size (nodes s x) + n_size (nodes s p)\<rparr>) (list_remove_free_area x s)"
  have m: "merge_up_or_add p s = (list_add_free_area x ?s1)\<lparr>g_list := xs' @ x # ys\<rparr>"
    using g xs prev_in_split [of p "xs' @ [x]" ys]
    by (auto simp: merge_up_or_add_def try_merge_upward_def Let_def remove1_append)
  have xF: "x \<in> F" using F(1) xs by auto
  have "free_inv ?s1 (F - {x})" by (rule free_inv_set_node [OF free_inv_remove [OF fi xF]]) simp
  then have "free_inv (list_add_free_area x ?s1) (insert x (F - {x}))" by (rule free_inv_add) simp
  moreover have "alloc_inv ?s1 A" by (rule alloc_inv_set_node) (use ai F(3) xs in auto)
  ultimately show ?thesis using xs m xF by (intro exI [of _ "[x]"] exI [of _ xs'] exI [of _ x]) (auto simp: insert_absorb)
qed


lemma shm_free_unfold:
  "shm_free_list ptr st =
     (case find (\<lambda>p. n_addr (nodes st p) = ptr) (alloc_lists st (get_allocated_list_from_address ptr)) of
        None \<Rightarrow> (False, st)
      | Some p \<Rightarrow> (True, merge_up_or_add p (try_merge_downward p
          (set_node p ((nodes st p)\<lparr>n_tag := False\<rparr>) (list_remove_allocated_area p st)))))"
  by (simp add: shm_free_list_def merge_up_or_add_def Let_def split: option.splits prod.splits bool.splits)

lemma free_node_ok:
  assumes ok: "shm_ok b e st" and p: "p \<in> alloc_nodes st"
    and st': "st' = merge_up_or_add p (try_merge_downward p
          (set_node p ((nodes st p)\<lparr>n_tag := False\<rparr>) (list_remove_allocated_area p st)))"
  shows "shm_ok b e st' \<and> areas st' = areas st - {(unat (n_addr (nodes st p)), unat (n_size (nodes st p)))}"
proof -
  note D = shm_okD [OF ok]
  let ?F = "free_nodes st" and ?A = "alloc_nodes st - {p}"
  let ?s = "set_node p ((nodes st p)\<lparr>n_tag := False\<rparr>) (list_remove_allocated_area p st)"
  let ?s3 = "try_merge_downward p ?s"
  have pt: "p \<in> set (g_list st)" "n_tag (nodes st p)" "p \<notin> ?F" using p by (auto simp: alloc_nodes_def free_nodes_def)
  then obtain xs ys where g: "g_list st = xs @ p # ys" by (auto simp: in_set_conv_decomp)
  have dis: "p \<notin> set xs" "p \<notin> set ys" "distinct (xs @ p # ys)" using D(4) by (auto simp: g)
  have si: "free_inv ?s ?F" "alloc_inv ?s ?A"
    by (rule free_inv_set_node, use D(2) pt in simp, use pt in simp,
        rule alloc_inv_set_node [OF alloc_inv_remove [OF D(3)]], simp)
  have pr: "g_list ?s = xs @ p # ys" "distinct (g_list ?s)" "\<forall>i \<in> set ys. \<not> n_tag (nodes ?s i) \<longrightarrow> i \<in> ?F" "p \<notin> ?F" "p \<notin> ?A"
    using g dis pt by (auto simp: free_nodes_def)
  obtain dn ys' where dn: "ys = dn @ ys'" "length dn \<le> 1" "\<forall>i \<in> set dn. \<not> n_tag (nodes ?s i)"
      "dn = [] \<longrightarrow> ys = [] \<or> n_tag (nodes ?s (hd ys))"
      "nodes ?s3 = (nodes ?s)(p := (nodes ?s p)\<lparr>n_size := n_size (nodes ?s p) + sum_list (map (\<lambda>i. n_size (nodes ?s i)) dn)\<rparr>)"
      "g_list ?s3 = xs @ p # ys'" "next_node ?s3 = next_node ?s" "free_inv ?s3 (?F - set dn)" "alloc_inv ?s3 ?A"
    using merge_downward_spec [OF pr(1,2) si pr(3-5)] by (elim exE conjE)
  have x3: "\<forall>i \<in> set xs \<union> set ys. nodes ?s3 i = nodes st i" using dis dn(5) by auto
  have pu: "g_list ?s3 = xs @ p # ys'" "distinct (g_list ?s3)" "\<forall>i \<in> set xs. \<not> n_tag (nodes ?s3 i) \<longrightarrow> i \<in> ?F - set dn"
    "p \<notin> ?F - set dn" "\<forall>i \<in> ?A. n_tag (nodes ?s3 i)"
    using dn(1,6) dis pt x3 by (auto simp: free_nodes_def alloc_nodes_def g)
  obtain up xs' c where up: "xs = xs' @ up" "length up \<le> 1" "\<forall>i \<in> set up. \<not> n_tag (nodes ?s3 i)"
      "up = [] \<longrightarrow> xs = [] \<or> n_tag (nodes ?s3 (last xs))" "c = hd (up @ [p])"
      "nodes st' = (nodes ?s3)(c := (nodes ?s3 c)\<lparr>n_size := sum_list (map (\<lambda>i. n_size (nodes ?s3 i)) (up @ [p]))\<rparr>)"
      "g_list st' = xs' @ c # ys'" "next_node st' = next_node ?s3" "free_inv st' (insert c (?F - set dn))" "alloc_inv st' ?A"
    unfolding st' using merge_upward_spec [OF pu(1,2) dn(8,9) pu(3-5)] by (elim exE conjE)
  let ?old = "up @ [p] @ dn"
  have lx: "xs \<noteq> [] \<Longrightarrow> nodes ?s3 (last xs) = nodes st (last xs)" using x3 by simp
  have du: "up = [] \<and> c = p \<or> up = [c] \<and> c \<noteq> p \<and> c \<notin> set ys" using up(1,2,5) dis by (cases up) auto
  have "map (\<lambda>i. n_size (nodes ?s i)) dn = map (\<lambda>i. n_size (nodes st i)) dn" using dn(1) dis by auto
  then have s3p: "n_size (nodes ?s3 p) = n_size (nodes st p) + sum_list (map (\<lambda>i. n_size (nodes st i)) dn)"
    by (simp only: dn(5)) simp
  have cn: "\<not> n_tag (nodes st' c)" "n_addr (nodes st' c) = n_addr (nodes st c)"
    using du up(3,6) dn(5) x3 up(1) by auto
  have xn: "\<forall>i \<in> set xs' \<union> set ys'. nodes st' i = nodes st i"
    using x3 up(1,5,6) dn(1) dis by (cases up) auto
  have sm: "n_size (nodes st' c) = sum_list (map (\<lambda>i. n_size (nodes st i)) ?old)"
  proof -
    have "n_size (nodes st' c) = sum_list (map (\<lambda>i. n_size (nodes ?s3 i)) (up @ [p]))" by (simp only: up(6)) simp
    moreover have "\<forall>i \<in> set up. nodes ?s3 i = nodes st i" using x3 up(1) by auto
    ultimately show ?thesis using du s3p by auto
  qed
  show ?thesis
  proof (rule release_ok [OF ok])
    show "g_list st = xs' @ ?old @ ys'" "g_list st' = xs' @ [c] @ ys'" using g up(1,7) dn(1) by simp_all
    show "?old = c # tl ?old" using up(5) by (cases up) auto
    show "p \<in> set ?old" "n_tag (nodes st p)" using pt by simp_all
    have "\<forall>i \<in> set dn. nodes ?s i = nodes st i" using dn(1) dis by auto
    then show "\<forall>i \<in> set ?old - {p}. \<not> n_tag (nodes st i)" using up(1,3) dn(3) x3 by auto
    show "n_size (nodes st' c) = sum_list (map (\<lambda>i. n_size (nodes st i)) ?old)" by (rule sm)
    show "next_node st' = next_node st" using up(8) dn(7) by simp
    show "alloc_inv st' (alloc_nodes st - {p})" by (rule up(10))
    show "\<forall>i \<in> set xs' \<union> set ys'. nodes st' i = nodes st i" by (rule xn)
    show "xs' = [] \<or> n_tag (nodes st (last xs'))"
    proof (cases "up = []")
      case True
      then show ?thesis using up(1,4) lx by (metis append_Nil2)
    next
      case False
      then have "up = [c]" "\<not> n_tag (nodes st c)" using du up(1,3) x3 by auto
      then show ?thesis using free_neighbours(1) [OF ok, of xs' c "p # ys"] g up(1) by simp
    qed
    show "ys' = [] \<or> n_tag (nodes st (hd ys'))"
      using dn(1-4) dis free_neighbours(2) [OF ok, of "xs @ [p]" "hd dn" ys'] g
      by (cases dn) (auto split: if_splits)
    have "insert c (?F - set dn) = insert c (?F - set ?old)" using du pt(3) by auto
    then show "free_inv st' (insert c (?F - set ?old))" using up(9) by simp
    show "\<not> n_tag (nodes st' c)" "n_addr (nodes st' c) = n_addr (nodes st c)" by (rule cn)+
  qed
qed


lemma alloc_node_addr_inj:
  assumes "shm_ok b e st" "i \<in> alloc_nodes st" "j \<in> alloc_nodes st" "n_addr (nodes st i) = n_addr (nodes st j)"
  shows "i = j"
  using tiles_disjoint [OF shm_okD(6) [OF assms(1)], of i j] tiles_member(3) [OF shm_okD(6) [OF assms(1)]] assms(2-4)
  by (fastforce simp: alloc_nodes_def)

lemma shm_free_ok:
  assumes ok: "shm_ok b e st"
  shows "(unat ptr, s) \<in> areas st \<Longrightarrow> \<exists>st'. shm_free_list ptr st = (True, st') \<and> shm_ok b e st' \<and> areas st' = areas st - {(unat ptr, s)}"
    "\<forall>s. (unat ptr, s) \<notin> areas st \<Longrightarrow> shm_free_list ptr st = (False, st)"
proof -
  let ?l = "alloc_lists st (get_allocated_list_from_address ptr)"
  have l: "set ?l = {i \<in> alloc_nodes st. get_allocated_list_from_address (n_addr (nodes st i)) = get_allocated_list_from_address ptr}"
    using shm_okD(3) [OF ok] by (simp add: alloc_inv_def)
  show "\<exists>st'. shm_free_list ptr st = (True, st') \<and> shm_ok b e st' \<and> areas st' = areas st - {(unat ptr, s)}"
    if m: "(unat ptr, s) \<in> areas st"
  proof -
    obtain p where "p \<in> alloc_nodes st" "unat (n_addr (nodes st p)) = unat ptr" "unat (n_size (nodes st p)) = s"
      using m by (auto simp: areas_def)
    then have p: "p \<in> alloc_nodes st" "n_addr (nodes st p) = ptr" "unat (n_size (nodes st p)) = s"
      by (simp_all add: word_unat_eq_iff)
    have "p \<in> set ?l" using p l by auto
    then obtain q where q: "find (\<lambda>p. n_addr (nodes st p) = ptr) ?l = Some q"
      using p(2) by (cases "find (\<lambda>p. n_addr (nodes st p) = ptr) ?l") (auto simp: find_None_iff)
    then have "q \<in> set ?l" "n_addr (nodes st q) = ptr" by (auto simp: find_Some_iff)
    then have "q = p" using alloc_node_addr_inj [OF ok, of q p] p l by auto
    then show ?thesis using free_node_ok [OF ok p(1) refl] p(2,3) q by (simp add: shm_free_unfold)
  qed
  show "shm_free_list ptr st = (False, st)" if "\<forall>s. (unat ptr, s) \<notin> areas st"
  proof -
    have "find (\<lambda>p. n_addr (nodes st p) = ptr) ?l = None"
      using that l by (auto simp: find_None_iff areas_def)
    then show ?thesis by (simp add: shm_free_unfold)
  qed
qed

lemma shm_init_ok:
  assumes "0 < unat paddr" "0 < unat sz" "unat sz < 2 ^ 32" "unat paddr + unat sz \<le> 2 ^ 62"
  shows "shm_ok (unat paddr) (unat paddr + unat sz) (shm_initialize paddr sz)" "areas (shm_initialize paddr sz) = {}"
proof -
  have u: "unat (ucast sz :: u32) = unat sz" using assms(3) by (simp add: unsigned_ucast_eq take_bit_nat_eq_self)
  let ?i = "\<lparr>nodes = (\<lambda>_. \<lparr>n_tag = False, n_addr = paddr, n_size = ucast sz\<rparr>), g_list = [0],
        free_lists = (\<lambda>_. []), free_sums = (\<lambda>_. 0), alloc_lists = (\<lambda>_. []), alloc_sums = (\<lambda>_. 0), next_node = 1\<rparr>"
  have nd: "nodes (shm_initialize paddr sz) = nodes ?i" "g_list (shm_initialize paddr sz) = [0]"
      "next_node (shm_initialize paddr sz) = 1" by (simp_all add: shm_initialize_def)
  have s: "free_nodes (shm_initialize paddr sz) = {0}" "alloc_nodes (shm_initialize paddr sz) = {}"
    by (auto simp: free_nodes_def alloc_nodes_def nd)
  have "free_inv ?i {}" "alloc_inv ?i {}" by (simp_all add: free_inv_def alloc_inv_def)
  then have "free_inv (shm_initialize paddr sz) {0}" "alloc_inv (shm_initialize paddr sz) {}"
    unfolding shm_initialize_def using free_inv_add [of ?i "{}" 0] by simp_all
  then show "shm_ok (unat paddr) (unat paddr + unat sz) (shm_initialize paddr sz)"
    using assms by (simp add: shm_ok_def s nd seg_ok_def u)
  show "areas (shm_initialize paddr sz) = {}" by (simp add: areas_def s)
qed

section \<open>The allocator meets its contract\<close>

text \<open>The segment handed to the allocator: not at address zero, at most 4 GB, clear of wrap-around.\<close>

definition segment :: "u64 \<Rightarrow> u64 \<Rightarrow> bool" where
  "segment paddr sz = (0 < unat paddr \<and> 0 < unat sz \<and> unat sz < 2 ^ 32 \<and> unat paddr + unat sz \<le> 2 ^ 62)"

lemma segment_init:
  assumes "segment paddr sz"
  shows "shm_ok (unat paddr) (unat paddr + unat sz) (shm_initialize paddr sz)" "areas (shm_initialize paddr sz) = {}"
  using assms shm_init_ok by (simp_all add: segment_def)

text \<open>
  A request: the outcomes of \<open>kmalloc\<close>, the size, and the binary logarithm of the alignment
  (at most 32) for an aligned one.
\<close>

record shm_request =
  req_ka :: "nat \<Rightarrow> bool"
  req_kf :: "nat \<Rightarrow> bool"
  req_size :: u64
  req_align :: "nat option"

definition shm_get :: "shm_request \<Rightarrow> shm_state \<Rightarrow> area option \<times> shm_state" where
  "shm_get q st =
     (case (case req_align q of
              None \<Rightarrow> fsl_shm_alloc (req_ka q) (req_size q) st
            | Some k \<Rightarrow> fsl_shm_memalign (req_ka q) (req_kf q) (req_size q) (2 ^ min k 32) st) of
        (r, st') \<Rightarrow> (if r = 0 then None else Some (unat r, unat (req_size q)), st'))"

definition shm_put :: "u64 \<Rightarrow> shm_state \<Rightarrow> shm_state" where
  "shm_put a st = snd (fsl_shm_free a st)"

lemma memalign_ok:
  assumes "shm_ok b e st" "align = 0 \<or> (\<exists>k \<le> 32. align = 2 ^ k)" "fsl_shm_memalign ka kf sz align st = (r, st')"
  shows "shm_ok b e st' \<and> (r = 0 \<and> st' = st \<or>
    r \<noteq> 0 \<and> grants st st' (unat r, unat sz) \<and> (align \<noteq> 0 \<longrightarrow> unat r mod unat align = 0))"
proof -
  consider "sz = 0" | "sz \<noteq> 0" "align = 0" | (al) k where "sz \<noteq> 0" "k \<le> 32" "align = 2 ^ k" "align \<noteq> 0"
    using assms(2) by auto
  then show ?thesis
  proof cases
    case 1
    then show ?thesis using assms(1,3) by (simp add: fsl_shm_memalign_def shm_memalign_list_def)
  next
    case 2
    then show ?thesis using assms(1,3) shm_alloc_ok [of b e st ka sz r st']
      by (auto simp: fsl_shm_memalign_def shm_memalign_list_def)
  next
    case (al k)
    have u: "unat align = 2 ^ k" using al(2) unfolding al(3) by (intro unat_pow2_word) simp
    have z: "0 < sz" using al(1) by (simp add: word_neq_0_conv)
    show ?thesis
      using assms al(1,4) u align_lists_ok [OF assms(1) al(2) z, of ka kf] al(3)
      by (auto simp: fsl_shm_memalign_def shm_memalign_list_def split: option.splits)
  qed
qed

lemma shm_get_cases:
  assumes "shm_ok b e st" "shm_get q st = (res, st')"
  shows "shm_ok b e st'" "areas st' = set_option res \<union> areas st"
    "res = Some (a, n) \<Longrightarrow> n = unat (req_size q) \<and> (req_align q = Some k \<longrightarrow> a mod 2 ^ min k 32 = 0)"
    "res = Some x \<Longrightarrow> y \<in> areas st \<Longrightarrow> areas_apart x y" "res = None \<Longrightarrow> st' = st"
proof -
  obtain r :: u64 where r: "res = (if r = 0 then None else Some (unat r, unat (req_size q)))"
    "shm_ok b e st' \<and> (r = 0 \<and> st' = st \<or> r \<noteq> 0 \<and> grants st st' (unat r, unat (req_size q)) \<and>
       (\<forall>k. req_align q = Some k \<longrightarrow> unat r mod 2 ^ min k 32 = 0))"
  proof (cases "req_align q")
    case None
    obtain r s1 where a: "fsl_shm_alloc (req_ka q) (req_size q) st = (r, s1)" by (rule prod.exhaust)
    show thesis
      using that [of r] a None assms(2) shm_alloc_ok [OF assms(1), of "req_ka q" "req_size q" r s1]
      by (auto simp: shm_get_def fsl_shm_alloc_def)
  next
    case (Some k)
    obtain r s1 where a: "fsl_shm_memalign (req_ka q) (req_kf q) (req_size q) (2 ^ min k 32) st = (r, s1)"
      by (rule prod.exhaust)
    have p: "unat ((2 :: u64) ^ min k 32) = 2 ^ min k 32" by (intro unat_pow2_word) simp
    then have "(2 :: u64) ^ min k 32 \<noteq> 0" by (metis power_not_zero unat_0 zero_neq_numeral)
    moreover have "(2 :: u64) ^ min k 32 = 0 \<or> (\<exists>j \<le> 32. (2 :: u64) ^ min k 32 = 2 ^ j)"
      by (intro disjI2 exI [of _ "min k 32"]) simp
    ultimately show thesis
      using that [of r] a Some assms(2) memalign_ok [OF assms(1) _ a] p by (auto simp: shm_get_def)
  qed
  then show "shm_ok b e st'" "areas st' = set_option res \<union> areas st"
    "res = Some (a, n) \<Longrightarrow> n = unat (req_size q) \<and> (req_align q = Some k \<longrightarrow> a mod 2 ^ min k 32 = 0)"
    "res = Some x \<Longrightarrow> y \<in> areas st \<Longrightarrow> areas_apart x y" "res = None \<Longrightarrow> st' = st"
    by (auto simp: grants_def split: if_splits)
qed

lemma area_fun: "shm_ok b e st \<Longrightarrow> (a, s) \<in> areas st \<Longrightarrow> (a, s') \<in> areas st \<Longrightarrow> s = s'"
  using alloc_node_addr_inj by (fastforce simp: areas_def word_unat_eq_iff)

lemma area_bounds:
  assumes "shm_ok b e st" "(a, s) \<in> areas st"
  shows "b \<le> a" "a + s \<le> e" "0 < s" "0 < a"
  using assms tiles_member [OF shm_okD(6) [OF assms(1)]] shm_okD(1) [OF assms(1)]
  by (fastforce simp: areas_def alloc_nodes_def seg_ok_def)+

lemma shm_put_ok:
  assumes ok: "shm_ok b e st"
  shows "shm_ok b e (shm_put a st)" "areas (shm_put a st) = {x \<in> areas st. fst x \<noteq> unat a}"
proof -
  have "shm_ok b e (shm_put a st) \<and> areas (shm_put a st) = {x \<in> areas st. fst x \<noteq> unat a}"
  proof (cases "\<exists>s. (unat a, s) \<in> areas st")
    case True
    then obtain s where s: "(unat a, s) \<in> areas st" by blast
    have "a \<noteq> 0" using area_bounds(4) [OF ok s] by auto
    have u: "(x = (unat a, s)) = (fst x = unat a)" if "x \<in> areas st" for x
      using that area_fun [OF ok s, of "snd x"] by (cases x) auto
    have "areas st - {(unat a, s)} = {x \<in> areas st. fst x \<noteq> unat a}"
      unfolding set_diff_eq singleton_iff using u by (intro Collect_cong conj_cong) simp_all
    moreover note \<open>a \<noteq> 0\<close>
    ultimately show ?thesis
      using shm_free_ok(1) [OF ok s] by (elim exE) (simp add: shm_put_def fsl_shm_free_def)
  next
    case False
    then have "fst x \<noteq> unat a" if "x \<in> areas st" for x using that by (cases x) auto
    then have "{x \<in> areas st. fst x \<noteq> unat a} = areas st" by blast
    moreover have "shm_put a st = st"
      using shm_free_ok(2) [OF ok, of a] False by (simp add: shm_put_def fsl_shm_free_def)
    ultimately show ?thesis using ok by simp
  qed
  then show "shm_ok b e (shm_put a st)" "areas (shm_put a st) = {x \<in> areas st. fst x \<noteq> unat a}" by simp_all
qed

interpretation shma: area_allocator "shm_ok b e" areas shm_get shm_put unat for b e
proof (unfold_locales, goal_cases)
  case (6 s x y)
  then show ?case
    using tiles_disjoint [OF shm_okD(6) [OF 6(1)]] by (fastforce simp: areas_def alloc_nodes_def areas_apart_def)
qed (auto simp: shm_get_cases shm_put_ok)

end
