(* ===== verification/Shm_Driver.thy ===== *)
theory Shm_Driver
  imports Shm_Props
begin

text \<open>
  The ioctl interface of the shared memory driver (\<open>fsl_shm_ioctl\<close> of \<open>kernel/fsl_shm.c\<close>) over
  the allocator, and what its users get: areas inside the segment that never overlap, the
  whole segment back once everything is released, one initialisation per module load.

  A request carries \<open>None\<close> where \<open>copy_from_user\<close> fails (\<open>env_copy_in\<close>, read by the library that
  makes the call); whether \<open>copy_to_user\<close> succeeds, the page lookup of \<open>get_user_pages\<close> and the outcomes of \<open>kmalloc\<close> are arguments.
\<close>

section \<open>The driver\<close>

record shm_seg =
  seg_vaddr :: u64
  seg_paddr :: u64
  seg_size :: u64

record shm_drv =
  initialized :: u32
  shm_heap :: shm_state

datatype shm_ioctl =
    SHM_INIT "shm_seg option"
  | SHM_FORCE_INIT "shm_seg option"
  | SHM_ALLOC "u64 option"
  | SHM_MEMALIGN "(u64 \<times> u64) option"
  | SHM_FREE "u64 option"
  | SHM_UNKNOWN

datatype shm_out = Out_seg shm_seg | Out_addr u64 | Out_nothing

record shm_env =
  env_page :: "u64 \<Rightarrow> u64 option"
  env_ka :: "nat \<Rightarrow> bool"
  env_kf :: "nat \<Rightarrow> bool"
  env_copy_in :: bool
  env_copy_out :: bool

abbreviation "EFAULT \<equiv> (14 :: int)"

definition fsl_shm_get_paddr :: "shm_env \<Rightarrow> shm_seg \<Rightarrow> shm_seg" where
  "fsl_shm_get_paddr env seg =
     (case env_page env (seg_vaddr seg) of Some p \<Rightarrow> seg\<lparr>seg_paddr := p\<rparr> | None \<Rightarrow> seg)"

definition copy_out :: "shm_env \<Rightarrow> shm_out \<Rightarrow> int \<times> shm_out" where
  "copy_out env x = (if env_copy_out env then (1, x) else (- EFAULT, Out_nothing))"

text \<open>With \<open>CONFIG_COMPAT\<close> (\<open>cc\<close>) the address to free is taken from the upper half of the word read.\<close>

definition fsl_shm_ioctl :: "bool \<Rightarrow> shm_env \<Rightarrow> shm_ioctl \<Rightarrow> shm_drv \<Rightarrow> (int \<times> shm_out) \<times> shm_drv" where
  "fsl_shm_ioctl cc env cmd d =
     (case cmd of
        SHM_INIT (Some seg) \<Rightarrow>
          (let seg = fsl_shm_get_paddr env seg;
               d' = (if initialized d \<noteq> 0
                     then d\<lparr>initialized := initialized d + 1, shm_heap := shm_initialize (seg_paddr seg) (seg_size seg)\<rparr>
                     else d)
           in (copy_out env (Out_seg seg), d'))
      | SHM_FORCE_INIT (Some seg) \<Rightarrow>
          (let seg = fsl_shm_get_paddr env seg
           in (copy_out env (Out_seg seg),
               d\<lparr>initialized := 0, shm_heap := shm_initialize (seg_paddr seg) (seg_size seg)\<rparr>))
      | SHM_ALLOC (Some sz) \<Rightarrow>
          (case fsl_shm_alloc (env_ka env) sz (shm_heap d) of
             (r, h) \<Rightarrow> (copy_out env (Out_addr r), d\<lparr>shm_heap := h\<rparr>))
      | SHM_MEMALIGN (Some (sz, align)) \<Rightarrow>
          (case fsl_shm_memalign (env_ka env) (env_kf env) sz align (shm_heap d) of
             (r, h) \<Rightarrow> (copy_out env (Out_addr r), d\<lparr>shm_heap := h\<rparr>))
      | SHM_FREE (Some addr) \<Rightarrow>
          ((1, Out_nothing),
           d\<lparr>shm_heap := snd (fsl_shm_free (if cc then drop_bit 32 addr else addr) (shm_heap d))\<rparr>)
      | SHM_UNKNOWN \<Rightarrow> ((1, Out_nothing), d)
      | _ \<Rightarrow> ((- EFAULT, Out_nothing), d))"

text \<open>The module's initial state, and a sequence of requests by any of its users.\<close>

definition shm_module :: "shm_state \<Rightarrow> shm_drv" where
  "shm_module h = \<lparr>initialized = - 1, shm_heap = h\<rparr>"

definition shm_requests :: "bool \<Rightarrow> (shm_env \<times> shm_ioctl) list \<Rightarrow> shm_drv \<Rightarrow> shm_drv" where
  "shm_requests cc rs d = foldl (\<lambda>d (env, cmd). snd (fsl_shm_ioctl cc env cmd d)) d rs"

text \<open>Requests other than a forced initialisation, with an alignment of zero or a power of two.\<close>

definition ordinary :: "shm_ioctl \<Rightarrow> bool" where
  "ordinary cmd =
     (case cmd of
        SHM_FORCE_INIT _ \<Rightarrow> False
      | SHM_MEMALIGN (Some (sz, align)) \<Rightarrow> align = 0 \<or> list_ex (\<lambda>k. align = 2 ^ k) [0..<33]
      | _ \<Rightarrow> True)"

section \<open>An idle allocator\<close>

lemma idle_single:
  assumes ok: "shm_ok b e st" and none: "areas st = {}"
  obtains p where "g_list st = [p]" "free_nodes st = {p}" "unat (n_addr (nodes st p)) = b" "unat (n_size (nodes st p)) = e - b"
proof -
  note D = shm_okD [OF ok]
  have u: "\<not> n_tag (nodes st i)" if "i \<in> set (g_list st)" for i
    using none that by (auto simp: areas_def alloc_nodes_def)
  have "g_list st \<noteq> []" using D(1,6) by (auto simp: seg_ok_def)
  then obtain p ps where g: "g_list st = p # ps" by (auto simp: neq_Nil_conv)
  then have "ps = []" using D(7) u by (cases ps) auto
  then have "g_list st = [p]" "free_nodes st = {p}" using g u [of p] by (auto simp: free_nodes_def)
  then show thesis using that [of p] D(6) by auto
qed

lemma list_index_size: "LIST_INDEX_FROM_SIZE sz = unat sz div 0x1000"
  using unat_align_down [of 12 sz] by (simp add: LIST_INDEX_FROM_SIZE_def unat_div)

lemma get_list_le: "get_list sz \<le> NUMBER_OF_LISTS"
  by (auto simp: get_list_def list_index_size word_le_nat_alt not_less)

lemma scan_only:
  assumes "\<And>j. j \<noteq> k \<Longrightarrow> free_sums st j = 0" "k \<le> NUMBER_OF_LISTS"
  shows "scan_lists st sz i = (if i \<le> k \<and> sz < free_sums st k \<and> sz \<le> tail_size st k then Some k else None)"
proof (induction "9 - i" arbitrary: i)
  case 0
  then show ?case using assms(2) by (subst scan_lists.simps) simp
next
  case (Suc x)
  have ih: "scan_lists st sz (Suc i) = (if Suc i \<le> k \<and> sz < free_sums st k \<and> sz \<le> tail_size st k then Some k else None)"
    using Suc.hyps by (intro Suc.hyps(1)) simp
  show ?case using assms Suc.hyps(2) by (subst scan_lists.simps) (cases "i = k"; use ih in auto)
qed

lemma idle_lists:
  assumes ok: "shm_ok b e st" and p: "free_nodes st = {p}" and k: "k = get_list (n_size (nodes st p))"
  shows "free_lists st j = (if j = k then [p] else [])" "free_sums st j = (if j = k then n_size (nodes st p) else 0)"
    "tail_size st k = n_size (nodes st p)"
proof -
  note F = shm_okD(2) [OF ok, unfolded free_inv_def p, rule_format]
  have l: "free_lists st j = (if j = k then [p] else [])" for j
  proof (cases "j = k")
    case True
    have "set (free_lists st j) = {p}" "distinct (free_lists st j)" using F [of j] True k by auto
    then show ?thesis using True by (cases "free_lists st j") (auto simp: subset_singleton_iff)
  next
    case False
    have "set (free_lists st j) = {}" using F [of j] False k by auto
    then show ?thesis using False by simp
  qed
  show "free_lists st j = (if j = k then [p] else [])" by (rule l)
  show "free_sums st j = (if j = k then n_size (nodes st p) else 0)" using F [of j] l [of j] by auto
  show "tail_size st k = n_size (nodes st p)" by (simp add: tail_size_def l)
qed

lemma idle_choice:
  assumes ok: "shm_ok b e st" and p: "free_nodes st = {p}" and n: "0 < n" "n \<le> n_size (nodes st p)"
  shows "get_free_area_list st n =
    (if n = n_size (nodes st p) \<and> n \<le> 0x8000 then None else Some (get_list (n_size (nodes st p))))"
proof (cases "0x8000 < n")
  case True
  then have "0x8000 < n_size (nodes st p)" using n(2) by (rule order_less_le_trans)
  then show ?thesis using True by (auto simp: get_free_area_list_def get_list_def)
next
  case False
  let ?s = "n_size (nodes st p)"
  have "LIST_INDEX_FROM_SIZE n \<le> get_list ?s"
    using False n(2) div_le_mono [where k = "0x1000" and m = "unat n" and n = "unat ?s"] div_le_mono [where k = "0x1000" and m = "unat n" and n = "0x8000"]
    by (auto simp: get_list_def list_index_size word_le_nat_alt not_less)
  then show ?thesis
    using False n(2) scan_only [of "get_list ?s" st n] idle_lists [OF ok p refl] get_list_le [of ?s]
    by (auto simp: get_free_area_list_def)
qed

lemma idle_alloc:
  assumes ok: "shm_ok b e st" and none: "areas st = {}"
  shows "fst (fsl_shm_alloc (\<lambda>_. True) n st) =
    (if 0 < n \<and> unat n \<le> e - b \<and> (unat n = e - b \<longrightarrow> 0x8000 < unat n) then word_of_nat b else 0)"
proof -
  obtain p where p: "g_list st = [p]" "free_nodes st = {p}" "unat (n_addr (nodes st p)) = b" "unat (n_size (nodes st p)) = e - b"
    by (rule idle_single [OF ok none])
  let ?s = "n_size (nodes st p)"
  note L = idle_lists(1) [OF ok p(2) refl]
  have a: "word_of_nat b = n_addr (nodes st p)" using p(3) by (auto simp flip: p(3))
  have w: "unat (ucast ?s :: u64) = unat ?s" using unat_less_exp [of ?s] by (simp add: unsigned_ucast_eq take_bit_nat_eq_self)
  show ?thesis
  proof (cases "0 < n \<and> n \<le> ucast ?s")
    case True
    note u = unat_ucast_le [of n ?s]
    have le: "(ucast n :: u32) \<le> ?s" using True u w by (simp add: word_le_nat_alt)
    have pos: "0 < (ucast n :: u32)" using True u by simp
    have eq: "(ucast n :: u32) = ?s \<longleftrightarrow> unat n = e - b" using True u p(4) by (metis word_unat_eq_iff)
    have sm: "(ucast n :: u32) \<le> 0x8000 \<longleftrightarrow> unat n \<le> 0x8000" using True u by (simp add: word_le_nat_alt)
    have nb: "unat n \<le> e - b" using True w p(4) by (simp add: word_le_nat_alt)
    show ?thesis
    proof (cases "unat n = e - b \<and> unat n \<le> 0x8000")
      case True
      then show ?thesis
        using idle_choice [OF ok p(2) pos le] eq sm by (simp add: fsl_shm_alloc_def shm_alloc_list_def)
    next
      case False
      then have "get_free_area_list st (ucast n) = Some (get_list ?s)"
        using idle_choice [OF ok p(2) pos le] eq sm by auto
      moreover have "next_node st \<noteq> p" using shm_okD(8) [OF ok] p(1) by auto
      ultimately have "fst (fsl_shm_alloc (\<lambda>_. True) n st) = n_addr (nodes st p)"
        using True le L by (auto simp: fsl_shm_alloc_def shm_alloc_list_def allocate_free_area_def Let_def)
      then show ?thesis using False True nb a by auto
    qed
  next
    case False
    then have "n = 0 \<or> \<not> n \<le> ucast ?s" by (auto simp: word_neq_0_conv)
    then have "fst (fsl_shm_alloc (\<lambda>_. True) n st) = 0"
      using L by (auto simp: fsl_shm_alloc_def shm_alloc_list_def split: option.splits)
    moreover have "n = 0 \<or> e - b < unat n"
      using False w p(4) by (auto simp: word_le_nat_alt word_less_nat_alt unat_eq_zero)
    ultimately show ?thesis by auto
  qed
qed

section \<open>What the users of the allocator get\<close>

text \<open>A sample run: a plain and an aligned allocation, and the same with both areas given back.\<close>

definition plain_req :: "u64 \<Rightarrow> nat option \<Rightarrow> shm_request" where
  "plain_req sz al = \<lparr>req_ka = (\<lambda>_. True), req_kf = (\<lambda>_. True), req_size = sz, req_align = al\<rparr>"

definition sample_ops :: "(shm_request, u64) area_op list" where
  "sample_ops = [Get (plain_req 0x20 None), Get (plain_req 0x30 (Some 8))]"

definition sample_run :: "area set \<times> shm_state" where
  "sample_run = ledger shm_get shm_put unat sample_ops (shm_initialize 0x1000 0x10000) {}"

definition sample_release :: "area set \<times> shm_state" where
  "sample_release = ledger shm_get shm_put unat (sample_ops @ [Put 0x1000, Put 0x1100]) (shm_initialize 0x1000 0x10000) {}"

definition sample_seg :: shm_seg where
  "sample_seg = \<lparr>seg_vaddr = 0x4000, seg_paddr = 0, seg_size = 0x10000\<rparr>"

definition sample_env :: shm_env where
  "sample_env = \<lparr>env_page = (\<lambda>_. Some 0x1000), env_ka = (\<lambda>_. True), env_kf = (\<lambda>_. True), env_copy_in = True, env_copy_out = True\<rparr>"

lemma sample_segment: "segment 0x1000 0x10000"
  by (simp add: segment_def)

lemma sample_run_areas: "fst sample_run = {(0x1000, 0x20), (0x1100, 0x30)}"
  by code_simp

lemma sample_run_eq:
  "ledger shm_get shm_put unat sample_ops (shm_initialize 0x1000 0x10000) {} = ({(0x1000, 0x20), (0x1100, 0x30)}, snd sample_run)"
  using sample_run_areas by (metis prod.collapse sample_run_def)

lemma sample_release_areas: "fst sample_release = {}"
  by code_simp

text \<open>C6: Whatever the sequence of allocations, aligned allocations and releases after the segment
  was handed over (releases of unknown addresses and failing \<open>kmalloc\<close> included), the areas given
  out and not yet released are exactly those the allocator has on its lists, lie inside the
  segment and do not overlap.\<close>

theorem shm_areas_disjoint:
  assumes "segment paddr sz" "ledger shm_get shm_put unat ops (shm_initialize paddr sz) {} = (L, st)"
  shows "L = areas st \<and> (\<forall>x \<in> L. \<forall>y \<in> L. x \<noteq> y \<longrightarrow> areas_apart x y) \<and>
    (\<forall>(a, n) \<in> L. unat paddr \<le> a \<and> a + n \<le> unat paddr + unat sz \<and> 0 < n)"
proof -
  note I = segment_init [OF assms(1)]
  have "ledger shm_get shm_put unat ops (shm_initialize paddr sz) (areas (shm_initialize paddr sz)) = (L, st)"
    using assms(2) I(2) by simp
  note E = shma.ledger_exact [OF I(1) this] and A = shma.ledger_apart [OF I(1) this]
  show ?thesis using E A area_bounds [of _ _ st] by blast
qed

theorem shm_areas_disjoint_witness:
  "areas (snd sample_run) = {(0x1000, 0x20), (0x1100, 0x30)} \<and> areas_apart (0x1000, 0x20) (0x1100, 0x30)"
  using shm_areas_disjoint [OF sample_segment sample_run_eq] by simp

text \<open>C33: A request either fails and changes nothing, or returns an area of exactly the size asked
  for, aligned as asked for, that is clear of every area outstanding and is from then on on the
  allocator's account.\<close>

theorem shm_request_outcome:
  assumes "segment paddr sz" "ledger shm_get shm_put unat ops (shm_initialize paddr sz) {} = (L, st)"
    "shm_get q st = (res, st')"
  shows "case res of
      None \<Rightarrow> st' = st
    | Some (a, n) \<Rightarrow> n = unat (req_size q) \<and> (\<forall>k. req_align q = Some k \<longrightarrow> a mod 2 ^ min k 32 = 0) \<and>
        (\<forall>y \<in> L. areas_apart (a, n) y) \<and> areas st' = insert (a, n) L"
proof -
  note I = segment_init [OF assms(1)]
  have l: "ledger shm_get shm_put unat ops (shm_initialize paddr sz) (areas (shm_initialize paddr sz)) = (L, st)"
    using assms(2) I(2) by simp
  note E = shma.ledger_exact [OF I(1) l] and N = shma.ledger_next [OF I(1) l]
  show ?thesis
  proof (cases res)
    case None
    then show ?thesis using shm_get_cases(5) [OF conjunct1 [OF E] assms(3)] by simp
  next
    case (Some x)
    then show ?thesis
      using shm_get_cases(3) [OF conjunct1 [OF E] assms(3), of "fst x" "snd x"] N [OF assms(3) [unfolded Some]]
      by (cases x) auto
  qed
qed

theorem shm_request_outcome_witness:
  "case fst (shm_get (plain_req 0x100 (Some 12)) (snd sample_run)) of
     None \<Rightarrow> False | Some (a, n) \<Rightarrow> n = 0x100 \<and> a mod 0x1000 = 0 \<and> areas_apart (a, n) (0x1100, 0x30)"
proof -
  have "fst (shm_get (plain_req 0x100 (Some 12)) (snd sample_run)) = Some (0x2000, 0x100)" by code_simp
  then show ?thesis
    using shm_request_outcome [OF sample_segment sample_run_eq prod.collapse [symmetric], of "plain_req 0x100 (Some 12)"] by simp
qed

text \<open>Released memory is merged again: once every area has been given back, in whatever order,
  an allocation of any size up to that of the segment is served from the start of the segment, as
  it was at first. The one exception is the code's strict comparison with the sum of a size
  list: a segment of at most 32 kB is never given out whole.\<close>

lemma shm_idle_allocation:
  assumes "segment paddr sz" "ledger shm_get shm_put unat ops (shm_initialize paddr sz) {} = ({}, st)"
  shows "fst (fsl_shm_alloc (\<lambda>_. True) n st) =
    (if 0 < n \<and> n \<le> sz \<and> (n = sz \<longrightarrow> 0x8000 < n) then paddr else 0)"
proof -
  note I = segment_init [OF assms(1)]
  have l: "ledger shm_get shm_put unat ops (shm_initialize paddr sz) (areas (shm_initialize paddr sz)) = ({}, st)"
    using assms(2) I(2) by simp
  note E = shma.ledger_exact [OF I(1) l]
  show ?thesis
    using idle_alloc [of _ _ st n, OF conjunct1 [OF E]] E
    by (auto simp: word_le_nat_alt word_less_nat_alt word_unat_eq_iff)
qed

theorem shm_idle_allocation_witness:
  "fst (fsl_shm_alloc (\<lambda>_. True) 0x10000 (snd sample_release)) = 0x1000 \<and>
   fst (fsl_shm_alloc (\<lambda>_. True) 0x10001 (snd sample_release)) = 0"
  using shm_idle_allocation [OF sample_segment, of "sample_ops @ [Put 0x1000, Put 0x1100]" "snd sample_release"]
    sample_release_areas sample_release_def by (simp add: prod_eq_iff)

lemma shm_ioctl_keeps:
  assumes "initialized d = 0" "shm_ok b e (shm_heap d)" "ordinary cmd"
  shows "initialized (snd (fsl_shm_ioctl cc env cmd d)) = 0" "shm_ok b e (shm_heap (snd (fsl_shm_ioctl cc env cmd d)))"
proof -
  have al: "shm_ok b e h" if "fsl_shm_alloc ka sz (shm_heap d) = (r, h)" for ka sz r h
    using that shm_alloc_ok [OF assms(2)] by (auto simp: fsl_shm_alloc_def)
  have ma: "shm_ok b e h" if "fsl_shm_memalign ka kf sz align (shm_heap d) = (r, h)"
      "align = 0 \<or> list_ex (\<lambda>k. align = 2 ^ k) [0..<33]" for ka kf sz align r h
    using that memalign_ok [OF assms(2), of align ka kf sz r h] by (fastforce simp: list_ex_iff simp del: upt_Suc)
  have fr: "shm_ok b e (snd (fsl_shm_free a (shm_heap d)))" for a
    using shm_put_ok(1) [OF assms(2), of a] by (simp add: shm_put_def)
  show "initialized (snd (fsl_shm_ioctl cc env cmd d)) = 0" "shm_ok b e (shm_heap (snd (fsl_shm_ioctl cc env cmd d)))"
    using assms al ma fr
    by (auto simp: fsl_shm_ioctl_def ordinary_def Let_def simp del: upt_Suc
        split: shm_ioctl.splits option.splits prod.splits)
qed

text \<open>The first \<open>IOCTL_FSL_SHM_INIT\<close> after the module is loaded sets the segment up; from then on
  any requests of any users, their own initialisations included and forced ones excepted, keep
  the allocator's invariant over that first segment, and a further initialisation changes nothing.\<close>

lemma shm_initialised_once:
  assumes "seg' = fsl_shm_get_paddr env seg" "segment (seg_paddr seg') (seg_size seg')"
    "list_all (\<lambda>(env, cmd). ordinary cmd) rs" "d = shm_requests cc ((env, SHM_INIT (Some seg)) # rs) (shm_module h)"
  shows "shm_ok (unat (seg_paddr seg')) (unat (seg_paddr seg') + unat (seg_size seg')) (shm_heap d) \<and>
    snd (fsl_shm_ioctl cc env2 (SHM_INIT seg2) d) = d"
proof -
  let ?b = "unat (seg_paddr seg')" let ?e = "?b + unat (seg_size seg')"
  define d0 where "d0 = snd (fsl_shm_ioctl cc env (SHM_INIT (Some seg)) (shm_module h))"
  have "initialized d0 = 0" "shm_ok ?b ?e (shm_heap d0)"
    using assms(1,2) segment_init by (simp_all add: d0_def fsl_shm_ioctl_def shm_module_def Let_def)
  then have "initialized (shm_requests cc rs d0) = 0 \<and> shm_ok ?b ?e (shm_heap (shm_requests cc rs d0))"
    using assms(3)
  proof (induction rs arbitrary: d0)
    case (Cons x rs)
    then show ?case using shm_ioctl_keeps [of d0 ?b ?e "snd x" cc "fst x"]
      by (cases x) (simp add: shm_requests_def)
  qed (simp add: shm_requests_def)
  moreover have "d = shm_requests cc rs d0" by (simp add: assms(4) d0_def shm_requests_def)
  ultimately show ?thesis by (auto simp: fsl_shm_ioctl_def Let_def split: option.splits)
qed

theorem shm_initialised_once_witness:
  "shm_ok 0x1000 0x11000 (shm_heap (shm_requests False
     [(sample_env, SHM_INIT (Some sample_seg)), (sample_env, SHM_ALLOC (Some 0x20)), (sample_env, SHM_INIT (Some sample_seg)),
      (sample_env, SHM_MEMALIGN (Some (0x30, 0x100))), (sample_env, SHM_FREE (Some 0x1000))] (shm_module (shm_initialize 0 0))))"
  using shm_initialised_once [OF refl, of sample_env sample_seg
      "[(sample_env, SHM_ALLOC (Some 0x20)), (sample_env, SHM_INIT (Some sample_seg)),
        (sample_env, SHM_MEMALIGN (Some (0x30, 0x100))), (sample_env, SHM_FREE (Some 0x1000))]"
      _ False "shm_initialize 0 0" sample_env None, OF _ _ refl]
  by (simp add: fsl_shm_get_paddr_def sample_env_def sample_seg_def segment_def ordinary_def upt_rec)

end
