(* ===== verification/User_Memory.thy ===== *)
theory User_Memory
  imports Shm_Driver User_DMA
begin

text \<open>
  The user space side of the shared memory: the library \<open>fsl_shm/lib/lg_shm.c\<close>, which attaches
  the huge page segment and asks the driver for areas in it, and the memory manager
  \<open>ipc/lib/fsl_usmmgr.c\<close>, which the FAPI library uses for its buffers and for translating the
  addresses it exchanges with the DSP.

  Pointers are 32 bits wide. A cast of a pointer to \<open>__u64\<close> extends its sign, as the compiler
  documents; a cast of a \<open>__u64\<close> to a pointer keeps the low half. What the operating system
  calls return is an argument.
\<close>

section \<open>Shared memory library\<close>

record shm_lib =
  lib_seg :: shm_seg
  shm_init_done :: bool

abbreviation (input) "HUGE_PAGE_256M \<equiv> (0x10000000 :: u32)"
abbreviation (input) "IPC_METADATA_AREA_SZ \<equiv> (0x100000 :: u32)"

definition ptr64 :: "vaddr \<Rightarrow> u64" where
  "ptr64 p = scast p"

definition shm_vtop :: "shm_lib \<Rightarrow> vaddr \<Rightarrow> u32" where
  "shm_vtop l ptr =
     (if \<not> shm_init_done l then 0
      else
        (let ptr1 = ptr64 ptr; s = lib_seg l in
         if ptr1 = 0 \<or> ptr1 < seg_vaddr s \<or> ptr1 > seg_vaddr s + seg_size s then 0
         else ucast (seg_paddr s + (ptr1 - seg_vaddr s))))"

definition shm_ptov :: "shm_lib \<Rightarrow> u32 \<Rightarrow> vaddr" where
  "shm_ptov l ptr =
     (if \<not> shm_init_done l then 0
      else
        (let ptr1 = ptr64 ptr; s = lib_seg l in
         if ptr1 = 0 \<or> ptr1 < seg_paddr s \<or> ptr1 > seg_paddr s + seg_size s then 0
         else ucast (seg_vaddr s + (ptr1 - seg_paddr s))))"

definition copy_in :: "shm_env \<Rightarrow> 'a \<Rightarrow> 'a option" where
  "copy_in env x = (if env_copy_in env then Some x else None)"

fun out_addr :: "shm_out \<Rightarrow> u64" where
  "out_addr (Out_addr a) = a"
| "out_addr _ = 0"

definition shm_memalign :: "bool \<Rightarrow> shm_env \<Rightarrow> u32 \<Rightarrow> u32 \<Rightarrow> shm_lib \<Rightarrow> shm_drv \<Rightarrow> vaddr \<times> shm_drv" where
  "shm_memalign cc env sz align l d =
     (if \<not> shm_init_done l then (0, d)
      else case fsl_shm_ioctl cc env (SHM_MEMALIGN (copy_in env (ucast sz, ucast align))) d of
        ((_, out), d') \<Rightarrow> (shm_ptov l (ucast (out_addr out)), d'))"

definition shm_alloc :: "bool \<Rightarrow> shm_env \<Rightarrow> u32 \<Rightarrow> shm_lib \<Rightarrow> shm_drv \<Rightarrow> vaddr \<times> shm_drv" where
  "shm_alloc cc env sz l d =
     (if \<not> shm_init_done l then (0, d)
      else case fsl_shm_ioctl cc env (SHM_ALLOC (copy_in env (ucast sz))) d of
        ((_, out), d') \<Rightarrow> (shm_ptov l (ucast (out_addr out)), d'))"

text \<open>
  The address passed to the driver is a 32-bit variable. A 64-bit kernel (\<open>cc\<close>) reads eight
  bytes from its place: the address in the upper half and whatever follows in the lower.
\<close>

definition shm_free :: "bool \<Rightarrow> shm_env \<Rightarrow> u32 \<Rightarrow> vaddr \<Rightarrow> shm_lib \<Rightarrow> shm_drv \<Rightarrow> shm_drv" where
  "shm_free cc env next_word ptr l d =
     (let addr = shm_vtop l ptr in
      if addr = 0 then d
      else
        snd (fsl_shm_ioctl cc env
          (SHM_FREE (copy_in env (if cc then push_bit 32 (ucast addr) OR ucast next_word else ucast addr))) d))"

record shm_sys =
  sys_open :: bool
  sys_shmget :: bool
  sys_shmat :: "vaddr option"

definition fsl_shm_init ::
  "bool \<Rightarrow> shm_env \<Rightarrow> shm_sys \<Rightarrow> u32 \<Rightarrow> bool \<Rightarrow> shm_lib \<Rightarrow> shm_drv \<Rightarrow> u32 \<times> shm_lib \<times> shm_drv" where
  "fsl_shm_init cc env sys dsp_shared_size force l d =
     (if \<not> sys_open sys \<or> \<not> sys_shmget sys then (0, l, d)
      else case sys_shmat sys of
        None \<Rightarrow> (0, l\<lparr>lib_seg := \<lparr>seg_vaddr = - 1, seg_paddr = 0, seg_size = 0\<rparr>\<rparr>, d)
      | Some v \<Rightarrow>
          (let seg = \<lparr>seg_vaddr = ptr64 v, seg_paddr = 0,
                      seg_size = ucast (HUGE_PAGE_256M - (dsp_shared_size + IPC_METADATA_AREA_SZ))\<rparr>
           in case fsl_shm_ioctl cc env ((if force then SHM_FORCE_INIT else SHM_INIT) (copy_in env seg)) d of
                ((_, out), d') \<Rightarrow>
                  (let seg' = (case out of Out_seg s \<Rightarrow> s | _ \<Rightarrow> seg)
                   in (ucast (seg_paddr seg'), \<lparr>lib_seg = seg', shm_init_done = True\<rparr>, d'))))"

section \<open>Memory manager\<close>

definition fsl_usmmgr_alloc ::
  "bool \<Rightarrow> shm_env \<Rightarrow> mem_range \<Rightarrow> shm_lib \<Rightarrow> shm_drv \<Rightarrow> int \<times> mem_range \<times> shm_drv" where
  "fsl_usmmgr_alloc cc env r l d =
     (if range_size r = 0 then (- 1, r, d)
      else case shm_alloc cc env (range_size r) l d of
        (v, d') \<Rightarrow>
          if v = 0 then (- 1, r\<lparr>range_vaddr := 0\<rparr>, d')
          else (0, r\<lparr>range_vaddr := v, phys_addr := ucast (shm_vtop l v)\<rparr>, d'))"

definition fsl_usmmgr_memalign ::
  "bool \<Rightarrow> shm_env \<Rightarrow> mem_range \<Rightarrow> u32 \<Rightarrow> shm_lib \<Rightarrow> shm_drv \<Rightarrow> int \<times> mem_range \<times> shm_drv" where
  "fsl_usmmgr_memalign cc env r align l d =
     (if range_size r = 0 then (- 1, r, d)
      else case shm_memalign cc env (range_size r) align l d of
        (v, d') \<Rightarrow>
          if v = 0 then (- 1, r\<lparr>range_vaddr := 0\<rparr>, d')
          else (0, r\<lparr>range_vaddr := v, phys_addr := ucast (shm_vtop l v)\<rparr>, d'))"

definition fsl_usmmgr_free :: "bool \<Rightarrow> shm_env \<Rightarrow> u32 \<Rightarrow> mem_range \<Rightarrow> shm_lib \<Rightarrow> shm_drv \<Rightarrow> shm_drv" where
  "fsl_usmmgr_free cc env next_word r l d = shm_free cc env next_word (range_vaddr r) l d"

text \<open>The areas the kernel reports, the mapped areas, and the register areas mapped on first use.\<close>

record mem_strt_addr =
  strt_phys :: u64
  strt_size :: u32

record sys_map =
  pa_shared_size :: u32
  dsp_shared_size :: u32
  m_pa_ccsrbar :: mem_strt_addr
  m_dsp_ccsrbar :: mem_strt_addr
  m_smart_dsp_os_priv_area :: mem_strt_addr
  m_sh_ctrl_area :: mem_strt_addr
  m_dsp_core0_m2 :: mem_strt_addr
  m_dsp_core1_m2 :: mem_strt_addr
  m_dsp_m3 :: mem_strt_addr

record usmmgr_priv =
  um_map :: "mem_range list"
  um_sys_map :: sys_map
  um_shared_area :: mem_range
  um_dsp_ccsr :: mem_range
  um_pa_ccsr :: mem_range

definition fsl_usmmgr_v2p :: "vaddr \<Rightarrow> shm_lib \<Rightarrow> u32" where
  "fsl_usmmgr_v2p v l = shm_vtop l v"

text \<open>The shared segment first, then the last of the mapped areas that holds the address.\<close>

fun map_p2v :: "mem_range list \<Rightarrow> u64 \<Rightarrow> vaddr \<Rightarrow> vaddr" where
  "map_p2v [] p v = v"
| "map_p2v (m # ms) p v =
     map_p2v ms p
       (if p \<ge> phys_addr m \<and> p < phys_addr m + ucast (range_size m)
        then ucast (p - phys_addr m) + range_vaddr m else v)"

definition fsl_usmmgr_p2v :: "u64 \<Rightarrow> shm_lib \<Rightarrow> usmmgr_priv \<Rightarrow> vaddr" where
  "fsl_usmmgr_p2v p l priv =
     (if p < 0x100000000 \<and> shm_ptov l (ucast p) \<noteq> 0 then shm_ptov l (ucast p)
      else map_p2v (um_map priv) p 0)"

text \<open>\<open>mmap\<close> of \<open>/dev/mem\<close>: \<open>None\<close> is \<open>MAP_FAILED\<close>.\<close>

type_synonym mmap_fun = "u64 \<Rightarrow> u32 \<Rightarrow> vaddr option"

definition map_once ::
  "mmap_fun \<Rightarrow> mem_strt_addr \<Rightarrow> mem_range \<Rightarrow> mem_range option" where
  "map_once mm a saved =
     (if range_vaddr saved = 0 then
        map_option (\<lambda>v. \<lparr>phys_addr = strt_phys a, range_vaddr = v, range_size = strt_size a\<rparr>) (mm (strt_phys a) (strt_size a))
      else Some saved)"

definition get_shared_ctrl_area :: "mmap_fun \<Rightarrow> usmmgr_priv \<Rightarrow> int \<times> mem_range option \<times> usmmgr_priv" where
  "get_shared_ctrl_area mm priv =
     (case map_once mm (m_sh_ctrl_area (um_sys_map priv)) (um_shared_area priv) of
        None \<Rightarrow> (- 1, None, priv)
      | Some r \<Rightarrow> (0, Some r, priv\<lparr>um_shared_area := r\<rparr>))"

definition get_dsp_ccsr_area :: "mmap_fun \<Rightarrow> usmmgr_priv \<Rightarrow> int \<times> mem_range option \<times> usmmgr_priv" where
  "get_dsp_ccsr_area mm priv =
     (case map_once mm (m_dsp_ccsrbar (um_sys_map priv)) (um_dsp_ccsr priv) of
        None \<Rightarrow> (- 1, None, priv)
      | Some r \<Rightarrow> (0, Some r, priv\<lparr>um_dsp_ccsr := r\<rparr>))"

definition get_pa_ccsr_area :: "mmap_fun \<Rightarrow> usmmgr_priv \<Rightarrow> int \<times> mem_range option \<times> usmmgr_priv" where
  "get_pa_ccsr_area mm priv =
     (case map_once mm (m_pa_ccsrbar (um_sys_map priv)) (um_pa_ccsr priv) of
        None \<Rightarrow> (- 1, None, priv)
      | Some r \<Rightarrow> (0, Some r, priv\<lparr>um_pa_ccsr := r\<rparr>))"

text \<open>
  What the system calls of the initialisation return: the semaphore's result, \<open>malloc\<close>, the two
  device files, the model string (\<open>None\<close> when the file cannot be opened, \<open>Some None\<close> when it cannot
  be read), the system map and the mappings.
\<close>

record um_env =
  e_lock :: int
  e_malloc :: bool
  e_het_mgr :: bool
  e_dev_mem :: bool
  e_model :: "string option option"
  e_ioctl :: int
  e_sys_map :: sys_map
  e_mmap :: mmap_fun

record um_state =
  usmmgr_initialized :: bool
  um_priv :: "usmmgr_priv option"
  um_lib :: shm_lib
  um_drv :: shm_drv

definition zero_range :: mem_range where
  "zero_range = \<lparr>phys_addr = 0, range_vaddr = 0, range_size = 0\<rparr>"

definition zero_strt :: mem_strt_addr where
  "zero_strt = \<lparr>strt_phys = 0, strt_size = 0\<rparr>"

definition new_priv :: usmmgr_priv where
  "new_priv =
     \<lparr>um_map = [],
      um_sys_map = \<lparr>pa_shared_size = 0, dsp_shared_size = 0, m_pa_ccsrbar = zero_strt, m_dsp_ccsrbar = zero_strt,
        m_smart_dsp_os_priv_area = zero_strt, m_sh_ctrl_area = zero_strt, m_dsp_core0_m2 = zero_strt,
        m_dsp_core1_m2 = zero_strt, m_dsp_m3 = zero_strt\<rparr>,
      um_shared_area = zero_range, um_dsp_ccsr = zero_range, um_pa_ccsr = zero_range\<rparr>"

text \<open>The macro \<open>MMAP\<close> enters the area before its caller tests the result.\<close>

definition MMAP :: "um_env \<Rightarrow> mem_strt_addr \<Rightarrow> usmmgr_priv \<Rightarrow> bool \<times> usmmgr_priv" where
  "MMAP env a priv =
     (case e_mmap env (strt_phys a) (strt_size a) of
        None \<Rightarrow> (False, priv\<lparr>um_map := um_map priv @ [\<lparr>phys_addr = strt_phys a, range_vaddr = - 1, range_size = strt_size a\<rparr>]\<rparr>)
      | Some v \<Rightarrow> (True, priv\<lparr>um_map := um_map priv @ [\<lparr>phys_addr = strt_phys a, range_vaddr = v, range_size = strt_size a\<rparr>]\<rparr>))"

definition bad_sys_map :: "sys_map \<Rightarrow> bool" where
  "bad_sys_map m \<longleftrightarrow>
     strt_phys (m_smart_dsp_os_priv_area m) = 0xffffffff \<or> strt_phys (m_dsp_core0_m2 m) = 0xffffffff \<or>
     strt_phys (m_dsp_core1_m2 m) = 0xffffffff \<or> strt_phys (m_dsp_m3 m) = 0xffffffff \<or>
     pa_shared_size m = 0xffffffff \<or> dsp_shared_size m = 0xffffffff"

definition map_shared_mem :: "um_env \<Rightarrow> usmmgr_priv \<Rightarrow> int \<times> usmmgr_priv" where
  "map_shared_mem env priv =
     (case e_model env of
        None \<Rightarrow> (- 1, priv)
      | Some None \<Rightarrow> (0, priv)
      | Some (Some model) \<Rightarrow>
          if e_ioctl env \<noteq> 0 then (e_ioctl env, priv)
          else
            (let priv1 = priv\<lparr>um_sys_map := e_sys_map env\<rparr>; m = e_sys_map env in
             if bad_sys_map m then (- 1, priv1)
             else if take 12 model = ''fsl,bsc9132'' @ [CHR 0x00] then
               (case MMAP env (m_dsp_core1_m2 m) priv1 of
                  (False, priv2) \<Rightarrow> (- 1, priv2)
                | (True, priv2) \<Rightarrow>
                    (case MMAP env (m_dsp_m3 m) priv2 of (ok, priv3) \<Rightarrow> (if ok then 0 else - 1, priv3)))
             else if take 12 model = ''fsl,B4860QDS'' \<or> take 12 model = ''fsl,B4420QDS'' then
               (case MMAP env (m_dsp_m3 m) priv1 of (ok, priv2) \<Rightarrow> (if ok then 0 else - 1, priv2))
             else (0, priv1)))"

text \<open>
  A failure of \<open>fsl_shm_init\<close> leaves \<open>ret\<close> at zero, so the clean-up branch is not taken and the
  manager is returned as it is.
\<close>

definition fsl_usmmgr_init ::
  "bool \<Rightarrow> shm_env \<Rightarrow> shm_sys \<Rightarrow> um_env \<Rightarrow> um_state \<Rightarrow> usmmgr_priv option \<times> um_state" where
  "fsl_usmmgr_init cc env sys ue st =
     (if e_lock ue \<noteq> 0 then (None, st)
      else if usmmgr_initialized st then (um_priv st, st)
      else if \<not> e_malloc ue then (None, st\<lparr>um_priv := None\<rparr>)
      else case fsl_shm_init cc env sys 0 True (um_lib st) (um_drv st) of
        (p, l, d) \<Rightarrow>
          (let st1 = st\<lparr>um_lib := l, um_drv := d\<rparr> in
           if p = 0 then (Some new_priv, st1\<lparr>um_priv := Some new_priv\<rparr>)
           else if \<not> e_het_mgr ue \<or> \<not> e_dev_mem ue then (None, st1\<lparr>um_priv := None\<rparr>)
           else case map_shared_mem ue new_priv of
             (ret, priv) \<Rightarrow>
               if ret \<noteq> 0 then (None, st1\<lparr>um_priv := None\<rparr>)
               else (Some priv, st1\<lparr>um_priv := Some priv, usmmgr_initialized := True\<rparr>)))"

section \<open>Address translation\<close>

text \<open>The segment as the library sees it: virtual and physical addresses positive and below 2 GB.\<close>

definition window :: "shm_lib \<Rightarrow> nat \<Rightarrow> nat \<Rightarrow> nat \<Rightarrow> bool" where
  "window l v p n \<longleftrightarrow> shm_init_done l \<and> unat (seg_vaddr (lib_seg l)) = v \<and> unat (seg_paddr (lib_seg l)) = p \<and>
     unat (seg_size (lib_seg l)) = n \<and> 0 < v \<and> 0 < p \<and> 0 < n \<and> v + n < 2 ^ 31 \<and> p + n < 2 ^ 31"

lemma unat_ptr64: "unat a < 2 ^ 31 \<Longrightarrow> unat (ptr64 a) = unat a"
  using unat_less_exp [of a] by (simp add: ptr64_def scast_small unsigned_ucast_eq take_bit_nat_eq_self)

lemma translate_in:
  fixes a :: u32 and b c n :: u64
  assumes "unat a < 2 ^ 31" "unat b \<le> unat a" "unat a \<le> unat b + unat n" "0 < unat a"
    "unat b + unat n < 2 ^ 31" "unat c + unat n < 2 ^ 31"
  shows "\<not> (ptr64 a = 0 \<or> ptr64 a < b \<or> ptr64 a > b + n)"
    "unat (ucast (c + (ptr64 a - b)) :: u32) = unat c + (unat a - unat b)"
proof -
  note u = unat_ptr64 [OF assms(1)]
  have bn: "unat (b + n) = unat b + unat n" using assms(5) by (simp add: unat_word_ariths(1))
  show "\<not> (ptr64 a = 0 \<or> ptr64 a < b \<or> ptr64 a > b + n)"
    using assms u bn by (auto simp: word_less_nat_alt unat_eq_zero)
  have d: "unat (ptr64 a - b) = unat a - unat b" using assms(2) u by (simp add: unat_sub word_le_nat_alt)
  then have "unat (c + (ptr64 a - b)) = unat c + (unat a - unat b)" using assms by (simp add: unat_word_ariths(1))
  then show "unat (ucast (c + (ptr64 a - b)) :: u32) = unat c + (unat a - unat b)"
    using assms(3,6) by (simp add: unsigned_ucast_eq take_bit_nat_eq_self)
qed

lemma ptov_in:
  assumes "window l v p n" "p \<le> unat a" "unat a \<le> p + n"
  shows "unat (shm_ptov l a) = v + (unat a - p)" "shm_ptov l a \<noteq> 0"
proof -
  have w: "unat a < 2 ^ 31" "0 < unat a" using assms by (auto simp: window_def)
  show u: "unat (shm_ptov l a) = v + (unat a - p)"
    using assms w translate_in [OF w(1), of "seg_paddr (lib_seg l)" "seg_size (lib_seg l)" "seg_vaddr (lib_seg l)"]
    by (auto simp: window_def shm_ptov_def Let_def)
  then show "shm_ptov l a \<noteq> 0" using assms(1) by (metis add_gr_0 unat_0 less_numeral_extra(3) window_def)
qed

lemma vtop_in:
  assumes "window l v p n" "v \<le> unat a" "unat a \<le> v + n"
  shows "unat (shm_vtop l a) = p + (unat a - v)" "shm_vtop l a \<noteq> 0"
proof -
  have w: "unat a < 2 ^ 31" "0 < unat a" using assms by (auto simp: window_def)
  show u: "unat (shm_vtop l a) = p + (unat a - v)"
    using assms w translate_in [OF w(1), of "seg_vaddr (lib_seg l)" "seg_size (lib_seg l)" "seg_paddr (lib_seg l)"]
    by (auto simp: window_def shm_vtop_def Let_def)
  then show "shm_vtop l a \<noteq> 0" using assms(1) by (metis add_gr_0 unat_0 less_numeral_extra(3) window_def)
qed

lemma vtop_out:
  assumes "window l v p n" "unat a < v \<or> v + n < unat a"
  shows "shm_vtop l a = 0"
proof (rule ccontr)
  let ?s = "lib_seg l"
  assume "shm_vtop l a \<noteq> 0"
  then have r: "\<not> (ptr64 a < seg_vaddr ?s \<or> ptr64 a > seg_vaddr ?s + seg_size ?s)"
    by (auto simp: shm_vtop_def Let_def split: if_splits)
  have e: "unat (seg_vaddr ?s + seg_size ?s) = v + n" using assms(1) by (simp add: window_def unat_word_ariths(1))
  have "unat (ptr64 a) < 2 ^ 31" using r e assms(1) by (simp add: word_less_nat_alt window_def)
  moreover have "unat a = unat (ptr64 a)"
  proof (rule ccontr)
    assume "unat a \<noteq> unat (ptr64 a)"
    then have "\<not> unat a < 2 ^ 31" using unat_ptr64 by metis
    moreover have "(ucast (ptr64 a) :: u32) = a" by (simp add: ptr64_def)
    then have "unat a \<le> unat (ptr64 a)" by (metis take_bit_nat_less_eq_self unsigned_ucast_eq)
    ultimately show False using \<open>unat (ptr64 a) < 2 ^ 31\<close> by simp
  qed
  ultimately show False using r e assms by (simp add: word_less_nat_alt window_def)
qed

section \<open>The memory manager as an allocator\<close>

text \<open>A request of the manager's clients, with the copies between kernel and user space succeeding.\<close>

record um_request =
  um_ka :: "nat \<Rightarrow> bool"
  um_kf :: "nat \<Rightarrow> bool"
  um_size :: u32
  um_align :: "nat option"

definition um_shm_env :: "um_request \<Rightarrow> shm_env" where
  "um_shm_env q = \<lparr>env_page = (\<lambda>_. None), env_ka = um_ka q, env_kf = um_kf q, env_copy_in = True, env_copy_out = True\<rparr>"

definition um_range :: "bool \<Rightarrow> um_request \<Rightarrow> shm_lib \<Rightarrow> shm_drv \<Rightarrow> int \<times> mem_range \<times> shm_drv" where
  "um_range cc q l d =
     (case um_align q of
        None \<Rightarrow> fsl_usmmgr_alloc cc (um_shm_env q) (zero_range\<lparr>range_size := um_size q\<rparr>) l d
      | Some k \<Rightarrow> fsl_usmmgr_memalign cc (um_shm_env q) (zero_range\<lparr>range_size := um_size q\<rparr>) (2 ^ min k 31) l d)"

definition um_get :: "bool \<Rightarrow> um_request \<Rightarrow> shm_lib \<times> shm_drv \<Rightarrow> area option \<times> (shm_lib \<times> shm_drv)" where
  "um_get cc q s =
     (case um_range cc q (fst s) (snd s) of
        (ret, r, d) \<Rightarrow> (if ret = 0 then Some (unat (range_vaddr r), unat (range_size r)) else None, (fst s, d)))"

definition um_put :: "bool \<Rightarrow> u32 \<Rightarrow> vaddr \<Rightarrow> shm_lib \<times> shm_drv \<Rightarrow> shm_lib \<times> shm_drv" where
  "um_put cc w a s =
     (fst s, fsl_usmmgr_free cc (um_shm_env \<lparr>um_ka = (\<lambda>_. True), um_kf = (\<lambda>_. True), um_size = 0, um_align = None\<rparr>) w
               (zero_range\<lparr>range_vaddr := a\<rparr>) (fst s) (snd s))"

text \<open>The manager's areas are the driver's, moved to where the segment is mapped.\<close>

definition moved :: "nat \<Rightarrow> nat \<Rightarrow> area \<Rightarrow> area" where
  "moved v p x = (v + (fst x - p), snd x)"

definition um_held :: "shm_lib \<times> shm_drv \<Rightarrow> area set" where
  "um_held s = moved (unat (seg_vaddr (lib_seg (fst s)))) (unat (seg_paddr (lib_seg (fst s)))) ` areas (shm_heap (snd s))"

definition um_ok :: "nat \<Rightarrow> nat \<Rightarrow> nat \<Rightarrow> shm_lib \<times> shm_drv \<Rightarrow> bool" where
  "um_ok v p n s \<longleftrightarrow> window (fst s) v p n \<and> shm_ok p (p + n) (shm_heap (snd s))"

definition um_as_shm :: "um_request \<Rightarrow> shm_request" where
  "um_as_shm q = \<lparr>req_ka = um_ka q, req_kf = um_kf q, req_size = ucast (um_size q), req_align = map_option (\<lambda>k. min k 31) (um_align q)\<rparr>"

lemma unat_ucast_up: "unat (ucast (a :: u32) :: u64) = unat a"
  using unat_less_exp [of a] by (simp add: unsigned_ucast_eq take_bit_nat_eq_self)

lemma ioctl_alloc:
  assumes "env_copy_in env" "env_copy_out env" "fsl_shm_alloc (env_ka env) (ucast sz) (shm_heap d) = (r, h)" "shm_init_done l"
  shows "shm_alloc cc env sz l d = (shm_ptov l (ucast r), d\<lparr>shm_heap := h\<rparr>)"
  using assms by (simp add: shm_alloc_def copy_in_def fsl_shm_ioctl_def copy_out_def)

lemma ioctl_memalign:
  assumes "env_copy_in env" "env_copy_out env" "shm_init_done l"
    "fsl_shm_memalign (env_ka env) (env_kf env) (ucast sz) (ucast al) (shm_heap d) = (r, h)"
  shows "shm_memalign cc env sz al l d = (shm_ptov l (ucast r), d\<lparr>shm_heap := h\<rparr>)"
  using assms by (simp add: shm_memalign_def copy_in_def fsl_shm_ioctl_def copy_out_def)

lemma handed_out:
  assumes w: "window l v p n" and r: "p \<le> unat r" "unat r \<le> p + n"
  shows "shm_ptov l (ucast r) \<noteq> 0" "unat (shm_ptov l (ucast r)) = v + (unat r - p)"
    "unat (ucast (shm_vtop l (shm_ptov l (ucast r))) :: u64) = unat r"
proof -
  have "unat r < 2 ^ 32" using assms by (simp add: window_def)
  then have u: "unat (ucast r :: u32) = unat r" by (simp add: unsigned_ucast_eq take_bit_nat_eq_self)
  note P = ptov_in [OF w, of "ucast r", unfolded u, OF r]
  show "shm_ptov l (ucast r) \<noteq> 0" "unat (shm_ptov l (ucast r)) = v + (unat r - p)" using P by simp_all
  show "unat (ucast (shm_vtop l (shm_ptov l (ucast r))) :: u64) = unat r"
    using vtop_in(1) [OF w, of "shm_ptov l (ucast r)"] P(1) r by (simp add: unat_ucast_up)
qed

definition shm_call :: "um_request \<Rightarrow> shm_state \<Rightarrow> u64 \<times> shm_state" where
  "shm_call q h =
     (case um_align q of
        None \<Rightarrow> fsl_shm_alloc (um_ka q) (ucast (um_size q)) h
      | Some a \<Rightarrow> fsl_shm_memalign (um_ka q) (um_kf q) (ucast (um_size q)) (2 ^ min a 31) h)"

lemma shm_call_get:
  "shm_get (um_as_shm q) h =
     (if fst (shm_call q h) = 0 then None else Some (unat (fst (shm_call q h)), unat (um_size q)), snd (shm_call q h))"
  by (simp add: shm_call_def shm_get_def um_as_shm_def unat_ucast_up split: option.splits prod.splits)

lemma ucast_pow2: "(ucast ((2 :: u32) ^ min a 31) :: u64) = 2 ^ min a 31"
proof -
  have "unat (ucast ((2 :: u32) ^ min a 31) :: u64) = unat ((2 :: u64) ^ min a 31)" by (simp add: unat_ucast_up)
  then show ?thesis by (simp only: word_unat_eq_iff)
qed

lemma um_range_call:
  assumes "shm_init_done l" "shm_call q (shm_heap d) = (r, h)"
  shows "um_range cc q l d =
    (if um_size q = 0 then (- 1, zero_range\<lparr>range_size := um_size q\<rparr>, d)
     else if shm_ptov l (ucast r) = 0 then (- 1, zero_range\<lparr>range_size := um_size q, range_vaddr := 0\<rparr>, d\<lparr>shm_heap := h\<rparr>)
     else (0, zero_range\<lparr>range_size := um_size q, range_vaddr := shm_ptov l (ucast r),
              phys_addr := ucast (shm_vtop l (shm_ptov l (ucast r)))\<rparr>, d\<lparr>shm_heap := h\<rparr>))"
proof (cases "um_align q")
  case None
  then show ?thesis
    using assms ioctl_alloc [of "um_shm_env q" "um_size q" d r h l cc]
    by (simp add: um_range_def fsl_usmmgr_alloc_def shm_call_def um_shm_env_def)
next
  case (Some a)
  then show ?thesis
    using assms ioctl_memalign [of "um_shm_env q" l "um_size q" "2 ^ min a 31" d r h cc]
    by (simp add: um_range_def fsl_usmmgr_memalign_def shm_call_def um_shm_env_def ucast_pow2)
qed

lemma um_range_shm:
  assumes ok: "um_ok v p n (l, d)" and g: "shm_get (um_as_shm q) (shm_heap d) = (res, h)"
  obtains r where "um_range cc q l d = ((if res = None then - 1 else 0), r, d\<lparr>shm_heap := h\<rparr>)"
    "\<And>x. res = Some x \<Longrightarrow> unat (phys_addr r) = fst x \<and> unat (range_vaddr r) = v + (fst x - p) \<and> range_size r = um_size q"
proof -
  have w: "window l v p n" and k: "shm_ok p (p + n) (shm_heap d)" using ok by (simp_all add: um_ok_def)
  have dn: "shm_init_done l" using w by (simp add: window_def)
  obtain r1 where c: "shm_call q (shm_heap d) = (r1, h)"
    and res: "res = (if r1 = 0 then None else Some (unat r1, unat (um_size q)))"
    using g unfolding shm_call_get by (cases "shm_call q (shm_heap d)") auto
  have bnd: "p \<le> unat r1" "unat r1 \<le> p + n" if "r1 \<noteq> 0"
  proof -
    have "(unat r1, unat (um_size q)) \<in> areas h" using shm_get_cases(2) [OF k g] res that by simp
    from area_bounds(1,2) [OF shm_get_cases(1) [OF k g] this] show "p \<le> unat r1" "unat r1 \<le> p + n" by simp_all
  qed
  have zero: "r1 = 0" "h = shm_heap d" if "um_size q = 0"
    using c that by (auto simp: shm_call_def fsl_shm_alloc_def shm_alloc_list_def fsl_shm_memalign_def
        shm_memalign_list_def split: option.splits)
  note C = um_range_call [OF dn c, of cc]
  show thesis
  proof (cases "r1 = 0")
    case True
    then show thesis using that [of "fst (snd (um_range cc q l d))"] C res zero
      by (auto simp: shm_ptov_def ptr64_def)
  next
    case False
    note O = handed_out [OF w bnd [OF False]]
    have "um_size q \<noteq> 0" using zero False by blast
    then show thesis using that C O res False by simp
  qed
qed

lemma um_get_shm:
  assumes "um_ok v p n (l, d)" "shm_get (um_as_shm q) (shm_heap d) = (res, h)"
  shows "um_get cc q (l, d) = (map_option (moved v p) res, (l, d\<lparr>shm_heap := h\<rparr>))"
proof (rule um_range_shm [OF assms, of cc])
  fix r
  assume r: "um_range cc q l d = ((if res = None then - 1 else 0), r, d\<lparr>shm_heap := h\<rparr>)"
    "\<And>x. res = Some x \<Longrightarrow> unat (phys_addr r) = fst x \<and> unat (range_vaddr r) = v + (fst x - p) \<and> range_size r = um_size q"
  have "snd x = unat (um_size q)" if "res = Some x" for x
    using assms(2) that unfolding shm_call_get by (auto split: if_splits)
  then show ?thesis using r by (cases res) (auto simp: um_get_def moved_def)
qed

lemma window_moved:
  assumes "um_ok v p n s"
  shows "um_held s = moved v p ` areas (shm_heap (snd s))"
  using assms by (simp add: um_held_def um_ok_def window_def)

lemma um_get_ok:
  assumes ok: "um_ok v p n s" and g: "um_get cc q s = (res, s')"
  shows "um_ok v p n s'" "um_held s' = set_option res \<union> um_held s"
    "res = Some x \<Longrightarrow> y \<in> um_held s \<Longrightarrow> areas_apart x y" "fst s' = fst s"
proof -
  obtain l d where s: "s = (l, d)" by (rule prod.exhaust)
  obtain r h where h: "shm_get (um_as_shm q) (shm_heap d) = (r, h)" by (rule prod.exhaust)
  have e: "res = map_option (moved v p) r" "s' = (l, d\<lparr>shm_heap := h\<rparr>)"
    using um_get_shm [OF ok [unfolded s] h, of cc] g s by simp_all
  have k: "shm_ok p (p + n) (shm_heap d)" "window l v p n" using ok s by (simp_all add: um_ok_def)
  show ok': "um_ok v p n s'" using shm_get_cases(1) [OF k(1) h] k(2) e(2) by (simp add: um_ok_def)
  show "um_held s' = set_option res \<union> um_held s"
    using shm_get_cases(2) [OF k(1) h] window_moved [OF ok] window_moved [OF ok'] e s by (cases r) auto
  show "fst s' = fst s" using e s by simp
  assume x: "res = Some x" and y: "y \<in> um_held s"
  obtain x0 y0 where xy: "r = Some x0" "x = moved v p x0" "y0 \<in> areas (shm_heap d)" "y = moved v p y0"
    using x y e(1) window_moved [OF ok] s by auto
  have "x0 \<in> areas h" using shm_get_cases(2) [OF k(1) h] xy(1) by simp
  then have "p \<le> fst x0" "p \<le> fst y0"
    using area_bounds(1) [OF shm_get_cases(1) [OF k(1) h], of "fst x0" "snd x0"] area_bounds(1) [OF k(1), of "fst y0" "snd y0"] xy(3) by simp_all
  then show "areas_apart x y"
    using shm_get_cases(4) [OF k(1) h xy(1,3)] xy by (auto simp: areas_apart_def moved_def)
qed

lemma compat_word: "drop_bit 32 (push_bit 32 (ucast (a :: u32))) OR drop_bit 32 (ucast (w :: u32)) = (ucast a :: u64)"
  by (rule bit_word_eqI) (auto simp: bit_simps dest: bit_imp_le_length)

lemma um_put_ok:
  assumes ok: "um_ok v p n s"
  shows "um_ok v p n (um_put cc w a s)" "um_held (um_put cc w a s) = {x \<in> um_held s. fst x \<noteq> unat a}"
proof -
  obtain l d where s: "s = (l, d)" by (rule prod.exhaust)
  have k: "shm_ok p (p + n) (shm_heap d)" "window l v p n" using ok s by (simp_all add: um_ok_def)
  have bd: "p \<le> fst x \<and> fst x < p + n" if "x \<in> areas (shm_heap d)" for x
    using area_bounds(1,2,3) [OF k(1), of "fst x" "snd x"] that by simp
  have "um_ok v p n (um_put cc w a s) \<and> um_held (um_put cc w a s) = {x \<in> um_held s. fst x \<noteq> unat a}"
  proof (cases "v \<le> unat a \<and> unat a \<le> v + n")
    case True
    note T = vtop_in [OF k(2), of a]
    have st: "um_put cc w a s = (l, d\<lparr>shm_heap := shm_put (ucast (shm_vtop l a)) (shm_heap d)\<rparr>)"
      using T(2) True s
      by (cases cc) (simp_all add: um_put_def fsl_usmmgr_free_def shm_free_def zero_range_def copy_in_def um_shm_env_def
          fsl_shm_ioctl_def shm_put_def compat_word Let_def)
    note P = shm_put_ok [OF k(1), of "ucast (shm_vtop l a)"]
    have ok': "um_ok v p n (um_put cc w a s)" using P(1) k(2) st by (simp add: um_ok_def)
    have "(fst x \<noteq> p + (unat a - v)) = (fst (moved v p x) \<noteq> unat a)" if "x \<in> areas (shm_heap d)" for x
      using bd [OF that] True by (auto simp: moved_def)
    then have "moved v p ` {x \<in> areas (shm_heap d). fst x \<noteq> p + (unat a - v)} = {x \<in> moved v p ` areas (shm_heap d). fst x \<noteq> unat a}"
      by auto
    then show ?thesis
      using ok' window_moved [OF ok'] window_moved [OF ok] P(2) T(1) True st s by (simp add: unat_ucast_up)
  next
    case False
    then have z: "shm_vtop l a = 0" using vtop_out [OF k(2), of a] by auto
    have "um_put cc w a s = s" using z s by (simp add: um_put_def fsl_usmmgr_free_def shm_free_def zero_range_def)
    moreover have "fst x \<noteq> unat a" if "x \<in> um_held s" for x
      using that window_moved [OF ok] bd False s by (force simp: moved_def)
    ultimately show ?thesis using ok by auto
  qed
  then show "um_ok v p n (um_put cc w a s)" "um_held (um_put cc w a s) = {x \<in> um_held s. fst x \<noteq> unat a}" by simp_all
qed

interpretation usm: area_allocator "um_ok v p n" um_held "um_get cc" "um_put cc w" unat for v p n cc w
proof (unfold_locales, goal_cases)
  case (6 s x y)
  have k: "shm_ok p (p + n) (shm_heap (snd s))" using 6(1) by (simp add: um_ok_def)
  obtain x0 y0 where xy: "x = moved v p x0" "y = moved v p y0" "x0 \<in> areas (shm_heap (snd s))" "y0 \<in> areas (shm_heap (snd s))"
    using 6 window_moved [OF 6(1)] by auto
  then have "x0 \<noteq> y0" "p \<le> fst x0" "p \<le> fst y0"
    using 6(4) area_bounds(1) [OF k, of "fst x0" "snd x0"] area_bounds(1) [OF k, of "fst y0" "snd y0"] by auto
  then show ?case
    using shma.apart [OF k xy(3,4)] xy(1,2) by (auto simp: areas_apart_def moved_def)
qed (rule um_get_ok(1,2) um_put_ok um_get_ok(3) [OF _ _ refl]; assumption)+

section \<open>What the clients of the memory manager get\<close>

text \<open>The segment is attached at \<open>v\<close>, its pages start at \<open>p\<close>, both far enough below 2 GB.\<close>

definition attached :: "shm_env \<Rightarrow> shm_sys \<Rightarrow> vaddr \<Rightarrow> u64 \<Rightarrow> bool" where
  "attached env sys v p \<longleftrightarrow> sys_open sys \<and> sys_shmget sys \<and> sys_shmat sys = Some v \<and>
     env_page env (ptr64 v) = Some p \<and> env_copy_in env \<and> env_copy_out env \<and>
     0 < unat v \<and> unat v + 0xff00000 < 2 ^ 31 \<and> 0 < unat p \<and> unat p + 0xff00000 < 2 ^ 31"

lemma attached_ok:
  assumes "attached env sys v p" "fsl_shm_init cc env sys 0 True l0 d0 = (ret, l, d)"
  shows "um_ok (unat v) (unat p) 0xff00000 (l, d)" "um_held (l, d) = {}" "unat ret = unat p"
proof -
  let ?n = "0xff00000 :: u64"
  have l: "l = \<lparr>lib_seg = \<lparr>seg_vaddr = ptr64 v, seg_paddr = p, seg_size = ?n\<rparr>, shm_init_done = True\<rparr>"
    "d = d0\<lparr>initialized := 0, shm_heap := shm_initialize p ?n\<rparr>" "ret = ucast p"
    using assms by (auto simp: attached_def fsl_shm_init_def fsl_shm_ioctl_def copy_in_def copy_out_def
        fsl_shm_get_paddr_def Let_def)
  have u: "unat (ptr64 v) = unat v" using assms(1) by (intro unat_ptr64) (simp add: attached_def)
  have "segment p ?n" using assms(1) by (simp add: attached_def segment_def)
  note I = segment_init [OF this]
  show "um_ok (unat v) (unat p) 0xff00000 (l, d)"
    using I(1) assms(1) u by (simp add: um_ok_def window_def l attached_def)
  show "um_held (l, d) = {}" using I(2) by (simp add: um_held_def l)
  show "unat ret = unat p" using assms(1) by (simp add: l attached_def unsigned_ucast_eq take_bit_nat_eq_self)
qed

lemma window_inj: "window l v p n \<Longrightarrow> window l' v p n \<Longrightarrow> l = l'"
proof -
  assume w: "window l v p n" "window l' v p n"
  then have "lib_seg l = lib_seg l'"
    by (cases "lib_seg l"; cases "lib_seg l'") (auto simp: window_def word_unat_eq_iff)
  then show ?thesis using w by (cases l; cases l') (simp add: window_def)
qed

lemma um_run:
  assumes "attached env sys v p" "fsl_shm_init cc env sys 0 True l0 d0 = (ret, l, d)"
    "ledger (um_get cc) (um_put cc w) unat ops (l, d) {} = (L, s)"
  shows "um_ok (unat v) (unat p) 0xff00000 s" "L = um_held s" "fst s = l"
proof -
  note A = attached_ok [OF assms(1,2)]
  have "ledger (um_get cc) (um_put cc w) unat ops (l, d) (um_held (l, d)) = (L, s)" using assms(3) A(2) by simp
  from usm.ledger_exact [OF A(1) this] show ok: "um_ok (unat v) (unat p) 0xff00000 s" "L = um_held s" by simp_all
  show "fst s = l" using ok(1) A(1) window_inj by (auto simp: um_ok_def)
qed

text \<open>A sample run: the segment at 0x1000, its pages at 0x2000, two ranges allocated.\<close>

definition um_sample_env :: shm_env where
  "um_sample_env = sample_env\<lparr>env_page := (\<lambda>_. Some 0x2000)\<rparr>"

definition um_sample_sys :: shm_sys where
  "um_sample_sys = \<lparr>sys_open = True, sys_shmget = True, sys_shmat = Some 0x1000\<rparr>"

definition um_sample_req :: "u32 \<Rightarrow> nat option \<Rightarrow> um_request" where
  "um_sample_req sz al = \<lparr>um_ka = (\<lambda>_. True), um_kf = (\<lambda>_. True), um_size = sz, um_align = al\<rparr>"

definition um_sample_init :: "u32 \<times> shm_lib \<times> shm_drv" where
  "um_sample_init = fsl_shm_init True um_sample_env um_sample_sys 0 True
     \<lparr>lib_seg = sample_seg, shm_init_done = False\<rparr> (shm_module (shm_initialize 0 0))"

definition um_sample_ops :: "(um_request, vaddr) area_op list" where
  "um_sample_ops = [Get (um_sample_req 0x20 None), Get (um_sample_req 0x30 (Some 8)), Put 0x1000]"

definition um_sample_run :: "area set \<times> shm_lib \<times> shm_drv" where
  "um_sample_run = ledger (um_get True) (um_put True 7) unat um_sample_ops (snd um_sample_init) {}"

definition um_sample_uenv :: um_env where
  "um_sample_uenv = \<lparr>e_lock = 0, e_malloc = True, e_het_mgr = True, e_dev_mem = True, e_model = Some (Some ''fsl,B4860QDS''),
     e_ioctl = 0, e_sys_map = um_sys_map new_priv, e_mmap = (\<lambda>_ _. Some 0x50000000)\<rparr>"

definition um_sample_st :: um_state where
  "um_sample_st = \<lparr>usmmgr_initialized = False, um_priv = None, um_lib = \<lparr>lib_seg = sample_seg, shm_init_done = False\<rparr>,
     um_drv = shm_module (shm_initialize 0 0)\<rparr>"

lemma um_sample_attached: "attached um_sample_env um_sample_sys 0x1000 0x2000"
  by (simp add: attached_def um_sample_env_def um_sample_sys_def sample_env_def)

lemma um_sample_areas: "fst um_sample_run = {(0x1100, 0x30)}"
  by code_simp

lemma um_sample_steps:
  "fsl_shm_init True um_sample_env um_sample_sys 0 True \<lparr>lib_seg = sample_seg, shm_init_done = False\<rparr>
     (shm_module (shm_initialize 0 0)) = (fst um_sample_init, fst (snd um_sample_init), snd (snd um_sample_init))"
  "ledger (um_get True) (um_put True 7) unat um_sample_ops (fst (snd um_sample_init), snd (snd um_sample_init)) {} =
     ({(0x1100, 0x30)}, snd um_sample_run)"
  using um_sample_areas by (simp_all add: um_sample_init_def um_sample_run_def prod_eq_iff)

text \<open>C20: Once the segment is attached, the ranges the memory manager hands out and has not taken back
  are disjoint in the process's address space and lie in the attached segment, whatever the
  sequence of allocations, aligned allocations and frees.\<close>

theorem usmmgr_ranges_disjoint:
  assumes "attached env sys v p" "fsl_shm_init cc env sys 0 True l0 d0 = (ret, l, d)"
    "ledger (um_get cc) (um_put cc w) unat ops (l, d) {} = (L, s)"
  shows "(\<forall>x \<in> L. \<forall>y \<in> L. x \<noteq> y \<longrightarrow> areas_apart x y) \<and>
    (\<forall>(a, k) \<in> L. unat v \<le> a \<and> a + k \<le> unat v + 0xff00000 \<and> 0 < k)"
proof -
  note R = um_run [OF assms]
  have k: "shm_ok (unat p) (unat p + 0xff00000) (shm_heap (snd s))" using R(1) by (simp add: um_ok_def)
  have "unat v \<le> fst x \<and> fst x + snd x \<le> unat v + 0xff00000 \<and> 0 < snd x" if "x \<in> L" for x
    using that R(2) window_moved [OF R(1)] area_bounds(1-3) [OF k] by (force simp: moved_def)
  then show ?thesis using usm.apart [OF R(1)] R(2) by fastforce
qed

theorem usmmgr_ranges_disjoint_witness:
  "fst um_sample_run = {(0x1100, 0x30)} \<and> (0x1100 :: nat) + 0x30 \<le> 0x1000 + 0xff00000"
  using usmmgr_ranges_disjoint [OF um_sample_attached um_sample_steps] um_sample_areas by simp

text \<open>A range the memory manager returns has the size asked for, and over its whole length the
  translations between its virtual and its physical addresses are inverse to each other: what
  the program passes to the DSP as a physical address comes back as the same pointer.\<close>

lemma usmmgr_range_translates:
  assumes "attached env sys v p" "fsl_shm_init cc env sys 0 True l0 d0 = (ret, l, d)"
    "ledger (um_get cc) (um_put cc w) unat ops (l, d) {} = (L, s)" "um_range cc q l (snd s) = (0, r, d')"
    "i < unat (um_size q)"
  shows "range_size r = um_size q \<and>
    fsl_usmmgr_v2p (range_vaddr r + of_nat i) l = ucast (phys_addr r + of_nat i) \<and>
    fsl_usmmgr_p2v (phys_addr r + of_nat i) l priv = range_vaddr r + of_nat i"
proof -
  note R = um_run [OF assms(1-3)]
  have w: "window l (unat v) (unat p) 0xff00000" and k: "shm_ok (unat p) (unat p + 0xff00000) (shm_heap (snd s))"
    using R by (auto simp: um_ok_def)
  have ok: "um_ok (unat v) (unat p) 0xff00000 (l, snd s)" using w k by (simp add: um_ok_def)
  obtain res h where g: "shm_get (um_as_shm q) (shm_heap (snd s)) = (res, h)" by (rule prod.exhaust)
  obtain r' where r': "um_range cc q l (snd s) = ((if res = None then - 1 else 0), r', (snd s)\<lparr>shm_heap := h\<rparr>)"
    "\<And>x. res = Some x \<Longrightarrow> unat (phys_addr r') = fst x \<and> unat (range_vaddr r') = unat v + (fst x - unat p) \<and> range_size r' = um_size q"
    by (rule um_range_shm [OF ok g, of cc]) (blast intro: that)
  then obtain a where x: "res = Some (a, unat (um_size q))" "r' = r"
    using assms(4) g unfolding shm_call_get by (auto split: if_splits)
  have "(a, unat (um_size q)) \<in> areas h" using shm_get_cases(2) [OF k g] x by simp
  note B = area_bounds [OF shm_get_cases(1) [OF k g] this]
  have ra: "unat (phys_addr r) = a" "unat (range_vaddr r) = unat v + (a - unat p)" "range_size r = um_size q"
    using r'(2) x by auto
  have lt: "unat v + 0xff00000 < 2 ^ 31" "unat p + 0xff00000 < 2 ^ 31" using w by (simp_all add: window_def)
  have pi: "unat (phys_addr r + of_nat i) = a + i"
    using B lt ra assms(5) by (simp add: unat_word_ariths(1) unat_of_nat)
  have vi: "unat (range_vaddr r + of_nat i) = unat v + (a - unat p) + i"
    using B lt ra assms(5) by (simp add: unat_word_ariths(1) unat_of_nat)
  have pc: "unat (ucast (phys_addr r + of_nat i) :: u32) = a + i"
    using pi B lt assms(5) by (simp add: unsigned_ucast_eq take_bit_nat_eq_self)
  have P: "unat (shm_ptov l (ucast (phys_addr r + of_nat i))) = unat v + (a - unat p) + i"
    "shm_ptov l (ucast (phys_addr r + of_nat i)) \<noteq> 0"
    using ptov_in [OF w, of "ucast (phys_addr r + of_nat i)"] pc B assms(5) by auto
  have V: "unat (shm_vtop l (range_vaddr r + of_nat i)) = a + i"
    using vtop_in(1) [OF w, of "range_vaddr r + of_nat i"] vi B assms(5) by simp
  have "phys_addr r + of_nat i < 0x100000000" using pi B lt assms(5) by (simp add: word_less_nat_alt)
  then show ?thesis
    using ra P V pc vi by (simp add: fsl_usmmgr_v2p_def fsl_usmmgr_p2v_def word_unat_eq_iff)
qed

theorem usmmgr_range_translates_witness:
  "case um_range True (um_sample_req 0x100 None) (fst (snd um_sample_init)) (snd (snd um_sample_run)) of
     (ret, r, d) \<Rightarrow> ret = 0 \<and> fsl_usmmgr_p2v (phys_addr r + 5) (fst (snd um_sample_init)) new_priv = range_vaddr r + 5"
proof -
  let ?x = "um_range True (um_sample_req 0x100 None) (fst (snd um_sample_init)) (snd (snd um_sample_run))"
  have "fst ?x = 0" by code_simp
  then have x: "?x = (0, fst (snd ?x), snd (snd ?x))" by (simp add: prod_eq_iff)
  show ?thesis
    using usmmgr_range_translates [OF um_sample_attached um_sample_steps x, of 5 new_priv] \<open>fst ?x = 0\<close>
    by (simp add: um_sample_req_def split_beta)
qed

text \<open>When the segment cannot be attached, the initialisation still returns a handle as after a
  success, but the manager behind it is empty: every allocation fails and every translation of a
  physical address gives the null pointer.\<close>

lemma usmmgr_init_hides_failure:
  assumes "e_lock ue = 0" "e_malloc ue" "\<not> usmmgr_initialized st" "\<not> shm_init_done (um_lib st)"
    "\<not> sys_open sys \<or> \<not> sys_shmget sys \<or> sys_shmat sys = None"
    "fsl_usmmgr_init cc env sys ue st = (handle, st')"
  shows "\<exists>priv. handle = Some priv \<and> \<not> usmmgr_initialized st' \<and>
    fst (fsl_usmmgr_alloc cc env' r (um_lib st') d) = - 1 \<and> fsl_usmmgr_p2v a (um_lib st') priv = 0"
proof -
  have "\<exists>l. fsl_shm_init cc env sys 0 True (um_lib st) (um_drv st) = (0, l, um_drv st) \<and> \<not> shm_init_done l"
    using assms(4,5) by (auto simp: fsl_shm_init_def split: option.splits)
  then show ?thesis
    using assms by (auto simp: fsl_usmmgr_init_def fsl_usmmgr_alloc_def shm_alloc_def fsl_usmmgr_p2v_def
        shm_ptov_def new_priv_def Let_def)
qed

theorem usmmgr_init_hides_failure_witness:
  "fst (fsl_usmmgr_init True um_sample_env (um_sample_sys\<lparr>sys_shmget := False\<rparr>) um_sample_uenv um_sample_st) \<noteq> None"
proof -
  let ?x = "fsl_usmmgr_init True um_sample_env (um_sample_sys\<lparr>sys_shmget := False\<rparr>) um_sample_uenv um_sample_st"
  have "\<exists>priv. fst ?x = Some priv \<and> \<not> usmmgr_initialized (snd ?x) \<and>
      fst (fsl_usmmgr_alloc True um_sample_env zero_range (um_lib (snd ?x)) (um_drv um_sample_st)) = - 1 \<and>
      fsl_usmmgr_p2v 0x2000 (um_lib (snd ?x)) priv = 0"
    by (rule usmmgr_init_hides_failure [OF _ _ _ _ _ prod.collapse [symmetric]])
      (simp_all add: um_sample_uenv_def um_sample_st_def)
  then show ?thesis by blast
qed

end
