(* ===== verification/FAPI_Send.thy ===== *)
theory FAPI_Send
  imports FAPI_Memory Block_Queue User_Memory
begin

text \<open>
  The sending side of the FAPI library (\<open>b4860/fapi_b4860.c\<close>) and the request buffers of the
  scheduler (\<open>fapi_scheduler.c\<close>). A request is built in the next buffer of a ring of shared-memory
  buffers and a 16-byte descriptor of it goes through a message channel to the DSP.

  All structures live in the byte memory of the channel state, at the offsets of the packed
  structures of \<open>fapi_interface.h\<close> (\<open>fapi_dl_config_request_t\<close> 504 bytes with PDUs of 468,
  \<open>fapi_ul_config_request_t\<close> 208/180, \<open>fapi_hi_dci0_request_t\<close> 248/224, \<open>fapi_tx_request_t\<close> 412/396,
  \<open>fapi_config_t\<close> 532, the start and stop requests 16); loads and stores happen in the order of the
  code, so that a request that overlaps its buffer would be read as the code reads it. \<open>sp\<close> is the
  address of the descriptor on the caller's stack, \<open>lk\<close> the result of the channel lock.
\<close>

section \<open>State\<close>

datatype fapi_event = Cpri_eth_init | Cpri_eth_start

record fapi_tx =
  fapi_tx_req_data_bufs :: "mem_range list"
  fapi_tx_req_data_buf_ptr :: u32
  fapi_cpri_eth_bufs :: "mem_range list"
  fapi_cpri_eth_buf_ptr :: u32
  tx_lib :: shm_lib
  tx_ipc :: ipc_state
  g_fapi_cfg_req :: "u8 list"
  tx_events :: "fapi_event list"

abbreviation (input) "FAPI_TX_REQ_BUF_SIZE \<equiv> (65536 :: u32)"
abbreviation (input) "FAPI_TX_REQ_BUF_NUM \<equiv> (16 :: nat)"
abbreviation (input) "FAPI_CPRI_ETH_BUF_SIZE \<equiv> (4096 :: u32)"
abbreviation (input) "FAPI_CPRI_ETH_BUF_NUM \<equiv> (1024 :: nat)"
abbreviation (input) "IPC_PA2SC_CH_ID \<equiv> (4 :: u32)"
abbreviation (input) "FAPI_CHANNEL_P5_REQ \<equiv> (0 :: u32)"
abbreviation (input) "FAPI_CHANNEL_P7_REQ \<equiv> (2 :: u32)"
abbreviation (input) "FAPI_CHANNEL_CPRI \<equiv> (7 :: u32)"

definition tx_mem :: "fapi_tx \<Rightarrow> mem" where
  "tx_mem st = bytes (tx_ipc st)"

definition set_tx_mem :: "mem \<Rightarrow> fapi_tx \<Rightarrow> fapi_tx" where
  "set_tx_mem m st = st\<lparr>tx_ipc := (tx_ipc st)\<lparr>bytes := m\<rparr>\<rparr>"

definition ipc_v2p :: "fapi_tx \<Rightarrow> vaddr \<Rightarrow> u32" where
  "ipc_v2p st a = fsl_usmmgr_v2p a (tx_lib st)"

definition copy_word :: "mem \<Rightarrow> vaddr \<Rightarrow> vaddr \<Rightarrow> mem" where
  "copy_word m dst a = store_be32 m dst (load_be32 m a)"

text \<open>\<open>FAPI_GET_MSG_PTR_VAR_SIZE\<close>, with the size of the message and of a list element.\<close>

definition var_size :: "u32 \<Rightarrow> u32 \<Rightarrow> u32 \<Rightarrow> u32" where
  "var_size whole elem n = (if n > 0 then whole + elem * (n - 1) else whole)"

definition set_length_from_l1 :: "vaddr \<Rightarrow> mem \<Rightarrow> mem" where
  "set_length_from_l1 msg m = store_be32 m (msg + 4) (16 + load_be32 m (msg + 20))"

section \<open>Buffers and descriptors\<close>

definition new_msg :: "u32 \<Rightarrow> mem_range \<Rightarrow> mem \<Rightarrow> mem" where
  "new_msg chan r m =
     (let msg = range_vaddr r
      in store_be32 (store_be32 (store_be32 m msg chan) (msg + 12) (ucast (phys_addr r))) (msg + 4) 0)"

text \<open>The next index of a ring of buffers.\<close>

definition next_buf :: "nat \<Rightarrow> u32 \<Rightarrow> u32" where
  "next_buf n i = (if i + 1 = of_nat n then 0 else i + 1)"

definition fapi_alloc_send_msg :: "u32 \<Rightarrow> fapi_tx \<Rightarrow> (vaddr \<times> fapi_tx) ipc" where
  "fapi_alloc_send_msg chan st =
     (let i = fapi_tx_req_data_buf_ptr st; r = fapi_tx_req_data_bufs st ! unat i in
      if unat i \<ge> length (fapi_tx_req_data_bufs st) then Inl Array_bounds
      else if range_vaddr r = 0 then Inl Null_pointer
      else Inr (range_vaddr r,
             set_tx_mem (new_msg chan r (tx_mem st)) (st\<lparr>fapi_tx_req_data_buf_ptr := next_buf FAPI_TX_REQ_BUF_NUM i\<rparr>)))"

definition fapi_alloc_cpri_eth_msg :: "u32 \<Rightarrow> fapi_tx \<Rightarrow> (vaddr \<times> fapi_tx) ipc" where
  "fapi_alloc_cpri_eth_msg chan st =
     (let i = fapi_cpri_eth_buf_ptr st; r = fapi_cpri_eth_bufs st ! unat i in
      if unat i \<ge> length (fapi_cpri_eth_bufs st) then Inl Array_bounds
      else if range_vaddr r = 0 then Inl Null_pointer
      else Inr (range_vaddr r,
             set_tx_mem (new_msg chan r (tx_mem st)) (st\<lparr>fapi_cpri_eth_buf_ptr := next_buf FAPI_CPRI_ETH_BUF_NUM i\<rparr>)))"

text \<open>The descriptor's fourth word is not written: it keeps what the stack held.\<close>

definition ipc_send_msg :: "lock_result \<Rightarrow> vaddr \<Rightarrow> vaddr \<Rightarrow> fapi_tx \<Rightarrow> (int \<times> fapi_tx) ipc" where
  "ipc_send_msg lk sp msg st =
     (let m1 = store_be32 (tx_mem st) (msg + 8) (load_be32 (tx_mem st) (msg + 12) + 16);
          m2 = copy_word m1 sp msg;
          m3 = copy_word m2 (sp + 8) (msg + 12);
          m4 = copy_word m3 (sp + 4) (msg + 4);
          st' = set_tx_mem m4 st
      in
      if load_be32 m4 (sp + 4) = 0 then Inr (- 1, st')
      else case fsl_ipc_send_msg lk IPC_PA2SC_CH_ID sp 16 (tx_ipc st') of
        Inl e \<Rightarrow> Inl e
      | Inr (ret, s) \<Rightarrow> Inr (ret, st'\<lparr>tx_ipc := s\<rparr>))"

definition ipc_send_l1_msg :: "lock_result \<Rightarrow> vaddr \<Rightarrow> u32 \<Rightarrow> mem_range \<Rightarrow> vaddr \<Rightarrow> fapi_tx \<Rightarrow> (int \<times> fapi_tx) ipc" where
  "ipc_send_l1_msg lk sp chan r hdr st =
     (let m1 = store_be32 (tx_mem st) sp chan;
          m2 = store_be32 m1 (sp + 8) (ucast (phys_addr r));
          m3 = copy_word m2 (sp + 4) (hdr + 4)
      in case fsl_ipc_send_msg lk IPC_PA2SC_CH_ID sp 16 (tx_ipc (set_tx_mem m3 st)) of
           Inl e \<Rightarrow> Inl e
         | Inr (ret, s) \<Rightarrow> Inr (ret, st\<lparr>tx_ipc := s\<rparr>))"

text \<open>
  A request: take a buffer, fill its body, add the length, send. \<open>fill\<close> maps the body's address and
  the memory to the memory with the message built.
\<close>

definition send_request ::
  "lock_result \<Rightarrow> vaddr \<Rightarrow> u32 \<Rightarrow> (vaddr \<Rightarrow> mem \<Rightarrow> mem) \<Rightarrow> fapi_tx \<Rightarrow> (int \<times> fapi_tx) ipc" where
  "send_request lk sp chan fill st =
     (case fapi_alloc_send_msg chan st of
        Inl e \<Rightarrow> Inl e
      | Inr (msg, st1) \<Rightarrow>
          ipc_send_msg lk sp msg (set_tx_mem (set_length_from_l1 msg (fill (msg + 16) (tx_mem st1))) st1))"

section \<open>P5 requests\<close>

definition fill_header :: "u32 \<Rightarrow> u32 \<Rightarrow> vaddr \<Rightarrow> mem \<Rightarrow> mem" where
  "fill_header mid len b m = store_be32 (store_be32 m b mid) (b + 4) len"

definition fapi_p5_recv_blocking :: "block_queue \<Rightarrow> vaddr bq_outcome" where
  "fapi_p5_recv_blocking q = block_queue_pop q"

definition fapi_p7_recv_blocking :: "block_queue \<Rightarrow> vaddr bq_outcome" where
  "fapi_p7_recv_blocking q = block_queue_pop q"

text \<open>\<open>answer\<close> is what \<open>fapi_p5_recv_blocking\<close> returns once the request is sent; the second result is
  what is stored through \<open>resp\<close>, if anything.\<close>

definition fapi_p5_config_request ::
  "lock_result \<Rightarrow> vaddr \<Rightarrow> vaddr \<Rightarrow> vaddr \<Rightarrow> fapi_tx \<Rightarrow> (int \<times> vaddr option \<times> fapi_tx) ipc" where
  "fapi_p5_config_request lk sp answer config st =
     (case fapi_alloc_send_msg FAPI_CHANNEL_P5_REQ st of
        Inl e \<Rightarrow> Inl e
      | Inr (msg, st1) \<Rightarrow>
          (let m1 = memcpy (tx_mem st1) (msg + 16) config 532;
               st2 = st1\<lparr>g_fapi_cfg_req := read_bytes m1 config 532\<rparr>;
               m2 = set_length_from_l1 msg (fill_header 2 532 (msg + 16) m1)
           in case ipc_send_msg lk sp msg (set_tx_mem m2 st2) of
                Inl e \<Rightarrow> Inl e
              | Inr (ret, st3) \<Rightarrow>
                  if ret \<noteq> 0 then Inr (- 1, None, st3)
                  else Inr (if answer = 0 then 1 else ret, Some answer, st3)))"

definition fapi_p5_start_request :: "lock_result \<Rightarrow> vaddr \<Rightarrow> fapi_tx \<Rightarrow> (int \<times> fapi_tx) ipc" where
  "fapi_p5_start_request lk sp st =
     (case send_request lk sp FAPI_CHANNEL_P5_REQ (fill_header 4 16) st of
        Inl e \<Rightarrow> Inl e
      | Inr (ret, st1) \<Rightarrow>
          if ret \<noteq> 0 then Inr (- 1, st1)
          else Inr (0, st1\<lparr>tx_events := tx_events st1 @ [Cpri_eth_init, Cpri_eth_start]\<rparr>))"

definition fapi_p5_stop_request :: "lock_result \<Rightarrow> vaddr \<Rightarrow> fapi_tx \<Rightarrow> (int \<times> fapi_tx) ipc" where
  "fapi_p5_stop_request lk sp st =
     (case send_request lk sp FAPI_CHANNEL_P5_REQ (fill_header 5 16) st of
        Inl e \<Rightarrow> Inl e
      | Inr (ret, st1) \<Rightarrow> Inr (0, st1))"

definition fapi_b4860_fapi_cpri_eth_send ::
  "lock_result \<Rightarrow> vaddr \<Rightarrow> vaddr \<Rightarrow> u32 \<Rightarrow> fapi_tx \<Rightarrow> (int \<times> fapi_tx) ipc" where
  "fapi_b4860_fapi_cpri_eth_send lk sp data len st =
     (case fapi_alloc_cpri_eth_msg FAPI_CHANNEL_CPRI st of
        Inl e \<Rightarrow> Inl e
      | Inr (msg, st1) \<Rightarrow>
          (let m = store_be32 (memcpy (tx_mem st1) (msg + 16) data len) (msg + 4) (16 + len)
           in case ipc_send_msg lk sp msg (set_tx_mem m st1) of
                Inl e \<Rightarrow> Inl e
              | Inr (ret, st2) \<Rightarrow> Inr (0, st2)))"

section \<open>P7 requests\<close>

definition fill_dl_config :: "vaddr \<Rightarrow> vaddr \<Rightarrow> mem \<Rightarrow> mem" where
  "fill_dl_config req b m =
     (let m1 = store_be32 m b 0x80;
          m2 = store_be32 m1 (b + 8) (push_bit 4 (load_be32 m1 req) OR load_be32 m1 (req + 4));
          m3 = copy_word m2 (b + 20) (req + 12);
          m4 = copy_word m3 (b + 24) (req + 16);
          m5 = copy_word m4 (b + 16) (req + 8);
          m6 = copy_word m5 (b + 28) (req + 32);
          m7 = memcpy m6 (b + 36) (req + 40) (load_be32 m6 (req + 12) * 468);
          m8 = memcpy m7 (b + 36 + load_be32 m7 (req + 12) * 468) (req + 29992) (load_be32 m7 (req + 16) * 468)
      in store_be32 m8 (b + 4) (var_size 504 468 (load_be32 m8 (b + 20) + load_be32 m8 (b + 24))))"

definition fill_ul_config :: "vaddr \<Rightarrow> vaddr \<Rightarrow> mem \<Rightarrow> mem" where
  "fill_ul_config req b m =
     (let m1 = store_be32 m b 0x81;
          m2 = store_be32 m1 (b + 8) (push_bit 4 (load_be32 m1 req) OR load_be32 m1 (req + 4));
          m3 = copy_word m2 (b + 16) (req + 8);
          m4 = copy_word m3 (b + 20) (req + 12);
          m5 = copy_word m4 (b + 24) (req + 16);
          m6 = memcpy m5 (b + 28) (req + 20) (load_be32 m5 (req + 8) * 180)
      in store_be32 m6 (b + 4) (var_size 208 180 (load_be32 m6 (b + 16))))"

definition fill_hi_dci0 :: "vaddr \<Rightarrow> vaddr \<Rightarrow> mem \<Rightarrow> mem" where
  "fill_hi_dci0 req b m =
     (let m1 = store_be32 m b 0x83;
          m2 = store_be32 m1 (b + 8) (push_bit 4 (load_be32 m1 req) OR load_be32 m1 (req + 4));
          m3 = copy_word m2 (b + 16) (req + 28);
          m4 = copy_word m3 (b + 20) (req + 24);
          m5 = memcpy m4 (b + 24) (req + 85288) (load_be32 m4 (req + 28) * 224);
          m6 = memcpy m5 (b + 24 + load_be32 m5 (req + 28) * 224) (req + 99624) (load_be32 m5 (req + 24) * 224)
      in store_be32 m6 (b + 4) (var_size 248 224 (load_be32 m6 (b + 16) + load_be32 m6 (b + 20))))"

text \<open>One transport block: \<open>rp\<close> and \<open>mp\<close> are its entries in the request and in the message.\<close>

definition tx_block :: "(vaddr \<Rightarrow> u32) \<Rightarrow> vaddr \<Rightarrow> vaddr \<Rightarrow> vaddr \<Rightarrow> mem \<times> u32 \<Rightarrow> mem \<times> u32" where
  "tx_block v2p buf rp mp s =
     (let dp = snd s;
          m1 = copy_word (fst s) mp rp;
          m2 = copy_word m1 (mp + 4) (rp + 4)
      in
      if load_be32 m2 rp \<noteq> 0 then
        (let m3 = memcpy m2 (buf + dp) (load_be32 m2 (rp + 8)) (load_be32 m2 (rp + 4));
             m4 = store_be32 m3 (mp + 8) (v2p (buf + dp))
         in (m4, dp + ((load_be32 m4 (rp + 4) + 7) AND 0xFFFFFFF8)))
      else (copy_word m2 (mp + 8) (rp + 8), dp))"

function tx_blocks :: "(vaddr \<Rightarrow> u32) \<Rightarrow> vaddr \<Rightarrow> vaddr \<Rightarrow> vaddr \<Rightarrow> nat \<Rightarrow> mem \<times> u32 \<Rightarrow> mem \<times> u32" where
  "tx_blocks v2p buf rp mp j s =
     (if j < unat (load_be32 (fst s) (rp + 8))
      then tx_blocks v2p buf rp mp (Suc j)
             (tx_block v2p buf (rp + 12 + 12 * of_nat j) (mp + 12 + 12 * of_nat j) s)
      else s)"
  by auto
termination
proof (relation "measure (\<lambda>(v2p, buf, rp, mp, j, s). 2 ^ 32 - j)", goal_cases)
  case (2 v2p buf rp mp j s)
  then have "j < 2 ^ 32" using unat_less_exp [of "load_be32 (fst s) (rp + 8)"] by simp
  then show ?case by simp
qed simp

definition tx_pdu :: "(vaddr \<Rightarrow> u32) \<Rightarrow> vaddr \<Rightarrow> vaddr \<Rightarrow> vaddr \<Rightarrow> mem \<times> u32 \<Rightarrow> mem \<times> u32" where
  "tx_pdu v2p buf rp mp s =
     (let m1 = copy_word (fst s) (mp + 8) (rp + 8);
          m2 = copy_word m1 (mp + 4) (rp + 4);
          m3 = copy_word m2 mp rp
      in tx_blocks v2p buf rp mp 0 (m3, snd s))"

function tx_pdus :: "(vaddr \<Rightarrow> u32) \<Rightarrow> vaddr \<Rightarrow> vaddr \<Rightarrow> vaddr \<Rightarrow> nat \<Rightarrow> mem \<times> u32 \<Rightarrow> mem \<times> u32" where
  "tx_pdus v2p buf req b i s =
     (if i < unat (load_be32 (fst s) (req + 20))
      then tx_pdus v2p buf req b (Suc i)
             (tx_pdu v2p buf (req + 59944 + 396 * of_nat i) (b + 16 + 396 * of_nat i) s)
      else s)"
  by auto
termination
proof (relation "measure (\<lambda>(v2p, buf, req, b, i, s). 2 ^ 32 - i)", goal_cases)
  case (2 v2p buf req b i s)
  then have "i < 2 ^ 32" using unat_less_exp [of "load_be32 (fst s) (req + 20)"] by simp
  then show ?case by simp
qed simp

declare tx_blocks.simps [simp del] tx_pdus.simps [simp del]

definition fill_tx :: "(vaddr \<Rightarrow> u32) \<Rightarrow> vaddr \<Rightarrow> vaddr \<Rightarrow> mem \<Rightarrow> mem" where
  "fill_tx v2p req b m =
     (let m1 = store_be32 m b 0x84;
          m2 = store_be32 m1 (b + 8) (push_bit 4 (load_be32 m1 req) OR load_be32 m1 (req + 4));
          m3 = copy_word m2 (b + 12) (req + 20);
          len = (var_size 412 396 (load_be32 m3 (b + 12)) + 63) AND 0xFFFFFFC0;
          (m4, dp) = tx_pdus v2p (b + len) req b 0 (m3, 0)
      in store_be32 m4 (b + 4) (len + dp))"

definition quiet :: "(int \<times> fapi_tx) ipc \<Rightarrow> (int \<times> fapi_tx) ipc" where
  "quiet r = (case r of Inl e \<Rightarrow> Inl e | Inr (ret, st) \<Rightarrow> Inr (0, st))"

definition fapi_p7_dl_config_request :: "lock_result \<Rightarrow> vaddr \<Rightarrow> vaddr \<Rightarrow> fapi_tx \<Rightarrow> (int \<times> fapi_tx) ipc" where
  "fapi_p7_dl_config_request lk sp req st = quiet (send_request lk sp FAPI_CHANNEL_P7_REQ (fill_dl_config req) st)"

definition fapi_p7_ul_config_request :: "lock_result \<Rightarrow> vaddr \<Rightarrow> vaddr \<Rightarrow> fapi_tx \<Rightarrow> (int \<times> fapi_tx) ipc" where
  "fapi_p7_ul_config_request lk sp req st = quiet (send_request lk sp FAPI_CHANNEL_P7_REQ (fill_ul_config req) st)"

definition fapi_p7_hi_dci0_request :: "lock_result \<Rightarrow> vaddr \<Rightarrow> vaddr \<Rightarrow> fapi_tx \<Rightarrow> (int \<times> fapi_tx) ipc" where
  "fapi_p7_hi_dci0_request lk sp req st = quiet (send_request lk sp FAPI_CHANNEL_P7_REQ (fill_hi_dci0 req) st)"

definition fapi_p7_tx_request :: "lock_result \<Rightarrow> vaddr \<Rightarrow> vaddr \<Rightarrow> fapi_tx \<Rightarrow> (int \<times> fapi_tx) ipc" where
  "fapi_p7_tx_request lk sp req st = quiet (send_request lk sp FAPI_CHANNEL_P7_REQ (fill_tx (ipc_v2p st) req) st)"

end
