(* ===== verification/FAPI_Build.thy ===== *)
theory FAPI_Build
  imports FAPI_Send
begin

text \<open>
  Reasoning about messages built in a buffer: writes that stay within the buffer, what they leave
  of the request they are copied from, and the bytes of the finished message.
\<close>

section \<open>Writes within a buffer\<close>

definition within :: "vaddr \<Rightarrow> u32 \<Rightarrow> mem \<Rightarrow> mem \<Rightarrow> bool" where
  "within b K m m' \<longleftrightarrow> same_on (- span b K) m m'"

lemma span_sub:
  assumes "unat x + unat n \<le> unat K"
  shows "span (b + x) n \<subseteq> span b K"
proof
  fix z assume "z \<in> span (b + x) n"
  then have "unat (z - b - x) < unat n" by (simp add: span_def word_less_nat_alt diff_diff_eq)
  moreover have "unat K < 2 ^ 32" by (rule order_less_le_trans [OF unat_less_exp]) simp
  ultimately have "unat (z - b - x + x) = unat (z - b - x) + unat x"
    using assms by (simp only: unat_word_ariths(1)) simp
  then show "z \<in> span b K"
    using \<open>unat (z - b - x) < unat n\<close> assms by (simp add: span_def word_less_nat_alt)
qed

lemma span_words_disjoint:
  assumes "unat x + unat n \<le> unat y" "unat y + unat k \<le> 2 ^ 32"
  shows "span (b + x) n \<inter> span (b + y) k = {}" "span (b + y) k \<inter> span (b + x) n = {}"
  using span_offsets_disjoint [OF assms, of b] by (simp_all add: Int_commute)

lemma within_refl [simp]: "within b K m m"
  by (simp add: within_def)

lemma within_trans: "within b K m m' \<Longrightarrow> within b K m' m'' \<Longrightarrow> within b K m m''"
  unfolding within_def by (rule same_on_trans)

lemma within_store:
  assumes "within b K m m'" "unat x + 4 \<le> unat K"
  shows "within b K m (store_be32 m' (b + x) w)"
  using assms(1) span_sub [of x 4 K b] assms(2)
  by (auto simp: within_def intro!: same_on_trans [OF _ store_same_on])

lemma within_memcpy:
  assumes "within b K m m'" "unat x + unat n \<le> unat K"
  shows "within b K m (memcpy m' (b + x) s n)"
  using assms(1) span_sub [OF assms(2), of b]
  by (auto simp: within_def intro!: same_on_trans [OF _ memcpy_same_on])

lemma within_copy:
  assumes "within b K m m'" "unat x + 4 \<le> unat K"
  shows "within b K m (copy_word m' (b + x) a)"
  unfolding copy_word_def by (rule within_store [OF assms])

lemma same_outside:
  assumes "within b K m m'" "S \<inter> span b K = {}"
  shows "same_on S m m'"
  using assms by (auto simp: within_def elim: same_on_subset)

lemma load_outside:
  assumes "within b K m m'" "span req N \<inter> span b K = {}" "unat x + 4 \<le> unat N"
  shows "load_be32 m' (req + x) = load_be32 m (req + x)"
  using assms span_sub [of x 4 N req] by (intro load_same_on same_outside [OF assms(1)]) auto

section \<open>Byte strings in memory\<close>

lemma be32_of_be32 [simp]: "be32 (of_be32 a b c d) = [a, b, c, d]"
  unfolding be32_def of_be32_def
  by (simp, intro conjI; rule bit_word_eqI) (auto simp: bit_simps dest: bit_imp_le_length)

lemma length_read_bytes [simp]: "length (read_bytes m a n) = n"
  by (simp add: read_bytes_def)

lemma read_bytes_add: "read_bytes m a (x + y) = read_bytes m a x @ read_bytes m (a + of_nat x) y"
proof (rule nth_equalityI, goal_cases)
  case (2 i)
  then have "i < x \<or> i - x < y" by auto
  then show ?case
    using 2 by (cases "i < x") (simp_all add: read_bytes_def nth_append add.assoc flip: of_nat_add)
qed simp

lemma read_bytes_word: "read_bytes m a 4 = be32 (load_be32 m a)"
  by (simp add: read_bytes_def load_be32_def upt_rec)

lemma read_bytes_same_on:
  assumes "same_on (span a n) m m'" "k \<le> unat n"
  shows "read_bytes m' a k = read_bytes m a k"
  using assms of_nat_less_word [of _ n] by (auto simp: read_bytes_def same_on_def)

section \<open>Buffer arithmetic\<close>

lemma within_store_start: "within b K m m' \<Longrightarrow> 4 \<le> unat K \<Longrightarrow> within b K m (store_be32 m' b w)"
  using within_store [of b K m m' 0 w] by simp

lemmas within_rules = within_refl within_store_start within_store within_copy within_memcpy

lemma load_outside_start:
  assumes "within b K m m'" "span req N \<inter> span b K = {}" "4 \<le> unat N"
  shows "load_be32 m' req = load_be32 m req"
  using load_outside [OF assms(1,2), of 0] assms(3) by simp

lemma load_store_apart:
  assumes "4 \<le> y - x" "4 \<le> x - y"
  shows "load_be32 (store_be32 m x w) y = load_be32 m y"
  using span_disjointI [OF assms] by (intro load_same_on store_same_on) blast

lemma load_memcpy_after:
  assumes "unat y + 4 \<le> unat x" "unat x + unat n \<le> 2 ^ 32"
  shows "load_be32 (memcpy m (b + x) s n) (b + y) = load_be32 m (b + y)"
  using span_words_disjoint(1) [of y 4 x n b] assms by (intro load_same_on memcpy_same_on) simp

lemma unat_times:
  fixes n k :: u32
  assumes "unat n \<le> 64" "unat k \<le> 1024"
  shows "unat (n * k) = unat n * unat k"
proof -
  have "unat n * unat k \<le> 64 * 1024" using assms by (intro mult_le_mono) simp_all
  then show ?thesis by (simp add: unat_word_ariths)
qed

lemma load_memcpy_after_start:
  assumes "4 \<le> unat x" "unat x + unat n \<le> 2 ^ 32"
  shows "load_be32 (memcpy m (b + x) s n) b = load_be32 m b"
  using load_memcpy_after [of 0 x n m b s] assms by simp

lemma read_words: "read_bytes m a (4 + n) = be32 (load_be32 m a) @ read_bytes m (a + 4) n"
  by (simp add: read_bytes_add read_bytes_word)

section \<open>A header and two lists\<close>

lemma memcpy_0 [simp]: "memcpy m d a 0 = m"
  by (simp add: memcpy_def fun_eq_iff)

text \<open>
  The shape of the configuration messages: a header \<open>m0\<close>, two lists copied from the request behind it,
  the length stored last.
\<close>

definition first_list :: "mem \<Rightarrow> vaddr \<Rightarrow> vaddr \<Rightarrow> u32 \<Rightarrow> u32 \<Rightarrow> u32 \<Rightarrow> u32 \<Rightarrow> mem" where
  "first_list m0 req b h e o1 n1 = memcpy m0 (b + h) (req + o1) (n1 * e)"

definition two_lists :: "mem \<Rightarrow> vaddr \<Rightarrow> vaddr \<Rightarrow> u32 \<Rightarrow> u32 \<Rightarrow> u32 \<Rightarrow> u32 \<Rightarrow> u32 \<Rightarrow> u32 \<Rightarrow> mem" where
  "two_lists m0 req b h e o1 n1 o2 n2 = memcpy (first_list m0 req b h e o1 n1) (b + h + n1 * e) (req + o2) (n2 * e)"

definition list_message :: "mem \<Rightarrow> vaddr \<Rightarrow> vaddr \<Rightarrow> u32 \<Rightarrow> u32 \<Rightarrow> u32 \<Rightarrow> u32 \<Rightarrow> u32 \<Rightarrow> u32 \<Rightarrow> u32 \<Rightarrow> mem" where
  "list_message m0 req b h e o1 n1 o2 n2 len = store_be32 (two_lists m0 req b h e o1 n1 o2 n2) (b + 4) len"

definition list_sound :: "mem \<Rightarrow> mem \<Rightarrow> vaddr \<Rightarrow> u32 \<Rightarrow> vaddr \<Rightarrow> u32 \<Rightarrow> u32 \<Rightarrow> u32 \<Rightarrow> u32 \<Rightarrow> u32 \<Rightarrow> u32 \<Rightarrow> bool" where
  "list_sound m m0 req N b h e o1 n1 o2 n2 \<longleftrightarrow>
     within b 65520 m m0 \<and> span req N \<inter> span b 65520 = {} \<and> unat n1 \<le> 64 \<and> unat n2 \<le> 64 \<and> unat e \<le> 1024 \<and>
     8 \<le> unat h \<and> unat h + unat n1 * unat e + unat n2 * unat e \<le> 65520 \<and>
     unat o1 + unat n1 * unat e \<le> unat N \<and> unat o2 + unat n2 * unat e \<le> unat N"

lemma list_soundD:
  assumes "list_sound m m0 req N b h e o1 n1 o2 n2"
  shows "unat (n1 * e) = unat n1 * unat e" "unat (n2 * e) = unat n2 * unat e"
    "unat (h + n1 * e) = unat h + unat n1 * unat e"
    "unat (n1 * e + n2 * e) = unat n1 * unat e + unat n2 * unat e"
    "8 \<le> unat h" "unat h + unat n1 * unat e + unat n2 * unat e \<le> 65520"
proof -
  show "8 \<le> unat h" and f: "unat h + unat n1 * unat e + unat n2 * unat e \<le> 65520"
    using assms by (simp_all add: list_sound_def)
  show u: "unat (n1 * e) = unat n1 * unat e" "unat (n2 * e) = unat n2 * unat e"
    using assms by (simp_all add: list_sound_def unat_times)
  show "unat (h + n1 * e) = unat h + unat n1 * unat e"
    "unat (n1 * e + n2 * e) = unat n1 * unat e + unat n2 * unat e"
    unfolding unat_word_ariths(1) u using f by simp_all
qed

lemma list_message_within:
  assumes "list_sound m m0 req N b h e o1 n1 o2 n2"
  shows "within b 65520 m (first_list m0 req b h e o1 n1)" "within b 65520 m (list_message m0 req b h e o1 n1 o2 n2 len)"
proof -
  note D = list_soundD [OF assms]
  show f: "within b 65520 m (first_list m0 req b h e o1 n1)"
    unfolding first_list_def by (rule within_memcpy) (use assms D in \<open>simp_all add: list_sound_def\<close>)
  have "within b 65520 m (two_lists m0 req b h e o1 n1 o2 n2)"
    unfolding two_lists_def add.assoc by (rule within_memcpy [OF f]) (use D in simp)
  then show "within b 65520 m (list_message m0 req b h e o1 n1 o2 n2 len)"
    unfolding list_message_def by (rule within_store) simp
qed

lemma list_message_header:
  assumes "list_sound m m0 req N b h e o1 n1 o2 n2" "unat x + 4 \<le> unat h"
  shows "load_be32 (two_lists m0 req b h e o1 n1 o2 n2) (b + x) = load_be32 m0 (b + x)"
    "4 \<le> 4 - x \<Longrightarrow> 4 \<le> x - 4 \<Longrightarrow> load_be32 (list_message m0 req b h e o1 n1 o2 n2 len) (b + x) = load_be32 m0 (b + x)"
proof -
  note D = list_soundD [OF assms(1)]
  have 1: "load_be32 (memcpy m' (b + h) s (n1 * e)) (b + x) = load_be32 m' (b + x)" for m' s
    by (rule load_memcpy_after) (use assms(2) D in simp_all)
  have 2: "load_be32 (memcpy m' (b + (h + n1 * e)) s (n2 * e)) (b + x) = load_be32 m' (b + x)" for m' s
    by (rule load_memcpy_after) (use assms(2) D in simp_all)
  show r: "load_be32 (two_lists m0 req b h e o1 n1 o2 n2) (b + x) = load_be32 m0 (b + x)"
    unfolding two_lists_def first_list_def add.assoc 1 2 ..
  show "load_be32 (list_message m0 req b h e o1 n1 o2 n2 len) (b + x) = load_be32 m0 (b + x)"
    if "4 \<le> 4 - x" "4 \<le> x - 4"
    unfolding list_message_def r [symmetric] by (rule load_store_apart) (use that in simp_all)
qed

lemma list_message_length: "load_be32 (list_message m0 req b h e o1 n1 o2 n2 len) (b + 4) = len"
  by (simp add: list_message_def)

lemma list_sources:
  assumes "list_sound m m0 req N b h e o1 n1 o2 n2"
  shows "read_bytes m0 (req + o1) (unat n1 * unat e) = read_bytes m (req + o1) (unat n1 * unat e)"
    "read_bytes (first_list m0 req b h e o1 n1) (req + o2) (unat n2 * unat e) = read_bytes m (req + o2) (unat n2 * unat e)"
proof -
  note D = list_soundD [OF assms]
  have s: "span (req + o1) (n1 * e) \<inter> span b 65520 = {}" "span (req + o2) (n2 * e) \<inter> span b 65520 = {}"
    using assms span_sub [of o1 "n1 * e" N req] span_sub [of o2 "n2 * e" N req] D by (auto simp: list_sound_def)
  have "within b 65520 m m0" using assms by (simp add: list_sound_def)
  from read_bytes_same_on [OF same_outside [OF this s(1)]]
  show "read_bytes m0 (req + o1) (unat n1 * unat e) = read_bytes m (req + o1) (unat n1 * unat e)" using D by simp
  from read_bytes_same_on [OF same_outside [OF list_message_within(1) [OF assms] s(2)]]
  show "read_bytes (first_list m0 req b h e o1 n1) (req + o2) (unat n2 * unat e) = read_bytes m (req + o2) (unat n2 * unat e)"
    using D by simp
qed

lemma list_message_lists:
  assumes "list_sound m m0 req N b h e o1 n1 o2 n2"
  shows "read_bytes (list_message m0 req b h e o1 n1 o2 n2 len) (b + h) (unat n1 * unat e + unat n2 * unat e) =
     read_bytes m (req + o1) (unat n1 * unat e) @ read_bytes m (req + o2) (unat n2 * unat e)"
proof -
  note D = list_soundD [OF assms] and S = list_sources [OF assms]
  let ?m1 = "first_list m0 req b h e o1 n1" let ?m2 = "two_lists m0 req b h e o1 n1 o2 n2"
  have d2: "read_bytes ?m2 (b + h + n1 * e) (unat n2 * unat e) = read_bytes m (req + o2) (unat n2 * unat e)"
    using read_bytes_copied [of ?m1 "b + h + n1 * e" "req + o2" "n2 * e"] S(2) D(2) by (simp add: two_lists_def)
  have "span (b + h) (n1 * e) \<inter> span (b + h + n1 * e) (n2 * e) = {}"
    using span_words_disjoint(1) [of h "n1 * e" "h + n1 * e" "n2 * e" b] D by (simp add: add.assoc)
  then have "read_bytes ?m2 (b + h) (unat n1 * unat e) = read_bytes ?m1 (b + h) (unat n1 * unat e)"
    unfolding two_lists_def by (intro read_bytes_same_on [of _ "n1 * e"] memcpy_same_on) (simp_all add: D)
  then have d1: "read_bytes ?m2 (b + h) (unat n1 * unat e) = read_bytes m (req + o1) (unat n1 * unat e)"
    using read_bytes_copied [of m0 "b + h" "req + o1" "n1 * e"] S(1) D(1) by (simp add: first_list_def)
  have "span (b + h) (n1 * e + n2 * e) \<inter> span (b + 4) 4 = {}"
    by (rule span_words_disjoint(2)) (use D in simp_all)
  then have "read_bytes (list_message m0 req b h e o1 n1 o2 n2 len) (b + h) (unat n1 * unat e + unat n2 * unat e) =
      read_bytes ?m2 (b + h) (unat n1 * unat e + unat n2 * unat e)"
    unfolding list_message_def by (intro read_bytes_same_on [of _ "n1 * e + n2 * e"] store_same_on) (simp_all add: D)
  then show ?thesis using d1 d2 D(1) by (simp add: read_bytes_add)
qed

section \<open>The downlink configuration\<close>

lemma dl_config_built:
  assumes req: "span req 113960 \<inter> span b 65520 = {}"
    and nd: "nd = load_be32 m (req + 12)" "unat nd \<le> 64" and np: "np = load_be32 m (req + 16)" "unat np \<le> 64"
  defines "m0 \<equiv> store_be32 (store_be32 (store_be32 (store_be32 (store_be32 (store_be32 m b 0x80)
      (b + 8) (push_bit 4 (load_be32 m req) OR load_be32 m (req + 4))) (b + 20) nd) (b + 24) np)
      (b + 16) (load_be32 m (req + 8))) (b + 28) (load_be32 m (req + 32))"
  shows "list_sound m m0 req 113960 b 36 468 40 nd 29992 np"
    "fill_dl_config req b m = list_message m0 req b 36 468 40 nd 29992 np (var_size 504 468 (nd + np))"
proof -
  let ?a1 = "store_be32 m b 0x80"
  let ?a2 = "store_be32 ?a1 (b + 8) (push_bit 4 (load_be32 m req) OR load_be32 m (req + 4))"
  let ?a3 = "store_be32 ?a2 (b + 20) nd"
  let ?a4 = "store_be32 ?a3 (b + 24) np"
  let ?a5 = "store_be32 ?a4 (b + 16) (load_be32 m (req + 8))"
  have w1: "within b 65520 m ?a1" by (intro within_store_start) simp_all
  have w2: "within b 65520 m ?a2" by (intro within_store w1) simp
  have w3: "within b 65520 m ?a3" by (intro within_store w2) simp
  have w4: "within b 65520 m ?a4" by (intro within_store w3) simp
  have w5: "within b 65520 m ?a5" by (intro within_store w4) simp
  have W: "within b 65520 m m0" unfolding m0_def by (intro within_store w5) simp
  show S: "list_sound m m0 req 113960 b 36 468 40 nd 29992 np"
    using W req nd(2) np(2) by (simp add: list_sound_def)
  note W1 = list_message_within(1) [OF S] and L = load_outside [OF _ req]
  have r: "load_be32 ?a1 req = load_be32 m req" "load_be32 ?a1 (req + 4) = load_be32 m (req + 4)"
    "load_be32 ?a2 (req + 12) = nd" "load_be32 ?a3 (req + 16) = np"
    "load_be32 ?a4 (req + 8) = load_be32 m (req + 8)" "load_be32 ?a5 (req + 32) = load_be32 m (req + 32)"
    "load_be32 m0 (req + 12) = nd"
    "load_be32 (first_list m0 req b 36 468 40 nd) (req + 12) = nd" "load_be32 (first_list m0 req b 36 468 40 nd) (req + 16) = np"
    using load_outside_start [OF w1 req] L [OF w1, of 4] L [OF w2, of 12] L [OF w3, of 16] L [OF w4, of 8] L [OF w5, of 32]
      L [OF W, of 12] L [OF W1, of 12] L [OF W1, of 16] nd(1) np(1) by simp_all
  have h: "load_be32 (two_lists m0 req b 36 468 40 nd 29992 np) (b + 20) = nd"
    "load_be32 (two_lists m0 req b 36 468 40 nd 29992 np) (b + 24) = np"
    using list_message_header(1) [OF S, of 20] list_message_header(1) [OF S, of 24]
    by (simp_all add: m0_def load_store_apart)
  show "fill_dl_config req b m = list_message m0 req b 36 468 40 nd 29992 np (var_size 504 468 (nd + np))"
    unfolding fill_dl_config_def Let_def copy_word_def r [unfolded first_list_def] m0_def [symmetric]
      h [unfolded two_lists_def first_list_def] list_message_def two_lists_def first_list_def ..
qed

text \<open>
  The message as a string of bytes: the header and the counts, the downlink control PDUs, the other
  PDUs. The words at 12 and 32 are not written and hold what the buffer held before.
\<close>

definition dl_config_bytes :: "mem \<Rightarrow> vaddr \<Rightarrow> vaddr \<Rightarrow> u8 list" where
  "dl_config_bytes m req b =
     (let nd = load_be32 m (req + 12); np = load_be32 m (req + 16) in
      be32 0x80 @ be32 (var_size 504 468 (nd + np)) @
      be32 (push_bit 4 (load_be32 m req) OR load_be32 m (req + 4)) @ be32 (load_be32 m (b + 12)) @
      be32 (load_be32 m (req + 8)) @ be32 nd @ be32 np @ be32 (load_be32 m (req + 32)) @ be32 (load_be32 m (b + 32)) @
      read_bytes m (req + 40) (unat nd * 468) @ read_bytes m (req + 29992) (unat np * 468))"

lemma dl_config_message:
  assumes req: "span req 113960 \<inter> span b 65520 = {}"
    and nd: "nd = load_be32 m (req + 12)" "unat nd \<le> 64" and np: "np = load_be32 m (req + 16)" "unat np \<le> 64"
  defines "M \<equiv> fill_dl_config req b m"
  shows "load_be32 M (b + 4) = var_size 504 468 (nd + np)" "within b 65520 m M"
    "read_bytes M b (36 + (unat nd * 468 + unat np * 468)) = dl_config_bytes m req b"
proof -
  define m0 where "m0 = store_be32 (store_be32 (store_be32 (store_be32 (store_be32 (store_be32 m b 0x80)
      (b + 8) (push_bit 4 (load_be32 m req) OR load_be32 m (req + 4))) (b + 20) nd) (b + 24) np)
      (b + 16) (load_be32 m (req + 8))) (b + 28) (load_be32 m (req + 32))"
  note S = dl_config_built(1) [OF req nd np, folded m0_def]
  have M: "M = list_message m0 req b 36 468 40 nd 29992 np (var_size 504 468 (nd + np))"
    unfolding M_def m0_def by (rule dl_config_built(2) [OF req nd np])
  show len: "load_be32 M (b + 4) = var_size 504 468 (nd + np)" and "within b 65520 m M"
    unfolding M by (rule list_message_length list_message_within(2) [OF S])+
  note H = list_message_header(2) [OF S, where len = "var_size 504 468 (nd + np)", folded M]
  have "load_be32 M b = 0x80"
    "load_be32 M (b + 8) = push_bit 4 (load_be32 m req) OR load_be32 m (req + 4)"
    "load_be32 M (b + 12) = load_be32 m (b + 12)" "load_be32 M (b + 16) = load_be32 m (req + 8)"
    "load_be32 M (b + 20) = nd" "load_be32 M (b + 24) = np" "load_be32 M (b + 28) = load_be32 m (req + 32)"
    "load_be32 M (b + 32) = load_be32 m (b + 32)"
    using H [of 0] H [of 8] H [of 12] H [of 16] H [of 20] H [of 24] H [of 28] H [of 32]
    by (simp_all add: m0_def load_store_apart)
  moreover have "36 + (unat nd * 468 + unat np * 468) =
      4 + (4 + (4 + (4 + (4 + (4 + (4 + (4 + (4 + (unat nd * 468 + unat np * 468)))))))))" by simp
  ultimately show "read_bytes M b (36 + (unat nd * 468 + unat np * 468)) = dl_config_bytes m req b"
    using len list_message_lists [OF S, where len = "var_size 504 468 (nd + np)", folded M]
    by (simp only: read_words) (simp add: add.assoc dl_config_bytes_def Let_def flip: nd(1) np(1))
qed

section \<open>The uplink configuration and the HI/DCI0 request\<close>

lemma ul_config_built:
  assumes req: "span req 11540 \<inter> span b 65520 = {}" and n: "n = load_be32 m (req + 8)" "unat n \<le> 64"
  defines "m0 \<equiv> store_be32 (store_be32 (store_be32 (store_be32 (store_be32 m b 0x81)
      (b + 8) (push_bit 4 (load_be32 m req) OR load_be32 m (req + 4))) (b + 16) n) (b + 20) (load_be32 m (req + 12)))
      (b + 24) (load_be32 m (req + 16))"
  shows "list_sound m m0 req 11540 b 28 180 20 n 0 0"
    "fill_ul_config req b m = list_message m0 req b 28 180 20 n 0 0 (var_size 208 180 n)"
proof -
  let ?a1 = "store_be32 m b 0x81"
  let ?a2 = "store_be32 ?a1 (b + 8) (push_bit 4 (load_be32 m req) OR load_be32 m (req + 4))"
  let ?a3 = "store_be32 ?a2 (b + 16) n"
  let ?a4 = "store_be32 ?a3 (b + 20) (load_be32 m (req + 12))"
  have w1: "within b 65520 m ?a1" by (intro within_store_start) simp_all
  have w2: "within b 65520 m ?a2" by (intro within_store w1) simp
  have w3: "within b 65520 m ?a3" by (intro within_store w2) simp
  have w4: "within b 65520 m ?a4" by (intro within_store w3) simp
  have W: "within b 65520 m m0" unfolding m0_def by (intro within_store w4) simp
  show S: "list_sound m m0 req 11540 b 28 180 20 n 0 0" using W req n(2) by (simp add: list_sound_def)
  note L = load_outside [OF _ req]
  have r: "load_be32 ?a1 req = load_be32 m req" "load_be32 ?a1 (req + 4) = load_be32 m (req + 4)"
    "load_be32 ?a2 (req + 8) = n" "load_be32 ?a3 (req + 12) = load_be32 m (req + 12)"
    "load_be32 ?a4 (req + 16) = load_be32 m (req + 16)" "load_be32 m0 (req + 8) = n"
    using load_outside_start [OF w1 req] L [OF w1, of 4] L [OF w2, of 8] L [OF w3, of 12] L [OF w4, of 16] L [OF W, of 8] n(1)
    by simp_all
  have h: "load_be32 (two_lists m0 req b 28 180 20 n 0 0) (b + 16) = n"
    using list_message_header(1) [OF S, of 16] by (simp add: m0_def load_store_apart)
  show "fill_ul_config req b m = list_message m0 req b 28 180 20 n 0 0 (var_size 208 180 n)"
    unfolding fill_ul_config_def Let_def copy_word_def r m0_def [symmetric]
      h [unfolded two_lists_def first_list_def mult_zero_left memcpy_0]
      list_message_def two_lists_def first_list_def mult_zero_left memcpy_0 ..
qed

lemma hi_dci0_built:
  assumes req: "span req 113960 \<inter> span b 65520 = {}"
    and nd: "nd = load_be32 m (req + 28)" "unat nd \<le> 64" and nh: "nh = load_be32 m (req + 24)" "unat nh \<le> 64"
  defines "m0 \<equiv> store_be32 (store_be32 (store_be32 (store_be32 m b 0x83)
      (b + 8) (push_bit 4 (load_be32 m req) OR load_be32 m (req + 4))) (b + 16) nd) (b + 20) nh"
  shows "list_sound m m0 req 113960 b 24 224 85288 nd 99624 nh"
    "fill_hi_dci0 req b m = list_message m0 req b 24 224 85288 nd 99624 nh (var_size 248 224 (nd + nh))"
proof -
  let ?a1 = "store_be32 m b 0x83"
  let ?a2 = "store_be32 ?a1 (b + 8) (push_bit 4 (load_be32 m req) OR load_be32 m (req + 4))"
  let ?a3 = "store_be32 ?a2 (b + 16) nd"
  have w1: "within b 65520 m ?a1" by (intro within_store_start) simp_all
  have w2: "within b 65520 m ?a2" by (intro within_store w1) simp
  have w3: "within b 65520 m ?a3" by (intro within_store w2) simp
  have W: "within b 65520 m m0" unfolding m0_def by (intro within_store w3) simp
  show S: "list_sound m m0 req 113960 b 24 224 85288 nd 99624 nh"
    using W req nd(2) nh(2) by (simp add: list_sound_def)
  note W1 = list_message_within(1) [OF S] and L = load_outside [OF _ req]
  have r: "load_be32 ?a1 req = load_be32 m req" "load_be32 ?a1 (req + 4) = load_be32 m (req + 4)"
    "load_be32 ?a2 (req + 28) = nd" "load_be32 ?a3 (req + 24) = nh" "load_be32 m0 (req + 28) = nd"
    "load_be32 (first_list m0 req b 24 224 85288 nd) (req + 28) = nd"
    "load_be32 (first_list m0 req b 24 224 85288 nd) (req + 24) = nh"
    using load_outside_start [OF w1 req] L [OF w1, of 4] L [OF w2, of 28] L [OF w3, of 24] L [OF W, of 28]
      L [OF W1, of 28] L [OF W1, of 24] nd(1) nh(1) by simp_all
  have h: "load_be32 (two_lists m0 req b 24 224 85288 nd 99624 nh) (b + 16) = nd"
    "load_be32 (two_lists m0 req b 24 224 85288 nd 99624 nh) (b + 20) = nh"
    using list_message_header(1) [OF S, of 16] list_message_header(1) [OF S, of 20]
    by (simp_all add: m0_def load_store_apart)
  show "fill_hi_dci0 req b m = list_message m0 req b 24 224 85288 nd 99624 nh (var_size 248 224 (nd + nh))"
    unfolding fill_hi_dci0_def Let_def copy_word_def r [unfolded first_list_def] m0_def [symmetric]
      h [unfolded two_lists_def first_list_def] list_message_def two_lists_def first_list_def ..
qed

lemma unat_var_size:
  assumes "unat n \<le> 128" "unat whole \<le> 1024" "unat e \<le> 512"
  shows "unat (var_size whole e n) = (if n = 0 then unat whole else unat whole + unat e * (unat n - 1))"
proof (cases "n = 0")
  case False
  have "unat e * (unat n - 1) \<le> 512 * 128" using assms by (intro mult_le_mono) simp_all
  then show ?thesis
    using False assms by (simp add: var_size_def word_gt_0 unat_word_ariths unat_pred_word)
qed (simp add: var_size_def)

lemma var_size_le:
  assumes "unat n \<le> 128" "unat whole \<le> 1024" "unat e \<le> 512"
  shows "unat (var_size whole e n) \<le> unat whole + unat e * 127"
proof -
  have "unat e * (unat n - 1) \<le> unat e * 127" using assms(1) by (intro mult_le_mono) simp_all
  then show ?thesis using unat_var_size [OF assms] by (simp split: if_splits)
qed

end
