(* ===== verification/FAPI_Tx_Props.thy ===== *)
theory FAPI_Tx_Props
  imports FAPI_Build
begin

text \<open>
  What the senders of the FAPI library guarantee: the message channel to the DSP gets one descriptor
  per request, which points at a buffer with the message in it.
\<close>

section \<open>Sending a descriptor\<close>

definition tx_wf :: "fapi_tx \<Rightarrow> bool" where
  "tx_wf st \<longleftrightarrow>
     msg_wf IPC_PA2SC_CH_ID (tx_ipc st) \<and> 16 \<le> max_msg_size (chan_of IPC_PA2SC_CH_ID (tx_ipc st)) \<and>
     length (fapi_tx_req_data_bufs st) = FAPI_TX_REQ_BUF_NUM \<and> unat (fapi_tx_req_data_buf_ptr st) < FAPI_TX_REQ_BUF_NUM \<and>
     (\<forall>r \<in> set (fapi_tx_req_data_bufs st). range_vaddr r \<noteq> 0)"

definition cur_buf :: "fapi_tx \<Rightarrow> mem_range" where
  "cur_buf st = fapi_tx_req_data_bufs st ! unat (fapi_tx_req_data_buf_ptr st)"

definition ring_mem :: "u32 \<Rightarrow> ipc_state \<Rightarrow> vaddr set" where
  "ring_mem c s = (\<Union>i < unat (bd_ring_size (chan_of c s)). span (ring_buf c s i) (max_msg_size (chan_of c s)))"

text \<open>The buffer about to be used, the stack and the channel's own buffers do not overlap.\<close>

definition tx_regions :: "vaddr \<Rightarrow> fapi_tx \<Rightarrow> bool" where
  "tx_regions sp st \<longleftrightarrow>
     span (range_vaddr (cur_buf st)) 65536 \<inter> span sp 16 = {} \<and>
     ring_mem IPC_PA2SC_CH_ID (tx_ipc st) \<inter> (span (range_vaddr (cur_buf st)) 65536 \<union> span sp 16) = {}"

lemma set_bytes_msg [simp]:
  "msg_wf c (s\<lparr>bytes := m\<rparr>) = msg_wf c s" "chan_of c (s\<lparr>bytes := m\<rparr>) = chan_of c s"
  "ring_buf c (s\<lparr>bytes := m\<rparr>) i = ring_buf c s i"
proof -
  show ch: "chan_of c (s\<lparr>bytes := m\<rparr>) = chan_of c s" by (simp add: chan_of_def)
  have rb: "ring_bds (s\<lparr>bytes := m\<rparr>) ch = ring_bds s ch" "ch_contents (s\<lparr>bytes := m\<rparr>) ch = ch_contents s ch" for ch
    by (simp_all add: ch_contents_def ring_bds_def bd_at_def IPC_CH_VADDR_def)
  show rg: "ring_buf c (s\<lparr>bytes := m\<rparr>) i = ring_buf c s i" for i by (simp add: ring_buf_def bd_buf_def rb ch)
  show "msg_wf c (s\<lparr>bytes := m\<rparr>) = msg_wf c s" by (simp add: msg_wf_def ch rb rg)
qed

lemma msg_contents_frame:
  assumes wf: "msg_wf c s" and same: "same_on (ring_mem c s) (bytes s) m"
  shows "msg_contents c (s\<lparr>bytes := m\<rparr>) = msg_contents c s"
proof -
  have "msg_of (s\<lparr>bytes := m\<rparr>) b = msg_of s b" if b: "b \<in> set (ch_contents s (chan_of c s))" for b
  proof -
    have ok: "chan_ok (chan_of c s)" and len: "msg_len b \<le> max_msg_size (chan_of c s)"
      using wf b by (auto simp: msg_wf_def)
    obtain j where j: "j < unat (bd_ring_size (chan_of c s))" "bd_buf s b = ring_buf c s j"
      using ch_contents_in_ring [OF ok b] by (auto simp: ring_buf_def)
    have "same_on (span (bd_buf s b) (max_msg_size (chan_of c s))) (bytes s) m"
      by (rule same_on_subset [OF same]) (use j in \<open>auto simp: ring_mem_def\<close>)
    then show ?thesis
      using len read_bytes_same_on by (simp add: msg_of_def bd_buf_def word_le_nat_alt)
  qed
  moreover have "ch_contents (s\<lparr>bytes := m\<rparr>) (chan_of c s) = ch_contents s (chan_of c s)"
    by (rule ch_contents_cong) simp_all
  ultimately show ?thesis by (simp add: msg_contents_def)
qed

lemma send_msg_full:
  assumes wf: "msg_wf c s" "\<not> OS_HET_CH_FULL (chan_of c s)" "lk c = 0" "len \<le> max_msg_size (chan_of c s)"
  shows "\<exists>s'. fsl_ipc_send_msg lk c sb len s = Inr (0, s') \<and> msg_wf c s' \<and>
    msg_contents c s' = msg_contents c s @ [read_bytes (bytes s) sb (unat len)] \<and>
    same_on (- ring_mem c s) (bytes s) (bytes s') \<and> max_msg_size (chan_of c s') = max_msg_size (chan_of c s)"
proof -
  let ?k = "local_producer_num (chan_of c s)"
  let ?slot = "bds s (bd_at s (chan_of c s) ?k)"
  have lk: "0 \<le> lk c" using wf(3) by simp
  obtain s' where s': "fsl_ipc_send_msg lk c sb len s = Inr (0, s')" "msg_wf c s'"
      "msg_contents c s' = msg_contents c s @ [read_bytes (bytes s) sb (unat len)]"
    using send_msg_appends [where c = c and st = s and lk = lk and len = len and sb = sb, OF wf(1,2) lk wf(4)] wf(3) by auto
  have "chan_ok (chan_of c s)" using wf(1) by (simp add: msg_wf_def)
  then have k: "unat ?k < unat (bd_ring_size (chan_of c s))" by (rule chan_okD)
  then have "bd_buf s ?slot = ring_buf c s (unat ?k)" by (simp add: ring_buf_def ring_bds_def)
  moreover have b: "bytes s' = memcpy (bytes s) (bd_buf s ?slot) sb len"
    "chan_of c s' = advance_producer ((chan_of c s)\<lparr>producer_initialized := OS_HET_INITIALIZED\<rparr>)"
    using send_msg_success [where c = c and st = s and lk = lk and len = len and sb = sb, OF wf(1,2) lk wf(4)] s'(1)
    by auto
  ultimately have "same_on (- ring_mem c s) (bytes s) (bytes s')"
    using k wf(4) span_sub [of 0 len "max_msg_size (chan_of c s)" "ring_buf c s (unat ?k)"]
    by (auto simp: ring_mem_def word_le_nat_alt intro!: memcpy_same_on)
  then show ?thesis using s' b by auto
qed

text \<open>
  The descriptor as the channel carries it; its last word is whatever the stack held.
\<close>

definition descriptor :: "mem \<Rightarrow> vaddr \<Rightarrow> vaddr \<Rightarrow> u8 list" where
  "descriptor m sp msg =
     be32 (load_be32 m msg) @ be32 (load_be32 m (msg + 4)) @ be32 (load_be32 m (msg + 12)) @ be32 (load_be32 m (sp + 12))"

lemma desc_mem:
  fixes m :: mem and w :: u32
  assumes ap: "span msg 65536 \<inter> span sp 16 = {}"
  defines "m4 \<equiv> copy_word (copy_word (copy_word (store_be32 m (msg + 8) w) sp msg) (sp + 8) (msg + 12)) (sp + 4) (msg + 4)"
  shows "load_be32 m4 (sp + 4) = load_be32 m (msg + 4)" "read_bytes m4 sp 16 = descriptor m sp msg"
    "same_on (- (span (msg + 8) 4 \<union> span sp 16)) m m4"
proof -
  let ?m1 = "store_be32 m (msg + 8) w"
  let ?m2 = "copy_word ?m1 sp msg" let ?m3 = "copy_word ?m2 (sp + 8) (msg + 12)"
  have w2: "within sp 16 ?m1 ?m2" unfolding copy_word_def by (intro within_store_start) simp_all
  have w3: "within sp 16 ?m1 ?m3" by (rule within_copy [OF w2]) simp
  have w4: "within sp 16 ?m1 m4" unfolding m4_def by (rule within_copy [OF w3]) simp
  have l1: "load_be32 ?m1 msg = load_be32 m msg" "load_be32 ?m1 (msg + 12) = load_be32 m (msg + 12)"
    "load_be32 ?m1 (msg + 4) = load_be32 m (msg + 4)"
    by (simp_all add: load_store_apart)
  have sub: "span (sp + 12) 4 \<subseteq> span sp 16" "span (msg + 8) 4 \<subseteq> span msg 65536"
    by (rule span_sub; simp)+
  then have "span (msg + 8) 4 \<inter> span (sp + 12) 4 = {}" using ap by blast
  then have sp12: "load_be32 ?m1 (sp + 12) = load_be32 m (sp + 12)" by (intro load_same_on store_same_on) blast
  have l2: "load_be32 ?m2 (msg + 12) = load_be32 m (msg + 12)" "load_be32 ?m3 (msg + 4) = load_be32 m (msg + 4)"
    using load_outside [OF w2 ap, of 12] load_outside [OF w3 ap, of 4] l1 by simp_all
  have f: "load_be32 m4 sp = load_be32 m msg" "load_be32 m4 (sp + 4) = load_be32 m (msg + 4)"
    "load_be32 m4 (sp + 8) = load_be32 m (msg + 12)" "load_be32 m4 (sp + 12) = load_be32 m (sp + 12)"
    using l1 l2 sp12 by (simp_all add: m4_def copy_word_def load_store_apart)
  show "load_be32 m4 (sp + 4) = load_be32 m (msg + 4)" by (rule f)
  have "(16 :: nat) = 4 + (4 + (4 + (4 + 0)))" by simp
  then show "read_bytes m4 sp 16 = descriptor m sp msg"
    by (simp only: read_words) (simp add: f descriptor_def add.assoc read_bytes_def)
  show "same_on (- (span (msg + 8) 4 \<union> span sp 16)) m m4"
    using store_same_on [of "- (span (msg + 8) 4 \<union> span sp 16)" "msg + 8" m w] w4
    by (auto simp: within_def intro: same_on_trans same_on_subset)
qed

lemma ipc_send_msg_delivers:
  assumes wf: "msg_wf 4 (tx_ipc st)" "\<not> OS_HET_CH_FULL (chan_of 4 (tx_ipc st))" "lk 4 = 0"
      "16 \<le> max_msg_size (chan_of 4 (tx_ipc st))"
    and ap: "span msg 65536 \<inter> span sp 16 = {}" "ring_mem 4 (tx_ipc st) \<inter> (span msg 65536 \<union> span sp 16) = {}"
    and len: "load_be32 (tx_mem st) (msg + 4) \<noteq> 0"
  shows "\<exists>s'. ipc_send_msg lk sp msg st = Inr (0, st\<lparr>tx_ipc := s'\<rparr>) \<and> msg_wf 4 s' \<and>
    msg_contents 4 s' = msg_contents 4 (tx_ipc st) @ [descriptor (tx_mem st) sp msg] \<and>
    same_on (span (msg + 16) 65520) (tx_mem st) (bytes s') \<and> max_msg_size (chan_of 4 s') = max_msg_size (chan_of 4 (tx_ipc st))"
proof -
  let ?m = "tx_mem st" and ?s = "tx_ipc st"
  define m4 where "m4 = copy_word (copy_word (copy_word (store_be32 ?m (msg + 8) (load_be32 ?m (msg + 12) + 16)) sp msg)
    (sp + 8) (msg + 12)) (sp + 4) (msg + 4)"
  note D = desc_mem [OF ap(1), of ?m "load_be32 ?m (msg + 12) + 16", folded m4_def]
  have sub: "span (msg + 8) 4 \<subseteq> span msg 65536" "span (msg + 16) 65520 \<subseteq> span msg 65536"
    by (rule span_sub; simp)+
  have "same_on (ring_mem 4 ?s) (bytes ?s) m4"
    by (rule same_on_subset [OF D(3) [unfolded tx_mem_def]]) (use ap(2) sub in auto)
  then have c: "msg_contents 4 (?s\<lparr>bytes := m4\<rparr>) = msg_contents 4 ?s" by (rule msg_contents_frame [OF wf(1)])
  obtain s' where s': "fsl_ipc_send_msg lk 4 sp 16 (?s\<lparr>bytes := m4\<rparr>) = Inr (0, s')" "msg_wf 4 s'"
      "msg_contents 4 s' = msg_contents 4 ?s @ [descriptor ?m sp msg]"
      "same_on (- ring_mem 4 (?s\<lparr>bytes := m4\<rparr>)) m4 (bytes s')" "max_msg_size (chan_of 4 s') = max_msg_size (chan_of 4 ?s)"
    using send_msg_full [of 4 "?s\<lparr>bytes := m4\<rparr>" lk 16 sp] wf c D(2) by auto
  have "span (msg + 8) 4 \<inter> span (msg + 16) 65520 = {}" by (rule span_words_disjoint) simp_all
  then have "same_on (span (msg + 16) 65520) ?m m4"
    by (intro same_on_subset [OF D(3)]) (use ap(1) sub in auto)
  moreover have "same_on (span (msg + 16) 65520) m4 (bytes s')"
    by (rule same_on_subset [OF s'(4)]) (use ap(2) sub in \<open>auto simp: ring_mem_def\<close>)
  ultimately have "same_on (span (msg + 16) 65520) ?m (bytes s')" by (rule same_on_trans)
  then show ?thesis
    using s' D(1) len by (auto simp: ipc_send_msg_def set_tx_mem_def Let_def simp flip: m4_def)
qed

lemma ipc_send_msg_full:
  assumes wf: "msg_wf 4 (tx_ipc st)" "OS_HET_CH_FULL (chan_of 4 (tx_ipc st))" "lk 4 = 0"
    and ap: "span msg 65536 \<inter> span sp 16 = {}" "ring_mem 4 (tx_ipc st) \<inter> (span msg 65536 \<union> span sp 16) = {}"
    and len: "load_be32 (tx_mem st) (msg + 4) \<noteq> 0"
  shows "\<exists>s'. ipc_send_msg lk sp msg st = Inr (- ERR_CHANNEL_FULL, st\<lparr>tx_ipc := s'\<rparr>) \<and>
    msg_contents 4 s' = msg_contents 4 (tx_ipc st) \<and> same_on (span (msg + 16) 65520) (tx_mem st) (bytes s')"
proof -
  let ?m = "tx_mem st" and ?s = "tx_ipc st" and ?v = "snd (chvpaddr_arr (tx_ipc st) ! 4)"
  define m4 where "m4 = copy_word (copy_word (copy_word (store_be32 ?m (msg + 8) (load_be32 ?m (msg + 12) + 16)) sp msg)
    (sp + 8) (msg + 12)) (sp + 4) (msg + 4)"
  let ?s4 = "?s\<lparr>bytes := m4\<rparr>"
  let ?s' = "set_chan ?v ((chan_of 4 ?s)\<lparr>producer_initialized := OS_HET_INITIALIZED\<rparr>) ?s4"
  note D = desc_mem [OF ap(1), of ?m "load_be32 ?m (msg + 12) + 16", folded m4_def]
  have sub: "span (msg + 8) 4 \<subseteq> span msg 65536" "span (msg + 16) 65520 \<subseteq> span msg 65536"
    by (rule span_sub; simp)+
  have "same_on (ring_mem 4 ?s) (bytes ?s) m4"
    by (rule same_on_subset [OF D(3) [unfolded tx_mem_def]]) (use ap(2) sub in auto)
  then have c: "msg_contents 4 ?s4 = msg_contents 4 ?s" by (rule msg_contents_frame [OF wf(1)])
  have "fsl_ipc_send_msg lk 4 sp 16 ?s4 = Inr (- ERR_CHANNEL_FULL, ?s')"
    using wf by (simp add: fsl_ipc_send_msg_def get_channel_vaddr_def msg_wf_def chan_of_def Let_def full_iff ch_used_def)
  moreover have "msg_contents 4 ?s' = msg_contents 4 ?s"
  proof -
    have "chan_of 4 ?s' = (chan_of 4 ?s)\<lparr>producer_initialized := OS_HET_INITIALIZED\<rparr>" by (simp add: chan_of_def)
    moreover have "msg_of ?s' = msg_of ?s4" by (simp add: fun_eq_iff msg_of_def bd_buf_def)
    ultimately have "msg_contents 4 ?s' = msg_contents 4 ?s4"
      using ch_contents_cong [of ?s' ?s4] by (simp add: msg_contents_def)
    then show ?thesis using c by simp
  qed
  moreover have "span (msg + 8) 4 \<inter> span (msg + 16) 65520 = {}" by (rule span_words_disjoint) simp_all
  then have "same_on (span (msg + 16) 65520) ?m m4"
    by (intro same_on_subset [OF D(3)]) (use ap(1) sub in auto)
  ultimately show ?thesis
    using D(1) len by (intro exI [of _ ?s']) (simp add: ipc_send_msg_def set_tx_mem_def Let_def flip: m4_def)
qed

section \<open>Sending a request\<close>

lemma within_widen:
  assumes "within (b + x) n m m'" "unat x + unat n \<le> unat K"
  shows "within b K m m'"
  using assms(1) span_sub [OF assms(2), of b] by (auto simp: within_def elim!: same_on_subset)

lemma within_length: "within b 65536 m (set_length_from_l1 b m)"
  unfolding set_length_from_l1_def by (rule within_store) simp_all

lemma new_msg_views:
  "within (range_vaddr r) 16 m (new_msg chan r m)"
  "load_be32 (new_msg chan r m) (range_vaddr r) = chan"
  "load_be32 (new_msg chan r m) (range_vaddr r + 12) = ucast (phys_addr r)"
  by (simp_all add: new_msg_def Let_def within_store within_store_start load_store_apart)

lemma send_request_built:
  fixes st sp chan fill
  defines "r \<equiv> cur_buf st"
  defines "b \<equiv> range_vaddr r"
  defines "m \<equiv> new_msg chan r (tx_mem st)"
  defines "M \<equiv> fill (b + 16) m"
  assumes wf: "tx_wf st" "tx_regions sp st"
    and fill: "within (b + 16) 65520 m M" "16 + load_be32 M (b + 20) \<noteq> 0"
  obtains L st2 where "send_request lk sp chan fill st = ipc_send_msg lk sp b st2"
    "st2 = st\<lparr>fapi_tx_req_data_buf_ptr := next_buf FAPI_TX_REQ_BUF_NUM (fapi_tx_req_data_buf_ptr st),
              tx_ipc := (tx_ipc st)\<lparr>bytes := L\<rparr>\<rparr>"
    "msg_contents 4 (tx_ipc st2) = msg_contents 4 (tx_ipc st)" "load_be32 L (b + 4) \<noteq> 0"
    "descriptor L sp b = be32 chan @ be32 (16 + load_be32 M (b + 20)) @ be32 (ucast (phys_addr r)) @
       be32 (load_be32 (tx_mem st) (sp + 12))"
    "same_on (span (b + 16) 65520) M L"
proof -
  let ?L = "set_length_from_l1 b M"
  let ?st1 = "set_tx_mem m (st\<lparr>fapi_tx_req_data_buf_ptr := next_buf 16 (fapi_tx_req_data_buf_ptr st)\<rparr>)"
  let ?st2 = "set_tx_mem ?L ?st1"
  have v: "tx_mem ?st1 = m" "tx_ipc ?st2 = (tx_ipc st)\<lparr>bytes := ?L\<rparr>"
    by (simp_all add: tx_mem_def set_tx_mem_def)
  have "unat (fapi_tx_req_data_buf_ptr st) < length (fapi_tx_req_data_bufs st)" "b \<noteq> 0"
    using wf(1) by (simp_all add: tx_wf_def r_def b_def cur_buf_def)
  then have alloc: "fapi_alloc_send_msg chan st = Inr (b, ?st1)"
    by (simp add: fapi_alloc_send_msg_def Let_def m_def b_def r_def cur_buf_def)
  have ap: "span b 65536 \<inter> span sp 16 = {}" "ring_mem 4 (tx_ipc st) \<inter> (span b 65536 \<union> span sp 16) = {}"
    using wf(2) by (simp_all add: tx_regions_def r_def b_def)
  have w: "within b 65536 (tx_mem st) m" "within b 65536 m M"
    using within_widen [of b 0 16 "tx_mem st" m 65536] new_msg_views(1) [of r "tx_mem st" chan] within_widen [OF fill(1)]
    by (simp_all add: b_def m_def)
  then have W: "within b 65536 (tx_mem st) ?L" using within_trans within_length by blast
  then have "same_on (ring_mem 4 (tx_ipc st)) (bytes (tx_ipc st)) ?L"
    using same_outside [OF W [unfolded tx_mem_def], of "ring_mem 4 (tx_ipc st)"] ap(2) by auto
  then have c: "msg_contents 4 (tx_ipc ?st2) = msg_contents 4 (tx_ipc st)"
    unfolding v by (rule msg_contents_frame [rotated]) (use wf(1) in \<open>simp add: tx_wf_def\<close>)
  have "span b 16 \<inter> span (b + 16) 65520 = {}" using span_words_disjoint(1) [of 0 16 16 65520 b] by simp
  note H = load_outside [OF fill(1) this] load_outside_start [OF fill(1) this]
  have "load_be32 ?L b = chan" "load_be32 ?L (b + 12) = ucast (phys_addr r)"
    using H(2) H(1) [of 12] new_msg_views(2,3) [where r = r and m = "tx_mem st" and chan = chan]
    by (simp_all add: set_length_from_l1_def load_store_apart m_def flip: b_def)
  moreover have "load_be32 ?L (b + 4) = 16 + load_be32 M (b + 20)" by (simp add: set_length_from_l1_def)
  moreover have "load_be32 ?L (sp + 12) = load_be32 (tx_mem st) (sp + 12)"
    by (rule load_outside [OF W]) (use ap(1) in auto)
  ultimately have d: "load_be32 ?L (b + 4) \<noteq> 0" "descriptor ?L sp b = be32 chan @ be32 (16 + load_be32 M (b + 20)) @
      be32 (ucast (phys_addr r)) @ be32 (load_be32 (tx_mem st) (sp + 12))"
    unfolding descriptor_def using fill(2) by simp_all
  have "span (b + 16) 65520 \<inter> span (b + 4) 4 = {}" by (rule span_words_disjoint(2)) simp_all
  then have s: "same_on (span (b + 16) 65520) M ?L" unfolding set_length_from_l1_def by (rule store_same_on)
  show thesis
    by (rule that [of ?st2 ?L]) (use alloc c d s in \<open>simp_all add: send_request_def v set_tx_mem_def tx_mem_def flip: M_def\<close>)
qed

lemma next_buf_bound: "unat i < 16 \<Longrightarrow> unat (next_buf 16 i) < 16"
  by (auto simp: next_buf_def unat_word_ariths word_unat_eq_iff)

lemma send_request_delivers:
  fixes st sp chan fill
  defines "r \<equiv> cur_buf st"
  defines "b \<equiv> range_vaddr r"
  defines "M \<equiv> fill (b + 16) (new_msg chan r (tx_mem st))"
  assumes wf: "tx_wf st" "tx_regions sp st" "lk 4 = 0"
    and fill: "within (b + 16) 65520 (new_msg chan r (tx_mem st)) M" "16 + load_be32 M (b + 20) \<noteq> 0"
  shows "\<exists>st'. send_request lk sp chan fill st =
      Inr (if OS_HET_CH_FULL (chan_of 4 (tx_ipc st)) then - ERR_CHANNEL_FULL else 0, st') \<and>
    fapi_tx_req_data_buf_ptr st' = next_buf FAPI_TX_REQ_BUF_NUM (fapi_tx_req_data_buf_ptr st) \<and>
    fapi_tx_req_data_bufs st' = fapi_tx_req_data_bufs st \<and>
    (\<not> OS_HET_CH_FULL (chan_of 4 (tx_ipc st)) \<longrightarrow> tx_wf st') \<and>
    msg_contents 4 (tx_ipc st') = msg_contents 4 (tx_ipc st) @
      (if OS_HET_CH_FULL (chan_of 4 (tx_ipc st)) then []
       else [be32 chan @ be32 (16 + load_be32 M (b + 20)) @ be32 (ucast (phys_addr r)) @ be32 (load_be32 (tx_mem st) (sp + 12))]) \<and>
    same_on (span (b + 16) 65520) M (tx_mem st')"
proof -
  obtain L st2 where built: "send_request lk sp chan fill st = ipc_send_msg lk sp b st2"
      "st2 = st\<lparr>fapi_tx_req_data_buf_ptr := next_buf FAPI_TX_REQ_BUF_NUM (fapi_tx_req_data_buf_ptr st),
                tx_ipc := (tx_ipc st)\<lparr>bytes := L\<rparr>\<rparr>"
      "msg_contents 4 (tx_ipc st2) = msg_contents 4 (tx_ipc st)" "load_be32 L (b + 4) \<noteq> 0"
      "descriptor L sp b = be32 chan @ be32 (16 + load_be32 M (b + 20)) @ be32 (ucast (phys_addr r)) @
         be32 (load_be32 (tx_mem st) (sp + 12))" "same_on (span (b + 16) 65520) M L"
    by (rule send_request_built [where lk = lk and fill = fill and chan = chan, OF wf(1,2) fill [unfolded M_def b_def r_def]])
      (rule that; unfold M_def b_def r_def; assumption)
  have v: "tx_mem st2 = L" "tx_ipc st2 = (tx_ipc st)\<lparr>bytes := L\<rparr>" by (simp_all add: tx_mem_def built(2))
  have pre: "msg_wf 4 (tx_ipc st2)" "16 \<le> max_msg_size (chan_of 4 (tx_ipc st2))" "span b 65536 \<inter> span sp 16 = {}"
      "ring_mem 4 (tx_ipc st2) \<inter> (span b 65536 \<union> span sp 16) = {}" "load_be32 (tx_mem st2) (b + 4) \<noteq> 0"
    using wf(1,2) built(4) by (simp_all add: tx_wf_def tx_regions_def v b_def r_def ring_mem_def)
  have nb: "unat (next_buf 16 (fapi_tx_req_data_buf_ptr st)) < 16"
    using wf(1) by (intro next_buf_bound) (simp add: tx_wf_def)
  show ?thesis
  proof (cases "OS_HET_CH_FULL (chan_of 4 (tx_ipc st))")
    case True
    then have "OS_HET_CH_FULL (chan_of 4 (tx_ipc st2))" by (simp add: v)
    then obtain s' where s': "ipc_send_msg lk sp b st2 = Inr (- ERR_CHANNEL_FULL, st2\<lparr>tx_ipc := s'\<rparr>)"
        "msg_contents 4 s' = msg_contents 4 (tx_ipc st2)" "same_on (span (b + 16) 65520) L (bytes s')"
      using ipc_send_msg_full [where lk = lk, OF pre(1) _ wf(3) pre(3-5)] unfolding v(1) by blast
    show ?thesis
      using s' same_on_trans [OF built(6) s'(3)] True built(2,3)
      by (intro exI [of _ "st2\<lparr>tx_ipc := s'\<rparr>"]) (simp add: built(1) tx_mem_def)
  next
    case False
    then have "\<not> OS_HET_CH_FULL (chan_of 4 (tx_ipc st2))" by (simp add: v)
    then obtain s' where s': "ipc_send_msg lk sp b st2 = Inr (0, st2\<lparr>tx_ipc := s'\<rparr>)" "msg_wf 4 s'"
        "msg_contents 4 s' = msg_contents 4 (tx_ipc st2) @ [descriptor L sp b]" "same_on (span (b + 16) 65520) L (bytes s')"
        "max_msg_size (chan_of 4 s') = max_msg_size (chan_of 4 (tx_ipc st2))"
      using ipc_send_msg_delivers [where lk = lk, OF pre(1) _ wf(3) pre(2-5)] unfolding v(1) by blast
    show ?thesis
      using s' same_on_trans [OF built(6) s'(4)] False built(2,3,5) wf(1) nb
      by (intro exI [of _ "st2\<lparr>tx_ipc := s'\<rparr>"]) (simp add: built(1) tx_mem_def tx_wf_def v(2))
  qed
qed

section \<open>The configuration requests\<close>

lemma dl_config_bytes_cong:
  assumes "same_on (span req 113960 \<union> span b 36) m m'"
    "unat (load_be32 m (req + 12)) \<le> 64" "unat (load_be32 m (req + 16)) \<le> 64"
  shows "dl_config_bytes m' req b = dl_config_bytes m req b"
proof -
  have r: "load_be32 m' (req + x) = load_be32 m (req + x)" if "unat x + 4 \<le> 113960" for x
    by (rule load_same_on, rule same_on_subset [OF assms(1)]) (use span_sub [of x 4 113960 req] that in auto)
  have h: "load_be32 m' (b + x) = load_be32 m (b + x)" if "unat x + 4 \<le> 36" for x
    by (rule load_same_on, rule same_on_subset [OF assms(1)]) (use span_sub [of x 4 36 b] that in auto)
  have d: "read_bytes m' (req + x) (unat n * 468) = read_bytes m (req + x) (unat n * 468)"
    if "unat n \<le> 64" "unat x + 468 * 64 \<le> 113960" for x n :: u32
  proof (rule read_bytes_same_on [of _ "n * 468"])
    have u: "unat (n * 468) = unat n * 468" using unat_times [OF that(1), of 468] by simp
    show "unat n * 468 \<le> unat (n * 468)" by (simp add: u)
    have "span (req + x) (n * 468) \<subseteq> span req 113960" by (rule span_sub) (use that u in simp)
    then show "same_on (span (req + x) (n * 468)) m m'" by (intro same_on_subset [OF assms(1)]) auto
  qed
  show ?thesis using assms(2,3) r [of 0] by (simp add: dl_config_bytes_def Let_def r h d)
qed

lemma dl_config_sent:
  assumes "tx_wf st" "tx_regions sp st" "lk IPC_PA2SC_CH_ID = 0"
    "b = range_vaddr (cur_buf st)" "span req 113960 \<inter> span b 65536 = {}"
    "nd = load_be32 (tx_mem st) (req + 12)" "unat nd \<le> 64" "np = load_be32 (tx_mem st) (req + 16)" "unat np \<le> 64"
  shows "\<exists>st'. fapi_p7_dl_config_request lk sp req st = Inr (0, st') \<and>
    (\<not> OS_HET_CH_FULL (chan_of IPC_PA2SC_CH_ID (tx_ipc st)) \<longrightarrow> tx_wf st') \<and>
    fapi_tx_req_data_buf_ptr st' = next_buf FAPI_TX_REQ_BUF_NUM (fapi_tx_req_data_buf_ptr st) \<and>
    msg_contents IPC_PA2SC_CH_ID (tx_ipc st') = msg_contents IPC_PA2SC_CH_ID (tx_ipc st) @
      (if OS_HET_CH_FULL (chan_of IPC_PA2SC_CH_ID (tx_ipc st)) then []
       else [be32 FAPI_CHANNEL_P7_REQ @ be32 (16 + var_size 504 468 (nd + np)) @ be32 (ucast (phys_addr (cur_buf st))) @
             be32 (load_be32 (tx_mem st) (sp + 12))]) \<and>
    read_bytes (tx_mem st') (b + 16) (36 + (unat nd * 468 + unat np * 468)) = dl_config_bytes (tx_mem st) req (b + 16)"
proof -
  let ?m = "new_msg 2 (cur_buf st) (tx_mem st)" let ?M = "fill_dl_config req (b + 16) ?m"
  have W: "within b 16 (tx_mem st) ?m" using new_msg_views(1) assms(4) by simp
  have sub: "span b 16 \<subseteq> span b 65536" "span (b + 16) 65520 \<subseteq> span b 65536"
    using span_sub [of 0 16 65536 b] span_sub [of 16 65520 65536 b] by simp_all
  have req: "span req 113960 \<inter> span (b + 16) 65520 = {}" "span req 113960 \<inter> span b 16 = {}" using assms(5) sub by auto
  have n: "nd = load_be32 ?m (req + 12)" "np = load_be32 ?m (req + 16)"
    using load_outside [OF W req(2), of 12] load_outside [OF W req(2), of 16] assms(6,8) by simp_all
  note B = dl_config_message [OF req(1) n(1) assms(7) n(2) assms(9)]
  have u: "unat (nd + np) = unat nd + unat np" using assms(7,9) by (simp add: unat_word_ariths(1))
  then have len: "unat (var_size 504 468 (nd + np)) \<le> 59940" "36 + (unat nd * 468 + unat np * 468) \<le> 65520"
    using var_size_le [of "nd + np" 504 468] assms(7,9) by simp_all
  then have nz: "16 + load_be32 ?M (b + 20) \<noteq> 0"
    using B(1) by (simp add: add.assoc word_unat_eq_iff unat_word_ariths(1))
  have cong: "dl_config_bytes ?m req (b + 16) = dl_config_bytes (tx_mem st) req (b + 16)"
  proof (rule dl_config_bytes_cong)
    have "span (b + 16) 36 \<inter> span b 16 = {}" using span_words_disjoint(2) [of 0 16 16 36 b] by simp
    then show "same_on (span req 113960 \<union> span (b + 16) 36) (tx_mem st) ?m"
      by (intro same_outside [OF W]) (use req(2) in auto)
  qed (use assms in auto)
  from send_request_delivers [where lk = lk, OF assms(1-3), where chan = 2 and fill = "fill_dl_config req"] B(2) nz assms(4)
  obtain ret st' where st': "send_request lk sp 2 (fill_dl_config req) st = Inr (ret, st')"
      "\<not> OS_HET_CH_FULL (chan_of 4 (tx_ipc st)) \<longrightarrow> tx_wf st'"
      "fapi_tx_req_data_buf_ptr st' = next_buf 16 (fapi_tx_req_data_buf_ptr st)"
      "msg_contents 4 (tx_ipc st') = msg_contents 4 (tx_ipc st) @ (if OS_HET_CH_FULL (chan_of 4 (tx_ipc st)) then []
         else [be32 2 @ be32 (16 + load_be32 ?M (b + 20)) @
         be32 (ucast (phys_addr (cur_buf st))) @ be32 (load_be32 (tx_mem st) (sp + 12))])"
      "same_on (span (b + 16) 65520) ?M (tx_mem st')" by auto
  have "read_bytes (tx_mem st') (b + 16) (36 + (unat nd * 468 + unat np * 468)) =
      read_bytes ?M (b + 16) (36 + (unat nd * 468 + unat np * 468))"
    by (rule read_bytes_same_on [OF st'(5)]) (use len(2) in simp)
  then show ?thesis
    using st' B(1,3) cong by (simp add: fapi_p7_dl_config_request_def quiet_def add.assoc)
qed

text \<open>C8: A downlink configuration request is sent whole: with room in the channel, at most 64 PDUs in
  each list and a request outside the message buffer, the call returns 0, exactly one descriptor
  goes to the DSP with the length and the physical address of the buffer, and the buffer holds the
  header, the counts and the two PDU lists of the request in that order. The words for the message's
  body length and for the PCFICH power are those of an earlier message in the same buffer.\<close>

theorem dl_config_delivered:
  assumes "tx_wf st" "tx_regions sp st" "lk IPC_PA2SC_CH_ID = 0"
    "b = range_vaddr (cur_buf st)" "span req 113960 \<inter> span b 65536 = {}"
    "nd = load_be32 (tx_mem st) (req + 12)" "unat nd \<le> 64" "np = load_be32 (tx_mem st) (req + 16)" "unat np \<le> 64"
    "\<not> OS_HET_CH_FULL (chan_of IPC_PA2SC_CH_ID (tx_ipc st))"
  shows "\<exists>st'. fapi_p7_dl_config_request lk sp req st = Inr (0, st') \<and> tx_wf st' \<and>
    msg_contents IPC_PA2SC_CH_ID (tx_ipc st') = msg_contents IPC_PA2SC_CH_ID (tx_ipc st) @
      [be32 FAPI_CHANNEL_P7_REQ @ be32 (16 + var_size 504 468 (nd + np)) @ be32 (ucast (phys_addr (cur_buf st))) @
       be32 (load_be32 (tx_mem st) (sp + 12))] \<and>
    read_bytes (tx_mem st') (b + 16) (36 + (unat nd * 468 + unat np * 468)) = dl_config_bytes (tx_mem st) req (b + 16)"
  using dl_config_sent [where lk = lk, OF assms(1-9)] assms(10) by auto

text \<open>A sample: sixteen buffers from 0x100000, a channel with one descriptor whose buffer is at 0x8000.\<close>

definition tx_sample_mem :: mem where
  "tx_sample_mem = (\<lambda>_. 0)(0x40000F := 2, 0x400013 := 1)"

definition tx_sample :: fapi_tx where
  "tx_sample =
     \<lparr>fapi_tx_req_data_bufs = map (\<lambda>a. \<lparr>phys_addr = ucast (a + 0x70000000), range_vaddr = a, range_size = 0x10000\<rparr>)
        [0x100000, 0x110000, 0x120000, 0x130000, 0x140000, 0x150000, 0x160000, 0x170000, 0x180000, 0x190000, 0x1A0000, 0x1B0000, 0x1C0000, 0x1D0000, 0x1E0000, 0x1F0000],
      fapi_tx_req_data_buf_ptr = 3, fapi_cpri_eth_bufs = [], fapi_cpri_eth_buf_ptr = 0,
      tx_lib = \<lparr>lib_seg = sample_seg, shm_init_done = False\<rparr>,
      tx_ipc = sample_state\<lparr>chans := (\<lambda>_. (sample_channel 0)\<lparr>bd_ring_size := 1, local_producer_num := 0, local_consumer_num := 0\<rparr>),
        bds := (\<lambda>_. \<lparr>msg_ptr = 0x8000, msg_len = 0\<rparr>), bytes := tx_sample_mem\<rparr>,
      g_fapi_cfg_req = [], tx_events = []\<rparr>"

lemma tx_sample_views:
  "cur_buf tx_sample = \<lparr>phys_addr = 0x70130000, range_vaddr = 0x130000, range_size = 0x10000\<rparr>"
  "tx_mem tx_sample = tx_sample_mem"
  "load_be32 tx_sample_mem 0x40000C = 2" "load_be32 tx_sample_mem 0x400010 = 1"
  by (simp_all add: cur_buf_def tx_mem_def tx_sample_def load_be32_def tx_sample_mem_def of_be32_def)

lemma tx_sample_channel:
  "msg_wf 4 (tx_ipc tx_sample)" "\<not> OS_HET_CH_FULL (chan_of 4 (tx_ipc tx_sample))"
  "max_msg_size (chan_of 4 (tx_ipc tx_sample)) = 16" "ring_mem 4 (tx_ipc tx_sample) = span 0x8000 16"
proof -
  let ?ch = "(sample_channel 0)\<lparr>bd_ring_size := 1, local_producer_num := 0, local_consumer_num := 0\<rparr>"
  have c: "chan_of 4 (tx_ipc tx_sample) = ?ch" by (simp add: chan_of_def tx_sample_def)
  have u: "ch_used ?ch = 0" by (simp add: ch_used_def sample_channel_def)
  have b: "ring_buf 4 (tx_ipc tx_sample) 0 = 0x8000"
    unfolding ring_buf_def c
    by (simp add: ring_bds_def bd_buf_def sample_channel_def tx_sample_def sample_state_def blank_us_def Let_def)
  show "msg_wf 4 (tx_ipc tx_sample)"
    unfolding msg_wf_def c using b u
    by (simp add: chan_ok_def ch_contents_def) (simp add: sample_channel_def tx_sample_def sample_state_def Let_def)
  show "\<not> OS_HET_CH_FULL (chan_of 4 (tx_ipc tx_sample))"
    unfolding c full_iff u by (simp add: sample_channel_def)
  show "max_msg_size (chan_of 4 (tx_ipc tx_sample)) = 16" unfolding c by (simp add: sample_channel_def)
  show "ring_mem 4 (tx_ipc tx_sample) = span 0x8000 16"
    unfolding ring_mem_def c using b by (simp add: lessThan_Suc sample_channel_def)
qed

lemma tx_sample_wf: "tx_wf tx_sample" "tx_regions 0x9000 tx_sample"
proof -
  show "tx_wf tx_sample" unfolding tx_wf_def using tx_sample_channel by (simp) (simp add: tx_sample_def)
  show "tx_regions 0x9000 tx_sample"
    unfolding tx_regions_def tx_sample_channel(4) tx_sample_views by (simp add: Int_Un_distrib span_disjointI)
qed

theorem dl_config_delivered_witness:
  "\<exists>st'. fapi_p7_dl_config_request (\<lambda>_. 0) 0x9000 0x400000 tx_sample = Inr (0, st') \<and>
    msg_contents 4 (tx_ipc st') =
      msg_contents 4 (tx_ipc tx_sample) @ [be32 2 @ be32 1456 @ be32 0x70130000 @ be32 (load_be32 tx_sample_mem 0x900C)]"
proof -
  have "span (0x400000 :: u32) 113960 \<inter> span 0x130000 65536 = {}" by (simp add: span_disjointI)
  then show ?thesis
    using dl_config_delivered [where lk = "\<lambda>_. 0", OF tx_sample_wf, where req = "0x400000"
        and b = "0x130000" and nd = 2 and np = 1] tx_sample_channel(2)
    by (auto simp: tx_sample_views var_size_def)
qed

text \<open>C35: The three configuration requests stay inside their 64 KB buffer: with at most 64 entries in each
  list, building the message changes no byte outside the 65520 bytes behind the descriptor, and the
  length announced, with the descriptor's 16 bytes, is at most the buffer's size.\<close>

theorem config_requests_fit:
  assumes "span req 113960 \<inter> span b 65520 = {}" "span ureq 11540 \<inter> span b 65520 = {}"
    "\<forall>x \<in> {12, 16, 24, 28}. unat (load_be32 m (req + x)) \<le> 64" "unat (load_be32 m (ureq + 8)) \<le> 64"
    "M \<in> {fill_dl_config req b m, fill_ul_config ureq b m, fill_hi_dci0 req b m}"
  shows "within b 65520 m M \<and> unat (16 + load_be32 M (b + 4)) \<le> 65536"
proof -
  have n: "unat (load_be32 m (req + 12)) \<le> 64" "unat (load_be32 m (req + 16)) \<le> 64"
    "unat (load_be32 m (req + 28)) \<le> 64" "unat (load_be32 m (req + 24)) \<le> 64" using assms(3) by auto
  note dl = dl_config_message(1,2) [OF assms(1) refl n(1) refl n(2)]
  note ul = ul_config_built [OF assms(2) refl assms(4)] and hi = hi_dci0_built [OF assms(1) refl n(3) refl n(4)]
  have add: "unat (x + y) = unat x + unat y" if "unat x \<le> 64" "unat y \<le> 64" for x y :: u32
    using that by (simp add: unat_word_ariths(1))
  have fits: "unat (16 + v) \<le> 65536" if "unat v \<le> 65520" for v :: u32
    using that by (simp add: unat_word_ariths(1))
  have "unat (var_size 504 468 (load_be32 m (req + 12) + load_be32 m (req + 16))) \<le> 65520"
    "unat (var_size 208 180 (load_be32 m (ureq + 8))) \<le> 65520"
    "unat (var_size 248 224 (load_be32 m (req + 28) + load_be32 m (req + 24))) \<le> 65520"
    using add [OF n(1,2)] add [OF n(3,4)] n assms(4) by (simp_all add: order_trans [OF var_size_le])
  then show ?thesis
    using assms(5) dl list_message_within(2) [OF ul(1)] list_message_within(2) [OF hi(1)] fits
    by (auto simp: ul(2) hi(2) list_message_length)
qed

theorem config_requests_fit_witness:
  "within 0x130010 65520 tx_sample_mem (fill_ul_config 0x500000 0x130010 tx_sample_mem)"
proof -
  have "load_be32 tx_sample_mem 0x400018 = 0" "load_be32 tx_sample_mem 0x40001C = 0" "load_be32 tx_sample_mem 0x500008 = 0"
    by (simp_all add: load_be32_def tx_sample_mem_def of_be32_def)
  moreover have "span (0x400000 :: u32) 113960 \<inter> span 0x130010 65520 = {}" "span (0x500000 :: u32) 11540 \<inter> span 0x130010 65520 = {}"
    by (simp_all add: span_disjointI)
  ultimately show ?thesis
    using config_requests_fit [where req = "0x400000" and ureq = "0x500000" and b = "0x130010" and m = tx_sample_mem]
    by (simp add: tx_sample_views)
qed

section \<open>A full channel\<close>

lemma next_buf_pow:
  assumes "unat p < 16"
  shows "(next_buf 16 ^^ k) p = of_nat ((unat p + k) mod 16)"
proof (induction k)
  case (Suc k)
  have "(of_nat n :: u32) = 16 \<longleftrightarrow> n = 16" if "n \<le> 16" for n
    using that by (simp add: word_unat_eq_iff unat_of_nat)
  from this [of "Suc ((unat p + k) mod 16)"] show ?case
    using Suc by (auto simp: next_buf_def mod_Suc add.commute Suc_le_eq)
qed (use assms in simp)


text \<open>When the channel to the DSP is full, a downlink configuration request is lost and reported as
  sent, and it is built all the same: in the buffer of the request sixteen calls earlier, which the
  DSP may not have read yet. The descriptors in the channel stay as they are.\<close>

lemma dl_config_full_channel:
  assumes "tx_wf st" "tx_regions sp st" "lk IPC_PA2SC_CH_ID = 0"
    "b = range_vaddr (cur_buf st)" "span req 113960 \<inter> span b 65536 = {}"
    "nd = load_be32 (tx_mem st) (req + 12)" "unat nd \<le> 64" "np = load_be32 (tx_mem st) (req + 16)" "unat np \<le> 64"
    "OS_HET_CH_FULL (chan_of IPC_PA2SC_CH_ID (tx_ipc st))" "p = fapi_tx_req_data_buf_ptr st"
  shows "((next_buf FAPI_TX_REQ_BUF_NUM ^^ k) p = p \<longleftrightarrow> 16 dvd k) \<and>
    (\<exists>st'. fapi_p7_dl_config_request lk sp req st = Inr (0, st') \<and>
    msg_contents IPC_PA2SC_CH_ID (tx_ipc st') = msg_contents IPC_PA2SC_CH_ID (tx_ipc st) \<and>
    fapi_tx_req_data_buf_ptr st' = next_buf FAPI_TX_REQ_BUF_NUM p \<and>
    read_bytes (tx_mem st') (b + 16) (36 + (unat nd * 468 + unat np * 468)) = dl_config_bytes (tx_mem st) req (b + 16))"
proof (rule conjI)
  have p: "unat p < 16" using assms(1,11) by (simp add: tx_wf_def)
  have "(unat p + k) mod 16 = unat p \<longleftrightarrow> 16 dvd k"
    using p mod_eq_dvd_iff_nat [of "unat p" "unat p + k" 16] by simp
  then show "(next_buf FAPI_TX_REQ_BUF_NUM ^^ k) p = p \<longleftrightarrow> 16 dvd k"
    unfolding next_buf_pow [OF p] by (simp add: word_unat_eq_iff unat_of_nat)
qed (use dl_config_sent [where lk = lk, OF assms(1-9)] assms(10,11) in auto)

definition tx_full_sample :: fapi_tx where
  "tx_full_sample = tx_sample\<lparr>tx_ipc := (tx_ipc tx_sample)\<lparr>chans := (\<lambda>_. (sample_channel 0)\<lparr>bd_ring_size := 1,
     producer_num := 1, local_producer_num := 0, local_consumer_num := 0\<rparr>)\<rparr>\<rparr>"

lemma tx_full_sample_facts:
  "tx_wf tx_full_sample" "tx_regions 0x9000 tx_full_sample" "OS_HET_CH_FULL (chan_of 4 (tx_ipc tx_full_sample))"
  "cur_buf tx_full_sample = cur_buf tx_sample" "tx_mem tx_full_sample = tx_sample_mem"
  "fapi_tx_req_data_buf_ptr tx_full_sample = 3"
proof -
  let ?ch = "(sample_channel 0)\<lparr>bd_ring_size := 1, producer_num := 1, local_producer_num := 0, local_consumer_num := 0\<rparr>"
  have c: "chan_of 4 (tx_ipc tx_full_sample) = ?ch" by (simp add: chan_of_def tx_full_sample_def)
  have u: "ch_used ?ch = Suc 0" by (simp add: ch_used_def sample_channel_def)
  have bd: "bds (tx_ipc tx_full_sample) = (\<lambda>_. \<lparr>msg_ptr = 0x8000, msg_len = 0\<rparr>)"
    by (simp add: tx_full_sample_def tx_sample_def)
  have rb: "ring_bds (tx_ipc tx_full_sample) ?ch = [\<lparr>msg_ptr = 0x8000, msg_len = 0\<rparr>]"
    by (simp add: ring_bds_def bd sample_channel_def)
  have b: "ring_buf 4 (tx_ipc tx_full_sample) 0 = 0x8000"
    unfolding ring_buf_def c rb by (simp add: bd_buf_def tx_full_sample_def tx_sample_def sample_state_def blank_us_def Let_def)
  have "msg_wf 4 (tx_ipc tx_full_sample)"
    unfolding msg_wf_def c using b u rb
    by (simp add: chan_ok_def ch_contents_def ring_slice_Suc_front sample_channel_def)
      (simp add: tx_full_sample_def tx_sample_def sample_state_def Let_def)
  then show "tx_wf tx_full_sample"
    using tx_sample_wf(1) by (simp add: tx_wf_def c) (simp add: tx_full_sample_def sample_channel_def)
  show m: "cur_buf tx_full_sample = cur_buf tx_sample" "tx_mem tx_full_sample = tx_sample_mem"
    using tx_sample_views(2) by (simp_all add: cur_buf_def tx_full_sample_def tx_mem_def)
  show "OS_HET_CH_FULL (chan_of 4 (tx_ipc tx_full_sample))" unfolding c full_iff u by (simp add: sample_channel_def)
  have "ring_mem 4 (tx_ipc tx_full_sample) = span 0x8000 16"
    unfolding ring_mem_def c using b by (simp add: lessThan_Suc sample_channel_def)
  then show "tx_regions 0x9000 tx_full_sample"
    using tx_sample_wf(2) by (simp add: tx_regions_def m tx_sample_channel(4))
qed (simp add: tx_full_sample_def tx_sample_def)

theorem dl_config_full_channel_witness:
  "\<exists>st'. fapi_p7_dl_config_request (\<lambda>_. 0) 0x9000 0x400000 tx_full_sample = Inr (0, st') \<and>
    msg_contents 4 (tx_ipc st') = msg_contents 4 (tx_ipc tx_full_sample)"
proof -
  have "span (0x400000 :: u32) 113960 \<inter> span 0x130000 65536 = {}" by (simp add: span_disjointI)
  then show ?thesis
    using dl_config_full_channel [where lk = "\<lambda>_. 0", OF tx_full_sample_facts(1,2), where req = "0x400000"
        and b = "0x130000" and nd = 2 and np = 1 and p = 3 and k = 1] tx_full_sample_facts(3-6)
    by (auto simp: tx_sample_views)
qed

end
