(* ===== verification/FAPI_Tx_Data.thy ===== *)
theory FAPI_Tx_Data
  imports FAPI_Tx_Props
begin

text \<open>
  The transmit request: transport blocks are copied behind the PDU list of the message, each at an
  offset that is a multiple of 8, and the block's entry gets the physical address of the copy.
\<close>

section \<open>The room the blocks take\<close>

definition up8 :: "nat \<Rightarrow> nat" where
  "up8 n = (n + 7) div 8 * 8"

definition block_room :: "mem \<Rightarrow> vaddr \<Rightarrow> nat" where
  "block_room m rp = (if load_be32 m rp = 0 then 0 else up8 (unat (load_be32 m (rp + 4))))"

definition pdu_room :: "mem \<Rightarrow> vaddr \<Rightarrow> nat \<Rightarrow> nat" where
  "pdu_room m rp j = (\<Sum>k \<in> {j..<unat (load_be32 m (rp + 8))}. block_room m (rp + 12 + 12 * of_nat k))"

definition tx_room :: "mem \<Rightarrow> vaddr \<Rightarrow> nat \<Rightarrow> nat" where
  "tx_room m req i = (\<Sum>k \<in> {i..<unat (load_be32 m (req + 20))}. pdu_room m (req + 59944 + 396 * of_nat k) 0)"

lemma le_up8: "n \<le> up8 n"
  unfolding up8_def by (rule order_trans [of _ "n + 7 - (n + 7) mod 8"]) (simp_all add: minus_mod_eq_div_mult)

lemma unat_up8:
  fixes w :: u32
  assumes "unat w + 7 < 2 ^ 32"
  shows "unat ((w + 7) AND 0xFFFFFFF8) = up8 (unat w)"
proof -
  have e: "(0xFFFFFFF8 :: u32) = NOT (2 ^ 3 - 1)" by simp
  have "unat (w + 7) = unat w + 7" using assms by (simp add: unat_word_ariths(1))
  then show ?thesis unfolding e using unat_align_down [of 3 "w + 7"] by (simp add: up8_def)
qed

section \<open>Writes by offset\<close>

text \<open>Only bytes whose offset from \<open>b\<close> is in \<open>A\<close> differ.\<close>

definition touch :: "vaddr \<Rightarrow> nat set \<Rightarrow> mem \<Rightarrow> mem \<Rightarrow> bool" where
  "touch b A m m' \<longleftrightarrow> (\<forall>z. unat (z - b) \<notin> A \<longrightarrow> m' z = m z)"

lemma touch_refl [simp]: "touch b A m m"
  by (simp add: touch_def)

lemma touch_trans: "touch b A m m' \<Longrightarrow> touch b B m' m'' \<Longrightarrow> A \<subseteq> C \<Longrightarrow> B \<subseteq> C \<Longrightarrow> touch b C m m''"
  unfolding touch_def by (metis subsetD)

lemma touch_mono: "touch b A m m' \<Longrightarrow> A \<subseteq> C \<Longrightarrow> touch b C m m'"
  using touch_trans [OF _ touch_refl] by blast

lemma span_offset_range:
  assumes "z \<in> span (b + x) n" "unat x + unat n \<le> 2 ^ 32"
  shows "unat x \<le> unat (z - b) \<and> unat (z - b) < unat x + unat n"
proof -
  have n: "unat (z - b - x) < unat n" using assms(1) by (simp add: span_def word_less_nat_alt diff_diff_eq)
  have "unat (z - b - x + x) = unat (z - b - x) + unat x"
    using n assms(2) by (simp only: unat_word_ariths(1)) simp
  then show ?thesis using n by simp
qed

lemma touch_store:
  assumes "unat x + 4 \<le> 2 ^ 32"
  shows "touch b {unat x..<unat x + 4} m (store_be32 m (b + x) w)"
  unfolding touch_def
proof (intro allI impI)
  fix z assume "unat (z - b) \<notin> {unat x..<unat x + 4}"
  then have "z \<notin> span (b + x) 4" using span_offset_range [of z b x 4] assms by auto
  then show "store_be32 m (b + x) w z = m z" by (rule store_outside)
qed

lemma touch_memcpy:
  assumes "unat x + unat n \<le> 2 ^ 32"
  shows "touch b {unat x..<unat x + unat n} m (memcpy m (b + x) a n)"
  unfolding touch_def
proof (intro allI impI)
  fix z assume "unat (z - b) \<notin> {unat x..<unat x + unat n}"
  then have "z \<notin> span (b + x) n" using span_offset_range [OF _ assms, of z b] by auto
  then show "memcpy m (b + x) a n z = m z" by (simp add: memcpy_def span_def)
qed

lemma touch_same_on:
  assumes "touch b A m m'" "unat x + unat n \<le> 2 ^ 32" "{unat x..<unat x + unat n} \<inter> A = {}"
  shows "same_on (span (b + x) n) m m'"
proof (rule same_onI)
  fix z assume "z \<in> span (b + x) n"
  then have "unat (z - b) \<in> {unat x..<unat x + unat n}" using span_offset_range [OF _ assms(2)] by auto
  then show "m' z = m z" using assms(1,3) unfolding touch_def by blast
qed

lemma touch_load:
  assumes "touch b A m m'" "unat x + 4 \<le> 2 ^ 32" "{unat x..<unat x + 4} \<inter> A = {}"
  shows "load_be32 m' (b + x) = load_be32 m (b + x)"
  using touch_same_on [OF assms(1), of x 4] assms(2,3) by (intro load_same_on) simp

section \<open>One transport block\<close>

text \<open>
  The block whose entry is at offset \<open>y\<close> of the request has been put: its entry is at offset \<open>x\<close> of the
  message, its data \<open>d\<close> bytes into the data area.
\<close>

definition block_put :: "(vaddr \<Rightarrow> u32) \<Rightarrow> mem \<Rightarrow> vaddr \<Rightarrow> u32 \<Rightarrow> vaddr \<Rightarrow> u32 \<Rightarrow> u32 \<Rightarrow> nat \<Rightarrow> mem \<Rightarrow> bool" where
  "block_put v2p m req y b x off d M \<longleftrightarrow>
     load_be32 M (b + x) = load_be32 m (req + y) \<and> load_be32 M (b + x + 4) = load_be32 m (req + y + 4) \<and>
     (if load_be32 m (req + y) = 0 then load_be32 M (b + x + 8) = load_be32 m (req + y + 8)
      else load_be32 M (b + x + 8) = v2p (b + off + of_nat d) \<and>
        read_bytes M (b + off + of_nat d) (unat (load_be32 m (req + y + 4))) =
          read_bytes m (load_be32 m (req + y + 8)) (unat (load_be32 m (req + y + 4))))"

text \<open>What the copying of a block relies on.\<close>

definition block_fits :: "mem \<Rightarrow> vaddr \<Rightarrow> u32 \<Rightarrow> vaddr \<Rightarrow> u32 \<Rightarrow> u32 \<Rightarrow> u32 \<Rightarrow> nat \<Rightarrow> bool" where
  "block_fits m req y b K x off d \<longleftrightarrow>
     span req 113960 \<inter> span b K = {} \<and> unat y + 12 \<le> 113960 \<and> unat x + 12 \<le> unat off \<and>
     unat off + d + block_room m (req + y) \<le> unat K \<and>
     (load_be32 m (req + y) \<noteq> 0 \<longrightarrow>
        span (load_be32 m (req + y + 8)) (load_be32 m (req + y + 4)) \<inter> span b K = {}) \<and>
     unat (load_be32 m (req + y + 4)) + 7 < 2 ^ 32"

lemma block_put_stable:
  assumes "block_put v2p m req y b x off d M" "touch b A M M'" "block_fits m req y b K x off d"
    "{unat x..<unat x + 12} \<inter> A = {}" "{unat off + d..<unat off + d + block_room m (req + y)} \<inter> A = {}"
  shows "block_put v2p m req y b x off d M'"
proof -
  have K: "unat K < 2 ^ 32" by (rule order_less_le_trans [OF unat_less_exp]) simp
  have fit: "unat x + 12 \<le> unat off" "unat off + d + block_room m (req + y) \<le> unat K"
    using assms(3) by (simp_all add: block_fits_def)
  have x: "unat (x + 4) = unat x + 4" "unat (x + 8) = unat x + 8" using fit K by (simp_all add: unat_word_ariths(1))
  have ld: "load_be32 M' (b + x') = load_be32 M (b + x')" if "unat x \<le> unat x'" "unat x' + 4 \<le> unat x + 12" for x'
  proof (rule touch_load [OF assms(2)])
    have "{unat x'..<unat x' + 4} \<subseteq> {unat x..<unat x + 12}" using that by auto
    then show "{unat x'..<unat x' + 4} \<inter> A = {}" using assms(4) by blast
  qed (use that fit K in simp)
  have l: "load_be32 M' (b + x) = load_be32 M (b + x)" "load_be32 M' (b + x + 4) = load_be32 M (b + x + 4)"
    "load_be32 M' (b + x + 8) = load_be32 M (b + x + 8)"
    using ld [of x] ld [of "x + 4"] ld [of "x + 8"] x by (simp_all add: add.assoc)
  have d: "unat (off + of_nat d) = unat off + d" using fit K by (simp add: unat_of_nat unat_word_ariths(1))
  have "read_bytes M' (b + off + of_nat d) (unat (load_be32 m (req + y + 4))) =
      read_bytes M (b + off + of_nat d) (unat (load_be32 m (req + y + 4)))" if "load_be32 m (req + y) \<noteq> 0"
  proof (rule read_bytes_same_on [of _ "load_be32 m (req + y + 4)"])
    have r: "unat (load_be32 m (req + y + 4)) \<le> block_room m (req + y)" using that le_up8 by (simp add: block_room_def)
    then have "{unat off + d..<unat off + d + unat (load_be32 m (req + y + 4))} \<subseteq>
        {unat off + d..<unat off + d + block_room m (req + y)}" by auto
    then have "{unat off + d..<unat off + d + unat (load_be32 m (req + y + 4))} \<inter> A = {}" using assms(5) by blast
    then show "same_on (span (b + off + of_nat d) (load_be32 m (req + y + 4))) M M'"
      using touch_same_on [OF assms(2), of "off + of_nat d" "load_be32 m (req + y + 4)"] d r fit K
      by (simp add: add.assoc)
  qed simp
  then show ?thesis using assms(1) l by (simp add: block_put_def)
qed

text \<open>
  The block copied with the request read from the memory \<open>m\<close> the loops started with, \<open>t\<close>, \<open>l\<close> and \<open>a\<close>
  its tag, length and data pointer.
\<close>

definition put_entry :: "u32 \<Rightarrow> u32 \<Rightarrow> vaddr \<Rightarrow> u32 \<Rightarrow> mem \<Rightarrow> mem" where
  "put_entry t l b x m = store_be32 (store_be32 m (b + x) t) (b + (x + 4)) l"

lemma block_fits_words:
  assumes "block_fits m req y b K x off d"
  shows "unat (x + 4) = unat x + 4" "unat (x + 8) = unat x + 8" "unat (y + 4) = unat y + 4" "unat (y + 8) = unat y + 8"
    "unat (off + of_nat d) = unat off + d" "unat x + 12 \<le> unat K" "unat x + 12 \<le> unat off" "unat K < 2 ^ 32"
    "unat off + d + block_room m (req + y) \<le> unat K"
proof -
  show K: "unat K < 2 ^ 32" by (rule order_less_le_trans [OF unat_less_exp]) simp
  show f: "unat x + 12 \<le> unat off" "unat off + d + block_room m (req + y) \<le> unat K"
    using assms by (simp_all add: block_fits_def)
  then show "unat x + 12 \<le> unat K" by simp
  show "unat (x + 4) = unat x + 4" "unat (x + 8) = unat x + 8" "unat (off + of_nat d) = unat off + d"
    using f K by (simp_all add: unat_word_ariths(1) unat_of_nat)
  show "unat (y + 4) = unat y + 4" "unat (y + 8) = unat y + 8"
    using assms by (simp_all add: block_fits_def unat_word_ariths(1))
qed

lemma tx_block_eq:
  assumes W: "within b K m (fst s)" and d: "snd s = of_nat d" and fits: "block_fits m req y b K x off d"
  defines "t \<equiv> load_be32 m (req + y)" and "l \<equiv> load_be32 m (req + y + 4)" and "a \<equiv> load_be32 m (req + y + 8)"
  shows "tx_block v2p (b + off) (req + y) (b + x) s =
    (if t = 0 then (store_be32 (put_entry t l b x (fst s)) (b + (x + 8)) a, of_nat d)
     else (store_be32 (memcpy (put_entry t l b x (fst s)) (b + (off + of_nat d)) a l) (b + (x + 8)) (v2p (b + (off + of_nat d))),
           of_nat (d + up8 (unat l))))"
    "within b K m (fst (tx_block v2p (b + off) (req + y) (b + x) s))"
proof -
  note F = block_fits_words [OF fits]
  have out: "span req 113960 \<inter> span b K = {}" "unat y + 12 \<le> 113960" using fits by (simp_all add: block_fits_def)
  note L = load_outside [OF _ out(1)]
  let ?m1 = "store_be32 (fst s) (b + x) t" and ?m2 = "put_entry t l b x (fst s)"
  have w1: "within b K m ?m1" by (rule within_store [OF W]) (use F in simp)
  have w2: "within b K m ?m2" unfolding put_entry_def by (rule within_store [OF w1]) (use F in simp)
  have r0: "load_be32 (fst s) (req + y) = t" unfolding t_def by (rule L [OF W]) (use out(2) in simp)
  have r1: "load_be32 ?m1 (req + y + 4) = l" unfolding l_def add.assoc by (rule L [OF w1]) (use out(2) F in simp)
  have r2: "load_be32 ?m2 (req + y) = t" "load_be32 ?m2 (req + y + 4) = l" "load_be32 ?m2 (req + y + 8) = a"
    unfolding t_def l_def a_def add.assoc by (rule L [OF w2 [unfolded t_def l_def add.assoc]]; use out(2) F in simp)+
  let ?m3 = "memcpy ?m2 (b + (off + of_nat d)) a l"
  let ?m4 = "store_be32 ?m3 (b + (x + 8)) (v2p (b + (off + of_nat d)))"
  have big: "within b K m ?m4" "load_be32 ?m4 (req + y + 4) = l"
    "of_nat d + ((l + 7) AND 0xFFFFFFF8) = (of_nat (d + up8 (unat l)) :: u32)" if "t \<noteq> 0"
  proof -
    have r: "block_room m (req + y) = up8 (unat l)" using that by (simp add: block_room_def t_def l_def)
    have w3: "within b K m ?m3" by (rule within_memcpy [OF w2]) (use F r le_up8 [of "unat l"] in simp)
    show w4: "within b K m ?m4" by (rule within_store [OF w3]) (use F in simp)
    show "load_be32 ?m4 (req + y + 4) = l" unfolding l_def add.assoc
      by (rule L [OF w4 [unfolded l_def add.assoc]]) (use out(2) F in simp)
    have "unat l + 7 < 2 ^ 32" using fits by (simp add: block_fits_def l_def)
    then show "of_nat d + ((l + 7) AND 0xFFFFFFF8) = (of_nat (d + up8 (unat l)) :: u32)"
      using unat_up8 [of l] by (simp add: word_unat_eq_iff unat_word_ariths(1) unat_of_nat mod_simps)
  qed
  show eq: "tx_block v2p (b + off) (req + y) (b + x) s =
    (if t = 0 then (store_be32 ?m2 (b + (x + 8)) a, of_nat d) else (?m4, of_nat (d + up8 (unat l))))"
    unfolding tx_block_def Let_def copy_word_def r0 r1 d
      r2 [unfolded put_entry_def add.assoc [symmetric]]
    using big(2,3) by (simp add: put_entry_def add.assoc)
  show "within b K m (fst (tx_block v2p (b + off) (req + y) (b + x) s))"
    unfolding eq using big(1) within_store [OF w2, of "x + 8" a] F by (cases "t = 0") simp_all
qed

lemma put_entry_touch:
  assumes "unat x + 12 \<le> 2 ^ 32" "unat (x + 4) = unat x + 4" "unat (x + 8) = unat x + 8"
  shows "touch b {unat x..<unat x + 12} m (put_entry t l b x m)"
    "touch b {unat x..<unat x + 12} m (store_be32 m (b + (x + 8)) w)"
proof -
  show "touch b {unat x..<unat x + 12} m (put_entry t l b x m)"
    unfolding put_entry_def by (rule touch_trans [OF touch_store touch_store]) (use assms in auto)
  show "touch b {unat x..<unat x + 12} m (store_be32 m (b + (x + 8)) w)"
    by (rule touch_mono [OF touch_store]) (use assms in auto)
qed

lemma tx_block_put:
  fixes v2p :: "vaddr \<Rightarrow> u32"
  assumes W: "within b K m (fst s)" and d: "snd s = of_nat d" and fits: "block_fits m req y b K x off d"
  defines "s' \<equiv> tx_block v2p (b + off) (req + y) (b + x) s"
  shows "within b K m (fst s')" "snd s' = of_nat (d + block_room m (req + y))"
    "touch b ({unat x..<unat x + 12} \<union> {unat off + d..<unat off + d + block_room m (req + y)}) (fst s) (fst s')"
    "block_put v2p m req y b x off d (fst s')"
proof -
  let ?t = "load_be32 m (req + y)" and ?l = "load_be32 m (req + y + 4)" and ?a = "load_be32 m (req + y + 8)"
  let ?m2 = "put_entry ?t ?l b x (fst s)"
  note F = block_fits_words [OF fits] and eq = tx_block_eq(1) [OF W d fits, of v2p]
  note T = put_entry_touch [of x b, OF _ F(1,2)]
  show "within b K m (fst s')" unfolding s'_def by (rule tx_block_eq(2) [OF W d fits])
  show "snd s' = of_nat (d + block_room m (req + y))" unfolding s'_def eq by (simp add: block_room_def)
  have e: "load_be32 ?m2 (b + x) = ?t" "load_be32 ?m2 (b + x + 4) = ?l"
    by (simp_all add: put_entry_def load_store_apart add.assoc)
  have "touch b ({unat x..<unat x + 12} \<union> {unat off + d..<unat off + d + block_room m (req + y)}) (fst s) (fst s') \<and>
    block_put v2p m req y b x off d (fst s')"
  proof (cases "?t = 0")
    case True
    have "touch b {unat x..<unat x + 12} (fst s) (store_be32 ?m2 (b + (x + 8)) ?a)"
      by (rule touch_trans [OF T(1) T(2)]) (use F in auto)
    then show ?thesis
      using True e unfolding s'_def eq block_put_def
      by (auto simp: load_store_apart add.assoc elim: touch_mono)
  next
    case False
    let ?p = "b + (off + of_nat d)"
    let ?m3 = "memcpy ?m2 ?p ?a ?l" let ?m4 = "store_be32 ?m3 (b + (x + 8)) (v2p ?p)"
    have r: "block_room m (req + y) = up8 (unat ?l)" using False by (simp add: block_room_def)
    have t3: "touch b {unat off + d..<unat off + d + unat ?l} ?m2 ?m3"
      using touch_memcpy [of "off + of_nat d" ?l b] F r le_up8 [of "unat ?l"] by simp
    have lp: "load_be32 ?m3 (b + x) = ?t" "load_be32 ?m3 (b + (x + 4)) = ?l"
      using touch_load [OF t3, of x] touch_load [OF t3, of "x + 4"] e F by (auto simp: add.assoc)
    have "touch b ({unat x..<unat x + 12} \<union> {unat off + d..<unat off + d + unat ?l}) (fst s) ?m3"
      by (rule touch_trans [OF T(1) t3]) (use F in auto)
    then have t4: "touch b ({unat x..<unat x + 12} \<union> {unat off + d..<unat off + d + unat ?l}) (fst s) ?m4"
      by (rule touch_trans [OF _ T(2)]) (use F in auto)
    have tm4: "touch b {unat x..<unat x + 12} ?m3 ?m4" by (rule T(2)) (use F in simp)
    have "read_bytes ?m4 ?p (unat ?l) = read_bytes ?m3 ?p (unat ?l)"
      by (rule read_bytes_same_on [OF touch_same_on [OF tm4]]) (use F r le_up8 [of "unat ?l"] in auto)
    also have "\<dots> = read_bytes ?m2 ?a (unat ?l)" by (rule read_bytes_copied)
    also have "\<dots> = read_bytes m ?a (unat ?l)"
    proof (rule read_bytes_same_on [of _ ?l])
      have "within b K m ?m2"
        unfolding put_entry_def by (intro within_store W) (use F in simp_all)
      then show "same_on (span ?a ?l) m ?m2"
        by (rule same_outside) (use False fits in \<open>simp add: block_fits_def\<close>)
    qed simp
    finally show ?thesis
      using False lp t4 r le_up8 [of "unat ?l"] unfolding s'_def eq block_put_def
      by (auto simp: load_store_apart add.assoc elim!: touch_mono)
  qed
  then show "touch b ({unat x..<unat x + 12} \<union> {unat off + d..<unat off + d + block_room m (req + y)}) (fst s) (fst s')"
    "block_put v2p m req y b x off d (fst s')" by simp_all
qed

section \<open>The blocks of one PDU\<close>

definition blk :: "u32 \<Rightarrow> nat \<Rightarrow> u32" where
  "blk p k = p + (12 + 12 * of_nat k)"

lemma blk_addr: "a + p + 12 + 12 * of_nat k = a + blk p k"
  by (simp add: blk_def add.assoc)

definition n_blocks :: "mem \<Rightarrow> vaddr \<Rightarrow> nat" where
  "n_blocks m rp = unat (load_be32 m (rp + 8))"

lemma pdu_room_step:
  assumes "j < n_blocks m (req + yp)"
  shows "pdu_room m (req + yp) j = block_room m (req + blk yp j) + pdu_room m (req + yp) (Suc j)"
  using assms unfolding pdu_room_def blk_addr n_blocks_def by (simp add: sum.atLeast_Suc_lessThan)

lemma pdu_room_end: "n_blocks m rp \<le> j \<Longrightarrow> pdu_room m rp j = 0"
  by (simp add: pdu_room_def n_blocks_def)

text \<open>The PDU at offset \<open>yp\<close> of the request, its copy at offset \<open>xp\<close> of the message.\<close>

definition pdu_fits :: "mem \<Rightarrow> vaddr \<Rightarrow> u32 \<Rightarrow> vaddr \<Rightarrow> u32 \<Rightarrow> u32 \<Rightarrow> u32 \<Rightarrow> bool" where
  "pdu_fits m req yp b K xp off \<longleftrightarrow>
     span req 113960 \<inter> span b K = {} \<and> unat yp + 396 \<le> 113960 \<and> unat xp + 396 \<le> unat off \<and> n_blocks m (req + yp) \<le> 32 \<and>
     (\<forall>k < n_blocks m (req + yp). load_be32 m (req + blk yp k) \<noteq> 0 \<longrightarrow>
        span (load_be32 m (req + blk yp k + 8)) (load_be32 m (req + blk yp k + 4)) \<inter> span b K = {}) \<and>
     (\<forall>k < n_blocks m (req + yp). unat (load_be32 m (req + blk yp k + 4)) + 7 < 2 ^ 32)"

lemma unat_blk:
  assumes "unat p + 396 \<le> 2 ^ 32" "k < 32"
  shows "unat (blk p k) = unat p + 12 + 12 * k"
  using assms by (simp add: blk_def unat_word_ariths unat_of_nat)

lemma pdu_block_fits:
  assumes "pdu_fits m req yp b K xp off" "j < n_blocks m (req + yp)" "unat off + d + pdu_room m (req + yp) j \<le> unat K"
  shows "block_fits m req (blk yp j) b K (blk xp j) off d" "unat (blk xp j) = unat xp + 12 + 12 * j" "j < 32"
proof -
  have f: "unat yp + 396 \<le> 113960" "unat xp + 396 \<le> unat off" "j < 32"
    using assms(1,2) by (auto simp: pdu_fits_def)
  have "unat off < 2 ^ 32" by (rule order_less_le_trans [OF unat_less_exp]) simp
  then show u: "unat (blk xp j) = unat xp + 12 + 12 * j" using f by (intro unat_blk) simp_all
  have "unat (blk yp j) = unat yp + 12 + 12 * j" using f by (intro unat_blk) simp_all
  then show "block_fits m req (blk yp j) b K (blk xp j) off d"
    using assms f u pdu_room_step [OF assms(2)] by (auto simp: block_fits_def pdu_fits_def)
  show "j < 32" by (rule f)
qed

lemma tx_blocks_put:
  fixes v2p :: "vaddr \<Rightarrow> u32"
  assumes fits: "pdu_fits m req yp b K xp off" and W: "within b K m (fst s)" and d: "snd s = of_nat d"
    and room: "unat off + d + pdu_room m (req + yp) j \<le> unat K"
  defines "s' \<equiv> tx_blocks v2p (b + off) (req + yp) (b + xp) j s"
  shows "within b K m (fst s')" "snd s' = of_nat (d + pdu_room m (req + yp) j)"
    "touch b ({unat xp + 12 + 12 * j..<unat xp + 396} \<union> {unat off + d..<unat off + d + pdu_room m (req + yp) j}) (fst s) (fst s')"
    "\<And>k. j \<le> k \<Longrightarrow> k < n_blocks m (req + yp) \<Longrightarrow>
       block_put v2p m req (blk yp k) b (blk xp k) off (d + (\<Sum>l \<in> {j..<k}. block_room m (req + blk yp l))) (fst s')"
proof -
  have "within b K m (fst s') \<and> snd s' = of_nat (d + pdu_room m (req + yp) j) \<and>
    touch b ({unat xp + 12 + 12 * j..<unat xp + 396} \<union> {unat off + d..<unat off + d + pdu_room m (req + yp) j}) (fst s) (fst s') \<and>
    (\<forall>k. j \<le> k \<longrightarrow> k < n_blocks m (req + yp) \<longrightarrow>
       block_put v2p m req (blk yp k) b (blk xp k) off (d + (\<Sum>l \<in> {j..<k}. block_room m (req + blk yp l))) (fst s'))"
    unfolding s'_def using W d room
  proof (induction "n_blocks m (req + yp) - j" arbitrary: j s d)
    case 0
    have "load_be32 (fst s) (req + yp + 8) = load_be32 m (req + yp + 8)"
      unfolding add.assoc using fits
      by (intro load_outside [OF 0(2)]) (auto simp: pdu_fits_def unat_word_ariths(1))
    then show ?case using 0 by (subst (1 2 3 4) tx_blocks.simps) (simp add: n_blocks_def pdu_room_end)
  next
    case (Suc n)
    then have j: "j < n_blocks m (req + yp)" by simp
    note bf = pdu_block_fits [OF fits j Suc.prems(3)]
    let ?s1 = "tx_block v2p (b + off) (req + blk yp j) (b + blk xp j) s"
    let ?s2 = "tx_blocks v2p (b + off) (req + yp) (b + xp) (Suc j) ?s1"
    let ?d1 = "d + block_room m (req + blk yp j)"
    note B = tx_block_put [OF Suc.prems(1,2) bf(1), of v2p] and R = pdu_room_step [OF j]
    have "n = n_blocks m (req + yp) - Suc j" "unat off + ?d1 + pdu_room m (req + yp) (Suc j) \<le> unat K"
      using Suc.hyps(2) Suc.prems(3) R by simp_all
    note I = Suc.hyps(1) [OF this(1) B(1,2) this(2)]
    have "load_be32 (fst s) (req + yp + 8) = load_be32 m (req + yp + 8)"
      unfolding add.assoc using fits
      by (intro load_outside [OF Suc.prems(1)]) (auto simp: pdu_fits_def unat_word_ariths(1))
    then have eq: "tx_blocks v2p (b + off) (req + yp) (b + xp) j s = ?s2"
      using j by (subst tx_blocks.simps) (simp add: n_blocks_def blk_addr)
    let ?A = "{unat xp + 12 + 12 * Suc j..<unat xp + 396} \<union> {unat off + ?d1..<unat off + ?d1 + pdu_room m (req + yp) (Suc j)}"
    have t: "touch b ?A (fst ?s1) (fst ?s2)" using I by blast
    have xo: "unat xp + 396 \<le> unat off" using fits by (simp add: pdu_fits_def)
    have put: "block_put v2p m req (blk yp j) b (blk xp j) off d (fst ?s2)"
      by (rule block_put_stable [OF B(4) t bf(1)]) (use bf(2,3) xo in auto)
    have "block_put v2p m req (blk yp k) b (blk xp k) off (d + (\<Sum>l \<in> {j..<k}. block_room m (req + blk yp l))) (fst ?s2)"
      if "j \<le> k" "k < n_blocks m (req + yp)" for k
    proof (cases "k = j")
      case False
      then have "(\<Sum>l \<in> {j..<k}. block_room m (req + blk yp l)) =
          block_room m (req + blk yp j) + (\<Sum>l \<in> {Suc j..<k}. block_room m (req + blk yp l))"
        using that by (simp add: sum.atLeast_Suc_lessThan)
      then show ?thesis using I that False by (simp add: add.assoc)
    qed (use put in simp)
    moreover have "touch b ({unat xp + 12 + 12 * j..<unat xp + 396} \<union>
        {unat off + d..<unat off + d + pdu_room m (req + yp) j}) (fst s) (fst ?s2)"
      by (rule touch_trans [OF B(3) t]) (use bf(2,3) R in auto)
    ultimately show ?case unfolding eq using I R by (simp add: add.assoc)
  qed
  then show "within b K m (fst s')" "snd s' = of_nat (d + pdu_room m (req + yp) j)"
    "touch b ({unat xp + 12 + 12 * j..<unat xp + 396} \<union> {unat off + d..<unat off + d + pdu_room m (req + yp) j}) (fst s) (fst s')"
    "\<And>k. j \<le> k \<Longrightarrow> k < n_blocks m (req + yp) \<Longrightarrow>
       block_put v2p m req (blk yp k) b (blk xp k) off (d + (\<Sum>l \<in> {j..<k}. block_room m (req + blk yp l))) (fst s')"
    by blast+
qed

section \<open>One PDU\<close>

definition pdu_put :: "(vaddr \<Rightarrow> u32) \<Rightarrow> mem \<Rightarrow> vaddr \<Rightarrow> u32 \<Rightarrow> vaddr \<Rightarrow> u32 \<Rightarrow> u32 \<Rightarrow> nat \<Rightarrow> mem \<Rightarrow> bool" where
  "pdu_put v2p m req yp b xp off d M \<longleftrightarrow>
     (\<forall>w \<in> {0, 4, 8}. load_be32 M (b + (xp + w)) = load_be32 m (req + (yp + w))) \<and>
     (\<forall>k < n_blocks m (req + yp). block_put v2p m req (blk yp k) b (blk xp k) off
        (d + (\<Sum>l < k. block_room m (req + blk yp l))) M)"

lemma block_room_prefix:
  assumes "k < n_blocks m (req + yp)"
  shows "(\<Sum>l < k. block_room m (req + blk yp l)) + pdu_room m (req + yp) k = pdu_room m (req + yp) 0"
  using assms unfolding pdu_room_def blk_addr
  by (simp add: n_blocks_def lessThan_atLeast0 sum.atLeastLessThan_concat)

lemma pdu_put_stable:
  assumes put: "pdu_put v2p m req yp b xp off d M" and t: "touch b A M M'" and fits: "pdu_fits m req yp b K xp off"
    and room: "unat off + d + pdu_room m (req + yp) 0 \<le> unat K"
    and A: "{unat xp..<unat xp + 396} \<inter> A = {}" "{unat off + d..<unat off + d + pdu_room m (req + yp) 0} \<inter> A = {}"
  shows "pdu_put v2p m req yp b xp off d M'"
proof -
  have K: "unat off < 2 ^ 32" by (rule order_less_le_trans [OF unat_less_exp]) simp
  have xp: "unat xp + 396 \<le> unat off" using fits by (simp add: pdu_fits_def)
  have hdr: "load_be32 M' (b + (xp + w)) = load_be32 M (b + (xp + w))" if "w \<in> {0, 4, 8}" for w
  proof (rule touch_load [OF t])
    have u: "unat (xp + w) = unat xp + unat w" "unat w \<le> 8" using that xp K by (auto simp: unat_word_ariths(1))
    then have "{unat (xp + w)..<unat (xp + w) + 4} \<subseteq> {unat xp..<unat xp + 396}" by auto
    then show "{unat (xp + w)..<unat (xp + w) + 4} \<inter> A = {}" using A(1) by blast
    show "unat (xp + w) + 4 \<le> 2 ^ 32" using u xp K by simp
  qed
  have "block_put v2p m req (blk yp k) b (blk xp k) off (d + (\<Sum>l < k. block_room m (req + blk yp l))) M'"
    if k: "k < n_blocks m (req + yp)" for k
  proof -
    let ?dk = "d + (\<Sum>l < k. block_room m (req + blk yp l))"
    note pre = block_room_prefix [OF k]
    have rk: "unat off + ?dk + pdu_room m (req + yp) k \<le> unat K" using room pre by simp
    note bf = pdu_block_fits [OF fits k rk]
    have "{unat (blk xp k)..<unat (blk xp k) + 12} \<subseteq> {unat xp..<unat xp + 396}" using bf(2,3) by auto
    moreover have "{unat off + ?dk..<unat off + ?dk + block_room m (req + blk yp k)} \<subseteq>
        {unat off + d..<unat off + d + pdu_room m (req + yp) 0}" using pre pdu_room_step [OF k] by auto
    ultimately have "{unat (blk xp k)..<unat (blk xp k) + 12} \<inter> A = {}"
      "{unat off + ?dk..<unat off + ?dk + block_room m (req + blk yp k)} \<inter> A = {}" using A by blast+
    then show ?thesis
      using put k by (intro block_put_stable [OF _ t bf(1)]) (simp_all add: pdu_put_def)
  qed
  then show ?thesis using put hdr by (simp add: pdu_put_def)
qed

lemma tx_pdu_put:
  fixes v2p :: "vaddr \<Rightarrow> u32"
  assumes fits: "pdu_fits m req yp b K xp off" and W: "within b K m (fst s)" and d: "snd s = of_nat d"
    and room: "unat off + d + pdu_room m (req + yp) 0 \<le> unat K"
  defines "s' \<equiv> tx_pdu v2p (b + off) (req + yp) (b + xp) s"
  shows "within b K m (fst s')" "snd s' = of_nat (d + pdu_room m (req + yp) 0)"
    "touch b ({unat xp..<unat xp + 396} \<union> {unat off + d..<unat off + d + pdu_room m (req + yp) 0}) (fst s) (fst s')"
    "pdu_put v2p m req yp b xp off d (fst s')"
proof -
  have K: "unat off \<le> unat K" "unat K < 2 ^ 32"
    using room by (simp, intro order_less_le_trans [OF unat_less_exp]) simp
  have f: "span req 113960 \<inter> span b K = {}" "unat yp + 396 \<le> 113960" "unat xp + 396 \<le> unat off"
    using fits by (simp_all add: pdu_fits_def)
  have u: "unat (xp + 4) = unat xp + 4" "unat (xp + 8) = unat xp + 8" "unat (yp + 4) = unat yp + 4" "unat (yp + 8) = unat yp + 8"
    using f K by (simp_all add: unat_word_ariths(1))
  let ?L = "\<lambda>w. load_be32 m (req + (yp + w))"
  let ?m1 = "store_be32 (fst s) (b + (xp + 8)) (?L 8)"
  let ?m2 = "store_be32 ?m1 (b + (xp + 4)) (?L 4)" let ?m3 = "store_be32 ?m2 (b + xp) (load_be32 m (req + yp))"
  have w1: "within b K m ?m1" by (rule within_store [OF W]) (use f K u in simp)
  have w2: "within b K m ?m2" by (rule within_store [OF w1]) (use f K u in simp)
  have w3: "within b K m ?m3" by (rule within_store [OF w2]) (use f K in simp)
  note L = load_outside [OF _ f(1)]
  have r: "load_be32 (fst s) (req + (yp + 8)) = ?L 8" "load_be32 ?m1 (req + (yp + 4)) = ?L 4"
    "load_be32 ?m2 (req + yp) = load_be32 m (req + yp)"
    using L [OF W, of "yp + 8"] L [OF w1, of "yp + 4"] L [OF w2, of yp] f(2) u by simp_all
  have s': "s' = tx_blocks v2p (b + off) (req + yp) (b + xp) 0 (?m3, snd s)"
    unfolding s'_def tx_pdu_def Let_def copy_word_def add.assoc r ..
  have i: "within b K m (fst (?m3, snd s))" "snd (?m3, snd s) = of_nat d" using w3 d by simp_all
  note T' = tx_blocks_put [where v2p = v2p, OF fits i room, folded s', unfolded fst_conv]
  show "within b K m (fst s')" "snd s' = of_nat (d + pdu_room m (req + yp) 0)" by (rule T')+
  let ?B = "{unat xp + 12 + 12 * 0..<unat xp + 396} \<union> {unat off + d..<unat off + d + pdu_room m (req + yp) 0}"
  have st: "touch b {unat xp..<unat xp + 12} M (store_be32 M (b + x) w)"
    if "unat xp \<le> unat x" "unat x + 4 \<le> unat xp + 12" for M x w
    by (rule touch_mono [OF touch_store]) (use that f K in auto)
  have "touch b {unat xp..<unat xp + 12} (fst s) ?m2"
    by (rule touch_trans [OF st st]) (use u in simp_all)
  then have t3: "touch b {unat xp..<unat xp + 12} (fst s) ?m3"
    by (rule touch_trans [OF _ st]) simp_all
  show "touch b ({unat xp..<unat xp + 396} \<union> {unat off + d..<unat off + d + pdu_room m (req + yp) 0}) (fst s) (fst s')"
    by (rule touch_trans [OF t3 T'(3)]) auto
  have h: "load_be32 (fst s') (b + (xp + w)) = load_be32 ?m3 (b + (xp + w))" if "w \<in> {0, 4, 8}" for w
  proof (rule touch_load [OF T'(3)])
    have "unat (xp + w) = unat xp + unat w" "unat w \<le> 8" using that u by auto
    then show "{unat (xp + w)..<unat (xp + w) + 4} \<inter> ?B = {}" "unat (xp + w) + 4 \<le> 2 ^ 32" using f K by auto
  qed
  have "load_be32 ?m3 (b + (xp + w)) = ?L w" if "w \<in> {0, 4, 8}" for w
    using that by (auto simp: load_store_apart)
  then show "pdu_put v2p m req yp b xp off d (fst s')"
    using h T'(4) by (simp add: pdu_put_def lessThan_atLeast0)
qed

section \<open>The whole request\<close>

definition n_pdus :: "mem \<Rightarrow> vaddr \<Rightarrow> nat" where
  "n_pdus m req = unat (load_be32 m (req + 20))"

definition pdu_at :: "u32 \<Rightarrow> nat \<Rightarrow> u32" where
  "pdu_at p k = p + 396 * of_nat k"

lemma pdu_at_addr: "a + p + 396 * of_nat k = a + pdu_at p k"
  by (simp add: pdu_at_def add.assoc)

lemma tx_room_step:
  assumes "i < n_pdus m req"
  shows "tx_room m req i = pdu_room m (req + pdu_at 59944 i) 0 + tx_room m req (Suc i)"
  using assms unfolding tx_room_def n_pdus_def pdu_at_addr by (simp add: sum.atLeast_Suc_lessThan)

text \<open>
  A request the loops can serve: it and its data are outside the buffer, at most 64 PDUs of at most
  32 blocks, the PDU list in front of the data area.
\<close>

definition tx_fits :: "mem \<Rightarrow> vaddr \<Rightarrow> vaddr \<Rightarrow> u32 \<Rightarrow> u32 \<Rightarrow> bool" where
  "tx_fits m req b K off \<longleftrightarrow> span req 113960 \<inter> span b K = {} \<and> n_pdus m req \<le> 64 \<and>
     (\<forall>k < n_pdus m req. pdu_fits m req (pdu_at 59944 k) b K (pdu_at 16 k) off)"

lemma unat_pdu_at: "unat p \<le> 59944 \<Longrightarrow> k \<le> 64 \<Longrightarrow> unat (pdu_at p k) = unat p + 396 * k"
  by (simp add: pdu_at_def unat_word_ariths unat_of_nat)

lemma tx_pdus_put:
  fixes v2p :: "vaddr \<Rightarrow> u32"
  assumes fits: "tx_fits m req b K off" and W: "within b K m (fst s)" and d: "snd s = of_nat d"
    and room: "unat off + d + tx_room m req i \<le> unat K" and i: "i \<le> n_pdus m req"
  defines "s' \<equiv> tx_pdus v2p (b + off) req b i s"
  shows "within b K m (fst s') \<and> snd s' = of_nat (d + tx_room m req i) \<and>
    touch b ({16 + 396 * i..<16 + 396 * n_pdus m req} \<union> {unat off + d..<unat off + d + tx_room m req i}) (fst s) (fst s') \<and>
    (\<forall>k. i \<le> k \<longrightarrow> k < n_pdus m req \<longrightarrow> pdu_put v2p m req (pdu_at 59944 k) b (pdu_at 16 k) off
       (d + (\<Sum>l \<in> {i..<k}. pdu_room m (req + pdu_at 59944 l) 0)) (fst s'))"
  unfolding s'_def using W d room i
proof (induction "n_pdus m req - i" arbitrary: i s d)
  case 0
  have "load_be32 (fst s) (req + 20) = load_be32 m (req + 20)"
    using load_outside [OF 0(2), of req 113960 20] fits by (simp add: tx_fits_def)
  then show ?case using 0 by (subst (1 2 3 4) tx_pdus.simps) (simp add: n_pdus_def tx_room_def)
next
  case (Suc n)
  then have i: "i < n_pdus m req" by simp
  let ?y = "pdu_at 59944 i" and ?x = "pdu_at 16 i"
  have pf: "pdu_fits m req ?y b K ?x off" and le: "n_pdus m req \<le> 64" using fits i by (simp_all add: tx_fits_def)
  have x: "unat ?x = 16 + 396 * i" using i le by (simp add: unat_pdu_at)
  let ?s1 = "tx_pdu v2p (b + off) (req + ?y) (b + ?x) s"
  let ?s2 = "tx_pdus v2p (b + off) req b (Suc i) ?s1" and ?d1 = "d + pdu_room m (req + ?y) 0"
  note R = tx_room_step [OF i]
  have r1: "unat off + d + pdu_room m (req + ?y) 0 \<le> unat K" "unat off + ?d1 + tx_room m req (Suc i) \<le> unat K"
    using Suc.prems(3) R by simp_all
  note B = tx_pdu_put [where v2p = v2p, OF pf Suc.prems(1,2) r1(1)]
  have "n = n_pdus m req - Suc i" using Suc.hyps(2) by simp
  note I = Suc.hyps(1) [OF this B(1,2) r1(2) Suc_leI [OF i]]
  have "load_be32 (fst s) (req + 20) = load_be32 m (req + 20)"
    using load_outside [OF Suc.prems(1), of req 113960 20] fits by (simp add: tx_fits_def)
  then have eq: "tx_pdus v2p (b + off) req b i s = ?s2"
    using i by (subst tx_pdus.simps) (simp add: n_pdus_def pdu_at_addr)
  let ?A = "{16 + 396 * Suc i..<16 + 396 * n_pdus m req} \<union> {unat off + ?d1..<unat off + ?d1 + tx_room m req (Suc i)}"
  have t: "touch b ?A (fst ?s1) (fst ?s2)" using I by blast
  have xo: "unat ?x + 396 \<le> unat off" using pf by (simp add: pdu_fits_def)
  have last: "16 + 396 * n_pdus m req \<le> unat off"
  proof -
    obtain k where k: "n_pdus m req = Suc k" using i by (cases "n_pdus m req") simp_all
    then have "pdu_fits m req (pdu_at 59944 k) b K (pdu_at 16 k) off" using fits by (simp add: tx_fits_def)
    then have "unat (pdu_at 16 k) + 396 \<le> unat off" by (simp add: pdu_fits_def)
    then show ?thesis using k le by (simp add: unat_pdu_at)
  qed
  have put: "pdu_put v2p m req ?y b ?x off d (fst ?s2)"
    by (rule pdu_put_stable [OF B(4) t pf r1(1)]) (use x xo last in auto)
  have "pdu_put v2p m req (pdu_at 59944 k) b (pdu_at 16 k) off
      (d + (\<Sum>l \<in> {i..<k}. pdu_room m (req + pdu_at 59944 l) 0)) (fst ?s2)" if "i \<le> k" "k < n_pdus m req" for k
  proof (cases "k = i")
    case False
    then have "(\<Sum>l \<in> {i..<k}. pdu_room m (req + pdu_at 59944 l) 0) =
        pdu_room m (req + ?y) 0 + (\<Sum>l \<in> {Suc i..<k}. pdu_room m (req + pdu_at 59944 l) 0)"
      using that by (simp add: sum.atLeast_Suc_lessThan)
    then show ?thesis using I that False by (simp add: add.assoc)
  qed (use put in simp)
  moreover have "touch b ({16 + 396 * i..<16 + 396 * n_pdus m req} \<union> {unat off + d..<unat off + d + tx_room m req i}) (fst s) (fst ?s2)"
    by (rule touch_trans [OF B(3) t]) (use x R i in auto)
  ultimately show ?case unfolding eq using I R by (simp add: add.assoc)
qed

text \<open>The offset of the data area: the message with its PDU list, rounded up to 64 bytes.\<close>

definition tx_data_off :: "mem \<Rightarrow> vaddr \<Rightarrow> u32" where
  "tx_data_off m req = (var_size 412 396 (load_be32 m (req + 20)) + 63) AND 0xFFFFFFC0"

lemma tx_data_off_le:
  assumes "n_pdus m req \<le> 64"
  shows "unat (tx_data_off m req) = (unat (var_size 412 396 (load_be32 m (req + 20))) + 63) div 64 * 64"
    "412 \<le> unat (tx_data_off m req)"
proof -
  let ?v = "var_size 412 396 (load_be32 m (req + 20))"
  have n: "unat (load_be32 m (req + 20)) \<le> 128" using assms by (simp add: n_pdus_def)
  have e: "(0xFFFFFFC0 :: u32) = NOT (2 ^ 6 - 1)" by simp
  have "unat (?v + 63) = unat ?v + 63" using var_size_le [OF n, of 412 396] by (simp add: unat_word_ariths(1))
  then show u: "unat (tx_data_off m req) = (unat ?v + 63) div 64 * 64"
    unfolding tx_data_off_def e using unat_align_down [of 6 "?v + 63"] by simp
  have "412 \<le> unat ?v" using unat_var_size [OF n, of 412 396] by (simp split: if_splits)
  then show "412 \<le> unat (tx_data_off m req)" unfolding u by linarith
qed

lemma fill_tx_put:
  fixes v2p :: "vaddr \<Rightarrow> u32"
  assumes fits: "tx_fits m req b K off" and room: "unat off + tx_room m req 0 \<le> unat K"
    and off: "off = tx_data_off m req"
  defines "M \<equiv> fill_tx v2p req b m"
  shows "within b K m M" "load_be32 M b = 0x84" "load_be32 M (b + 4) = off + of_nat (tx_room m req 0)"
    "load_be32 M (b + 8) = push_bit 4 (load_be32 m req) OR load_be32 m (req + 4)"
    "load_be32 M (b + 12) = load_be32 m (req + 20)"
    "k < n_pdus m req \<Longrightarrow> pdu_put v2p m req (pdu_at 59944 k) b (pdu_at 16 k) off
       (\<Sum>l < k. pdu_room m (req + pdu_at 59944 l) 0) M"
proof -
  have req: "span req 113960 \<inter> span b K = {}" using fits by (simp add: tx_fits_def)
  let ?n = "load_be32 m (req + 20)"
  let ?m1 = "store_be32 m b 0x84"
  let ?m2 = "store_be32 ?m1 (b + 8) (push_bit 4 (load_be32 m req) OR load_be32 m (req + 4))"
  let ?m3 = "store_be32 ?m2 (b + 12) ?n"
  have o16: "412 \<le> unat off" using tx_data_off_le [of m req] fits off by (simp add: tx_fits_def)
  have w1: "within b K m ?m1" by (intro within_store_start) (use o16 room in simp_all)
  have w2: "within b K m ?m2" by (intro within_store w1) (use o16 room in simp)
  have w3: "within b K m ?m3" by (intro within_store w2) (use o16 room in simp)
  note L = load_outside [OF _ req]
  have r: "load_be32 ?m1 req = load_be32 m req" "load_be32 ?m1 (req + 4) = load_be32 m (req + 4)"
    "load_be32 ?m2 (req + 20) = ?n" "load_be32 ?m3 (b + 12) = ?n"
    using load_outside_start [OF w1 req] L [OF w1, of 4] L [OF w2, of 20] by simp_all
  let ?s = "tx_pdus v2p (b + off) req b 0 (?m3, 0)"
  have M: "M = store_be32 (fst ?s) (b + 4) (off + snd ?s)"
    unfolding M_def fill_tx_def Let_def copy_word_def r off [unfolded tx_data_off_def, symmetric] by (simp add: split_beta)
  have i: "within b K m (fst (?m3, 0 :: u32))" "snd (?m3, 0 :: u32) = of_nat 0" using w3 by simp_all
  note T = tx_pdus_put [where v2p = v2p, OF fits i, of 0, simplified fst_conv]
  have P: "within b K m (fst ?s)" "snd ?s = of_nat (tx_room m req 0)"
    "touch b ({16..<16 + 396 * n_pdus m req} \<union> {unat off..<unat off + tx_room m req 0}) ?m3 (fst ?s)"
    "\<And>k. k < n_pdus m req \<Longrightarrow> pdu_put v2p m req (pdu_at 59944 k) b (pdu_at 16 k) off
       (\<Sum>l < k. pdu_room m (req + pdu_at 59944 l) 0) (fst ?s)"
    using T room by (simp_all add: lessThan_atLeast0)
  show "within b K m M" unfolding M by (rule within_store [OF P(1)]) (use o16 room in simp)
  show "load_be32 M (b + 4) = off + of_nat (tx_room m req 0)" unfolding M P(2) by simp
  have hd: "load_be32 (fst ?s) (b + x) = load_be32 ?m3 (b + x)" if "unat x + 4 \<le> 16" for x
    by (rule touch_load [OF P(3)]) (use that o16 in auto)
  show "load_be32 M b = 0x84" "load_be32 M (b + 8) = push_bit 4 (load_be32 m req) OR load_be32 m (req + 4)"
    "load_be32 M (b + 12) = ?n"
    using hd [of 0] hd [of 8] hd [of 12] by (simp_all add: M load_store_apart)
  show "pdu_put v2p m req (pdu_at 59944 k) b (pdu_at 16 k) off (\<Sum>l < k. pdu_room m (req + pdu_at 59944 l) 0) M"
    if k: "k < n_pdus m req"
  proof (rule pdu_put_stable [OF P(4) [OF k]])
    show "touch b {4..<8} (fst ?s) M" unfolding M using touch_store [of 4 b "fst ?s" "off + snd ?s"] by simp
    show "pdu_fits m req (pdu_at 59944 k) b K (pdu_at 16 k) off" using fits k by (simp add: tx_fits_def)
    have "(\<Sum>l < Suc k. pdu_room m (req + pdu_at 59944 l) 0) \<le> (\<Sum>l < n_pdus m req. pdu_room m (req + pdu_at 59944 l) 0)"
      using k by (intro sum_mono2) auto
    then show "unat off + (\<Sum>l < k. pdu_room m (req + pdu_at 59944 l) 0) + pdu_room m (req + pdu_at 59944 k) 0 \<le> unat K"
      using room by (simp add: tx_room_def n_pdus_def lessThan_atLeast0 pdu_at_addr)
    show "{unat (pdu_at 16 k)..<unat (pdu_at 16 k) + 396} \<inter> {4..<8} = {}"
      using unat_pdu_at [of 16 k] k fits by (auto simp: tx_fits_def)
  qed (use o16 in auto)
qed

section \<open>Properties\<close>

text \<open>How many bytes of data stand in front of the block \<open>j\<close> of the PDU \<open>i\<close>.\<close>

definition data_before :: "mem \<Rightarrow> vaddr \<Rightarrow> nat \<Rightarrow> nat \<Rightarrow> nat" where
  "data_before m req i j =
     (\<Sum>l < i. pdu_room m (req + pdu_at 59944 l) 0) + (\<Sum>l < j. block_room m (req + blk (pdu_at 59944 i) l))"

lemma fill_tx_block:
  assumes "tx_fits m req b K (tx_data_off m req)" "unat (tx_data_off m req) + tx_room m req 0 \<le> unat K"
    "i < n_pdus m req" "j < n_blocks m (req + pdu_at 59944 i)"
  shows "block_put v2p m req (blk (pdu_at 59944 i) j) b (blk (pdu_at 16 i) j) (tx_data_off m req) (data_before m req i j)
    (fill_tx v2p req b m)"
  using fill_tx_put(6) [OF assms(1,2) refl assms(3), of v2p] assms(4) by (simp add: pdu_put_def data_before_def)

text \<open>C7: A transmit request is built as the DSP reads it. When the request and its data lie outside the
  message buffer, with at most 64 PDUs of at most 32 blocks, and everything fits into the buffer, the
  message has the PDU count, a length that counts the PDU list and all data, and for every block the
  tag and the length of the request, and, for a tagged block, a copy of its data in an area of its own
  behind the list together with the physical address of that copy. No byte outside the buffer changes.\<close>

theorem tx_request_built:
  assumes "tx_fits m req b 65520 (tx_data_off m req)" "unat (tx_data_off m req) + tx_room m req 0 \<le> 65520"
    "M = fill_tx v2p req b m"
  shows "within b 65520 m M \<and> load_be32 M (b + 12) = load_be32 m (req + 20) \<and>
    unat (load_be32 M (b + 4)) = unat (tx_data_off m req) + tx_room m req 0 \<and>
    (\<forall>i < n_pdus m req. \<forall>j < n_blocks m (req + pdu_at 59944 i).
       block_put v2p m req (blk (pdu_at 59944 i) j) b (blk (pdu_at 16 i) j) (tx_data_off m req) (data_before m req i j) M)"
proof -
  have r: "unat (tx_data_off m req) + tx_room m req 0 \<le> unat (65520 :: u32)" using assms(2) by simp
  note F = fill_tx_put [OF assms(1) r refl, where v2p = v2p, folded assms(3)]
  have "unat (load_be32 M (b + 4)) = unat (tx_data_off m req) + tx_room m req 0"
    unfolding F(3) using assms(2) by (simp add: unat_word_ariths(1) unat_of_nat)
  then show ?thesis using F(1,5) fill_tx_block [OF assms(1) r] unfolding assms(3) by blast
qed

text \<open>A sample request at 0x400000: one PDU with one tagged block, its data at 0x500000.\<close>

definition tx_req_mem :: "u32 \<Rightarrow> mem" where
  "tx_req_mem len = (store_be32 (\<lambda>_. 0) 0x40EA38 len)
     (0x400017 := 1, 0x40EA33 := 1, 0x40EA37 := 1, 0x40EA3D := 0x50, 0x50FE30 := 0xAB)"

lemma tx_req_mem_loads:
  "load_be32 (tx_req_mem len) 0x400014 = 1" "load_be32 (tx_req_mem len) 0x40EA30 = 1"
  "load_be32 (tx_req_mem len) 0x40EA34 = 1" "load_be32 (tx_req_mem len) 0x40EA38 = len"
  "load_be32 (tx_req_mem len) 0x40EA3C = 0x500000"
  by (simp_all add: load_be32_def tx_req_mem_def store_be32_def of_be32_def be32_def)
     (simp_all flip: of_be32_def)

lemma tx_req_sample:
  assumes "up8 (unat len) + 448 \<le> unat K" "unat K \<le> 0x20000"
  shows "tx_fits (tx_req_mem len) 0x400000 0x130010 K 448" "tx_data_off (tx_req_mem len) 0x400000 = 448"
    "tx_room (tx_req_mem len) 0x400000 0 = up8 (unat len)" "n_pdus (tx_req_mem len) 0x400000 = 1"
    "n_blocks (tx_req_mem len) (0x400000 + pdu_at 59944 0) = 1"
proof -
  let ?m = "tx_req_mem len"
  have len: "unat len \<le> 0x20000" using assms le_up8 [of "unat len"] by simp
  show off: "tx_data_off ?m 0x400000 = 448" by (simp add: tx_data_off_def tx_req_mem_loads var_size_def)
  show np: "n_pdus ?m 0x400000 = 1" by (simp add: n_pdus_def tx_req_mem_loads)
  show nb: "n_blocks ?m (0x400000 + pdu_at 59944 0) = 1" by (simp add: n_blocks_def pdu_at_def tx_req_mem_loads)
  have br: "block_room ?m (0x400000 + blk (pdu_at 59944 0) 0) = up8 (unat len)"
    by (simp add: block_room_def blk_def pdu_at_def tx_req_mem_loads)
  have "pdu_room ?m (0x400000 + pdu_at 59944 0) 0 = up8 (unat len)"
    using pdu_room_step [of 0 ?m "0x400000" "pdu_at 59944 0"] pdu_room_end [of ?m "0x400000 + pdu_at 59944 0" 1] nb br by simp
  moreover have "tx_room ?m 0x400000 (Suc 0) = 0" by (simp add: tx_room_def tx_req_mem_loads)
  ultimately show "tx_room ?m 0x400000 0 = up8 (unat len)" using tx_room_step [of 0 ?m "0x400000"] np by simp
  have "span (0x400000 :: u32) 113960 \<inter> span 0x130010 K = {}" "span (0x500000 :: u32) len \<inter> span 0x130010 K = {}"
    using assms(2) len by (intro span_disjointI; simp add: word_le_nat_alt)+
  moreover have "k = 0" if "k < n_blocks ?m (0x400000 + pdu_at 59944 0)" for k using that nb by simp
  ultimately have "pdu_fits ?m 0x400000 (pdu_at 59944 0) 0x130010 K (pdu_at 16 0) 448"
    using len nb unfolding pdu_fits_def by (auto simp: blk_def pdu_at_def tx_req_mem_loads)
  then show "tx_fits ?m 0x400000 0x130010 K 448"
    using np \<open>span (0x400000 :: u32) 113960 \<inter> span 0x130010 K = {}\<close> by (simp add: tx_fits_def)
qed

theorem tx_request_built_witness:
  "within 0x130010 65520 (tx_req_mem 100) (fill_tx (\<lambda>v. v + 0x70000000) 0x400000 0x130010 (tx_req_mem 100)) \<and>
   unat (load_be32 (fill_tx (\<lambda>v. v + 0x70000000) 0x400000 0x130010 (tx_req_mem 100)) 0x130014) = 552"
proof -
  have u: "up8 (unat (100 :: u32)) = 104" by (simp add: up8_def)
  note S = tx_req_sample [of 100 65520]
  show ?thesis
    using tx_request_built [of "tx_req_mem 100" "0x400000" "0x130010" _ "\<lambda>v. v + 0x70000000", OF _ _ refl] S u by simp
qed

lemma data_before_room:
  assumes "i < n_pdus m req" "j < n_blocks m (req + pdu_at 59944 i)"
  shows "data_before m req i j + block_room m (req + blk (pdu_at 59944 i) j) \<le> tx_room m req 0"
proof -
  have "(\<Sum>l < Suc i. pdu_room m (req + pdu_at 59944 l) 0) \<le> (\<Sum>l < n_pdus m req. pdu_room m (req + pdu_at 59944 l) 0)"
    using assms(1) by (intro sum_mono2) auto
  then have "(\<Sum>l < i. pdu_room m (req + pdu_at 59944 l) 0) + pdu_room m (req + pdu_at 59944 i) 0 \<le> tx_room m req 0"
    by (simp add: tx_room_def n_pdus_def lessThan_atLeast0 pdu_at_addr)
  then show ?thesis
    using block_room_prefix [OF assms(2)] pdu_room_step [OF assms(2)] by (simp add: data_before_def)
qed

text \<open>Nothing bounds the data of a transmit request by the size of the buffer: a byte of a block that lies
  beyond the buffer's end is written there all the same, over whatever the next buffer holds.\<close>

lemma tx_request_overruns:
  assumes "tx_fits m req b K (tx_data_off m req)" "unat (tx_data_off m req) + tx_room m req 0 \<le> unat K"
    "i < n_pdus m req" "j < n_blocks m (req + pdu_at 59944 i)" "y = blk (pdu_at 59944 i) j"
    "load_be32 m (req + y) \<noteq> 0" "e < unat (load_be32 m (req + y + 4))"
    "65520 \<le> unat (tx_data_off m req) + data_before m req i j + e"
    "a = b + (tx_data_off m req + of_nat (data_before m req i j) + of_nat e)"
  shows "a \<notin> span b 65520 \<and> fill_tx v2p req b m a = m (load_be32 m (req + y + 8) + of_nat e)"
proof -
  have "block_put v2p m req y b (blk (pdu_at 16 i) j) (tx_data_off m req) (data_before m req i j) (fill_tx v2p req b m)"
    unfolding assms(5) by (rule fill_tx_block [OF assms(1-4)])
  then have "read_bytes (fill_tx v2p req b m) (b + tx_data_off m req + of_nat (data_before m req i j))
      (unat (load_be32 m (req + y + 4))) ! e =
    read_bytes m (load_be32 m (req + y + 8)) (unat (load_be32 m (req + y + 4))) ! e"
    using assms(6) by (simp add: block_put_def)
  then have "fill_tx v2p req b m a = m (load_be32 m (req + y + 8) + of_nat e)"
    using assms(7,9) by (simp add: read_bytes_def add.assoc)
  moreover have "unat K < 2 ^ 32" by (rule order_less_le_trans [OF unat_less_exp]) simp
  then have "unat (tx_data_off m req) + data_before m req i j + e < 2 ^ 32"
    using data_before_room [OF assms(3,4)] assms(2,6,7) le_up8 [of "unat (load_be32 m (req + y + 4))"]
    by (simp add: block_room_def flip: assms(5))
  then have "unat (a - b) = unat (tx_data_off m req) + data_before m req i j + e"
    using assms(9) by (simp add: unat_word_ariths(1) unat_of_nat)
  then have "a \<notin> span b 65520" using assms(8) by (simp add: span_def word_less_nat_alt)
  ultimately show ?thesis by simp
qed

theorem tx_request_overruns_witness:
  "fill_tx (\<lambda>v. v) 0x400000 0x130010 (tx_req_mem 70000) 0x140000 = 0xAB"
proof -
  have u: "up8 (unat (70000 :: u32)) = 70000" by (simp add: up8_def)
  have "blk (pdu_at 59944 0) 0 = 59956" "data_before (tx_req_mem 70000) 0x400000 0 0 = 0"
    by (simp_all add: blk_def pdu_at_def data_before_def)
  moreover have "tx_req_mem 70000 0x50FE30 = 0xAB" by (simp add: tx_req_mem_def)
  ultimately show ?thesis
    using tx_request_overruns [of "tx_req_mem 70000" "0x400000" "0x130010" 70448 0 0 59956 65072 "0x140000" "\<lambda>v. v"]
      tx_req_sample [of 70000 70448] u by (simp add: tx_req_mem_loads)
qed

end
