(* ===== verification/FAPI_Init.thy ===== *)
theory FAPI_Init
  imports FAPI_Dispatch FAPI_Tx_Props
begin

text \<open>
  Start-up of the FAPI library (\<open>b4860/fapi_b4860.c\<close>): the request buffers of the scheduler, the message
  buffers taken from shared memory, the queues, the channels to the DSP and the start message that
  carries the configuration to it.
\<close>

section \<open>Scheduler requests\<close>

text \<open>
  Ten downlink and ten uplink requests of 113960 and 11540 bytes, at \<open>dl\<close> and \<open>ul\<close>; an index outside
  the arrays is \<open>Array_bounds\<close>.
\<close>

definition bzero :: "mem \<Rightarrow> vaddr \<Rightarrow> u32 \<Rightarrow> mem" where
  "bzero m a n = (\<lambda>x. if x - a < n then 0 else m x)"

definition fapi_scheduler_init :: "vaddr \<Rightarrow> vaddr \<Rightarrow> mem \<Rightarrow> mem" where
  "fapi_scheduler_init dl ul m = bzero (bzero m dl (113960 * 10)) ul (11540 * 10)"

definition fapi_scheduler_get_dl_config_request :: "vaddr \<Rightarrow> int \<Rightarrow> int \<Rightarrow> mem \<Rightarrow> (vaddr \<times> mem) ipc" where
  "fapi_scheduler_get_dl_config_request dl frame subframe m =
     (if subframe < 0 \<or> subframe \<ge> 10 then Inl Array_bounds
      else
        (let r = dl + 113960 * word_of_int subframe
         in Inr (r, store_be32 (store_be32 m r (word_of_int frame)) (r + 4) (word_of_int subframe))))"

definition fapi_scheduler_get_ul_config_request :: "vaddr \<Rightarrow> int \<Rightarrow> int \<Rightarrow> mem \<Rightarrow> (vaddr \<times> mem) ipc" where
  "fapi_scheduler_get_ul_config_request ul frame subframe m =
     (if subframe < 0 \<or> subframe \<ge> 10 then Inl Array_bounds
      else
        (let r = ul + 11540 * word_of_int subframe
         in Inr (r, store_be32 (store_be32 m r (word_of_int frame)) (r + 4) (word_of_int subframe))))"

section \<open>Timeouts\<close>

text \<open>The nanosecond parts of the two clock readings; the product is an \<open>int\<close>.\<close>

definition fapi_is_timeout_ms :: "int \<Rightarrow> int \<Rightarrow> u32 \<Rightarrow> bool" where
  "fapi_is_timeout_ms now start timeout_ms =
     ((if now < start then now + 1000000000 else now) - start > sint (timeout_ms * 1000000))"

section \<open>Message buffers\<close>

text \<open>\<open>env k\<close> is the environment of the \<open>k\<close>-th allocation: kernel memory and the copies to user space.\<close>

fun alloc_bufs :: "bool \<Rightarrow> (nat \<Rightarrow> shm_env) \<Rightarrow> nat \<Rightarrow> nat \<Rightarrow> u32 \<Rightarrow> shm_lib \<Rightarrow> shm_drv \<Rightarrow> mem_range list option \<times> shm_drv" where
  "alloc_bufs cc env k 0 sz l d = (Some [], d)"
| "alloc_bufs cc env k (Suc n) sz l d =
     (case fsl_usmmgr_alloc cc (env k) (zero_range\<lparr>range_size := sz\<rparr>) l d of
        (ret, r, d') \<Rightarrow>
          if ret \<noteq> 0 then (None, d')
          else case alloc_bufs cc env (Suc k) n sz l d' of
            (rs, d'') \<Rightarrow> (map_option (Cons r) rs, d''))"

record fapi_start =
  start_queues :: "fapi_queue \<Rightarrow> block_queue"
  start_tx_bufs :: "mem_range list"
  start_cpri_bufs :: "mem_range list"
  start_p8 :: bool

text \<open>\<open>ipc_ret\<close> is what \<open>fapi_b4860_ipc_init\<close> returned, \<open>p8\<close> whether the configuration enables the dump server.\<close>

definition fapi_init_late ::
  "bool \<Rightarrow> (nat \<Rightarrow> shm_env) \<Rightarrow> int \<Rightarrow> bool \<Rightarrow> shm_lib \<Rightarrow> shm_drv \<Rightarrow> int \<times> fapi_start option \<times> shm_drv" where
  "fapi_init_late cc env ipc_ret p8 l d =
     (if ipc_ret \<noteq> 0 then (- 1, None, d)
      else case alloc_bufs cc env 0 FAPI_TX_REQ_BUF_NUM FAPI_TX_REQ_BUF_SIZE l d of
        (None, d1) \<Rightarrow> (- 1, None, d1)
      | (Some tx, d1) \<Rightarrow>
          (case alloc_bufs cc env FAPI_TX_REQ_BUF_NUM FAPI_CPRI_ETH_BUF_NUM FAPI_CPRI_ETH_BUF_SIZE l d1 of
             (None, d2) \<Rightarrow> (- 1, None, d2)
           | (Some cp, d2) \<Rightarrow>
               (0, Some \<lparr>start_queues = (\<lambda>_. block_queue_init 64), start_tx_bufs = tx, start_cpri_bufs = cp,
                         start_p8 = p8\<rparr>, d2)))"

section \<open>The start message\<close>

record rru_cfg =
  cfg_cpri_port :: u32
  cfg_speed :: u32

text \<open>
  The decoded configuration. \<open>p8_flags\<close> are the truth values the code tests, in its order, and
  \<open>P8_DUMP_FLAGS\<close> the bits they set.
\<close>

record p8_cfg =
  p8_enable :: bool
  p8_flags :: "bool list"
  p8_limit :: u32

record b4860_cfg =
  cfg_license :: "u8 list option"
  cfg_loglevel :: "u32 option"
  cfg_rrus :: "rru_cfg option list"
  cfg_p8 :: "p8_cfg option"

abbreviation (input) "FAPI_IPC_CFG_MAGIC \<equiv> (0x6a45fe67 :: u32)"
abbreviation (input) "IPC_MSG_CH_ID \<equiv> (2 :: u32)"

definition P8_DUMP_FLAGS :: "u32 list" where
  "P8_DUMP_FLAGS = [0x1, 0x2, 0x10, 0x20, 0x40, 0x100, 0x80, 0x400, 0x200, 0x1000, 0x2000, 0x4000, 0x80000000]"

fun dump_flags :: "(bool \<times> u32) list \<Rightarrow> u32 \<Rightarrow> u32" where
  "dump_flags [] f = f"
| "dump_flags ((b, x) # xs) f = dump_flags xs (if b then f OR x else f)"

definition l1_rru :: "rru_cfg option \<Rightarrow> u8 list" where
  "l1_rru r = (case r of None \<Rightarrow> replicate 8 0 | Some c \<Rightarrow> be32 (cfg_cpri_port c) @ be32 (cfg_speed c))"

text \<open>
  The 120 bytes of \<open>fapi_ipc_cfg_t\<close>. The loop over the units writes to an array of four, so more
  units than that are \<open>Array_bounds\<close>, unless the entries from the fifth on are null.
\<close>

definition l1_config :: "b4860_cfg \<Rightarrow> u8 list ipc" where
  "l1_config c =
     (if \<exists>r \<in> set (drop 4 (cfg_rrus c)). r \<noteq> None then Inl Array_bounds
      else Inr
        (be32 FAPI_IPC_CFG_MAGIC @ be32 1 @
         (case cfg_license c of Some b \<Rightarrow> if length b = 64 then b else replicate 64 0 | None \<Rightarrow> replicate 64 0) @
         be32 (case cfg_loglevel c of Some l \<Rightarrow> l | None \<Rightarrow> 255) @
         (case cfg_p8 c of
            Some p \<Rightarrow> if p8_enable p then be32 (dump_flags (zip (p8_flags p) P8_DUMP_FLAGS) 0) @ be32 (p8_limit p) else be32 0 @ be32 0
          | None \<Rightarrow> be32 0 @ be32 0) @
         be32 (of_nat (length (cfg_rrus c))) @
         concat (map l1_rru (take 4 (cfg_rrus c))) @ replicate (8 * (4 - length (cfg_rrus c))) 0))"

definition write_bytes :: "mem \<Rightarrow> vaddr \<Rightarrow> u8 list \<Rightarrow> mem" where
  "write_bytes m a bs = (\<lambda>x. if unat (x - a) < length bs then bs ! unat (x - a) else m x)"

text \<open>\<open>sp\<close> is the address of the structure on the stack.\<close>

definition ipc_l1_start :: "lock_result \<Rightarrow> vaddr \<Rightarrow> b4860_cfg \<Rightarrow> ipc_state \<Rightarrow> (int \<times> ipc_state) ipc" where
  "ipc_l1_start lk sp c st =
     (case l1_config c of
        Inl e \<Rightarrow> Inl e
      | Inr bs \<Rightarrow> fsl_ipc_send_msg lk IPC_MSG_CH_ID sp 120 (st\<lparr>bytes := write_bytes (bytes st) sp bs\<rparr>))"

section \<open>Channels\<close>

text \<open>The wait for the DSP: \<open>wait\<close> is what happens to the shared structures while the caller sleeps.\<close>

fun dsp_up_loop :: "(ipc_state \<Rightarrow> ipc_state) \<Rightarrow> nat \<Rightarrow> ipc_state \<Rightarrow> (bool \<times> ipc_state) ipc" where
  "dsp_up_loop wait 0 st = Inr (False, st)"
| "dsp_up_loop wait (Suc n) st =
     (case fsl_ipc_chk_recv_status st of
        Inl e \<Rightarrow> Inl e
      | Inr (ret, bmask) \<Rightarrow> if bit bmask 63 then Inr (True, st) else dsp_up_loop wait n (wait st))"

definition is_dsp_up :: "(ipc_state \<Rightarrow> ipc_state) \<Rightarrow> ipc_state \<Rightarrow> (bool \<times> ipc_state) ipc" where
  "is_dsp_up wait st = dsp_up_loop wait 32 st"

text \<open>
  After the instance is attached. The result of opening the producer channels is not looked at, and
  neither is that of the start message.
\<close>

definition fapi_open_channels ::
  "lock_result \<Rightarrow> bool \<Rightarrow> int \<Rightarrow> (ipc_state \<Rightarrow> ipc_state) \<Rightarrow> vaddr \<Rightarrow> b4860_cfg \<Rightarrow> ipc_state \<Rightarrow> (int \<times> ipc_state) ipc" where
  "fapi_open_channels lk calloc_ok ioctl_rc wait sp c st =
     (case is_dsp_up wait st of
        Inl e \<Rightarrow> Inl e
      | Inr (False, st1) \<Rightarrow> Inr (- 1, st1)
      | Inr (True, st1) \<Rightarrow>
          (case fsl_ipc_open_prod_ch IPC_MSG_CH_ID st1 of
             Inl e \<Rightarrow> Inl e
           | Inr (_, st2) \<Rightarrow>
               (case fsl_ipc_open_prod_ch IPC_PA2SC_CH_ID st2 of
                  Inl e \<Rightarrow> Inl e
                | Inr (_, st3) \<Rightarrow>
                    (case fsl_ipc_configure_channel_int lk calloc_ok 0 ioctl_rc IPC_SC2PA_CH_ID 16 IPC_PTR_CH 0 0 0 st3 of
                       Inl e \<Rightarrow> Inl e
                     | Inr (ret, st4) \<Rightarrow>
                         if ret \<noteq> 0 then Inr (- 1, st4)
                         else
                           (case ipc_drain lk st4 of
                              Inl e \<Rightarrow> Inl e
                            | Inr (_, st5) \<Rightarrow>
                                (case ipc_l1_start lk sp c st5 of
                                   Inl e \<Rightarrow> Inl e
                                 | Inr (_, st6) \<Rightarrow> Inr (0, st6)))))))"

definition fapi_b4860_ipc_init ::
  "bool \<Rightarrow> shm_env \<Rightarrow> shm_sys \<Rightarrow> um_env \<Rightarrow> init_env \<Rightarrow> lock_result \<Rightarrow> bool \<Rightarrow> int \<Rightarrow> (ipc_state \<Rightarrow> ipc_state) \<Rightarrow> vaddr \<Rightarrow>
     b4860_cfg \<Rightarrow> um_state \<Rightarrow> ipc_state \<Rightarrow> (int \<times> um_state \<times> ipc_state) ipc" where
  "fapi_b4860_ipc_init cc env sys ue ie lk calloc_ok ioctl_rc wait sp c um st =
     (case fsl_usmmgr_init cc env sys ue um of
        (None, um1) \<Rightarrow> Inr (- 1, um1, st)
      | (Some priv0, um1) \<Rightarrow>
          (case get_pa_ccsr_area (e_mmap ue) priv0 of (r1, pa, priv1) \<Rightarrow>
             if r1 \<noteq> 0 then Inr (- 1, um1\<lparr>um_priv := Some priv1\<rparr>, st)
             else case get_dsp_ccsr_area (e_mmap ue) priv1 of (r2, dsp, priv2) \<Rightarrow>
               if r2 \<noteq> 0 then Inr (- 1, um1\<lparr>um_priv := Some priv2\<rparr>, st)
               else case get_shared_ctrl_area (e_mmap ue) priv2 of (r3, sh, priv3) \<Rightarrow>
                 (let um2 = um1\<lparr>um_priv := Some priv3\<rparr> in
                  if r3 \<noteq> 0 then Inr (- 1, um2, st)
                  else case fsl_ipc_init_rat ie 0 (Some (\<lambda>a. fsl_usmmgr_p2v (ucast a) (um_lib um2) priv3))
                              (the sh) (the dsp) (the pa) st of
                    (False, st1) \<Rightarrow> Inr (- 1, um2, st1)
                  | (True, st1) \<Rightarrow>
                      (case fapi_open_channels lk calloc_ok ioctl_rc wait sp c st1 of
                         Inl e \<Rightarrow> Inl e
                       | Inr (ret, st2) \<Rightarrow> Inr (ret, um2, st2)))))"

end
