(* ===== verification/FAPI_Buffers.thy ===== *)
theory FAPI_Buffers
  imports FAPI_Init
begin

text \<open>
  The message buffers the FAPI library takes at start-up (\<open>fapi_init_late\<close>): they are disjoint, and with
  kernel memory available the segment always has room for them.
\<close>

section \<open>The buffers are disjoint\<close>

definition buf_area :: "mem_range \<Rightarrow> area" where
  "buf_area r = (unat (range_vaddr r), unat (range_size r))"

lemma areas_apart_sym: "areas_apart x y \<Longrightarrow> areas_apart y x"
  by (auto simp: areas_apart_def)

lemma alloc_is_um_get:
  assumes "fsl_usmmgr_alloc cc (um_shm_env q) (zero_range\<lparr>range_size := sz\<rparr>) l d = (0, r, d')"
  shows "um_get cc (q\<lparr>um_size := sz, um_align := None\<rparr>) (l, d) = (Some (buf_area r), (l, d'))"
    "range_size r = sz" "range_vaddr r \<noteq> 0"
proof -
  have e: "um_shm_env (q\<lparr>um_size := sz, um_align := None\<rparr>) = um_shm_env q" by (simp add: um_shm_env_def)
  show "um_get cc (q\<lparr>um_size := sz, um_align := None\<rparr>) (l, d) = (Some (buf_area r), (l, d'))"
    using assms by (simp add: um_get_def um_range_def e buf_area_def)
  show "range_size r = sz" "range_vaddr r \<noteq> 0"
    using assms by (auto simp: fsl_usmmgr_alloc_def split: if_splits prod.splits)
qed

lemma alloc_bufs_areas:
  assumes "um_ok v p n (l, d)" "alloc_bufs cc (\<lambda>i. um_shm_env (q i)) k c sz l d = (Some rs, d')"
  shows "um_ok v p n (l, d') \<and> length rs = c \<and> um_held (l, d') = set (map buf_area rs) \<union> um_held (l, d) \<and>
    sorted_wrt areas_apart (map buf_area rs) \<and> (\<forall>x \<in> set rs. \<forall>y \<in> um_held (l, d). areas_apart (buf_area x) y) \<and>
    (\<forall>r \<in> set rs. range_size r = sz \<and> range_vaddr r \<noteq> 0)"
  using assms
proof (induction c arbitrary: k d rs)
  case (Suc c)
  obtain r d1 rs1 where a: "fsl_usmmgr_alloc cc (um_shm_env (q k)) (zero_range\<lparr>range_size := sz\<rparr>) l d = (0, r, d1)"
      "alloc_bufs cc (\<lambda>i. um_shm_env (q i)) (Suc k) c sz l d1 = (Some rs1, d')" "rs = r # rs1"
    using Suc.prems(2) by (auto split: prod.splits if_splits)
  note G = alloc_is_um_get [OF a(1)]
  have ok1: "um_ok v p n (l, d1)" by (rule usm.get_ok [OF Suc.prems(1) G(1)])
  have h1: "um_held (l, d1) = insert (buf_area r) (um_held (l, d))" using usm.get_held [OF Suc.prems(1) G(1)] by simp
  have f: "areas_apart (buf_area r) y" if "y \<in> um_held (l, d)" for y by (rule usm.get_fresh [OF Suc.prems(1) G(1) that])
  note I = Suc.IH [OF ok1 a(2)]
  have "areas_apart (buf_area r) (buf_area x)" if "x \<in> set rs1" for x
    using I h1 that by (blast intro: areas_apart_sym)
  then show ?case using I h1 f G(2,3) a(3) by auto
qed simp

section \<open>The buffers are always there\<close>

text \<open>
  An allocator with one free area, in the list of the large ones: \<open>p\<close> is its node. An allocation that
  leaves more than the limit of the small lists keeps it so.
\<close>

definition one_free :: "nat \<Rightarrow> u64 \<Rightarrow> u32 \<Rightarrow> shm_state \<Rightarrow> bool" where
  "one_free p a s st \<longleftrightarrow> free_lists st = (\<lambda>_. [])(NUMBER_OF_LISTS := [p]) \<and> free_sums st = (\<lambda>_. 0)(NUMBER_OF_LISTS := s) \<and>
     nodes st p = \<lparr>n_tag = False, n_addr = a, n_size = s\<rparr> \<and> p < next_node st \<and> 0x8000 < s"

lemma one_free_choice:
  assumes "one_free p a s st" "sz < s"
  shows "get_free_area_list st sz = Some NUMBER_OF_LISTS"
proof -
  have "scan_lists st sz i = (if i \<le> NUMBER_OF_LISTS then Some NUMBER_OF_LISTS else None)" for i
    using assms scan_only [of NUMBER_OF_LISTS st sz i] by (auto simp: one_free_def tail_size_def)
  moreover have "LIST_INDEX_FROM_SIZE sz \<le> NUMBER_OF_LISTS" if "sz \<le> 0x8000"
    using that div_le_mono [where k = "0x1000" and m = "unat sz" and n = "0x8000"] by (simp add: list_index_size word_le_nat_alt)
  ultimately show ?thesis by (auto simp: get_free_area_list_def not_less)
qed

lemma one_free_alloc:
  assumes f: "one_free p a s st" and ka: "ka p" and sz: "0 < sz" "unat sz + 0x8000 < unat s"
  shows "\<exists>st'. fsl_shm_alloc ka (ucast sz) st = (a, st') \<and> one_free p (a + ucast sz) (s - sz) st'"
proof -
  have lt: "sz < s" using sz(2) by (simp add: word_less_nat_alt)
  have u: "unat (ucast x :: u64) = unat x" for x :: u32
    using unat_less_exp [of x] by (simp add: unsigned_ucast_eq take_bit_nat_eq_self)
  have z: "(ucast sz :: u64) \<noteq> 0" using sz(1) u [of sz] by (auto simp: word_less_nat_alt)
  have bk: "(ucast (ucast sz :: u64) :: u32) = sz" by (simp add: word_unat_eq_iff unsigned_ucast_eq)
  have le: "(ucast sz :: u64) \<le> ucast s" using lt by (simp add: word_le_nat_alt word_less_nat_alt u)
  have big: "0x8000 < s - sz" using sz(2) lt by (simp add: word_less_nat_alt unat_sub_if')
  have ne: "next_node st \<noteq> p" "p \<noteq> next_node st" "s \<noteq> sz" using f lt by (auto simp: one_free_def)
  note F = f [unfolded one_free_def]
  have "fsl_shm_alloc ka (ucast sz) st =
      (case allocate_free_area True p sz st of (None, st1) \<Rightarrow> (0, st1) | (Some a, st1) \<Rightarrow> (n_addr (nodes st1 a), reposition [] (nodes st) st1))"
    using F ka z bk le one_free_choice [OF f lt] by (simp add: fsl_shm_alloc_def shm_alloc_list_def Let_def)
  moreover have "allocate_free_area True p sz st = (Some (next_node st), snd (allocate_free_area True p sz st))"
    using F lt by (simp add: allocate_free_area_def Let_def)
  moreover have "n_addr (nodes (snd (allocate_free_area True p sz st)) (next_node st)) = a"
    using F lt ne by (simp add: allocate_free_area_def Let_def list_add_free_area_def
        list_remove_free_area_def list_add_allocated_area_def set_node_def)
  moreover have "one_free p (a + ucast sz) (s - sz) (snd (allocate_free_area True p sz st))"
    using F lt ne big by (simp add: one_free_def allocate_free_area_def Let_def list_add_free_area_def
        list_remove_free_area_def list_add_allocated_area_def set_node_def list_place_def get_list_def fun_eq_iff)
  ultimately show ?thesis by (cases "allocate_free_area True p sz st") (auto simp: reposition_def)
qed

text \<open>The free area ends with the segment and more than \<open>r\<close> bytes of it are left.\<close>

definition room :: "nat \<Rightarrow> nat \<Rightarrow> nat \<Rightarrow> shm_state \<Rightarrow> bool" where
  "room b e r st \<longleftrightarrow> (\<exists>p a s. one_free p a s st \<and> b \<le> unat a \<and> unat a + unat s = e \<and> r < unat s)"

lemma room_init:
  assumes "segment p n" "0x8000 < unat n" "r < unat n"
  shows "room (unat p) (unat p + unat n) r (shm_initialize p n)"
proof -
  have u: "unat (ucast n :: u32) = unat n"
    using assms(1) by (simp add: segment_def unsigned_ucast_eq take_bit_nat_eq_self)
  then have "0x8000 < (ucast n :: u32)" using assms(2) by (simp add: word_less_nat_alt)
  then have "one_free 0 p (ucast n) (shm_initialize p n)"
    by (simp add: one_free_def shm_initialize_def list_add_free_area_def get_list_def list_place_def fun_eq_iff)
  then show ?thesis using u assms(3) unfolding room_def
    by (intro exI [where x = 0] exI [where x = p] exI [where x = "ucast n"]) simp
qed

lemma room_alloc:
  fixes sz :: u32
  assumes "room b e (r + unat sz) st" "\<And>p. ka p" "0 < sz" "0x8000 \<le> r" "e < 2 ^ 31"
  shows "\<exists>a st'. fsl_shm_alloc ka (ucast sz) st = (a, st') \<and> b \<le> unat a \<and> unat a < e \<and> room b e r st'"
proof -
  obtain p a s where f: "one_free p a s st" "b \<le> unat a" "unat a + unat s = e" "r + unat sz < unat s"
    using assms(1) by (auto simp: room_def)
  obtain st' where st': "fsl_shm_alloc ka (ucast sz) st = (a, st')" "one_free p (a + ucast sz) (s - sz) st'"
    using one_free_alloc [OF f(1), of ka sz] f(4) assms(2-4) by auto
  have u: "unat (ucast sz :: u64) = unat sz"
    using unat_less_exp [of sz] by (simp add: unsigned_ucast_eq take_bit_nat_eq_self)
  have "unat (a + ucast sz) = unat a + unat sz" using f(3,4) assms(5) u by (simp add: unat_plus_if')
  moreover have "unat (s - sz) = unat s - unat sz" using f(4) by (simp add: unat_sub word_le_nat_alt)
  ultimately have "room b e r st'" using st'(2) f unfolding room_def
    by (intro exI [where x = p] exI [where x = "a + ucast sz"] exI [where x = "s - sz"]) auto
  then show ?thesis using st'(1) f by auto
qed

lemma room_usmmgr:
  assumes "window l v b n" "room b (b + n) (r + unat sz) (shm_heap d)" "\<And>p. um_ka q p" "0 < sz" "0x8000 \<le> r"
  shows "\<exists>x d'. fsl_usmmgr_alloc cc (um_shm_env q) (zero_range\<lparr>range_size := sz\<rparr>) l d = (0, x, d') \<and> room b (b + n) r (shm_heap d')"
proof -
  obtain a h where a: "fsl_shm_alloc (um_ka q) (ucast sz) (shm_heap d) = (a, h)" "b \<le> unat a" "unat a < b + n" "room b (b + n) r h"
    using room_alloc [OF assms(2), of "um_ka q"] assms by (auto simp: window_def)
  have "shm_ptov l (ucast a) \<noteq> 0" by (rule handed_out(1) [OF assms(1)]) (use a in simp_all)
  then show ?thesis using a assms(1,4)
    by (auto simp: fsl_usmmgr_alloc_def shm_alloc_def window_def fsl_shm_ioctl_def copy_in_def copy_out_def um_shm_env_def zero_range_def)
qed

lemma alloc_bufs_room:
  assumes "window l v b n" "room b (b + n) (r + c * unat sz) (shm_heap d)" "\<And>k p. um_ka (q k) p" "0 < sz" "0x8000 \<le> r"
  shows "\<exists>rs d'. alloc_bufs cc (\<lambda>i. um_shm_env (q i)) k c sz l d = (Some rs, d') \<and> room b (b + n) r (shm_heap d')"
  using assms(2)
proof (induction c arbitrary: k d)
  case (Suc c)
  have e: "r + Suc c * unat sz = r + c * unat sz + unat sz" by simp
  obtain x d1 where "fsl_usmmgr_alloc cc (um_shm_env (q k)) (zero_range\<lparr>range_size := sz\<rparr>) l d = (0, x, d1)"
      "room b (b + n) (r + c * unat sz) (shm_heap d1)"
    using room_usmmgr [OF assms(1) Suc.prems [unfolded e], of "q k" cc] assms(3-5) by auto
  moreover from Suc.IH [OF this(2)] obtain rs d' where
      "alloc_bufs cc (\<lambda>i. um_shm_env (q i)) (Suc k) c sz l d1 = (Some rs, d')" "room b (b + n) r (shm_heap d')"
    by blast
  ultimately show ?case by simp
qed simp

lemma late_buffers:
  assumes "um_ok v p n (l, d)" "fapi_init_late cc (\<lambda>k. um_shm_env (q k)) 0 p8 l d = (0, Some s, d')"
  shows "length (start_tx_bufs s) = FAPI_TX_REQ_BUF_NUM \<and> length (start_cpri_bufs s) = FAPI_CPRI_ETH_BUF_NUM \<and>
    sorted_wrt areas_apart (map buf_area (start_tx_bufs s @ start_cpri_bufs s)) \<and>
    (\<forall>r \<in> set (start_tx_bufs s). range_size r = FAPI_TX_REQ_BUF_SIZE \<and> range_vaddr r \<noteq> 0) \<and>
    (\<forall>r \<in> set (start_cpri_bufs s). range_size r = FAPI_CPRI_ETH_BUF_SIZE \<and> range_vaddr r \<noteq> 0)"
proof -
  obtain d1 where a: "alloc_bufs cc (\<lambda>k. um_shm_env (q k)) 0 16 65536 l d = (Some (start_tx_bufs s), d1)"
      "alloc_bufs cc (\<lambda>k. um_shm_env (q k)) 16 1024 4096 l d1 = (Some (start_cpri_bufs s), d')"
    using assms(2) by (auto simp: fapi_init_late_def split: prod.splits option.splits)
  note A = alloc_bufs_areas [OF assms(1) a(1)]
  note B = alloc_bufs_areas [OF conjunct1 [OF A] a(2)]
  show ?thesis using A B by (auto simp: sorted_wrt_append intro: areas_apart_sym)
qed

lemma late_succeeds:
  assumes "window l v b n" "room b (b + n) 0x600000 (shm_heap d)" "\<And>k p. um_ka (q k) p"
  shows "\<exists>s d'. fapi_init_late cc (\<lambda>k. um_shm_env (q k)) 0 p8 l d = (0, Some s, d')"
proof -
  have r1: "room b (b + n) (0x500000 + 16 * unat (65536 :: u32)) (shm_heap d)" using assms(2) by simp
  obtain tx d1 where t: "alloc_bufs cc (\<lambda>i. um_shm_env (q i)) 0 16 65536 l d = (Some tx, d1)" "room b (b + n) 0x500000 (shm_heap d1)"
    using alloc_bufs_room [OF assms(1) r1, of q cc 0] assms(3) by auto
  have r2: "room b (b + n) (0x100000 + 1024 * unat (4096 :: u32)) (shm_heap d1)" using t(2) by simp
  obtain cp d2 where "alloc_bufs cc (\<lambda>i. um_shm_env (q i)) 16 1024 4096 l d1 = (Some cp, d2)"
    using alloc_bufs_room [OF assms(1) r2, of q cc 16] assms(3) by auto
  then show ?thesis using t(1) by (simp add: fapi_init_late_def)
qed

text \<open>C30: Once the shared segment is attached, taking the message buffers of the library cannot fail while the
  kernel has memory for its list nodes: there are sixteen request buffers of 64 KB and 1024 CPRI ethernet
  buffers of 4 KB, pairwise disjoint and none null, so a message written into one leaves the others alone.\<close>

theorem fapi_buffers_disjoint:
  assumes "attached env sys v p" "fsl_shm_init cc env sys 0 True l0 d0 = (ret, l, d)" "\<And>k i. um_ka (q k) i"
  shows "\<exists>s d'. fapi_init_late cc (\<lambda>k. um_shm_env (q k)) 0 p8 l d = (0, Some s, d') \<and>
    length (start_tx_bufs s) = FAPI_TX_REQ_BUF_NUM \<and> length (start_cpri_bufs s) = FAPI_CPRI_ETH_BUF_NUM \<and>
    sorted_wrt areas_apart (map buf_area (start_tx_bufs s @ start_cpri_bufs s)) \<and>
    (\<forall>r \<in> set (start_tx_bufs s). range_size r = FAPI_TX_REQ_BUF_SIZE \<and> range_vaddr r \<noteq> 0) \<and>
    (\<forall>r \<in> set (start_cpri_bufs s). range_size r = FAPI_CPRI_ETH_BUF_SIZE \<and> range_vaddr r \<noteq> 0)"
proof -
  note A = attached_ok [OF assms(1,2)]
  have "segment p 0xff00000" using assms(1) by (simp add: attached_def segment_def)
  moreover have "shm_heap d = shm_initialize p 0xff00000"
    using assms(1,2) by (auto simp: attached_def fsl_shm_init_def fsl_shm_ioctl_def copy_in_def copy_out_def
        fsl_shm_get_paddr_def Let_def)
  ultimately have "room (unat p) (unat p + 0xff00000) 0x600000 (shm_heap d)"
    using room_init [of p "0xff00000" "0x600000"] by simp
  moreover have "window l (unat v) (unat p) 0xff00000" using A(1) by (simp add: um_ok_def)
  ultimately obtain s d' where e: "fapi_init_late cc (\<lambda>k. um_shm_env (q k)) 0 p8 l d = (0, Some s, d')"
    using late_succeeds [of l "unat v" "unat p" "0xff00000" d q cc p8] assms(3) by blast
  show ?thesis using e late_buffers [OF A(1) e] by blast
qed

theorem fapi_buffers_disjoint_witness:
  "\<exists>s d'. fapi_init_late True (\<lambda>k. um_shm_env (um_sample_req 0 None)) 0 False (fst (snd um_sample_init))
     (snd (snd um_sample_init)) = (0, Some s, d') \<and> length (start_cpri_bufs s) = 1024"
proof -
  have "um_ka (um_sample_req 0 None) i" for i by (simp add: um_sample_req_def)
  from fapi_buffers_disjoint [OF um_sample_attached um_sample_steps(1) this, of False] show ?thesis by auto
qed

end
