(* ===== verification/Event_Interface.thy ===== *)
theory Event_Interface
  imports Prelude
begin

text \<open>
  The contract of a mask of pending events between an interrupt handler and its readers: the
  handler enters events, a reader takes all that are pending. Events are numbered, \<open>ev\<close> gives the
  events a posting stands for. A reader may fail to receive what it asked for; what becomes of the pending events then
  differs between the drivers and is the parameter \<open>give\<close> of the contract.
\<close>

definition bits :: "'a::len word \<Rightarrow> nat set" where
  "bits w = {i. bit w i}"

lemma bits_0 [simp]: "bits 0 = {}"
  by (simp add: bits_def)

lemma bits_or [simp]: "bits (v OR w) = bits v \<union> bits w"
  by (auto simp: bits_def bit_or_iff)

lemma bits_and_not: "bits (v AND NOT w) = bits v - bits w"
  by (auto simp: bits_def bit_and_iff bit_not_iff dest: bit_imp_le_length)

lemma bits_empty_iff [simp]: "bits w = {} \<longleftrightarrow> w = 0"
  by (auto simp: bits_def bit_eq_iff dest: bit_imp_le_length)

lemma bits_push: "i < LENGTH('a) \<Longrightarrow> bits (2 ^ i :: 'a::len word) = {i}"
  by (auto simp: bits_def bit_exp_iff possible_bit_def)

text \<open>A posting, or a reader, with whether the copy to its memory succeeds. Handlers and readers run one after the other.\<close>

datatype 'a mask_op = Post 'a | Take bool

fun mask_run :: "('a \<Rightarrow> 's \<Rightarrow> 's) \<Rightarrow> (bool \<Rightarrow> 's \<Rightarrow> nat set option \<times> 's) \<Rightarrow> 'a mask_op list \<Rightarrow> 's \<Rightarrow> nat set option list \<times> 's" where
  "mask_run post fetch [] s = ([], s)"
| "mask_run post fetch (Post a # ops) s = mask_run post fetch ops (post a s)"
| "mask_run post fetch (Take c # ops) s =
     (case fetch c s of (d, s1) \<Rightarrow> case mask_run post fetch ops s1 of (ds, s2) \<Rightarrow> (d # ds, s2))"

text \<open>What the readers should see, and what should be pending afterwards, by \<open>give\<close> for each reader.\<close>

fun batches :: "('a \<Rightarrow> nat set) \<Rightarrow> (bool \<Rightarrow> nat set \<Rightarrow> nat set option \<times> nat set) \<Rightarrow> 'a mask_op list \<Rightarrow> nat set \<Rightarrow>
    nat set option list \<times> nat set" where
  "batches ev give [] P = ([], P)"
| "batches ev give (Post a # ops) P = batches ev give ops (P \<union> ev a)"
| "batches ev give (Take c # ops) P =
     (case give c P of (d, P1) \<Rightarrow> case batches ev give ops P1 of (ds, P2) \<Rightarrow> (d # ds, P2))"

definition posted :: "('a \<Rightarrow> nat set) \<Rightarrow> 'a mask_op list \<Rightarrow> nat set" where
  "posted ev ops = (\<Union>a \<in> {a. Post a \<in> set ops}. ev a)"

definition handed :: "nat set option list \<Rightarrow> nat set" where
  "handed ds = \<Union> {d. Some d \<in> set ds}"

lemma posted_simps [simp]:
  "posted ev [] = {}" "posted ev (Post a # ops) = ev a \<union> posted ev ops" "posted ev (Take c # ops) = posted ev ops"
  by (auto simp: posted_def)

lemma handed_simps [simp]:
  "handed [] = {}" "handed (None # ds) = handed ds" "handed (Some d # ds) = d \<union> handed ds"
  by (auto simp: handed_def)

text \<open>A reader that keeps: it is handed all, or nothing and then all stays.\<close>

definition keeps_all :: "(bool \<Rightarrow> nat set \<Rightarrow> nat set option \<times> nat set) \<Rightarrow> bool \<Rightarrow> bool" where
  "keeps_all give c \<longleftrightarrow> (\<forall>P. give c P = (Some P, {}) \<or> give c P = (None, P))"

lemma batches_union:
  "batches ev give ops P = (ds, P') \<Longrightarrow> \<forall>c. Take c \<in> set ops \<longrightarrow> keeps_all give c \<Longrightarrow> handed ds \<union> P' = P \<union> posted ev ops"
proof (induction ops arbitrary: P ds)
  case (Cons opr ops)
  show ?case
  proof (cases opr)
    case (Post a)
    then show ?thesis using Cons.IH [of "P \<union> ev a" ds] Cons.prems by auto
  next
    case (Take c)
    obtain d P1 es where g: "give c P = (d, P1)" "batches ev give ops P1 = (es, P')" "ds = d # es"
      using Cons.prems(1) Take by (auto split: prod.splits)
    have "handed es \<union> P' = P1 \<union> posted ev ops" using Cons.IH [OF g(2)] Cons.prems(2) by simp
    moreover have "keeps_all give c" using Cons.prems(2) Take by simp
    then have "give c P = (Some P, {}) \<or> give c P = (None, P)" unfolding keeps_all_def by (rule spec)
    then have "d = Some P \<and> P1 = {} \<or> d = None \<and> P1 = P" unfolding g(1) by simp
    ultimately show ?thesis using Take g(3) by (elim disjE) (simp_all add: Un_assoc)
  qed
qed auto

locale event_mask =
  fixes ok :: "'s \<Rightarrow> bool" and pend :: "'s \<Rightarrow> nat set" and ev :: "'a \<Rightarrow> nat set"
    and post :: "'a \<Rightarrow> 's \<Rightarrow> 's" and fetch :: "bool \<Rightarrow> 's \<Rightarrow> nat set option \<times> 's"
    and give :: "bool \<Rightarrow> nat set \<Rightarrow> nat set option \<times> nat set"
  assumes post_ok: "ok s \<Longrightarrow> ok (post a s)"
    and post_pend: "ok s \<Longrightarrow> pend (post a s) = pend s \<union> ev a"
    and take_ok: "ok s \<Longrightarrow> fetch c s = (d, s') \<Longrightarrow> ok s'"
    and take_gives: "ok s \<Longrightarrow> fetch c s = (d, s') \<Longrightarrow> give c (pend s) = (d, pend s')"
begin

lemma run_batches:
  "ok s \<Longrightarrow> mask_run post fetch ops s = (ds, s') \<Longrightarrow> ok s' \<and> batches ev give ops (pend s) = (ds, pend s')"
proof (induction ops arbitrary: s ds)
  case (Cons opr ops)
  show ?case
  proof (cases opr)
    case (Post a)
    then show ?thesis using Cons.IH [OF post_ok [OF Cons.prems(1)], of a ds] Cons.prems post_pend by simp
  next
    case (Take c)
    obtain d s1 where t: "fetch c s = (d, s1)" by (rule prod.exhaust)
    then show ?thesis
      using Cons.IH [OF take_ok [OF Cons.prems(1) t]] Cons.prems(2) Take take_gives [OF Cons.prems(1) t]
      by (auto split: prod.splits)
  qed
qed auto

lemma nothing_lost:
  assumes "ok s" "mask_run post fetch ops s = (ds, s')" "\<forall>c. Take c \<in> set ops \<longrightarrow> keeps_all give c"
  shows "handed ds \<union> pend s' = pend s \<union> posted ev ops"
  using run_batches [OF assms(1,2)] batches_union assms(3) by blast

end

end
