(* ===== verification/L1_Defense.thy ===== *)
theory L1_Defense
  imports Event_Interface
begin

text \<open>
  The watchdog driver of the kernel (\<open>kernel/fsl_L1_defense.c\<close>): the interrupt handler gathers the
  watchdog events of the DSP cores in a mask, an ioctl hands the mask to a process and clears it.
  The register of the interrupt controller is \<open>wsrsr\<close>; what a write does to it is the argument \<open>hw\<close>,
  of which \<open>clears_ones\<close> is the documented behaviour (a one clears the bit).
\<close>

section \<open>The driver\<close>

record l1d_state =
  wsrsr :: u32
  wsrsr_bitmask :: u32

definition clears_ones :: "(u32 \<Rightarrow> u32 \<Rightarrow> u32) \<Rightarrow> bool" where
  "clears_ones hw \<longleftrightarrow> (\<forall>v r. hw v r = r AND NOT v)"

definition fsl_l1d_clear_wsrsr_reg :: "(u32 \<Rightarrow> u32 \<Rightarrow> u32) \<Rightarrow> u32 \<Rightarrow> l1d_state \<Rightarrow> l1d_state" where
  "fsl_l1d_clear_wsrsr_reg hw m st = st\<lparr>wsrsr := hw m (wsrsr st)\<rparr>"

text \<open>The part of the handler under the lock, and the whole handler.\<close>

definition l1d_gather :: "l1d_state \<Rightarrow> l1d_state" where
  "l1d_gather st = st\<lparr>wsrsr_bitmask := wsrsr_bitmask st OR wsrsr st\<rparr>"

definition fsl_l1d_interrupt_handler :: "(u32 \<Rightarrow> u32 \<Rightarrow> u32) \<Rightarrow> l1d_state \<Rightarrow> l1d_state" where
  "fsl_l1d_interrupt_handler hw st =
     (let st1 = l1d_gather st in fsl_l1d_clear_wsrsr_reg hw (wsrsr_bitmask st1) st1)"

text \<open>The result of the call and what it copied to the caller, or the caller asleep until the mask is not zero.\<close>

datatype l1d_outcome = L1d_ret int "u32 option" l1d_state | L1d_wait l1d_state

definition fsl_l1d_ioctl :: "bool \<Rightarrow> bool \<Rightarrow> l1d_state \<Rightarrow> l1d_outcome" where
  "fsl_l1d_ioctl get_bitmask copy_ok st =
     (if \<not> get_bitmask then L1d_ret (- 25) None st
      else if wsrsr_bitmask st \<noteq> 0 then
        (if \<not> copy_ok then L1d_ret (- 14) None st
         else L1d_ret 0 (Some (wsrsr_bitmask st)) (st\<lparr>wsrsr_bitmask := 0\<rparr>))
      else L1d_wait st)"

text \<open>A caller woken up, or interrupted by a signal, returns.\<close>

definition l1d_resume :: "bool \<Rightarrow> l1d_state \<Rightarrow> l1d_outcome" where
  "l1d_resume signal st = (if wsrsr_bitmask st \<noteq> 0 \<or> signal then L1d_ret 0 None st else L1d_wait st)"

text \<open>
  The initialisation: registering the device, mapping the register (\<open>None\<close> where that fails) and
  installing the handler.
\<close>

definition fsl_l1d_map_wsrsr_reg :: "u32 option \<Rightarrow> u32" where
  "fsl_l1d_map_wsrsr_reg reg = (case reg of None \<Rightarrow> 0xFFFFFFFF | Some v \<Rightarrow> v)"

definition mpic_watchdog_init :: "bool \<Rightarrow> int \<Rightarrow> int" where
  "mpic_watchdog_init mapped irq_rc = (if \<not> mapped \<or> irq_rc \<noteq> 0 then - 1 else 0)"

definition fsl_l1d_init :: "int \<Rightarrow> int \<Rightarrow> u32 option \<Rightarrow> bool \<Rightarrow> int \<Rightarrow> l1d_state \<Rightarrow> int \<times> l1d_state" where
  "fsl_l1d_init region_rc cdev_rc reg mapped irq_rc st =
     (if region_rc < 0 then (region_rc, st)
      else if cdev_rc \<noteq> 0 then (cdev_rc, st)
      else
        (let st1 = st\<lparr>wsrsr_bitmask := fsl_l1d_map_wsrsr_reg reg\<rparr> in
         if wsrsr_bitmask st1 = 0xFFFFFFFF then (- 1, st1)
         else (mpic_watchdog_init mapped irq_rc, st1)))"

section \<open>The mask as a set of events\<close>

text \<open>The interrupt controller sets the bits of \<open>w\<close> and the handler runs; a process takes the mask.\<close>

definition l1d_post :: "(u32 \<Rightarrow> u32 \<Rightarrow> u32) \<Rightarrow> u32 \<Rightarrow> l1d_state \<Rightarrow> l1d_state" where
  "l1d_post hw w st = fsl_l1d_interrupt_handler hw (st\<lparr>wsrsr := wsrsr st OR w\<rparr>)"

text \<open>
  A call that finds the mask empty waits, and hands out nothing also when it is woken; one that cannot copy leaves the mask.
\<close>

definition l1d_take :: "bool \<Rightarrow> l1d_state \<Rightarrow> nat set option \<times> l1d_state" where
  "l1d_take copy_ok st =
     (case fsl_l1d_ioctl True copy_ok st of
        L1d_ret _ out st' \<Rightarrow> (map_option bits out, st')
      | L1d_wait st' \<Rightarrow> (None, st'))"

definition l1d_give :: "bool \<Rightarrow> nat set \<Rightarrow> nat set option \<times> nat set" where
  "l1d_give copy_ok P = (if P \<noteq> {} \<and> copy_ok then (Some P, {}) else (None, P))"

definition l1d_settled :: "(u32 \<Rightarrow> u32 \<Rightarrow> u32) \<Rightarrow> l1d_state \<Rightarrow> bool" where
  "l1d_settled hw st \<longleftrightarrow> clears_ones hw \<and> wsrsr st = 0"

lemma and_not_or: "(w :: u32) AND NOT v AND NOT w = 0"
  by (rule bit_word_eqI) (simp add: bit_simps)

interpretation l1d: event_mask "l1d_settled hw" "\<lambda>st. bits (wsrsr_bitmask st)" bits "l1d_post hw" l1d_take l1d_give for hw
proof unfold_locales
  fix st :: l1d_state and w :: u32 and c d st'
  assume s: "l1d_settled hw st"
  then have hw: "hw v r = r AND NOT v" for v r by (simp add: l1d_settled_def clears_ones_def)
  show "l1d_settled hw (l1d_post hw w st)"
    using s by (simp add: l1d_settled_def l1d_post_def fsl_l1d_interrupt_handler_def l1d_gather_def fsl_l1d_clear_wsrsr_reg_def
        Let_def hw and_not_or)
  show "bits (wsrsr_bitmask (l1d_post hw w st)) = bits (wsrsr_bitmask st) \<union> bits w"
    using s by (simp add: l1d_settled_def l1d_post_def fsl_l1d_interrupt_handler_def l1d_gather_def fsl_l1d_clear_wsrsr_reg_def Let_def)
  assume "l1d_take c st = (d, st')"
  then show "l1d_settled hw st'" "l1d_give c (bits (wsrsr_bitmask st)) = (d, bits (wsrsr_bitmask st'))"
    using s by (auto simp: l1d_take_def l1d_give_def fsl_l1d_ioctl_def l1d_settled_def split: if_splits)
qed

section \<open>Handler and callers on different processors\<close>

text \<open>
  The handler in the pieces another processor can see: it gathers the register under the lock, reads
  the mask to be written back, and writes it. \<open>owed\<close> are the events raised and not handed out since.
  With \<open>smp\<close> a process may take the mask between the last two.
\<close>

datatype irq_phase = Irq_idle | Irq_gathered | Irq_loaded u32

record l1d_sys =
  l1d_st :: l1d_state
  irq :: irq_phase
  owed :: "nat set"

inductive l1d_step :: "(u32 \<Rightarrow> u32 \<Rightarrow> u32) \<Rightarrow> bool \<Rightarrow> l1d_sys \<Rightarrow> l1d_sys \<Rightarrow> bool" for hw smp where
  raises: "i < 32 \<Longrightarrow>
    l1d_step hw smp y (y\<lparr>l1d_st := (l1d_st y)\<lparr>wsrsr := wsrsr (l1d_st y) OR push_bit i 1\<rparr>, owed := insert i (owed y)\<rparr>)"
| gathers: "irq y = Irq_idle \<Longrightarrow> wsrsr (l1d_st y) \<noteq> 0 \<Longrightarrow>
    l1d_step hw smp y (y\<lparr>l1d_st := l1d_gather (l1d_st y), irq := Irq_gathered\<rparr>)"
| loads: "irq y = Irq_gathered \<Longrightarrow>
    l1d_step hw smp y (y\<lparr>irq := Irq_loaded (wsrsr_bitmask (l1d_st y))\<rparr>)"
| clears: "irq y = Irq_loaded v \<Longrightarrow>
    l1d_step hw smp y (y\<lparr>l1d_st := fsl_l1d_clear_wsrsr_reg hw v (l1d_st y), irq := Irq_idle\<rparr>)"
| takes: "smp \<or> irq y = Irq_idle \<or> irq y = Irq_gathered \<Longrightarrow> fsl_l1d_ioctl True True (l1d_st y) = L1d_ret 0 (Some m) st \<Longrightarrow>
    l1d_step hw smp y (y\<lparr>l1d_st := st, owed := owed y - bits m\<rparr>)"

definition l1d_boot :: l1d_sys where
  "l1d_boot = \<lparr>l1d_st = \<lparr>wsrsr = 0, wsrsr_bitmask = 0\<rparr>, irq = Irq_idle, owed = {}\<rparr>"

text \<open>Every event owed is in the register or in the mask; what is about to be cleared is in the mask.\<close>

definition l1d_kept :: "l1d_sys \<Rightarrow> bool" where
  "l1d_kept y \<longleftrightarrow> owed y \<subseteq> bits (wsrsr (l1d_st y)) \<union> bits (wsrsr_bitmask (l1d_st y)) \<and>
     (\<forall>v. irq y = Irq_loaded v \<longrightarrow> bits v \<subseteq> bits (wsrsr_bitmask (l1d_st y)))"

lemma l1d_kept_step:
  assumes "l1d_step hw False y y'" "clears_ones hw" "l1d_kept y"
  shows "l1d_kept y'"
  using assms(1)
proof cases
  case (raises i)
  then show ?thesis using assms(3) bits_push [of i, where 'a = 32] by (auto simp: l1d_kept_def)
next
  case (clears v)
  then show ?thesis using assms(2,3) by (auto simp: l1d_kept_def fsl_l1d_clear_wsrsr_reg_def clears_ones_def bits_and_not)
qed (use assms(3) in \<open>auto simp: l1d_kept_def l1d_gather_def fsl_l1d_ioctl_def split: if_splits\<close>)

lemma l1d_kept_reach: "(l1d_step hw False)\<^sup>*\<^sup>* l1d_boot y \<Longrightarrow> clears_ones hw \<Longrightarrow> l1d_kept y"
proof (induction rule: rtranclp_induct)
  case base
  then show ?case by (simp add: l1d_kept_def l1d_boot_def)
qed (blast intro: l1d_kept_step)

text \<open>C36: No watchdog event is lost as long as a process does not take the mask while the handler is about to
  write it back: every core's event since it was last handed out is in the register or in the mask, and
  once the handler has run to its end from idle, the next call hands out all of them.\<close>

theorem l1d_events_kept:
  assumes "clears_ones hw" "(l1d_step hw False)\<^sup>*\<^sup>* l1d_boot y" "irq y = Irq_idle"
    "owed y \<noteq> {}" "st = fsl_l1d_interrupt_handler hw (l1d_st y)"
  shows "\<exists>m st'. fsl_l1d_ioctl True True st = L1d_ret 0 (Some m) st' \<and> owed y \<subseteq> bits m \<and> wsrsr st' = 0 \<and> wsrsr_bitmask st' = 0"
proof -
  have st: "wsrsr_bitmask st = wsrsr_bitmask (l1d_st y) OR wsrsr (l1d_st y)" "wsrsr st = 0"
    using assms(1) by (simp_all add: assms(5) fsl_l1d_interrupt_handler_def l1d_gather_def fsl_l1d_clear_wsrsr_reg_def Let_def
        clears_ones_def and_not_or)
  have "owed y \<subseteq> bits (wsrsr_bitmask st)" using l1d_kept_reach [OF assms(2,1)] st(1) by (auto simp: l1d_kept_def)
  moreover from this have "wsrsr_bitmask st \<noteq> 0" using assms(4) by auto
  ultimately show ?thesis using st(2) by (simp add: fsl_l1d_ioctl_def)
qed

text \<open>On two processors an event can be lost: a process takes the mask after the handler has read it and
  before it is written back; an event of the same core raised in between is cleared with the old one, is in
  neither the register nor the mask, and the next call waits.\<close>

lemma l1d_event_lost:
  assumes "clears_ones hw" "i < 32"
  shows "\<exists>y. (l1d_step hw True)\<^sup>*\<^sup>* l1d_boot y \<and> owed y = {i} \<and> irq y = Irq_idle \<and> wsrsr (l1d_st y) = 0 \<and>
    fsl_l1d_ioctl True True (l1d_st y) = L1d_wait (l1d_st y)"
proof -
  define b :: u32 where "b = push_bit i 1"
  have b: "bits b = {i}" using assms(2) by (simp add: b_def bits_push)
  then have nz: "b \<noteq> 0" by auto
  let ?y = "\<lambda>r m q E. \<lparr>l1d_st = \<lparr>wsrsr = r, wsrsr_bitmask = m\<rparr>, irq = q, owed = E\<rparr>"
  have 1: "l1d_step hw True l1d_boot (?y b 0 Irq_idle {i})"
    using l1d_step.raises [OF assms(2), of hw True l1d_boot] unfolding b_def [symmetric] by (simp add: l1d_boot_def)
  have 2: "l1d_step hw True (?y b 0 Irq_idle {i}) (?y b b Irq_gathered {i})"
    using l1d_step.gathers [of "?y b 0 Irq_idle {i}" hw True] nz by (simp add: l1d_gather_def)
  have 3: "l1d_step hw True (?y b b Irq_gathered {i}) (?y b b (Irq_loaded b) {i})"
    using l1d_step.loads [of "?y b b Irq_gathered {i}" hw True] by simp
  have 4: "l1d_step hw True (?y b b (Irq_loaded b) {i}) (?y b 0 (Irq_loaded b) {})"
    using l1d_step.takes [of True "?y b b (Irq_loaded b) {i}" b "\<lparr>wsrsr = b, wsrsr_bitmask = 0\<rparr>" hw] nz b by (simp add: fsl_l1d_ioctl_def)
  have 5: "l1d_step hw True (?y b 0 (Irq_loaded b) {}) (?y b 0 (Irq_loaded b) {i})"
    using l1d_step.raises [OF assms(2), of hw True "?y b 0 (Irq_loaded b) {}"] unfolding b_def [symmetric] by simp
  have 6: "l1d_step hw True (?y b 0 (Irq_loaded b) {i}) (?y 0 0 Irq_idle {i})"
    using l1d_step.clears [of "?y b 0 (Irq_loaded b) {i}" b hw True] assms(1) by (simp add: fsl_l1d_clear_wsrsr_reg_def clears_ones_def)
  have "(l1d_step hw True)\<^sup>*\<^sup>* l1d_boot (?y 0 0 Irq_idle {i})"
    using 1 2 3 4 5 6 by (meson converse_rtranclp_into_rtranclp rtranclp.rtrancl_refl)
  then show ?thesis by (intro exI [of _ "?y 0 0 Irq_idle {i}"]) (simp add: fsl_l1d_ioctl_def)
qed

text \<open>One core's event, gathered and handed out; the same interleaved as above for core 3.\<close>

theorem l1d_events_kept_witness:
  "\<exists>m st'. fsl_l1d_ioctl True True (fsl_l1d_interrupt_handler (\<lambda>v r. r AND NOT v) \<lparr>wsrsr = 8, wsrsr_bitmask = 0\<rparr>) =
     L1d_ret 0 (Some m) st' \<and> 3 \<in> bits m"
proof -
  let ?hw = "\<lambda>v r :: u32. r AND NOT v" and ?y = "\<lparr>l1d_st = \<lparr>wsrsr = 8, wsrsr_bitmask = 0\<rparr>, irq = Irq_idle, owed = {3}\<rparr>"
  have "l1d_step ?hw False l1d_boot ?y" using l1d_step.raises [of 3 ?hw False l1d_boot] by (simp add: l1d_boot_def)
  then have r: "(l1d_step ?hw False)\<^sup>*\<^sup>* l1d_boot ?y" by (rule r_into_rtranclp)
  have hw: "clears_ones ?hw" by (simp add: clears_ones_def)
  from l1d_events_kept [OF hw r _ _ refl] show ?thesis by auto
qed

theorem l1d_event_lost_witness:
  "\<exists>y. (l1d_step (\<lambda>v r. r AND NOT v) True)\<^sup>*\<^sup>* l1d_boot y \<and> owed y = {3} \<and> wsrsr_bitmask (l1d_st y) = 0"
proof -
  have "clears_ones (\<lambda>v r. r AND NOT v)" by (simp add: clears_ones_def)
  from l1d_event_lost [OF this, of 3] show ?thesis by (auto simp: fsl_l1d_ioctl_def split: if_splits)
qed

end
