(* ===== verification/Kernel_IPC.thy ===== *)
theory Kernel_IPC
  imports Event_Interface IPC_Ring
begin

text \<open>
  The IPC driver of the kernel (\<open>kernel/fsl_ipc.c\<close>): the message units of the interrupt controller,
  the table that ties a unit to a channel, the interrupt handler that gathers the channels with new
  messages in a mask, and the device a process reads the mask from. Spin locks and atomic operations
  make each of the definitions below one step; a \<open>kipc_state\<close> is everything the module keeps.
\<close>

section \<open>Message units\<close>

record fsl_msg_unit =
  mu_irq :: nat
  msg_num :: nat
  requested :: bool

record fsl_msg =
  messages :: "fsl_msg_unit list"
  mer :: u32

type_synonym unit_ref = "nat \<times> nat"

definition unit_at :: "fsl_msg list \<Rightarrow> unit_ref \<Rightarrow> fsl_msg_unit" where
  "unit_at gs p = messages (gs ! fst p) ! snd p"

definition put_unit :: "unit_ref \<Rightarrow> fsl_msg_unit \<Rightarrow> fsl_msg list \<Rightarrow> fsl_msg list" where
  "put_unit p u gs = gs[fst p := (gs ! fst p)\<lparr>messages := (messages (gs ! fst p))[snd p := u]\<rparr>]"

text \<open>The first unit not requested yet, group by group.\<close>

fun find_unit :: "fsl_msg list \<Rightarrow> nat \<Rightarrow> unit_ref option" where
  "find_unit [] g = None"
| "find_unit (x # xs) g =
     (let k = length (takeWhile requested (messages x))
      in if k < length (messages x) then Some (g, k) else find_unit xs (Suc g))"

text \<open>After the loop the cursor is the list head's container, never null, so the error is always \<open>EBUSY\<close>.\<close>

definition fsl_get_msg_unit :: "fsl_msg list \<Rightarrow> int + unit_ref \<times> fsl_msg list" where
  "fsl_get_msg_unit gs =
     (case find_unit gs 0 of
        None \<Rightarrow> Inl (- 16)
      | Some p \<Rightarrow> Inr (p, put_unit p ((unit_at gs p)\<lparr>requested := True\<rparr>) gs))"

definition fsl_release_msg_unit :: "unit_ref \<Rightarrow> fsl_msg list \<Rightarrow> fsl_msg list" where
  "fsl_release_msg_unit p gs = put_unit p ((unit_at gs p)\<lparr>requested := False\<rparr>) gs"

definition fsl_enable_msg :: "unit_ref \<Rightarrow> fsl_msg list \<Rightarrow> fsl_msg list" where
  "fsl_enable_msg p gs =
     gs[fst p := (gs ! fst p)\<lparr>mer := mer (gs ! fst p) OR push_bit (msg_num (unit_at gs p)) 1\<rparr>]"

definition fsl_disable_msg :: "unit_ref \<Rightarrow> fsl_msg list \<Rightarrow> fsl_msg list" where
  "fsl_disable_msg p gs =
     gs[fst p := (gs ! fst p)\<lparr>mer := mer (gs ! fst p) AND NOT (push_bit (msg_num (unit_at gs p)) 1)\<rparr>]"

text \<open>A device tree node: whether memory and the mapping are there, and its interrupts.\<close>

record msg_node =
  node_alloc :: bool
  node_regs :: bool
  node_irqs :: "nat option list"

definition new_group :: "nat list \<Rightarrow> fsl_msg" where
  "new_group irqs =
     \<lparr>messages = map (\<lambda>i. \<lparr>mu_irq = irqs ! i, msg_num = i, requested = False\<rparr>) [0..<4], mer = 0\<rparr>"

fun fsl_init_msg :: "msg_node list \<Rightarrow> fsl_msg list \<Rightarrow> fsl_msg list" where
  "fsl_init_msg [] gs = gs"
| "fsl_init_msg (n # ns) gs =
     fsl_init_msg ns
       (if \<not> node_alloc n \<or> \<not> node_regs n \<or> length (node_irqs n) < 4 \<or> None \<in> set (List.take 4 (node_irqs n)) then gs
        else new_group (map the (List.take 4 (node_irqs n))) # gs)"

section \<open>Driver state\<close>

record user_irq =
  uq_used :: bool
  uq_ch_id :: int
  uq_unit :: "unit_ref option"
  uq_pid :: nat
  uq_signo :: u32

record kipc_state =
  fsl_msgs :: "fsl_msg list"
  uirq :: "user_irq list"
  msg_ready_mask :: u32
  kchans :: "os_het_ipc_channel list"
  signals :: "(nat \<times> u32 \<times> u32) list"

abbreviation (input) "MAX_MSG_IRQ \<equiv> (4 :: nat)"

text \<open>A channel structure in zeroed memory.\<close>

definition zero_channel :: os_het_ipc_channel where
  "zero_channel =
     \<lparr>start_validation_value = 0, producer_initialized = 0, consumer_initialized = 0, ch_id = 0, producer_num = 0,
      consumer_num = 0, bd_ring_size = 0, max_msg_size = 0, ch_type = IPC_MSG_CH, bd_base = 0, ipc_ind = OS_HET_VIRTUAL_INT,
      ind_offset = 0, ind_value = 0, local_producer_num = 0, local_consumer_num = 0, semaphore_pointer = 0,
      end_validation_value = 0\<rparr>"

section \<open>Registration\<close>

text \<open>The result of \<open>request_irq\<close> is printed and not looked at.\<close>

fun register_loop :: "nat \<Rightarrow> nat \<Rightarrow> kipc_state \<Rightarrow> int \<times> kipc_state" where
  "register_loop 0 i st = (0, st)"
| "register_loop (Suc n) i st =
     (case fsl_get_msg_unit (fsl_msgs st) of
        Inl e \<Rightarrow> (e, st)
      | Inr (p, gs) \<Rightarrow>
          register_loop n (Suc i)
            (st\<lparr>fsl_msgs := fsl_enable_msg p gs, uirq := (uirq st)[i := (uirq st ! i)\<lparr>uq_unit := Some p\<rparr>]\<rparr>))"

definition register_msg_intr :: "kipc_state \<Rightarrow> int \<times> kipc_state" where
  "register_msg_intr st = register_loop MAX_MSG_IRQ 0 st"

definition het_ipc_open :: "kipc_state \<Rightarrow> kipc_state" where
  "het_ipc_open st =
     st\<lparr>uirq := map (\<lambda>u. u\<lparr>uq_used := False, uq_ch_id := - 1\<rparr>) (uirq st), msg_ready_mask := 0\<rparr>"

definition het_ipc_release :: "kipc_state \<Rightarrow> kipc_state" where
  "het_ipc_release st = st\<lparr>uirq := map (\<lambda>u. u\<lparr>uq_used := False, uq_ch_id := - 1, uq_signo := 0\<rparr>) (uirq st)\<rparr>"

text \<open>\<open>(c, sg)\<close> is the channel and the signal of the request; the channel indexes the array unchecked.\<close>

definition het_ipc_ioctl :: "bool \<Rightarrow> nat \<Rightarrow> u32 \<times> u32 \<Rightarrow> kipc_state \<Rightarrow> (int \<times> kipc_state) ipc" where
  "het_ipc_ioctl register_cmd pid r st =
     (if \<not> register_cmd then Inr (- 25, st)
      else
        (let i = length (takeWhile uq_used (uirq st)); c = unat (fst r) in
         if i \<ge> MAX_MSG_IRQ then Inr (0, st)
         else if c \<ge> length (kchans st) then Inl Array_bounds
         else
           (let u = uirq st ! i;
                u1 = (if snd r \<noteq> 0 then u\<lparr>uq_pid := pid, uq_signo := snd r\<rparr> else u)
            in Inr (0, st\<lparr>uirq := (uirq st)[i := u1\<lparr>uq_used := True, uq_ch_id := sint (fst r)\<rparr>],
                 kchans := (kchans st)[c := (kchans st ! c)\<lparr>ipc_ind := OS_HET_PA_MPIC, ind_offset := 0x1400 + of_nat i * 16,
                                         ind_value := 0x12345678\<rparr>]\<rparr>))))"

section \<open>Interrupt and read\<close>

text \<open>
  \<open>alive\<close> tells which processes exist. The first component of the result says whether sleeping
  readers are woken.
\<close>

definition intr_unit :: "(nat \<Rightarrow> bool) \<Rightarrow> nat \<Rightarrow> nat \<Rightarrow> bool \<times> kipc_state \<Rightarrow> (bool \<times> kipc_state) ipc" where
  "intr_unit alive irq_no i s =
     (let st = snd s; u = uirq st ! i in
      case uq_unit u of
        None \<Rightarrow> Inl Null_pointer
      | Some p \<Rightarrow>
          if mu_irq (unit_at (fsl_msgs st) p) \<noteq> irq_no then Inr s
          else if 0 < uq_ch_id u \<and> uq_ch_id u < 32 then
            (let m = msg_ready_mask st OR push_bit (nat (uq_ch_id u)) 1 in
             if uq_signo u \<noteq> 0 then
               (if alive (uq_pid u)
                then Inr (fst s, st\<lparr>msg_ready_mask := 0, signals := signals st @ [(uq_pid u, uq_signo u, m)]\<rparr>)
                else Inr (fst s, st\<lparr>msg_ready_mask := m\<rparr>))
             else Inr (True, st\<lparr>msg_ready_mask := m\<rparr>))
          else Inr s)"

fun intr_loop :: "(nat \<Rightarrow> bool) \<Rightarrow> nat \<Rightarrow> nat list \<Rightarrow> bool \<times> kipc_state \<Rightarrow> (bool \<times> kipc_state) ipc" where
  "intr_loop alive irq_no [] s = Inr s"
| "intr_loop alive irq_no (i # is) s =
     (case intr_unit alive irq_no i s of Inl e \<Rightarrow> Inl e | Inr s' \<Rightarrow> intr_loop alive irq_no is s')"

definition msg_intr :: "(nat \<Rightarrow> bool) \<Rightarrow> nat \<Rightarrow> kipc_state \<Rightarrow> (bool \<times> kipc_state) ipc" where
  "msg_intr alive irq_no st = intr_loop alive irq_no [0..<MAX_MSG_IRQ] (False, st)"

text \<open>
  A read goes to sleep at once; \<open>het_ipc_read_woken\<close> is the part after the wake-up: it takes the
  mask and returns 4, or the error of \<open>put_user\<close>.
\<close>

definition atomic_check_new_msgs :: "kipc_state \<Rightarrow> u32 \<times> kipc_state" where
  "atomic_check_new_msgs st = (msg_ready_mask st, st\<lparr>msg_ready_mask := 0\<rparr>)"

definition het_ipc_read_woken :: "bool \<Rightarrow> kipc_state \<Rightarrow> int \<times> u32 \<times> kipc_state" where
  "het_ipc_read_woken put_ok st =
     (case atomic_check_new_msgs st of (m, st') \<Rightarrow> (if put_ok then 4 else - 14, m, st'))"

section \<open>The mask as a set of events\<close>

definition irq_channels :: "fsl_msg list \<Rightarrow> user_irq list \<Rightarrow> nat \<Rightarrow> nat set" where
  "irq_channels gs uqs irq_no =
     {nat (uq_ch_id u) | u. u \<in> set uqs \<and> 0 < uq_ch_id u \<and> uq_ch_id u < 32 \<and>
        (\<exists>p. uq_unit u = Some p \<and> mu_irq (unit_at gs p) = irq_no)}"

text \<open>The units and registrations stay as they are, and nobody asked for a signal.\<close>

definition reading_only :: "fsl_msg list \<Rightarrow> user_irq list \<Rightarrow> kipc_state \<Rightarrow> bool" where
  "reading_only gs uqs st \<longleftrightarrow> fsl_msgs st = gs \<and> uirq st = uqs \<and> length uqs = MAX_MSG_IRQ \<and>
     (\<forall>u \<in> set uqs. uq_unit u \<noteq> None \<and> uq_signo u = 0)"

definition kipc_post :: "nat \<Rightarrow> kipc_state \<Rightarrow> kipc_state" where
  "kipc_post irq_no st = (case msg_intr (\<lambda>_. False) irq_no st of Inl _ \<Rightarrow> st | Inr (_, st') \<Rightarrow> st')"

text \<open>A reader gets the mask, unless \<open>put_user\<close> fails; the mask is zero in either case.\<close>

definition kipc_fetch :: "bool \<Rightarrow> kipc_state \<Rightarrow> nat set option \<times> kipc_state" where
  "kipc_fetch put_ok st = (case het_ipc_read_woken put_ok st of (r, m, st') \<Rightarrow> (if r < 0 then None else Some (bits m), st'))"

definition kipc_give :: "bool \<Rightarrow> nat set \<Rightarrow> nat set option \<times> nat set" where
  "kipc_give put_ok P = (if put_ok then Some P else None, {})"

lemma intr_unit_reading:
  assumes "reading_only gs uqs (snd s)" "i < MAX_MSG_IRQ"
  shows "intr_unit alive irq_no i s =
    (if irq_channels gs [uqs ! i] irq_no = {} then Inr s
     else Inr (True, (snd s)\<lparr>msg_ready_mask := msg_ready_mask (snd s) OR push_bit (nat (uq_ch_id (uqs ! i))) 1\<rparr>))"
proof -
  have "uqs ! i \<in> set uqs" using assms by (simp add: reading_only_def)
  then have "uq_unit (uqs ! i) \<noteq> None \<and> uq_signo (uqs ! i) = 0" using assms(1) unfolding reading_only_def by blast
  then obtain g k where "uq_unit (uqs ! i) = Some (g, k)" "uq_signo (uqs ! i) = 0" by auto
  then show ?thesis using assms(1) by (auto simp: intr_unit_def irq_channels_def reading_only_def Let_def)
qed

lemma irq_channels_single:
  "irq_channels gs [u] irq_no \<noteq> {} \<Longrightarrow> irq_channels gs [u] irq_no = {nat (uq_ch_id u)} \<and> nat (uq_ch_id u) < 32"
  by (auto simp: irq_channels_def)

lemma irq_channels_split: "irq_channels gs uqs irq_no = (\<Union>u \<in> set uqs. irq_channels gs [u] irq_no)"
  by (auto simp: irq_channels_def)

lemma intr_loop_reading:
  assumes "reading_only gs uqs (snd s)" "set is \<subseteq> {..<MAX_MSG_IRQ}"
  shows "\<exists>b st'. intr_loop alive irq_no is s = Inr (b, st') \<and> reading_only gs uqs st' \<and>
    st' = (snd s)\<lparr>msg_ready_mask := msg_ready_mask st'\<rparr> \<and>
    bits (msg_ready_mask st') = bits (msg_ready_mask (snd s)) \<union> (\<Union>i \<in> set is. irq_channels gs [uqs ! i] irq_no) \<and>
    (b \<longleftrightarrow> fst s \<or> (\<Union>i \<in> set is. irq_channels gs [uqs ! i] irq_no) \<noteq> {})"
  using assms
proof (induction "is" arbitrary: s)
  case (Cons i ids)
  let ?C = "irq_channels gs [uqs ! i] irq_no"
  show ?case
  proof (cases "?C = {}")
    case True
    then show ?thesis using Cons.IH [OF Cons.prems(1)] Cons.prems intr_unit_reading [OF Cons.prems(1), of i] by auto
  next
    case False
    note c = irq_channels_single [OF False]
    let ?s = "(True, (snd s)\<lparr>msg_ready_mask := msg_ready_mask (snd s) OR push_bit (nat (uq_ch_id (uqs ! i))) 1\<rparr>)"
    have r: "reading_only gs uqs (snd ?s)" using Cons.prems(1) by (simp add: reading_only_def)
    have b: "bits (msg_ready_mask (snd ?s)) = bits (msg_ready_mask (snd s)) \<union> ?C"
      using c bits_push [of "nat (uq_ch_id (uqs ! i))", where 'a = 32] by simp
    show ?thesis using Cons.IH [OF r] Cons.prems intr_unit_reading [OF Cons.prems(1), of i] False b
      by (auto simp del: One_nat_def)
  qed
qed auto

lemma msg_intr_reading:
  assumes "reading_only gs uqs st"
  shows "\<exists>b st'. msg_intr alive irq_no st = Inr (b, st') \<and> reading_only gs uqs st' \<and> st' = st\<lparr>msg_ready_mask := msg_ready_mask st'\<rparr> \<and>
    bits (msg_ready_mask st') = bits (msg_ready_mask st) \<union> irq_channels gs uqs irq_no \<and> (b \<longleftrightarrow> irq_channels gs uqs irq_no \<noteq> {})"
proof -
  have l: "length uqs = 4" using assms by (simp add: reading_only_def)
  have "(\<Union>i \<in> set [0..<4]. irq_channels gs [uqs ! i] irq_no) = irq_channels gs uqs irq_no"
    unfolding irq_channels_split [of gs uqs] using l by (force simp: set_conv_nth)
  moreover have "set [0..<4] \<subseteq> {..<4 :: nat}" by auto
  ultimately show ?thesis using intr_loop_reading [of gs uqs "(False, st)" "[0..<4]" alive irq_no] assms by (auto simp: msg_intr_def)
qed

interpretation kipc: event_mask "reading_only gs uqs" "\<lambda>st. bits (msg_ready_mask st)" "irq_channels gs uqs" kipc_post kipc_fetch kipc_give for gs uqs
proof unfold_locales
  fix st :: kipc_state and irq_no :: nat and c d st'
  assume r: "reading_only gs uqs st"
  show "reading_only gs uqs (kipc_post irq_no st)"
    "bits (msg_ready_mask (kipc_post irq_no st)) = bits (msg_ready_mask st) \<union> irq_channels gs uqs irq_no"
    using msg_intr_reading [OF r, of "\<lambda>_. False" irq_no] by (auto simp: kipc_post_def)
  assume "kipc_fetch c st = (d, st')"
  then show "reading_only gs uqs st'" "kipc_give c (bits (msg_ready_mask st)) = (d, bits (msg_ready_mask st'))"
    using r by (auto simp: kipc_fetch_def kipc_give_def het_ipc_read_woken_def atomic_check_new_msgs_def reading_only_def)
qed

section \<open>Registration of a channel\<close>

text \<open>The entries in use come first; each entry has a unit with an interrupt of its own.\<close>

definition unit_irq :: "kipc_state \<Rightarrow> nat \<Rightarrow> nat" where
  "unit_irq st i = mu_irq (unit_at (fsl_msgs st) (the (uq_unit (uirq st ! i))))"

definition uirq_ok :: "kipc_state \<Rightarrow> bool" where
  "uirq_ok st \<longleftrightarrow> length (uirq st) = MAX_MSG_IRQ \<and> length (kchans st) \<le> 64 \<and>
     (\<forall>i < MAX_MSG_IRQ. uq_unit (uirq st ! i) \<noteq> None \<and> uq_signo (uirq st ! i) = 0 \<and>
        (uq_used (uirq st ! i) \<or> uq_ch_id (uirq st ! i) = - 1) \<and>
        (\<forall>j < i. unit_irq st j \<noteq> unit_irq st i \<and> (uq_used (uirq st ! i) \<longrightarrow> uq_used (uirq st ! j))))"

definition entries_used :: "kipc_state \<Rightarrow> nat" where
  "entries_used st = length (takeWhile uq_used (uirq st))"

abbreviation "wakes_for st \<equiv> irq_channels (fsl_msgs st) (uirq st)"

lemma wakes_for_nth:
  assumes "length (uirq st) = MAX_MSG_IRQ" "\<forall>i < MAX_MSG_IRQ. uq_unit (uirq st ! i) \<noteq> None"
  shows "wakes_for st n = {nat (uq_ch_id (uirq st ! i)) | i. i < MAX_MSG_IRQ \<and> 0 < uq_ch_id (uirq st ! i) \<and>
    uq_ch_id (uirq st ! i) < 32 \<and> unit_irq st i = n}"
proof -
  have "(\<exists>p. uq_unit (uirq st ! i) = Some p \<and> mu_irq (unit_at (fsl_msgs st) p) = n) \<longleftrightarrow> unit_irq st i = n" if "i < 4" for i
    using assms(2) that by (auto simp: unit_irq_def)
  then show ?thesis unfolding irq_channels_def set_conv_nth assms(1) by blast
qed

lemma register_state:
  assumes "uirq_ok st" "entries_used st < MAX_MSG_IRQ" "unat c < length (kchans st)"
    "het_ipc_ioctl True pid (c, 0) st = Inr (r, st')"
  shows "r = 0" "uirq st' = (uirq st)[entries_used st := (uirq st ! entries_used st)\<lparr>uq_used := True, uq_ch_id := int (unat c)\<rparr>]"
    "fsl_msgs st' = fsl_msgs st" "msg_ready_mask st' = msg_ready_mask st"
    "kchans st' = (kchans st)[unat c := (kchans st ! unat c)\<lparr>ipc_ind := OS_HET_PA_MPIC,
       ind_offset := 0x1400 + of_nat (entries_used st) * 16, ind_value := 0x12345678\<rparr>]"
  using assms sint_small [of c] by (auto simp: het_ipc_ioctl_def entries_used_def uirq_ok_def Let_def)

lemma takeWhile_lengthI:
  "(\<And>j. j < n \<Longrightarrow> P (xs ! j)) \<Longrightarrow> n \<le> length xs \<Longrightarrow> (n < length xs \<Longrightarrow> \<not> P (xs ! n)) \<Longrightarrow> length (takeWhile P xs) = n"
  using takeWhile_eq_take_P_nth [of n xs P] by simp

lemma entries_used_spec:
  assumes "uirq_ok st" "j < MAX_MSG_IRQ"
  shows "uq_used (uirq st ! j) \<longleftrightarrow> j < entries_used st"
proof
  assume u: "uq_used (uirq st ! j)"
  have l: "length (uirq st) = 4" using assms(1) by (simp add: uirq_ok_def)
  show "j < entries_used st"
  proof (rule ccontr)
    assume n: "\<not> j < entries_used st"
    then have "\<not> uq_used (uirq st ! entries_used st)"
      using assms(2) l nth_length_takeWhile [of uq_used "uirq st"] by (simp add: entries_used_def)
    then show False using u n assms by (cases "j = entries_used st") (auto simp: uirq_ok_def)
  qed
next
  assume "j < entries_used st"
  then show "uq_used (uirq st ! j)" using takeWhile_nth [of j uq_used "uirq st"] nth_mem [of j "takeWhile uq_used (uirq st)"]
    by (auto simp: entries_used_def dest: set_takeWhileD)
qed

lemma collect_update:
  assumes "\<And>j. j \<noteq> i \<Longrightarrow> f' j = f j" "\<not> Q i (f i)"
  shows "{g (f' j) | j. Q j (f' j)} = {g (f j) | j. Q j (f j)} \<union> (if Q i (f' i) then {g (f' i)} else {})"
proof (intro set_eqI iffI)
  fix x assume "x \<in> {g (f' j) | j. Q j (f' j)}"
  then obtain j where j: "x = g (f' j)" "Q j (f' j)" by blast
  then show "x \<in> {g (f j) | j. Q j (f j)} \<union> (if Q i (f' i) then {g (f' i)} else {})"
    using assms(1) [of j] by (cases "j = i") auto
next
  fix x assume "x \<in> {g (f j) | j. Q j (f j)} \<union> (if Q i (f' i) then {g (f' i)} else {})"
  then consider j where "x = g (f j)" "Q j (f j)" | "x = g (f' i)" "Q i (f' i)" by (auto split: if_splits)
  then show "x \<in> {g (f' j) | j. Q j (f' j)}"
  proof cases
    case (1 j)
    then have "f' j = f j" using assms by metis
    then have "x = g (f' j)" "Q j (f' j)" using 1 by simp_all
    then show ?thesis by blast
  qed blast
qed

lemma register_entry:
  assumes ok: "uirq_ok st" and i: "i = entries_used st" "i < MAX_MSG_IRQ"
    and st': "uirq st' = (uirq st)[i := (uirq st ! i)\<lparr>uq_used := True, uq_ch_id := k\<rparr>]" "fsl_msgs st' = fsl_msgs st"
      "length (kchans st') = length (kchans st)"
  shows "uirq_ok st'" "entries_used st' = Suc i"
    "wakes_for st' n = wakes_for st n \<union> (if n = unit_irq st i \<and> 0 < k \<and> k < 32 then {nat k} else {})"
proof -
  have l: "length (uirq st) = 4" using ok by (simp add: uirq_ok_def)
  have irq: "unit_irq st' j = unit_irq st j" for j
    using i(2) l st'(1,2) by (cases "j = i") (simp_all add: unit_irq_def)
  have used: "uq_used (uirq st' ! j) \<longleftrightarrow> j \<le> i" if "j < 4" for j
    using entries_used_spec [OF ok that] i l st'(1) that by (cases "j = i") auto
  have oth: "uirq st' ! j = uirq st ! j" if "j \<noteq> i" for j using st'(1) that by simp
  have nu: "uq_ch_id (uirq st ! i) = - 1" using ok i entries_used_spec [OF ok i(2)] by (auto simp: uirq_ok_def)
  have ent: "uq_unit (uirq st' ! j) \<noteq> None \<and> uq_signo (uirq st' ! j) = 0 \<and> (uq_used (uirq st' ! j) \<or> uq_ch_id (uirq st' ! j) = - 1)"
    if "j < 4" for j
    using ok that i(2) l st'(1) oth [of j] by (cases "j = i") (auto simp: uirq_ok_def)
  have "unit_irq st' j \<noteq> unit_irq st' m \<and> (uq_used (uirq st' ! m) \<longrightarrow> uq_used (uirq st' ! j))" if "m < 4" "j < m" for m j
    using ok that irq used [of m] used [of j] by (auto simp: uirq_ok_def)
  moreover have "length (uirq st') = 4" "length (kchans st') \<le> 64" using ok st'(1,3) by (simp_all add: uirq_ok_def)
  ultimately show "uirq_ok st'" using ent unfolding uirq_ok_def by blast
  show "entries_used st' = Suc i" unfolding entries_used_def
    by (rule takeWhile_lengthI) (use used used [of "Suc i"] i(2) l in \<open>auto simp: st'(1)\<close>)
  let ?Q = "\<lambda>j c. j < 4 \<and> 0 < c \<and> c < 32 \<and> unit_irq st j = n"
  have "wakes_for st' n = {nat (uq_ch_id (uirq st' ! j)) | j. ?Q j (uq_ch_id (uirq st' ! j))}"
    using wakes_for_nth [of st' n] ent l st'(1) irq by simp
  also have "\<dots> = {nat (uq_ch_id (uirq st ! j)) | j. ?Q j (uq_ch_id (uirq st ! j))} \<union>
      (if ?Q i (uq_ch_id (uirq st' ! i)) then {nat (uq_ch_id (uirq st' ! i))} else {})"
    by (rule collect_update) (use oth nu in auto)
  also have "{nat (uq_ch_id (uirq st ! j)) | j. ?Q j (uq_ch_id (uirq st ! j))} = wakes_for st n"
    using wakes_for_nth [of st n] ok by (simp add: uirq_ok_def)
  also have "uq_ch_id (uirq st' ! i) = k" using i(2) l st'(1) by simp
  finally show "wakes_for st' n = wakes_for st n \<union> (if n = unit_irq st i \<and> 0 < k \<and> k < 32 then {nat k} else {})"
    using i(2) by auto
qed

text \<open>A sample driver: one group of units with the interrupts 40 to 43, eight channels, just opened.\<close>

definition kipc_sample :: kipc_state where
  "kipc_sample =
     het_ipc_open (snd (register_msg_intr
       \<lparr>fsl_msgs = fsl_init_msg [\<lparr>node_alloc = True, node_regs = True, node_irqs = [Some 40, Some 41, Some 42, Some 43]\<rparr>] [],
        uirq = replicate 4 \<lparr>uq_used = False, uq_ch_id = 0, uq_unit = None, uq_pid = 0, uq_signo = 0\<rparr>,
        msg_ready_mask = 0, kchans = replicate 8 zero_channel, signals = []\<rparr>))"

lemma kipc_sample_ok: "uirq_ok kipc_sample" "length (kchans kipc_sample) = 8" "entries_used kipc_sample = 0" "unit_irq kipc_sample 0 = 40"
  by code_simp+

text \<open>Registering a channel with the driver always reports success. While one of the four entries is free, the
  next one is taken: the channel's indication is set to the entry's message unit, from then on that unit's
  interrupt marks the channel as ready and wakes the readers, and all other interrupts mean what they meant
  before. Channel 0 and channels from 32 on are never marked, and with all entries in use nothing happens
  at all.\<close>

lemma ipc_register_outcome:
  assumes "uirq_ok st" "unat c < length (kchans st)" "i = entries_used st"
  shows "\<exists>st'. het_ipc_ioctl True pid (c, 0) st = Inr (0, st') \<and> uirq_ok st' \<and>
    (if i = MAX_MSG_IRQ then st' = st
     else entries_used st' = Suc i \<and> ind_offset (kchans st' ! unat c) = 0x1400 + of_nat i * 16 \<and>
       (\<forall>n. wakes_for st' n = wakes_for st n \<union> (if n = unit_irq st i \<and> 0 < unat c \<and> unat c < 32 then {unat c} else {})))"
proof (cases "i = MAX_MSG_IRQ")
  case True
  then show ?thesis using assms by (simp add: het_ipc_ioctl_def entries_used_def Let_def)
next
  case False
  have "length (uirq st) = 4" using assms(1) by (simp add: uirq_ok_def)
  then have i: "i < 4" using False assms(3) length_takeWhile_le [of uq_used "uirq st"] by (simp add: entries_used_def)
  obtain st' where st': "het_ipc_ioctl True pid (c, 0) st = Inr (0, st')"
    using i assms(2,3) by (simp add: het_ipc_ioctl_def entries_used_def Let_def)
  note R = register_state [OF assms(1) i [unfolded assms(3)] assms(2) st', folded assms(3)]
  have l: "length (kchans st') = length (kchans st)" using R(5) by simp
  have k: "0 < int (unat c) \<longleftrightarrow> 0 < unat c" "int (unat c) < 32 \<longleftrightarrow> unat c < 32" "nat (int (unat c)) = unat c"
    by (rule of_nat_0_less_iff) (linarith, rule nat_int)
  note E = register_entry [OF assms(1,3) i R(2,3) l, unfolded k]
  show ?thesis using st' E R(5) False assms(2) by auto
qed

theorem ipc_register_outcome_witness:
  "\<exists>st'. het_ipc_ioctl True 7 (5, 0) kipc_sample = Inr (0, st') \<and> 5 \<in> wakes_for st' 40"
  using ipc_register_outcome [OF kipc_sample_ok(1), of 5 0 7] kipc_sample_ok(2-4) by auto

end
