(* ===== verification/Blocking_Receive.thy ===== *)
theory Blocking_Receive
  imports Kernel_IPC
begin

text \<open>
  The blocking receive of a pointer channel, across the library and the kernel: a thread in
  \<open>fsl_ipc_recv_ptr_block\<close> looks into the channel, reads the driver's device when the channel is empty,
  sleeps there until an interrupt, takes the mask of ready channels and looks again. The other side
  puts messages into the channel and raises the interrupt of its message unit.

  \<open>blk_step\<close> has one rule per piece of the receiver another processor can interleave with.
\<close>

section \<open>Receiver and sender\<close>

datatype blk_phase = Calls | Found_empty | Asleep | Woken | Has_mask u32

record blk_sys =
  b_ipc :: ipc_state
  b_k :: kipc_state
  b_phase :: blk_phase
  b_got :: "(u32 \<times> u32) list"
  b_sent :: "(u32 \<times> u32) list"

definition wake_up :: "bool \<Rightarrow> blk_phase \<Rightarrow> blk_phase" where
  "wake_up w p = (if w \<and> p = Asleep then Woken else p)"

text \<open>The receiver's own steps, on channel \<open>c\<close>; every call starts over at \<open>Calls\<close>.\<close>

inductive recv_step :: "u32 \<Rightarrow> blk_sys \<Rightarrow> blk_sys \<Rightarrow> bool" for c where
  finds: "b_phase y = Calls \<Longrightarrow> ptr_deq c (b_ipc y) = Some (x, s) \<Longrightarrow>
    recv_step c y (y\<lparr>b_ipc := s, b_got := b_got y @ [x]\<rparr>)"
| looks: "b_phase y = Calls \<Longrightarrow> ptr_deq c (b_ipc y) = None \<Longrightarrow>
    recv_step c y (y\<lparr>b_phase := Found_empty\<rparr>)"
| sleeps: "b_phase y = Found_empty \<Longrightarrow> recv_step c y (y\<lparr>b_phase := Asleep\<rparr>)"
| takes: "b_phase y = Woken \<Longrightarrow> het_ipc_read_woken True (b_k y) = (n, m, k) \<Longrightarrow>
    recv_step c y (y\<lparr>b_k := k, b_phase := Has_mask m\<rparr>)"
| receives: "b_phase y = Has_mask m \<Longrightarrow> m AND push_bit (unat c) 1 \<noteq> 0 \<Longrightarrow> ptr_deq c (b_ipc y) = Some (x, s) \<Longrightarrow>
    recv_step c y (y\<lparr>b_ipc := s, b_got := b_got y @ [x], b_phase := Calls\<rparr>)"
| misses: "b_phase y = Has_mask m \<Longrightarrow> m AND push_bit (unat c) 1 = 0 \<or> ptr_deq c (b_ipc y) = None \<Longrightarrow>
    recv_step c y (y\<lparr>b_phase := Calls\<rparr>)"

text \<open>The sender's: a message and the channel's interrupt \<open>q\<close>, or an interrupt for another channel.\<close>

inductive send_step :: "u32 \<Rightarrow> nat \<Rightarrow> blk_sys \<Rightarrow> blk_sys \<Rightarrow> bool" for c q where
  sends: "ptr_enq c x (b_ipc y) = Some s \<Longrightarrow> msg_intr alive q (b_k y) = Inr (w, k) \<Longrightarrow>
    send_step c q y (y\<lparr>b_ipc := s, b_k := k, b_phase := wake_up w (b_phase y), b_sent := b_sent y @ [x]\<rparr>)"
| others: "q' \<noteq> q \<Longrightarrow> msg_intr alive q' (b_k y) = Inr (w, k) \<Longrightarrow>
    send_step c q y (y\<lparr>b_k := k, b_phase := wake_up w (b_phase y)\<rparr>)"

text \<open>With \<open>race\<close> the sender may act between the receiver's look into the channel and its going to sleep.\<close>

definition blk_step :: "u32 \<Rightarrow> nat \<Rightarrow> bool \<Rightarrow> blk_sys \<Rightarrow> blk_sys \<Rightarrow> bool" where
  "blk_step c q race y y' \<longleftrightarrow> recv_step c y y' \<or> (race \<or> b_phase y \<noteq> Found_empty) \<and> send_step c q y y'"

definition blk_start :: "u32 \<Rightarrow> nat \<Rightarrow> fsl_msg list \<Rightarrow> user_irq list \<Rightarrow> blk_sys \<Rightarrow> bool" where
  "blk_start c q gs uqs y \<longleftrightarrow> ptr_wf c (b_ipc y) \<and> reading_only gs uqs (b_k y) \<and> unat c \<in> irq_channels gs uqs q \<and>
     b_phase y = Calls \<and> b_got y = [] \<and> b_sent y = ptr_contents c (b_ipc y)"

section \<open>What the receiver gets\<close>

definition blk_inv :: "u32 \<Rightarrow> fsl_msg list \<Rightarrow> user_irq list \<Rightarrow> bool \<Rightarrow> blk_sys \<Rightarrow> bool" where
  "blk_inv c gs uqs race y \<longleftrightarrow> ptr_wf c (b_ipc y) \<and> reading_only gs uqs (b_k y) \<and>
     b_got y @ ptr_contents c (b_ipc y) = b_sent y \<and>
     (\<not> race \<longrightarrow> b_phase y \<in> {Found_empty, Asleep} \<longrightarrow> ptr_contents c (b_ipc y) = [])"

lemma ptr_deq_cases:
  assumes "ptr_wf c s"
  shows "ptr_deq c s = None \<Longrightarrow> ptr_contents c s = []"
    "ptr_deq c s = Some (x, s') \<Longrightarrow> ptr_wf c s' \<and> ptr_contents c s = x # ptr_contents c s'"
  using chq.deq_item [OF assms] chq.deq_empty [OF assms] by (cases "ptr_contents c s"; fastforce)+

lemma ptr_enq_some:
  assumes "ptr_wf c s" "ptr_enq c x s = Some s'"
  shows "ptr_wf c s'" "ptr_contents c s' = ptr_contents c s @ [x]"
proof -
  have "length (ptr_contents c s) \<noteq> ptr_capacity c s" using chq.enq_full [OF assms(1), of x] assms(2) by auto
  then have "length (ptr_contents c s) < ptr_capacity c s" using chq.bounded [OF assms(1)] by simp
  from chq.enq_room [OF assms(1) this, of x] assms(2) show "ptr_wf c s'" "ptr_contents c s' = ptr_contents c s @ [x]" by auto
qed

lemma wake_up_cases:
  "wake_up w p = Found_empty \<longleftrightarrow> p = Found_empty" "wake_up w p = Asleep \<longleftrightarrow> p = Asleep \<and> \<not> w"
  by (auto simp: wake_up_def)

lemma recv_inv:
  assumes "recv_step c y y'" "blk_inv c gs uqs race y"
  shows "blk_inv c gs uqs race y'"
  using assms(1)
proof cases
  case (takes n m k)
  then show ?thesis using assms(2) by (auto simp: blk_inv_def het_ipc_read_woken_def atomic_check_new_msgs_def reading_only_def)
qed (use assms(2) ptr_deq_cases [of c "b_ipc y"] in \<open>auto simp: blk_inv_def\<close>)

lemma send_inv:
  assumes "send_step c q y y'" "blk_inv c gs uqs race y" "race \<or> b_phase y \<noteq> Found_empty" "unat c \<in> irq_channels gs uqs q"
  shows "blk_inv c gs uqs race y'"
  using assms(1)
proof cases
  case (sends x s alive w k)
  have I: "ptr_wf c (b_ipc y)" "reading_only gs uqs (b_k y)" using assms(2) by (simp_all add: blk_inv_def)
  have "reading_only gs uqs k" "w" using msg_intr_reading [OF I(2), of alive q] sends(3) assms(4) by auto
  then show ?thesis
    using assms(2,3) sends ptr_enq_some [OF I(1) sends(2)] by (auto simp: blk_inv_def wake_up_cases)
next
  case (others q' alive w k)
  have "reading_only gs uqs (b_k y)" using assms(2) by (simp add: blk_inv_def)
  then have "reading_only gs uqs k" using msg_intr_reading [of gs uqs "b_k y" alive q'] others(3) by auto
  then show ?thesis using assms(2) others by (auto simp: blk_inv_def wake_up_cases)
qed

lemma blk_inv_reach:
  assumes "(blk_step c q race)\<^sup>*\<^sup>* y0 y" "blk_start c q gs uqs y0"
  shows "blk_inv c gs uqs race y"
  using assms(1)
proof (induction rule: rtranclp_induct)
  case base
  then show ?case using assms(2) by (auto simp: blk_start_def blk_inv_def)
next
  case (step y y')
  moreover have "unat c \<in> irq_channels gs uqs q" using assms(2) by (simp add: blk_start_def)
  ultimately show ?case using recv_inv send_inv by (metis blk_step_def)
qed

text \<open>A receiver that sleeps and gets a message has it three steps later.\<close>

lemma sleeper_receives:
  assumes "blk_inv c gs uqs race y" "unat c \<in> irq_channels gs uqs q" "b_phase y = Asleep"
    "ptr_enq c x (b_ipc y) = Some s" "msg_intr alive q (b_k y) = Inr (w, k)"
    "y1 = y\<lparr>b_ipc := s, b_k := k, b_phase := wake_up w (b_phase y), b_sent := b_sent y @ [x]\<rparr>"
  shows "\<exists>y2. recv_step c y1 y2 \<and> (\<exists>y3. recv_step c y2 y3 \<and> b_got y3 = b_got y @ [hd (ptr_contents c (b_ipc y) @ [x])])"
proof -
  have I: "ptr_wf c (b_ipc y)" "reading_only gs uqs (b_k y)" using assms(1) by (simp_all add: blk_inv_def)
  have k: "w" "unat c \<in> bits (msg_ready_mask k)" using msg_intr_reading [OF I(2), of alive q] assms(2,5) by auto
  note E = ptr_enq_some [OF I(1) assms(4)]
  obtain n m k' where r: "het_ipc_read_woken True k = (n, m, k')" by (rule prod_cases3)
  then have m: "m = msg_ready_mask k" by (simp add: het_ipc_read_woken_def atomic_check_new_msgs_def)
  have "bit (m AND push_bit (unat c) 1) (unat c)"
    using k(2) bit_imp_le_length [of "msg_ready_mask k" "unat c"]
    by (simp add: m bits_def bit_and_iff bit_exp_iff possible_bit_def)
  then have nz: "m AND push_bit (unat c) 1 \<noteq> 0" by (metis bit_0_eq bot_apply bot_bool_def)
  let ?y2 = "y1\<lparr>b_k := k', b_phase := Has_mask m\<rparr>"
  have 1: "recv_step c y1 ?y2" using k(1) assms(3,6) r by (intro recv_step.takes) (simp_all add: wake_up_def)
  have "ptr_contents c s \<noteq> []" using E(2) by simp
  then obtain z zs where z: "ptr_contents c s = z # zs" by (cases "ptr_contents c s") auto
  obtain s' where d: "ptr_deq c s = Some (z, s')" using chq.deq_item [OF E(1) z] by auto
  have 2: "recv_step c ?y2 (?y2\<lparr>b_ipc := s', b_got := b_got ?y2 @ [z], b_phase := Calls\<rparr>)"
    by (rule recv_step.receives [OF _ nz]) (use d assms(6) in simp_all)
  have "z = hd (ptr_contents c (b_ipc y) @ [x])" using z E(2) by (metis list.sel(1))
  then show ?thesis using 1 2 assms(6) by (intro exI [of _ ?y2] conjI exI [of _ "?y2\<lparr>b_ipc := s', b_got := b_got ?y2 @ [z], b_phase := Calls\<rparr>"]) auto
qed

text \<open>A sample: channel 5 of the sample system, registered with the sample driver.\<close>

definition blk_sample_k :: kipc_state where
  "blk_sample_k = (case het_ipc_ioctl True 7 (5, 0) kipc_sample of Inr (_, k) \<Rightarrow> k | Inl _ \<Rightarrow> kipc_sample)"

definition blk_sample :: blk_sys where
  "blk_sample = \<lparr>b_ipc = sample_state, b_k = blk_sample_k, b_phase = Calls, b_got = [], b_sent = []\<rparr>"

lemma blk_sample_uirq:
  "uirq blk_sample_k =
     \<lparr>uq_used = True, uq_ch_id = 5, uq_unit = Some (0, 0), uq_pid = 0, uq_signo = 0\<rparr> #
     map (\<lambda>i. \<lparr>uq_used = False, uq_ch_id = - 1, uq_unit = Some (0, i), uq_pid = 0, uq_signo = 0\<rparr>) [1, 2, 3]"
  "mu_irq (unit_at (fsl_msgs blk_sample_k) (0, 0)) = 40"
  by code_simp+

lemma blk_sample_start: "blk_start 5 40 (fsl_msgs blk_sample_k) (uirq blk_sample_k) blk_sample"
  "ptr_contents 5 (b_ipc blk_sample) = []" "ptr_enq 5 (1, 2) (b_ipc blk_sample) \<noteq> None"
proof -
  have e: "ptr_contents 5 sample_state = []"
    by (simp add: ptr_contents_def chan_of_sample ch_contents_def ch_used_def sample_channel_def)
  have "5 \<in> irq_channels (fsl_msgs blk_sample_k) (uirq blk_sample_k) 40"
    unfolding irq_channels_def mem_Collect_eq
    by (rule exI [of _ "hd (uirq blk_sample_k)"]) (simp add: blk_sample_uirq)
  then show "blk_start 5 40 (fsl_msgs blk_sample_k) (uirq blk_sample_k) blk_sample"
    using sample_wf(2) blk_sample_uirq(1) e by (simp add: blk_start_def blk_sample_def reading_only_def)
  show "ptr_contents 5 (b_ipc blk_sample) = []" using e by (simp add: blk_sample_def)
  have "length (ptr_contents 5 sample_state) < ptr_capacity 5 sample_state"
    using e by (simp add: ptr_capacity_def chan_of_sample sample_channel_def)
  from chq.enq_room [OF sample_wf(2) this] show "ptr_enq 5 (1, 2) (b_ipc blk_sample) \<noteq> None" by (auto simp: blk_sample_def)
qed

text \<open>C15: The blocking receive delivers the messages of a channel completely and in order, whatever the
  interleaving of receiver, sender and interrupts: what it returned followed by what is in the channel is
  what was sent. A sleeping receiver that gets a message returns the oldest one at its next look. If no
  message arrives between the receiver's look into the channel and its going to sleep, it never sleeps on a
  channel with messages.\<close>

theorem blocking_receive_in_order:
  assumes "blk_start c q gs uqs y0" "(blk_step c q race)\<^sup>*\<^sup>* y0 y"
  shows "b_got y @ ptr_contents c (b_ipc y) = b_sent y \<and>
    (\<not> race \<and> b_phase y = Asleep \<longrightarrow> ptr_contents c (b_ipc y) = []) \<and>
    (\<forall>x s alive w k. b_phase y = Asleep \<and> ptr_enq c x (b_ipc y) = Some s \<and> msg_intr alive q (b_k y) = Inr (w, k) \<longrightarrow>
       (\<exists>y2 y3. recv_step c (y\<lparr>b_ipc := s, b_k := k, b_phase := wake_up w (b_phase y), b_sent := b_sent y @ [x]\<rparr>) y2 \<and>
          recv_step c y2 y3 \<and> b_got y3 = b_got y @ [hd (ptr_contents c (b_ipc y) @ [x])]))"
proof -
  have I: "blk_inv c gs uqs race y" by (rule blk_inv_reach [OF assms(2,1)])
  have q: "unat c \<in> irq_channels gs uqs q" using assms(1) by (simp add: blk_start_def)
  show ?thesis using I sleeper_receives [OF I q] by (fastforce simp: blk_inv_def)
qed

theorem blocking_receive_in_order_witness:
  "b_got (blk_sample\<lparr>b_phase := Found_empty\<rparr>) @ ptr_contents 5 (b_ipc (blk_sample\<lparr>b_phase := Found_empty\<rparr>)) = []"
proof -
  have "b_phase blk_sample = Calls" "ptr_wf 5 (b_ipc blk_sample)" using sample_wf(2) by (simp_all add: blk_sample_def)
  then have "recv_step 5 blk_sample (blk_sample\<lparr>b_phase := Found_empty\<rparr>)"
    by (intro recv_step.looks chq.deq_empty blk_sample_start(2))
  then have "(blk_step 5 40 True)\<^sup>*\<^sup>* blk_sample (blk_sample\<lparr>b_phase := Found_empty\<rparr>)" by (auto simp: blk_step_def)
  from blocking_receive_in_order [OF blk_sample_start(1) this] show ?thesis by (simp add: blk_sample_def)
qed

text \<open>C37: A message that arrives after the receiver has found the channel empty and before it sleeps is not
  noticed: its interrupt marks the channel and finds nobody to wake, the receiver goes to sleep without
  looking at the mask, and with the message in the channel it has no step of its own until another
  interrupt comes.\<close>

theorem blocking_receive_lost_wakeup:
  assumes "blk_start c q gs uqs y0" "ptr_contents c (b_ipc y0) = []" "ptr_enq c x (b_ipc y0) \<noteq> None"
  shows "\<exists>y. (blk_step c q True)\<^sup>*\<^sup>* y0 y \<and> ptr_contents c (b_ipc y) = [x] \<and> b_phase y = Asleep \<and>
    unat c \<in> bits (msg_ready_mask (b_k y)) \<and> (\<forall>y'. \<not> recv_step c y y')"
proof -
  have I: "ptr_wf c (b_ipc y0)" "reading_only gs uqs (b_k y0)" "unat c \<in> irq_channels gs uqs q" "b_phase y0 = Calls"
    using assms(1) by (simp_all add: blk_start_def)
  obtain s where s: "ptr_enq c x (b_ipc y0) = Some s" using assms(3) by auto
  obtain w k where k: "msg_intr (\<lambda>_. False) q (b_k y0) = Inr (w, k)" "unat c \<in> bits (msg_ready_mask k)"
    using msg_intr_reading [OF I(2), of "\<lambda>_. False" q] I(3) by auto
  let ?y1 = "y0\<lparr>b_phase := Found_empty\<rparr>"
  let ?y2 = "?y1\<lparr>b_ipc := s, b_k := k, b_phase := wake_up w (b_phase ?y1), b_sent := b_sent ?y1 @ [x]\<rparr>"
  let ?y3 = "?y2\<lparr>b_phase := Asleep\<rparr>"
  have 1: "blk_step c q True y0 ?y1"
    unfolding blk_step_def by (rule disjI1, rule recv_step.looks [OF I(4) chq.deq_empty [OF I(1) assms(2)]])
  have "send_step c q ?y1 ?y2" by (rule send_step.sends) (use s k in simp_all)
  then have 2: "blk_step c q True ?y1 ?y2" unfolding blk_step_def by blast
  have 3: "blk_step c q True ?y2 ?y3"
    unfolding blk_step_def by (rule disjI1, rule recv_step.sleeps) (simp add: wake_up_def)
  have "(blk_step c q True)\<^sup>*\<^sup>* y0 ?y3"
    by (rule converse_rtranclp_into_rtranclp [of "blk_step c q True", OF 1 converse_rtranclp_into_rtranclp [of "blk_step c q True", OF 2 r_into_rtranclp [of "blk_step c q True", OF 3]]])
  moreover have "ptr_contents c s = [x]" using ptr_enq_some [OF I(1) s] assms(2) by simp
  moreover have "\<not> recv_step c ?y3 y'" for y' by (auto elim: recv_step.cases)
  ultimately show ?thesis using k(2) by (intro exI [of _ ?y3]) auto
qed

theorem blocking_receive_lost_wakeup_witness:
  "\<exists>y. (blk_step 5 40 True)\<^sup>*\<^sup>* blk_sample y \<and> ptr_contents 5 (b_ipc y) = [(1, 2)] \<and> b_phase y = Asleep"
  using blocking_receive_lost_wakeup [OF blk_sample_start] by blast

end
