(* ===== verification/Het_Manager.thy ===== *)
theory Het_Manager
  imports Kernel_IPC User_Memory
begin

text \<open>
  The heterogeneous manager of the kernel (\<open>kernel/fsl_hetmgr.c\<close>, the branch for the B4860): the map of
  the system's memory, the control area shared with the DSP and its division into structures, memory for
  the IPC driver from the rest of it, and the device the user-space libraries ask. Behind it the part of
  the IPC driver (\<open>kernel/fsl_ipc.c\<close>) that lays out the channels in that memory. \<open>multi\<close> is
  \<open>CONFIG_MULTI_RAT\<close>, which doubles the IPC structures.

  The shared structures are kept as records with the addresses they lie at; their sizes are those of the
  B4860 layout (8-byte alignment): 704 bytes for the control structure, 32 for an IPC structure, 40 for a
  log and for the L1 defense structure.
\<close>

section \<open>System map\<close>

text \<open>The module parameters; the device tree knows one of the three boards or not.\<close>

record het_params =
  par_dsp_shared_size :: u32
  par_dsp_private_addr :: u64
  par_dsp_private_size :: u32
  par_shared_ctrl_addr :: u64
  par_shared_ctrl_size :: u32
  par_channels :: u16
  par_depth :: u16

definition at_least :: "'a::linorder \<Rightarrow> 'a \<Rightarrow> 'a" where
  "at_least v lim = (if v < lim then lim else v)"

definition get_het_sys_map :: "bool \<Rightarrow> het_params \<Rightarrow> sys_map" where
  "get_het_sys_map known p =
     \<lparr>pa_shared_size = 0, dsp_shared_size = at_least (par_dsp_shared_size p) 0x1000000,
      m_pa_ccsrbar = \<lparr>strt_phys = 0xFFE000000, strt_size = 0x1000000\<rparr>,
      m_dsp_ccsrbar = \<lparr>strt_phys = 0xFFE000000, strt_size = 0x1000000\<rparr>,
      m_smart_dsp_os_priv_area =
        \<lparr>strt_phys = at_least (par_dsp_private_addr p) 0x80000000, strt_size = at_least (par_dsp_private_size p) 0x7FF00000\<rparr>,
      m_sh_ctrl_area =
        \<lparr>strt_phys = at_least (par_shared_ctrl_addr p) 0xFFF00000, strt_size = at_least (par_shared_ctrl_size p) 0x100000\<rparr>,
      m_dsp_core0_m2 = zero_strt, m_dsp_core1_m2 = zero_strt,
      m_dsp_m3 = (if known then \<lparr>strt_phys = 0xc40000000, strt_size = 64 * 512\<rparr> else zero_strt)\<rparr>"

section \<open>Control area\<close>

record os_het_mem =
  mem_start :: u64
  mem_size :: u64

record het_control =
  hc_start_valid :: u32
  hc_pa_initialized :: u32
  hc_sc_initialized :: u32
  hc_pa_shared_mem :: os_het_mem
  hc_sc_shared_mem :: os_het_mem
  hc_ipc :: u64
  hc_l1d :: u64
  hc_smartdsp_debug :: u64
  hc_shared_ctrl_size :: u32
  hc_num_ipc_regions :: u32
  hc_end_valid :: u32

record het_state =
  h_sys_map :: sys_map
  h_ctrl :: "het_control option"
  h_logs :: "(u32 \<times> u32) list"
  h_l1d :: "(u32 \<times> u32) option"
  h_mark :: u64
  h_shmid :: u32
  h_sems :: "u32 list"

abbreviation (input) "HET_START \<equiv> (0x12345678 :: u32)"
abbreviation (input) "HET_END \<equiv> (0x87654321 :: u32)"
abbreviation (input) "NR_DSP_CORE \<equiv> (6 :: nat)"
abbreviation (input) "sizeof_het_control \<equiv> (704 :: u64)"
abbreviation (input) "sizeof_het_log \<equiv> (40 :: u64)"
abbreviation (input) "sizeof_het_l1d \<equiv> (40 :: u64)"

definition zero_mem :: os_het_mem where
  "zero_mem = \<lparr>mem_start = 0, mem_size = 0\<rparr>"

text \<open>The base of the area, and the offsets of the structures in it.\<close>

definition ctrl_base :: "het_state \<Rightarrow> u64" where
  "ctrl_base st = strt_phys (m_sh_ctrl_area (h_sys_map st))"

definition ipc_regions :: "bool \<Rightarrow> u64" where
  "ipc_regions multi = (if multi then 2 else 1)"

text \<open>\<open>maps\<close> are the results of the three \<open>ioremap\<close> calls: the area, the logs, the L1 defense structure.\<close>

definition init_sh_ctrl_area :: "bool \<Rightarrow> bool \<times> bool \<times> bool \<Rightarrow> het_state \<Rightarrow> int \<times> het_state" where
  "init_sh_ctrl_area multi maps st =
     (case maps of (m1, m2, m3) \<Rightarrow>
        if \<not> m1 then (- 1, st\<lparr>h_ctrl := None\<rparr>)
        else
          (let base = ctrl_base st;
               o1 = sizeof_het_control;
               o2 = o1 + ipc_regions multi * 32;
               c = \<lparr>hc_start_valid = HET_START, hc_pa_initialized = 0, hc_sc_initialized = 0, hc_pa_shared_mem = zero_mem,
                    hc_sc_shared_mem = zero_mem, hc_ipc = base + o1, hc_l1d = 0, hc_smartdsp_debug = base + o2,
                    hc_shared_ctrl_size = 0x4000, hc_num_ipc_regions = (if multi then 2 else 0), hc_end_valid = HET_END\<rparr>;
               st1 = st\<lparr>h_ctrl := Some c\<rparr>
           in
           if \<not> m2 then (- 1, st1)
           else
             (let o3 = o2 + sizeof_het_log * of_nat NR_DSP_CORE;
                  st2 = st1\<lparr>h_logs := replicate NR_DSP_CORE (HET_START, HET_END), h_ctrl := Some (c\<lparr>hc_l1d := base + o3\<rparr>)\<rparr>
              in
              if \<not> m3 then (- 1, st2)
              else (0, st2\<lparr>h_l1d := Some (HET_START, HET_END), h_mark := base + (o3 + sizeof_het_l1d)\<rparr>))))"

text \<open>The descriptors of the two shared memories survive a new initialisation; a null control structure is a fault.\<close>

definition fsl_reinit_sh_ctrl_area :: "bool \<Rightarrow> bool \<times> bool \<times> bool \<Rightarrow> het_state \<Rightarrow> (int \<times> het_state) ipc" where
  "fsl_reinit_sh_ctrl_area multi maps st =
     (case h_ctrl st of
        None \<Rightarrow> Inl Null_pointer
      | Some c \<Rightarrow>
          (case init_sh_ctrl_area multi maps st of
             (ret, st') \<Rightarrow>
               (case h_ctrl st' of
                  None \<Rightarrow> Inl Null_pointer
                | Some c' \<Rightarrow>
                    Inr (ret, st'\<lparr>h_ctrl := Some (c'\<lparr>hc_pa_shared_mem := hc_pa_shared_mem c, hc_sc_shared_mem := hc_sc_shared_mem c\<rparr>)\<rparr>))))"

text \<open>
  Physical addresses only: the virtual ones are the same offsets from the mapping of the area.
  The mark is an address, the size it is compared with a number of bytes.
\<close>

definition get_hetmgr_ipc_addr :: "u64 \<Rightarrow> het_state \<Rightarrow> u64 ipc" where
  "get_hetmgr_ipc_addr inst st = (case h_ctrl st of None \<Rightarrow> Inl Null_pointer | Some c \<Rightarrow> Inr (hc_ipc c + inst * 32))"

definition get_hetmgr_mem :: "u32 \<Rightarrow> het_state \<Rightarrow> (u64 \<times> het_state) ipc" where
  "get_hetmgr_mem sz st =
     (case h_ctrl st of
        None \<Rightarrow> Inl Null_pointer
      | Some c \<Rightarrow>
          (let m = h_mark st + ucast sz in
           Inr (h_mark st,
             st\<lparr>h_mark := m,
                h_ctrl := Some (if m > ucast (hc_shared_ctrl_size c)
                                then c\<lparr>hc_shared_ctrl_size := hc_shared_ctrl_size c * 4\<rparr> else c)\<rparr>)))"

section \<open>Requests\<close>

text \<open>A request with what it copies in, \<open>None\<close> where \<open>copy_from_user\<close> fails.\<close>

datatype het_cmd =
    GET_SYS_MAP
  | V2P "mem_range option"
  | SET_SHMID "u32 option"
  | GET_SHMID
  | SET_SHARED_AREA "(mem_strt_addr \<times> mem_strt_addr) option"
  | SET_INITIALIZED
  | HW_SEM_GET_UVALUE
  | HW_SEM_SET_VALUE "(u32 \<times> u32) option"
  | HW_SEM_GET_VALUE "(u32 \<times> u32) option"
  | GET_IPC_PARAMS
  | GET_RAT_MODE
  | RESET_STRUCTURES
  | HET_UNKNOWN

datatype het_out =
  Out_sys_map sys_map | Out_range mem_range | Out_word u32 | Out_words u32 u32 | Out_none

text \<open>
  \<open>page\<close> is the page lookup, \<open>copy_ok\<close> whether \<open>copy_to_user\<close> succeeds, \<open>junk\<close> the local variable the
  RAT mode is read from when the kernel is built for one region.
\<close>

definition het_copy :: "bool \<Rightarrow> het_out \<Rightarrow> int \<times> het_out" where
  "het_copy ok x = (if ok then (0, x) else (- EFAULT, Out_none))"

definition hugev2p :: "(u32 \<Rightarrow> u64 option) \<Rightarrow> mem_range \<Rightarrow> mem_range" where
  "hugev2p page r = (case page (range_vaddr r) of Some p \<Rightarrow> r\<lparr>phys_addr := p\<rparr> | None \<Rightarrow> r)"

definition het_mgr_ioctl ::
  "bool \<Rightarrow> het_params \<Rightarrow> (u32 \<Rightarrow> u64 option) \<Rightarrow> bool \<Rightarrow> u32 \<Rightarrow> bool \<times> bool \<times> bool \<Rightarrow> het_cmd \<Rightarrow> het_state \<Rightarrow> ((int \<times> het_out) \<times> het_state) ipc" where
  "het_mgr_ioctl multi par page copy_ok junk maps cmd st =
     (case cmd of
        GET_SYS_MAP \<Rightarrow> Inr (het_copy copy_ok (Out_sys_map (h_sys_map st)), st)
      | V2P (Some r) \<Rightarrow> Inr (het_copy copy_ok (Out_range (hugev2p page r)), st)
      | SET_SHMID (Some v) \<Rightarrow> Inr ((0, Out_none), st\<lparr>h_shmid := v\<rparr>)
      | GET_SHMID \<Rightarrow> Inr (het_copy copy_ok (Out_word (h_shmid st)), st)
      | SET_SHARED_AREA (Some (pa, dsp)) \<Rightarrow>
          (case h_ctrl st of
             None \<Rightarrow> Inl Null_pointer
           | Some c \<Rightarrow>
               Inr ((0, Out_none),
                 st\<lparr>h_ctrl := Some (c\<lparr>hc_pa_shared_mem := \<lparr>mem_start = strt_phys pa, mem_size = ucast (strt_size pa)\<rparr>,
                                      hc_sc_shared_mem := \<lparr>mem_start = strt_phys dsp, mem_size = ucast (strt_size dsp)\<rparr>\<rparr>)\<rparr>))
      | SET_INITIALIZED \<Rightarrow>
          (case h_ctrl st of
             None \<Rightarrow> Inl Null_pointer
           | Some c \<Rightarrow>
               Inr ((0, Out_none),
                 st\<lparr>h_ctrl := Some (c\<lparr>hc_pa_initialized := (if multi then 0xEDCBA987 else 0xFEDCBA98), hc_sc_initialized := 0\<rparr>)\<rparr>))
      | HW_SEM_GET_UVALUE \<Rightarrow> Inr (het_copy copy_ok (Out_words 0xFF 0xFE), st)
      | HW_SEM_SET_VALUE (Some (n, v)) \<Rightarrow>
          if n > 7 then Inr ((0, Out_none), st)
          else if unat n \<ge> length (h_sems st) then Inl Array_bounds
          else Inr ((0, Out_none), st\<lparr>h_sems := (h_sems st)[unat n := v]\<rparr>)
      | HW_SEM_GET_VALUE (Some (n, v)) \<Rightarrow>
          if unat n \<ge> length (h_sems st) then Inl Array_bounds
          else Inr (het_copy copy_ok (Out_words n (h_sems st ! unat n)), st)
      | GET_IPC_PARAMS \<Rightarrow>
          Inr (het_copy copy_ok (Out_word (push_bit 16 (ucast (par_depth par)) OR ucast (par_channels par))), st)
      | GET_RAT_MODE \<Rightarrow>
          if multi then (case h_ctrl st of
                           None \<Rightarrow> Inl Null_pointer
                         | Some c \<Rightarrow> Inr (het_copy copy_ok (Out_word (hc_num_ipc_regions c)), st))
          else Inr (het_copy copy_ok (Out_word junk), st)
      | RESET_STRUCTURES \<Rightarrow>
          (case fsl_reinit_sh_ctrl_area multi maps st of
             Inl e \<Rightarrow> Inl e
           | Inr (ret, st') \<Rightarrow> Inr ((ret, Out_none), st'))
      | HET_UNKNOWN \<Rightarrow> Inr ((- 25, Out_none), st)
      | _ \<Rightarrow> Inr ((- EFAULT, Out_none), st))"

text \<open>Loading the module; \<open>sem_map\<close> is the mapping of the semaphore registers.\<close>

definition het_mgr_init :: "bool \<Rightarrow> bool \<Rightarrow> het_params \<Rightarrow> int \<Rightarrow> int \<Rightarrow> bool \<times> bool \<times> bool \<Rightarrow> bool \<Rightarrow> het_state \<Rightarrow> int \<times> het_state" where
  "het_mgr_init multi known par region_rc cdev_rc maps sem_map st =
     (if region_rc < 0 then (region_rc, st)
      else if cdev_rc \<noteq> 0 then (cdev_rc, st)
      else
        (case init_sh_ctrl_area multi maps (st\<lparr>h_sys_map := get_het_sys_map known par\<rparr>) of
           (ret, st1) \<Rightarrow> if ret \<noteq> 0 then (ret, st1) else (if sem_map then 0 else - 1, st1)))"

section \<open>Channels in the control area\<close>

text \<open>
  The boot arguments as numbers (\<open>None\<close> when missing or not a number); a depth is not limited from
  above. The counts are \<open>int\<close>s.
\<close>

definition ipc_num_channels :: "int option \<Rightarrow> int" where
  "ipc_num_channels arg = (let n = (case arg of None \<Rightarrow> - 22 | Some v \<Rightarrow> v) in if n < 0 \<or> n > 64 then 64 else n)"

definition ipc_channel_depth :: "int option \<Rightarrow> int" where
  "ipc_channel_depth arg = (let n = (case arg of None \<Rightarrow> - 22 | Some v \<Rightarrow> v) in if n < 0 then 16 else n)"

definition kernel_channel :: "u64 \<Rightarrow> u64 \<Rightarrow> nat \<Rightarrow> os_het_ipc_channel" where
  "kernel_channel rings step i = zero_channel\<lparr>ipc_ind := OS_HET_NO_INT, ch_id := of_nat i, bd_base := rings + of_nat i * step\<rparr>"

text \<open>One IPC structure and its channels: the address of the structure, its contents, the address of the channel array.\<close>

record ipc_region =
  ir_addr :: u64
  ir_ipc :: os_het_ipc
  ir_base :: u64
  ir_chans :: "os_het_ipc_channel list"

definition kernel_region :: "u64 \<Rightarrow> u64 \<Rightarrow> nat \<Rightarrow> nat \<Rightarrow> ipc_region" where
  "kernel_region addr base n d =
     \<lparr>ir_addr = addr,
      ir_ipc = \<lparr>ipc_start_validation = 0, num_ipc_channels = of_nat n, ipc_max_bd_size = of_nat d, ipc_channels = base,
                ipc_end_validation = 0\<rparr>,
      ir_base = base,
      ir_chans = map (kernel_channel (base + 88 * of_nat n) (16 * of_nat d)) [0..<n]\<rparr>"

definition kernel_channel_zero :: "nat \<Rightarrow> ipc_region \<Rightarrow> ipc_region" where
  "kernel_channel_zero d r =
     r\<lparr>ir_chans := (ir_chans r)[0 := (ir_chans r ! 0)\<lparr>consumer_initialized := OS_HET_INITIALIZED, ch_id := 0,
                                     bd_ring_size := of_nat d, ch_type := IPC_PTR_CH\<rparr>]\<rparr>"

text \<open>The size is computed in 64 bits and kept in 32.\<close>

definition region_size :: "nat \<Rightarrow> nat \<Rightarrow> u32" where
  "region_size n d = of_nat (88 * n + 16 * n * d)"

fun regions_loop :: "nat \<Rightarrow> nat \<Rightarrow> nat \<Rightarrow> nat \<Rightarrow> het_state \<Rightarrow> (ipc_region list \<times> het_state) ipc" where
  "regions_loop 0 j n d h = Inr ([], h)"
| "regions_loop (Suc k) j n d h =
     (case get_hetmgr_ipc_addr (of_nat j) h of
        Inl e \<Rightarrow> Inl e
      | Inr addr \<Rightarrow>
          (case get_hetmgr_mem (region_size n d) h of
             Inl e \<Rightarrow> Inl e
           | Inr (base, h1) \<Rightarrow>
               (case regions_loop k (Suc j) n d h1 of
                  Inl e \<Rightarrow> Inl e
                | Inr (rs, h2) \<Rightarrow> Inr (kernel_region addr base n d # rs, h2))))"

text \<open>
  With one region the interrupts are registered before channel 0 is opened; with several they are not
  registered at all, and the driver keeps the channels of the last one. No channel at all is written
  past the end of the array.
\<close>

definition fsl_913xipc_init ::
  "bool \<Rightarrow> int option \<Rightarrow> int option \<Rightarrow> het_state \<Rightarrow> kipc_state \<Rightarrow> (int \<times> ipc_region list \<times> het_state \<times> kipc_state) ipc" where
  "fsl_913xipc_init multi a b h k =
     (let n = nat (ipc_num_channels a); d = nat (ipc_channel_depth b) in
      case regions_loop (unat (ipc_regions multi)) 0 n d h of
        Inl e \<Rightarrow> Inl e
      | Inr (rs, h') \<Rightarrow>
          if multi then
            (if n = 0 then Inl Array_bounds
             else (let rs' = map (kernel_channel_zero d) rs in Inr (0, rs', h', k\<lparr>kchans := ir_chans (last rs')\<rparr>)))
          else
            (case register_msg_intr (k\<lparr>kchans := ir_chans (last rs)\<rparr>) of
               (ret, k') \<Rightarrow>
                 if ret \<noteq> 0 then Inr (ret, rs, h', k')
                 else if n = 0 then Inl Array_bounds
                 else (let rs' = map (kernel_channel_zero d) rs in Inr (0, rs', h', k'\<lparr>kchans := ir_chans (last rs')\<rparr>))))"

text \<open>Loading the IPC module; the results of the channel set-up and of adding the device are not looked at.\<close>

definition ipc_driver_init ::
  "bool \<Rightarrow> int \<Rightarrow> msg_node list \<Rightarrow> int option \<Rightarrow> int option \<Rightarrow> het_state \<Rightarrow> kipc_state \<Rightarrow> (int \<times> ipc_region list \<times> het_state \<times> kipc_state) ipc" where
  "ipc_driver_init multi region_rc dev_nodes a b h k =
     (if region_rc < 0 then Inr (region_rc, [], h, k)
      else
        (case fsl_913xipc_init multi a b h
                (k\<lparr>uirq := map (\<lambda>u. u\<lparr>uq_used := False\<rparr>) (uirq k), fsl_msgs := fsl_init_msg dev_nodes (fsl_msgs k)\<rparr>) of
           Inl e \<Rightarrow> Inl e
         | Inr (_, rs, h', k') \<Rightarrow> Inr (0, rs, h', k')))"

section \<open>The division of the area\<close>

text \<open>Areas one behind the other.\<close>

fun layout :: "nat \<Rightarrow> nat list \<Rightarrow> area list" where
  "layout b [] = []"
| "layout b (s # ss) = (b, s) # layout (b + s) ss"

lemma layout_bounds: "x \<in> set (layout b ss) \<Longrightarrow> b \<le> fst x \<and> fst x + snd x \<le> b + sum_list ss"
  by (induction b ss rule: layout.induct) force+

lemma layout_apart: "sorted_wrt areas_apart (layout b ss)"
  by (induction b ss rule: layout.induct) (auto simp: areas_apart_def dest: layout_bounds)

lemma layout_append: "layout b (ss @ ts) = layout b ss @ layout (b + sum_list ss) ts"
  by (induction b ss rule: layout.induct) (simp_all add: add.assoc)

lemma layout_replicate: "layout b (replicate n s) = map (\<lambda>i. (b + i * s, s)) [0..<n]"
proof (induction n arbitrary: b)
  case (Suc n)
  have "map (\<lambda>i. (b + i * s, s)) [0..<Suc n] = (b, s) # map (\<lambda>i. (b + s + i * s, s)) [0..<n]"
    by (simp add: map_upt_Suc algebra_simps del: upt_Suc)
  then show ?case using Suc.IH [of "b + s"] by simp
qed simp

text \<open>The structures of a control area with one region, in the order of their addresses.\<close>

definition ctrl_areas :: "het_state \<Rightarrow> het_control \<Rightarrow> ipc_region \<Rightarrow> nat \<Rightarrow> area list" where
  "ctrl_areas h c r d =
     [(unat (ctrl_base h), 704), (unat (ir_addr r), 32), (unat (hc_smartdsp_debug c), 240), (unat (hc_l1d c), 40),
      (unat (ir_base r), 88 * length (ir_chans r))] @ map (\<lambda>ch. (unat (bd_base ch), 16 * d)) (ir_chans r)"

definition ctrl_total :: "nat \<Rightarrow> nat \<Rightarrow> nat" where
  "ctrl_total n d = 1016 + 88 * n + 16 * n * d"

lemma init_area_state:
  assumes "init_sh_ctrl_area False maps h0 = (0, h)"
  shows "\<exists>c. h_ctrl h = Some c \<and> ctrl_base h = ctrl_base h0 \<and> hc_ipc c = ctrl_base h + 704 \<and> hc_smartdsp_debug c = ctrl_base h + 736 \<and>
    hc_l1d c = ctrl_base h + 976 \<and> h_mark h = ctrl_base h + 1016 \<and> h_sys_map h = h_sys_map h0"
  using assms by (auto simp: init_sh_ctrl_area_def ctrl_base_def ipc_regions_def Let_def split: prod.splits if_splits)

lemma one_region:
  assumes "fsl_913xipc_init False a b h k = Inr (0, rs, h', k')" "n = nat (ipc_num_channels a)" "d = nat (ipc_channel_depth b)"
    "h_ctrl h = Some c"
  shows "rs = [kernel_channel_zero d (kernel_region (hc_ipc c) (h_mark h) n d)]" "h_mark h' = h_mark h + ucast (region_size n d)" "n \<noteq> 0"
  using assms by (auto simp: fsl_913xipc_init_def ipc_regions_def get_hetmgr_ipc_addr_def get_hetmgr_mem_def Let_def
      split: prod.splits sum.splits if_splits)

lemma channel_zero_rings:
  "n \<noteq> 0 \<Longrightarrow> map bd_base (ir_chans (kernel_channel_zero d (kernel_region x base n d))) =
     map (\<lambda>i. base + 88 * of_nat n + of_nat i * (16 * of_nat d)) [0..<n]"
  by (rule nth_equalityI) (auto simp: kernel_channel_zero_def kernel_region_def kernel_channel_def nth_list_update)

lemma unat_offset: "unat (b :: 'a::len word) + k < 2 ^ LENGTH('a) \<Longrightarrow> unat (b + of_nat k) = unat b + k"
  by (simp add: unat_plus_if' unat_of_nat take_bit_nat_eq_self)

end
