(* ===== verification/Control_Layout.thy ===== *)
theory Control_Layout
  imports Het_Manager IPC_Layout
begin

text \<open>
  Where the structures of the shared control area lie: the kernel's manager and its IPC driver divide the
  area without overlaps, and the user-space library that starts the DSP (\<open>fsl_B4_ipc_init\<close>) assigns the
  descriptor rings anew, from a different starting point.
\<close>

section \<open>The kernel's layout\<close>

lemma kernel_areas:
  assumes "init_sh_ctrl_area False maps h0 = (0, h)" "h_ctrl h = Some c"
    "fsl_913xipc_init False a b h k = Inr (0, [r], h', k')" "n = nat (ipc_num_channels a)" "d = nat (ipc_channel_depth b)"
    "unat (ctrl_base h) + ctrl_total n d < 2 ^ 64"
  shows "ctrl_areas h c r d = layout (unat (ctrl_base h)) ([704, 32, 240, 40, 88 * n] @ replicate n (16 * d))"
proof -
  let ?B = "ctrl_base h"
  note S = init_area_state [OF assms(1)]
  have c: "hc_ipc c = ?B + 704" "hc_smartdsp_debug c = ?B + 736" "hc_l1d c = ?B + 976" "h_mark h = ?B + 1016"
    using S assms(2) by auto
  note R = one_region [OF assms(3-5,2)]
  have r: "r = kernel_channel_zero d (kernel_region (?B + 704) (?B + 1016) n d)" using R(1) c by simp
  have f: "ir_addr r = ?B + 704" "ir_base r = ?B + 1016" "length (ir_chans r) = n"
    by (simp_all add: r kernel_channel_zero_def kernel_region_def)
  have u: "unat (?B + of_nat m) = unat ?B + m" if "m \<le> ctrl_total n d" for m
    using that assms(6) by (intro unat_offset) simp
  have u4: "unat (?B + 704) = unat ?B + 704" "unat (?B + 736) = unat ?B + 736" "unat (?B + 976) = unat ?B + 976"
    "unat (?B + 1016) = unat ?B + 1016"
    using u [of 704] u [of 736] u [of 976] u [of 1016] by (simp_all add: ctrl_total_def)
  have ring: "unat (?B + 1016 + 88 * of_nat n + of_nat i * (16 * of_nat d)) = unat ?B + (1016 + 88 * n) + i * (16 * d)" if "i < n" for i
  proof -
    have "16 * i * d \<le> 16 * n * d" using that by simp
    then have "1016 + 88 * n + i * (16 * d) \<le> ctrl_total n d" by (simp add: ctrl_total_def algebra_simps)
    from u [OF this] show ?thesis by (simp add: algebra_simps)
  qed
  have "map bd_base (ir_chans r) = map (\<lambda>i. ?B + 1016 + 88 * of_nat n + of_nat i * (16 * of_nat d)) [0..<n]"
    unfolding r by (rule channel_zero_rings [OF R(3)])
  then have "map (\<lambda>ch. (unat (bd_base ch), 16 * d)) (ir_chans r) =
      map ((\<lambda>x. (unat x, 16 * d)) \<circ> (\<lambda>i. ?B + 1016 + 88 * of_nat n + of_nat i * (16 * of_nat d))) [0..<n]"
    by (metis (no_types, lifting) comp_apply map_eq_conv map_map)
  also have "\<dots> = layout (unat ?B + (1016 + 88 * n)) (replicate n (16 * d))"
    unfolding layout_replicate by (rule map_cong [OF refl]) (use ring in auto)
  finally show ?thesis
    by (simp add: ctrl_areas_def c f u4 layout_append add.assoc)
qed

text \<open>The default configuration: 64 channels of depth 16 in the megabyte below 4 GB.\<close>

definition het_sample_par :: het_params where
  "het_sample_par = \<lparr>par_dsp_shared_size = 0x1000000, par_dsp_private_addr = 0x80000000, par_dsp_private_size = 0x7FF00000,
     par_shared_ctrl_addr = 0xFFF00000, par_shared_ctrl_size = 0x100000, par_channels = 64, par_depth = 16\<rparr>"

definition het_sample_start :: het_state where
  "het_sample_start = \<lparr>h_sys_map = get_het_sys_map True het_sample_par, h_ctrl = None, h_logs = [], h_l1d = None, h_mark = 0,
     h_shmid = 0, h_sems = replicate 32 0\<rparr>"

definition het_sample :: het_state where
  "het_sample = snd (het_mgr_init False True het_sample_par 0 0 (True, True, True) True het_sample_start)"

definition kernel_start :: kipc_state where
  "kernel_start = \<lparr>fsl_msgs = [new_group [40, 41, 42, 43]],
     uirq = replicate 4 \<lparr>uq_used = False, uq_ch_id = 0, uq_unit = None, uq_pid = 0, uq_signo = 0\<rparr>,
     msg_ready_mask = 0, kchans = [], signals = []\<rparr>"

lemma kernel_start_registers: "fst (register_msg_intr (kernel_start\<lparr>kchans := cs\<rparr>)) = 0"
proof -
  have "takeWhile requested (messages (new_group [40, 41, 42, 43])) = []" by (simp add: new_group_def upt_rec)
  show ?thesis
    by (simp add: register_msg_intr_def kernel_start_def new_group_def numeral_eq_Suc upt_rec fsl_get_msg_unit_def
        put_unit_def unit_at_def fsl_enable_msg_def Let_def)
qed

lemma het_sample_loads:
  "het_mgr_init False True het_sample_par 0 0 (True, True, True) True het_sample_start = (0, het_sample)"
  "h_ctrl het_sample = Some (the (h_ctrl het_sample))" "hc_ipc (the (h_ctrl het_sample)) = 0xFFF002C0"
  "ctrl_base het_sample = 0xFFF00000"
proof -
  show "het_mgr_init False True het_sample_par 0 0 (True, True, True) True het_sample_start = (0, het_sample)"
    by (simp add: het_sample_def het_mgr_init_def init_sh_ctrl_area_def Let_def)
qed (code_simp+)

lemma kernel_sample_loads:
  obtains r h' k' where "fsl_913xipc_init False None None het_sample kernel_start = Inr (0, [r], h', k')"
proof -
  have r: "\<exists>k'. register_msg_intr (kernel_start\<lparr>kchans := cs\<rparr>) = (0, k')" for cs
    using kernel_start_registers [of cs] by (metis prod.collapse)
  obtain rs h' where l: "regions_loop 1 0 64 16 het_sample = Inr (rs, h')" "length rs = 1"
    using het_sample_loads(2) by (cases "h_ctrl het_sample") (auto simp: get_hetmgr_ipc_addr_def get_hetmgr_mem_def Let_def)
  then obtain x where x: "rs = [x]" by (auto simp: length_Suc_conv)
  obtain k' where k': "register_msg_intr (kernel_start\<lparr>kchans := ir_chans x\<rparr>) = (0, k')" using r by blast
  have "fsl_913xipc_init False None None het_sample kernel_start =
      Inr (0, [kernel_channel_zero 16 x], h', k'\<lparr>kchans := ir_chans (kernel_channel_zero 16 x)\<rparr>)"
    using l x k' by (simp add: fsl_913xipc_init_def ipc_num_channels_def ipc_channel_depth_def ipc_regions_def Let_def)
  then show thesis by (rule that)
qed

text \<open>C18: The kernel divides the control area without overlaps: after the manager and the IPC driver are loaded,
  the control structure, the IPC structure, the DSP logs, the L1 defense structure, the channel array and
  the descriptor ring of every channel follow one another, and they end inside the area exactly when it
  has room for the channels and the depth asked for. Nothing checks that it has: the driver reports
  success in either case.\<close>

theorem kernel_layout_disjoint:
  assumes "het_mgr_init False known par rc1 rc2 maps sm h0 = (0, h)" "h_ctrl h = Some c"
    "fsl_913xipc_init False a b h k = Inr (0, [r], h', k')" "n = nat (ipc_num_channels a)" "d = nat (ipc_channel_depth b)"
    "unat (ctrl_base h) + ctrl_total n d < 2 ^ 64" "0 < d" "asz = unat (strt_size (m_sh_ctrl_area (h_sys_map h)))"
  shows "sorted_wrt areas_apart (ctrl_areas h c r d) \<and> length (ir_chans r) = n \<and>
    ((\<forall>x \<in> set (ctrl_areas h c r d). unat (ctrl_base h) \<le> fst x \<and> fst x + snd x \<le> unat (ctrl_base h) + asz) \<longleftrightarrow>
     ctrl_total n d \<le> asz)"
proof -
  obtain h1 where i: "init_sh_ctrl_area False maps h1 = (0, h)"
    using assms(1) by (auto simp: het_mgr_init_def split: if_splits prod.splits)
  let ?ss = "[704, 32, 240, 40, 88 * n] @ replicate n (16 * d)" and ?b = "unat (ctrl_base h)"
  note A = kernel_areas [OF i assms(2-6)]
  have n0: "n \<noteq> 0" and l: "length (ir_chans r) = n"
    using one_region [OF assms(3-5,2)] by (simp_all add: kernel_channel_zero_def kernel_region_def)
  have t: "sum_list ?ss = ctrl_total n d" by (simp add: ctrl_total_def sum_list_replicate)
  have last: "(?b + (1016 + 88 * n) + (n - 1) * (16 * d), 16 * d) \<in> set (layout ?b ?ss)"
    using n0 by (auto simp: layout_append layout_replicate add.assoc)
  have e: "(1016 + 88 * n) + (n - 1) * (16 * d) + 16 * d = ctrl_total n d"
    using n0 by (cases n) (simp_all add: ctrl_total_def algebra_simps)
  show ?thesis unfolding A
  proof (intro conjI iffI ballI)
    show "sorted_wrt areas_apart (layout ?b ?ss)" by (rule layout_apart)
    show "length (ir_chans r) = n" by (rule l)
  next
    assume "\<forall>x \<in> set (layout ?b ?ss). ?b \<le> fst x \<and> fst x + snd x \<le> ?b + asz"
    from bspec [OF this last] show "ctrl_total n d \<le> asz" using e by simp
  next
    fix x assume s: "ctrl_total n d \<le> asz" and x: "x \<in> set (layout ?b ?ss)"
    from layout_bounds [OF x] show "?b \<le> fst x" "fst x + snd x \<le> ?b + asz" using s t by simp_all
  qed
qed

theorem kernel_layout_disjoint_witness:
  "\<exists>r. sorted_wrt areas_apart (ctrl_areas het_sample (the (h_ctrl het_sample)) r 16) \<and> length (ir_chans r) = 64"
proof (rule kernel_sample_loads)
  fix r h' k' assume "fsl_913xipc_init False None None het_sample kernel_start = Inr (0, [r], h', k')"
  from kernel_layout_disjoint [OF het_sample_loads(1,2) this refl refl _ _ refl] show ?thesis
    using het_sample_loads(4) by (auto simp: ipc_num_channels_def ipc_channel_depth_def ctrl_total_def)
qed

section \<open>The library's rings\<close>

text \<open>C19: The library that starts the DSP places the descriptor rings over the channel array the kernel has laid
  out: it takes the channels to start right behind the IPC structure, where the kernel has put the DSP logs
  and the L1 defense structure. With a depth of 13 or more (the default is 16) the ring of channel 0 shares
  memory with the control structure of the last channel.\<close>

theorem rings_overlap_channels:
  assumes "het_mgr_init False known par rc1 rc2 maps sm h0 = (0, h)" "h_ctrl h = Some c"
    "fsl_913xipc_init False a b h k = Inr (0, [r], h', k')" "n = nat (ipc_num_channels a)" "d = nat (ipc_channel_depth b)"
    "unat (ctrl_base h) + ctrl_total n d < 2 ^ 32" "13 \<le> d"
    "ctrl_ipc (ctrl st) = hc_ipc c" "unat (b4_num_channels env) = n" "unat (b4_channel_depth env) = d"
    "b4_rat_regions env \<noteq> 2" "fsl_B4_ipc_init env st = (0, st1)"
    "chv = IPC_CH_VADDR (ipc_channels (het_ipcs st (IPC_CH_VADDR (ctrl_ipc (ctrl st)) st))) st"
  shows "\<not> areas_apart (unat (bd_base (chans st1 chv)), 16 * d) (unat (ir_base r) + 88 * (n - 1), 88)"
proof -
  let ?B = "ctrl_base h"
  obtain h1 where i: "init_sh_ctrl_area False maps h1 = (0, h)"
    using assms(1) by (auto simp: het_mgr_init_def split: if_splits prod.splits)
  have c: "hc_ipc c = ?B + 704" "h_mark h = ?B + 1016" using init_area_state [OF i] assms(2) by auto
  note R = one_region [OF assms(3-5,2)]
  have rb: "ir_base r = ?B + 1016" using R(1) c by (simp add: kernel_channel_zero_def kernel_region_def)
  have n0: "0 < n" using R(3) by simp
  have u: "unat (?B + of_nat m) = unat ?B + m" if "m \<le> ctrl_total n d" for m
    using that assms(6) by (intro unat_offset) simp
  have u1: "unat (?B + 704) = unat ?B + 704" "unat (ir_base r) = unat ?B + 1016"
    using u [of 704] u [of 1016] rb by (simp_all add: ctrl_total_def)
  have "bd_base (chans st1 (chv + 88 * of_nat 0)) = ucast (b4_ring_base env st 0)"
    unfolding assms(13) by (rule b4_init_bd_base [OF assms(12,11)]) (use n0 assms(9) in simp)
  then have e: "bd_base (chans st1 chv) = ucast (b4_ring_base env st 0)" by simp
  have lo: "unat (ucast (?B + 704) :: u32) = unat ?B + 704"
    using u1(1) assms(6) by (simp add: unsigned_ucast_eq take_bit_nat_eq_self ctrl_total_def)
  have w: "(88 * ucast (b4_num_channels env) :: u32) = of_nat (88 * n)" by (simp flip: assms(9))
  have "b4_ring_base env st 0 = ucast (?B + 704) + of_nat (32 + 88 * n)"
    using c(1) assms(8) w by (simp add: b4_ring_base_def)
  then have "unat (b4_ring_base env st 0) = unat ?B + 736 + 88 * n"
    using lo assms(6) unat_offset [of "ucast (?B + 704) :: u32" "32 + 88 * n"] by (simp add: ctrl_total_def)
  then have "unat (bd_base (chans st1 chv)) = unat ?B + 736 + 88 * n"
    using e by (simp add: unat_ucast_up)
  then show ?thesis using u1(2) n0 assms(7) by (cases n) (simp_all add: areas_apart_def)
qed

definition overlap_sample :: ipc_state where
  "overlap_sample = layout_sample\<lparr>ctrl := \<lparr>pa_initialized = 0, sc_initialized = 0, ctrl_ipc = 0xFFF002C0\<rparr>\<rparr>"

theorem rings_overlap_channels_witness:
  "\<exists>(r :: ipc_region) v. \<not> areas_apart (unat (bd_base (chans (snd (fsl_B4_ipc_init b4_sample_env overlap_sample)) v)), 256)
     (unat (ir_base r) + 5544, 88)"
proof (rule kernel_sample_loads)
  fix r h' k' assume k: "fsl_913xipc_init False None None het_sample kernel_start = Inr (0, [r], h', k')"
  have c: "ctrl_ipc (ctrl overlap_sample) = hc_ipc (the (h_ctrl het_sample))"
    by (simp add: het_sample_loads(3)) (simp add: overlap_sample_def)
  have s: "b4_rat_regions b4_sample_env \<noteq> 2" by (simp add: b4_sample_env_def)
  have i: "fsl_B4_ipc_init b4_sample_env overlap_sample = (0, snd (fsl_B4_ipc_init b4_sample_env overlap_sample))"
    by (simp add: fsl_B4_ipc_init_def b4_sample_env_def Let_def)
  have p: "unat (b4_num_channels b4_sample_env) = nat (ipc_num_channels None)" "unat (b4_channel_depth b4_sample_env) = nat (ipc_channel_depth None)"
    by (simp_all add: b4_sample_params ipc_num_channels_def ipc_channel_depth_def)
  from rings_overlap_channels [OF het_sample_loads(1,2) k refl refl _ _ c p s i refl]
  obtain v where "\<not> areas_apart
      (unat (bd_base (chans (snd (fsl_B4_ipc_init b4_sample_env overlap_sample)) v)), 16 * nat (ipc_channel_depth None))
      (unat (ir_base r) + 88 * (nat (ipc_num_channels None) - 1), 88)"
    using het_sample_loads(4) by (simp add: ipc_num_channels_def ipc_channel_depth_def ctrl_total_def)
  then show ?thesis by (intro exI [of _ r] exI [of _ v]) (simp add: ipc_num_channels_def ipc_channel_depth_def)
qed

end
