(* ===== verification/Boot_Machine.thy ===== *)
theory Boot_Machine
  imports Control_Layout
begin

text \<open>
  The machine the boot loader of the DSP (\<open>dsp_boot/libdspboot.c\<close>) runs on: the registers of the chip and the
  memory, reached through mappings of \<open>/dev/mem\<close>, and programs over them. A program returns, faults, or never
  ends; the last is possible because the loader polls registers without a limit.

  The hardware is the argument \<open>hw_dev\<close>: how the registers change between two accesses of the program, which may depend on
  the number of accesses so far and so describes any behaviour of the other cores.
\<close>

section \<open>State\<close>

datatype boot_dev = Dev_het_mgr | Dev_mem | Dev_l1d

text \<open>What the loader does to the machine: register writes of its own, and what it takes from an image file.\<close>

datatype boot_access =
    Wrote u64 u32
  | Image_reg u64 u32
  | Image_bytes u64 "u8 list"

text \<open>\<open>dsp_bt_t\<close>; the map table up to \<open>map_id\<close>, the control area by its physical address.\<close>

record dsp_bt =
  bt_het_mgr :: int
  bt_dev_mem :: int
  bt_fsl_l1d :: int
  map_d :: "(u64 \<times> u32) list"
  het_sys_map :: sys_map
  bt_sh_ctrl :: "(u64 \<times> u64) option"
  intvec_addr :: u64
  bt_core_id :: u32
  semaphore_num :: u32
  bt_trg_id :: u32

record boot =
  bt :: dsp_bt
  regs :: "u64 \<Rightarrow> u32"
  clock :: nat
  dram :: "u64 \<Rightarrow> u8"
  accesses :: "boot_access list"
  open_fds :: "int set"
  DCFG_BRR_mask :: u32
  GIC_VIGR_VALUE :: u32
  need_clear :: bool
  pa_init_done :: bool
  kern :: het_state
  seg_lib :: shm_lib
  seg_drv :: shm_drv
  ipcs :: ipc_state

text \<open>
  What the loader does not decide: the hardware, the files, the results of the system calls. \<open>seg_word\<close> are the words
  of the attached segment by virtual address, \<open>seg_fd\<close> the descriptor of \<open>/dev/fsl_shm\<close> when that device can be opened.
\<close>

record boot_env =
  hw_dev :: "nat \<Rightarrow> (u64 \<Rightarrow> u32) \<Rightarrow> u64 \<Rightarrow> u32"
  dev_fd :: "boot_dev \<Rightarrow> int"
  mmap_ok :: "boot_dev \<Rightarrow> u64 \<Rightarrow> u32 \<Rightarrow> bool"
  image_file :: "string \<Rightarrow> u8 list option"
  model_file :: "u8 list option"
  ioctl_copy :: bool
  kern_par :: het_params
  kern_multi :: bool
  kern_maps :: "bool \<times> bool \<times> bool"
  kern_junk :: u32
  seg_cc :: bool
  seg_env :: shm_env
  seg_sys :: shm_sys
  seg_fd :: int
  seg_word :: "vaddr \<Rightarrow> u32 option"

section \<open>Programs\<close>

datatype 'a run = Returns 'a | Faults | Hangs

type_synonym 'a prog = "boot \<Rightarrow> ('a \<times> boot) run"

definition ret :: "'a \<Rightarrow> 'a prog" where
  "ret x = (\<lambda>s. Returns (x, s))"

definition bnd :: "'a prog \<Rightarrow> ('a \<Rightarrow> 'b prog) \<Rightarrow> 'b prog" where
  "bnd m f = (\<lambda>s. case m s of Returns (x, t) \<Rightarrow> f x t | Faults \<Rightarrow> Faults | Hangs \<Rightarrow> Hangs)"

definition thn :: "'a prog \<Rightarrow> 'b prog \<Rightarrow> 'b prog" where
  "thn m k = bnd m (\<lambda>_. k)"

definition upd :: "(boot \<Rightarrow> boot) \<Rightarrow> unit prog" where
  "upd f = (\<lambda>s. Returns ((), f s))"

definition asks :: "(boot \<Rightarrow> 'a) \<Rightarrow> 'a prog" where
  "asks f = (\<lambda>s. Returns (f s, s))"

text \<open>\<open>if (f() < 0) return -1;\<close> and \<open>if (f()) return -1;\<close>\<close>

definition neg_fails :: "int prog \<Rightarrow> int prog \<Rightarrow> int prog" where
  "neg_fails m k = bnd m (\<lambda>r. if r < 0 then ret (- 1) else k)"

definition nz_fails :: "int prog \<Rightarrow> int prog \<Rightarrow> int prog" where
  "nz_fails m k = bnd m (\<lambda>r. if r \<noteq> 0 then ret (- 1) else k)"

section \<open>Mappings and registers\<close>

definition settle :: "boot_env \<Rightarrow> boot \<Rightarrow> boot" where
  "settle env s = s\<lparr>clock := Suc (clock s), regs := hw_dev env (clock s) (regs s)\<rparr>"

record io_map =
  mp_phys :: u64
  mp_room :: nat
  mp_ok :: bool

abbreviation (input) "PAGE_MASK \<equiv> (0xFFFFFFFFFFFFF000 :: u64)"

definition crem :: "u32 \<Rightarrow> u32" where
  "crem v = word_of_int (if sint v < 0 then - (- sint v mod 0x1000) else sint v mod 0x1000)"

definition map_len :: "u64 \<Rightarrow> u64 \<Rightarrow> u32" where
  "map_len phys sz =
     (let size = ucast sz :: u32;
          size1 = (if phys + scast size > (phys AND PAGE_MASK) + 0x1000 then (size + 0x1000) AND 0xFFFFF000 else size)
      in size1 + (0x1000 - crem size1))"

definition in_map :: "(u64 \<times> u32) list \<Rightarrow> u64 \<Rightarrow> bool" where
  "in_map ms phys = list_ex (\<lambda>(p, n). p \<le> phys \<and> phys < p + ucast n) ms"

text \<open>
  \<open>None\<close> is the null pointer. A failed \<open>mmap\<close> is not one: it returns the address -1, to which the offset in the
  page is added.
\<close>

definition map_area :: "boot_dev \<Rightarrow> boot_env \<Rightarrow> u64 \<Rightarrow> u64 \<Rightarrow> boot \<Rightarrow> io_map option" where
  "map_area d env phys sz s =
     (let np = phys AND PAGE_MASK; diff = phys - np; len = map_len phys sz; ok = mmap_ok env d np len in
      if \<not> in_map (map_d (bt s)) phys \<or> \<not> ok \<and> diff = 1 then None
      else Some \<lparr>mp_phys = phys, mp_room = unat len - unat diff, mp_ok = ok\<rparr>)"

definition map_area64 :: "boot_env \<Rightarrow> u64 \<Rightarrow> u64 \<Rightarrow> boot \<Rightarrow> io_map option" where
  "map_area64 = map_area Dev_mem"

definition map_area64_cache :: "boot_env \<Rightarrow> u64 \<Rightarrow> u64 \<Rightarrow> boot \<Rightarrow> io_map option" where
  "map_area64_cache = map_area Dev_l1d"

text \<open>A mapping made without the table; \<open>mmap\<close> failing is not noticed.\<close>

definition direct_map :: "boot_env \<Rightarrow> u64 \<Rightarrow> u32 \<Rightarrow> io_map" where
  "direct_map env phys len = \<lparr>mp_phys = phys, mp_room = unat len, mp_ok = mmap_ok env Dev_mem phys len\<rparr>"

definition reachable :: "io_map \<Rightarrow> nat \<Rightarrow> nat \<Rightarrow> bool" where
  "reachable m off n \<longleftrightarrow> mp_ok m \<and> off + n \<le> mp_room m"

definition with_map :: "io_map option \<Rightarrow> (io_map \<Rightarrow> int prog) \<Rightarrow> int prog" where
  "with_map p k = (case p of None \<Rightarrow> ret (- 1) | Some m \<Rightarrow> k m)"

text \<open>Words at a byte offset in a mapping.\<close>

definition rd32 :: "boot_env \<Rightarrow> io_map \<Rightarrow> nat \<Rightarrow> u32 prog" where
  "rd32 env m off =
     (\<lambda>s. if reachable m off 4 then let t = settle env s in Returns (regs t (mp_phys m + of_nat off), t) else Faults)"

definition put_reg :: "boot_env \<Rightarrow> u64 \<Rightarrow> u32 \<Rightarrow> (u64 \<Rightarrow> u32 \<Rightarrow> boot_access) \<Rightarrow> boot \<Rightarrow> boot" where
  "put_reg env a v ev s = settle env (s\<lparr>regs := (regs s)(a := v), accesses := accesses s @ [ev a v]\<rparr>)"

definition wr32 :: "boot_env \<Rightarrow> io_map \<Rightarrow> nat \<Rightarrow> u32 \<Rightarrow> unit prog" where
  "wr32 env m off v =
     (\<lambda>s. if reachable m off 4 then Returns ((), put_reg env (mp_phys m + of_nat off) v Wrote s) else Faults)"

definition or32 :: "boot_env \<Rightarrow> io_map \<Rightarrow> nat \<Rightarrow> u32 \<Rightarrow> unit prog" where
  "or32 env m off v = bnd (rd32 env m off) (\<lambda>x. wr32 env m off (x OR v))"

definition and32 :: "boot_env \<Rightarrow> io_map \<Rightarrow> nat \<Rightarrow> u32 \<Rightarrow> unit prog" where
  "and32 env m off v = bnd (rd32 env m off) (\<lambda>x. wr32 env m off (x AND v))"

text \<open>Reading a register again and again until it satisfies a condition.\<close>

partial_function (option) poll_loop :: "boot_env \<Rightarrow> u64 \<Rightarrow> (u32 \<Rightarrow> bool) \<Rightarrow> boot \<Rightarrow> (u32 \<times> boot) option" where
  "poll_loop env a ok s =
     (let t = settle env s in if ok (regs t a) then Some (regs t a, t) else poll_loop env a ok t)"

declare poll_loop.simps [code]

definition poll :: "boot_env \<Rightarrow> io_map \<Rightarrow> nat \<Rightarrow> (u32 \<Rightarrow> bool) \<Rightarrow> u32 prog" where
  "poll env m off P =
     (\<lambda>s. if reachable m off 4
          then (case poll_loop env (mp_phys m + of_nat off) P s of Some r \<Rightarrow> Returns r | None \<Rightarrow> Hangs)
          else Faults)"

text \<open>At most \<open>n\<close> further readings; the last value read.\<close>

fun poll_max :: "boot_env \<Rightarrow> io_map \<Rightarrow> nat \<Rightarrow> (u32 \<Rightarrow> bool) \<Rightarrow> nat \<Rightarrow> u32 prog" where
  "poll_max env m off P 0 = rd32 env m off"
| "poll_max env m off P (Suc n) = bnd (rd32 env m off) (\<lambda>x. if P x then ret x else poll_max env m off P n)"

section \<open>Laws\<close>

named_theorems run_simps

lemma ret_run [run_simps]: "ret x s = Returns (x, s)"
  by (simp add: ret_def)

lemma bnd_run [run_simps]:
  "bnd m f s = Returns y \<longleftrightarrow> (\<exists>x t. m s = Returns (x, t) \<and> f x t = Returns y)"
  by (auto simp: bnd_def split: run.splits)

lemma thn_run [run_simps]: "thn m k s = Returns y \<longleftrightarrow> (\<exists>x t. m s = Returns (x, t) \<and> k t = Returns y)"
  by (simp add: thn_def bnd_run)

lemma neg_fails_run [run_simps]:
  "neg_fails m k s = Returns y \<longleftrightarrow> (\<exists>r t. m s = Returns (r, t) \<and> (if r < 0 then y = (- 1, t) else k t = Returns y))"
  by (auto simp: neg_fails_def bnd_run ret_run)

lemma nz_fails_run [run_simps]:
  "nz_fails m k s = Returns y \<longleftrightarrow> (\<exists>r t. m s = Returns (r, t) \<and> (if r \<noteq> 0 then y = (- 1, t) else k t = Returns y))"
  by (auto simp: nz_fails_def bnd_run ret_run)

text \<open>A view of the state that a program leaves as it is.\<close>

definition keeps :: "(boot \<Rightarrow> 'v) \<Rightarrow> 'a prog \<Rightarrow> bool" where
  "keeps f m \<longleftrightarrow> (\<forall>s x t. m s = Returns (x, t) \<longrightarrow> f t = f s)"

named_theorems keeps_rules

lemma keepsD: "keeps f m \<Longrightarrow> m s = Returns (x, t) \<Longrightarrow> f t = f s"
  by (simp add: keeps_def)

lemma keeps_basic [keeps_rules]:
  "keeps f (ret x)" "keeps f (asks g)" "(\<And>s. f (h s) = f s) \<Longrightarrow> keeps f (upd h)"
  by (simp_all add: keeps_def ret_def asks_def upd_def)

lemma keeps_bnd [keeps_rules]: "keeps f m \<Longrightarrow> (\<And>x. keeps f (k x)) \<Longrightarrow> keeps f (bnd m k)"
  by (fastforce simp: keeps_def bnd_run)

lemma keeps_thn [keeps_rules]: "keeps f m \<Longrightarrow> keeps f k \<Longrightarrow> keeps f (thn m k)"
  by (simp add: thn_def keeps_bnd)

lemma keeps_fails [keeps_rules]:
  "keeps f m \<Longrightarrow> keeps f k \<Longrightarrow> keeps f (neg_fails m k)" "keeps f m \<Longrightarrow> keeps f k \<Longrightarrow> keeps f (nz_fails m k)"
  by (auto simp: neg_fails_def nz_fails_def intro!: keeps_rules)

lemma keeps_if [keeps_rules]: "(b \<Longrightarrow> keeps f m) \<Longrightarrow> (\<not> b \<Longrightarrow> keeps f k) \<Longrightarrow> keeps f (if b then m else k)"
  by simp

lemma keeps_map [keeps_rules]: "(\<And>m. keeps f (k m)) \<Longrightarrow> keeps f (with_map p k)"
  by (simp add: with_map_def keeps_basic split: option.splits)

text \<open>Views the hardware and the accesses do not touch.\<close>

definition off_bus :: "(boot \<Rightarrow> 'v) \<Rightarrow> bool" where
  "off_bus f \<longleftrightarrow> (\<forall>s c r a. f (s\<lparr>clock := c, regs := r\<rparr>) = f s \<and> f (s\<lparr>accesses := a\<rparr>) = f s)"

lemma off_bus_settle: "off_bus f \<Longrightarrow> f (settle env s) = f s"
  by (simp add: off_bus_def settle_def)

lemma off_bus_put: "off_bus f \<Longrightarrow> f (put_reg env a v ev s) = f s"
proof -
  assume o: "off_bus f"
  have "f (s\<lparr>regs := r, accesses := x\<rparr>) = f s" for r x
  proof -
    have "s\<lparr>regs := r, accesses := x\<rparr> = (s\<lparr>clock := clock s, regs := r\<rparr>)\<lparr>accesses := x\<rparr>" by simp
    then show ?thesis using o unfolding off_bus_def by metis
  qed
  then show ?thesis by (simp add: put_reg_def off_bus_settle [OF o])
qed

text \<open>A poll ends at a moment when the hardware has let the condition become true, and it ends if there is one.\<close>

lemma poll_loop_ends:
  assumes "poll_loop env a P s = Some r"
  shows "\<exists>n. r = (regs ((settle env ^^ Suc n) s) a, (settle env ^^ Suc n) s) \<and> P (fst r)"
proof (rule poll_loop.raw_induct [OF _ assms,
      where P = "\<lambda>env a P s r. \<exists>n. r = (regs ((settle env ^^ Suc n) s) a, (settle env ^^ Suc n) s) \<and> P (fst r)"])
  fix rec :: "boot_env \<Rightarrow> u64 \<Rightarrow> (u32 \<Rightarrow> bool) \<Rightarrow> boot \<Rightarrow> (u32 \<times> boot) option" and env a P s r
  assume ih: "\<And>env a P s r. rec env a P s = Some r \<Longrightarrow>
      \<exists>n. r = (regs ((settle env ^^ Suc n) s) a, (settle env ^^ Suc n) s) \<and> P (fst r)"
    and eq: "(let t = settle env s in if P (regs t a) then Some (regs t a, t) else rec env a P t) = Some r"
  show "\<exists>n. r = (regs ((settle env ^^ Suc n) s) a, (settle env ^^ Suc n) s) \<and> P (fst r)"
  proof (cases "P (regs (settle env s) a)")
    case True
    then show ?thesis using eq by (intro exI [of _ 0]) (auto simp: Let_def)
  next
    case False
    then obtain n where "r = (regs ((settle env ^^ Suc n) (settle env s)) a, (settle env ^^ Suc n) (settle env s)) \<and> P (fst r)"
      using eq ih [of env a P "settle env s" r] by (auto simp: Let_def)
    then show ?thesis by (intro exI [of _ "Suc n"]) (metis funpow_Suc_right o_apply)
  qed
qed

lemma poll_hangs: "(\<And>n. \<not> P (regs ((settle env ^^ Suc n) s) a)) \<Longrightarrow> poll_loop env a P s = None"
  using poll_loop_ends [of env a P s] by (cases "poll_loop env a P s") fastforce+

lemma poll_returns: "P (regs ((settle env ^^ Suc n) s) a) \<Longrightarrow> poll_loop env a P s \<noteq> None"
proof (induction n arbitrary: s)
  case (Suc n)
  from Suc.prems have "poll_loop env a P (settle env s) \<noteq> None" by (intro Suc.IH) (simp only: funpow_Suc_right o_apply)
  then show ?case by (subst poll_loop.simps) (simp add: Let_def)
qed (subst poll_loop.simps, simp add: Let_def)

lemma settle_iter: "off_bus f \<Longrightarrow> f ((settle env ^^ n) s) = f s" "accesses ((settle env ^^ n) s) = accesses s"
proof -
  show "off_bus f \<Longrightarrow> f ((settle env ^^ n) s) = f s" by (induction n) (simp_all add: off_bus_settle)
  show "accesses ((settle env ^^ n) s) = accesses s" by (induction n) (simp_all add: settle_def)
qed

lemma poll_loop_keeps:
  assumes "poll_loop env a P s = Some (x, t)"
  shows "P x" "off_bus f \<Longrightarrow> f t = f s" "accesses t = accesses s" "x = regs t a"
  using poll_loop_ends [OF assms] settle_iter by (auto simp del: funpow.simps)

lemma keeps_bus [keeps_rules]:
  assumes "off_bus f"
  shows "keeps f (rd32 env m off)" "keeps f (wr32 env m off v)" "keeps f (or32 env m off v)" "keeps f (and32 env m off v)"
    "keeps f (poll env m off P)" "keeps f (poll_max env m off P n)"
proof -
  show r: "keeps f (rd32 env m off)" for off by (auto simp: keeps_def rd32_def Let_def off_bus_settle [OF assms])
  show w: "keeps f (wr32 env m off v)" for off v by (auto simp: keeps_def wr32_def off_bus_put [OF assms])
  show "keeps f (or32 env m off v)" "keeps f (and32 env m off v)" unfolding or32_def and32_def by (intro keeps_bnd r w)+
  show "keeps f (poll env m off P)"
    using poll_loop_keeps(2) [OF _ assms] by (auto simp: keeps_def poll_def split: if_splits option.splits)
  show "keeps f (poll_max env m off P n)"
    by (induction n) (auto intro!: keeps_bnd r keeps_basic)
qed

end
