(* ===== verification/DSP_Image.thy ===== *)
theory DSP_Image
  imports Boot_Machine
begin

text \<open>
  The image loader of the DSP boot library (\<open>load_dsp_image\<close> and \<open>copy_file_part\<close> of \<open>dsp_boot/libdspboot.c\<close>): a file of
  sections, each an address, a size and that many bytes, is copied to the memory of the DSP; a section can
  instead set a register of the chip or the address of the interrupt vectors.
\<close>

section \<open>Words in the file\<close>

definition be64 :: "u64 \<Rightarrow> u8 list" where
  "be64 w = be32 (ucast (drop_bit 32 w)) @ be32 (ucast w)"

definition of_bytes32 :: "u8 list \<Rightarrow> u32" where
  "of_bytes32 bs = of_be32 (bs ! 0) (bs ! 1) (bs ! 2) (bs ! 3)"

definition of_bytes64 :: "u8 list \<Rightarrow> u64" where
  "of_bytes64 bs = push_bit 32 (ucast (of_bytes32 bs)) OR ucast (of_bytes32 (drop 4 bs))"

text \<open>A read that is frag short leaves the rest of the variable as it was.\<close>

definition overlay64 :: "u64 \<Rightarrow> u8 list \<Rightarrow> u64" where
  "overlay64 old bs = of_bytes64 (bs @ drop (length bs) (be64 old))"

definition overlay32 :: "u32 \<Rightarrow> u8 list \<Rightarrow> u32" where
  "overlay32 old bs = of_bytes32 (bs @ drop (length bs) (be32 old))"

lemma length_be64 [simp]: "length (be64 w) = 8"
  by (simp add: be64_def)

lemma of_bytes32_be32 [simp]: "of_bytes32 (be32 w @ bs) = w"
  by (simp add: of_bytes32_def be32_def)

lemma of_bytes64_be64 [simp]: "of_bytes64 (be64 w @ bs) = w"
proof -
  have "push_bit 32 (ucast (ucast (drop_bit 32 w) :: u32)) OR ucast (ucast w :: u32) = w"
    by (rule bit_word_eqI) (auto simp: bit_simps)
  then show ?thesis using of_bytes32_be32 [of "ucast (drop_bit 32 w)" "be32 (ucast w) @ bs"]
    by (simp add: of_bytes64_def be64_def)
qed

section \<open>The loader\<close>

definition put_bytes :: "u64 \<Rightarrow> u8 list \<Rightarrow> (u64 \<Rightarrow> u8) \<Rightarrow> u64 \<Rightarrow> u8" where
  "put_bytes a bs m = (\<lambda>x. if unat (x - a) < length bs then bs ! unat (x - a) else m x)"

definition store_bytes :: "u64 \<Rightarrow> u8 list \<Rightarrow> boot \<Rightarrow> boot" where
  "store_bytes a bs s = s\<lparr>dram := put_bytes a bs (dram s), accesses := accesses s @ [Image_bytes a bs]\<rparr>"

text \<open>
  The bytes are copied one at a time until the file ends. The length is 32 bits wide here, 64 in the file.
\<close>

definition copy_file_part :: "io_map \<Rightarrow> u32 \<Rightarrow> u8 list \<Rightarrow> int prog" where
  "copy_file_part m sz bs =
     (\<lambda>s. let part = take (unat sz) bs in
           if part \<noteq> [] \<and> \<not> reachable m 0 (length part) then Faults
           else Returns (if length bs < unat sz then - 1 else 0, store_bytes (mp_phys m) part s))"

definition is_ccsr :: "boot \<Rightarrow> u64 \<Rightarrow> bool" where
  "is_ccsr s addr \<longleftrightarrow> addr AND strt_phys (m_pa_ccsrbar (het_sys_map (bt s))) = strt_phys (m_pa_ccsrbar (het_sys_map (bt s)))"

text \<open>
  The result is the one of the last read, which is zero, success, when the file ends anywhere in a section's header,
  in the vector address or in a register value. A register value of more than four bytes is read over
  the end of a four byte variable.
\<close>

function image_loop :: "boot_env \<Rightarrow> u8 list \<Rightarrow> u32 \<Rightarrow> int prog" where
  "image_loop env bs rv s =
     (if length bs < 16 then Returns (0, s)
      else
        (let addr = of_bytes64 bs; sz = of_bytes64 (drop 8 bs); rest = drop 16 bs in
         if sz = 0 then image_loop env rest rv s
         else if addr = 0xFFFFFFFFFFFFFFFF \<and> sz = 8 then
           (let s' = s\<lparr>bt := (bt s)\<lparr>intvec_addr := overlay64 (intvec_addr (bt s)) (take 8 rest)\<rparr>\<rparr> in
            if length rest < 8 then Returns (0, s') else image_loop env (drop 8 rest) rv s')
         else if is_ccsr s addr then
           (case map_area64 env addr sz s of
              None \<Rightarrow> Returns (- 1, s)
            | Some m \<Rightarrow>
                if length (take (unat sz) rest) > 4 then Faults
                else if length rest < unat sz then Returns (0, s)
                else if \<not> reachable m 0 4 then Faults
                else (let v = overlay32 rv (take (unat sz) rest)
                      in image_loop env (drop (unat sz) rest) v (put_reg env (mp_phys m) v Image_reg s)))
         else
           (case map_area64_cache env addr sz s of
              None \<Rightarrow> Returns (- 1, s)
            | Some m \<Rightarrow>
                (case copy_file_part m (ucast sz) rest s of
                   Returns (r, s') \<Rightarrow>
                     if r \<noteq> 0 then Returns (r, s') else image_loop env (drop (unat (ucast sz :: u32)) rest) rv s'
                 | Faults \<Rightarrow> Faults
                 | Hangs \<Rightarrow> Hangs))))"
  by pat_completeness auto
termination
  by (relation "measure (\<lambda>(env, bs, rv, s). length bs)") auto

declare image_loop.simps [simp del]

definition load_dsp_image :: "boot_env \<Rightarrow> string \<Rightarrow> int prog" where
  "load_dsp_image env fname =
     (case image_file env fname of
        None \<Rightarrow> ret (- 1)
      | Some bs \<Rightarrow> if bs = [] then ret 0 else image_loop env (drop 1 bs) 0)"

text \<open>Whatever is in the file, the loader does nothing but these three things.\<close>

inductive image_step_rel :: "boot_env \<Rightarrow> boot \<Rightarrow> boot \<Rightarrow> bool" for env where
  vector: "image_step_rel env s (s\<lparr>bt := (bt s)\<lparr>intvec_addr := w\<rparr>\<rparr>)"
| register: "image_step_rel env s (put_reg env a v Image_reg s)"
| copies: "image_step_rel env s (store_bytes a ds s)"

lemma image_loop_steps: "image_loop env bs rv s = Returns (x, t) \<Longrightarrow> (image_step_rel env)\<^sup>*\<^sup>* s t"
proof (induction env bs rv s rule: image_loop.induct)
  case (1 env bs rv s)
  let ?a = "of_bytes64 bs" and ?z = "of_bytes64 (drop 8 bs)" and ?r = "drop 16 bs"
  note eq = "1.prems" [unfolded image_loop.simps [of env bs]]
  show ?case
  proof (cases "length bs < 16 \<or> ?z = 0")
    case True
    then show ?thesis using eq "1.IH"(1) by (auto simp: Let_def split: if_splits)
  next
    case go: False
    show ?thesis
    proof (cases "?a = 0xFFFFFFFFFFFFFFFF \<and> ?z = 8")
      case True
      let ?u = "s\<lparr>bt := (bt s)\<lparr>intvec_addr := overlay64 (intvec_addr (bt s)) (take 8 ?r)\<rparr>\<rparr>"
      have "t = ?u \<or> (image_step_rel env)\<^sup>*\<^sup>* ?u t" using eq go True "1.IH"(2) by (auto simp: Let_def split: if_splits)
      moreover have "image_step_rel env s ?u" by (rule image_step_rel.vector)
      ultimately show ?thesis by (auto intro: converse_rtranclp_into_rtranclp)
    next
      case nv: False
      show ?thesis
      proof (cases "is_ccsr s ?a")
        case True
        then show ?thesis
        proof (cases "map_area64 env ?a ?z s")
          case (Some m)
          let ?v = "overlay32 rv (take (unat ?z) ?r)"
          have "t = s \<or> (image_step_rel env)\<^sup>*\<^sup>* (put_reg env (mp_phys m) ?v Image_reg s) t"
            using eq go nv True Some "1.IH"(3) by (auto simp: Let_def split: if_splits)
          then show ?thesis by (auto intro: converse_rtranclp_into_rtranclp image_step_rel.register)
        qed (use eq go nv True in \<open>auto simp: Let_def\<close>)
      next
        case nc: False
        then show ?thesis
        proof (cases "map_area64_cache env ?a ?z s")
          case (Some m)
          let ?u = "store_bytes (mp_phys m) (take (unat (ucast ?z :: u32)) ?r) s"
          have "copy_file_part m (ucast ?z) ?r s = Faults \<or> (\<exists>y. copy_file_part m (ucast ?z) ?r s = Returns (y, ?u))"
            by (simp add: copy_file_part_def Let_def)
          then have "t = ?u \<or> (image_step_rel env)\<^sup>*\<^sup>* ?u t"
            using eq go nv nc Some "1.IH"(4) by (auto simp: Let_def split: if_splits)
          then show ?thesis by (auto intro: converse_rtranclp_into_rtranclp image_step_rel.copies)
        qed (use eq go nv nc in \<open>auto simp: Let_def\<close>)
      qed
    qed
  qed
qed

lemma load_steps: "load_dsp_image env fname s = Returns (x, t) \<Longrightarrow> (image_step_rel env)\<^sup>*\<^sup>* s t"
  using image_loop_steps by (auto simp: load_dsp_image_def ret_def split: option.splits if_splits)

section \<open>Well-formed images\<close>

datatype image_section =
    Data u64 "u8 list"
  | Reg u64 u32
  | Vector u64
  | Nothing u64

fun section_bytes :: "image_section \<Rightarrow> u8 list" where
  "section_bytes (Data a bs) = be64 a @ be64 (of_nat (length bs)) @ bs"
| "section_bytes (Reg a v) = be64 a @ be64 4 @ be32 v"
| "section_bytes (Vector a) = be64 0xFFFFFFFFFFFFFFFF @ be64 8 @ be64 a"
| "section_bytes (Nothing a) = be64 a @ be64 0"

definition image_bytes :: "u8 \<Rightarrow> image_section list \<Rightarrow> u8 list" where
  "image_bytes endian secs = endian # concat (map section_bytes secs)"

text \<open>What a section means.\<close>

fun apply_section :: "boot_env \<Rightarrow> image_section \<Rightarrow> boot \<Rightarrow> boot" where
  "apply_section env (Data a bs) s = store_bytes a bs s"
| "apply_section env (Reg a v) s = put_reg env a v Image_reg s"
| "apply_section env (Vector a) s = s\<lparr>bt := (bt s)\<lparr>intvec_addr := a\<rparr>\<rparr>"
| "apply_section env (Nothing a) s = s"

text \<open>What a section must satisfy: its start is in an area of the table, and the kernel can map it.\<close>

fun section_ok :: "boot_env \<Rightarrow> boot \<Rightarrow> image_section \<Rightarrow> bool" where
  "section_ok env s (Data a bs) \<longleftrightarrow>
     bs \<noteq> [] \<and> length bs \<le> 0x7FFFD000 \<and> unat a + length bs + 0x1000 < 2 ^ 64 \<and> \<not> is_ccsr s a \<and>
     \<not> (a = 0xFFFFFFFFFFFFFFFF \<and> length bs = 8) \<and> in_map (map_d (bt s)) a \<and>
     mmap_ok env Dev_l1d (a AND PAGE_MASK) (map_len a (of_nat (length bs)))"
| "section_ok env s (Reg a v) \<longleftrightarrow>
     is_ccsr s a \<and> unat a + 0x1004 < 2 ^ 64 \<and> in_map (map_d (bt s)) a \<and> mmap_ok env Dev_mem (a AND PAGE_MASK) (map_len a 4)"
| "section_ok env s (Vector a) \<longleftrightarrow> True"
| "section_ok env s (Nothing a) \<longleftrightarrow> True"

section \<open>Mapped lengths\<close>

lemma page_mask: "PAGE_MASK = NOT (2 ^ 12 - 1)" "(0xFFFFF000 :: u32) = NOT (2 ^ 12 - 1)"
  by simp_all

lemma page_offset:
  fixes a :: u64
  shows "unat (a AND PAGE_MASK) = unat a - unat a mod 0x1000" "unat (a - (a AND PAGE_MASK)) = unat a mod 0x1000"
proof -
  have d: "unat (a AND PAGE_MASK) = unat a div 2 ^ 12 * 2 ^ 12" unfolding page_mask by (rule unat_align_down) simp
  then show "unat (a AND PAGE_MASK) = unat a - unat a mod 0x1000" by (simp add: minus_mod_eq_div_mult)
  have "(a AND PAGE_MASK) \<le> a" using d by (simp add: word_le_nat_alt)
  then show "unat (a - (a AND PAGE_MASK)) = unat a mod 0x1000" using d by (simp add: unat_sub minus_div_mult_eq_mod)
qed

lemma crem_small: "unat v < 2 ^ 31 \<Longrightarrow> crem v = of_nat (unat v mod 0x1000)"
proof -
  assume "unat v < 2 ^ 31"
  then have "crem v = word_of_int (int (unat v) mod 0x1000)" by (simp only: crem_def sint_small) simp
  also have "\<dots> = word_of_int (int (unat v mod 0x1000))" by (simp only: zmod_int of_nat_numeral)
  finally show ?thesis by (simp only: of_int_of_nat_eq)
qed

text \<open>
  A mapping covers what it is made for, whatever the offset in the page, and at most two pages more.
\<close>

lemma map_len_covers:
  assumes "n \<le> 0x7FFFD000" "unat a + n + 0x1000 < 2 ^ 64"
  shows "n + unat a mod 0x1000 \<le> unat (map_len a (of_nat n))" "unat (map_len a (of_nat n)) \<le> n + 0x2000"
proof -
  let ?d = "unat a mod 0x1000" and ?v = "of_nat n :: u32"
  have v: "unat ?v = n" using assms(1) by (simp add: unat_of_nat)
  have v64: "unat (of_nat n :: u64) = n" using assms(1) by (simp add: unat_of_nat)
  have u: "ucast (of_nat n :: u64) = ?v" "ucast ?v = (of_nat n :: u64)"
    using assms(1) by (simp_all add: word_unat_eq_iff unsigned_ucast_eq v64 v take_bit_nat_eq_self)
  have s: "scast ?v = (of_nat n :: u64)"
    using v assms(1) u(2) by (simp add: scast_small)
  have "unat (a + of_nat n) = unat a + n" by (rule unat_offset) (use assms(2) in simp)
  moreover have "unat ((a AND PAGE_MASK) + of_nat 0x1000) = unat (a AND PAGE_MASK) + 0x1000"
    by (rule unat_offset) (use assms(2) page_offset(1) [of a] in simp)
  moreover have modle: "?d \<le> unat a" by (rule mod_less_eq_dividend)
  ultimately have c: "a + of_nat n > (a AND PAGE_MASK) + 0x1000 \<longleftrightarrow> ?d + n > 0x1000"
    using page_offset(1) [of a] modle by (simp add: word_less_nat_alt) linarith
  define z :: u32 where "z = (if ?d + n > 0x1000 then (?v + 0x1000) AND 0xFFFFF000 else ?v)"
  have l: "map_len a (of_nat n) = z + (0x1000 - crem z)" by (simp add: map_len_def Let_def z_def u(1) s c)
  have z: "unat z = (if ?d + n > 0x1000 then (n + 0x1000) div 0x1000 * 0x1000 else n)"
  proof -
    have "unat (?v + of_nat 0x1000) = n + 0x1000" using unat_offset [where b = ?v and k = "0x1000"] v assms(1) by simp
    then show ?thesis using v unat_align_down [of 12 "?v + 0x1000"] by (simp add: z_def page_mask(2))
  qed
  have zb: "unat z \<le> n + 0x1000" unfolding z by simp
  then have r: "crem z = of_nat (unat z mod 0x1000)" using assms(1) by (intro crem_small) simp
  have "0x1000 - crem z = of_nat (0x1000 - unat z mod 0x1000)" unfolding r by (simp add: of_nat_diff)
  then have len: "unat (map_len a (of_nat n)) = unat z + (0x1000 - unat z mod 0x1000)"
    unfolding l using unat_offset [where b = z and k = "0x1000 - unat z mod 0x1000"] zb assms(1) by simp
  show "n + ?d \<le> unat (map_len a (of_nat n))"
  proof (cases "?d + n > 0x1000")
    case True
    have "n < (n + 0x1000) div 0x1000 * 0x1000" using div_mult_mod_eq [of "n + 0x1000" "0x1000"] mod_less_divisor [of "0x1000" "n + 0x1000"] by linarith
    then show ?thesis using True mod_less_divisor [of "0x1000" "unat a"] unfolding len z by simp
  next
    case False
    have "n mod 0x1000 \<le> n" by (rule mod_less_eq_dividend)
    then show ?thesis using False unfolding len z by simp
  qed
  show "unat (map_len a (of_nat n)) \<le> n + 0x2000" unfolding len using zb by simp
qed

section \<open>Loading a well-formed image\<close>

lemma bt_stable [simp]:
  "bt (settle env s) = bt s" "bt (put_reg env a v ev s) = bt s" "bt (store_bytes a bs s) = bt s"
  by (simp_all add: settle_def put_reg_def store_bytes_def)

lemma apply_section_table: "map_d (bt (apply_section env x s)) = map_d (bt s)" "het_sys_map (bt (apply_section env x s)) = het_sys_map (bt s)"
  by (cases x; simp)+

lemma section_ok_stable: "section_ok env (apply_section env x s) y = section_ok env s y"
  by (cases y) (simp_all add: apply_section_table is_ccsr_def)

lemma area_covers:
  assumes "n \<le> 0x7FFFD000" "unat a + n + 0x1000 < 2 ^ 64" "in_map (map_d (bt s)) a"
    "mmap_ok env d (a AND PAGE_MASK) (map_len a (of_nat n))"
  shows "\<exists>m. map_area d env a (of_nat n) s = Some m \<and> mp_phys m = a \<and> reachable m 0 n"
  using assms(3,4) map_len_covers(1) [OF assms(1,2)] by (simp add: map_area_def Let_def reachable_def page_offset(2))

lemma image_step:
  assumes "section_ok env s x"
  shows "\<exists>rv'. image_loop env (section_bytes x @ bs) rv s = image_loop env bs rv' (apply_section env x s)"
proof (cases x)
  case (Data a ds)
  then have n: "length ds \<le> 0x7FFFD000" "ds \<noteq> []" and ok: "section_ok env s (Data a ds)" using assms by auto
  have z: "unat (of_nat (length ds) :: u64) = length ds" "unat (ucast (of_nat (length ds) :: u64) :: u32) = length ds"
    using n by (simp_all add: unat_of_nat unsigned_ucast_eq take_bit_nat_eq_self)
  have nz: "(of_nat (length ds) :: u64) \<noteq> 0" "(of_nat (length ds) :: u64) = 8 \<longleftrightarrow> length ds = 8"
    using z(1) n(2) by (auto simp: word_unat_eq_iff)
  obtain m where m: "map_area Dev_l1d env a (of_nat (length ds)) s = Some m" "mp_phys m = a" "reachable m 0 (length ds)"
    using area_covers [of "length ds" a s env Dev_l1d] ok by auto
  then show ?thesis
    using ok by (subst image_loop.simps)
      (auto simp: Data Let_def nz z map_area64_cache_def copy_file_part_def)
next
  case (Reg a v)
  then have ok: "section_ok env s (Reg a v)" using assms by simp
  obtain m where m: "map_area Dev_mem env a (of_nat 4) s = Some m" "mp_phys m = a" "reachable m 0 4"
    using area_covers [of 4 a s env Dev_mem] ok by auto
  then have "overlay32 rv (be32 v) = v" by (simp add: overlay32_def) (metis append_Nil2 of_bytes32_be32)
  then show ?thesis
    using ok m by (subst image_loop.simps) (auto simp: Reg Let_def map_area64_def)
next
  case (Vector a)
  have "overlay64 w (be64 a) = a" for w by (simp add: overlay64_def) (metis append_Nil2 of_bytes64_be64)
  then show ?thesis by (subst image_loop.simps) (auto simp: Vector Let_def)
next
  case (Nothing a)
  then show ?thesis by (subst image_loop.simps) (auto simp: Let_def)
qed

lemma image_run:
  assumes "\<forall>x \<in> set secs. section_ok env s x" "length frag < 16"
  shows "image_loop env (concat (map section_bytes secs) @ frag) rv s = Returns (0, fold (apply_section env) secs s)"
  using assms
proof (induction secs arbitrary: rv s)
  case Nil
  then show ?case by (subst image_loop.simps) simp
next
  case (Cons x secs)
  obtain rv' where "image_loop env (section_bytes x @ (concat (map section_bytes secs) @ frag)) rv s =
      image_loop env (concat (map section_bytes secs) @ frag) rv' (apply_section env x s)"
    using image_step [of env s x] Cons.prems by fastforce
  then show ?case using Cons by (simp add: section_ok_stable)
qed

lemma load_image_run:
  assumes "image_file env fname = Some bs" "\<forall>x \<in> set secs. section_ok env s x" "length frag < 16"
    "bs = [] \<and> secs = [] \<or> bs = image_bytes endian secs @ frag"
  shows "load_dsp_image env fname s = Returns (0, fold (apply_section env) secs s)"
  using image_run [of secs env s frag 0] assms by (auto simp: load_dsp_image_def image_bytes_def ret_def)

text \<open>C26: Loading is the inverse of the image format: a file made of any list of sections, each in an area of the memory map,
  is loaded completely, in the order of the file and with result 0: the bytes of every data section are
  at their address, every register section is written, the vector address is taken over.\<close>

theorem image_round_trip:
  assumes "image_file env fname = Some (image_bytes endian secs)" "\<forall>x \<in> set secs. section_ok env s x"
  shows "load_dsp_image env fname s = Returns (0, fold (apply_section env) secs s)"
  by (rule load_image_run [OF assms(1,2), of "[]" endian]) simp_all

text \<open>A file that ends inside the header of a section is loaded like the same file without the rest, and an empty file like an
  empty image: the result is success in both cases.\<close>

lemma truncated_image_accepted:
  assumes "image_file env fname = Some bs" "\<forall>x \<in> set secs. section_ok env s x" "length frag < 16"
    "bs = [] \<and> secs = [] \<or> bs = image_bytes endian secs @ frag"
  shows "load_dsp_image env fname s = Returns (0, fold (apply_section env) secs s)"
  by (rule load_image_run [OF assms])

text \<open>The memory and the vector address after a list of sections.\<close>

fun put_section :: "image_section \<Rightarrow> (u64 \<Rightarrow> u8) \<times> u64 \<Rightarrow> (u64 \<Rightarrow> u8) \<times> u64" where
  "put_section (Data a bs) (m, v) = (put_bytes a bs m, v)"
| "put_section (Vector w) (m, v) = (m, w)"
| "put_section _ (m, v) = (m, v)"

lemma apply_sections_memory:
  "(dram (fold (apply_section env) secs s), intvec_addr (bt (fold (apply_section env) secs s))) =
     fold put_section secs (dram s, intvec_addr (bt s))"
proof (induction secs arbitrary: s)
  case (Cons x secs)
  have "(dram (apply_section env x s), intvec_addr (bt (apply_section env x s))) = put_section x (dram s, intvec_addr (bt s))"
    by (cases x) (simp_all add: store_bytes_def put_reg_def settle_def)
  then show ?case using Cons by simp
qed simp

lemma apply_sections_table:
  "map_d (bt (fold (apply_section env) secs s)) = map_d (bt s) \<and>
   het_sys_map (bt (fold (apply_section env) secs s)) = het_sys_map (bt s)"
  by (induction secs arbitrary: s) (simp_all add: apply_section_table)

lemma section_ok_cong: "map_d (bt s) = map_d (bt t) \<Longrightarrow> het_sys_map (bt s) = het_sys_map (bt t) \<Longrightarrow> section_ok env s x = section_ok env t x"
  by (cases x) (simp_all add: is_ccsr_def)

end
