(* ===== verification/DSP_Boot.thy ===== *)
theory DSP_Boot
  imports DSP_Image
begin

text \<open>
  The start and restart of the DSP cores (\<open>dsp_boot/libdspboot.c\<close>, the part for the B4860): the steps that hold,
  reset, invalidate and release the cores by registers of the chip, and their sequence at the first start
  (\<open>b4860_load_dsp_image\<close>) and at a warm reset (\<open>fsl_start_L1_defense\<close>). Registers are given by their byte offset in
  the area they belong to. Reads that are only printed are left out.
\<close>

section \<open>Descriptions of the cores\<close>

text \<open>\<open>reload_dsp_core_info\<close>, \<open>dsp_core_info\<close> and \<open>dspbt_core_info\<close>.\<close>

record reload_core =
  reset_core_flag :: u32
  rl_core_id :: u32
  dsp_filename :: string
  wpt_begin_addr :: u32
  wpt_end_addr :: u32
  wpt_type :: char
  dsp_safe_addr :: u32

record core_info =
  hw_sem_num :: u32
  reset_mode :: u32
  maple_reset_mode :: u32
  debug_print :: u32
  cfg_wpt :: u32
  shDspCoreInfo :: "reload_core list"
  reDspCoreInfo :: "reload_core list"

record bt_core =
  ci_core_id :: int
  ci_trg_id :: u32
  ci_image :: string

abbreviation (input) "MODE_2_ACTIVE \<equiv> (2 :: u32)"
abbreviation (input) "MODE_3_ACTIVE \<equiv> (4 :: u32)"
abbreviation (input) "MEMORY_CORRUPTED \<equiv> (0x0037FFBF :: int)"
abbreviation (input) "READY_FOR_RESET \<equiv> (0x1037FFBE :: u32)"
abbreviation (input) "BEGIN_OS_INIT \<equiv> (0x1037FFBD :: u32)"
abbreviation (input) "BEGIN_APP_INIT \<equiv> (0x1037FFBC :: u32)"
abbreviation (input) "WARM_RESET_SUCCESS \<equiv> (0x1037FFBB :: u32)"
abbreviation (input) "ERR_L1_DEFENSE_API_FAIL \<equiv> (30 :: int)"

abbreviation (input) "DCFG_BRR \<equiv> (0xE00E4 :: nat)"
abbreviation (input) "PCPH15SR \<equiv> (0xE20B0 :: nat)"
abbreviation (input) "PCPH15SETR \<equiv> (0xE20B4 :: nat)"
abbreviation (input) "PCPH15CLRR \<equiv> (0xE20B8 :: nat)"
abbreviation (input) "PIR \<equiv> (0x41090 :: nat)"
abbreviation (input) "DCFG_CRSTSR \<equiv> (0xE0410 :: nat)"
abbreviation (input) "L2_CACHE_2 \<equiv> (0xC60000 :: nat)"
abbreviation (input) "OFF_L2_CACHE \<equiv> (0x40000 :: nat)"
abbreviation (input) "L2FI \<equiv> (0x200000 :: u32)"
abbreviation (input) "L2LFC \<equiv> (0x400 :: u32)"
abbreviation (input) "L2E \<equiv> (0x80000000 :: u32)"
abbreviation (input) "L2PE \<equiv> (0x40000000 :: u32)"
abbreviation (input) "DCSR_BASE \<equiv> (0xF00000000 :: u64)"

text \<open>One bit per flagged core, shifted by \<open>sh\<close>; all six cores.\<close>

definition core_mask :: "reload_core list \<Rightarrow> nat \<Rightarrow> u32" where
  "core_mask cs sh = foldl (\<lambda>m i. m OR push_bit (i + sh) (reset_core_flag (cs ! i))) 0 [0..<NR_DSP_CORE]"

definition all_cores :: "nat \<Rightarrow> u32" where
  "all_cores sh = foldl (\<lambda>m i. m OR push_bit (i + sh) 1) 0 [0..<NR_DSP_CORE]"

section \<open>Devices and requests\<close>

definition open_dev :: "boot_env \<Rightarrow> boot_dev \<Rightarrow> int prog" where
  "open_dev env d =
     (\<lambda>s. let fd = dev_fd env d in
          Returns (fd, if fd = - 1 then s else s\<lparr>open_fds := insert fd (open_fds s)\<rparr>))"

definition close_fd :: "int \<Rightarrow> boot \<Rightarrow> boot" where
  "close_fd fd s = s\<lparr>open_fds := open_fds s - {fd}\<rparr>"

definition cleanup :: "boot \<Rightarrow> boot" where
  "cleanup s = close_fd (bt_fsl_l1d (bt s)) (close_fd (bt_het_mgr (bt s)) (close_fd (bt_dev_mem (bt s)) s))"

definition kioctl :: "boot_env \<Rightarrow> het_cmd \<Rightarrow> (int \<times> het_out) prog" where
  "kioctl env cmd =
     (\<lambda>s. case het_mgr_ioctl (kern_multi env) (kern_par env) (\<lambda>_. None) (ioctl_copy env) (kern_junk env) (kern_maps env) cmd (kern s) of
            Inl _ \<Rightarrow> Faults
          | Inr (r, k) \<Rightarrow> Returns (r, s\<lparr>kern := k\<rparr>))"

definition get_sys_map :: "boot_env \<Rightarrow> int prog" where
  "get_sys_map env =
     bnd (kioctl env GET_SYS_MAP) (\<lambda>(r, out).
       thn (upd (\<lambda>s. case out of Out_sys_map m \<Rightarrow> s\<lparr>bt := (bt s)\<lparr>het_sys_map := m\<rparr>\<rparr> | _ \<Rightarrow> s)) (ret r))"

definition set_sh_ctrl_pa_init :: "boot_env \<Rightarrow> int prog" where
  "set_sh_ctrl_pa_init env = bnd (kioctl env SET_INITIALIZED) (\<lambda>(r, _). ret r)"

definition reset_het_structures_B4 :: "boot_env \<Rightarrow> int prog" where
  "reset_het_structures_B4 env = bnd (kioctl env RESET_STRUCTURES) (\<lambda>(r, _). ret r)"

definition init_devices :: "boot_env \<Rightarrow> int prog \<Rightarrow> int prog" where
  "init_devices env k =
     bnd (open_dev env Dev_het_mgr) (\<lambda>fd. thn (upd (\<lambda>s. s\<lparr>bt := (bt s)\<lparr>bt_het_mgr := fd\<rparr>\<rparr>))
       (if fd = - 1 then ret (- 1) else
     bnd (open_dev env Dev_mem) (\<lambda>fd. thn (upd (\<lambda>s. s\<lparr>bt := (bt s)\<lparr>bt_dev_mem := fd\<rparr>\<rparr>))
       (if fd = - 1 then ret (- 1) else
     bnd (open_dev env Dev_l1d) (\<lambda>fd. thn (upd (\<lambda>s. s\<lparr>bt := (bt s)\<lparr>bt_fsl_l1d := fd\<rparr>\<rparr>))
       (if fd = - 1 then ret (- 1) else k))))))"

definition area_table :: "sys_map \<Rightarrow> (u64 \<times> u32) list" where
  "area_table m =
     map (\<lambda>a. (strt_phys a, strt_size a)) [m_smart_dsp_os_priv_area m, m_dsp_core0_m2 m, m_dsp_core1_m2 m, m_dsp_m3 m,
       m_pa_ccsrbar m, m_dsp_ccsrbar m] @ [(DCSR_BASE, 0x10000 * 32)]"

definition assign_memory_areas :: "int prog" where
  "assign_memory_areas =
     (\<lambda>s. let m = het_sys_map (bt s) in
          if strt_phys (m_smart_dsp_os_priv_area m) = 0xFFFFFFFF \<or> strt_phys (m_dsp_core0_m2 m) = 0xFFFFFFFF \<or>
             strt_phys (m_dsp_core1_m2 m) = 0xFFFFFFFF \<or> strt_phys (m_dsp_m3 m) = 0xFFFFFFFF \<or>
             dsp_shared_size m = 0xFFFFFFFF
          then Returns (- 1, s)
          else Returns (0, s\<lparr>bt := (bt s)\<lparr>map_d := area_table m\<rparr>\<rparr>))"

text \<open>
  \<open>fsl_shm_init\<close> opens \<open>/dev/fsl_shm\<close>; it closes it again when the segment cannot be created or attached, and only then.
\<close>

definition seg_fds :: "boot_env \<Rightarrow> int set" where
  "seg_fds env = (if sys_open (seg_sys env) \<and> sys_shmget (seg_sys env) \<and> sys_shmat (seg_sys env) \<noteq> None then {seg_fd env} else {})"

definition init_hugetlb :: "boot_env \<Rightarrow> int prog" where
  "init_hugetlb env =
     (\<lambda>s. case fsl_shm_init (seg_cc env) (seg_env env) (seg_sys env) (dsp_shared_size (het_sys_map (bt s))) True (seg_lib s) (seg_drv s) of
            (pa, l, d) \<Rightarrow>
              (let s1 = s\<lparr>seg_lib := l, seg_drv := d, open_fds := open_fds s \<union> seg_fds env\<rparr>; n = dsp_shared_size (het_sys_map (bt s)) in
               if pa = 0 then Returns (- 1, s1)
               else bnd (kioctl env (SET_SHARED_AREA (Some (\<lparr>strt_phys = ucast pa, strt_size = 0x10000000 - n\<rparr>,
                                                           \<lparr>strt_phys = ucast (pa + 0x10000000 - n), strt_size = n\<rparr>))))
                      (\<lambda>(r, _). ret (if r \<noteq> 0 then - 1 else r)) s1))"

text \<open>
  The library's initialisation of the channels, on the control structure as the kernel has it; a control area the kernel
  could not map is not one of its states.
\<close>

definition ipc_ctrl :: "het_control \<Rightarrow> ipc_state \<Rightarrow> ipc_state" where
  "ipc_ctrl c st = st\<lparr>ctrl := \<lparr>pa_initialized = hc_pa_initialized c, sc_initialized = hc_sc_initialized c, ctrl_ipc = hc_ipc c\<rparr>\<rparr>"

definition out_word :: "het_out \<Rightarrow> u32" where
  "out_word out = (case out of Out_word w \<Rightarrow> w | _ \<Rightarrow> 0)"

definition ipc_call :: "boot_env \<Rightarrow> (b4_env \<Rightarrow> ipc_state \<Rightarrow> int \<times> ipc_state) \<Rightarrow> int prog" where
  "ipc_call env f =
     bnd (kioctl env GET_RAT_MODE) (\<lambda>(r1, o1). bnd (kioctl env GET_IPC_PARAMS) (\<lambda>(r2, o2) s.
       case h_ctrl (kern s) of
         None \<Rightarrow> Faults
       | Some c \<Rightarrow>
           (let a = m_sh_ctrl_area (het_sys_map (bt s));
                e = \<lparr>b4_map_ok = mmap_ok env Dev_mem (strt_phys a) (strt_size a), b4_rat_rc = r1, b4_rat_regions = out_word o1,
                     b4_params_rc = r2, b4_params = out_word o2\<rparr>
            in case f e (ipc_ctrl c (ipcs s)) of (r, st) \<Rightarrow> Returns (r, s\<lparr>ipcs := st\<rparr>))))"

section \<open>Steps on the registers\<close>

definition ccsr_do :: "boot_env \<Rightarrow> (io_map \<Rightarrow> int prog) \<Rightarrow> int prog" where
  "ccsr_do env k =
     (\<lambda>s. let a = m_pa_ccsrbar (het_sys_map (bt s)) in with_map (map_area64 env (strt_phys a) (ucast (strt_size a)) s) k s)"

definition zeroed :: "unit prog \<Rightarrow> int prog" where
  "zeroed m = thn m (ret 0)"

definition release_starcore_B4 :: "boot_env \<Rightarrow> int prog" where
  "release_starcore_B4 env =
     ccsr_do env (\<lambda>m s. zeroed (
       thn (wr32 env m 0x20 (ucast (drop_bit 32 (intvec_addr (bt s)) AND 0xF)))
      (thn (wr32 env m 0x24 (ucast (intvec_addr (bt s))))
      (thn (wr32 env m 0x28 (0x8000000C OR push_bit 20 (bt_trg_id (bt s))))
      (thn (wr32 env m 0x8F012C 0x3F0)
      (thn (wr32 env m 0x8F014C 0x3F00)
           (or32 env m DCFG_BRR (DCFG_BRR_mask s))))))) s)"

definition l1d_hold_starcore_B4 :: "boot_env \<Rightarrow> core_info \<Rightarrow> int prog" where
  "l1d_hold_starcore_B4 env ci = ccsr_do env (\<lambda>m. zeroed (and32 env m DCFG_BRR (NOT (core_mask (reDspCoreInfo ci) 4))))"

definition l1d_hold_starcore_B4_simple :: "boot_env \<Rightarrow> int prog" where
  "l1d_hold_starcore_B4_simple env = ccsr_do env (\<lambda>m. zeroed (and32 env m DCFG_BRR (NOT (all_cores 4))))"

definition l1d_release_starcore_B4 :: "boot_env \<Rightarrow> core_info \<Rightarrow> int prog" where
  "l1d_release_starcore_B4 env ci = ccsr_do env (\<lambda>m. zeroed (or32 env m DCFG_BRR (core_mask (reDspCoreInfo ci) 4)))"

text \<open>The semaphore is polled without a limit; a value other than the one of the DSP is not an error.\<close>

definition check_dsp_boot_B4 :: "boot_env \<Rightarrow> int prog" where
  "check_dsp_boot_B4 env =
     (\<lambda>s. let a = m_dsp_ccsrbar (het_sys_map (bt s)); n = semaphore_num (bt s); off = 4 * (0x23C840 + 2 * unat n) in
          with_map (map_area64 env (strt_phys a) (ucast (strt_size a)) s) (\<lambda>m.
            if 1 \<le> n \<and> n \<le> 7
            then bnd (poll env m off (\<lambda>v. v \<noteq> 0)) (\<lambda>v. if v = 0xFE then zeroed (wr32 env m off 0) else ret 0)
            else ret 0) s)"

text \<open>The L1 defense structure, found through the control structure in the mapping of the control area.\<close>

definition l1d_do :: "boot_env \<Rightarrow> (io_map \<Rightarrow> nat \<Rightarrow> 'a prog) \<Rightarrow> 'a prog" where
  "l1d_do env k =
     (\<lambda>s. case (h_ctrl (kern s), bt_sh_ctrl (bt s)) of
            (Some c, Some (phys, sz)) \<Rightarrow> k (direct_map env phys (ucast sz)) (unat (ucast (hc_l1d c - phys) :: u32)) s
          | _ \<Rightarrow> Faults)"

definition reset_status :: "boot_env \<Rightarrow> nat \<Rightarrow> u32 prog" where
  "reset_status env i = l1d_do env (\<lambda>m off. rd32 env m (off + 12 + 4 * i))"

definition check_vnmi_ack_B4 :: "boot_env \<Rightarrow> int prog" where
  "check_vnmi_ack_B4 env =
     (\<lambda>s. bnd (reset_status env (unat (bt_core_id (bt s)))) (\<lambda>v. ret (if v \<noteq> READY_FOR_RESET then - 1 else 0)) s)"

definition set_reset_modes_B4 :: "boot_env \<Rightarrow> core_info \<Rightarrow> unit prog" where
  "set_reset_modes_B4 env ci =
     l1d_do env (\<lambda>m off. thn (wr32 env m (off + 4) (reset_mode ci)) (wr32 env m (off + 8) (maple_reset_mode ci)))"

definition set_soc_strobe_B4 :: "boot_env \<Rightarrow> core_info \<Rightarrow> int prog" where
  "set_soc_strobe_B4 env ci =
     (\<lambda>s. with_map (map_area64 env (DCSR_BASE + 0x22000) 0x10000 s) (\<lambda>m.
            zeroed (or32 env m 0x5C (core_mask (reDspCoreInfo ci) 8))) s)"

definition dtu_addr :: "nat \<Rightarrow> u64" where
  "dtu_addr i = DCSR_BASE + 0x110000 + (of_nat (i div 2 + 1) * 0x10000 + of_nat (i mod 2) * 0x8000 + 0x4000)"

text \<open>The status is read as 64 bits, of which the test looks at the second word.\<close>

definition set_safe_addr_DTU_B4 :: "boot_env \<Rightarrow> core_info \<Rightarrow> nat \<Rightarrow> int prog" where
  "set_safe_addr_DTU_B4 env ci i =
     (let m = direct_map env (dtu_addr i) 0x1000 in
      if \<not> mp_ok m then ret (- 1)
      else thn (rd32 env m 0x120) (bnd (rd32 env m 0x124) (\<lambda>v.
             if v AND 8 \<noteq> 0
             then zeroed (thn (wr32 env m 0x50 (dsp_safe_addr (reDspCoreInfo ci ! i))) (wr32 env m 0x54 1))
             else ret (- 1))))"

definition B4860QDS_MODEL_STR :: "u8 list" where
  "B4860QDS_MODEL_STR = map (\<lambda>c. of_nat (of_char c)) ''fsl,B4860QDS''"

definition l2_flash_invalidate :: "boot_env \<Rightarrow> u8 list \<Rightarrow> io_map \<Rightarrow> unit prog" where
  "l2_flash_invalidate env model m =
     thn (or32 env m L2_CACHE_2 L2FI)
       (if take 12 model = B4860QDS_MODEL_STR
        then thn (or32 env m (L2_CACHE_2 + OFF_L2_CACHE) L2FI) (or32 env m (L2_CACHE_2 + 2 * OFF_L2_CACHE) L2FI)
        else ret ())"

text \<open>On success the result is the count of the last read, 1; a model string that is too short gives 0.\<close>

definition with_model :: "boot_env \<Rightarrow> (u8 list \<Rightarrow> io_map \<Rightarrow> unit prog) \<Rightarrow> int prog" where
  "with_model env k =
     (case model_file env of
        None \<Rightarrow> ret (- 1)
      | Some model \<Rightarrow> if length model < 12 then ret 0 else ccsr_do env (\<lambda>m. thn (k model m) (ret 1)))"

definition dsp_L2_cache_invalidate_B4 :: "boot_env \<Rightarrow> core_info \<Rightarrow> int prog" where
  "dsp_L2_cache_invalidate_B4 env ci =
     with_model env (\<lambda>model m. if reset_mode ci = MODE_3_ACTIVE then l2_flash_invalidate env model m else ret ())"

definition dsp_L2_cache_invalidate_B4_dspbt :: "boot_env \<Rightarrow> int prog" where
  "dsp_L2_cache_invalidate_B4_dspbt env = with_model env (l2_flash_invalidate env)"

fun l2_init_loop :: "boot_env \<Rightarrow> io_map \<Rightarrow> nat \<Rightarrow> nat \<Rightarrow> int prog" where
  "l2_init_loop env m 0 i = ret 0"
| "l2_init_loop env m (Suc n) i =
     (let off = L2_CACHE_2 + i * OFF_L2_CACHE in
      bnd (rd32 env m off) (\<lambda>v.
        if v AND L2E \<noteq> 0 then l2_init_loop env m n (Suc i)
        else thn (wr32 env m off (L2FI OR L2LFC))
            (thn (poll env m off (\<lambda>v. v AND (L2FI OR L2LFC) = 0))
            (thn (wr32 env m (off + 4) (of_nat (34 + i * 2 + 1)))
            (thn (wr32 env m off (L2E OR L2PE))
            (thn (poll env m off (\<lambda>v. v AND L2E \<noteq> 0))
                 (l2_init_loop env m n (Suc i))))))))"

definition dsp_L2_cache_init_B4 :: "boot_env \<Rightarrow> int \<Rightarrow> int prog" where
  "dsp_L2_cache_init_B4 env count = ccsr_do env (\<lambda>m. l2_init_loop env m (nat count) 0)"

text \<open>The PH15 state is waited for eleven readings (ten in the second variant); not reaching it is not an error.\<close>

definition set_PH15_on_dspcore_B4 :: "boot_env \<Rightarrow> core_info \<Rightarrow> int prog" where
  "set_PH15_on_dspcore_B4 env ci =
     (let k = core_mask (reDspCoreInfo ci) 4 in
      ccsr_do env (\<lambda>m. thn (or32 env m PCPH15SETR k) (thn (poll_max env m PCPH15SR (\<lambda>v. k = v AND k) 10) (ret 0))))"

definition set_PH15_on_dspcore_B4_simple :: "boot_env \<Rightarrow> int prog" where
  "set_PH15_on_dspcore_B4_simple env =
     (let k = all_cores 4 in
      ccsr_do env (\<lambda>m. thn (or32 env m PCPH15SETR k) (thn (or32 env m PCPH15SETR k) (thn (or32 env m PCPH15SETR k)
        (thn (poll_max env m PCPH15SR (\<lambda>v. k = v AND k) 9) (ret 0))))))"

definition set_PIR_mask :: "boot_env \<Rightarrow> u32 \<Rightarrow> int prog" where
  "set_PIR_mask env k = ccsr_do env (\<lambda>m. thn (or32 env m PIR k) (thn (poll env m PIR (\<lambda>v. k = v AND k)) (ret 0)))"

definition set_PIR_on_dspcore_B4 :: "boot_env \<Rightarrow> core_info \<Rightarrow> int prog" where
  "set_PIR_on_dspcore_B4 env ci = set_PIR_mask env (core_mask (reDspCoreInfo ci) 8)"

definition set_PIR_on_dspcore_B4_simple :: "boot_env \<Rightarrow> int prog" where
  "set_PIR_on_dspcore_B4_simple env = set_PIR_mask env (all_cores 8)"

fun clear_words :: "boot_env \<Rightarrow> io_map \<Rightarrow> nat list \<Rightarrow> unit prog" where
  "clear_words env m [] = ret ()"
| "clear_words env m (off # offs) = thn (wr32 env m off 1) (clear_words env m offs)"

definition clear_STMR_B4_simple :: "boot_env \<Rightarrow> int prog" where
  "clear_STMR_B4_simple env = ccsr_do env (\<lambda>m. zeroed (clear_words env m (map (\<lambda>i. 0x8F3000 + 4 * i) [0..<8])))"

definition reset_PIR_PH15 :: "boot_env \<Rightarrow> u32 \<Rightarrow> u32 \<Rightarrow> int prog" where
  "reset_PIR_PH15 env k pir =
     ccsr_do env (\<lambda>m. thn (and32 env m PIR (NOT pir)) (thn (poll env m PIR (\<lambda>v. v AND pir = 0))
       (thn (wr32 env m PCPH15CLRR k) (thn (poll env m PCPH15SR (\<lambda>v. v AND k = 0)) (ret 0)))))"

definition Reset_PIR_PH15_on_dspcore_B4 :: "boot_env \<Rightarrow> core_info \<Rightarrow> int prog" where
  "Reset_PIR_PH15_on_dspcore_B4 env ci = reset_PIR_PH15 env (core_mask (reDspCoreInfo ci) 4) (core_mask (reDspCoreInfo ci) 8)"

definition Reset_PIR_PH15_on_dspcore_B4_simple :: "boot_env \<Rightarrow> int prog" where
  "Reset_PIR_PH15_on_dspcore_B4_simple env = reset_PIR_PH15 env (all_cores 4) (all_cores 8)"

text \<open>The counter of the waiting loop starts over after a core that became ready, and is kept otherwise.\<close>

function crst_wait :: "boot_env \<Rightarrow> io_map \<Rightarrow> nat \<Rightarrow> nat \<Rightarrow> nat prog" where
  "crst_wait env m off j s =
     (if j < 5
      then (case rd32 env m off s of
              Returns (v, t) \<Rightarrow> if 4 AND v \<noteq> 0 then Returns (0, t) else crst_wait env m off (Suc j) t
            | Faults \<Rightarrow> Faults
            | Hangs \<Rightarrow> Hangs)
      else Returns (Suc j, s))"
  by pat_completeness auto
termination
  by (relation "measure (\<lambda>(env, m, off, j, s). 5 - j)") auto

declare crst_wait.simps [simp del]

fun crst_loop :: "boot_env \<Rightarrow> io_map \<Rightarrow> reload_core list \<Rightarrow> nat list \<Rightarrow> nat \<Rightarrow> int prog" where
  "crst_loop env m cs [] j = ret 0"
| "crst_loop env m cs (i # is) j =
     (if reset_core_flag (cs ! i) \<noteq> 0
      then bnd (crst_wait env m (DCFG_CRSTSR + 4 * i) j) (\<lambda>j.
             bnd (rd32 env m (DCFG_CRSTSR + 4 * i)) (\<lambda>v.
               if 4 AND v \<noteq> 4 then ret (- 1) else crst_loop env m cs is j))
      else crst_loop env m cs is j)"

definition check_dsp_ready_CRSTSR_B4 :: "boot_env \<Rightarrow> core_info \<Rightarrow> int prog" where
  "check_dsp_ready_CRSTSR_B4 env ci = ccsr_do env (\<lambda>m. crst_loop env m (reDspCoreInfo ci) [0..<NR_DSP_CORE] 0)"

definition send_vnmi_func :: "boot_env \<Rightarrow> int prog" where
  "send_vnmi_func env =
     (\<lambda>s. let m = direct_map env (strt_phys (m_dsp_ccsrbar (het_sys_map (bt s))) + 0x8F2000) 0x100 in
          thn (if need_clear s then thn (wr32 env m 8 0xFFFFFFFF) (upd (\<lambda>s. s\<lparr>need_clear := False\<rparr>)) else ret ())
            (zeroed (or32 env m 0 (GIC_VIGR_VALUE s))) s)"

definition flush_cnpc :: "boot_env \<Rightarrow> unit prog" where
  "flush_cnpc env =
     (let m = direct_map env 0xF00001000 0x1000 in
      if dev_fd env Dev_mem = - 1 \<or> \<not> mp_ok m then ret () else or32 env m 0x30 0x10)"

fun set_Hw_watchpoint_loop :: "boot_env \<Rightarrow> reload_core list \<Rightarrow> nat list \<Rightarrow> int prog" where
  "set_Hw_watchpoint_loop env cs [] = ret 0"
| "set_Hw_watchpoint_loop env cs (i # is) =
     (let c = cs ! i; m = direct_map env (dtu_addr i) 0x1000 in
      if reset_core_flag c \<noteq> 0 \<and> wpt_type c \<in> {CHR ''b'', CHR ''w'', CHR ''r''} then
        if \<not> mp_ok m then ret (- 1)
        else thn (wr32 env m 0xA0 0x100) (thn (wr32 env m 0x70 0x100)
            (thn (wr32 env m 0x250 (if wpt_type c = CHR ''b'' then 0x60001 else if wpt_type c = CHR ''w'' then 0x40001 else 0x20001))
            (thn (wr32 env m 0x258 (wpt_begin_addr c)) (thn (wr32 env m 0x25C (wpt_end_addr c))
                 (set_Hw_watchpoint_loop env cs is)))))
      else set_Hw_watchpoint_loop env cs is)"

definition set_Hw_watchpoint :: "boot_env \<Rightarrow> core_info \<Rightarrow> int prog" where
  "set_Hw_watchpoint env ci = set_Hw_watchpoint_loop env (reDspCoreInfo ci) [0..<NR_DSP_CORE]"

section \<open>First start\<close>

definition pre_load_B4 :: "boot_env \<Rightarrow> int \<Rightarrow> int prog" where
  "pre_load_B4 env count =
     init_devices env
       (nz_fails (get_sys_map env)
       (nz_fails assign_memory_areas
       (nz_fails (init_hugetlb env)
       (nz_fails (ipc_call env fsl_B4_ipc_init)
       (nz_fails (dsp_L2_cache_init_B4 env count)
          (ret 0))))))"

text \<open>A core number is an \<open>int\<close> here and a 32-bit word in the loader's structure.\<close>

definition load_B4 :: "boot_env \<Rightarrow> string \<Rightarrow> int prog" where
  "load_B4 env fname =
     bnd (asks (\<lambda>s. bt_core_id (bt s))) (\<lambda>core.
       nz_fails (load_dsp_image env fname)
         (bnd (asks pa_init_done) (\<lambda>d.
            nz_fails (if d then ret 0 else set_sh_ctrl_pa_init env)
              (zeroed (upd (\<lambda>s. s\<lparr>pa_init_done := True, DCFG_BRR_mask := DCFG_BRR_mask s OR push_bit (unat (core + 4)) 1\<rparr>))))))"

definition post_load_B4 :: "boot_env \<Rightarrow> int prog" where
  "post_load_B4 = check_dsp_boot_B4"

definition dsp_cluster_count_f :: "bt_core \<Rightarrow> int" where
  "dsp_cluster_count_f c = (if ci_core_id c < 0 then - (- ci_core_id c div 2) else ci_core_id c div 2) + 1"

definition set_core_id :: "u32 \<Rightarrow> unit prog" where
  "set_core_id c = upd (\<lambda>s. s\<lparr>bt := (bt s)\<lparr>bt_core_id := c\<rparr>\<rparr>)"

fun load_images :: "boot_env \<Rightarrow> bt_core list \<Rightarrow> int prog" where
  "load_images env [] = ret 0"
| "load_images env (c # cs) =
     thn (set_core_id (word_of_int (ci_core_id c))) (neg_fails (load_B4 env (ci_image c)) (load_images env cs))"

definition start_cores :: "boot_env \<Rightarrow> bt_core \<Rightarrow> int prog" where
  "start_cores env c0 =
     thn (upd (\<lambda>s. s\<lparr>bt := (bt s)\<lparr>bt_trg_id := ci_trg_id c0\<rparr>\<rparr>))
       (nz_fails (release_starcore_B4 env)
         (thn (upd (\<lambda>s. s\<lparr>DCFG_BRR_mask := 0, bt := (bt s)\<lparr>semaphore_num := word_of_int (ci_core_id c0)\<rparr>\<rparr>))
           (neg_fails (post_load_B4 env) (ret 0))))"

definition fresh_bt :: "boot \<Rightarrow> boot" where
  "fresh_bt s = s\<lparr>bt := (bt s)\<lparr>bt_het_mgr := - 1, bt_dev_mem := - 1, bt_fsl_l1d := - 1\<rparr>\<rparr>"

definition closing :: "int prog \<Rightarrow> int prog" where
  "closing m = bnd m (\<lambda>r. thn (upd cleanup) (ret r))"

definition b4860_load_dsp_image :: "boot_env \<Rightarrow> bt_core list \<Rightarrow> int prog" where
  "b4860_load_dsp_image env cores =
     thn (upd fresh_bt)
       (closing (neg_fails (pre_load_B4 env (dsp_cluster_count_f (last cores)))
                  (neg_fails (load_images env (tl cores)) (start_cores env (hd cores)))))"

text \<open>The second variant holds the cores first; its error exits leave the devices open.\<close>

definition b4860_load_dsp_image_new :: "boot_env \<Rightarrow> bt_core list \<Rightarrow> int prog" where
  "b4860_load_dsp_image_new env cores =
     thn (upd fresh_bt)
       (bnd (pre_load_B4 env (dsp_cluster_count_f (last cores))) (\<lambda>r.
          if r < 0 then closing (ret (- 1))
          else neg_fails (set_PH15_on_dspcore_B4_simple env)
              (neg_fails (dsp_L2_cache_invalidate_B4_dspbt env)
              (neg_fails (set_PIR_on_dspcore_B4_simple env)
              (neg_fails (l1d_hold_starcore_B4_simple env)
              (neg_fails (Reset_PIR_PH15_on_dspcore_B4_simple env)
              (neg_fails (clear_STMR_B4_simple env)
                (closing (neg_fails (load_images env (tl cores)) (start_cores env (hd cores)))))))))))"

section \<open>Warm reset\<close>

fun marks_ok :: "boot_env \<Rightarrow> (vaddr \<times> vaddr) list \<Rightarrow> bool option" where
  "marks_ok env [] = Some True"
| "marks_ok env ((a, b) # xs) =
     (case seg_word env a of
        None \<Rightarrow> None
      | Some v \<Rightarrow> if v \<noteq> HET_START then Some False
          else (case seg_word env b of None \<Rightarrow> None | Some w \<Rightarrow> if w \<noteq> HET_END then Some False else marks_ok env xs))"

text \<open>
  The marks at both ends of the shared structures: those of the IPC structures and channels are looked up in the attached segment,
  at addresses of an older layout, those of the others in the control area.
\<close>

definition seg_marks :: "shm_seg \<Rightarrow> u64 \<Rightarrow> nat \<Rightarrow> nat \<Rightarrow> bool \<Rightarrow> (vaddr \<times> vaddr) list" where
  "seg_marks seg ipc n d two =
     (let v = ucast (seg_vaddr seg) :: u32; p = ucast (seg_paddr seg);
          at = (\<lambda>a. v + a - p);
          start = p + 0xEF00000 + 0x400;
          region = (\<lambda>j. (at (ucast ipc + 32 * of_nat j), at (ucast ipc + 32 * of_nat j + 24)) #
             map (\<lambda>i. (at (start + of_nat (j * (88 * n + 16 * n * d)) + 88 * of_nat i),
                       at (start + of_nat (j * (88 * n + 16 * n * d)) + 88 * of_nat i + 80))) [0..<n])
      in region 0 @ (if two then region 1 else []))"

definition marked :: "u32 \<times> u32 \<Rightarrow> bool" where
  "marked p \<longleftrightarrow> p = (HET_START, HET_END)"

definition check_validation_fields :: "boot_env \<Rightarrow> int prog" where
  "check_validation_fields env =
     bnd (kioctl env GET_RAT_MODE) (\<lambda>(r1, o1). if r1 \<noteq> 0 then ret (- 1) else
     bnd (kioctl env GET_IPC_PARAMS) (\<lambda>(r2, o2). if r2 \<noteq> 0 then ret (- 1) else
       (let n = unat (out_word o2 AND 0xFFFF); d = unat (drop_bit 16 (out_word o2)) in
        if n = 0 \<or> d = 0 then ret (- 1)
        else (\<lambda>s. case (h_ctrl (kern s), h_l1d (kern s)) of
                 (Some c, Some l) \<Rightarrow>
                   (case marks_ok env (seg_marks (lib_seg (seg_lib s)) (hc_ipc c) n d (out_word o1 = 2)) of
                      None \<Rightarrow> Faults
                    | Some ok \<Rightarrow>
                        Returns (if ok \<and> marked l \<and> marked (hc_start_valid c, hc_end_valid c) \<and> list_all marked (h_logs (kern s))
                                 then 0 else MEMORY_CORRUPTED, s))
               | _ \<Rightarrow> Faults))))"

text \<open>Every flagged core is told to stop; one that does not answer is sent to its safe address if it is in debug mode.\<close>

fun stop_cores :: "boot_env \<Rightarrow> core_info \<Rightarrow> nat list \<Rightarrow> bool \<Rightarrow> (int \<times> bool) prog" where
  "stop_cores env ci [] flag = ret (0, flag)"
| "stop_cores env ci (j # js) flag =
     thn (set_core_id (of_nat j))
       (if reset_core_flag (reDspCoreInfo ci ! j) = 0 then stop_cores env ci js flag
        else thn (upd (\<lambda>s. s\<lparr>GIC_VIGR_VALUE := 0x302 + of_nat j\<rparr>))
            (bnd (send_vnmi_func env) (\<lambda>r. if r \<noteq> 0 then ret (- 1, flag)
             else bnd (check_vnmi_ack_B4 env) (\<lambda>r. if r = 0 then stop_cores env ci js flag
             else bnd (set_safe_addr_DTU_B4 env ci j) (\<lambda>r. if r \<noteq> 0 then ret (- 1, flag)
             else stop_cores env ci js True)))))"

fun check_acks :: "boot_env \<Rightarrow> core_info \<Rightarrow> nat list \<Rightarrow> int prog" where
  "check_acks env ci [] = ret 0"
| "check_acks env ci (j # js) =
     thn (set_core_id (of_nat j))
       (if reset_core_flag (reDspCoreInfo ci ! j) = 0 then check_acks env ci js
        else nz_fails (check_vnmi_ack_B4 env) (check_acks env ci js))"

definition stop_all :: "boot_env \<Rightarrow> core_info \<Rightarrow> int prog" where
  "stop_all env ci =
     bnd (stop_cores env ci [0..<NR_DSP_CORE] False) (\<lambda>(r, flag).
       if r \<noteq> 0 then ret (- 1)
       else if flag then nz_fails (set_soc_strobe_B4 env ci) (check_acks env ci [0..<NR_DSP_CORE])
       else ret 0)"

definition map_ctrl :: "unit prog" where
  "map_ctrl =
     upd (\<lambda>s. let a = m_sh_ctrl_area (het_sys_map (bt s)) in
              s\<lparr>bt := (bt s)\<lparr>bt_sh_ctrl := Some (strt_phys a, ucast (strt_size a))\<rparr>\<rparr>)"

text \<open>The result of the check of the marks is handed on as it is, a positive number when the memory is corrupted.\<close>

definition prepare_reset :: "boot_env \<Rightarrow> bool \<Rightarrow> core_info \<Rightarrow> int prog" where
  "prepare_reset env has_ipc ci =
     init_devices env
       (nz_fails (get_sys_map env)
       (nz_fails assign_memory_areas
       (thn map_ctrl
       (nz_fails (stop_all env ci)
       (neg_fails (set_PH15_on_dspcore_B4 env ci)
       (neg_fails (dsp_L2_cache_invalidate_B4 env ci)
          (if reset_mode ci = MODE_3_ACTIVE
           then neg_fails (ipc_call env (\<lambda>e. fsl_B4_ipc_reinit e has_ipc)) (ret 0)
           else check_validation_fields env)))))))"

definition pre_Reload_B4 :: "boot_env \<Rightarrow> bool \<Rightarrow> core_info \<Rightarrow> int prog" where
  "pre_Reload_B4 env has_ipc ci =
     bnd (prepare_reset env has_ipc ci) (\<lambda>r.
       if r \<noteq> 0 then ret r
       else thn (set_reset_modes_B4 env ci)
           (thn (if debug_print ci \<noteq> 0 then flush_cnpc env else ret ())
           (neg_fails (set_PIR_on_dspcore_B4 env ci)
           (neg_fails (l1d_hold_starcore_B4 env ci)
             (ret 0)))))"

definition Reload_B4 :: "boot_env \<Rightarrow> string \<Rightarrow> int prog" where
  "Reload_B4 env fname =
     nz_fails (load_dsp_image env fname)
       (bnd (asks (\<lambda>s. bt_core_id (bt s))) (\<lambda>c. nz_fails (if c = 0 then set_sh_ctrl_pa_init env else ret 0) (ret 0)))"

fun reload_images :: "boot_env \<Rightarrow> (nat \<Rightarrow> u32) \<Rightarrow> reload_core list \<Rightarrow> nat list \<Rightarrow> int prog" where
  "reload_images env f cs [] = ret 0"
| "reload_images env f cs (i # is) =
     (if reset_core_flag (cs ! i) = 0 then reload_images env f cs is
      else thn (set_core_id (f i)) (neg_fails (Reload_B4 env (dsp_filename (cs ! i))) (reload_images env f cs is)))"

text \<open>The statuses of the cores; the last one that is not success is the result.\<close>

fun final_status :: "boot_env \<Rightarrow> reload_core list \<Rightarrow> nat list \<Rightarrow> int \<Rightarrow> int prog" where
  "final_status env cs [] r = ret r"
| "final_status env cs (i # is) r =
     (if reset_core_flag (cs ! i) = 0 then final_status env cs is r
      else bnd (reset_status env i) (\<lambda>v.
        if v = WARM_RESET_SUCCESS then final_status env cs is r
        else bnd (if v = BEGIN_OS_INIT \<or> v = BEGIN_APP_INIT then reset_status env i else ret v) (\<lambda>w.
          final_status env cs is (if w \<noteq> WARM_RESET_SUCCESS then sint w else r))))"

definition l1d_fails :: "int prog \<Rightarrow> int prog \<Rightarrow> int prog" where
  "l1d_fails m k = bnd m (\<lambda>r. if r < 0 then ret (- ERR_L1_DEFENSE_API_FAIL) else k)"

definition watch_and_wait :: "boot_env \<Rightarrow> core_info \<Rightarrow> int prog" where
  "watch_and_wait env ci =
     (if reset_mode ci = MODE_3_ACTIVE \<or> reset_mode ci = MODE_2_ACTIVE
      then thn (upd (\<lambda>s. s\<lparr>bt := (bt s)\<lparr>semaphore_num := hw_sem_num ci\<rparr>\<rparr>))
            (l1d_fails (post_load_B4 env) (final_status env (reDspCoreInfo ci) [0..<NR_DSP_CORE] 0))
      else final_status env (reDspCoreInfo ci) [0..<NR_DSP_CORE] 0)"

definition reload_and_release :: "boot_env \<Rightarrow> core_info \<Rightarrow> int prog" where
  "reload_and_release env ci =
     (let cores = [0..<NR_DSP_CORE] in
      l1d_fails (Reset_PIR_PH15_on_dspcore_B4 env ci)
     (l1d_fails (if reset_mode ci = MODE_3_ACTIVE then reload_images env (\<lambda>_. - 1) (shDspCoreInfo ci) cores else ret 0)
     (l1d_fails (reload_images env of_nat (reDspCoreInfo ci) cores)
     (l1d_fails (l1d_release_starcore_B4 env ci)
     (l1d_fails (check_dsp_ready_CRSTSR_B4 env ci) (ret 0))))))"

text \<open>A failed watchpoint is the one exit that leaves the devices open.\<close>

definition fsl_start_L1_defense :: "boot_env \<Rightarrow> bool \<Rightarrow> core_info \<Rightarrow> int prog" where
  "fsl_start_L1_defense env has_ipc ci =
     thn (upd fresh_bt)
       (bnd (l1d_fails (pre_Reload_B4 env has_ipc ci) (reload_and_release env ci)) (\<lambda>r.
          if r \<noteq> 0 then closing (ret r)
          else bnd (if cfg_wpt ci = 1 then set_Hw_watchpoint env ci else ret 0) (\<lambda>r.
            if r < 0 then ret (- 1) else closing (watch_and_wait env ci))))"

end
