(* ===== verification/DSP_Boot_Props.thy ===== *)
theory DSP_Boot_Props
  imports DSP_Boot
begin

text \<open>
  What the boot library guarantees: the devices it opens are closed again, except the one of the shared segment, the cores are released after the last byte of the
  last image, and a warm reset loads images only between holding and releasing the cores.

  The steps of the library leave most of the state alone. A view of the state that a class of steps does not
  touch is an instance of one of the locales below, which prove for every step of the class that it keeps the view.
\<close>

section \<open>Views\<close>

lemma keeps_fun:
  assumes "\<And>s. keeps f (m s)"
  shows "keeps f (\<lambda>s. m s s)"
  unfolding keeps_def
proof (intro allI impI)
  fix s x t assume r: "m s s = Returns (x, t)"
  have "keeps f (m s)" by (rule assms)
  from this [unfolded keeps_def, rule_format, OF r] show "f t = f s" .
qed

lemma keeps_ccsr: "(\<And>m. keeps f (k m)) \<Longrightarrow> keeps f (ccsr_do env k)"
  by (auto simp: keeps_def ccsr_do_def Let_def with_map_def ret_def split: option.splits)

lemma keeps_zeroed: "keeps f m \<Longrightarrow> keeps f (zeroed m)"
  unfolding zeroed_def by (intro keeps_rules)

lemma keeps_l1d: "(\<And>m off. keeps f (k m off)) \<Longrightarrow> keeps f (l1d_do env k)"
  by (auto simp: keeps_def l1d_do_def split: option.splits)

lemma keeps_prod: "(\<And>a b. keeps f (k a b)) \<Longrightarrow> keeps f (case p of (a, b) \<Rightarrow> k a b)"
  by (cases p) simp

lemmas step_rules = keeps_rules keeps_ccsr keeps_zeroed keeps_l1d keeps_prod

text \<open>The steps on registers.\<close>

locale reg_view =
  fixes f :: "boot \<Rightarrow> 'v"
  assumes bus: "off_bus f"
begin

lemmas bus_rules = step_rules keeps_bus [OF bus]

lemma keeps_l2_init: "keeps f (l2_init_loop env m n i)"
  by (induction n arbitrary: i) (auto simp: Let_def intro!: bus_rules)

lemma keeps_clear: "keeps f (clear_words env m offs)"
  by (induction offs) (auto intro!: bus_rules)

lemma keeps_crst_wait: "crst_wait env m off j s = Returns (x, t) \<Longrightarrow> f t = f s"
proof (induction env m off j s rule: crst_wait.induct)
  case (1 env m off j s)
  then show ?case using keepsD [OF keeps_bus(1) [OF bus], of env m off s]
    by (subst (asm) crst_wait.simps) (fastforce split: if_splits run.splits prod.splits)
qed

lemma keeps_crst: "keeps f (crst_loop env m cs is j)"
proof (induction "is" arbitrary: j)
  case (Cons i "is")
  have "keeps f (crst_wait env m off j)" for off j using keeps_crst_wait by (auto simp: keeps_def)
  then show ?case using Cons by (auto intro!: bus_rules)
qed (auto intro!: bus_rules)

lemma keeps_watchpoint: "keeps f (set_Hw_watchpoint env ci)"
proof -
  have "keeps f (set_Hw_watchpoint_loop env cs is)" for cs "is"
    by (induction "is") (auto simp: Let_def intro!: bus_rules)
  then show ?thesis by (simp add: set_Hw_watchpoint_def)
qed

lemma keeps_model: "(\<And>b m. keeps f (k b m)) \<Longrightarrow> keeps f (with_model env k)"
  by (auto simp: with_model_def split: option.split intro!: bus_rules)

lemma keeps_state_steps:
  "keeps f (release_starcore_B4 env)" "keeps f (check_dsp_boot_B4 env)" "keeps f (check_vnmi_ack_B4 env)"
  "keeps f (set_soc_strobe_B4 env ci)"
proof -
  show "keeps f (release_starcore_B4 env)"
    unfolding release_starcore_B4_def by (rule keeps_ccsr, rule keeps_fun) (intro bus_rules)
  show "keeps f (check_dsp_boot_B4 env)"
    unfolding check_dsp_boot_B4_def Let_def by (rule keeps_fun) (intro bus_rules)
  show "keeps f (check_vnmi_ack_B4 env)"
    unfolding check_vnmi_ack_B4_def reset_status_def by (rule keeps_fun) (intro bus_rules)
  show "keeps f (set_soc_strobe_B4 env ci)"
    unfolding set_soc_strobe_B4_def by (rule keeps_fun) (intro bus_rules)
qed

lemma keeps_core_steps:
  "keeps f (l1d_hold_starcore_B4 env ci)" "keeps f (l1d_hold_starcore_B4_simple env)" "keeps f (l1d_release_starcore_B4 env ci)"
  "keeps f (reset_status env i)" "keeps f (set_reset_modes_B4 env ci)" "keeps f (check_dsp_ready_CRSTSR_B4 env ci)"
  "keeps f (set_safe_addr_DTU_B4 env ci i)" "keeps f (flush_cnpc env)"
  unfolding l1d_hold_starcore_B4_def l1d_hold_starcore_B4_simple_def l1d_release_starcore_B4_def reset_status_def
    set_reset_modes_B4_def check_dsp_ready_CRSTSR_B4_def set_safe_addr_DTU_B4_def flush_cnpc_def Let_def
  by (intro bus_rules keeps_crst)+

lemma keeps_power_steps:
  "keeps f (dsp_L2_cache_invalidate_B4 env ci)" "keeps f (dsp_L2_cache_invalidate_B4_dspbt env)"
  "keeps f (dsp_L2_cache_init_B4 env n)" "keeps f (clear_STMR_B4_simple env)"
  "keeps f (set_PH15_on_dspcore_B4 env ci)" "keeps f (set_PH15_on_dspcore_B4_simple env)"
  "keeps f (set_PIR_on_dspcore_B4 env ci)" "keeps f (set_PIR_on_dspcore_B4_simple env)"
  "keeps f (Reset_PIR_PH15_on_dspcore_B4 env ci)" "keeps f (Reset_PIR_PH15_on_dspcore_B4_simple env)"
  unfolding dsp_L2_cache_invalidate_B4_def dsp_L2_cache_invalidate_B4_dspbt_def l2_flash_invalidate_def
    dsp_L2_cache_init_B4_def set_PH15_on_dspcore_B4_def set_PH15_on_dspcore_B4_simple_def set_PIR_on_dspcore_B4_def
    set_PIR_on_dspcore_B4_simple_def set_PIR_mask_def clear_STMR_B4_simple_def Reset_PIR_PH15_on_dspcore_B4_def
    Reset_PIR_PH15_on_dspcore_B4_simple_def reset_PIR_PH15_def Let_def
  by (intro bus_rules keeps_model keeps_l2_init keeps_clear)+

end

text \<open>The kernel's manager and the channels besides.\<close>

locale bus_view = reg_view +
  assumes upd_kern: "f (s\<lparr>kern := k\<rparr>) = f s"
    and upd_ipcs: "f (s\<lparr>ipcs := i\<rparr>) = f s"
begin

lemma keeps_ioctl: "keeps f (kioctl env cmd)"
  by (auto simp: keeps_def kioctl_def upd_kern split: sum.splits prod.splits)

lemma keeps_requests:
  "keeps f (set_sh_ctrl_pa_init env)" "keeps f (ipc_call env g)" "keeps f (check_validation_fields env)"
proof -
  show "keeps f (set_sh_ctrl_pa_init env)"
    unfolding set_sh_ctrl_pa_init_def by (intro bus_rules keeps_ioctl)
  have "keeps f (\<lambda>s. case h_ctrl (kern s) of None \<Rightarrow> Faults | Some c \<Rightarrow> (case g (e s) (h c s) of (r, st) \<Rightarrow> Returns (r, s\<lparr>ipcs := st\<rparr>)))" for e h
    by (auto simp: keeps_def upd_ipcs split: option.splits prod.splits)
  then show "keeps f (ipc_call env g)"
    unfolding ipc_call_def Let_def by (intro bus_rules keeps_ioctl)
  show "keeps f (check_validation_fields env)"
    unfolding check_validation_fields_def Let_def
    by (intro bus_rules keeps_ioctl) (auto simp: keeps_def split: option.splits)
qed

end

text \<open>The attached segment and its device besides.\<close>

locale seg_view = bus_view +
  assumes upd_seg: "f (s\<lparr>seg_lib := l, seg_drv := d, open_fds := fds\<rparr>) = f s"
begin

lemma keeps_hugetlb: "keeps f (init_hugetlb env)"
proof -
  have "keeps f (bnd (kioctl env cmd) (\<lambda>(r, _). ret (g r)))" for cmd and g :: "int \<Rightarrow> int"
    by (intro bus_rules keeps_ioctl)
  then show ?thesis by (auto simp: keeps_def init_hugetlb_def upd_seg Let_def split: prod.splits if_splits)
qed

end

text \<open>The loader of images besides.\<close>

locale loader_view = bus_view +
  assumes upd_dram: "f (s\<lparr>dram := m, accesses := a\<rparr>) = f s"
    and upd_intvec: "f (s\<lparr>bt := (bt s)\<lparr>intvec_addr := w\<rparr>\<rparr>) = f s"
begin

lemma keeps_load: "keeps f (load_dsp_image env fname)"
proof -
  have step: "f t = f s" if "image_step_rel env s t" for s t
    using that by cases (simp_all add: store_bytes_def upd_dram upd_intvec off_bus_put [OF bus])
  have "f t = f s" if "(image_step_rel env)\<^sup>*\<^sup>* s t" for s t
    using that by (induction rule: rtranclp_induct) (simp_all add: step)
  then show ?thesis using load_steps unfolding keeps_def by blast
qed

lemma keeps_Reload: "keeps f (Reload_B4 env fname)"
  unfolding Reload_B4_def by (intro bus_rules keeps_load keeps_requests)

end

text \<open>The sequences of steps once the memory map is known.\<close>

locale run_view = loader_view +
  assumes upd_masks: "f (s\<lparr>pa_init_done := b, DCFG_BRR_mask := v\<rparr>) = f s"
      "f (s\<lparr>DCFG_BRR_mask := v, bt := (bt s)\<lparr>semaphore_num := v'\<rparr>\<rparr>) = f s"
      "f (s\<lparr>need_clear := b\<rparr>) = f s" "f (s\<lparr>GIC_VIGR_VALUE := v\<rparr>) = f s"
    and upd_bt: "f (s\<lparr>bt := (bt s)\<lparr>bt_core_id := v\<rparr>\<rparr>) = f s" "f (s\<lparr>bt := (bt s)\<lparr>semaphore_num := v\<rparr>\<rparr>) = f s"
      "f (s\<lparr>bt := (bt s)\<lparr>bt_trg_id := v\<rparr>\<rparr>) = f s"
begin

lemma keeps_core_id: "keeps f (set_core_id c)"
  unfolding set_core_id_def by (intro bus_rules upd_bt)

lemma keeps_load_images: "keeps f (load_images env cs)"
proof (induction cs)
  case (Cons c cs)
  have "keeps f (load_B4 env fname)" for fname
    unfolding load_B4_def by (intro bus_rules keeps_load keeps_requests upd_masks)
  then show ?case using Cons by (auto intro!: bus_rules keeps_core_id)
qed (auto intro!: bus_rules)

lemma keeps_start: "keeps f (start_cores env c0)"
  unfolding start_cores_def post_load_B4_def by (intro bus_rules keeps_state_steps upd_bt upd_masks)

lemma keeps_stop: "keeps f (stop_all env ci)"
proof -
  have v: "keeps f (send_vnmi_func env)"
    unfolding send_vnmi_func_def Let_def by (rule keeps_fun) (intro bus_rules upd_masks)
  have "keeps f (stop_cores env ci js flag)" for js flag
    by (induction js arbitrary: flag) (auto intro!: bus_rules v keeps_core_id keeps_state_steps keeps_core_steps upd_masks)
  moreover have "keeps f (check_acks env ci js)" for js
    by (induction js) (auto intro!: bus_rules keeps_core_id keeps_state_steps)
  ultimately show ?thesis unfolding stop_all_def by (intro bus_rules keeps_state_steps)
qed

lemma keeps_reload: "keeps f (reload_images env g cs is)"
  by (induction "is") (auto intro!: bus_rules keeps_core_id keeps_Reload)

lemma keeps_final: "keeps f (final_status env cs is r)"
  by (induction "is" arbitrary: r) (auto intro!: bus_rules keeps_core_steps)

lemma keeps_l1d_fails: "keeps f m \<Longrightarrow> keeps f k \<Longrightarrow> keeps f (l1d_fails m k)"
  unfolding l1d_fails_def by (intro bus_rules)

lemma keeps_wait: "keeps f (watch_and_wait env ci)"
  unfolding watch_and_wait_def post_load_B4_def by (intro bus_rules keeps_l1d_fails keeps_state_steps keeps_final upd_bt)

end

text \<open>Everything between opening and closing the devices.\<close>

locale boot_view = run_view +
  assumes upd_map: "f (s\<lparr>bt := (bt s)\<lparr>bt_sh_ctrl := ca\<rparr>\<rparr>) = f s"
      "f (s\<lparr>bt := (bt s)\<lparr>map_d := ms\<rparr>\<rparr>) = f s" "f (s\<lparr>bt := (bt s)\<lparr>het_sys_map := sm\<rparr>\<rparr>) = f s"
begin

lemma keeps_map_table: "keeps f (get_sys_map env)" "keeps f assign_memory_areas" "keeps f map_ctrl"
proof -
  show "keeps f (get_sys_map env)"
    unfolding get_sys_map_def by (intro bus_rules keeps_ioctl) (simp add: upd_map split: het_out.split)
  show "keeps f assign_memory_areas" by (auto simp: keeps_def assign_memory_areas_def upd_map Let_def split: if_splits)
  show "keeps f map_ctrl" unfolding map_ctrl_def Let_def by (intro bus_rules upd_map)
qed

end

text \<open>The open devices, and the numbers under which the library knows them.\<close>

definition devices :: "boot \<Rightarrow> int set \<times> int \<times> int \<times> int \<times> shm_lib" where
  "devices s = (open_fds s, bt_het_mgr (bt s), bt_dev_mem (bt s), bt_fsl_l1d (bt s), seg_lib s)"

interpretation devs: boot_view devices
  by unfold_locales (simp_all add: devices_def off_bus_def)

interpretation mapv: run_view "\<lambda>s. het_sys_map (bt s)"
  by unfold_locales (simp_all add: off_bus_def)

interpretation ctrlv: reg_view "\<lambda>s. h_ctrl (kern s)"
  by unfold_locales (simp add: off_bus_def)

interpretation btv: seg_view bt
  by unfold_locales (simp_all add: off_bus_def)

interpretation dramv: seg_view dram
  by unfold_locales (simp_all add: off_bus_def)

interpretation maskv: loader_view DCFG_BRR_mask
  by unfold_locales (simp_all add: off_bus_def)

interpretation masks: seg_view DCFG_BRR_mask
  by unfold_locales (simp_all add: off_bus_def)

interpretation ivv: bus_view "\<lambda>s. intvec_addr (bt s)"
  by unfold_locales (simp_all add: off_bus_def)

interpretation segv: boot_view seg_lib
  by unfold_locales (simp_all add: off_bus_def)

section \<open>Devices\<close>

text \<open>
  The devices open in addition are those the library knows, and the one of the segment once that is attached.
\<close>

abbreviation "known_fds s \<equiv> {bt_het_mgr (bt s), bt_dev_mem (bt s), bt_fsl_l1d (bt s)}"

definition held :: "boot_env \<Rightarrow> boot \<Rightarrow> int set" where
  "held env s = (if shm_init_done (seg_lib s) then {seg_fd env} else {})"

definition opened :: "boot_env \<Rightarrow> int set \<Rightarrow> boot \<Rightarrow> bool" where
  "opened env A s \<longleftrightarrow> seg_fd env \<notin> known_fds s \<and> open_fds s - known_fds s = A \<union> held env s"

text \<open>The descriptors the system hands out are distinct from those in use, and the one of the segment from the others.\<close>

definition fresh_fds :: "boot_env \<Rightarrow> boot \<Rightarrow> bool" where
  "fresh_fds env s \<longleftrightarrow> (\<forall>d. dev_fd env d \<notin> open_fds s) \<and> seg_fd env \<notin> insert (- 1) (open_fds s \<union> range (dev_fd env)) \<and> \<not> shm_init_done (seg_lib s)"

definition stays :: "boot_env \<Rightarrow> int set \<Rightarrow> 'a prog \<Rightarrow> bool" where
  "stays env A m \<longleftrightarrow> (\<forall>s x t. opened env A s \<longrightarrow> m s = Returns (x, t) \<longrightarrow> opened env A t)"

lemma opened_keeps: "keeps devices m \<Longrightarrow> m s = Returns (x, t) \<Longrightarrow> opened env A t = opened env A s"
  using keepsD [of devices m s x t] by (simp add: opened_def devices_def held_def)

lemma stays_keeps: "keeps devices m \<Longrightarrow> stays env A m"
  using opened_keeps [of m] unfolding stays_def by blast

lemma stays_nz:
  assumes "stays env A m" "stays env A k"
  shows "stays env A (nz_fails m k)"
  unfolding stays_def
proof (intro allI impI)
  fix s x t assume o: "opened env A s" and r: "nz_fails m k s = Returns (x, t)"
  obtain y u where u: "m s = Returns (y, u)" "u = t \<or> k u = Returns (x, t)" using r by (auto simp: nz_fails_run split: if_splits)
  then have "opened env A u" using assms(1) o unfolding stays_def by blast
  then show "opened env A t" using u(2) assms(2) unfolding stays_def by blast
qed

text \<open>Attaching the segment opens its device, and leaves it open exactly when the segment is attached.\<close>

lemma seg_fds_held:
  "fsl_shm_init cc e (seg_sys env) n force l d = (pa, l', d') \<Longrightarrow>
     shm_init_done l' \<and> seg_fds env = {seg_fd env} \<or> shm_init_done l' = shm_init_done l \<and> seg_fds env = {}"
  by (auto simp: fsl_shm_init_def seg_fds_def Let_def split: if_splits option.splits prod.splits)

lemma stays_hugetlb: "stays env A (init_hugetlb env)"
  unfolding stays_def
proof (intro allI impI)
  fix s x t assume o: "opened env A s" and r: "init_hugetlb env s = Returns (x, t)"
  obtain pa l d where i: "fsl_shm_init (seg_cc env) (seg_env env) (seg_sys env) (dsp_shared_size (het_sys_map (bt s))) True (seg_lib s) (seg_drv s) = (pa, l, d)"
    by (rule prod_cases3)
  let ?u = "s\<lparr>seg_lib := l, seg_drv := d, open_fds := open_fds s \<union> seg_fds env\<rparr>"
  have "keeps devices (bnd (kioctl env cmd) (\<lambda>(r, _). ret (g r)))" for cmd and g :: "int \<Rightarrow> int"
    by (intro step_rules devs.keeps_ioctl)
  then have "devices t = devices ?u" using r i by (auto simp: init_hugetlb_def Let_def keeps_def split: if_splits)
  moreover from seg_fds_held [OF i] have "opened env A ?u"
  proof (elim disjE conjE)
    assume "shm_init_done l" "seg_fds env = {seg_fd env}"
    then show ?thesis using o unfolding opened_def held_def by (simp add: insert_Diff_if split: if_splits)
  next
    assume "shm_init_done l = shm_init_done (seg_lib s)" "seg_fds env = {}"
    then show ?thesis using o unfolding opened_def held_def by simp
  qed
  ultimately show "opened env A t" by (simp add: opened_def devices_def held_def)
qed

lemma init_devices_opened:
  assumes "stays env (open_fds s) k" "fresh_fds env s" "init_devices env k (fresh_bt s) = Returns (r, t)"
  shows "opened env (open_fds s) t"
proof -
  let ?a = "dev_fd env Dev_het_mgr" and ?b = "dev_fd env Dev_mem" and ?c = "dev_fd env Dev_l1d" and ?A = "open_fds s"
  have n: "?a \<notin> ?A" "?b \<notin> ?A" "?c \<notin> ?A" "seg_fd env \<notin> {- 1, ?a, ?b, ?c}" "held env s = {}"
    using assms(2) by (auto simp: fresh_fds_def held_def)
  define u where "u = (fresh_bt s)\<lparr>open_fds := insert ?c (insert ?b (insert ?a ?A)),
      bt := (bt s)\<lparr>bt_het_mgr := ?a, bt_dev_mem := ?b, bt_fsl_l1d := ?c\<rparr>\<rparr>"
  have "opened env ?A u" using n by (auto simp: opened_def u_def held_def fresh_bt_def)
  moreover have "?a = - 1 \<and> devices t = (?A, - 1, - 1, - 1, seg_lib s) \<or> ?b = - 1 \<and> devices t = (insert ?a ?A, ?a, - 1, - 1, seg_lib s) \<or>
      ?c = - 1 \<and> devices t = (insert ?b (insert ?a ?A), ?a, ?b, - 1, seg_lib s) \<or> k u = Returns (r, t)"
    using assms(3) unfolding init_devices_def open_dev_def u_def
    by (auto simp: run_simps upd_def Let_def devices_def fresh_bt_def split: if_splits)
  moreover have "opened env ?A t" if "?c = - 1" "devices t = (insert ?b (insert ?a ?A), ?a, ?b, - 1, seg_lib s)"
    using that n by (simp add: devices_def opened_def held_def insert_Diff_if)
  moreover have "opened env ?A t" if "?b = - 1" "devices t = (insert ?a ?A, ?a, - 1, - 1, seg_lib s)"
    using that n by (simp add: devices_def opened_def held_def insert_Diff_if)
  moreover have "opened env ?A t" if "?a = - 1" "devices t = (?A, - 1, - 1, - 1, seg_lib s)"
    using that n by (simp add: devices_def opened_def held_def)
  ultimately show ?thesis using assms(1) unfolding stays_def by blast
qed

lemma cleanup_opened: "opened env A s \<Longrightarrow> open_fds (cleanup s) = A \<union> held env (cleanup s)"
proof -
  assume o: "opened env A s"
  have "open_fds (cleanup s) = open_fds s - known_fds s" by (auto simp: cleanup_def close_fd_def)
  moreover have "held env (cleanup s) = held env s" by (simp add: held_def cleanup_def close_fd_def)
  ultimately show ?thesis using o unfolding opened_def by simp
qed

lemma closing_opened:
  "closing m s = Returns (r, t) \<Longrightarrow> (\<And>x u. m s = Returns (x, u) \<Longrightarrow> opened env A u) \<Longrightarrow> open_fds t = A \<union> held env t"
  by (auto simp: closing_def run_simps upd_def cleanup_opened)

lemma pre_load_opened:
  assumes "fresh_fds env s" "pre_load_B4 env n (fresh_bt s) = Returns (r, t)"
  shows "opened env (open_fds s) t"
  using assms(2) unfolding pre_load_B4_def
  by (rule init_devices_opened [OF _ assms(1), rotated])
    (intro stays_nz stays_hugetlb stays_keeps step_rules devs.keeps_map_table devs.keeps_requests devs.keeps_power_steps)

lemma pre_Reload_opened:
  assumes "fresh_fds env s" "pre_Reload_B4 env has_ipc ci (fresh_bt s) = Returns (r, t)"
  shows "opened env (open_fds s) t"
proof -
  obtain x u where u: "prepare_reset env has_ipc ci (fresh_bt s) = Returns (x, u)" and
    t: "(if x \<noteq> 0 then ret x else thn (set_reset_modes_B4 env ci) (thn (if debug_print ci \<noteq> 0 then flush_cnpc env else ret ())
      (neg_fails (set_PIR_on_dspcore_B4 env ci) (neg_fails (l1d_hold_starcore_B4 env ci) (ret 0))))) u = Returns (r, t)"
    using assms(2) unfolding pre_Reload_B4_def bnd_run by blast
  have "opened env (open_fds s) u"
    using u unfolding prepare_reset_def
    by (rule init_devices_opened [OF _ assms(1), rotated])
      (intro stays_keeps step_rules devs.keeps_map_table devs.keeps_requests devs.keeps_power_steps devs.keeps_stop)
  moreover have k: "keeps devices (if x \<noteq> 0 then ret x else thn (set_reset_modes_B4 env ci) (thn (if debug_print ci \<noteq> 0 then flush_cnpc env else ret ())
      (neg_fails (set_PIR_on_dspcore_B4 env ci) (neg_fails (l1d_hold_starcore_B4 env ci) (ret 0)))))"
    by (intro step_rules devs.keeps_power_steps devs.keeps_core_steps)
  ultimately show ?thesis using opened_keeps [OF k t] by blast
qed

text \<open>The library closes the devices it knows, on every path of the first start, failures included, and on every path of
  the warm reset but one: when a watchpoint cannot be set it returns -1 at once and leaves them open. The device of the
  segment stays open once the segment is attached, which only the first start does.\<close>

lemma load_closes_devices:
  assumes "fresh_fds env s" "b4860_load_dsp_image env cores s = Returns (r, t)"
  shows "open_fds t = open_fds s \<union> held env t"
proof -
  obtain u where u: "u = fresh_bt s" "closing (neg_fails (pre_load_B4 env (dsp_cluster_count_f (last cores)))
      (neg_fails (load_images env (tl cores)) (start_cores env (hd cores)))) u = Returns (r, t)"
    using assms(2) by (auto simp: b4860_load_dsp_image_def run_simps upd_def)
  have k: "keeps devices (neg_fails (load_images env (tl cores)) (start_cores env (hd cores)))"
    by (intro step_rules devs.keeps_load_images devs.keeps_start)
  show ?thesis
  proof (rule closing_opened [OF u(2)])
    fix x v assume "neg_fails (pre_load_B4 env (dsp_cluster_count_f (last cores)))
      (neg_fails (load_images env (tl cores)) (start_cores env (hd cores))) u = Returns (x, v)"
    then show "opened env (open_fds s) v"
      using pre_load_opened [OF assms(1)] opened_keeps [OF k] unfolding neg_fails_run [of _ "neg_fails _ _"] u(1)
      by (auto split: if_splits)
  qed
qed

lemma restart_closes_devices:
  assumes "fresh_fds env s" "fsl_start_L1_defense env has_ipc ci s = Returns (r, t)" "r \<noteq> - 1 \<or> cfg_wpt ci \<noteq> 1"
  shows "open_fds t = open_fds s \<union> held env t"
proof -
  obtain x v where v: "l1d_fails (pre_Reload_B4 env has_ipc ci) (reload_and_release env ci) (fresh_bt s) = Returns (x, v)"
    and rest: "(if x \<noteq> 0 then closing (ret x) else bnd (if cfg_wpt ci = 1 then set_Hw_watchpoint env ci else ret 0) (\<lambda>r.
            if r < 0 then ret (- 1) else closing (watch_and_wait env ci))) v = Returns (r, t)" 
    using assms(2) by (auto simp: fsl_start_L1_defense_def run_simps upd_def)
  have k: "keeps devices (reload_and_release env ci)"
    unfolding reload_and_release_def Let_def
    by (intro devs.keeps_l1d_fails step_rules devs.keeps_power_steps devs.keeps_core_steps devs.keeps_reload)
  have o: "opened env (open_fds s) v"
    using v pre_Reload_opened [OF assms(1)] opened_keeps [OF k]
    by (auto simp: l1d_fails_def bnd_run ret_run split: if_splits)
  have w: "keeps devices (if cfg_wpt ci = 1 then set_Hw_watchpoint env ci else ret 0)"
    by (intro step_rules devs.keeps_watchpoint)
  show ?thesis
  proof (cases "x = 0")
    case True
    then obtain y u where "(if cfg_wpt ci = 1 then set_Hw_watchpoint env ci else ret 0) v = Returns (y, u)"
      "closing (watch_and_wait env ci) u = Returns (r, t)"
      using rest assms(3) by (auto simp: bnd_run ret_run split: if_splits)
    then show ?thesis using opened_keeps [OF w] opened_keeps [OF devs.keeps_wait] o closing_opened by metis
  next
    case False
    then have "closing (ret x) v = Returns (r, t)" using rest by simp
    then show ?thesis using o by (auto intro!: closing_opened simp: ret_run)
  qed
qed

text \<open>The warm reset does not touch the library's segment, and a first start that succeeds has attached it.\<close>

lemma segment_closing: "keeps seg_lib m \<Longrightarrow> keeps seg_lib (closing m)"
  unfolding closing_def by (intro step_rules) (simp_all add: cleanup_def close_fd_def)

lemma restart_keeps_segment: "keeps seg_lib (fsl_start_L1_defense env has_ipc ci)"
proof -
  have o: "keeps seg_lib (open_dev env d)" for d by (auto simp: keeps_def open_dev_def Let_def)
  have p: "keeps seg_lib (pre_Reload_B4 env has_ipc ci)"
    unfolding pre_Reload_B4_def prepare_reset_def init_devices_def
    by (intro step_rules o segv.keeps_map_table segv.keeps_requests segv.keeps_power_steps segv.keeps_core_steps segv.keeps_stop) simp_all
  have r: "keeps seg_lib (reload_and_release env ci)"
    unfolding reload_and_release_def Let_def
    by (intro segv.keeps_l1d_fails step_rules segv.keeps_power_steps segv.keeps_core_steps segv.keeps_reload)
  show ?thesis
    unfolding fsl_start_L1_defense_def
    by (intro step_rules segv.keeps_l1d_fails p r segment_closing segv.keeps_watchpoint segv.keeps_wait) (simp_all add: fresh_bt_def)
qed

lemma pre_load_attached:
  assumes "pre_load_B4 env n s = Returns (r, t)" "0 \<le> r"
  shows "shm_init_done (seg_lib t)"
proof -
  define late where "late = nz_fails (ipc_call env fsl_B4_ipc_init) (nz_fails (dsp_L2_cache_init_B4 env n) (ret 0))"
  obtain a b where b: "init_hugetlb env a = Returns (0, b)" "late b = Returns (r, t)"
    using assms unfolding pre_load_B4_def init_devices_def late_def [symmetric] by (auto simp: run_simps upd_def split: if_splits)
  have k: "keeps seg_lib late" "keeps seg_lib (bnd (kioctl env cmd) (\<lambda>(r, _). ret (g r)))" for cmd and g :: "int \<Rightarrow> int"
    unfolding late_def by (intro step_rules segv.keeps_requests segv.keeps_power_steps segv.keeps_ioctl)+
  obtain pa l d where i: "fsl_shm_init (seg_cc env) (seg_env env) (seg_sys env) (dsp_shared_size (het_sys_map (bt a))) True (seg_lib a) (seg_drv a) = (pa, l, d)"
    by (rule prod_cases3)
  then have "pa \<noteq> 0" "seg_lib b = l" using b(1) keepsD [OF k(2)] by (fastforce simp: init_hugetlb_def Let_def split: if_splits)+
  moreover have "shm_init_done l" if "pa \<noteq> 0" using i that by (auto simp: fsl_shm_init_def Let_def split: if_splits option.splits prod.splits)
  ultimately show ?thesis using keepsD [OF k(1) b(2)] by simp
qed

text \<open>So a first start that succeeds leaves the device of the segment open.\<close>

lemma start_leaves_segment_open:
  assumes "fresh_fds env s" "b4860_load_dsp_image env cores s = Returns (0, t)"
  shows "open_fds t = insert (seg_fd env) (open_fds s)"
proof -
  obtain x u w where u: "pre_load_B4 env (dsp_cluster_count_f (last cores)) (fresh_bt s) = Returns (x, u)" "0 \<le> x"
      "neg_fails (load_images env (tl cores)) (start_cores env (hd cores)) u = Returns (0, w)" "t = cleanup w"
    using assms(2)
    by (auto simp: b4860_load_dsp_image_def closing_def thn_run bnd_run neg_fails_run [of "pre_load_B4 _ _"] ret_run upd_def split: if_splits)
  have k: "keeps seg_lib (neg_fails (load_images env (tl cores)) (start_cores env (hd cores)))"
    by (intro step_rules segv.keeps_load_images segv.keeps_start)
  have "seg_lib t = seg_lib u" using keepsD [OF k u(3)] u(4) by (simp add: cleanup_def close_fd_def)
  then show ?thesis using load_closes_devices [OF assms] pre_load_attached [OF u(1,2)] by (simp add: held_def)
qed

section \<open>Accesses\<close>

text \<open>Everything a program does to the machine satisfies \<open>P\<close>.\<close>

definition adds :: "(boot_access \<Rightarrow> bool) \<Rightarrow> 'a prog \<Rightarrow> bool" where
  "adds P m \<longleftrightarrow> (\<forall>s x t. m s = Returns (x, t) \<longrightarrow> (\<exists>xs. accesses t = accesses s @ xs \<and> list_all P xs))"

definition own :: "boot_access \<Rightarrow> bool" where
  "own e \<longleftrightarrow> (case e of Wrote a v \<Rightarrow> True | _ \<Rightarrow> False)"

definition from_image :: "boot_access \<Rightarrow> bool" where
  "from_image e \<longleftrightarrow> \<not> own e"

lemma addsD: "adds P m \<Longrightarrow> m s = Returns (x, t) \<Longrightarrow> \<exists>xs. accesses t = accesses s @ xs \<and> list_all P xs"
  unfolding adds_def by blast

lemma adds_silent: "keeps accesses m \<Longrightarrow> adds P m"
  by (fastforce simp: keeps_def adds_def)

lemma adds_bnd:
  assumes "adds P m" "\<And>x. adds P (k x)"
  shows "adds P (bnd m k)"
  unfolding adds_def
proof (intro allI impI)
  fix s y t assume "bnd m k s = Returns (y, t)"
  then obtain x u where "m s = Returns (x, u)" "k x u = Returns (y, t)" by (auto simp: bnd_run)
  then obtain xs ys where "accesses u = accesses s @ xs" "list_all P xs" "accesses t = accesses u @ ys" "list_all P ys"
    using addsD [OF assms(1)] addsD [OF assms(2)] by blast
  then show "\<exists>xs. accesses t = accesses s @ xs \<and> list_all P xs" by (intro exI [of _ "xs @ ys"]) simp
qed

lemma adds_basic: "adds P (ret x)" "adds P (asks g)" "(\<And>s. accesses (h s) = accesses s) \<Longrightarrow> adds P (upd h)" "adds P (rd32 env m off)"
  by (intro adds_silent; auto simp: keeps_def ret_def asks_def upd_def rd32_def settle_def Let_def)+

lemma adds_write: "adds own (wr32 env m off v)"
  by (auto simp: adds_def wr32_def put_reg_def settle_def own_def)

lemma adds_poll: "adds P (poll env m off Q)"
  using poll_loop_keeps(3) by (intro adds_silent) (auto simp: keeps_def poll_def split: if_splits option.splits)

lemma adds_combine:
  "adds P m \<Longrightarrow> adds P k \<Longrightarrow> adds P (thn m k)" "adds P n \<Longrightarrow> adds P k' \<Longrightarrow> adds P (neg_fails n k')"
  "adds P n \<Longrightarrow> adds P k' \<Longrightarrow> adds P (nz_fails n k')" "adds P m' \<Longrightarrow> adds P (zeroed m')"
  unfolding thn_def neg_fails_def nz_fails_def zeroed_def by (auto intro!: adds_bnd adds_basic)

lemma adds_if: "(b \<Longrightarrow> adds P m) \<Longrightarrow> (\<not> b \<Longrightarrow> adds P k) \<Longrightarrow> adds P (if b then m else k)"
  by simp

lemma adds_map: "(\<And>m. adds P (k m)) \<Longrightarrow> adds P (with_map p k)"
  by (simp add: with_map_def adds_basic split: option.splits)

lemma adds_ccsr: "(\<And>m. adds P (k m)) \<Longrightarrow> adds P (ccsr_do env k)"
  using adds_map [of P k] unfolding adds_def ccsr_do_def Let_def by blast

lemma adds_prod: "(\<And>a b. adds P (k a b)) \<Longrightarrow> adds P (case p of (a, b) \<Rightarrow> k a b)"
  by (cases p) simp

lemmas adds_rules = adds_bnd adds_basic adds_write adds_poll adds_combine adds_if adds_map adds_ccsr adds_prod

lemma adds_ioctl: "adds P (kioctl env cmd)"
  by (intro adds_silent) (auto simp: keeps_def kioctl_def split: sum.splits prod.splits)

lemma adds_requests: "adds P (set_sh_ctrl_pa_init env)" "adds P (get_sys_map env)" "adds P assign_memory_areas" "adds P (init_hugetlb env)"
  "adds P (ipc_call env g)"
proof -
  show "adds P (set_sh_ctrl_pa_init env)" unfolding set_sh_ctrl_pa_init_def by (intro adds_rules adds_ioctl)
  show "adds P (get_sys_map env)" unfolding get_sys_map_def by (intro adds_rules adds_ioctl) (simp split: het_out.split)
  show "adds P assign_memory_areas" by (intro adds_silent) (auto simp: keeps_def assign_memory_areas_def Let_def)
  have "keeps accesses (kioctl env cmd)" for cmd by (auto simp: keeps_def kioctl_def split: sum.splits prod.splits)
  then have k: "keeps accesses (bnd (kioctl env cmd) (\<lambda>(r, _). ret (g r)))" for cmd and g :: "int \<Rightarrow> int"
    by (intro step_rules)
  then show "adds P (init_hugetlb env)"
    by (intro adds_silent) (auto simp: keeps_def init_hugetlb_def Let_def split: prod.splits if_splits)
  have "adds P (\<lambda>s. case h_ctrl (kern s) of None \<Rightarrow> Faults | Some c \<Rightarrow> (case g (e s) (h c s) of (r, st) \<Rightarrow> Returns (r, s\<lparr>ipcs := st\<rparr>)))" for e h
    by (intro adds_silent) (auto simp: keeps_def split: option.splits prod.splits)
  then show "adds P (ipc_call env g)"
    unfolding ipc_call_def Let_def by (intro adds_rules adds_ioctl)
qed

lemma pre_load_adds: "adds own (pre_load_B4 env n)"
proof -
  have l: "adds own (l2_init_loop env m n i)" for m n i
    by (induction n arbitrary: i) (auto simp: Let_def or32_def intro!: adds_rules)
  have o: "adds own (open_dev env d)" for d by (intro adds_silent) (auto simp: keeps_def open_dev_def Let_def)
  show ?thesis
    unfolding pre_load_B4_def init_devices_def dsp_L2_cache_init_B4_def by (intro adds_rules adds_requests l o) simp_all
qed

lemma load_adds: "adds from_image (load_dsp_image env fname)"
proof -
  have one: "\<exists>xs. accesses t = accesses s @ xs \<and> list_all from_image xs" if "image_step_rel env s t" for s t
    using that by cases (auto simp: put_reg_def settle_def store_bytes_def from_image_def own_def)
  have "\<exists>xs. accesses t = accesses s @ xs \<and> list_all from_image xs" if "(image_step_rel env)\<^sup>*\<^sup>* s t" for s t
    using that
  proof (induction rule: rtranclp_induct)
    case (step u t)
    then obtain xs ys where "accesses u = accesses s @ xs" "list_all from_image xs" "accesses t = accesses u @ ys" "list_all from_image ys"
      using one by blast
    then show ?case by (intro exI [of _ "xs @ ys"]) simp
  qed auto
  then show ?thesis using load_steps unfolding adds_def by blast
qed

text \<open>The cores a list of images is for, as bits of the release register.\<close>

fun core_bits :: "bt_core list \<Rightarrow> u32" where
  "core_bits [] = 0"
| "core_bits (c # cs) = push_bit (unat (word_of_int (ci_core_id c) + 4 :: u32)) 1 OR core_bits cs"

lemma load_images_effect:
  "load_images env cs s = Returns (r, t) \<Longrightarrow>
     (\<exists>xs. accesses t = accesses s @ xs \<and> list_all from_image xs) \<and> (r = 0 \<longrightarrow> DCFG_BRR_mask t = DCFG_BRR_mask s OR core_bits cs) \<and> r \<in> {0, - 1}"
proof (induction cs arbitrary: s)
  case Nil
  then show ?case by (simp add: ret_def)
next
  case (Cons c cs)
  let ?u = "s\<lparr>bt := (bt s)\<lparr>bt_core_id := word_of_int (ci_core_id c)\<rparr>\<rparr>" and ?b = "push_bit (unat (word_of_int (ci_core_id c) + 4 :: u32)) 1"
  obtain x u where u: "load_B4 env (ci_image c) ?u = Returns (x, u)" "if x < 0 then r = - 1 \<and> t = u else load_images env cs u = Returns (r, t)"
    using Cons.prems by (auto simp: run_simps set_core_id_def upd_def split: if_splits)
  have a: "adds from_image (load_B4 env (ci_image c))"
    unfolding load_B4_def by (intro adds_rules load_adds adds_requests) simp
  obtain xs where xs: "accesses u = accesses s @ xs" "list_all from_image xs" using addsD [OF a u(1)] by auto
  have m: "DCFG_BRR_mask u = DCFG_BRR_mask s OR ?b" if "\<not> x < 0"
    using u(1) that keepsD [OF maskv.keeps_load] keepsD [OF maskv.keeps_requests(1)]
    by (auto simp: load_B4_def run_simps asks_def zeroed_def upd_def split: if_splits)
  show ?case
  proof (cases "x < 0")
    case True
    then show ?thesis using u(2) xs by auto
  next
    case False
    then obtain ys where "accesses t = accesses u @ ys" "list_all from_image ys" "r = 0 \<longrightarrow> DCFG_BRR_mask t = DCFG_BRR_mask u OR core_bits cs" "r \<in> {0, - 1}"
      using Cons.IH [of u] u(2) by auto
    then show ?thesis using xs m [OF False] by (intro conjI exI [of _ "xs @ ys"]) (auto simp: or.assoc)
  qed
qed

definition release_writes :: "u64 \<Rightarrow> u64 \<Rightarrow> u32 \<Rightarrow> u32 \<Rightarrow> boot_access list" where
  "release_writes c v trg brr =
     [Wrote (c + 0x20) (ucast (drop_bit 32 v AND 0xF)), Wrote (c + 0x24) (ucast v), Wrote (c + 0x28) (0x8000000C OR push_bit 20 trg),
      Wrote (c + 0x8F012C) 0x3F0, Wrote (c + 0x8F014C) 0x3F00, Wrote (c + 0xE00E4) brr]"

text \<open>What the release register holds when it is read, after the first five of these writes from a state.\<close>

definition brr_read :: "boot_env \<Rightarrow> u64 \<Rightarrow> u64 \<Rightarrow> u32 \<Rightarrow> boot \<Rightarrow> u32" where
  "brr_read env c v trg s =
     regs (settle env (fold (\<lambda>(a, x). put_reg env a x Wrote)
       [(c + 0x20, ucast (drop_bit 32 v AND 0xF)), (c + 0x24, ucast v), (c + 0x28, 0x8000000C OR push_bit 20 trg), (c + 0x8F012C, 0x3F0),
        (c + 0x8F014C, 0x3F00)] s)) (c + 0xE00E4)"

lemma brr_read_bt: "brr_read env c v trg (s\<lparr>bt := b\<rparr>) = brr_read env c v trg s"
  by (simp add: brr_read_def put_reg_def settle_def)

lemma release_trace:
  assumes "release_starcore_B4 env s = Returns (r, t)"
  shows "r = - 1 \<and> t = s \<or> r = 0 \<and> accesses t = accesses s @
    release_writes (strt_phys (m_pa_ccsrbar (het_sys_map (bt s)))) (intvec_addr (bt s)) (bt_trg_id (bt s))
      (brr_read env (strt_phys (m_pa_ccsrbar (het_sys_map (bt s)))) (intvec_addr (bt s)) (bt_trg_id (bt s)) s OR DCFG_BRR_mask s)"
proof -
  let ?a = "m_pa_ccsrbar (het_sys_map (bt s))"
  show ?thesis
  proof (cases "map_area64 env (strt_phys ?a) (ucast (strt_size ?a)) s")
    case None
    then show ?thesis using assms by (simp add: release_starcore_B4_def ccsr_do_def with_map_def ret_def)
  next
    case (Some m)
    then have p: "mp_phys m = strt_phys ?a" by (auto simp: map_area64_def map_area_def Let_def split: if_splits)
    show ?thesis
      using assms Some p
      by (auto simp: release_starcore_B4_def ccsr_do_def with_map_def zeroed_def thn_run ret_run or32_def bnd_run wr32_def rd32_def
          put_reg_def settle_def Let_def release_writes_def brr_read_def split: if_splits)
  qed
qed

lemma pre_load_mask: "keeps DCFG_BRR_mask (pre_load_B4 env n)"
proof -
  have "keeps DCFG_BRR_mask (open_dev env d)" for d by (auto simp: keeps_def open_dev_def Let_def)
  moreover have "keeps DCFG_BRR_mask assign_memory_areas" by (auto simp: keeps_def assign_memory_areas_def Let_def split: if_splits)
  moreover have "keeps DCFG_BRR_mask (get_sys_map env)"
    unfolding get_sys_map_def by (intro step_rules maskv.keeps_ioctl) (simp split: het_out.split)
  ultimately show ?thesis
    unfolding pre_load_B4_def init_devices_def by (intro step_rules masks.keeps_hugetlb maskv.keeps_requests maskv.keeps_power_steps) simp_all
qed

abbreviation "ccsr_base s \<equiv> strt_phys (m_pa_ccsrbar (het_sys_map (bt s)))"

lemma start_trace:
  assumes "start_cores env c0 s = Returns (r, t)"
  shows "r = - 1 \<and> accesses t = accesses s \<or> r \<in> {0, - 1} \<and> (\<exists>post. list_all own post \<and> accesses t = accesses s @
    release_writes (ccsr_base t) (intvec_addr (bt t)) (ci_trg_id c0)
      (brr_read env (ccsr_base t) (intvec_addr (bt t)) (ci_trg_id c0) s OR DCFG_BRR_mask s) @ post)"
proof -
  let ?s = "s\<lparr>bt := (bt s)\<lparr>bt_trg_id := ci_trg_id c0\<rparr>\<rparr>"
  obtain x u where u: "release_starcore_B4 env ?s = Returns (x, u)" and rest: "if x \<noteq> 0 then r = - 1 \<and> t = u
      else neg_fails (post_load_B4 env) (ret 0) (u\<lparr>DCFG_BRR_mask := 0, bt := (bt u)\<lparr>semaphore_num := word_of_int (ci_core_id c0)\<rparr>\<rparr>) = Returns (r, t)"
    using assms by (auto simp: start_cores_def thn_run nz_fails_run upd_def split: if_splits)
  note tr = release_trace [OF u]
  show ?thesis
  proof (cases "x = 0")
    case False
    then show ?thesis using rest tr by auto
  next
    case True
    have bu: "bt u = bt ?s" using keepsD [OF btv.keeps_state_steps(1) u] .
    obtain y where p: "check_dsp_boot_B4 env (u\<lparr>DCFG_BRR_mask := 0, bt := (bt u)\<lparr>semaphore_num := word_of_int (ci_core_id c0)\<rparr>\<rparr>) = Returns (y, t)"
      and r: "r \<in> {0, - 1}" using rest True by (auto simp: neg_fails_run ret_run post_load_B4_def split: if_splits)
    have "adds own (check_dsp_boot_B4 env)"
    proof -
      have "adds own (with_map q (\<lambda>m. if b then bnd (poll env m off Q) (\<lambda>v. if v = 0xFE then zeroed (wr32 env m off 0) else ret 0) else ret 0))" for q b off Q
        by (intro adds_rules)
      then show ?thesis unfolding adds_def check_dsp_boot_B4_def Let_def by blast
    qed
    from addsD [OF this p] obtain post where post: "accesses t = accesses u @ post" "list_all own post" by auto
    have bt: "bt t = (bt u)\<lparr>semaphore_num := word_of_int (ci_core_id c0)\<rparr>" using keepsD [OF btv.keeps_state_steps(2) p] by simp
    have "accesses u = accesses s @ release_writes (ccsr_base t) (intvec_addr (bt t)) (ci_trg_id c0)
        (brr_read env (ccsr_base t) (intvec_addr (bt t)) (ci_trg_id c0) s OR DCFG_BRR_mask s)"
      using tr True bt bu by (auto simp: brr_read_bt)
    then show ?thesis using r post by auto
  qed
qed

text \<open>C10: The cores are released last. Whatever happens during a first start, the accesses of the library come in four
  groups: its own while preparing the chip, those of the images, the six writes of the release, its own while waiting for
  the DSP. Without the release the result is -1. The release happens only after all images were loaded, starts the cores at the vector
  address of the images, and writes to the release register the value read from it at that point, together with exactly the
  bits of the cores whose images were loaded, and those an earlier start of the same process left in the library's mask.\<close>

theorem dsp_release_last:
  assumes "b4860_load_dsp_image env cores s = Returns (r, t)"
  shows "\<exists>pre img rel post. accesses t = accesses s @ pre @ img @ rel @ post \<and>
    list_all own pre \<and> list_all from_image img \<and> list_all own post \<and>
    (rel = [] \<and> post = [] \<and> r = - 1 \<or> r \<in> {0, - 1} \<and>
     (\<exists>x u v. pre_load_B4 env (dsp_cluster_count_f (last cores)) (fresh_bt s) = Returns (x, u) \<and> 0 \<le> x \<and>
        load_images env (tl cores) u = Returns (0, v) \<and> accesses v = accesses s @ pre @ img \<and>
        rel = release_writes (ccsr_base t) (intvec_addr (bt t)) (ci_trg_id (hd cores))
          (brr_read env (ccsr_base t) (intvec_addr (bt t)) (ci_trg_id (hd cores)) v OR DCFG_BRR_mask s OR core_bits (tl cores))))"
proof -
  obtain x u w where u: "pre_load_B4 env (dsp_cluster_count_f (last cores)) (fresh_bt s) = Returns (x, u)"
    and t: "t = cleanup w" and rest: "if x < 0 then r = - 1 \<and> w = u
      else neg_fails (load_images env (tl cores)) (start_cores env (hd cores)) u = Returns (r, w)"
    using assms by (auto simp: b4860_load_dsp_image_def closing_def thn_run bnd_run neg_fails_run [of "pre_load_B4 _ _"] ret_run upd_def split: if_splits)
  have ac: "accesses t = accesses w" "bt t = bt w" by (simp_all add: t cleanup_def close_fd_def)
  obtain pre where pre: "accesses u = accesses s @ pre" "list_all own pre" using addsD [OF pre_load_adds u] by (auto simp: fresh_bt_def)
  have m: "DCFG_BRR_mask u = DCFG_BRR_mask s" using keepsD [OF pre_load_mask u] by (simp add: fresh_bt_def)
  show ?thesis
  proof (cases "x < 0")
    case True
    then show ?thesis using rest pre ac by (intro exI [of _ pre] exI [of _ "[]"]) simp
  next
    case False
    then obtain y v where v: "load_images env (tl cores) u = Returns (y, v)" "if y < 0 then r = - 1 \<and> w = v else start_cores env (hd cores) v = Returns (r, w)"
      using rest by (auto simp: neg_fails_run split: if_splits)
    obtain img where img: "accesses v = accesses u @ img" "list_all from_image img"
      and mv: "y = 0 \<longrightarrow> DCFG_BRR_mask v = DCFG_BRR_mask u OR core_bits (tl cores)" "y \<in> {0, - 1}"
      using load_images_effect [OF v(1)] by auto
    show ?thesis
    proof (cases "y < 0")
      case True
      then show ?thesis using v(2) pre img ac by (intro exI [of _ pre] exI [of _ img] exI [of _ "[]"]) simp
    next
      case False
      then have s: "start_cores env (hd cores) v = Returns (r, w)" and mk: "DCFG_BRR_mask v = DCFG_BRR_mask s OR core_bits (tl cores)"
        using v(2) mv m by auto
      from start_trace [OF s] show ?thesis
      proof (elim disjE conjE exE)
        assume "r = - 1" "accesses w = accesses v"
        then show ?thesis using pre img ac by (intro exI [of _ pre] exI [of _ img] exI [of _ "[]"]) simp
      next
        let ?rel = "release_writes (ccsr_base w) (intvec_addr (bt w)) (ci_trg_id (hd cores))
          (brr_read env (ccsr_base w) (intvec_addr (bt w)) (ci_trg_id (hd cores)) v OR DCFG_BRR_mask v)"
        fix post assume "r \<in> {0, - 1}" "list_all own post" "accesses w = accesses v @ ?rel @ post"
        moreover have "0 \<le> x" "load_images env (tl cores) u = Returns (0, v)" using \<open>\<not> x < 0\<close> \<open>\<not> y < 0\<close> v(1) mv(2) by auto
        ultimately show ?thesis using pre img ac mk u
          by (intro exI [of _ pre] exI [of _ img] exI [of _ ?rel] exI [of _ post]) (auto simp: or.assoc)
      qed
    qed
  qed
qed

section \<open>Memory\<close>

lemma pre_load_memory:
  assumes "pre_load_B4 env n (fresh_bt s) = Returns (r, u)" "r = 0"
  shows "het_sys_map (bt u) = h_sys_map (kern s)" "map_d (bt u) = area_table (h_sys_map (kern s))"
    "dram u = dram s" "intvec_addr (bt u) = intvec_addr (bt s)"
proof -
  define late where "late = nz_fails (init_hugetlb env) (nz_fails (ipc_call env fsl_B4_ipc_init) (nz_fails (dsp_L2_cache_init_B4 env n) (ret 0)))"
  have k: "keeps bt late" "keeps dram late"
    unfolding late_def
    by (intro step_rules btv.keeps_hugetlb btv.keeps_requests btv.keeps_power_steps dramv.keeps_hugetlb dramv.keeps_requests dramv.keeps_power_steps)+
  obtain v where v: "late v = Returns (r, u)" "het_sys_map (bt v) = h_sys_map (kern s)" "map_d (bt v) = area_table (h_sys_map (kern s))"
    "dram v = dram s" "intvec_addr (bt v) = intvec_addr (bt s)"
    using assms unfolding pre_load_B4_def late_def [symmetric]
    by (auto simp: init_devices_def open_dev_def fresh_bt_def get_sys_map_def kioctl_def het_mgr_ioctl_def het_copy_def assign_memory_areas_def
        thn_run bnd_run ret_run nz_fails_run upd_def Let_def split: if_splits)
  show "het_sys_map (bt u) = h_sys_map (kern s)" "map_d (bt u) = area_table (h_sys_map (kern s))"
    "dram u = dram s" "intvec_addr (bt u) = intvec_addr (bt s)"
    using v(2-) keepsD [OF k(1) v(1)] keepsD [OF k(2) v(1)] by simp_all
qed

lemma load_images_memory:
  assumes "load_images env cs s = Returns (0, t)"
    "\<forall>c \<in> set cs. \<exists>e. image_file env (ci_image c) = Some (image_bytes e (secs c)) \<and> (\<forall>x \<in> set (secs c). section_ok env s x)"
  shows "(dram t, intvec_addr (bt t)) = fold put_section (concat (map secs cs)) (dram s, intvec_addr (bt s))"
  using assms
proof (induction cs arbitrary: s)
  case Nil
  then show ?case by (simp add: ret_def)
next
  case (Cons c cs)
  let ?u = "s\<lparr>bt := (bt s)\<lparr>bt_core_id := word_of_int (ci_core_id c)\<rparr>\<rparr>" and ?f = "fold (apply_section env) (secs c)"
  obtain e where e: "image_file env (ci_image c) = Some (image_bytes e (secs c))" "\<forall>x \<in> set (secs c). section_ok env s x"
    using Cons.prems(2) by auto
  have "\<forall>x \<in> set (secs c). section_ok env ?u x" using e(2) section_ok_cong [of ?u s] by auto
  then have l: "load_dsp_image env (ci_image c) ?u = Returns (0, ?f ?u)" by (rule load_image_run [where frag = "[]" and endian = e, OF e(1)]) simp_all
  obtain v where v: "load_images env cs v = Returns (0, t)" "dram v = dram (?f ?u)" "bt v = bt (?f ?u)"
    using Cons.prems(1) l keepsD [OF btv.keeps_requests(1)] keepsD [OF dramv.keeps_requests(1)]
    by (fastforce simp: load_B4_def set_core_id_def upd_def asks_def zeroed_def thn_run bnd_run ret_run neg_fails_run nz_fails_run split: if_splits)
  have "\<forall>x \<in> set (secs c'). section_ok env v x" if "c' \<in> set cs" for c'
    using Cons.prems(2) that section_ok_cong [of v s] apply_sections_table [of env "secs c" ?u] v(3) by fastforce
  then have "(dram t, intvec_addr (bt t)) = fold put_section (concat (map secs cs)) (dram v, intvec_addr (bt v))"
    using Cons.IH [OF v(1)] Cons.prems(2) by auto
  also have "(dram v, intvec_addr (bt v)) = fold put_section (secs c) (dram s, intvec_addr (bt s))"
    using apply_sections_memory [of env "secs c" ?u] v(2,3) by simp
  finally show ?case by simp
qed

lemma start_memory:
  assumes "start_cores env c0 s = Returns (r, t)"
  shows "dram t = dram s" "intvec_addr (bt t) = intvec_addr (bt s)"
proof -
  have "keeps dram (start_cores env c0)"
    unfolding start_cores_def post_load_B4_def by (intro step_rules dramv.keeps_state_steps) simp_all
  then show "dram t = dram s" using assms by (rule keepsD)
  have "keeps (\<lambda>s. intvec_addr (bt s)) (start_cores env c0)"
    unfolding start_cores_def post_load_B4_def by (intro step_rules ivv.keeps_state_steps) simp_all
  from keepsD [OF this assms] show "intvec_addr (bt t) = intvec_addr (bt s)" .
qed

text \<open>The memory after a successful start.\<close>

lemma load_memory:
  assumes "b4860_load_dsp_image env cores s = Returns (0, t)"
    "u = s\<lparr>bt := (bt s)\<lparr>het_sys_map := h_sys_map (kern s), map_d := area_table (h_sys_map (kern s))\<rparr>\<rparr>"
    "\<forall>c \<in> set (tl cores). \<exists>e. image_file env (ci_image c) = Some (image_bytes e (secs c)) \<and> (\<forall>x \<in> set (secs c). section_ok env u x)"
  shows "(dram t, intvec_addr (bt t)) = fold put_section (concat (map secs (tl cores))) (dram s, intvec_addr (bt s))"
proof -
  obtain x a y b w where a: "pre_load_B4 env (dsp_cluster_count_f (last cores)) (fresh_bt s) = Returns (x, a)" "0 \<le> x"
    and b: "load_images env (tl cores) a = Returns (y, b)" "0 \<le> y"
    and w: "start_cores env (hd cores) b = Returns (0, w)" and t: "t = cleanup w"
    using assms(1) by (auto simp: b4860_load_dsp_image_def closing_def thn_run bnd_run neg_fails_run ret_run upd_def split: if_splits)
  have x0: "x = 0" using a by (auto simp: pre_load_B4_def init_devices_def thn_run bnd_run nz_fails_run ret_run split: if_splits)
  have y0: "y = 0" using load_images_effect [OF b(1)] b(2) by auto
  note A = pre_load_memory [OF a(1) x0]
  have "section_ok env a x = section_ok env u x" for x by (rule section_ok_cong) (simp_all add: A assms(2))
  then have "(dram b, intvec_addr (bt b)) = fold put_section (concat (map secs (tl cores))) (dram a, intvec_addr (bt a))"
    using load_images_memory [OF b(1) [unfolded y0]] assms(3) by simp
  moreover have "dram t = dram w" "bt t = bt w" by (simp_all add: t cleanup_def close_fd_def)
  ultimately show ?thesis using start_memory [OF w] A(3,4) by simp
qed

section \<open>Waiting for the DSP\<close>

text \<open>With a hardware semaphore configured the start waits for it without a limit: it ends, with success, as soon as the
  semaphore register shows any value but zero, and it never ends if it does not.\<close>

lemma boot_waits_for_semaphore:
  assumes "a = m_dsp_ccsrbar (het_sys_map (bt s))" "map_area64 env (strt_phys a) (ucast (strt_size a)) s = Some m"
    "1 \<le> semaphore_num (bt s)" "semaphore_num (bt s) \<le> 7" "off = 4 * (0x23C840 + 2 * unat (semaphore_num (bt s)))" "reachable m off 4"
  shows "if \<exists>k. regs ((settle env ^^ Suc k) s) (strt_phys a + of_nat off) \<noteq> 0
    then \<exists>t. check_dsp_boot_B4 env s = Returns (0, t) else check_dsp_boot_B4 env s = Hangs"
proof -
  have p: "mp_phys m = strt_phys a" using assms(2) by (auto simp: map_area64_def map_area_def Let_def split: if_splits)
  have run: "check_dsp_boot_B4 env s =
      bnd (poll env m off (\<lambda>v. v \<noteq> 0)) (\<lambda>v. if v = 0xFE then zeroed (wr32 env m off 0) else ret 0) s"
    using assms by (simp add: check_dsp_boot_B4_def with_map_def Let_def cong: if_cong)
  have w: "\<exists>t. zeroed (wr32 env m off 0) u = Returns (0, t)" for u
    using assms(6) by (simp add: zeroed_def thn_def bnd_def wr32_def ret_def)
  show ?thesis
  proof (cases "\<exists>k. regs ((settle env ^^ Suc k) s) (strt_phys a + of_nat off) \<noteq> 0")
    case True
    then obtain x t where "poll_loop env (strt_phys a + of_nat off) (\<lambda>v. v \<noteq> 0) s = Some (x, t)"
      using poll_returns [where P = "\<lambda>v. v \<noteq> 0" and env = env and s = s] by fastforce
    then have "check_dsp_boot_B4 env s = (if x = 0xFE then zeroed (wr32 env m off 0) t else ret 0 t)"
      unfolding run using assms(6) p by (simp add: bnd_def poll_def)
    then show ?thesis using True w [of t] by (auto simp: ret_def)
  next
    case False
    then have "poll_loop env (strt_phys a + of_nat off) (\<lambda>v. v \<noteq> 0) s = None" by (intro poll_hangs) blast
    then have "check_dsp_boot_B4 env s = Hangs" unfolding run using assms(6) p by (simp add: bnd_def poll_def)
    then show ?thesis using False by simp
  qed
qed

section \<open>Order of a warm reset\<close>

lemma adds_l1d: "(\<And>m off. adds P (k m off)) \<Longrightarrow> adds P (l1d_do env k)"
  unfolding adds_def l1d_do_def by (fastforce split: option.splits)

lemma adds_model: "(\<And>b m. adds P (k b m)) \<Longrightarrow> adds P (with_model env k)"
  by (auto simp: with_model_def split: option.split intro!: adds_rules)

lemma adds_update: "adds own (or32 env m off v)" "adds own (and32 env m off v)" "adds own (poll_max env m off Q n)"
proof -
  show "adds own (or32 env m off v)" "adds own (and32 env m off v)" unfolding or32_def and32_def by (intro adds_rules)+
  show "adds own (poll_max env m off Q n)" by (induction n) (auto intro!: adds_rules)
qed

lemmas own_rules = adds_rules adds_update adds_l1d adds_model adds_ioctl adds_requests

lemma adds_state:
  assumes "\<And>s. adds P (m s)"
  shows "adds P (\<lambda>s. m s s)"
  unfolding adds_def
proof (intro allI impI)
  fix s x t assume r: "m s s = Returns (x, t)"
  from addsD [OF assms r] show "\<exists>xs. accesses t = accesses s @ xs \<and> list_all P xs" .
qed

lemma own_power_steps:
  "adds own (dsp_L2_cache_invalidate_B4 env ci)" "adds own (set_PH15_on_dspcore_B4 env ci)" "adds own (set_PIR_on_dspcore_B4 env ci)"
  "adds own (Reset_PIR_PH15_on_dspcore_B4 env ci)" "adds own (flush_cnpc env)" "adds own (set_reset_modes_B4 env ci)"
  "adds own (set_safe_addr_DTU_B4 env ci i)" "adds own (reset_status env i)"
  unfolding dsp_L2_cache_invalidate_B4_def l2_flash_invalidate_def set_PH15_on_dspcore_B4_def set_PIR_on_dspcore_B4_def set_PIR_mask_def
    Reset_PIR_PH15_on_dspcore_B4_def reset_PIR_PH15_def flush_cnpc_def set_reset_modes_B4_def set_safe_addr_DTU_B4_def reset_status_def Let_def
  by (intro own_rules)+

lemma own_state_steps: "adds own (check_vnmi_ack_B4 env)" "adds own (set_soc_strobe_B4 env ci)" "adds own (send_vnmi_func env)"
  "adds own (check_dsp_boot_B4 env)"
proof -
  show "adds own (check_vnmi_ack_B4 env)" unfolding check_vnmi_ack_B4_def by (rule adds_state) (intro own_rules own_power_steps)
  show "adds own (set_soc_strobe_B4 env ci)" unfolding set_soc_strobe_B4_def by (rule adds_state) (intro own_rules)
  show "adds own (send_vnmi_func env)" unfolding send_vnmi_func_def Let_def by (rule adds_state) (intro own_rules, simp)
  show "adds own (check_dsp_boot_B4 env)" unfolding check_dsp_boot_B4_def Let_def by (rule adds_state) (intro own_rules)
qed

lemma own_stop: "adds own (stop_all env ci)"
proof -
  have c: "adds own (set_core_id j)" for j unfolding set_core_id_def by (intro own_rules) simp
  have "adds own (stop_cores env ci js flag)" for js flag
    by (induction js arbitrary: flag) (auto intro!: own_rules c own_state_steps own_power_steps)
  moreover have "adds own (check_acks env ci js)" for js
    by (induction js) (auto intro!: own_rules c own_state_steps)
  ultimately show ?thesis unfolding stop_all_def by (intro own_rules own_state_steps)
qed

lemma own_after_release:
  "adds own (check_dsp_ready_CRSTSR_B4 env ci)" "adds own (set_Hw_watchpoint env ci)" "adds own (watch_and_wait env ci)"
proof -
  have "keeps accesses (crst_wait env m off j)" for m off j
  proof -
    have "crst_wait env m off j s = Returns (x, t) \<Longrightarrow> accesses t = accesses s" for s x t
    proof (induction env m off j s rule: crst_wait.induct)
      case (1 env m off j s)
      then show ?case
        by (subst (asm) crst_wait.simps) (fastforce simp: rd32_def settle_def Let_def split: if_splits run.splits prod.splits)
    qed
    then show ?thesis by (auto simp: keeps_def)
  qed
  then have w: "adds own (crst_wait env m off j)" for m off j by (rule adds_silent)
  have "adds own (crst_loop env m cs is j)" for m cs "is" j
    by (induction "is" arbitrary: j) (auto intro!: own_rules w)
  then show "adds own (check_dsp_ready_CRSTSR_B4 env ci)" unfolding check_dsp_ready_CRSTSR_B4_def by (intro own_rules)
  have "adds own (set_Hw_watchpoint_loop env cs is)" for cs "is"
    by (induction "is") (auto simp: Let_def intro!: own_rules)
  then show "adds own (set_Hw_watchpoint env ci)" by (simp add: set_Hw_watchpoint_def)
  have "adds own (final_status env cs is r)" for cs "is" r
    by (induction "is" arbitrary: r) (auto intro!: own_rules own_power_steps)
  then show "adds own (watch_and_wait env ci)"
    unfolding watch_and_wait_def post_load_B4_def l1d_fails_def by (intro own_rules own_state_steps) simp
qed

lemma reload_adds: "adds from_image (reload_images env g cs is)"
proof (induction "is")
  case (Cons i "is")
  have "adds from_image (Reload_B4 env fname)" for fname unfolding Reload_B4_def by (intro adds_rules load_adds adds_requests)
  then show ?case using Cons by (auto simp: set_core_id_def intro!: adds_rules)
qed (auto intro!: adds_rules)

lemma hold_trace:
  assumes "l1d_hold_starcore_B4 env ci s = Returns (r, t)" "0 \<le> r"
  shows "\<exists>x. accesses t = accesses s @ [Wrote (ccsr_base s + 0xE00E4) (x AND NOT (core_mask (reDspCoreInfo ci) 4))]"
  using assms by (auto simp: l1d_hold_starcore_B4_def ccsr_do_def with_map_def zeroed_def thn_run ret_run and32_def bnd_run wr32_def
      rd32_def put_reg_def settle_def Let_def map_area64_def map_area_def split: if_splits option.splits)

lemma l1d_release_trace:
  assumes "l1d_release_starcore_B4 env ci s = Returns (r, t)" "0 \<le> r"
  shows "\<exists>x. accesses t = accesses s @ [Wrote (ccsr_base s + 0xE00E4) (x OR core_mask (reDspCoreInfo ci) 4)]"
  using assms by (auto simp: l1d_release_starcore_B4_def ccsr_do_def with_map_def zeroed_def thn_run ret_run or32_def bnd_run wr32_def
      rd32_def put_reg_def settle_def Let_def map_area64_def map_area_def split: if_splits option.splits)

text \<open>The preparation ends with the hold, if it ends well.\<close>

lemma prepare_adds: "adds own (prepare_reset env has_ipc ci)"
proof -
  have o: "adds own (open_dev env d)" for d by (intro adds_silent) (auto simp: keeps_def open_dev_def Let_def)
  have m: "adds own map_ctrl" unfolding map_ctrl_def Let_def by (intro adds_rules) simp
  have "adds own (check_validation_fields env)"
    unfolding check_validation_fields_def Let_def
    by (intro own_rules) (auto intro!: adds_silent simp: keeps_def split: option.splits)
  then show ?thesis
    unfolding prepare_reset_def init_devices_def by (intro own_rules own_stop own_power_steps o m) simp_all
qed

lemma pre_Reload_trace:
  assumes "pre_Reload_B4 env has_ipc ci s = Returns (0, t)"
  shows "\<exists>pre x. list_all own pre \<and> accesses t = accesses s @ pre @ [Wrote (ccsr_base t + 0xE00E4) (x AND NOT (core_mask (reDspCoreInfo ci) 4))]"
proof -
  obtain a y b c z d h where r: "prepare_reset env has_ipc ci s = Returns (0, a)" "set_reset_modes_B4 env ci a = Returns (y, b)"
    "(if debug_print ci \<noteq> 0 then flush_cnpc env else ret ()) b = Returns (y, c)"
    "set_PIR_on_dspcore_B4 env ci c = Returns (z, d)" "l1d_hold_starcore_B4 env ci d = Returns (h, t)" "0 \<le> h"
    using assms unfolding pre_Reload_B4_def by (auto simp: bnd_run thn_run neg_fails_run ret_run split: if_splits)
  have f: "adds own (if debug_print ci \<noteq> 0 then flush_cnpc env else ret ())" by (intro own_rules own_power_steps)
  obtain p1 p2 p3 p4 where p: "accesses a = accesses s @ p1" "accesses b = accesses a @ p2" "accesses c = accesses b @ p3" "accesses d = accesses c @ p4"
      "list_all own (p1 @ p2 @ p3 @ p4)"
    using addsD [OF prepare_adds r(1)] addsD [OF own_power_steps(6) r(2)] addsD [OF f r(3)] addsD [OF own_power_steps(3) r(4)] by fastforce
  have "bt t = bt d" using keepsD [OF btv.keeps_core_steps(1) r(5)] .
  then obtain x where "accesses t = accesses d @ [Wrote (ccsr_base t + 0xE00E4) (x AND NOT (core_mask (reDspCoreInfo ci) 4))]"
    using hold_trace [OF r(5,6)] by auto
  then show ?thesis using p by (intro exI [of _ "p1 @ p2 @ p3 @ p4"]) auto
qed

lemma reload_release_result: "reload_and_release env ci s = Returns (r, t) \<Longrightarrow> r = 0 \<or> r = - ERR_L1_DEFENSE_API_FAIL"
  unfolding reload_and_release_def l1d_fails_def Let_def by (auto simp: bnd_run ret_run split: if_splits)

lemma reload_release_trace:
  assumes "reload_and_release env ci s = Returns (0, t)"
  shows "\<exists>mid img x post. list_all own mid \<and> list_all from_image img \<and> list_all own post \<and> ccsr_base t = ccsr_base s \<and>
    accesses t = accesses s @ mid @ img @ [Wrote (ccsr_base s + 0xE00E4) (x OR core_mask (reDspCoreInfo ci) 4)] @ post"
proof -
  let ?c = "[0..<6]" and ?sh = "if reset_mode ci = MODE_3_ACTIVE then reload_images env (\<lambda>_. - 1) (shDspCoreInfo ci) [0..<6] else ret 0"
  obtain z a y b x c h d g where r: "Reset_PIR_PH15_on_dspcore_B4 env ci s = Returns (z, a)" "?sh a = Returns (y, b)"
    "reload_images env of_nat (reDspCoreInfo ci) ?c b = Returns (x, c)" "l1d_release_starcore_B4 env ci c = Returns (h, d)" "0 \<le> h"
    "check_dsp_ready_CRSTSR_B4 env ci d = Returns (g, t)"
    using assms unfolding reload_and_release_def l1d_fails_def Let_def by (auto simp: bnd_run ret_run not_less split: if_splits)
  have s: "adds from_image ?sh" by (intro adds_rules reload_adds)
  obtain mid i1 i2 post where p: "accesses a = accesses s @ mid" "accesses b = accesses a @ i1" "accesses c = accesses b @ i2" "accesses t = accesses d @ post"
      "list_all own mid" "list_all from_image (i1 @ i2)" "list_all own post"
    using addsD [OF own_power_steps(4) r(1)] addsD [OF s r(2)] addsD [OF reload_adds r(3)] addsD [OF own_after_release(1) r(6)] by fastforce
  have k: "keeps (\<lambda>s. het_sys_map (bt s)) ?sh" by (intro step_rules mapv.keeps_reload)
  have m: "het_sys_map (bt c) = het_sys_map (bt s)" "het_sys_map (bt t) = het_sys_map (bt c)"
    using keepsD [OF mapv.keeps_power_steps(9) r(1)] keepsD [OF k r(2)] keepsD [OF mapv.keeps_reload r(3)]
      keepsD [OF mapv.keeps_core_steps(3) r(4)] keepsD [OF mapv.keeps_core_steps(6) r(6)] by simp_all
  obtain w where "accesses d = accesses c @ [Wrote (ccsr_base s + 0xE00E4) (w OR core_mask (reDspCoreInfo ci) 4)]"
    using l1d_release_trace [OF r(4,5)] m by auto
  then show ?thesis using p m by (intro exI [of _ mid] exI [of _ "i1 @ i2"] exI [of _ w] exI [of _ post]) auto
qed

text \<open>C17: In a warm reset of the third mode that reports the status of the cores, all images are loaded while the cores to be reset are
  held: before the first access of an image their bits in the release register are cleared, and they are set again after the last.\<close>

theorem warm_reset_holds_cores:
  assumes "fsl_start_L1_defense env has_ipc ci s = Returns (r, t)" "0 \<le> r" "reset_mode ci = MODE_3_ACTIVE"
  shows "\<exists>pre x mid img y post c. accesses t = accesses s @ pre @ [Wrote (c + 0xE00E4) (x AND NOT (core_mask (reDspCoreInfo ci) 4))] @ mid @ img @
      [Wrote (c + 0xE00E4) (y OR core_mask (reDspCoreInfo ci) 4)] @ post \<and>
    c = ccsr_base t \<and> list_all own pre \<and> list_all own mid \<and> list_all from_image img \<and> list_all own post"
proof -
  let ?w = "if cfg_wpt ci = 1 then set_Hw_watchpoint env ci else ret 0"
  obtain p u v q w z where r: "pre_Reload_B4 env has_ipc ci (fresh_bt s) = Returns (p, u)" "0 \<le> p" "reload_and_release env ci u = Returns (0, v)"
    "?w v = Returns (q, w)" "watch_and_wait env ci w = Returns (r, z)" "t = cleanup z"
    using assms(1,2) unfolding fsl_start_L1_defense_def l1d_fails_def closing_def
    by (auto simp: bnd_run thn_run ret_run upd_def not_less dest: reload_release_result split: if_splits)
  have "p = 0"
    using r(1,2) assms(3) unfolding pre_Reload_B4_def prepare_reset_def init_devices_def
    by (auto simp: bnd_run thn_run neg_fails_run nz_fails_run ret_run split: if_splits)
  then obtain pre x where pre: "list_all own pre"
    "accesses u = accesses s @ pre @ [Wrote (ccsr_base u + 0xE00E4) (x AND NOT (core_mask (reDspCoreInfo ci) 4))]"
    using pre_Reload_trace [of env has_ipc ci "fresh_bt s" u] r(1) by (auto simp: fresh_bt_def)
  obtain mid img y p1 where rel: "list_all own mid" "list_all from_image img" "list_all own p1" "ccsr_base v = ccsr_base u"
    "accesses v = accesses u @ mid @ img @ [Wrote (ccsr_base u + 0xE00E4) (y OR core_mask (reDspCoreInfo ci) 4)] @ p1"
    using reload_release_trace [OF r(3)] by auto
  have k: "adds own ?w" "keeps (\<lambda>s. het_sys_map (bt s)) ?w"
    by (intro own_rules own_after_release, intro step_rules mapv.keeps_watchpoint)
  obtain p2 p3 where late: "accesses w = accesses v @ p2" "accesses z = accesses w @ p3" "list_all own (p1 @ p2 @ p3)"
    using addsD [OF k(1) r(4)] addsD [OF own_after_release(3) r(5)] rel(3) by auto
  have "ccsr_base z = ccsr_base u" using keepsD [OF k(2) r(4)] keepsD [OF mapv.keeps_wait r(5)] rel(4) by simp
  moreover have "accesses t = accesses z" "bt t = bt z" by (simp_all add: r(6) cleanup_def close_fd_def)
  ultimately show ?thesis using pre rel late
    by (intro exI [of _ pre] exI [of _ x] exI [of _ mid] exI [of _ img] exI [of _ y] exI [of _ "p1 @ p2 @ p3"] exI [of _ "ccsr_base u"]) simp
qed

end
