(* ===== verification/DSP_Start.thy ===== *)
theory DSP_Start
  imports DSP_Boot_Props
begin

text \<open>
  The first start succeeds: under the conditions a sound system meets (devices and mappings available, the memory map of the kernel, the
  shared segment attached, the caches reacting to their registers, image files in the memory of the DSP) it returns 0
  with the images in memory. The proof is by weakest preconditions of the programs for total correctness.
\<close>

section \<open>Total correctness\<close>

definition ends :: "'a prog \<Rightarrow> ('a \<Rightarrow> boot \<Rightarrow> bool) \<Rightarrow> boot \<Rightarrow> bool" where
  "ends m Q s \<longleftrightarrow> (\<exists>x t. m s = Returns (x, t) \<and> Q x t)"

named_theorems ends_simps

lemma ends_basic [ends_simps]:
  "ends (ret x) P s \<longleftrightarrow> P x s" "ends (upd h) U s \<longleftrightarrow> U () (h s)" "ends (asks g) R s \<longleftrightarrow> R (g s) s"
  "ends (bnd m f) Q s \<longleftrightarrow> ends m (\<lambda>x. ends (f x) Q) s" "ends (thn m k) Q s \<longleftrightarrow> ends m (\<lambda>_. ends k Q) s"
  "ends (zeroed n) Z s \<longleftrightarrow> ends n (\<lambda>_. Z 0) s"
  by (auto simp: ends_def ret_def upd_def asks_def bnd_run thn_run zeroed_def)

lemma ends_fails [ends_simps]:
  "ends (neg_fails m k) Q s \<longleftrightarrow> ends m (\<lambda>r. if r < 0 then Q (- 1) else ends k Q) s"
  "ends (nz_fails m k) Q s \<longleftrightarrow> ends m (\<lambda>r. if r \<noteq> 0 then Q (- 1) else ends k Q) s"
proof -
  have "(\<lambda>r. ends (if b r then ret (- 1) else k) Q) = (\<lambda>r. if b r then Q (- 1) else ends k Q)" for b :: "int \<Rightarrow> bool"
    by (auto simp: fun_eq_iff ends_basic(1))
  then show "ends (neg_fails m k) Q s \<longleftrightarrow> ends m (\<lambda>r. if r < 0 then Q (- 1) else ends k Q) s"
    "ends (nz_fails m k) Q s \<longleftrightarrow> ends m (\<lambda>r. if r \<noteq> 0 then Q (- 1) else ends k Q) s"
    by (simp_all add: neg_fails_def nz_fails_def ends_basic)
qed

lemma ends_mono: "ends m Q s \<Longrightarrow> (\<And>x t. Q x t \<Longrightarrow> R x t) \<Longrightarrow> ends m R s"
  by (auto simp: ends_def)

lemma ends_keeps: "ends m Q s \<Longrightarrow> keeps f m \<Longrightarrow> ends m (\<lambda>x t. Q x t \<and> f t = f s) s"
  by (auto simp: ends_def keeps_def)

lemma ends_fun: "ends (\<lambda>s. m s s) Q s \<longleftrightarrow> ends (m s) Q s"
  by (simp add: ends_def)

text \<open>Accesses inside a mapping end.\<close>

lemma ends_bus [ends_simps]:
  "reachable m off 4 \<Longrightarrow> ends (rd32 env m off) Q s \<longleftrightarrow> Q (regs (settle env s) (mp_phys m + of_nat off)) (settle env s)"
  "reachable m off 4 \<Longrightarrow> ends (wr32 env m off v) R s \<longleftrightarrow> R () (put_reg env (mp_phys m + of_nat off) v Wrote s)"
  by (auto simp: ends_def rd32_def wr32_def Let_def)

lemma ends_or32: "reachable m off 4 \<Longrightarrow> (\<And>t. Q () t) \<Longrightarrow> ends (or32 env m off v) Q s"
  by (simp add: or32_def ends_simps)

text \<open>What a register does after a value is written to it: sooner or later it satisfies a condition.\<close>

definition reacts :: "boot_env \<Rightarrow> u64 \<Rightarrow> u32 \<Rightarrow> (u32 \<Rightarrow> bool) \<Rightarrow> bool" where
  "reacts env a v P \<longleftrightarrow> (\<forall>s. regs s a = v \<longrightarrow> (\<exists>k. P (regs ((settle env ^^ (k + 2)) s) a)))"

lemma ends_poll:
  assumes "reachable m off 4" "\<exists>k. P (regs ((settle env ^^ Suc k) s) (mp_phys m + of_nat off))"
  shows "ends (poll env m off P) (\<lambda>_ _. True) s"
proof -
  have "poll_loop env (mp_phys m + of_nat off) P s \<noteq> None" using assms(2) poll_returns by blast
  then show ?thesis using assms(1) by (auto simp: ends_def poll_def)
qed

lemma ends_write_poll:
  assumes "reachable m off 4" "reacts env (mp_phys m + of_nat off) v P"
    "\<And>t. ends k Q t"
  shows "ends (thn (wr32 env m off v) (thn (poll env m off P) k)) Q s"
proof -
  let ?a = "mp_phys m + of_nat off"
  obtain n where "P (regs ((settle env ^^ (n + 2)) (s\<lparr>regs := (regs s)(?a := v), accesses := accesses s @ [Wrote ?a v]\<rparr>)) ?a)"
    using assms(2) unfolding reacts_def by fastforce
  then have "P (regs ((settle env ^^ Suc n) (put_reg env ?a v Wrote s)) ?a)"
    unfolding put_reg_def by (simp add: funpow_swap1)
  then have "ends (poll env m off P) (\<lambda>_ _. True) (put_reg env ?a v Wrote s)" by (intro ends_poll [OF assms(1)]) blast
  from ends_mono [OF this, where R = "\<lambda>_. ends k Q"] show ?thesis using assms(1,3) by (simp add: ends_simps)
qed

section \<open>The steps of the start\<close>

text \<open>A step that succeeds.\<close>

abbreviation succeeds :: "int prog \<Rightarrow> boot \<Rightarrow> bool" where
  "succeeds m s \<equiv> ends m (\<lambda>r _. r = 0) s"

lemma ends_then:
  assumes "succeeds m s" "keeps f m" "\<And>t. f t = f s \<Longrightarrow> ends k Q t"
  shows "ends (nz_fails m k) Q s" "ends (neg_fails m k) Q s"
  using ends_keeps [OF assms(1,2)] assms(3) by (auto simp: ends_simps elim!: ends_mono)

text \<open>The memory map the kernel's manager gives, and a state in which the library has taken it over.\<close>

definition mapped :: "sys_map \<Rightarrow> boot \<Rightarrow> bool" where
  "mapped M s \<longleftrightarrow> het_sys_map (bt s) = M \<and> map_d (bt s) = area_table M"

abbreviation (input) "CCSR \<equiv> (0xFFE000000 :: u64)"

abbreviation (input) "ccsr_io \<equiv> \<lparr>mp_phys = CCSR, mp_room = 0x1002000, mp_ok = True\<rparr>"

lemma ccsr_area:
  assumes "mapped (get_het_sys_map known par) s" "\<forall>d a n. mmap_ok env d a n"
  shows "map_area64 env CCSR 0x1000000 s = Some ccsr_io"
proof -
  have t: "(CCSR, 0x1000000) \<in> set (map_d (bt s))" using assms(1) by (simp add: mapped_def area_table_def get_het_sys_map_def)
  have "in_map (map_d (bt s)) CCSR" unfolding in_map_def list_ex_iff by (rule bexI [OF _ t]) simp
  moreover have "map_len CCSR 0x1000000 = 0x1002000" by (simp add: map_len_def crem_def Let_def)
  ultimately show ?thesis using assms(2) by (simp add: map_area64_def map_area_def Let_def)
qed

lemma ccsr_mapping:
  assumes "mapped (get_het_sys_map known par) s" "\<forall>d a n. mmap_ok env d a n"
  obtains m where "map_area64 env CCSR 0x1000000 s = Some m" "mp_phys m = CCSR" "\<And>off. off \<le> 0xFFFFFC \<Longrightarrow> reachable m off 4"
  by (rule that [OF ccsr_area [OF assms]]) (simp_all add: reachable_def)

lemma ends_ccsr:
  assumes "mapped (get_het_sys_map known par) s" "\<forall>d a n. mmap_ok env d a n"
  shows "ends (ccsr_do env k) Q s \<longleftrightarrow> ends (k ccsr_io) Q s"
  using ccsr_area [OF assms] assms(1) by (simp add: ends_def ccsr_do_def with_map_def mapped_def get_het_sys_map_def)

lemma ccsr_ends:
  assumes "mapped (get_het_sys_map known par) s" "\<forall>d a n. mmap_ok env d a n"
    "\<And>m. mp_phys m = CCSR \<Longrightarrow> (\<And>off. off \<le> 0xFFFFFC \<Longrightarrow> reachable m off 4) \<Longrightarrow> ends (k m) Q s"
  shows "ends (ccsr_do env k) Q s"
  unfolding ends_ccsr [OF assms(1,2)] by (rule assms(3)) (simp_all add: reachable_def)

lemma release_succeeds:
  assumes "mapped (get_het_sys_map known par) s" "\<forall>d a n. mmap_ok env d a n"
  shows "succeeds (release_starcore_B4 env) s"
  unfolding release_starcore_B4_def
  by (rule ccsr_ends [OF assms], rule ends_fun [THEN iffD2]) (simp add: ends_simps ends_or32)

text \<open>Each cache empties and then switches on when it is told to.\<close>

definition l2_reacts :: "boot_env \<Rightarrow> nat \<Rightarrow> bool" where
  "l2_reacts env i \<longleftrightarrow> (let a = CCSR + of_nat (L2_CACHE_2 + i * OFF_L2_CACHE) in
     reacts env a (L2FI OR L2LFC) (\<lambda>v. v AND (L2FI OR L2LFC) = 0) \<and> reacts env a (L2E OR L2PE) (\<lambda>v. v AND L2E \<noteq> 0))"

lemma l2_loop_succeeds:
  assumes "mp_phys m = CCSR" "\<And>off. off \<le> 0xFFFFFC \<Longrightarrow> reachable m off 4" "i + n \<le> 14" "\<forall>j < i + n. l2_reacts env j"
  shows "succeeds (l2_init_loop env m n i) s"
  using assms(3,4)
proof (induction n arbitrary: i s)
  case (Suc n)
  let ?o = "L2_CACHE_2 + i * OFF_L2_CACHE"
  have IH: "succeeds (l2_init_loop env m n (Suc i)) t" for t using Suc.IH [of "Suc i"] Suc.prems by simp
  have r: "reachable m ?o 4" "reachable m (?o + 4) 4" using assms(2) Suc.prems(1) by auto
  have l: "reacts env (mp_phys m + of_nat ?o) (L2FI OR L2LFC) (\<lambda>v. v AND (L2FI OR L2LFC) = 0)"
    "reacts env (mp_phys m + of_nat ?o) (L2E OR L2PE) (\<lambda>v. v AND L2E \<noteq> 0)"
    using Suc.prems(2) assms(1) by (simp_all add: l2_reacts_def Let_def)
  have "succeeds (thn (wr32 env m (?o + 4) v) (thn (wr32 env m ?o (L2E OR L2PE)) (thn (poll env m ?o (\<lambda>v. v AND L2E \<noteq> 0)) (l2_init_loop env m n (Suc i))))) t" for v t
    unfolding ends_basic(5) [of "wr32 env m (?o + 4) v"] ends_bus(2) [OF r(2)] by (rule ends_write_poll [OF r(1) l(2) IH])
  from ends_write_poll [OF r(1) l(1) this] IH show ?case
    unfolding l2_init_loop.simps Let_def ends_basic(4) ends_bus(1) [OF r(1)] by simp
qed (simp add: ends_simps)

text \<open>The requests to the kernel, while it has its control structure.\<close>

definition controlled :: "boot \<Rightarrow> bool" where
  "controlled s \<longleftrightarrow> h_ctrl (kern s) \<noteq> None"

lemma ioctl_ends:
  assumes "controlled s" "ioctl_copy env" "cmd \<in> {GET_RAT_MODE, GET_IPC_PARAMS, SET_INITIALIZED} \<or> (\<exists>p. cmd = SET_SHARED_AREA (Some p))"
  shows "ends (kioctl env cmd) (\<lambda>(r, _) t. r = 0 \<and> controlled t \<and> bt t = bt s \<and> seg_lib t = seg_lib s \<and> seg_drv t = seg_drv s) s"
  using assms by (auto simp: ends_def kioctl_def het_mgr_ioctl_def het_copy_def controlled_def split: option.splits)

lemma ipc_init_succeeds:
  assumes "controlled s" "ioctl_copy env" "\<forall>d a n. mmap_ok env d a n"
  shows "ends (ipc_call env fsl_B4_ipc_init) (\<lambda>r t. r = 0 \<and> controlled t \<and> bt t = bt s) s"
proof -
  have "ends (\<lambda>s. case h_ctrl (kern s) of None \<Rightarrow> Faults | Some c \<Rightarrow>
      (let a = m_sh_ctrl_area (het_sys_map (bt s));
           e = \<lparr>b4_map_ok = mmap_ok env Dev_mem (strt_phys a) (strt_size a), b4_rat_rc = 0, b4_rat_regions = x, b4_params_rc = 0, b4_params = y\<rparr>
       in case fsl_B4_ipc_init e (ipc_ctrl c (ipcs s)) of (r, st) \<Rightarrow> Returns (r, s\<lparr>ipcs := st\<rparr>))) (\<lambda>r t. r = 0 \<and> controlled t \<and> bt t = bt s) t"
    if "controlled t" "bt t = bt s" for x y t
    using that assms(3) by (auto simp: ends_def controlled_def fsl_B4_ipc_init_def Let_def)
  then show ?thesis
    unfolding ipc_call_def ends_basic
    by (intro ends_mono [OF ioctl_ends [OF assms(1,2)]]) (auto simp: ends_basic intro!: ends_mono [OF ioctl_ends [OF _ assms(2)]])
qed

lemma hugetlb_succeeds:
  assumes "controlled s" "ioctl_copy env"
    "fst (fsl_shm_init (seg_cc env) (seg_env env) (seg_sys env) (dsp_shared_size (het_sys_map (bt s))) True (seg_lib s) (seg_drv s)) \<noteq> 0"
  shows "ends (init_hugetlb env) (\<lambda>r t. r = 0 \<and> controlled t \<and> bt t = bt s) s"
proof -
  obtain pa l d where i: "fsl_shm_init (seg_cc env) (seg_env env) (seg_sys env) (dsp_shared_size (het_sys_map (bt s))) True (seg_lib s) (seg_drv s) = (pa, l, d)"
    by (rule prod_cases3)
  let ?u = "s\<lparr>seg_lib := l, seg_drv := d, open_fds := open_fds s \<union> seg_fds env\<rparr>"
  have "ends (bnd (kioctl env (SET_SHARED_AREA (Some p))) (\<lambda>(r, _). ret (if r \<noteq> 0 then - 1 else r)))
      (\<lambda>r t. r = 0 \<and> controlled t \<and> bt t = bt s) ?u" for p
    using assms(1) unfolding ends_basic
    by (intro ends_mono [OF ioctl_ends [OF _ assms(2)]]) (auto simp: ends_basic controlled_def)
  then show ?thesis using i assms(3) by (simp add: ends_def init_hugetlb_def Let_def)
qed

section \<open>The start as a whole\<close>

definition sound_system :: "boot_env \<Rightarrow> bool \<Rightarrow> het_params \<Rightarrow> boot \<Rightarrow> bool" where
  "sound_system env known par s \<longleftrightarrow>
     (\<forall>d. dev_fd env d \<noteq> - 1) \<and> (\<forall>d a n. mmap_ok env d a n) \<and> ioctl_copy env \<and> controlled s \<and>
     h_sys_map (kern s) = get_het_sys_map known par \<and> par_dsp_private_addr par \<noteq> 0xFFFFFFFF \<and> par_dsp_shared_size par \<noteq> 0xFFFFFFFF \<and>
     fst (fsl_shm_init (seg_cc env) (seg_env env) (seg_sys env) (dsp_shared_size (get_het_sys_map known par)) True (seg_lib s) (seg_drv s)) \<noteq> 0"

lemma pre_load_succeeds:
  assumes "sound_system env known par s" "count \<le> 14" "\<forall>j < nat count. l2_reacts env j"
  shows "ends (pre_load_B4 env count) (\<lambda>r t. r = 0 \<and> mapped (get_het_sys_map known par) t \<and> controlled t) (fresh_bt s)"
proof -
  let ?M = "get_het_sys_map known par"
  have f: "\<forall>d. dev_fd env d \<noteq> - 1" "\<forall>d a n. mmap_ok env d a n" "ioctl_copy env" using assms(1) by (auto simp: sound_system_def)
  have l2: "ends (dsp_L2_cache_init_B4 env count) (\<lambda>r t. r = 0 \<and> mapped ?M t \<and> controlled t) t" if "mapped ?M t" "controlled t" for t
  proof -
    have "succeeds (dsp_L2_cache_init_B4 env count) t"
      unfolding dsp_L2_cache_init_B4_def using assms(2,3)
      by (intro ccsr_ends [OF that(1) f(2)] l2_loop_succeeds) auto
    from ends_keeps [OF ends_keeps [OF this btv.keeps_power_steps(3)] ctrlv.keeps_power_steps(3)] that show ?thesis
      by (elim ends_mono) (auto simp: mapped_def controlled_def)
  qed
  have ipc: "ends (nz_fails (ipc_call env fsl_B4_ipc_init) (nz_fails (dsp_L2_cache_init_B4 env count) (ret 0)))
      (\<lambda>r t. r = 0 \<and> mapped ?M t \<and> controlled t) t" if "mapped ?M t" "controlled t" for t
    unfolding ends_fails
    by (rule ends_mono [OF ipc_init_succeeds [OF that(2) f(3,2)]])
      (auto simp: ends_basic mapped_def intro!: ends_mono [OF l2] that(1) [unfolded mapped_def])
  have late: "ends (nz_fails (init_hugetlb env) (nz_fails (ipc_call env fsl_B4_ipc_init) (nz_fails (dsp_L2_cache_init_B4 env count) (ret 0))))
      (\<lambda>r t. r = 0 \<and> mapped ?M t \<and> controlled t) t"
    if "mapped ?M t" "kern t = kern s" "seg_lib t = seg_lib s" "seg_drv t = seg_drv s" for t
    unfolding ends_fails(2) [of "init_hugetlb env"]
    by (rule ends_mono [OF hugetlb_succeeds [OF _ f(3)]])
      (use assms(1) that ipc in \<open>auto simp: sound_system_def controlled_def mapped_def\<close>)
  have o: "ends (open_dev env d) Q t \<longleftrightarrow> Q (dev_fd env d) (t\<lparr>open_fds := insert (dev_fd env d) (open_fds t)\<rparr>)" for d Q t
    using f(1) by (simp add: ends_def open_dev_def Let_def)
  have g: "ends (get_sys_map env) Q t \<longleftrightarrow> Q 0 (t\<lparr>bt := (bt t)\<lparr>het_sys_map := ?M\<rparr>\<rparr>)" if "kern t = kern s" for Q t
    using that assms(1) by (simp add: ends_def get_sys_map_def kioctl_def het_mgr_ioctl_def het_copy_def bnd_def thn_def upd_def ret_def sound_system_def)
  have m: "ends assign_memory_areas Q t \<longleftrightarrow> Q 0 (t\<lparr>bt := (bt t)\<lparr>map_d := area_table ?M\<rparr>\<rparr>)" if "het_sys_map (bt t) = ?M" for Q t
    using that assms(1) by (simp add: ends_def assign_memory_areas_def sound_system_def get_het_sys_map_def at_least_def zero_strt_def)
  show ?thesis
    unfolding pre_load_B4_def init_devices_def ends_basic o
    by (simp add: f(1) ends_basic o ends_fails(2) [of "get_sys_map env"] ends_fails(2) [of "assign_memory_areas"] g m fresh_bt_def)
      (rule late, simp_all add: mapped_def)
qed

text \<open>The images, each well formed and in the memory of the DSP.\<close>

definition images_ok :: "boot_env \<Rightarrow> (bt_core \<Rightarrow> image_section list) \<Rightarrow> bt_core list \<Rightarrow> boot \<Rightarrow> bool" where
  "images_ok env secs cs s \<longleftrightarrow>
     (\<forall>c \<in> set cs. \<exists>e. image_file env (ci_image c) = Some (image_bytes e (secs c)) \<and> (\<forall>x \<in> set (secs c). section_ok env s x))"

lemma apply_sections_kern: "kern (fold (apply_section env) secs s) = kern s"
proof (induction secs arbitrary: s)
  case (Cons x secs)
  have "kern (apply_section env x s) = kern s" by (cases x) (simp_all add: store_bytes_def put_reg_def settle_def)
  then show ?case using Cons by simp
qed simp

lemma load_images_succeeds:
  assumes "images_ok env secs cs s" "mapped M s" "controlled s" "ioctl_copy env"
  shows "ends (load_images env cs) (\<lambda>r t. r = 0 \<and> mapped M t \<and> controlled t) s"
  using assms(1-3)
proof (induction cs arbitrary: s)
  case (Cons c cs)
  let ?u = "s\<lparr>bt := (bt s)\<lparr>bt_core_id := word_of_int (ci_core_id c)\<rparr>\<rparr>" and ?f = "fold (apply_section env) (secs c)"
  obtain e where e: "image_file env (ci_image c) = Some (image_bytes e (secs c))" "\<forall>x \<in> set (secs c). section_ok env s x"
    using Cons.prems(1) by (auto simp: images_ok_def)
  have "\<forall>x \<in> set (secs c). section_ok env ?u x" using e(2) section_ok_cong [of ?u s] by auto
  then have l: "load_dsp_image env (ci_image c) ?u = Returns (0, ?f ?u)" by (rule load_image_run [where frag = "[]" and endian = e, OF e(1)]) simp_all
  have k: "controlled (?f ?u)"
    using Cons.prems(3) apply_sections_kern [of env "secs c" ?u] by (simp add: controlled_def)
  have rest: "ends (load_images env cs) (\<lambda>r t. r = 0 \<and> mapped M t \<and> controlled t) t" if "bt t = bt (?f ?u)" "controlled t" for t
  proof (rule Cons.IH)
    have m: "het_sys_map (bt t) = het_sys_map (bt s)" "map_d (bt t) = map_d (bt s)"
      using that(1) apply_sections_table [of env "secs c" ?u] by simp_all
    show "mapped M t" using Cons.prems(2) m by (simp add: mapped_def)
    show "images_ok env secs cs t" using Cons.prems(1) section_ok_cong [of t s] m by (auto simp: images_ok_def)
  qed (rule that(2))
  let ?v = "?f ?u" and ?Q = "\<lambda>r t. r = 0 \<and> mapped M t \<and> controlled t"
  have init: "ends (if d then ret 0 else set_sh_ctrl_pa_init env) (\<lambda>r t. r = 0 \<and> controlled t \<and> bt t = bt ?v) ?v" for d
    using k by (auto simp: ends_basic set_sh_ctrl_pa_init_def intro!: ends_mono [OF ioctl_ends [OF _ assms(4)]])
  have "ends (neg_fails (load_B4 env (ci_image c)) (load_images env cs)) ?Q ?u"
    unfolding load_B4_def ends_fails ends_basic ends_def [of "load_dsp_image env (ci_image c)"] l
    using ends_mono [OF init] rest by (auto simp: ends_basic controlled_def intro!: ends_mono [OF init])
  then show ?case by (simp add: ends_basic set_core_id_def)
qed (simp add: ends_simps)

text \<open>The DSP announces itself at the semaphore, unless none is used.\<close>

definition dsp_answers :: "boot_env \<Rightarrow> u32 \<Rightarrow> bool" where
  "dsp_answers env n \<longleftrightarrow> 1 \<le> n \<and> n \<le> 7 \<longrightarrow>
     (\<forall>s. \<exists>k. regs ((settle env ^^ Suc k) s) (CCSR + of_nat (4 * (0x23C840 + 2 * unat n))) \<noteq> 0)"

lemma wait_succeeds:
  assumes "mapped (get_het_sys_map known par) s" "\<forall>d a n. mmap_ok env d a n" "dsp_answers env (semaphore_num (bt s))"
  shows "succeeds (post_load_B4 env) s"
proof -
  let ?n = "semaphore_num (bt s)"
  let ?off = "4 * (0x23C840 + 2 * unat ?n)"
  obtain m where m: "map_area64 env CCSR 0x1000000 s = Some m" "mp_phys m = CCSR" "\<And>off. off \<le> 0xFFFFFC \<Longrightarrow> reachable m off 4"
    using ccsr_mapping [OF assms(1,2)] by blast
  have "het_sys_map (bt s) = get_het_sys_map known par" using assms(1) by (simp add: mapped_def)
  then have run: "post_load_B4 env s = (if 1 \<le> ?n \<and> ?n \<le> 7
      then bnd (poll env m ?off (\<lambda>v. v \<noteq> 0)) (\<lambda>v. if v = 0xFE then zeroed (wr32 env m ?off 0) else ret 0) s else ret 0 s)"
    using m(1) by (simp add: post_load_B4_def check_dsp_boot_B4_def get_het_sys_map_def with_map_def Let_def cong: if_cong)
  show ?thesis
  proof (cases "1 \<le> ?n \<and> ?n \<le> 7")
    case True
    then have "unat ?n \<le> 7" by (simp add: word_le_nat_alt)
    then have r: "reachable m ?off 4" by (intro m(3)) simp
    have "ends (poll env m ?off (\<lambda>v. v \<noteq> 0)) (\<lambda>_ _. True) s"
      using True assms(3) m(2) by (intro ends_poll [OF r]) (auto simp: dsp_answers_def simp del: funpow.simps)
    from ends_mono [OF this, where R = "\<lambda>v. ends (if v = 0xFE then zeroed (wr32 env m ?off 0) else ret 0) (\<lambda>r _. r = 0)"] r
    have "succeeds (bnd (poll env m ?off (\<lambda>v. v \<noteq> 0)) (\<lambda>v. if v = 0xFE then zeroed (wr32 env m ?off 0) else ret 0)) s"
      by (simp add: ends_simps)
    then show ?thesis using run True by (simp add: ends_def)
  next
    case False
    then show ?thesis using run by (simp only: if_False ends_def) (simp add: ret_def)
  qed
qed

lemma start_cores_succeeds:
  assumes "mapped (get_het_sys_map known par) s" "\<forall>d a n. mmap_ok env d a n" "dsp_answers env (word_of_int (ci_core_id c0))"
  shows "succeeds (start_cores env c0) s"
proof -
  let ?M = "get_het_sys_map known par" and ?u = "s\<lparr>bt := (bt s)\<lparr>bt_trg_id := ci_trg_id c0\<rparr>\<rparr>"
  have m: "mapped ?M ?u" using assms(1) by (simp add: mapped_def)
  have "ends (thn (upd (\<lambda>s. s\<lparr>DCFG_BRR_mask := 0, bt := (bt s)\<lparr>semaphore_num := word_of_int (ci_core_id c0)\<rparr>\<rparr>)) (neg_fails (post_load_B4 env) (ret 0)))
      (\<lambda>r _. r = 0) t" if "bt t = bt ?u" for t
    unfolding ends_basic ends_fails
    by (rule ends_mono [OF wait_succeeds [OF _ assms(2)]]) (use m that assms(3) in \<open>auto simp: mapped_def ends_basic\<close>)
  then show ?thesis
    unfolding start_cores_def ends_basic(5) [of "upd (\<lambda>s. s\<lparr>bt := (bt s)\<lparr>bt_trg_id := ci_trg_id c0\<rparr>\<rparr>)"]
      ends_basic(2) [of "\<lambda>s. s\<lparr>bt := (bt s)\<lparr>bt_trg_id := ci_trg_id c0\<rparr>\<rparr>"]
    by (intro ends_then(1) [OF release_succeeds [OF m assms(2)] btv.keeps_state_steps(1)])
qed

lemma load_succeeds:
  assumes "sound_system env known par s" "ci_core_id (last cores) \<le> 5" "\<forall>j < 3. l2_reacts env j"
    "u = s\<lparr>bt := (bt s)\<lparr>het_sys_map := h_sys_map (kern s), map_d := area_table (h_sys_map (kern s))\<rparr>\<rparr>"
    "images_ok env secs (tl cores) u" "dsp_answers env (word_of_int (ci_core_id (hd cores)))"
  shows "succeeds (b4860_load_dsp_image env cores) s"
proof -
  let ?n = "dsp_cluster_count_f (last cores)" and ?M = "get_het_sys_map known par"
  have f: "\<forall>d a n. mmap_ok env d a n" "ioctl_copy env" "h_sys_map (kern s) = ?M" using assms(1) by (auto simp: sound_system_def)
  have n: "?n \<le> 3" using assms(2) unfolding dsp_cluster_count_f_def by presburger
  have l: "ends (neg_fails (load_images env (tl cores)) (start_cores env (hd cores))) (\<lambda>r _. r = 0) t"
    if "mapped ?M t" "controlled t" for t
  proof -
    have "section_ok env t x = section_ok env u x" for x
      using that(1) f(3) by (intro section_ok_cong) (simp_all add: assms(4) mapped_def)
    then have "images_ok env secs (tl cores) t" using assms(5) by (simp add: images_ok_def)
    from load_images_succeeds [OF this that f(2)] show ?thesis
      unfolding ends_fails by (rule ends_mono) (auto intro!: start_cores_succeeds f(1) assms(6))
  qed
  have "ends (pre_load_B4 env ?n) (\<lambda>r t. r = 0 \<and> mapped ?M t \<and> controlled t) (fresh_bt s)"
    using n assms(3) by (intro pre_load_succeeds [OF assms(1)]) auto
  then have "ends (neg_fails (pre_load_B4 env ?n) (neg_fails (load_images env (tl cores)) (start_cores env (hd cores)))) (\<lambda>r _. r = 0) (fresh_bt s)"
    unfolding ends_fails(1) [of "pre_load_B4 env ?n"] by (rule ends_mono) (auto intro!: l)
  then show ?thesis
    unfolding b4860_load_dsp_image_def closing_def ends_basic(2,4,5) by (rule ends_mono) (simp add: ends_basic)
qed

text \<open>C9: The first start succeeds. On a system whose devices, mappings and requests work, with the memory map of the kernel, the shared
  segment attached, core numbers up to 5, caches that empty and switch on when told to, a DSP that answers at the semaphore (if one is
  used) and well-formed image files in the areas of the map, it returns 0, and the memory of the DSP is then what it was
  with the data of every section of every image written to it, in order; the cores were
  started at the last vector address of the images.\<close>

theorem dsp_start_succeeds:
  assumes "sound_system env known par s" "ci_core_id (last cores) \<le> 5" "\<forall>j < 3. l2_reacts env j"
    "u = s\<lparr>bt := (bt s)\<lparr>het_sys_map := h_sys_map (kern s), map_d := area_table (h_sys_map (kern s))\<rparr>\<rparr>"
    "images_ok env secs (tl cores) u" "dsp_answers env (word_of_int (ci_core_id (hd cores)))"
  shows "\<exists>t. b4860_load_dsp_image env cores s = Returns (0, t) \<and>
    (dram t, intvec_addr (bt t)) = fold put_section (concat (map secs (tl cores))) (dram s, intvec_addr (bt s))"
proof -
  obtain t where t: "b4860_load_dsp_image env cores s = Returns (0, t)" using load_succeeds [OF assms] by (auto simp: ends_def)
  from load_memory [OF t assms(4) assms(5) [unfolded images_ok_def]] t show ?thesis by blast
qed

section \<open>A sample system\<close>

text \<open>The manager's default configuration, the caches and the semaphore reacting at once, one image for core 0.\<close>

definition sample_secs :: "image_section list" where
  "sample_secs = [Data 0x80000000 [1, 2, 3], Reg 0xFFE000100 5, Vector 0x80000000]"

definition boot_sample_env :: boot_env where
  "boot_sample_env = \<lparr>hw_dev = (\<lambda>_ r a. if a = CCSR + 0x8F2108 then 0xFE else r a AND NOT (L2FI OR L2LFC)),
     dev_fd = (\<lambda>d. case d of Dev_het_mgr \<Rightarrow> 3 | Dev_mem \<Rightarrow> 4 | Dev_l1d \<Rightarrow> 5), mmap_ok = (\<lambda>_ _ _. True),
     image_file = (\<lambda>f. if f = ''a'' then Some (image_bytes 1 sample_secs) else None), model_file = None, ioctl_copy = True,
     kern_par = het_sample_par, kern_multi = False, kern_maps = (True, True, True), kern_junk = 0,
     seg_cc = True, seg_env = um_sample_env, seg_sys = um_sample_sys, seg_fd = 6, seg_word = (\<lambda>_. None)\<rparr>"

definition boot_sample :: boot where
  "boot_sample = \<lparr>bt = \<lparr>bt_het_mgr = 0, bt_dev_mem = 0, bt_fsl_l1d = 0, map_d = [],
       het_sys_map = h_sys_map het_sample, bt_sh_ctrl = None, intvec_addr = 0, bt_core_id = 0, semaphore_num = 0, bt_trg_id = 0\<rparr>,
     regs = (\<lambda>_. 0), clock = 0, dram = (\<lambda>_. 0), accesses = [], open_fds = {0, 1, 2}, DCFG_BRR_mask = 0, GIC_VIGR_VALUE = 0,
     need_clear = False, pa_init_done = False, kern = het_sample, seg_lib = \<lparr>lib_seg = sample_seg, shm_init_done = False\<rparr>,
     seg_drv = shm_module (shm_initialize 0 0), ipcs = sample_state\<rparr>"

definition sample_cores :: "bt_core list" where
  "sample_cores = [\<lparr>ci_core_id = 1, ci_trg_id = 0x10, ci_image = ''hw_sem''\<rparr>, \<lparr>ci_core_id = 0, ci_trg_id = 0, ci_image = ''a''\<rparr>]"

abbreviation "sample_table \<equiv> boot_sample\<lparr>bt := (bt boot_sample)\<lparr>het_sys_map := h_sys_map (kern boot_sample), map_d := area_table (h_sys_map (kern boot_sample))\<rparr>\<rparr>"

lemma sample_map: "h_sys_map het_sample = get_het_sys_map True het_sample_par"
  by code_simp

lemma sample_sound: "sound_system boot_sample_env True het_sample_par boot_sample"
proof -
  have "fst (fsl_shm_init True um_sample_env um_sample_sys (dsp_shared_size (get_het_sys_map True het_sample_par)) True
      \<lparr>lib_seg = sample_seg, shm_init_done = False\<rparr> (shm_module (shm_initialize 0 0))) \<noteq> 0"
    by code_simp
  then show ?thesis
    using exI [of "\<lambda>y. h_ctrl het_sample = Some y", OF het_sample_loads(2)] sample_map
    by (simp add: sound_system_def boot_sample_env_def boot_sample_def controlled_def het_sample_par_def split: boot_dev.split)
qed

lemma sample_settle: "regs (settle boot_sample_env s) = (\<lambda>a. if a = CCSR + 0x8F2108 then 0xFE else regs s a AND NOT (L2FI OR L2LFC))"
  by (simp add: settle_def boot_sample_env_def)

lemma sample_caches: "\<forall>j < 3. l2_reacts boot_sample_env j"
proof -
  have r: "reacts boot_sample_env a v P" if "a \<noteq> CCSR + 0x8F2108" "P (v AND NOT (L2FI OR L2LFC))" for a v P
    unfolding reacts_def using that by (auto intro!: exI [of _ 0] simp: numeral_2_eq_2 sample_settle and.assoc)
  have "l2_reacts boot_sample_env 0" "l2_reacts boot_sample_env 1" "l2_reacts boot_sample_env 2"
    unfolding l2_reacts_def Let_def by (intro conjI r; simp)+
  then show ?thesis by (auto simp: numeral_3_eq_3 less_Suc_eq numeral_2_eq_2)
qed

lemma sample_answers: "dsp_answers boot_sample_env (word_of_int (ci_core_id (hd sample_cores)))"
  by (simp add: dsp_answers_def sample_cores_def sample_settle)

lemma sample_sections:
  assumes "mmap_ok env = (\<lambda>_ _ _. True)"
  shows "\<forall>x \<in> set sample_secs. section_ok env sample_table x"
proof -
  have t: "map_d (bt sample_table) = area_table (get_het_sys_map True het_sample_par)" "het_sys_map (bt sample_table) = get_het_sys_map True het_sample_par"
    by (simp_all add: boot_sample_def sample_map)
  show ?thesis
    using t assms by (simp add: sample_secs_def is_ccsr_def in_map_def area_table_def get_het_sys_map_def at_least_def het_sample_par_def)
qed

lemma sample_images: "images_ok boot_sample_env (\<lambda>_. sample_secs) (tl sample_cores) sample_table"
  using sample_sections [of boot_sample_env] by (simp add: images_ok_def sample_cores_def) (auto simp: boot_sample_env_def)

lemma sample_start: "\<exists>t. b4860_load_dsp_image boot_sample_env sample_cores boot_sample = Returns (0, t)"
proof -
  have "ci_core_id (last sample_cores) \<le> 5" by (simp add: sample_cores_def)
  from load_succeeds [OF sample_sound this sample_caches refl sample_images sample_answers] show ?thesis by (auto simp: ends_def)
qed

theorem dsp_start_succeeds_witness:
  "\<exists>t. b4860_load_dsp_image boot_sample_env sample_cores boot_sample = Returns (0, t) \<and> dram t 0x80000002 = 3"
proof -
  have "ci_core_id (last sample_cores) \<le> 5" by (simp add: sample_cores_def)
  from dsp_start_succeeds [OF sample_sound this sample_caches refl sample_images sample_answers]
  show ?thesis by (auto simp: sample_cores_def sample_secs_def put_bytes_def)
qed

theorem image_round_trip_witness:
  "load_dsp_image boot_sample_env ''a'' sample_table = Returns (0, fold (apply_section boot_sample_env) sample_secs sample_table)"
  by (rule image_round_trip [of _ _ 1]) (use sample_sections [of boot_sample_env] in \<open>simp_all add: boot_sample_env_def\<close>)

theorem truncated_image_accepted_witness:
  "load_dsp_image (boot_sample_env\<lparr>image_file := (\<lambda>_. Some (image_bytes 1 sample_secs @ [0, 0, 0, 0, 0x90]))\<rparr>) ''b'' sample_table =
     Returns (0, fold (apply_section (boot_sample_env\<lparr>image_file := (\<lambda>_. Some (image_bytes 1 sample_secs @ [0, 0, 0, 0, 0x90]))\<rparr>)) sample_secs sample_table)"
  by (rule truncated_image_accepted [where bs = "image_bytes 1 sample_secs @ [0, 0, 0, 0, 0x90]" and frag = "[0, 0, 0, 0, 0x90]" and endian = 1,
        OF _ sample_sections _ disjI2])
    (simp_all add: boot_sample_env_def)

theorem dsp_release_last_witness:
  "\<exists>t pre img rel post v. b4860_load_dsp_image boot_sample_env sample_cores boot_sample = Returns (0, t) \<and>
     accesses t = pre @ img @ rel @ post \<and> list_all own pre \<and> list_all from_image img \<and> accesses v = pre @ img \<and>
     rel = release_writes (ccsr_base t) (intvec_addr (bt t)) 0x10
       (brr_read boot_sample_env (ccsr_base t) (intvec_addr (bt t)) 0x10 v OR 0x10)"
proof -
  obtain t where t: "b4860_load_dsp_image boot_sample_env sample_cores boot_sample = Returns (0, t)" using sample_start ..
  have s: "DCFG_BRR_mask boot_sample = 0" "core_bits (tl sample_cores) = 0x10" "ci_trg_id (hd sample_cores) = 0x10" "accesses boot_sample = []"
    by (simp_all add: boot_sample_def sample_cores_def)
  from dsp_release_last [OF t] show ?thesis unfolding s using t by auto
qed

lemma sample_leaves_segment_open:
  "\<exists>t. b4860_load_dsp_image boot_sample_env sample_cores boot_sample = Returns (0, t) \<and> open_fds t = {0, 1, 2, 6}"
proof -
  obtain t where t: "b4860_load_dsp_image boot_sample_env sample_cores boot_sample = Returns (0, t)" using sample_start ..
  have "fresh_fds boot_sample_env boot_sample" by (auto simp: fresh_fds_def boot_sample_def boot_sample_env_def split: boot_dev.splits)
  from start_leaves_segment_open [OF this t] t show ?thesis by (auto simp: boot_sample_def boot_sample_env_def)
qed

theorem boot_waits_for_semaphore_witness:
  "\<exists>t. check_dsp_boot_B4 boot_sample_env (sample_table\<lparr>bt := (bt sample_table)\<lparr>semaphore_num := 1\<rparr>\<rparr>) = Returns (0, t)"
proof -
  let ?s = "sample_table\<lparr>bt := (bt sample_table)\<lparr>semaphore_num := 1\<rparr>\<rparr>"
  have h: "het_sys_map (bt ?s) = get_het_sys_map True het_sample_par" by (simp add: boot_sample_def sample_map)
  then have "mapped (get_het_sys_map True het_sample_par) ?s" by (simp add: mapped_def boot_sample_def sample_map)
  then obtain m where m: "map_area64 boot_sample_env CCSR 0x1000000 ?s = Some m" "\<And>off. off \<le> 0xFFFFFC \<Longrightarrow> reachable m off 4"
    using ccsr_mapping [of True het_sample_par ?s boot_sample_env] by (auto simp: boot_sample_env_def)
  have "strt_phys (m_dsp_ccsrbar (het_sys_map (bt ?s))) = CCSR" "strt_size (m_dsp_ccsrbar (het_sys_map (bt ?s))) = 0x1000000"
    unfolding h by (simp_all add: get_het_sys_map_def)
  then show ?thesis
    using boot_waits_for_semaphore [where s = ?s and env = boot_sample_env and m = m, OF refl _ _ _ refl] m
    by (simp add: sample_settle)
qed

end
