(* ===== verification/DSP_Command.thy ===== *)
theory DSP_Command
  imports DSP_Start Event_Interface "HOL-Library.Multiset"
begin

text \<open>
  The command that starts the DSP (\<open>dsp_boot/dsp_boot.c\<close>): the options with the images, their sorting by core number, the
  description handed to the warm reset, and the first start when the warm reset fails.
\<close>

section \<open>Sorting\<close>

definition swap_step :: "nat \<Rightarrow> bt_core list \<Rightarrow> bt_core list" where
  "swap_step j cs = (if ci_core_id (cs ! j) > ci_core_id (cs ! (j + 1)) then cs[j := cs ! (j + 1), j + 1 := cs ! j] else cs)"

definition bubble_pass :: "nat \<Rightarrow> nat \<Rightarrow> bt_core list \<Rightarrow> bt_core list" where
  "bubble_pass argc i cs = fold swap_step [1..<argc - i - 1] cs"

definition bubble_sort :: "nat \<Rightarrow> bt_core list \<Rightarrow> bt_core list" where
  "bubble_sort argc cs = fold (bubble_pass argc) [0..<argc] cs"

text \<open>One pass on the list behind the first entry: the largest of the first \<open>m + 1\<close> moves to their end.\<close>

fun bub :: "nat \<Rightarrow> bt_core list \<Rightarrow> bt_core list" where
  "bub (Suc m) (a # b # cs) = (if ci_core_id a > ci_core_id b then b # bub m (a # cs) else a # bub m (b # cs))"
| "bub m cs = cs"

lemma swap_steps_bub:
  "m < length cs \<Longrightarrow> fold swap_step [length ps..<length ps + m] (ps @ cs) = ps @ bub m cs"
proof (induction m cs arbitrary: ps rule: bub.induct)
  case (1 m a b cs)
  have r: "[length ps..<length ps + Suc m] = length ps # [length (ps @ [x])..<length (ps @ [x]) + m]" for x :: bt_core
    by (simp add: upt_rec)
  have s: "swap_step (length ps) (ps @ a # b # cs) = (if ci_core_id a > ci_core_id b then (ps @ [b]) @ a # cs else (ps @ [a]) @ b # cs)"
    by (simp add: swap_step_def nth_append list_update_append)
  show ?case
  proof (cases "ci_core_id a > ci_core_id b")
    case True
    then show ?thesis using "1.IH"(1) [OF True, of "ps @ [b]"] "1.prems" s by (subst r [of b]) simp
  next
    case False
    then show ?thesis using "1.IH"(2) [OF False, of "ps @ [a]"] "1.prems" s by (subst r [of a]) simp
  qed
qed auto

lemma bub_same: "length (bub m cs) = length cs" "mset (bub m cs) = mset cs"
  "filter (\<lambda>c. ci_core_id c = k) (bub m cs) = filter (\<lambda>c. ci_core_id c = k) cs"
  by (induction m cs rule: bub.induct) auto

lemma bub_last:
  "length ps = Suc m \<Longrightarrow> \<exists>ys x. bub m (ps @ qs) = ys @ x # qs \<and> length ys = m \<and> (\<forall>y \<in> set ys. ci_core_id y \<le> ci_core_id x)"
proof (induction m arbitrary: ps)
  case 0
  then obtain x where "ps = [x]" by (auto simp: length_Suc_conv)
  then show ?case by (cases qs) (auto intro: exI [of _ "[]"])
next
  case (Suc m)
  then obtain a b ws where ps: "ps = a # b # ws" by (auto simp: length_Suc_conv)
  let ?p = "if ci_core_id a > ci_core_id b then (b, a) else (a, b)"
  obtain ys x where i: "bub m ((snd ?p # ws) @ qs) = ys @ x # qs" "length ys = m" "\<forall>y \<in> set ys. ci_core_id y \<le> ci_core_id x"
    using Suc.IH [of "snd ?p # ws"] Suc.prems ps by auto
  have "mset (ys @ [x]) = mset (snd ?p # ws)" using bub_same(2) [of m "(snd ?p # ws) @ qs"] i(1) by simp
  then have "snd ?p \<in> set (ys @ [x])" by (metis list.set_intros(1) set_mset_mset)
  then have "ci_core_id (snd ?p) \<le> ci_core_id x" using i(3) by auto
  then have "ci_core_id (fst ?p) \<le> ci_core_id x" by (auto split: if_splits)
  moreover have "bub (Suc m) (ps @ qs) = fst ?p # ys @ x # qs" using i(1) ps by auto
  ultimately show ?case using i(2,3) by (intro exI [of _ "fst ?p # ys"] exI [of _ x]) auto
qed

text \<open>After \<open>i\<close> passes the last \<open>i\<close> entries are in place.\<close>

definition settled :: "nat \<Rightarrow> bt_core list \<Rightarrow> bt_core list \<Rightarrow> bool" where
  "settled i cs ds \<longleftrightarrow> mset ds = mset cs \<and> (\<forall>k. filter (\<lambda>c. ci_core_id c = k) ds = filter (\<lambda>c. ci_core_id c = k) cs) \<and>
     (\<exists>ps qs. ds = ps @ qs \<and> length qs = min i (length cs) \<and> sorted (map ci_core_id qs) \<and>
        (\<forall>u \<in> set ps. \<forall>v \<in> set qs. ci_core_id u \<le> ci_core_id v))"

lemma settled_pass:
  assumes "settled i cs ds" "length cs = n"
  shows "settled (Suc i) cs (bub (n - Suc i) ds)"
proof -
  obtain ps qs where d: "ds = ps @ qs" "length qs = min i n" "sorted (map ci_core_id qs)" "\<forall>u \<in> set ps. \<forall>v \<in> set qs. ci_core_id u \<le> ci_core_id v"
    and m: "mset ds = mset cs" and f: "\<And>k. filter (\<lambda>c. ci_core_id c = k) ds = filter (\<lambda>c. ci_core_id c = k) cs"
    using assms by (auto simp: settled_def)
  have len: "length ps + length qs = n" using m d(1) assms(2) by (metis length_append size_mset)
  show ?thesis
  proof (cases "i < n")
    case False
    then have "ps = []" "n - Suc i = 0" using len d(2) by auto
    moreover have "bub 0 ds = ds" by (cases ds) auto
    ultimately show ?thesis using d m f assms(2) False unfolding settled_def by (intro conjI exI [of _ "[]"] exI [of _ qs]) simp_all
  next
    case True
    then have "length ps = Suc (n - Suc i)" using len d(2) by simp
    from bub_last [OF this, of qs] obtain ys x where b: "bub (n - Suc i) ds = ys @ x # qs" "\<forall>y \<in> set ys. ci_core_id y \<le> ci_core_id x"
      using d(1) by auto
    have "mset (ys @ [x]) = mset ps" using bub_same(2) [of "n - Suc i" ds] b(1) d(1) by simp
    then have su: "set ps = insert x (set ys)" by (metis Un_insert_right list.simps(15) set_append set_mset_mset sup_bot.right_neutral empty_set)
    have "length (x # qs) = min (Suc i) (length cs)" using d(2) True assms(2) by simp
    moreover have "sorted (map ci_core_id (x # qs))" using d(3,4) su by auto
    moreover have "\<forall>u \<in> set ys. \<forall>v \<in> set (x # qs). ci_core_id u \<le> ci_core_id v" using b(2) d(4) su by auto
    ultimately show ?thesis
      unfolding settled_def bub_same using m f b(1) by blast
  qed
qed

lemma bubble_sort_tail: "bubble_sort (Suc (length cs)) (c # cs) = c # sort_key ci_core_id cs"
proof -
  let ?n = "length cs"
  have pass: "bubble_pass (Suc ?n) i (c # ds) = c # bub (?n - Suc i) ds" if "length ds = ?n" for i ds
  proof (cases "?n - Suc i < length ds")
    case True
    have "[1..<Suc ?n - i - 1] = [length [c]..<length [c] + (?n - Suc i)]"
      by (cases "i < ?n") (simp_all add: Suc_diff_Suc del: upt_Suc)
    then show ?thesis using swap_steps_bub [OF True, of "[c]"] unfolding bubble_pass_def by simp
  next
    case False
    then show ?thesis using that by (cases ds) (simp_all add: bubble_pass_def)
  qed
  have "\<exists>ds. fold (bubble_pass (Suc ?n)) [0..<k] (c # cs) = c # ds \<and> settled k cs ds" for k
  proof (induction k)
    case 0
    then show ?case by (auto simp: settled_def)
  next
    case (Suc k)
    then obtain ds where ds: "fold (bubble_pass (Suc ?n)) [0..<k] (c # cs) = c # ds" "settled k cs ds" by auto
    have "length ds = ?n" using ds(2) by (metis settled_def size_mset)
    then show ?case using ds pass [of ds k] settled_pass [OF ds(2) refl] by simp
  qed
  then obtain ds where ds: "bubble_sort (Suc ?n) (c # cs) = c # ds" "settled (Suc ?n) cs ds" unfolding bubble_sort_def by blast
  then obtain ps qs where q: "ds = ps @ qs" "length qs = ?n" "sorted (map ci_core_id qs)" "mset ds = mset cs"
    and f: "\<And>k. filter (\<lambda>c. ci_core_id c = k) ds = filter (\<lambda>c. ci_core_id c = k) cs"
    unfolding settled_def by auto
  have "length ps + length qs = ?n" using q(1,4) by (metis length_append size_mset)
  then have "ds = qs" using q(1,2) by simp
  then have "sort_key ci_core_id cs = ds" using q(3,4) f by (intro properties_for_sort_key) (auto simp: eq_commute)
  then show ?thesis using ds(1) by simp
qed

text \<open>C39: The sorting of the images agrees with the library's stable sort: the entries behind the first are ordered by core number,
  images of the same core in the order they were given, and the first entry, which holds the semaphore number, stays.\<close>

theorem bubble_sort_stable: "cs \<noteq> [] \<Longrightarrow> bubble_sort (length cs) cs = hd cs # sort_key ci_core_id (tl cs)"
  by (cases cs) (simp_all add: bubble_sort_tail)

section \<open>The command line\<close>

text \<open>
  \<open>getopt\<close> with the option string \<open>i:c:s:h:d:\<close>: the options in order, \<open>?\<close> for an unknown letter or a missing argument, after
  which the command exits. Arguments that are not options are moved behind the options. The second result is whether an argument
  was consumed at all (\<open>optind\<close> is not 1).
\<close>

fun getopt_all :: "string list \<Rightarrow> (char \<times> string) list \<times> bool" where
  "getopt_all [] = ([], False)"
| "getopt_all (a # as) =
     (if a = ''--'' then ([], True)
      else if length a < 2 \<or> hd a \<noteq> CHR ''-'' then getopt_all as
      else if a ! 1 \<notin> set ''icshd'' then ([(CHR ''?'', [])], True)
      else if length a > 2 then ((a ! 1, drop 2 a) # fst (getopt_all as), True)
      else (case as of [] \<Rightarrow> ([(CHR ''?'', [])], True) | b # bs \<Rightarrow> ((a ! 1, b) # fst (getopt_all bs), True)))"

definition isdigit :: "char \<Rightarrow> bool" where
  "isdigit c \<longleftrightarrow> 48 \<le> (of_char c :: nat) \<and> (of_char c :: nat) \<le> 57"

definition digits_val :: "string \<Rightarrow> nat" where
  "digits_val ds = foldl (\<lambda>v c. 10 * v + (of_char c - 48)) 0 ds"

text \<open>\<open>atoi\<close> of a string that starts with a digit; a \<open>long\<close> has 32 bits and is limited to its largest value.\<close>

definition atoi :: "string \<Rightarrow> int" where
  "atoi s = min (2 ^ 31 - 1) (int (digits_val (takeWhile isdigit s)))"

text \<open>\<open>strtoul\<close> to the base 16, with the three checks of the caller: \<open>None\<close> when one of them fails.\<close>

definition hex_digit :: "char \<Rightarrow> nat option" where
  "hex_digit c = (let n = of_char c :: nat in
     if 48 \<le> n \<and> n \<le> 57 then Some (n - 48) else if 65 \<le> n \<and> n \<le> 70 then Some (n - 55)
     else if 97 \<le> n \<and> n \<le> 102 then Some (n - 87) else None)"

definition isspace :: "char \<Rightarrow> bool" where
  "isspace c \<longleftrightarrow> (of_char c :: nat) = 32 \<or> 9 \<le> (of_char c :: nat) \<and> (of_char c :: nat) \<le> 13"

definition strtoul16 :: "string \<Rightarrow> u32 option" where
  "strtoul16 str =
     (let s1 = dropWhile isspace str;
          neg = (s1 \<noteq> [] \<and> hd s1 = CHR ''-'');
          s2 = (if s1 \<noteq> [] \<and> hd s1 \<in> {CHR ''-'', CHR ''+''} then tl s1 else s1);
          s3 = (if length s2 > 2 \<and> take 2 s2 \<in> {''0x'', ''0X''} \<and> hex_digit (s2 ! 2) \<noteq> None then drop 2 s2 else s2);
          v = foldl (\<lambda>v c. 16 * v + the (hex_digit c)) 0 (takeWhile (\<lambda>c. hex_digit c \<noteq> None) s3)
      in if s3 = [] \<or> list_ex (\<lambda>c. hex_digit c = None) s3 \<or> v \<ge> 2 ^ 32 then None
         else Some (if neg then - of_nat v else of_nat v))"

text \<open>The table of images with its 20 entries, the first of which holds the semaphore and the memory controller; the local counters.\<close>

record dsp_cmd =
  CoreInfo :: "bt_core list"
  cmd_i :: nat
  cnt_c :: nat
  cnt_i :: nat

datatype cmd_run = Parsed dsp_cmd | Exits | Overruns

abbreviation (input) "DDRC1_TRG_ID \<equiv> (0x10 :: u32)"
abbreviation (input) "DSP_SAFE_ADDR \<equiv> (0x80000000 :: u32)"
abbreviation (input) "HW_SEM \<equiv> ''hw_sem''"

definition no_core :: bt_core where
  "no_core = \<lparr>ci_core_id = 0, ci_trg_id = 0, ci_image = []\<rparr>"

definition sem_entry :: "int \<Rightarrow> bt_core" where
  "sem_entry h = \<lparr>ci_core_id = h, ci_trg_id = DDRC1_TRG_ID, ci_image = HW_SEM\<rparr>"

definition start_cmd :: dsp_cmd where
  "start_cmd = \<lparr>CoreInfo = sem_entry 0 # replicate 19 no_core, cmd_i = 1, cnt_c = 0, cnt_i = 0\<rparr>"

definition with_core :: "nat \<Rightarrow> (bt_core \<Rightarrow> bt_core) \<Rightarrow> dsp_cmd \<Rightarrow> dsp_cmd" where
  "with_core i f c = c\<lparr>CoreInfo := (CoreInfo c)[i := f (CoreInfo c ! i)]\<rparr>"

text \<open>A name is copied to 500 bytes without a check, the entry behind the last one is written without one.\<close>

definition opt_step :: "char \<times> string \<Rightarrow> dsp_cmd \<Rightarrow> cmd_run" where
  "opt_step o1 c =
     (case o1 of (opt, optarg) \<Rightarrow>
       let i = cmd_i c; digit = (optarg \<noteq> [] \<and> isdigit (hd optarg)) in
       if opt = CHR ''c'' then
         if \<not> digit then Exits else if i \<ge> 20 then Overruns
         else Parsed ((with_core i (\<lambda>x. x\<lparr>ci_core_id := atoi optarg\<rparr>) c)\<lparr>cnt_c := Suc (cnt_c c)\<rparr>)
       else if opt = CHR ''i'' then
         if i \<ge> 20 \<or> length optarg > 500 then Overruns
         else if cnt_c c \<noteq> Suc (cnt_i c) then Exits
         else Parsed ((with_core i (\<lambda>x. x\<lparr>ci_image := optarg\<rparr>) c)\<lparr>cmd_i := Suc i, cnt_i := Suc (cnt_i c)\<rparr>)
       else if opt = CHR ''s'' then
         if i \<ge> 20 \<or> length optarg > 500 then Overruns
         else Parsed ((with_core i (\<lambda>x. x\<lparr>ci_core_id := - 1, ci_image := optarg\<rparr>) c)\<lparr>cmd_i := Suc i\<rparr>)
       else if opt = CHR ''d'' then
         Parsed (with_core 0 (\<lambda>x. x\<lparr>ci_trg_id := (case strtoul16 optarg of Some v \<Rightarrow> v | None \<Rightarrow> DDRC1_TRG_ID)\<rparr>) c)
       else if opt = CHR ''h'' then
         if \<not> digit then Exits else Parsed (with_core 0 (\<lambda>x. x\<lparr>ci_core_id := atoi optarg\<rparr>) c)
       else Exits)"

fun opt_steps :: "(char \<times> string) list \<Rightarrow> dsp_cmd \<Rightarrow> cmd_run" where
  "opt_steps [] c = Parsed c"
| "opt_steps (x # xs) c = (case opt_step x c of Parsed d \<Rightarrow> opt_steps xs d | r \<Rightarrow> r)"

definition parse_args :: "string list \<Rightarrow> cmd_run" where
  "parse_args args =
     (case getopt_all args of (os, any) \<Rightarrow>
        (case opt_steps os start_cmd of
           Parsed c \<Rightarrow> if \<not> any \<or> cnt_c c \<noteq> cnt_i c then Exits else Parsed c
         | r \<Rightarrow> r))"

text \<open>
  The description for the warm reset: every image in the order of the table, at its position; 12 entries of each kind, of which
  none may be left over; a name that fills its 500 bytes has no end.
\<close>

definition no_reload :: reload_core where
  "no_reload = \<lparr>reset_core_flag = 0, rl_core_id = 0, dsp_filename = [], wpt_begin_addr = 0, wpt_end_addr = 0,
     wpt_type = CHR 0x00, dsp_safe_addr = 0\<rparr>"

definition reload_entry :: "bt_core \<Rightarrow> reload_core" where
  "reload_entry c = no_reload\<lparr>dsp_filename := ci_image c, rl_core_id := word_of_int (ci_core_id c), reset_core_flag := 1\<rparr>"

definition restart_info :: "bt_core list \<Rightarrow> core_info" where
  "restart_info cs =
     \<lparr>hw_sem_num = 0, reset_mode = MODE_3_ACTIVE, maple_reset_mode = 0xE, debug_print = 0, cfg_wpt = 0,
      shDspCoreInfo = replicate 12 no_reload,
      reDspCoreInfo = (let es = map reload_entry cs @ replicate (12 - length cs) no_reload in
        map (\<lambda>e. e\<lparr>dsp_safe_addr := DSP_SAFE_ADDR\<rparr>) (take NR_DSP_CORE es) @ drop NR_DSP_CORE es)\<rparr>"

definition restart_or_load :: "boot_env \<Rightarrow> bt_core list \<Rightarrow> int prog" where
  "restart_or_load env cores =
     bnd (fsl_start_L1_defense env False (restart_info (tl cores))) (\<lambda>r.
       if r \<noteq> 0 then thn (b4860_load_dsp_image env cores) (ret 0) else ret 0)"

definition dsp_boot_main :: "boot_env \<Rightarrow> string list \<Rightarrow> int prog" where
  "dsp_boot_main env args =
     (case parse_args args of
        Exits \<Rightarrow> ret 1
      | Overruns \<Rightarrow> (\<lambda>_. Faults)
      | Parsed c \<Rightarrow>
          (let cores = bubble_sort (cmd_i c) (take (cmd_i c) (CoreInfo c)) in
           if cmd_i c - 1 > 12 \<or> list_ex (\<lambda>x. length (ci_image x) = 500) (tl cores) then (\<lambda>_. Faults)
           else restart_or_load env cores))"

section \<open>What the command does\<close>

text \<open>A number in decimal, and the command line for a semaphore and a list of images.\<close>

fun dec :: "nat \<Rightarrow> string" where
  "dec n = (if n < 10 then [char_of (48 + n)] else dec (n div 10) @ [char_of (48 + n mod 10)])"

declare dec.simps [simp del]

definition cmd_line :: "nat \<Rightarrow> (nat \<times> string) list \<Rightarrow> string list" where
  "cmd_line h imgs = [''-h'', dec h] @ concat (map (\<lambda>(c, f). [''-c'', dec c, ''-i'', f]) imgs)"

definition image_entry :: "nat \<times> string \<Rightarrow> bt_core" where
  "image_entry p = \<lparr>ci_core_id = int (fst p), ci_trg_id = 0, ci_image = snd p\<rparr>"

lemma digit_of:
  fixes n :: nat
  assumes "n < 10"
  shows "isdigit (char_of (48 + n))" "of_char (char_of (48 + n)) - 48 = n"
  using assms by (simp_all add: isdigit_def)

lemma dec_digits: "list_all isdigit (dec n)" "digits_val (dec n) = n" "dec n \<noteq> []"
proof (induction n rule: dec.induct)
  case (1 n)
  { case 1 show ?case using "1.IH"(1) by (subst dec.simps) (auto simp: digit_of) }
  { case 2 show ?case using "1.IH"(2) by (subst dec.simps) (auto simp: digit_of digits_val_def) }
  { case 3 show ?case by (subst dec.simps) simp }
qed

lemma atoi_dec: "n < 2 ^ 31 \<Longrightarrow> atoi (dec n) = int n"
  using dec_digits [of n] by (simp add: atoi_def list_all_iff takeWhile_eq_all_conv [THEN iffD2])

lemma dec_digit: "isdigit (hd (dec n))"
  using dec_digits [of n] by (cases "dec n") auto

abbreviation "cmd_opts h imgs \<equiv> (CHR ''h'', dec h) # concat (map (\<lambda>(c, f). [(CHR ''c'', dec c), (CHR ''i'', f)]) imgs)"

lemma getopt_line: "getopt_all (cmd_line h imgs) = (cmd_opts h imgs, True)"
proof -
  have "fst (getopt_all (concat (map (\<lambda>(c, f). [''-c'', dec c, ''-i'', f]) imgs))) = concat (map (\<lambda>(c, f). [(CHR ''c'', dec c), (CHR ''i'', f)]) imgs)"
    by (induction imgs) auto
  then show ?thesis by (simp add: cmd_line_def)
qed

definition cmd_at :: "nat \<Rightarrow> (nat \<times> string) list \<Rightarrow> dsp_cmd" where
  "cmd_at h ds = \<lparr>CoreInfo = sem_entry (int h) # map image_entry ds @ replicate (19 - length ds) no_core,
     cmd_i = Suc (length ds), cnt_c = length ds, cnt_i = length ds\<rparr>"

abbreviation "img_ok imgs \<equiv> \<forall>x \<in> set imgs. fst x < 2 ^ 31 \<and> length (snd x) < 500"

lemma opt_steps_images:
  assumes "length ds + length imgs \<le> 19" "img_ok imgs"
  shows "opt_steps (concat (map (\<lambda>(c, f). [(CHR ''c'', dec c), (CHR ''i'', f)]) imgs)) (cmd_at h ds) = Parsed (cmd_at h (ds @ imgs))"
  using assms
proof (induction imgs arbitrary: ds)
  case (Cons x imgs)
  obtain k where k: "19 - length ds = Suc k" "19 - length (ds @ [x]) = k" using Cons.prems(1) by (cases "19 - length ds") auto
  have "opt_steps [(CHR ''c'', dec (fst x)), (CHR ''i'', snd x)] (cmd_at h ds) = Parsed (cmd_at h (ds @ [x]))"
    using Cons.prems unfolding cmd_at_def k
    by (simp add: opt_step_def with_core_def dec_digit dec_digits(3) atoi_dec nth_append list_update_append image_entry_def no_core_def)
  then show ?case using Cons.IH [of "ds @ [x]"] Cons.prems by (cases x) (auto split: cmd_run.splits)
qed simp

lemma parse_line:
  assumes "h < 2 ^ 31" "length imgs \<le> 19" "img_ok imgs"
  shows "parse_args (cmd_line h imgs) = Parsed (cmd_at h imgs)"
proof -
  have "opt_step (CHR ''h'', dec h) start_cmd = Parsed (cmd_at h [])"
    using assms(1) by (simp add: opt_step_def start_cmd_def cmd_at_def with_core_def dec_digit dec_digits(3) atoi_dec sem_entry_def)
  then show ?thesis using opt_steps_images [of "[]" imgs h] assms(2,3)
    by (simp add: parse_args_def getopt_line) (simp add: cmd_at_def)
qed

lemma command_line_run:
  assumes "h < 2 ^ 31" "length imgs \<le> 12" "\<forall>x \<in> set imgs. fst x < 2 ^ 31 \<and> length (snd x) < 500"
  shows "dsp_boot_main env (cmd_line h imgs) = restart_or_load env (sem_entry (int h) # map image_entry (sort_key fst imgs))"
proof -
  have "sort_key ci_core_id (map image_entry imgs) = map image_entry (sort_key fst imgs)"
  proof (rule properties_for_sort_key)
    show "mset (map image_entry (sort_key fst imgs)) = mset (map image_entry imgs)" by (metis mset_map mset_sort)
    show "sorted (map ci_core_id (map image_entry (sort_key fst imgs)))"
      using sorted_sort_key [of fst imgs] by (simp add: image_entry_def sorted_map comp_def)
    fix k :: bt_core
    have "filter (\<lambda>x. ci_core_id (image_entry x) = ci_core_id k) (sort_key fst imgs) = filter (\<lambda>x. ci_core_id (image_entry x) = ci_core_id k) imgs"
    proof (cases "\<exists>n. ci_core_id k = int n")
      case True
      then obtain n where "ci_core_id k = int n" ..
      then show ?thesis using sort_key_stable [of fst n imgs] by (simp add: image_entry_def)
    next
      case False
      then have "ci_core_id (image_entry x) \<noteq> ci_core_id k" for x by (metis bt_core.select_convs(1) image_entry_def)
      then show ?thesis by simp
    qed
    then show "filter (\<lambda>y. ci_core_id k = ci_core_id y) (map image_entry (sort_key fst imgs)) =
        filter (\<lambda>y. ci_core_id k = ci_core_id y) (map image_entry imgs)"
      by (simp add: filter_map comp_def eq_commute)
  qed
  then have s: "bubble_sort (cmd_i (cmd_at h imgs)) (take (cmd_i (cmd_at h imgs)) (CoreInfo (cmd_at h imgs))) =
      sem_entry (int h) # map image_entry (sort_key fst imgs)"
    using bubble_sort_tail [of "map image_entry imgs" "sem_entry (int h)"] by (simp add: cmd_at_def)
  have "\<not> list_ex (\<lambda>x. length (ci_image x) = 500) (map image_entry (sort_key fst imgs))"
    using assms(3) by (auto simp: list_ex_iff image_entry_def)
  then show ?thesis using parse_line [of h imgs] assms s by (simp add: dsp_boot_main_def Let_def) (simp add: cmd_at_def)
qed

text \<open>The command line is followed: with the options in the order of the usage message, up to twelve images and names of less
  than 500 characters, the command tries the warm reset and, if that fails, the first start, with the semaphore given and the
  images ordered by core number, those of the same core in the order of the command line.\<close>

lemma dsp_boot_command:
  assumes "h < 2 ^ 31" "length imgs \<le> 12" "\<forall>x \<in> set imgs. fst x < 2 ^ 31 \<and> length (snd x) < 500"
  shows "dsp_boot_main env (cmd_line h imgs) = restart_or_load env (sem_entry (int h) # map image_entry (sort_key fst imgs))"
  by (rule command_line_run [OF assms])

text \<open>The warm reset is by position: whatever the core numbers are, with \<open>n\<close> images the cores held, reset and released are the first \<open>n\<close>,
  at most six, and core \<open>i\<close> gets the image at position \<open>i\<close> of the table.\<close>

theorem restart_by_position:
  assumes "length cs \<le> 12"
  shows "core_mask (reDspCoreInfo (restart_info cs)) 4 = push_bit 4 (mask (min 6 (length cs))) \<and>
    (\<forall>i < min 6 (length cs). dsp_filename (reDspCoreInfo (restart_info cs) ! i) = ci_image (cs ! i))"
proof -
  let ?re = "reDspCoreInfo (restart_info cs)"
  have e: "?re ! i = (if i < length cs then reload_entry (cs ! i) else no_reload)\<lparr>dsp_safe_addr := DSP_SAFE_ADDR\<rparr>" if "i < 6" for i
    using that assms by (auto simp: restart_info_def Let_def nth_append)
  have f: "reset_core_flag (?re ! i) = (if i < length cs then 1 else 0)" if "i < 6" for i
    using e [OF that] by (simp add: reload_entry_def no_reload_def)
  have u: "[0..<NR_DSP_CORE] = [0, 1, 2, 3, 4, 5]" by (simp add: upt_conv_Cons)
  have "length cs = 0 \<or> length cs = 1 \<or> length cs = 2 \<or> length cs = 3 \<or> length cs = 4 \<or> length cs = 5 \<or> 6 \<le> length cs"
    by arith
  then have "core_mask ?re 4 = push_bit 4 (mask (min 6 (length cs)))"
    by (elim disjE) (auto simp: core_mask_def u f mask_eq_exp_minus_1 simp del: length_0_conv)
  then show ?thesis using e by (auto simp: reload_entry_def no_reload_def)
qed

text \<open>C40: The command closes the devices of the manager, of the memory and of the L1 defense driver, whatever its arguments and
  whatever fails. Besides what was open before, it leaves open one device, \<open>/dev/fsl_shm\<close>, exactly when the shared segment
  was attached: \<open>fsl_shm_init\<close> never closes it then. The descriptors are taken to be distinct and the process not to have attached
  the segment before.\<close>

theorem dsp_boot_closes_devices:
  assumes "\<forall>d. dev_fd env d \<notin> open_fds s" "seg_fd env \<notin> insert (- 1) (open_fds s \<union> range (dev_fd env))" "\<not> shm_init_done (seg_lib s)"
    "dsp_boot_main env args s = Returns (r, t)"
  shows "open_fds t = (if shm_init_done (seg_lib t) then insert (seg_fd env) (open_fds s) else open_fds s)"
proof -
  have f: "fresh_fds env s" using assms(1-3) by (simp add: fresh_fds_def)
  have "open_fds u = open_fds s \<union> held env u" if run: "restart_or_load env cores s = Returns (x, u)" for cores u x
  proof -
    obtain y v where v: "fsl_start_L1_defense env False (restart_info (tl cores)) s = Returns (y, v)"
      and u: "u = v \<or> (\<exists>z. b4860_load_dsp_image env cores v = Returns (z, u))"
      using run by (auto simp: restart_or_load_def bnd_run thn_run ret_run split: if_splits)
    have k: "seg_lib v = seg_lib s" using keepsD [OF restart_keeps_segment v] .
    have o: "open_fds v = open_fds s \<union> held env v" by (rule restart_closes_devices [OF f v]) (simp add: restart_info_def)
    then have "open_fds v = open_fds s" using k assms(3) by (simp add: held_def)
    moreover have "fresh_fds env v" using f k calculation by (simp add: fresh_fds_def)
    ultimately show ?thesis using u o load_closes_devices [of env v] by auto
  qed
  then have "open_fds t = open_fds s \<union> held env t"
    using assms(3,4) by (auto simp: dsp_boot_main_def ret_run Let_def held_def split: cmd_run.splits if_splits)
  then show ?thesis by (simp add: held_def)
qed

end
