(* ===== verification/DSP_Samples.thy ===== *)
theory DSP_Samples
  imports DSP_Command
begin

text \<open>
  Sample runs of the boot command: a warm reset of core 0 on a chip whose registers keep what is written, whose core has
  acknowledged the stop and whose reset status is set, and command lines.
\<close>

section \<open>A warm reset\<close>

definition warm_kern :: het_state where
  "warm_kern = snd (het_mgr_init True True het_sample_par 0 0 (True, True, True) True het_sample_start)"

definition warm_env :: boot_env where
  "warm_env = boot_sample_env\<lparr>hw_dev := (\<lambda>_ r a. if a = CCSR + 0xE20B0 then 0 else if a = CCSR + 0xE0410 then 4
     else if a = 0xFFF003FC then READY_FOR_RESET else r a),
     model_file := Some B4860QDS_MODEL_STR, kern_multi := True\<rparr>"

definition warm_state :: boot where
  "warm_state = boot_sample\<lparr>kern := warm_kern\<rparr>"


definition warm_info :: core_info where
  "warm_info = restart_info [image_entry (0, ''a'')]"

lemma warm_kern_facts:
  "h_sys_map warm_kern = get_het_sys_map True het_sample_par"
  "h_ctrl warm_kern = Some (the (h_ctrl warm_kern))" "hc_num_ipc_regions (the (h_ctrl warm_kern)) = 2" "hc_l1d (the (h_ctrl warm_kern)) = 0xFFF003F0"
  by code_simp+

lemma warm_env_facts:
  "dev_fd warm_env Dev_het_mgr = 3" "dev_fd warm_env Dev_mem = 4" "dev_fd warm_env Dev_l1d = 5" "mmap_ok warm_env = (\<lambda>_ _ _. True)"
  "ioctl_copy warm_env" "kern_multi warm_env" "model_file warm_env = Some B4860QDS_MODEL_STR" "length B4860QDS_MODEL_STR = 12"
  "image_file warm_env ''a'' = Some (image_bytes 1 sample_secs)"
  by (simp_all add: warm_env_def boot_sample_env_def B4860QDS_MODEL_STR_def)

lemma warm_regs:
  "regs (settle warm_env s) a = (if a = CCSR + 0xE20B0 then 0 else if a = CCSR + 0xE0410 then 4 else if a = 0xFFF003FC then READY_FOR_RESET else regs s a)"
  "regs (put_reg warm_env b v ev s) a = (if a = CCSR + 0xE20B0 then 0 else if a = CCSR + 0xE0410 then 4 else if a = 0xFFF003FC then READY_FOR_RESET
     else if a = b then v else regs s a)"
  by (simp_all add: settle_def put_reg_def warm_env_def)

lemma off_bus_fields:
  "bt (settle env s) = bt s" "kern (settle env s) = kern s" "need_clear (settle env s) = need_clear s" "GIC_VIGR_VALUE (settle env s) = GIC_VIGR_VALUE s"
  "bt (put_reg env a v ev s) = bt s" "kern (put_reg env a v ev s) = kern s" "need_clear (put_reg env a v ev s) = need_clear s"
  "GIC_VIGR_VALUE (put_reg env a v ev s) = GIC_VIGR_VALUE s"
  by (simp_all add: settle_def put_reg_def)

lemma ends_poll_first:
  "reachable m off 4 \<Longrightarrow> P (regs (settle env s) (mp_phys m + of_nat off)) \<Longrightarrow>
     ends (poll env m off P) Q s \<longleftrightarrow> Q (regs (settle env s) (mp_phys m + of_nat off)) (settle env s)"
  by (simp add: ends_def poll_def poll_loop.simps Let_def)

lemma warm_masks: "core_mask (reDspCoreInfo warm_info) 4 = 0x10" "core_mask (reDspCoreInfo warm_info) 8 = 0x100"
  "reset_mode warm_info = 4" "maple_reset_mode warm_info = 0xE" "debug_print warm_info = 0" "cfg_wpt warm_info = 0" "hw_sem_num warm_info = 0"
  by code_simp+

lemma warm_flags: "reset_core_flag (reDspCoreInfo warm_info ! 0) = 1" "dsp_filename (reDspCoreInfo warm_info ! 0) = ''a''"
  "list_all (\<lambda>i. reset_core_flag (reDspCoreInfo warm_info ! i) = 0) [1..<6]"
  "list_all (\<lambda>i. reset_core_flag (shDspCoreInfo warm_info ! i) = 0) [0..<6]"
  by code_simp+

lemma ends_l1d:
  "h_ctrl (kern s) = Some c \<Longrightarrow> bt_sh_ctrl (bt s) = Some (p, z) \<Longrightarrow>
     ends (l1d_do env k) Q s \<longleftrightarrow> ends (k (direct_map env p (ucast z)) (unat (ucast (hc_l1d c - p) :: u32))) Q s"
  by (simp add: ends_def l1d_do_def)

lemma ends_kioctl:
  "ends (kioctl env cmd) Q s \<longleftrightarrow>
     (case het_mgr_ioctl (kern_multi env) (kern_par env) (\<lambda>_. None) (ioctl_copy env) (kern_junk env) (kern_maps env) cmd (kern s) of
        Inl _ \<Rightarrow> False | Inr (r, k) \<Rightarrow> Q r (s\<lparr>kern := k\<rparr>))"
  by (auto simp: ends_def kioctl_def split: sum.splits)

definition warm :: "boot \<Rightarrow> bool" where
  "warm s \<longleftrightarrow> het_sys_map (bt s) = get_het_sys_map True het_sample_par \<and> map_d (bt s) = area_table (get_het_sys_map True het_sample_par) \<and>
     bt_sh_ctrl (bt s) = Some (0xFFF00000, 0x100000) \<and> (\<exists>c. h_ctrl (kern s) = Some c \<and> hc_l1d c = 0xFFF003F0 \<and> hc_num_ipc_regions c = 2)"

lemma warm_off_bus: "warm (settle env s) = warm s" "warm (put_reg env a v ev s) = warm s"
  by (simp_all add: warm_def off_bus_fields)

lemma warm_ccsr:
  "warm s \<Longrightarrow> ends (ccsr_do warm_env k) Q s \<longleftrightarrow> ends (k \<lparr>mp_phys = CCSR, mp_room = 0x1002000, mp_ok = True\<rparr>) Q s"
  by (rule ends_ccsr [of True het_sample_par]) (auto simp: warm_def mapped_def warm_env_facts)

lemma warm_l1d:
  "warm s \<Longrightarrow> ends (l1d_do warm_env k) Q s \<longleftrightarrow> ends (k \<lparr>mp_phys = 0xFFF00000, mp_room = 0x100000, mp_ok = True\<rparr> 0x3F0) Q s"
  by (auto simp: warm_def ends_l1d direct_map_def warm_env_facts)

lemmas warm_simps = warm_off_bus warm_ccsr warm_l1d ends_simps or32_def and32_def ends_poll_first reachable_def warm_regs warm_masks off_bus_fields
  warm_env_facts

lemma warm_poll_max:
  "reachable m off 4 \<Longrightarrow> warm s \<Longrightarrow> (\<And>x t. warm t \<Longrightarrow> Q x t) \<Longrightarrow> ends (poll_max warm_env m off P n) Q s"
  by (induction n arbitrary: s) (auto simp: ends_simps warm_off_bus)

lemma warm_registers:
  assumes "warm s"
  shows "ends (set_PH15_on_dspcore_B4 warm_env warm_info) (\<lambda>r t. r = 0 \<and> warm t) s"
    "ends (dsp_L2_cache_invalidate_B4 warm_env warm_info) (\<lambda>r t. r = 1 \<and> warm t) s"
    "ends (set_reset_modes_B4 warm_env warm_info) (\<lambda>r t. warm t) s"
    "ends (set_PIR_on_dspcore_B4 warm_env warm_info) (\<lambda>r t. r = 0 \<and> warm t) s"
    "ends (l1d_hold_starcore_B4 warm_env warm_info) (\<lambda>r t. r = 0 \<and> warm t) s"
    "ends (l1d_release_starcore_B4 warm_env warm_info) (\<lambda>r t. r = 0 \<and> warm t) s"
    "ends (Reset_PIR_PH15_on_dspcore_B4 warm_env warm_info) (\<lambda>r t. r = 0 \<and> warm t) s"
  subgoal using assms by (simp add: set_PH15_on_dspcore_B4_def warm_simps warm_poll_max)
  subgoal using assms by (simp add: dsp_L2_cache_invalidate_B4_def with_model_def l2_flash_invalidate_def warm_simps)
  subgoal using assms by (simp add: set_reset_modes_B4_def warm_simps)
  subgoal using assms by (simp add: set_PIR_on_dspcore_B4_def set_PIR_mask_def warm_simps and.commute)
  subgoal using assms by (simp add: l1d_hold_starcore_B4_def warm_simps)
  subgoal using assms by (simp add: l1d_release_starcore_B4_def warm_simps)
  subgoal using assms by (simp add: Reset_PIR_PH15_on_dspcore_B4_def reset_PIR_PH15_def warm_simps and.assoc)
  done

lemma warm_ready:
  assumes "warm s"
  shows "ends (check_dsp_ready_CRSTSR_B4 warm_env warm_info) (\<lambda>r t. r = 0 \<and> warm t) s"
proof -
  have c: "[0..<NR_DSP_CORE] = 0 # [1..<6]" by (simp add: upt_conv_Cons)
  have n: "crst_loop env m cs is j = ret 0" if "list_all (\<lambda>i. reset_core_flag (cs ! i) = 0) is" for env m cs "is" j
    using that by (induction "is") auto
  have w: "ends (crst_wait warm_env \<lparr>mp_phys = CCSR, mp_room = 0x1002000, mp_ok = True\<rparr> DCFG_CRSTSR 0) Q s \<longleftrightarrow> Q 0 (settle warm_env s)" for Q
    by (simp add: ends_def crst_wait.simps rd32_def reachable_def Let_def warm_regs)
  show ?thesis using assms warm_flags n by (simp add: check_dsp_ready_CRSTSR_B4_def c w warm_simps del: upt.simps)
qed

lemma warm_status:
  assumes "warm s"
  shows "ends (reset_status warm_env 0) (\<lambda>v t. v = READY_FOR_RESET \<and> bt t = bt s \<and> warm t) s"
  using assms by (simp add: reset_status_def warm_simps)

lemma warm_stop:
  assumes "warm s" "\<not> need_clear s"
  shows "ends (stop_all warm_env warm_info) (\<lambda>r t. r = 0 \<and> warm t) s"
proof -
  have c: "[0..<NR_DSP_CORE] = 0 # [1..<6]" by (simp add: upt_conv_Cons)
  have n: "ends (stop_cores warm_env warm_info js f) Q t = Q (0, f) (if js = [] then t else t\<lparr>bt := (bt t)\<lparr>bt_core_id := of_nat (last js)\<rparr>\<rparr>)"
    if "list_all (\<lambda>i. reset_core_flag (reDspCoreInfo warm_info ! i) = 0) js" for js f Q t
    using that by (induction js arbitrary: t) (auto simp: ends_simps set_core_id_def)
  have v: "ends (send_vnmi_func warm_env) Q t = Q 0 (put_reg warm_env (CCSR + 0x8F2000) (regs (settle warm_env t) (CCSR + 0x8F2000) OR GIC_VIGR_VALUE t) Wrote (settle warm_env t))"
    if "warm t" "\<not> need_clear t" for Q t
    unfolding send_vnmi_func_def using that
    by (subst ends_fun) (auto simp: Let_def direct_map_def warm_simps warm_def get_het_sys_map_def)
  have a: "ends (check_vnmi_ack_B4 warm_env) Q t = Q 0 (settle warm_env t)" if "warm t" "bt_core_id (bt t) = 0" for Q t
    unfolding check_vnmi_ack_B4_def using that by (subst ends_fun) (simp add: reset_status_def warm_simps)
  have w: "warm (t\<lparr>bt := (bt t)\<lparr>bt_core_id := i\<rparr>\<rparr>) = warm t" "warm (t\<lparr>GIC_VIGR_VALUE := g\<rparr>) = warm t" for t i g
    by (simp_all add: warm_def)
  show ?thesis
    using assms(1) warm_flags(1,3) assms(2) unfolding stop_all_def c
    by (simp add: ends_simps set_core_id_def n v a w off_bus_fields warm_off_bus del: upt.simps) (simp add: warm_def off_bus_fields)
qed


lemma warm_ipc:
  assumes "warm s"
  shows "ends (ipc_call warm_env (\<lambda>e. fsl_B4_ipc_reinit e False)) (\<lambda>r t. r = 0 \<and> warm t) s"
  unfolding ipc_call_def using assms
  by (auto simp: ends_def bnd_def kioctl_def het_mgr_ioctl_def het_copy_def warm_def warm_env_facts fsl_B4_ipc_reinit_def fsl_B4_ipc_init_def out_word_def)

lemma warm_reload:
  assumes "warm s"
  shows "ends (reload_images warm_env of_nat (reDspCoreInfo warm_info) [0..<NR_DSP_CORE]) (\<lambda>r t. r = 0 \<and> warm t) s"
    "ends (reload_images warm_env (\<lambda>_. - 1) (shDspCoreInfo warm_info) [0..<NR_DSP_CORE]) (\<lambda>r t. r = 0 \<and> warm t) s"
proof -
  have c: "[0..<NR_DSP_CORE] = 0 # [1..<6]" by (simp add: upt_conv_Cons)
  have n: "reload_images env f cs is = ret 0" if "list_all (\<lambda>i. reset_core_flag (cs ! i) = 0) is" for env f cs "is"
    using that by (induction "is") auto
  show "ends (reload_images warm_env (\<lambda>_. - 1) (shDspCoreInfo warm_info) [0..<NR_DSP_CORE]) (\<lambda>r t. r = 0 \<and> warm t) s"
    using assms n [OF warm_flags(4)] by (simp add: ends_simps)
  let ?u = "s\<lparr>bt := (bt s)\<lparr>bt_core_id := 0\<rparr>\<rparr>"
  have "\<forall>x \<in> set sample_secs. section_ok warm_env ?u x"
    using sample_sections [OF warm_env_facts(4)] assms section_ok_cong [of ?u sample_table warm_env] by (simp add: warm_def sample_map boot_sample_def)
  from load_image_run [OF warm_env_facts(9) this, of "[]" 1]
  have l: "load_dsp_image warm_env ''a'' ?u = Returns (0, fold (apply_section warm_env) sample_secs ?u)" by simp
  have r: "ends (Reload_B4 warm_env ''a'') (\<lambda>r t. r = 0 \<and> warm t) ?u"
    using assms unfolding Reload_B4_def ends_fails ends_def [of "load_dsp_image warm_env ''a''"] l
    by (auto simp: sample_secs_def store_bytes_def off_bus_fields ends_basic ends_fails set_sh_ctrl_pa_init_def ends_kioctl het_mgr_ioctl_def warm_def)
  show "ends (reload_images warm_env of_nat (reDspCoreInfo warm_info) [0..<NR_DSP_CORE]) (\<lambda>r t. r = 0 \<and> warm t) s"
    using ends_mono [OF r] n [OF warm_flags(3)] warm_flags(1,2) unfolding c
    by (simp add: ends_simps set_core_id_def del: upt.simps)
qed

lemma warm_wait:
  assumes "warm s"
  shows "ends (watch_and_wait warm_env warm_info) (\<lambda>r t. 0 \<le> r) s"
proof -
  have c: "[0..<NR_DSP_CORE] = 0 # [1..<6]" by (simp add: upt_conv_Cons)
  have n: "final_status env cs is r = ret r" if "list_all (\<lambda>i. reset_core_flag (cs ! i) = 0) is" for env cs "is" r
    using that by (induction "is") auto
  let ?u = "s\<lparr>bt := (bt s)\<lparr>semaphore_num := 0\<rparr>\<rparr>"
  have u: "warm ?u" using assms by (simp add: warm_def)
  then have "succeeds (post_load_B4 warm_env) ?u"
    by (intro wait_succeeds [of True het_sample_par]) (simp_all add: warm_def mapped_def warm_env_facts dsp_answers_def)
  from ends_keeps [OF ends_keeps [OF this btv.keeps_state_steps(2) [folded post_load_B4_def]] ctrlv.keeps_state_steps(2) [folded post_load_B4_def]] u
  have p: "ends (post_load_B4 warm_env) (\<lambda>r t. r = 0 \<and> warm t) ?u" by (elim ends_mono) (simp add: warm_def)
  have f: "ends (final_status warm_env (reDspCoreInfo warm_info) [0..<NR_DSP_CORE] 0) (\<lambda>r t. 0 \<le> r) t" if "warm t" for t
    using that warm_flags n unfolding c by (simp add: reset_status_def warm_simps del: upt.simps)
  show ?thesis
    using ends_mono [OF p] f unfolding watch_and_wait_def l1d_fails_def by (simp add: warm_masks ends_basic)
qed

lemma warm_then:
  assumes "ends m (\<lambda>r t. r = x \<and> warm t) s" "\<And>t. warm t \<Longrightarrow> ends k Q t"
  shows "0 \<le> x \<Longrightarrow> ends (neg_fails m k) Q s" "x = 0 \<Longrightarrow> ends (nz_fails m k) Q s" "0 \<le> x \<Longrightarrow> ends (l1d_fails m k) Q s"
  unfolding ends_fails l1d_fails_def ends_basic(4) by (rule ends_mono [OF assms(1)]; use assms(2) in auto)+

lemma warm_prepare: "ends (prepare_reset warm_env False warm_info) (\<lambda>r t. r = 0 \<and> warm t) (fresh_bt warm_state)"
proof -
  have late: "ends (nz_fails (stop_all warm_env warm_info) (neg_fails (set_PH15_on_dspcore_B4 warm_env warm_info)
      (neg_fails (dsp_L2_cache_invalidate_B4 warm_env warm_info) (neg_fails (ipc_call warm_env (\<lambda>e. fsl_B4_ipc_reinit e False)) (ret 0)))))
      (\<lambda>r t. r = 0 \<and> warm t) s" if "warm s" "\<not> need_clear s" for s
    by (intro warm_then [OF warm_stop [OF that]] warm_then [OF warm_registers(1)] warm_then [OF warm_registers(2)] warm_then [OF warm_ipc])
      (simp_all add: ends_basic)
  have hc: "\<exists>c. h_ctrl warm_kern = Some c \<and> hc_l1d c = 0xFFF003F0 \<and> hc_num_ipc_regions c = 2"
    using warm_kern_facts by blast
  have o: "ends (open_dev warm_env d) Q t \<longleftrightarrow> Q (dev_fd warm_env d) (t\<lparr>open_fds := insert (dev_fd warm_env d) (open_fds t)\<rparr>)" for d Q t
    by (cases d) (simp_all add: ends_def open_dev_def Let_def warm_env_facts)
  have g: "ends (get_sys_map warm_env) Q t \<longleftrightarrow> Q 0 (t\<lparr>bt := (bt t)\<lparr>het_sys_map := h_sys_map (kern t)\<rparr>\<rparr>)" for Q t
    by (simp add: ends_def get_sys_map_def kioctl_def het_mgr_ioctl_def het_copy_def bnd_def thn_def upd_def ret_def warm_env_facts)
  have m: "ends assign_memory_areas Q t \<longleftrightarrow> Q 0 (t\<lparr>bt := (bt t)\<lparr>map_d := area_table (get_het_sys_map True het_sample_par)\<rparr>\<rparr>)"
    if "het_sys_map (bt t) = get_het_sys_map True het_sample_par" for Q t
    using that by (simp add: ends_def assign_memory_areas_def get_het_sys_map_def at_least_def zero_strt_def het_sample_par_def)
  show ?thesis
    unfolding prepare_reset_def init_devices_def
    by (simp add: ends_basic o ends_fails(2) [of "get_sys_map warm_env"] ends_fails(2) [of "assign_memory_areas"] g m fresh_bt_def warm_state_def
        warm_kern_facts(1) warm_env_facts map_ctrl_def warm_masks)
      (rule late, use hc in \<open>auto simp: warm_def boot_sample_def Let_def get_het_sys_map_def at_least_def het_sample_par_def\<close>)
qed

lemma warm_release: "warm s \<Longrightarrow> ends (reload_and_release warm_env warm_info) (\<lambda>r t. r = 0 \<and> warm t) s"
  unfolding reload_and_release_def Let_def warm_masks simp_thms if_True
  by (intro warm_then [OF warm_registers(7)] warm_then [OF warm_reload(2)] warm_then [OF warm_reload(1)] warm_then [OF warm_registers(6)]
        warm_then [OF warm_ready]) (simp_all add: ends_basic)

lemma warm_reset: "ends (fsl_start_L1_defense warm_env False warm_info) (\<lambda>r _. 0 \<le> r) warm_state"
proof -
  have late: "ends (thn (set_reset_modes_B4 warm_env warm_info) (thn (ret ()) (neg_fails (set_PIR_on_dspcore_B4 warm_env warm_info)
      (neg_fails (l1d_hold_starcore_B4 warm_env warm_info) (ret 0))))) (\<lambda>r t. r = 0 \<and> warm t) s" if "warm s" for s
    unfolding ends_basic(5) [of "set_reset_modes_B4 warm_env warm_info"] 
    by (rule ends_mono [OF warm_registers(3) [OF that]])
      (simp add: ends_basic, intro warm_then [OF warm_registers(4)] warm_then [OF warm_registers(5)], simp_all add: ends_basic)
  have pre: "ends (pre_Reload_B4 warm_env False warm_info) (\<lambda>r t. r = 0 \<and> warm t) (fresh_bt warm_state)"
    unfolding pre_Reload_B4_def ends_basic(4) by (rule ends_mono [OF warm_prepare]) (use late in \<open>auto simp: warm_masks\<close>)
  have "ends (l1d_fails (pre_Reload_B4 warm_env False warm_info) (reload_and_release warm_env warm_info)) (\<lambda>r t. r = 0 \<and> warm t) (fresh_bt warm_state)"
    by (rule warm_then [OF pre warm_release]) simp_all
  then show ?thesis
    unfolding fsl_start_L1_defense_def ends_basic(2,5) ends_basic(4) [of "l1d_fails _ _"]
    by (rule ends_mono) (auto simp: warm_masks closing_def ends_basic intro!: ends_mono [OF warm_wait])
qed

theorem warm_reset_holds_cores_witness:
  "\<exists>r t pre x mid img y post. fsl_start_L1_defense warm_env False warm_info warm_state = Returns (r, t) \<and> 0 \<le> r \<and>
     accesses t = accesses warm_state @ pre @ [Wrote (ccsr_base t + 0xE00E4) (x AND NOT 0x10)] @ mid @ img @
       [Wrote (ccsr_base t + 0xE00E4) (y OR 0x10)] @ post \<and> list_all from_image img"
proof -
  obtain r t where t: "fsl_start_L1_defense warm_env False warm_info warm_state = Returns (r, t)" "0 \<le> r"
    using warm_reset by (auto simp: ends_def)
  have "reset_mode warm_info = MODE_3_ACTIVE" by (simp add: warm_masks)
  from warm_reset_holds_cores [OF t this] show ?thesis using t unfolding warm_masks by metis
qed

section \<open>Command lines\<close>

theorem bubble_sort_stable_witness:
  "map ci_image (bubble_sort 4 [sem_entry 7, image_entry (3, ''x''), image_entry (1, ''y''), image_entry (1, ''z'')]) = [''hw_sem'', ''y'', ''z'', ''x'']"
proof -
  have "bubble_sort (length [sem_entry 7, image_entry (3, ''x''), image_entry (1, ''y''), image_entry (1, ''z'')])
      [sem_entry 7, image_entry (3, ''x''), image_entry (1, ''y''), image_entry (1, ''z'')] =
      sem_entry 7 # sort_key ci_core_id [image_entry (3, ''x''), image_entry (1, ''y''), image_entry (1, ''z'')]"
    by (subst bubble_sort_stable) simp_all
  then show ?thesis by (simp add: image_entry_def sem_entry_def eval_nat_numeral)
qed

theorem dsp_boot_command_witness:
  "dsp_boot_main warm_env (cmd_line 0 [(1, ''b''), (0, ''a'')]) = restart_or_load warm_env [sem_entry 0, image_entry (0, ''a''), image_entry (1, ''b'')]"
  using dsp_boot_command [of 0 "[(1, ''b''), (0, ''a'')]" warm_env] by simp

text \<open>An image for core 3 alone resets core 0.\<close>

theorem restart_by_position_witness:
  "core_mask (reDspCoreInfo (restart_info [image_entry (3, ''a'')])) 4 = 0x10 \<and> core_bits [image_entry (3, ''a'')] = 0x80"
proof
  show "core_mask (reDspCoreInfo (restart_info [image_entry (3, ''a'')])) 4 = 0x10"
    using restart_by_position [of "[image_entry (3, ''a'')]"] by (simp add: mask_eq_exp_minus_1)
  show "core_bits [image_entry (3, ''a'')] = 0x80" by (simp add: image_entry_def)
qed

text \<open>A machine without the L1 defense device: both attempts fail.\<close>

theorem dsp_boot_closes_devices_witness:
  "\<exists>t. dsp_boot_main (boot_sample_env\<lparr>dev_fd := (\<lambda>d. case d of Dev_het_mgr \<Rightarrow> 3 | Dev_mem \<Rightarrow> 4 | Dev_l1d \<Rightarrow> - 1)\<rparr>)
     (cmd_line 0 [(0, ''a'')]) boot_sample = Returns (0, t) \<and> {3, 4} \<inter> open_fds t = {}"
proof -
  let ?e = "boot_sample_env\<lparr>dev_fd := (\<lambda>d. case d of Dev_het_mgr \<Rightarrow> 3 | Dev_mem \<Rightarrow> 4 | Dev_l1d \<Rightarrow> - 1)\<rparr>"
  have i: "ends (init_devices ?e k) (\<lambda>r _. r = - 1) s" for k s
    by (simp add: ends_def init_devices_def open_dev_def bnd_def thn_def upd_def ret_def Let_def)
  have "ends (prepare_reset ?e h ci) (\<lambda>r _. r = - 1) s" for h ci s unfolding prepare_reset_def by (rule i)
  then have "ends (pre_Reload_B4 ?e h ci) (\<lambda>r _. r = - 1) s" for h ci s
    unfolding pre_Reload_B4_def ends_basic(4) by (rule ends_mono) (simp add: ends_basic)
  then have f: "ends (fsl_start_L1_defense ?e h ci) (\<lambda>r _. r = - 30) s" for h ci s
    unfolding fsl_start_L1_defense_def l1d_fails_def ends_basic(2,4,5) by (rule ends_mono) (simp add: closing_def ends_basic)
  have "ends (pre_load_B4 ?e n) (\<lambda>r _. r = - 1) s" for n s unfolding pre_load_B4_def by (rule i)
  then have l: "ends (b4860_load_dsp_image ?e cs) (\<lambda>r _. True) s" for cs s
    unfolding b4860_load_dsp_image_def closing_def ends_basic(2,4,5) ends_fails(1) [of "pre_load_B4 _ _"]
    by (rule ends_mono) (simp add: ends_basic)
  have "dsp_boot_main ?e (cmd_line 0 [(0, ''a'')]) = restart_or_load ?e [sem_entry 0, image_entry (0, ''a'')]"
    using command_line_run [of 0 "[(0, ''a'')]" ?e] by simp
  moreover have "ends (restart_or_load ?e cs) (\<lambda>r _. r = 0) s" for cs s
    unfolding restart_or_load_def ends_basic(4)
    by (rule ends_mono [OF f]) (auto simp: ends_basic intro: ends_mono [OF l])
  ultimately have "\<exists>t. dsp_boot_main ?e (cmd_line 0 [(0, ''a'')]) boot_sample = Returns (0, t)" by (simp add: ends_def)
  then obtain t where t: "dsp_boot_main ?e (cmd_line 0 [(0, ''a'')]) boot_sample = Returns (0, t)" ..
  have "\<forall>d. dev_fd ?e d \<notin> open_fds boot_sample" by (auto simp: boot_sample_def split: boot_dev.split)
  moreover have "seg_fd ?e \<notin> insert (- 1) (open_fds boot_sample \<union> range (dev_fd ?e))" "\<not> shm_init_done (seg_lib boot_sample)"
    by (auto simp: boot_sample_def boot_sample_env_def split: boot_dev.splits)
  ultimately have o: "open_fds t = (if shm_init_done (seg_lib t) then insert (seg_fd ?e) (open_fds boot_sample) else open_fds boot_sample)"
    using dsp_boot_closes_devices t by blast
  show ?thesis using o t by (auto simp: boot_sample_def boot_sample_env_def)
qed

end
