(* ===== verification/Gen_Blocks.thy ===== *)
theory Gen_Blocks
  imports IPC_Channel
begin

text \<open>
  The sizes of transport blocks in the traffic generator: the number of resource blocks of an allocation (\<open>conv_nprb\<close> of
  \<open>l2_fapi_generator/l2_fapi_generator_app.c\<close>), the table of block sizes (\<open>l2_fapi_generator/tbs_tables.h\<close>) and the rounding of a PDU's size
  to a size of the table.
\<close>

text \<open>The number of resource blocks of an allocation.\<close>

definition count_bits :: "u32 \<Rightarrow> nat list \<Rightarrow> u32 \<Rightarrow> u32 \<Rightarrow> u32" where
  "count_bits v is k n = foldl (\<lambda>n i. if v AND push_bit i 1 \<noteq> 0 then n + k else n) n is"

definition conv_nprb :: "u32 \<Rightarrow> u32 \<Rightarrow> u32 \<Rightarrow> u32" where
  "conv_nprb ra_header rb_alloc N_RB_DL =
     (if N_RB_DL = 6 then count_bits rb_alloc [0..<6] 1 0
      else if N_RB_DL = 25 then
        if ra_header = 0 then count_bits rb_alloc [0] 1 (count_bits rb_alloc (rev [1..<13]) 2 0)
        else if ra_header = 2 then
          let rb_start = rb_alloc mod N_RB_DL; nprb = rb_alloc div N_RB_DL + 1 in
          if rb_start + nprb > N_RB_DL then N_RB_DL - rb_start else nprb
        else count_bits rb_alloc (map (\<lambda>i. i + 2) [0..<11]) 1 0
      else if N_RB_DL = 50 then
        if ra_header = 0 then count_bits rb_alloc [0] 2 (count_bits rb_alloc (map (\<lambda>i. 16 - i) [0..<16]) 3 0)
        else count_bits rb_alloc (map (\<lambda>i. i + 2) [0..<17]) 1 0
      else if N_RB_DL = 100 then
        if ra_header = 0 then count_bits rb_alloc (map (\<lambda>i. 24 - i) [0..<25]) 4 0
        else count_bits rb_alloc (map (\<lambda>i. i + 2) [0..<25]) 1 0
      else 0)"

text \<open>The transport block sizes in bits, a row for each size index, a column for each number of resource blocks.\<close>

definition tbs_table :: "nat list list" where
  "tbs_table = [
     [16, 32, 56, 88, 120, 152, 176, 208, 224, 256, 288, 328, 344, 376, 392, 424, 456, 488, 504, 536, 568, 600,
      616, 648, 680, 712, 744, 776, 776, 808, 840, 872, 904, 936, 968, 1000, 1032, 1032, 1064, 1096, 1128, 1160, 1192, 1224,
      1256, 1256, 1288, 1320, 1352, 1384, 1416, 1416, 1480, 1480, 1544, 1544, 1608, 1608, 1608, 1672, 1672, 1736, 1736, 1800, 1800, 1800,
      1864, 1864, 1928, 1928, 1992, 1992, 2024, 2088, 2088, 2088, 2152, 2152, 2216, 2216, 2280, 2280, 2280, 2344, 2344, 2408, 2408, 2472,
      2472, 2536, 2536, 2536, 2600, 2600, 2664, 2664, 2728, 2728, 2728, 2792, 2792, 2856, 2856, 2856, 2984, 2984, 2984, 2984, 2984, 3112],
     [24, 56, 88, 144, 176, 208, 224, 256, 328, 344, 376, 424, 456, 488, 520, 568, 600, 632, 680, 712, 744, 776,
      808, 872, 904, 936, 968, 1000, 1032, 1064, 1128, 1160, 1192, 1224, 1256, 1288, 1352, 1384, 1416, 1416, 1480, 1544, 1544, 1608,
      1608, 1672, 1736, 1736, 1800, 1800, 1864, 1864, 1928, 1992, 1992, 2024, 2088, 2088, 2152, 2152, 2216, 2280, 2280, 2344, 2344, 2408,
      2472, 2472, 2536, 2536, 2600, 2600, 2664, 2728, 2728, 2792, 2792, 2856, 2856, 2856, 2984, 2984, 2984, 3112, 3112, 3112, 3240, 3240,
      3240, 3240, 3368, 3368, 3368, 3496, 3496, 3496, 3496, 3624, 3624, 3624, 3752, 3752, 3752, 3752, 3880, 3880, 3880, 4008, 4008, 4008],
     [32, 72, 144, 176, 208, 256, 296, 328, 376, 424, 472, 520, 568, 616, 648, 696, 744, 776, 840, 872, 936, 968,
      1000, 1064, 1096, 1160, 1192, 1256, 1288, 1320, 1384, 1416, 1480, 1544, 1544, 1608, 1672, 1672, 1736, 1800, 1800, 1864, 1928, 1992,
      2024, 2088, 2088, 2152, 2216, 2216, 2280, 2344, 2344, 2408, 2472, 2536, 2536, 2600, 2664, 2664, 2728, 2792, 2856, 2856, 2856, 2984,
      2984, 3112, 3112, 3112, 3240, 3240, 3240, 3368, 3368, 3368, 3496, 3496, 3496, 3624, 3624, 3624, 3752, 3752, 3880, 3880, 3880, 4008,
      4008, 4008, 4136, 4136, 4136, 4264, 4264, 4264, 4392, 4392, 4392, 4584, 4584, 4584, 4584, 4584, 4776, 4776, 4776, 4776, 4968, 4968],
     [40, 104, 176, 208, 256, 328, 392, 440, 504, 568, 616, 680, 744, 808, 872, 904, 968, 1032, 1096, 1160, 1224, 1256,
      1320, 1384, 1416, 1480, 1544, 1608, 1672, 1736, 1800, 1864, 1928, 1992, 2024, 2088, 2152, 2216, 2280, 2344, 2408, 2472, 2536, 2536,
      2600, 2664, 2728, 2792, 2856, 2856, 2984, 2984, 3112, 3112, 3240, 3240, 3368, 3368, 3496, 3496, 3624, 3624, 3624, 3752, 3752, 3880,
      3880, 4008, 4008, 4136, 4136, 4264, 4264, 4392, 4392, 4392, 4584, 4584, 4584, 4776, 4776, 4776, 4776, 4968, 4968, 4968, 5160, 5160,
      5160, 5352, 5352, 5352, 5352, 5544, 5544, 5544, 5736, 5736, 5736, 5736, 5992, 5992, 5992, 5992, 6200, 6200, 6200, 6200, 6456, 6456],
     [56, 120, 208, 256, 328, 408, 488, 552, 632, 696, 776, 840, 904, 1000, 1064, 1128, 1192, 1288, 1352, 1416, 1480, 1544,
      1608, 1736, 1800, 1864, 1928, 1992, 2088, 2152, 2216, 2280, 2344, 2408, 2472, 2600, 2664, 2728, 2792, 2856, 2984, 2984, 3112, 3112,
      3240, 3240, 3368, 3496, 3496, 3624, 3624, 3752, 3752, 3880, 4008, 4008, 4136, 4136, 4264, 4264, 4392, 4392, 4584, 4584, 4584, 4776,
      4776, 4968, 4968, 4968, 5160, 5160, 5160, 5352, 5352, 5544, 5544, 5544, 5736, 5736, 5736, 5992, 5992, 5992, 5992, 6200, 6200, 6200,
      6456, 6456, 6456, 6456, 6712, 6712, 6712, 6968, 6968, 6968, 6968, 7224, 7224, 7224, 7480, 7480, 7480, 7480, 7736, 7736, 7736, 7992],
     [72, 144, 224, 328, 424, 504, 600, 680, 776, 872, 968, 1032, 1128, 1224, 1320, 1384, 1480, 1544, 1672, 1736, 1864, 1928,
      2024, 2088, 2216, 2280, 2344, 2472, 2536, 2664, 2728, 2792, 2856, 2984, 3112, 3112, 3240, 3368, 3496, 3496, 3624, 3752, 3752, 3880,
      4008, 4008, 4136, 4264, 4392, 4392, 4584, 4584, 4776, 4776, 4776, 4968, 4968, 5160, 5160, 5352, 5352, 5544, 5544, 5736, 5736, 5736,
      5992, 5992, 5992, 6200, 6200, 6200, 6456, 6456, 6712, 6712, 6712, 6968, 6968, 6968, 7224, 7224, 7224, 7480, 7480, 7480, 7736, 7736,
      7736, 7992, 7992, 7992, 8248, 8248, 8248, 8504, 8504, 8760, 8760, 8760, 8760, 9144, 9144, 9144, 9144, 9528, 9528, 9528, 9528, 9528],
     [328, 176, 256, 392, 504, 600, 712, 808, 936, 1032, 1128, 1224, 1352, 1480, 1544, 1672, 1736, 1864, 1992, 2088, 2216, 2280,
      2408, 2472, 2600, 2728, 2792, 2984, 2984, 3112, 3240, 3368, 3496, 3496, 3624, 3752, 3880, 4008, 4136, 4136, 4264, 4392, 4584, 4584,
      4776, 4776, 4968, 4968, 5160, 5160, 5352, 5352, 5544, 5736, 5736, 5992, 5992, 5992, 6200, 6200, 6456, 6456, 6456, 6712, 6712, 6968,
      6968, 6968, 7224, 7224, 7480, 7480, 7736, 7736, 7736, 7992, 7992, 8248, 8248, 8248, 8504, 8504, 8760, 8760, 8760, 9144, 9144, 9144,
      9144, 9528, 9528, 9528, 9528, 9912, 9912, 9912, 10296, 10296, 10296, 10296, 10680, 10680, 10680, 10680, 11064, 11064, 11064, 11448, 11448, 11448],
     [104, 224, 328, 472, 584, 712, 840, 968, 1096, 1224, 1320, 1480, 1608, 1672, 1800, 1928, 2088, 2216, 2344, 2472, 2536, 2664,
      2792, 2984, 3112, 3240, 3368, 3368, 3496, 3624, 3752, 3880, 4008, 4136, 4264, 4392, 4584, 4584, 4776, 4968, 4968, 5160, 5352, 5352,
      5544, 5736, 5736, 5992, 5992, 6200, 6200, 6456, 6456, 6712, 6712, 6712, 6968, 6968, 7224, 7224, 7480, 7480, 7736, 7736, 7992, 7992,
      8248, 8248, 8504, 8504, 8760, 8760, 8760, 9144, 9144, 9144, 9528, 9528, 9528, 9912, 9912, 9912, 10296, 10296, 10296, 10680, 10680, 10680,
      11064, 11064, 11064, 11448, 11448, 11448, 11448, 11832, 11832, 11832, 12216, 12216, 12216, 12576, 12576, 12576, 12960, 12960, 12960, 12960, 13536, 13536],
     [120, 256, 392, 536, 680, 808, 968, 1096, 1256, 1384, 1544, 1672, 1800, 1928, 2088, 2216, 2344, 2536, 2664, 2792, 2984, 3112,
      3240, 3368, 3496, 3624, 3752, 3880, 4008, 4264, 4392, 4584, 4584, 4776, 4968, 4968, 5160, 5352, 5544, 5544, 5736, 5992, 5992, 6200,
      6200, 6456, 6456, 6712, 6968, 6968, 7224, 7224, 7480, 7480, 7736, 7736, 7992, 7992, 8248, 8504, 8504, 8760, 8760, 9144, 9144, 9144,
      9528, 9528, 9528, 9912, 9912, 9912, 10296, 10296, 10680, 10680, 10680, 11064, 11064, 11064, 11448, 11448, 11448, 11832, 11832, 12216, 12216, 12216,
      12576, 12576, 12576, 12960, 12960, 12960, 13536, 13536, 13536, 13536, 14112, 14112, 14112, 14112, 14688, 14688, 14688, 14688, 15264, 15264, 15264, 15264],
     [136, 296, 456, 616, 776, 936, 1096, 1256, 1416, 1544, 1736, 1864, 2024, 2216, 2344, 2536, 2664, 2856, 2984, 3112, 3368, 3496,
      3624, 3752, 4008, 4136, 4264, 4392, 4584, 4776, 4968, 5160, 5160, 5352, 5544, 5736, 5736, 5992, 6200, 6200, 6456, 6712, 6712, 6968,
      6968, 7224, 7480, 7480, 7736, 7992, 7992, 8248, 8248, 8504, 8760, 8760, 9144, 9144, 9144, 9528, 9528, 9912, 9912, 10296, 10296, 10296,
      10680, 10680, 11064, 11064, 11064, 11448, 11448, 11832, 11832, 11832, 12216, 12216, 12576, 12576, 12960, 12960, 12960, 13536, 13536, 13536, 13536, 14112,
      14112, 14112, 14112, 14688, 14688, 14688, 15264, 15264, 15264, 15264, 15840, 15840, 15840, 16416, 16416, 16416, 16416, 16992, 16992, 16992, 16992, 17568],
     [144, 328, 504, 680, 872, 1032, 1224, 1384, 1544, 1736, 1928, 2088, 2280, 2472, 2664, 2792, 2984, 3112, 3368, 3496, 3752, 3880,
      4008, 4264, 4392, 4584, 4776, 4968, 5160, 5352, 5544, 5736, 5736, 5992, 6200, 6200, 6456, 6712, 6712, 6968, 7224, 7480, 7480, 7736,
      7992, 7992, 8248, 8504, 8504, 8760, 9144, 9144, 9144, 9528, 9528, 9912, 9912, 10296, 10296, 10680, 10680, 11064, 11064, 11448, 11448, 11448,
      11832, 11832, 12216, 12216, 12576, 12576, 12960, 12960, 12960, 13536, 13536, 13536, 14112, 14112, 14112, 14688, 14688, 14688, 14688, 15264, 15264, 15264,
      15840, 15840, 15840, 16416, 16416, 16416, 16992, 16992, 16992, 16992, 17568, 17568, 17568, 18336, 18336, 18336, 18336, 18336, 19080, 19080, 19080, 19080],
     [176, 376, 584, 776, 1000, 1192, 1384, 1608, 1800, 2024, 2216, 2408, 2600, 2792, 2984, 3240, 3496, 3624, 3880, 4008, 4264, 4392,
      4584, 4776, 4968, 5352, 5544, 5736, 5992, 5992, 6200, 6456, 6712, 6968, 6968, 7224, 7480, 7736, 7736, 7992, 8248, 8504, 8760, 8760,
      9144, 9144, 9528, 9528, 9912, 9912, 10296, 10680, 10680, 11064, 11064, 11448, 11448, 11832, 11832, 12216, 12216, 12576, 12576, 12960, 12960, 13536,
      13536, 13536, 14112, 14112, 14112, 14688, 14688, 14688, 15264, 15264, 15840, 15840, 15840, 16416, 16416, 16416, 16992, 16992, 16992, 17568, 17568, 17568,
      18336, 18336, 18336, 18336, 19080, 19080, 19080, 19080, 19848, 19848, 19848, 19848, 20616, 20616, 20616, 21384, 21384, 21384, 21384, 22152, 22152, 22152],
     [208, 440, 680, 904, 1128, 1352, 1608, 1800, 2024, 2280, 2472, 2728, 2984, 3240, 3368, 3624, 3880, 4136, 4392, 4584, 4776, 4968,
      5352, 5544, 5736, 5992, 6200, 6456, 6712, 6712, 6968, 7224, 7480, 7736, 7992, 8248, 8504, 8760, 8760, 9144, 9528, 9528, 9912, 9912,
      10296, 10680, 10680, 11064, 11064, 11448, 11832, 11832, 12216, 12216, 12576, 12576, 12960, 12960, 13536, 13536, 14112, 14112, 14112, 14688, 14688, 15264,
      15264, 15264, 15840, 15840, 16416, 16416, 16416, 16992, 16992, 17568, 17568, 17568, 18336, 18336, 18336, 19080, 19080, 19080, 19080, 19848, 19848, 19848,
      20616, 20616, 20616, 21384, 21384, 21384, 21384, 22152, 22152, 22152, 22920, 22920, 22920, 23688, 23688, 23688, 23688, 24496, 24496, 24496, 24496, 25456],
     [224, 488, 744, 1000, 1256, 1544, 1800, 2024, 2280, 2536, 2856, 3112, 3368, 3624, 3880, 4136, 4392, 4584, 4968, 5160, 5352, 5736,
      5992, 6200, 6456, 6712, 6968, 7224, 7480, 7736, 7992, 8248, 8504, 8760, 9144, 9144, 9528, 9912, 9912, 10296, 10680, 10680, 11064, 11448,
      11448, 11832, 12216, 12216, 12576, 12960, 12960, 13536, 13536, 14112, 14112, 14688, 14688, 14688, 15264, 15264, 15840, 15840, 16416, 16416, 16992, 16992,
      16992, 17568, 17568, 18336, 18336, 18336, 19080, 19080, 19080, 19848, 19848, 19848, 20616, 20616, 20616, 21384, 21384, 21384, 22152, 22152, 22152, 22920,
      22920, 22920, 23688, 23688, 23688, 24496, 24496, 24496, 25456, 25456, 25456, 25456, 26416, 26416, 26416, 26416, 27376, 27376, 27376, 27376, 28336, 28336],
     [256, 552, 840, 1128, 1416, 1736, 1992, 2280, 2600, 2856, 3112, 3496, 3752, 4008, 4264, 4584, 4968, 5160, 5544, 5736, 5992, 6200,
      6456, 6968, 7224, 7480, 7736, 7992, 8248, 8504, 8760, 9144, 9528, 9912, 9912, 10296, 10680, 11064, 11064, 11448, 11832, 12216, 12216, 12576,
      12960, 12960, 13536, 13536, 14112, 14112, 14688, 14688, 15264, 15264, 15840, 15840, 16416, 16416, 16992, 16992, 17568, 17568, 18336, 18336, 18336, 19080,
      19080, 19848, 19848, 19848, 20616, 20616, 20616, 21384, 21384, 22152, 22152, 22152, 22920, 22920, 22920, 23688, 23688, 24496, 24496, 24496, 25456, 25456,
      25456, 25456, 26416, 26416, 26416, 27376, 27376, 27376, 28336, 28336, 28336, 28336, 29296, 29296, 29296, 29296, 30576, 30576, 30576, 30576, 31704, 31704],
     [280, 600, 904, 1224, 1544, 1800, 2152, 2472, 2728, 3112, 3368, 3624, 4008, 4264, 4584, 4968, 5160, 5544, 5736, 6200, 6456, 6712,
      6968, 7224, 7736, 7992, 8248, 8504, 8760, 9144, 9528, 9912, 10296, 10296, 10680, 11064, 11448, 11832, 11832, 12216, 12576, 12960, 12960, 13536,
      13536, 14112, 14688, 14688, 15264, 15264, 15840, 15840, 16416, 16416, 16992, 16992, 17568, 17568, 18336, 18336, 18336, 19080, 19080, 19848, 19848, 20616,
      20616, 20616, 21384, 21384, 22152, 22152, 22152, 22920, 22920, 23688, 23688, 23688, 24496, 24496, 24496, 25456, 25456, 25456, 26416, 26416, 26416, 27376,
      27376, 27376, 28336, 28336, 28336, 29296, 29296, 29296, 29296, 30576, 30576, 30576, 30576, 31704, 31704, 31704, 31704, 32856, 32856, 32856, 34008, 34008],
     [328, 632, 968, 1288, 1608, 1928, 2280, 2600, 2984, 3240, 3624, 3880, 4264, 4584, 4968, 5160, 5544, 5992, 6200, 6456, 6712, 7224,
      7480, 7736, 7992, 8504, 8760, 9144, 9528, 9912, 9912, 10296, 10680, 11064, 11448, 11832, 12216, 12216, 12576, 12960, 13536, 13536, 14112, 14112,
      14688, 14688, 15264, 15840, 15840, 16416, 16416, 16992, 16992, 17568, 17568, 18336, 18336, 19080, 19080, 19848, 19848, 19848, 20616, 20616, 21384, 21384,
      22152, 22152, 22152, 22920, 22920, 23688, 23688, 24496, 24496, 24496, 25456, 25456, 25456, 26416, 26416, 26416, 27376, 27376, 27376, 28336, 28336, 28336,
      29296, 29296, 29296, 30576, 30576, 30576, 30576, 31704, 31704, 31704, 31704, 32856, 32856, 32856, 34008, 34008, 34008, 34008, 35160, 35160, 35160, 35160],
     [336, 696, 1064, 1416, 1800, 2152, 2536, 2856, 3240, 3624, 4008, 4392, 4776, 5160, 5352, 5736, 6200, 6456, 6712, 7224, 7480, 7992,
      8248, 8760, 9144, 9528, 9912, 10296, 10296, 10680, 11064, 11448, 11832, 12216, 12576, 12960, 13536, 13536, 14112, 14688, 14688, 15264, 15264, 15840,
      16416, 16416, 16992, 17568, 17568, 18336, 18336, 19080, 19080, 19848, 19848, 20616, 20616, 20616, 21384, 21384, 22152, 22152, 22920, 22920, 23688, 23688,
      24496, 24496, 24496, 25456, 25456, 26416, 26416, 26416, 27376, 27376, 27376, 28336, 28336, 29296, 29296, 29296, 30576, 30576, 30576, 30576, 31704, 31704,
      31704, 32856, 32856, 32856, 34008, 34008, 34008, 35160, 35160, 35160, 35160, 36696, 36696, 36696, 36696, 37888, 37888, 37888, 39232, 39232, 39232, 39232],
     [376, 776, 1160, 1544, 1992, 2344, 2792, 3112, 3624, 4008, 4392, 4776, 5160, 5544, 5992, 6200, 6712, 7224, 7480, 7992, 8248, 8760,
      9144, 9528, 9912, 10296, 10680, 11064, 11448, 11832, 12216, 12576, 12960, 13536, 14112, 14112, 14688, 15264, 15264, 15840, 16416, 16416, 16992, 17568,
      17568, 18336, 18336, 19080, 19080, 19848, 19848, 20616, 21384, 21384, 22152, 22152, 22920, 22920, 23688, 23688, 24496, 24496, 24496, 25456, 25456, 26416,
      26416, 27376, 27376, 27376, 28336, 28336, 29296, 29296, 29296, 30576, 30576, 30576, 31704, 31704, 31704, 32856, 32856, 32856, 34008, 34008, 34008, 35160,
      35160, 35160, 36696, 36696, 36696, 37888, 37888, 37888, 37888, 39232, 39232, 39232, 40576, 40576, 40576, 40576, 42368, 42368, 42368, 42368, 43816, 43816],
     [408, 840, 1288, 1736, 2152, 2600, 2984, 3496, 3880, 4264, 4776, 5160, 5544, 5992, 6456, 6968, 7224, 7736, 8248, 8504, 9144, 9528,
      9912, 10296, 10680, 11064, 11448, 12216, 12576, 12960, 13536, 13536, 14112, 14688, 15264, 15264, 15840, 16416, 16992, 16992, 17568, 18336, 18336, 19080,
      19080, 19848, 20616, 20616, 21384, 21384, 22152, 22152, 22920, 22920, 23688, 24496, 24496, 25456, 25456, 25456, 26416, 26416, 27376, 27376, 28336, 28336,
      29296, 29296, 29296, 30576, 30576, 30576, 31704, 31704, 32856, 32856, 32856, 34008, 34008, 34008, 35160, 35160, 35160, 36696, 36696, 36696, 37888, 37888,
      37888, 39232, 39232, 39232, 40576, 40576, 40576, 40576, 42368, 42368, 42368, 43816, 43816, 43816, 43816, 45352, 45352, 45352, 46888, 46888, 46888, 46888],
     [440, 904, 1384, 1864, 2344, 2792, 3240, 3752, 4136, 4584, 5160, 5544, 5992, 6456, 6968, 7480, 7992, 8248, 8760, 9144, 9912, 10296,
      10680, 11064, 11448, 12216, 12576, 12960, 13536, 14112, 14688, 14688, 15264, 15840, 16416, 16992, 16992, 17568, 18336, 18336, 19080, 19848, 19848, 20616,
      20616, 21384, 22152, 22152, 22920, 22920, 23688, 24496, 24496, 25456, 25456, 26416, 26416, 27376, 27376, 28336, 28336, 29296, 29296, 29296, 30576, 30576,
      31704, 31704, 31704, 32856, 32856, 34008, 34008, 34008, 35160, 35160, 35160, 36696, 36696, 36696, 37888, 37888, 39232, 39232, 39232, 40576, 40576, 40576,
      42368, 42368, 42368, 42368, 43816, 43816, 43816, 45352, 45352, 45352, 46888, 46888, 46888, 46888, 48936, 48936, 48936, 48936, 48936, 51024, 51024, 51024],
     [488, 1000, 1480, 1992, 2472, 2984, 3496, 4008, 4584, 4968, 5544, 5992, 6456, 6968, 7480, 7992, 8504, 9144, 9528, 9912, 10680, 11064,
      11448, 12216, 12576, 12960, 13536, 14112, 14688, 15264, 15840, 15840, 16416, 16992, 17568, 18336, 18336, 19080, 19848, 19848, 20616, 21384, 21384, 22152,
      22920, 22920, 23688, 24496, 24496, 25456, 25456, 26416, 26416, 27376, 27376, 28336, 28336, 29296, 29296, 30576, 30576, 31704, 31704, 31704, 32856, 32856,
      34008, 34008, 35160, 35160, 35160, 36696, 36696, 36696, 37888, 37888, 39232, 39232, 39232, 40576, 40576, 40576, 42368, 42368, 42368, 43816, 43816, 43816,
      45352, 45352, 45352, 46888, 46888, 46888, 46888, 48936, 48936, 48936, 48936, 51024, 51024, 51024, 51024, 52752, 52752, 52752, 52752, 55056, 55056, 55056],
     [520, 1064, 1608, 2152, 2664, 3240, 3752, 4264, 4776, 5352, 5992, 6456, 6968, 7480, 7992, 8504, 9144, 9528, 10296, 10680, 11448, 11832,
      12576, 12960, 13536, 14112, 14688, 15264, 15840, 16416, 16992, 16992, 17568, 18336, 19080, 19080, 19848, 20616, 21384, 21384, 22152, 22920, 22920, 23688,
      24496, 24496, 25456, 25456, 26416, 27376, 27376, 28336, 28336, 29296, 29296, 30576, 30576, 31704, 31704, 32856, 32856, 34008, 34008, 34008, 35160, 35160,
      36696, 36696, 36696, 37888, 37888, 39232, 39232, 40576, 40576, 40576, 42368, 42368, 42368, 43816, 43816, 43816, 45352, 45352, 45352, 46888, 46888, 46888,
      48936, 48936, 48936, 48936, 51024, 51024, 51024, 51024, 52752, 52752, 52752, 55056, 55056, 55056, 55056, 57336, 57336, 57336, 57336, 59256, 59256, 59256],
     [552, 1128, 1736, 2280, 2856, 3496, 4008, 4584, 5160, 5736, 6200, 6968, 7480, 7992, 8504, 9144, 9912, 10296, 11064, 11448, 12216, 12576,
      12960, 13536, 14112, 14688, 15264, 15840, 16416, 16992, 17568, 18336, 19080, 19848, 19848, 20616, 21384, 22152, 22152, 22920, 23688, 24496, 24496, 25456,
      25456, 26416, 27376, 27376, 28336, 28336, 29296, 29296, 30576, 30576, 31704, 31704, 32856, 32856, 34008, 34008, 35160, 35160, 36696, 36696, 37888, 37888,
      37888, 39232, 39232, 40576, 40576, 40576, 42368, 42368, 43816, 43816, 43816, 45352, 45352, 45352, 46888, 46888, 46888, 48936, 48936, 48936, 51024, 51024,
      51024, 51024, 52752, 52752, 52752, 55056, 55056, 55056, 55056, 57336, 57336, 57336, 57336, 59256, 59256, 59256, 59256, 61664, 61664, 61664, 61664, 63776],
     [584, 1192, 1800, 2408, 2984, 3624, 4264, 4968, 5544, 5992, 6712, 7224, 7992, 8504, 9144, 9912, 10296, 11064, 11448, 12216, 12960, 13536,
      14112, 14688, 15264, 15840, 16416, 16992, 17568, 18336, 19080, 19848, 19848, 20616, 21384, 22152, 22920, 22920, 23688, 24496, 25456, 25456, 26416, 26416,
      27376, 28336, 28336, 29296, 29296, 30576, 31704, 31704, 32856, 32856, 34008, 34008, 35160, 35160, 36696, 36696, 36696, 37888, 37888, 39232, 39232, 40576,
      40576, 42368, 42368, 42368, 43816, 43816, 45352, 45352, 45352, 46888, 46888, 46888, 48936, 48936, 48936, 51024, 51024, 51024, 52752, 52752, 52752, 52752,
      55056, 55056, 55056, 57336, 57336, 57336, 57336, 59256, 59256, 59256, 61664, 61664, 61664, 61664, 63776, 63776, 63776, 63776, 66592, 66592, 66592, 66592],
     [616, 1256, 1864, 2536, 3112, 3752, 4392, 5160, 5736, 6200, 6968, 7480, 8248, 8760, 9528, 10296, 10680, 11448, 12216, 12576, 13536, 14112,
      14688, 15264, 15840, 16416, 16992, 17568, 18336, 19080, 19848, 20616, 20616, 21384, 22152, 22920, 23688, 24496, 24496, 25456, 26416, 26416, 27376, 28336,
      28336, 29296, 29296, 30576, 31704, 31704, 32856, 32856, 34008, 34008, 35160, 35160, 36696, 36696, 37888, 37888, 39232, 39232, 40576, 40576, 40576, 42368,
      42368, 43816, 43816, 43816, 45352, 45352, 46888, 46888, 46888, 48936, 48936, 48936, 51024, 51024, 51024, 52752, 52752, 52752, 55056, 55056, 55056, 55056,
      57336, 57336, 57336, 59256, 59256, 59256, 61664, 61664, 61664, 61664, 63776, 63776, 63776, 63776, 66592, 66592, 66592, 66592, 68808, 68808, 68808, 71112],
     [712, 1480, 2216, 2984, 3752, 4392, 5160, 5992, 6712, 7480, 8248, 8760, 9528, 10296, 11064, 11832, 12576, 13536, 14112, 14688, 15264, 16416,
      16992, 17568, 18336, 19080, 19848, 20616, 21384, 22152, 22920, 23688, 24496, 25456, 25456, 26416, 27376, 28336, 29296, 29296, 30576, 30576, 31704, 32856,
      32856, 34008, 35160, 35160, 36696, 36696, 37888, 37888, 39232, 40576, 40576, 40576, 42368, 42368, 43816, 43816, 45352, 45352, 46888, 46888, 48936, 48936,
      48936, 51024, 51024, 52752, 52752, 52752, 55056, 55056, 55056, 55056, 57336, 57336, 57336, 59256, 59256, 59256, 61664, 61664, 61664, 63776, 63776, 63776,
      66592, 66592, 66592, 68808, 68808, 68808, 71112, 71112, 71112, 73712, 73712, 75376, 75376, 75376, 75376, 75376, 75376, 75376, 75376, 75376, 75376, 75376]]"

definition tbs_round :: "u32 \<Rightarrow> nat \<Rightarrow> u32" where
  "tbs_round len nprb =
     (case find (\<lambda>row. push_bit 3 len \<le> of_nat (row ! (nprb - 1))) tbs_table of
        Some row \<Rightarrow> of_nat (row ! (nprb - 1) div 8)
      | None \<Rightarrow> len)"

section \<open>Allocations\<close>

lemma and_bit_iff: "v AND push_bit i 1 \<noteq> 0 \<longleftrightarrow> bit (v :: u32) i"
proof -
  have "bit (v AND push_bit i 1) j = (bit v i \<and> j = i)" for j
    by (auto simp: bit_simps dest: bit_imp_le_length)
  then show ?thesis
    by (metis bit_0_eq bot_apply bit_eqI bot_bool_def)
qed

text \<open>Each set bit of the map counts for a group of \<open>k\<close> blocks.\<close>

lemma count_bits_eq: "count_bits v is k n = n + k * of_nat (length (filter (bit v) is))"
  unfolding count_bits_def and_bit_iff
  by (induction "is" arbitrary: n) (simp_all add: algebra_simps)

lemma unat_count_bits:
  assumes "unat n + unat k * length is < 2 ^ 32"
  shows "unat (count_bits v is k n) = unat n + unat k * length (filter (bit v) is)"
proof -
  have *: "unat k * length (filter (bit v) is) \<le> unat k * length is"
    by (rule mult_le_mono2) (rule length_filter_le)
  have "count_bits v is k n = of_nat (unat n + unat k * length (filter (bit v) is))"
    by (simp add: count_bits_eq)
  then have "unat (count_bits v is k n) = (unat n + unat k * length (filter (bit v) is)) mod 2 ^ 32"
    by (simp only: unat_of_nat) simp
  moreover have "unat n + unat k * length (filter (bit v) is) < 2 ^ 32" using * assms by linarith
  ultimately show ?thesis by simp
qed

lemma count_bits_bound:
  assumes "unat n + unat k * length is < 2 ^ 32"
  shows "unat (count_bits v is k n) \<le> unat n + unat k * length is"
  using assms by (simp add: unat_count_bits)

lemma conv_nprb_bound:
  assumes "n \<in> {6, 25, 50, 100}"
  shows "conv_nprb ra al n \<le> n"
proof -
  have l: "unat (count_bits al is k 0) \<le> unat k * length is" if "unat k * length is < 2 ^ 32" for "is" k
    using that count_bits_bound [of 0 k "is" al] by simp
  have l2: "unat (count_bits al js m (count_bits al is k 0)) \<le> unat k * length is + unat m * length js"
    if "unat k * length is + unat m * length js < 2 ^ 32" for "is" js k m
    using that l [of k "is"] count_bits_bound [of "count_bits al is k 0" m js al] by simp
  consider "n = 6" | "n = 25" | "n = 50" | "n = 100" using assms by auto
  then show ?thesis
  proof cases
    case 1
    then show ?thesis using l [of 1 "[0..<6]"] by (simp add: conv_nprb_def word_le_nat_alt)
  next
    case 2
    have "(if al mod 25 + (al div 25 + 1) > 25 then 25 - al mod 25 else al div 25 + 1) \<le> (25 :: u32)"
    proof -
      have "unat (al mod 25) < 25" by (simp add: unat_mod)
      moreover have "unat (al div 25) \<le> 171798691"
      proof -
        have "unat al < 2 ^ 32" using unsigned_less [of al] by simp
        then show ?thesis by (simp add: unat_div)
      qed
      ultimately show ?thesis
        by (auto simp: word_le_nat_alt word_less_nat_alt unat_word_ariths unat_sub_if')
    qed
    then show ?thesis
      using 2 l [of 1 "map (\<lambda>i. i + 2) [0..<11]"] l2 [of 2 "rev [1..<13]" 1 "[0]"]
      by (simp add: conv_nprb_def word_le_nat_alt Let_def)
  next
    case 3
    then show ?thesis using l [of 1 "map (\<lambda>i. i + 2) [0..<17]"] l2 [of 3 "map (\<lambda>i. 16 - i) [0..<16]" 2 "[0]"]
      by (simp add: conv_nprb_def word_le_nat_alt)
  next
    case 4
    then show ?thesis using l [of 1 "map (\<lambda>i. i + 2) [0..<25]"] l [of 4 "map (\<lambda>i. 24 - i) [0..<25]"]
      by (simp add: conv_nprb_def word_le_nat_alt)
  qed
qed

section \<open>Block sizes\<close>

lemma tbs_table_rows: "list_all (\<lambda>row. length row = 110 \<and> list_all (\<lambda>x. x mod 8 = 0 \<and> x < 131072) row) tbs_table"
  by (simp add: tbs_table_def)

text \<open>But for the first column, the table ascends from row to row.\<close>

fun ascending :: "nat list list \<Rightarrow> bool" where
  "ascending (r # s # rs) = (list_all2 (\<le>) (tl r) (tl s) \<and> ascending (s # rs))"
| "ascending rs = True"

lemma tbs_table_ascending: "ascending tbs_table"
  by (simp add: tbs_table_def)

lemma ascending_nth:
  assumes "ascending rs" "list_all (\<lambda>row. length row = 110) rs" "0 < c" "c < 110" "r \<in> set rs"
  shows "hd rs ! c \<le> r ! c"
  using assms
proof (induction rs rule: ascending.induct)
  case (1 r' s rs)
  have "list_all2 (\<le>) (tl r') (tl s)" "length r' = 110" "length s = 110" using 1 by auto
  then have "tl r' ! (c - 1) \<le> tl s ! (c - 1)" using 1 by (auto simp: list_all2_conv_all_nth)
  then have *: "r' ! c \<le> s ! c" using 1 \<open>length r' = 110\<close> \<open>length s = 110\<close> by (simp add: nth_tl)
  show ?case
  proof (cases "r = r'")
    case False
    then have "r \<in> set (s # rs)" using 1 by auto
    then have "s ! c \<le> r ! c" using 1 by simp
    with * show ?thesis by simp
  qed simp
qed auto

lemma ascending_tl: "ascending rs \<Longrightarrow> ascending (tl rs)"
  by (induction rs rule: ascending.induct) auto

lemma find_least:
  assumes "ascending rs" "list_all (\<lambda>row. length row = 110) rs" "0 < c" "c < 110" "find (\<lambda>r. n \<le> r ! c) rs = Some r"
  shows "r \<in> set rs \<and> n \<le> r ! c \<and> (\<forall>s\<in>set rs. n \<le> s ! c \<longrightarrow> r ! c \<le> s ! c)"
  using assms
proof (induction rs)
  case (Cons r' rs)
  show ?case
  proof (cases "n \<le> r' ! c")
    case True
    then have "r = r'" using Cons by simp
    then show ?thesis using True ascending_nth [OF Cons.prems(1-4)] by auto
  next
    case False
    then have "r \<in> set rs \<and> n \<le> r ! c \<and> (\<forall>s\<in>set rs. n \<le> s ! c \<longrightarrow> r ! c \<le> s ! c)"
      using Cons.IH Cons.prems ascending_tl [OF Cons.prems(1)] by auto
    then show ?thesis using False by auto
  qed
qed simp

text \<open>The sizes of the table for a number of resource blocks, in bits.\<close>

definition tbs_sizes :: "nat \<Rightarrow> nat set" where
  "tbs_sizes nprb = (\<lambda>row. row ! (nprb - 1)) ` set tbs_table"

lemma tbs_sizes_finite [simp]: "finite (tbs_sizes nprb)"
  by (simp add: tbs_sizes_def)

lemma tbs_entry:
  assumes "row \<in> set tbs_table" "c < 110"
  shows "row ! c mod 8 = 0" "row ! c < 131072"
  using assms tbs_table_rows by (auto simp: list_all_iff)

lemma unat_push3:
  assumes "sz < 2 ^ 29"
  shows "unat (push_bit 3 (of_nat sz) :: u32) = 8 * sz"
  using assms by (simp add: push_bit_eq_mult unat_word_ariths unat_of_nat)

lemma tbs_round_nat:
  assumes "sz < 2 ^ 29" "0 < nprb" "nprb \<le> 110"
  shows "unat (tbs_round (of_nat sz) nprb) =
    (case find (\<lambda>row. 8 * sz \<le> row ! (nprb - 1)) tbs_table of Some row \<Rightarrow> row ! (nprb - 1) div 8 | None \<Rightarrow> sz)"
proof -
  let ?c = "nprb - 1"
  have c: "?c < 110" using assms by simp
  have eq: "(push_bit 3 (of_nat sz) \<le> (of_nat (row ! ?c) :: u32)) = (8 * sz \<le> row ! ?c)" if "row \<in> set tbs_table" for row
    using tbs_entry(2) [OF that c] by (simp add: word_le_nat_alt unat_push3 [OF assms(1)] unat_of_nat)
  have f: "find (\<lambda>row. push_bit 3 (of_nat sz) \<le> (of_nat (row ! ?c) :: u32)) tbs_table = find (\<lambda>row. 8 * sz \<le> row ! ?c) tbs_table"
    by (rule find_cong) (simp_all only: eq)
  show ?thesis
  proof (cases "find (\<lambda>row. 8 * sz \<le> row ! ?c) tbs_table")
    case None
    show ?thesis unfolding tbs_round_def f None using assms(1) by (simp add: unat_of_nat)
  next
    case (Some row)
    then have "row \<in> set tbs_table" by (auto simp: find_Some_iff)
    from tbs_entry(2) [OF this c] show ?thesis unfolding tbs_round_def f Some by (simp add: unat_of_nat)
  qed
qed

text \<open>The rounded size is never less than the size, so the PDU fits the buffer of the block.\<close>

lemma tbs_round_ge:
  assumes "sz < 2 ^ 29" "0 < nprb" "nprb \<le> 110"
  shows "sz \<le> unat (tbs_round (of_nat sz) nprb)"
proof (cases "find (\<lambda>row. 8 * sz \<le> row ! (nprb - 1)) tbs_table")
  case (Some row)
  then have "8 * sz \<le> row ! (nprb - 1)" by (auto simp: find_Some_iff)
  then show ?thesis using Some by (simp add: tbs_round_nat [OF assms])
qed (simp add: tbs_round_nat [OF assms])

lemma tbs_round_least:
  assumes "sz < 2 ^ 29" "2 \<le> nprb" "nprb \<le> 110" "\<exists>s\<in>tbs_sizes nprb. 8 * sz \<le> s"
  shows "8 * unat (tbs_round (of_nat sz) nprb) = Min {s \<in> tbs_sizes nprb. 8 * sz \<le> s}"
proof -
  let ?c = "nprb - 1"
  obtain row where f: "find (\<lambda>row. 8 * sz \<le> row ! ?c) tbs_table = Some row"
    using assms(4) by (cases "find (\<lambda>row. 8 * sz \<le> row ! ?c) tbs_table") (auto simp: find_None_iff tbs_sizes_def)
  have l: "list_all (\<lambda>row. length row = 110) tbs_table" using tbs_table_rows by (auto simp: list_all_iff)
  have r: "row \<in> set tbs_table" "8 * sz \<le> row ! ?c" "\<forall>s\<in>set tbs_table. 8 * sz \<le> s ! ?c \<longrightarrow> row ! ?c \<le> s ! ?c"
    using find_least [OF tbs_table_ascending l _ _ f] assms by auto
  have "Min {s \<in> tbs_sizes nprb. 8 * sz \<le> s} = row ! ?c"
    by (rule Min_eqI) (use r in \<open>auto simp: tbs_sizes_def\<close>)
  moreover have "8 * (row ! ?c div 8) = row ! ?c" using tbs_entry(1) [OF r(1), of ?c] assms(2,3) by (simp add: mod_eq_0_iff_dvd)
  ultimately show ?thesis using assms f by (simp add: tbs_round_nat)
qed

lemma tbs_round_none:
  assumes "sz < 2 ^ 29" "0 < nprb" "nprb \<le> 110" "\<forall>s\<in>tbs_sizes nprb. s < 8 * sz"
  shows "tbs_round (of_nat sz) nprb = of_nat sz"
proof -
  have "find (\<lambda>row. 8 * sz \<le> row ! (nprb - 1)) tbs_table = None"
    using assms(4) by (auto simp: find_None_iff tbs_sizes_def not_le)
  then have "unat (tbs_round (of_nat sz) nprb) = unat (of_nat sz :: u32)" using assms by (simp add: tbs_round_nat unat_of_nat)
  then show ?thesis by (rule unsigned_word_eqI)
qed

text \<open>With one resource block the first entry that is large enough is not the least: the table holds 328 before 104.\<close>

lemma tbs_one_block: "tbs_round 13 1 = 41" "104 \<in> tbs_sizes 1"
  by (simp_all add: tbs_round_def tbs_sizes_def tbs_table_def)

end
