(* ===== verification/Gen_Scenario.thy ===== *)
theory Gen_Scenario
  imports Gen_Blocks
begin

text \<open>
  The scenario of the traffic generator (\<open>l2_fapi_generator/l2_fapi_generator_app.c\<close>): from the decoded scenario file to the
  requests that are played. The decoder of the file is generated code and an argument; its result is a value of the types below, named after
  the fields of \<open>l2_fapi_generator/asn1/l2_fapi_generator.asn\<close>. A field of a FAPI structure is a 32-bit word; the PDU of a request is a union, its
  contents are the words of the structure in it by index.
\<close>

section \<open>The decoded file\<close>

record stim_dci =
  sd_format :: int
  sd_cce :: int
  sd_l :: int
  sd_rnti :: int
  sd_ra_type :: int
  sd_vrb_flag :: "int option"
  sd_rb_coding :: int
  sd_mcs_1 :: int
  sd_rv_1 :: int
  sd_ndi_1 :: int
  sd_tb_swap :: "int option"
  sd_mcs_2 :: "int option"
  sd_rv_2 :: "int option"
  sd_ndi_2 :: "int option"
  sd_harq :: int
  sd_tpmi :: "int option"
  sd_pmi :: "int option"
  sd_pi :: "int option"
  sd_tpc :: "int option"
  sd_downlink_index :: "int option"
  sd_n_gap :: "int option"
  sd_tbs_index :: "int option"
  sd_power_offset :: "int option"
  sd_prach_flag :: "int option"
  sd_preamble_index :: "int option"
  sd_prach_mask :: "int option"
  sd_rnti_type :: int
  sd_power :: int

record stim_dlsch =
  sl_pdu :: "u8 list"
  sl_rnti :: int
  sl_ra_type :: int
  sl_vrb_flag :: "int option"
  sl_rb_coding :: int
  sl_modulation :: int
  sl_rv :: int
  sl_tb :: int
  sl_tb_swap :: "int option"
  sl_tx_scheme :: "int option"
  sl_n_layers :: "int option"
  sl_n_subbands :: "int option"
  sl_ue_category :: "int option"
  sl_p_a :: "int option"
  sl_delta_power :: "int option"
  sl_n_gap :: "int option"
  sl_n_prb :: "int option"
  sl_tm :: "int option"

datatype stim_pdu =
    Stim_dci stim_dci
  | Stim_bch "u8 list" int
  | Stim_dlsch stim_dlsch
  | Stim_other

record stim_entry =
  se_tti :: int
  se_cfi :: int
  se_cfi_power :: int
  se_pdus :: "stim_pdu list option"

record stim_general =
  g_use_sibs_for_p5 :: bool
  g_auto_mib :: bool
  g_auto_sibs :: bool
  g_stim_start_tti :: int
  g_stim_duration :: int
  g_stim_loop :: bool
  g_rru_active :: bool
  g_rru_earfcn :: int

text \<open>The groups of the P5 section, each with its fields in the order of the FAPI structure they are copied to.\<close>

record stim_p5 =
  p_duplex :: int
  p_pcfich_power_offset :: int
  p_p_b :: int
  p_cyclic_prefix :: int
  p_nprb :: int
  p_rs_power :: int
  p_tx_antenna_ports :: int
  p_rx_antenna_ports :: int
  p_phich :: "int \<times> int \<times> int"
  p_sch :: "int \<times> int \<times> int"
  p_prach :: "int \<times> int \<times> int \<times> int \<times> int"
  p_pusch :: "int \<times> int \<times> int"
  p_pucch :: "int \<times> int \<times> int \<times> int"
  p_ulrs :: "int \<times> int \<times> int"

record stim_file =
  sf_general :: stim_general
  sf_p5 :: stim_p5
  sf_p7 :: "stim_entry list"

section \<open>Requests\<close>

record dl_pdu =
  pdu_type :: u32
  pdu_size :: u32
  pdu_words :: "nat \<Rightarrow> u32"

text \<open>The data of a transport block: a buffer of its own, or the generator's broadcast buffer.\<close>

datatype tb_data = Tb_null | Tb_own "u8 list" | Tb_pbch

record tx_pdu =
  tx_pdu_length :: u32
  tx_pdu_index :: u32
  tx_num_segments :: u32
  tb_tag :: u32
  tb_length :: u32
  tb_data :: tb_data

record sched_dl =
  dl_frame :: u32
  dl_subframe :: u32
  number_pdcch_ofdm_symbols :: u32
  number_dci :: nat
  number_pdu :: nat
  number_tx_req :: nat
  number_hi :: nat
  number_dci0 :: nat
  transmission_power_pcfich :: u32
  dl_config_dci_list :: "dl_pdu list"
  dl_config_pdu_list :: "dl_pdu list"
  tx_request_pdu_list :: "tx_pdu list"

record sched_ul =
  ul_frame :: u32
  ul_subframe :: u32
  ul_number_pdu :: nat
  srs_present :: u32
  ul_config_list :: "dl_pdu list"

record stim_item =
  st_tti :: u32
  st_dl :: sched_dl
  st_ul :: sched_ul

text \<open>The groups of the P5 configuration the generator sets; the others stay zero.\<close>

record fapi_cfg =
  subframe_cfg :: "u32 list"
  rf_cfg :: "u32 list"
  phich_cfg :: "u32 list"
  sch_cfg :: "u32 list"
  prach_cfg :: "u32 list"
  pusch_cfg :: "u32 list"
  pucch_cfg :: "u32 list"
  ulrs_cfg :: "u32 list"

record gen_cfg =
  cfg_fapi :: fapi_cfg
  cfg_use_sibs_for_p5 :: bool
  cfg_auto_mib :: bool
  cfg_auto_sibs :: bool
  cfg_stim_start_tti :: u32
  cfg_stim_duration :: u32
  cfg_stim_loop :: bool
  cfg_rru_active :: bool
  cfg_rru_earfcn :: u32

abbreviation (input) "FAPI_DL_CONFIG_DCI_DL_PDU_TYPE \<equiv> (0 :: u32)"
abbreviation (input) "FAPI_DL_CONFIG_BCH_PDU_TYPE \<equiv> (1 :: u32)"
abbreviation (input) "FAPI_DL_CONFIG_DLSCH_PDU_TYPE \<equiv> (3 :: u32)"
abbreviation (input) "FAPI_DL_CONFIG_MAX_PDU \<equiv> (64 :: nat)"

definition zero_pdu :: dl_pdu where
  "zero_pdu = \<lparr>pdu_type = 0, pdu_size = 0, pdu_words = (\<lambda>_. 0)\<rparr>"

definition zero_tx :: tx_pdu where
  "zero_tx = \<lparr>tx_pdu_length = 0, tx_pdu_index = 0, tx_num_segments = 0, tb_tag = 0, tb_length = 0, tb_data = Tb_null\<rparr>"

definition zero_dl :: sched_dl where
  "zero_dl = \<lparr>dl_frame = 0, dl_subframe = 0, number_pdcch_ofdm_symbols = 0, number_dci = 0, number_pdu = 0, number_tx_req = 0,
     number_hi = 0, number_dci0 = 0, transmission_power_pcfich = 0, dl_config_dci_list = replicate FAPI_DL_CONFIG_MAX_PDU zero_pdu,
     dl_config_pdu_list = replicate FAPI_DL_CONFIG_MAX_PDU zero_pdu, tx_request_pdu_list = replicate FAPI_DL_CONFIG_MAX_PDU zero_tx\<rparr>"

definition zero_ul :: sched_ul where
  "zero_ul = \<lparr>ul_frame = 0, ul_subframe = 0, ul_number_pdu = 0, srs_present = 0,
     ul_config_list = replicate FAPI_DL_CONFIG_MAX_PDU zero_pdu\<rparr>"

definition zero_item :: stim_item where
  "zero_item = \<lparr>st_tti = 0, st_dl = zero_dl, st_ul = zero_ul\<rparr>"

section \<open>Parsing\<close>

abbreviation "w32 \<equiv> (word_of_int :: int \<Rightarrow> u32)"

definition ASSIGN_OPTIONAL :: "int option \<Rightarrow> int \<Rightarrow> u32" where
  "ASSIGN_OPTIONAL x d = w32 (case x of Some v \<Rightarrow> v | None \<Rightarrow> d)"

text \<open>The words of a structure written into the union.\<close>

definition put_words :: "u32 list \<Rightarrow> (nat \<Rightarrow> u32) \<Rightarrow> nat \<Rightarrow> u32" where
  "put_words ws f = (\<lambda>i. if i < length ws then ws ! i else f i)"

definition parse_p7_dl_cfg_dci :: "stim_dci \<Rightarrow> u32 list" where
  "parse_p7_dl_cfg_dci d =
     [w32 (sd_format d), w32 (sd_cce d), w32 (sd_l d), w32 (sd_rnti d), w32 (sd_ra_type d), ASSIGN_OPTIONAL (sd_vrb_flag d) 0,
      w32 (sd_rb_coding d), w32 (sd_mcs_1 d), w32 (sd_rv_1 d), w32 (sd_ndi_1 d), ASSIGN_OPTIONAL (sd_tb_swap d) 0,
      ASSIGN_OPTIONAL (sd_mcs_2 d) 0, ASSIGN_OPTIONAL (sd_rv_2 d) 0, ASSIGN_OPTIONAL (sd_ndi_2 d) 0, w32 (sd_harq d),
      ASSIGN_OPTIONAL (sd_tpmi d) 0, ASSIGN_OPTIONAL (sd_pmi d) 0, ASSIGN_OPTIONAL (sd_pi d) 0, ASSIGN_OPTIONAL (sd_tpc d) 0,
      ASSIGN_OPTIONAL (sd_downlink_index d) 0, ASSIGN_OPTIONAL (sd_n_gap d) 0, ASSIGN_OPTIONAL (sd_tbs_index d) 0,
      ASSIGN_OPTIONAL (sd_power_offset d) 0, ASSIGN_OPTIONAL (sd_prach_flag d) 0, ASSIGN_OPTIONAL (sd_preamble_index d) 0,
      ASSIGN_OPTIONAL (sd_prach_mask d) 0, w32 (sd_rnti_type d), w32 (sd_power d)]"

definition dlsch_words :: "stim_dlsch \<Rightarrow> (nat \<Rightarrow> u32) \<Rightarrow> nat \<Rightarrow> u32" where
  "dlsch_words d f =
     (let ws1 = [0, 0, w32 (sl_rnti d), w32 (sl_ra_type d), ASSIGN_OPTIONAL (sl_vrb_flag d) 0, w32 (sl_rb_coding d), w32 (sl_modulation d),
            w32 (sl_rv d), w32 (sl_tb d), ASSIGN_OPTIONAL (sl_tb_swap d) 0, ASSIGN_OPTIONAL (sl_tx_scheme d) 0,
            ASSIGN_OPTIONAL (sl_n_layers d) 1, ASSIGN_OPTIONAL (sl_n_subbands d) 0];
          ws2 = [ASSIGN_OPTIONAL (sl_ue_category d) 0, ASSIGN_OPTIONAL (sl_p_a d) 0, ASSIGN_OPTIONAL (sl_delta_power d) 0,
            ASSIGN_OPTIONAL (sl_n_gap d) 0, ASSIGN_OPTIONAL (sl_n_prb d) 0, ASSIGN_OPTIONAL (sl_tm d) 0]
      in (\<lambda>i. if i < 13 then ws1 ! i else if 26 \<le> i \<and> i < 32 then ws2 ! (i - 26) else f i))"

text \<open>
  The size of the block is rounded up to one of the table. The block gets a buffer of the rounded size, into which the PDU is
  copied; a buffer smaller than the PDU would be overrun. \<open>bandwidth\<close> is the configured downlink bandwidth.
\<close>

definition parse_p7_dl_cfg_dlsch :: "u32 \<Rightarrow> stim_dlsch \<Rightarrow> tx_pdu \<Rightarrow> tx_pdu ipc" where
  "parse_p7_dl_cfg_dlsch bandwidth d t =
     (let size = of_nat (length (sl_pdu d));
          nprb = sint (conv_nprb (w32 (sl_ra_type d)) (w32 (sl_rb_coding d)) bandwidth);
          len = (if 0 < nprb \<and> nprb < 110 then tbs_round size (nat nprb) else size)
      in if unat len < length (sl_pdu d) then Inl Array_bounds
         else Inr (t\<lparr>tx_num_segments := 1, tb_tag := 1, tb_length := len,
                     tb_data := Tb_own (sl_pdu d @ replicate (unat len - length (sl_pdu d)) 0)\<rparr>))"

definition set_word :: "nat \<Rightarrow> u32 \<Rightarrow> dl_pdu \<Rightarrow> dl_pdu" where
  "set_word i v p = p\<lparr>pdu_words := (pdu_words p)(i := v)\<rparr>"

text \<open>One PDU of the file; the lists of a request have 64 entries, which nothing checks.\<close>

definition parse_pdu :: "gen_cfg \<Rightarrow> stim_pdu \<Rightarrow> sched_dl \<Rightarrow> sched_dl ipc" where
  "parse_pdu cfg p r =
     (let n = number_pdu r; t = number_tx_req r in
      case p of
        Stim_dci d \<Rightarrow>
          (let k = number_dci r; x = dl_config_dci_list r ! k in
           if k \<ge> FAPI_DL_CONFIG_MAX_PDU then Inl Array_bounds
           else Inr (r\<lparr>dl_config_dci_list := (dl_config_dci_list r)[k :=
               x\<lparr>pdu_type := FAPI_DL_CONFIG_DCI_DL_PDU_TYPE, pdu_words := put_words (parse_p7_dl_cfg_dci d) (pdu_words x)\<rparr>],
             number_dci := Suc k\<rparr>))
      | Stim_bch bs pw \<Rightarrow>
          if cfg_auto_mib cfg then Inr r
          else if n \<noteq> 0 then Inr r
          else if t \<ge> FAPI_DL_CONFIG_MAX_PDU then Inl Array_bounds
          else
            (let x = dl_config_pdu_list r ! n; y = tx_request_pdu_list r ! t in
             Inr (r\<lparr>dl_config_pdu_list := (dl_config_pdu_list r)[n :=
                 set_word 2 (w32 pw) (set_word 1 (of_nat t) (x\<lparr>pdu_type := FAPI_DL_CONFIG_BCH_PDU_TYPE\<rparr>))],
               number_pdu := Suc n,
               tx_request_pdu_list := (tx_request_pdu_list r)[t := y\<lparr>tx_pdu_index := of_nat t, tb_tag := 1, tb_data := Tb_own bs,
                 tb_length := of_nat (length bs)\<rparr>],
               number_tx_req := Suc t\<rparr>))
      | Stim_dlsch d \<Rightarrow>
          if n \<ge> FAPI_DL_CONFIG_MAX_PDU \<or> t \<ge> FAPI_DL_CONFIG_MAX_PDU then Inl Array_bounds
          else
            (let x = dl_config_pdu_list r ! n in
             case parse_p7_dl_cfg_dlsch (rf_cfg (cfg_fapi cfg) ! 0) d (tx_request_pdu_list r ! t) of
               Inl e \<Rightarrow> Inl e
             | Inr y \<Rightarrow>
                 Inr (r\<lparr>dl_config_pdu_list := (dl_config_pdu_list r)[n :=
                     set_word 1 (of_nat t) (x\<lparr>pdu_type := FAPI_DL_CONFIG_DLSCH_PDU_TYPE, pdu_words := dlsch_words d (pdu_words x)\<rparr>)],
                   tx_request_pdu_list := (tx_request_pdu_list r)[t := y\<lparr>tx_pdu_index := of_nat t\<rparr>],
                   number_pdu := Suc n, number_tx_req := Suc t\<rparr>))
      | Stim_other \<Rightarrow> Inr r)"

fun parse_pdus :: "gen_cfg \<Rightarrow> stim_pdu list \<Rightarrow> sched_dl \<Rightarrow> sched_dl ipc" where
  "parse_pdus cfg [] r = Inr r"
| "parse_pdus cfg (p # ps) r = (case parse_pdu cfg p r of Inl e \<Rightarrow> Inl e | Inr r' \<Rightarrow> parse_pdus cfg ps r')"

text \<open>A missing list of PDUs is a null pointer.\<close>

definition parse_p7_dl_cfg :: "gen_cfg \<Rightarrow> stim_entry \<Rightarrow> (int \<times> sched_dl) ipc" where
  "parse_p7_dl_cfg cfg e =
     (case se_pdus e of
        None \<Rightarrow> Inl Null_pointer
      | Some ps \<Rightarrow>
          (case parse_pdus cfg ps (zero_dl\<lparr>number_pdcch_ofdm_symbols := w32 (se_cfi e), transmission_power_pcfich := w32 (se_cfi_power e)\<rparr>) of
             Inl f \<Rightarrow> Inl f
           | Inr r \<Rightarrow> Inr (if number_pdu r \<noteq> number_tx_req r then - 1 else 0, r)))"

definition parse_p7_ul_cfg :: "stim_entry \<Rightarrow> int \<times> sched_ul" where
  "parse_p7_ul_cfg e = (0, zero_ul)"

text \<open>
  The loop over the entries of the file. The array of the items was cleared and its items before the failing one are filled; the
  length is that of the file in any case.
\<close>

fun parse_p7_loop :: "gen_cfg \<Rightarrow> stim_entry list \<Rightarrow> (int \<times> stim_item list) ipc" where
  "parse_p7_loop cfg [] = Inr (0, [])"
| "parse_p7_loop cfg (e # es) =
     (case parse_p7_dl_cfg cfg e of
        Inl f \<Rightarrow> Inl f
      | Inr (rc, d) \<Rightarrow>
          if rc \<noteq> 0 then Inr (- 1, \<lparr>st_tti = w32 (se_tti e), st_dl = d, st_ul = zero_ul\<rparr> # replicate (length es) zero_item)
          else case parse_p7_ul_cfg e of (rc, u) \<Rightarrow>
            if rc \<noteq> 0 then Inr (- 1, \<lparr>st_tti = w32 (se_tti e), st_dl = d, st_ul = u\<rparr> # replicate (length es) zero_item)
            else (case parse_p7_loop cfg es of
                    Inl f \<Rightarrow> Inl f
                  | Inr (rc, is) \<Rightarrow> Inr (rc, \<lparr>st_tti = w32 (se_tti e), st_dl = d, st_ul = u\<rparr> # is)))"

definition l2_fapi_generator_app_parse_p7 :: "gen_cfg \<Rightarrow> stim_entry list \<Rightarrow> (int \<times> stim_item list) ipc" where
  "l2_fapi_generator_app_parse_p7 cfg es = (if es = [] then Inr (0, []) else parse_p7_loop cfg es)"

definition l2_fapi_generator_app_parse_general :: "stim_general \<Rightarrow> gen_cfg \<Rightarrow> gen_cfg" where
  "l2_fapi_generator_app_parse_general g c =
     c\<lparr>cfg_use_sibs_for_p5 := g_use_sibs_for_p5 g, cfg_auto_mib := g_auto_mib g, cfg_auto_sibs := g_auto_sibs g,
       cfg_stim_start_tti := w32 (g_stim_start_tti g), cfg_stim_duration := w32 (g_stim_duration g), cfg_stim_loop := g_stim_loop g,
       cfg_rru_active := g_rru_active g, cfg_rru_earfcn := w32 (g_rru_earfcn g)\<rparr>"

definition l2_fapi_generator_app_parse_p5 :: "stim_p5 \<Rightarrow> gen_cfg \<Rightarrow> gen_cfg" where
  "l2_fapi_generator_app_parse_p5 p c =
     c\<lparr>cfg_fapi := \<lparr>
         subframe_cfg = map w32 [p_duplex p, p_pcfich_power_offset p, p_p_b p, p_cyclic_prefix p, p_cyclic_prefix p],
         rf_cfg = map w32 [p_nprb p, p_nprb p, p_rs_power p, p_tx_antenna_ports p, p_rx_antenna_ports p],
         phich_cfg = (case p_phich p of (res, dur, pow) \<Rightarrow> map w32 [res, dur, pow]),
         sch_cfg = (case p_sch p of (pss, sss, cell) \<Rightarrow> map w32 [pss, sss, cell]),
         prach_cfg = (case p_prach p of (ci, root, zero, high, freq) \<Rightarrow> map w32 [ci, root, zero, high, freq]),
         pusch_cfg = (case p_pusch p of (mode, off, sub) \<Rightarrow> map w32 [mode, off, sub]),
         pucch_cfg = (case p_pucch p of (shift, cqi, cs, an) \<Rightarrow> map w32 [shift, cqi, cs, an]),
         ulrs_cfg = (case p_ulrs p of (hop, grp, cyc) \<Rightarrow> map w32 [hop, grp, cyc])\<rparr>\<rparr>"

text \<open>The file as a whole; \<open>None\<close> is a file that cannot be read or decoded.\<close>

definition read_stim_config :: "stim_file option \<Rightarrow> gen_cfg \<Rightarrow> (int \<times> gen_cfg \<times> stim_item list) ipc" where
  "read_stim_config f c =
     (case f of
        None \<Rightarrow> Inr (- 1, c, [])
      | Some s \<Rightarrow>
          (let c' = l2_fapi_generator_app_parse_p5 (sf_p5 s) (l2_fapi_generator_app_parse_general (sf_general s) c) in
           case l2_fapi_generator_app_parse_p7 c' (sf_p7 s) of Inl e \<Rightarrow> Inl e | Inr (rc, is) \<Rightarrow> Inr (if rc \<noteq> 0 then - 1 else 0, c', is)))"

section \<open>Blocks\<close>

lemma conv_nprb_sint:
  assumes "n \<in> {6, 25, 50, 100}"
  shows "sint (conv_nprb ra al n) = int (unat (conv_nprb ra al n))" "unat (conv_nprb ra al n) \<le> unat n" "unat (conv_nprb ra al n) < 110"
proof -
  have "unat (conv_nprb ra al n) \<le> unat n" using conv_nprb_bound [OF assms, of ra al] by (simp add: word_le_nat_alt)
  moreover have "unat n \<le> 100" using assms by auto
  ultimately show "unat (conv_nprb ra al n) \<le> unat n" "unat (conv_nprb ra al n) < 110"
    "sint (conv_nprb ra al n) = int (unat (conv_nprb ra al n))"
    using sint_small [of "conv_nprb ra al n"] by (auto simp: word_less_nat_alt)
qed

definition block_len :: "u32 \<Rightarrow> stim_dlsch \<Rightarrow> u32" where
  "block_len n d = (let sz = of_nat (length (sl_pdu d)); nprb = unat (conv_nprb (w32 (sl_ra_type d)) (w32 (sl_rb_coding d)) n)
     in if 0 < nprb then tbs_round sz nprb else sz)"

lemma block_len_ge:
  assumes "n \<in> {6, 25, 50, 100}" "length (sl_pdu d) < 2 ^ 29"
  shows "length (sl_pdu d) \<le> unat (block_len n d)"
  using assms tbs_round_ge [OF assms(2)] conv_nprb_sint(3) [OF assms(1), of "w32 (sl_ra_type d)" "w32 (sl_rb_coding d)"]
  by (auto simp: block_len_def Let_def unat_of_nat)

lemma parse_dlsch_eq:
  assumes "n \<in> {6, 25, 50, 100}" "length (sl_pdu d) < 2 ^ 29"
  shows "parse_p7_dl_cfg_dlsch n d t = Inr (t\<lparr>tx_num_segments := 1, tb_tag := 1, tb_length := block_len n d,
     tb_data := Tb_own (sl_pdu d @ replicate (unat (block_len n d) - length (sl_pdu d)) 0)\<rparr>)"
proof -
  let ?k = "conv_nprb (w32 (sl_ra_type d)) (w32 (sl_rb_coding d)) n"
  have k: "sint ?k = int (unat ?k)" "unat ?k < 110" using conv_nprb_sint [OF assms(1)] by blast+
  then have "(0 < sint ?k \<and> sint ?k < 110) = (0 < unat ?k)" "nat (sint ?k) = unat ?k" by linarith+
  then have *: "(if 0 < sint ?k \<and> sint ?k < 110 then tbs_round (of_nat (length (sl_pdu d))) (nat (sint ?k)) else of_nat (length (sl_pdu d)))
      = block_len n d"
    by (simp only: block_len_def Let_def)
  show ?thesis unfolding parse_p7_dl_cfg_dlsch_def Let_def * using block_len_ge [OF assms] by simp
qed

text \<open>C24: The block of a DLSCH PDU. For every bandwidth the generator knows and every allocation, the number of resource blocks counted is at
  most the bandwidth; the PDU of the file becomes a block whose buffer holds the PDU followed by zeros up to the length announced, never
  less than the PDU. With two resource blocks or more, the length is the least size of the standard's table for that number that
  holds the PDU, and the PDU's own length when no size of the table does.
\<close>

theorem gen_block_size:
  assumes "n \<in> {6, 25, 50, 100}" "length (sl_pdu d) < 2 ^ 29"
  defines "nprb \<equiv> unat (conv_nprb (w32 (sl_ra_type d)) (w32 (sl_rb_coding d)) n)"
  shows "nprb \<le> unat n \<and>
    (\<exists>y. parse_p7_dl_cfg_dlsch n d t = Inr y \<and> length (sl_pdu d) \<le> unat (tb_length y) \<and>
       tb_data y = Tb_own (sl_pdu d @ replicate (unat (tb_length y) - length (sl_pdu d)) 0) \<and>
       (2 \<le> nprb \<longrightarrow>
          (if \<exists>s\<in>tbs_sizes nprb. 8 * length (sl_pdu d) \<le> s
           then 8 * unat (tb_length y) = Min {s \<in> tbs_sizes nprb. 8 * length (sl_pdu d) \<le> s}
           else unat (tb_length y) = length (sl_pdu d))))"
proof -
  have n: "nprb \<le> unat n" "nprb < 110" using conv_nprb_sint [OF assms(1)] by (auto simp: nprb_def)
  have l: "block_len n d = tbs_round (of_nat (length (sl_pdu d))) nprb" if "2 \<le> nprb"
    using that by (simp add: block_len_def Let_def nprb_def)
  show ?thesis
    using n block_len_ge [OF assms(1,2)] tbs_round_least [OF assms(2), of nprb] tbs_round_none [OF assms(2), of nprb] assms(2)
    by (auto simp: parse_dlsch_eq [OF assms(1,2)] l not_le unat_of_nat)
qed

section \<open>Requests of an entry\<close>

text \<open>
  A request of a scenario: as many PDUs of data as blocks, the PDU and the block of a position carry the position as their index, a BCH PDU
  stands in the first position only.
\<close>

definition gen_data_ok :: "sched_dl \<Rightarrow> nat \<Rightarrow> bool" where
  "gen_data_ok r k \<longleftrightarrow>
     pdu_words (dl_config_pdu_list r ! k) 1 = of_nat k \<and> tx_pdu_index (tx_request_pdu_list r ! k) = of_nat k \<and>
     tb_tag (tx_request_pdu_list r ! k) = 1 \<and> tb_data (tx_request_pdu_list r ! k) \<noteq> Tb_null \<and>
     (pdu_type (dl_config_pdu_list r ! k) = FAPI_DL_CONFIG_DLSCH_PDU_TYPE \<or>
      pdu_type (dl_config_pdu_list r ! k) = FAPI_DL_CONFIG_BCH_PDU_TYPE \<and> k = 0)"

definition gen_linked :: "sched_dl \<Rightarrow> bool" where
  "gen_linked r \<longleftrightarrow>
     length (dl_config_dci_list r) = 64 \<and> length (dl_config_pdu_list r) = 64 \<and> length (tx_request_pdu_list r) = 64 \<and>
     number_dci r \<le> 64 \<and> number_pdu r \<le> 64 \<and> number_tx_req r = number_pdu r \<and>
     (\<forall>k<number_dci r. pdu_type (dl_config_dci_list r ! k) = FAPI_DL_CONFIG_DCI_DL_PDU_TYPE) \<and>
     (\<forall>k<number_pdu r. gen_data_ok r k)"

lemma gen_linked_start: "gen_linked (zero_dl\<lparr>number_pdcch_ofdm_symbols := c, transmission_power_pcfich := p\<rparr>)"
  by (simp add: gen_linked_def zero_dl_def)

lemma parse_dlsch_block:
  "parse_p7_dl_cfg_dlsch n d t = Inr y \<Longrightarrow> tb_tag y = 1 \<and> tb_data y \<noteq> Tb_null"
  by (auto simp: parse_p7_dl_cfg_dlsch_def Let_def split: if_splits)

lemma gen_linked_dci:
  assumes "gen_linked r" "parse_pdu cfg (Stim_dci d) r = Inr r'"
  shows "gen_linked r'"
  using assms
  by (auto simp: parse_pdu_def gen_linked_def gen_data_ok_def Let_def nth_list_update less_Suc_eq split: if_splits)

lemma gen_linked_bch:
  assumes "gen_linked r" "parse_pdu cfg (Stim_bch bs pw) r = Inr r'"
  shows "gen_linked r'"
  using assms
  by (auto simp: parse_pdu_def gen_linked_def gen_data_ok_def Let_def set_word_def nth_list_update less_Suc_eq split: if_splits)

lemma gen_linked_dlsch:
  assumes "gen_linked r" "parse_pdu cfg (Stim_dlsch d) r = Inr r'"
  shows "gen_linked r'"
proof -
  let ?n = "number_pdu r"
  obtain y where y: "parse_p7_dl_cfg_dlsch (rf_cfg (cfg_fapi cfg) ! 0) d (tx_request_pdu_list r ! ?n) = Inr y" and n: "?n < 64"
    and r': "r' = r\<lparr>dl_config_pdu_list := (dl_config_pdu_list r)[?n := set_word 1 (of_nat ?n) ((dl_config_pdu_list r ! ?n)
          \<lparr>pdu_type := FAPI_DL_CONFIG_DLSCH_PDU_TYPE, pdu_words := dlsch_words d (pdu_words (dl_config_pdu_list r ! ?n))\<rparr>)],
        tx_request_pdu_list := (tx_request_pdu_list r)[?n := y\<lparr>tx_pdu_index := of_nat ?n\<rparr>],
        number_pdu := Suc ?n, number_tx_req := Suc ?n\<rparr>"
    using assms by (auto simp: parse_pdu_def gen_linked_def Let_def split: if_splits sum.splits)
  show ?thesis using assms(1) n parse_dlsch_block [OF y]
    by (auto simp: r' gen_linked_def gen_data_ok_def set_word_def nth_list_update less_Suc_eq)
qed

lemma gen_linked_pdu:
  assumes "gen_linked r" "parse_pdu cfg p r = Inr r'"
  shows "gen_linked r' \<and> number_pdcch_ofdm_symbols r' = number_pdcch_ofdm_symbols r"
proof
  show "gen_linked r'"
  proof (cases p)
    case (Stim_dci d)
    show ?thesis by (rule gen_linked_dci [OF assms(1) assms(2) [unfolded Stim_dci]])
  next
    case (Stim_bch bs pw)
    show ?thesis by (rule gen_linked_bch [OF assms(1) assms(2) [unfolded Stim_bch]])
  next
    case (Stim_dlsch d)
    show ?thesis by (rule gen_linked_dlsch [OF assms(1) assms(2) [unfolded Stim_dlsch]])
  next
    case Stim_other
    then show ?thesis using assms by (simp add: parse_pdu_def)
  qed
  show "number_pdcch_ofdm_symbols r' = number_pdcch_ofdm_symbols r"
    using assms(2) by (auto simp: parse_pdu_def Let_def split: stim_pdu.splits if_splits sum.splits)
qed

lemma gen_linked_pdus:
  assumes "gen_linked r" "parse_pdus cfg ps r = Inr r'"
  shows "gen_linked r' \<and> number_pdcch_ofdm_symbols r' = number_pdcch_ofdm_symbols r"
  using assms
proof (induction ps arbitrary: r)
  case (Cons p ps)
  then obtain r1 where r1: "parse_pdu cfg p r = Inr r1" "parse_pdus cfg ps r1 = Inr r'" by (auto split: sum.splits)
  from gen_linked_pdu [OF Cons.prems(1) r1(1)] Cons.IH [OF _ r1(2)] show ?case by simp
qed simp

lemma parse_p7_dl_cfg_linked:
  assumes "parse_p7_dl_cfg cfg e = Inr (rc, r)"
  shows "rc = 0 \<and> gen_linked r \<and> number_pdcch_ofdm_symbols r = w32 (se_cfi e)"
proof -
  obtain ps where "parse_pdus cfg ps (zero_dl\<lparr>number_pdcch_ofdm_symbols := w32 (se_cfi e), transmission_power_pcfich := w32 (se_cfi_power e)\<rparr>) = Inr r"
    "rc = (if number_pdu r \<noteq> number_tx_req r then - 1 else 0)"
    using assms by (auto simp: parse_p7_dl_cfg_def split: option.splits sum.splits)
  from gen_linked_pdus [OF gen_linked_start this(1)] this(2) show ?thesis by (auto simp: gen_linked_def)
qed

text \<open>The loop ends with no error of its own, and each item is a request of that kind for the entry of its position.\<close>

definition gen_item_of :: "stim_entry \<Rightarrow> stim_item \<Rightarrow> bool" where
  "gen_item_of e i \<longleftrightarrow> st_tti i = w32 (se_tti e) \<and> gen_linked (st_dl i) \<and> number_pdcch_ofdm_symbols (st_dl i) = w32 (se_cfi e) \<and>
     st_ul i = zero_ul"

lemma parse_p7_loop_items:
  assumes "parse_p7_loop cfg es = Inr (rc, is)"
  shows "rc = 0 \<and> list_all2 gen_item_of es is"
  using assms
proof (induction es arbitrary: "is")
  case (Cons e es)
  obtain c d where d: "parse_p7_dl_cfg cfg e = Inr (c, d)" using Cons.prems by (auto split: sum.splits)
  note l = parse_p7_dl_cfg_linked [OF d]
  obtain js where "parse_p7_loop cfg es = Inr (rc, js)" "is = \<lparr>st_tti = w32 (se_tti e), st_dl = d, st_ul = zero_ul\<rparr> # js"
    using Cons.prems l d by (auto simp: parse_p7_ul_cfg_def split: sum.splits)
  with Cons.IH l show ?case by (auto simp: gen_item_of_def)
qed simp

section \<open>Reading the file\<close>

text \<open>An entry the generator has room for: a list of PDUs, at most 64 of each kind of list, no PDU of half a gigabyte.\<close>

definition is_dci :: "stim_pdu \<Rightarrow> bool" where
  "is_dci p = (case p of Stim_dci _ \<Rightarrow> True | _ \<Rightarrow> False)"

definition pdu_fits :: "stim_pdu \<Rightarrow> bool" where
  "pdu_fits p = (case p of Stim_dlsch d \<Rightarrow> length (sl_pdu d) < 2 ^ 29 | _ \<Rightarrow> True)"

definition entry_fits :: "stim_entry \<Rightarrow> bool" where
  "entry_fits e = (case se_pdus e of
     None \<Rightarrow> False
   | Some ps \<Rightarrow> length (filter is_dci ps) \<le> 64 \<and> length (filter (Not \<circ> is_dci) ps) \<le> 64 \<and> list_all pdu_fits ps)"

lemma parse_pdu_total:
  assumes "rf_cfg (cfg_fapi cfg) ! 0 \<in> {6, 25, 50, 100}" "gen_linked r" "pdu_fits p"
    "is_dci p \<Longrightarrow> number_dci r < 64" "\<not> is_dci p \<Longrightarrow> number_pdu r < 64"
  shows "\<exists>r'. parse_pdu cfg p r = Inr r' \<and> number_dci r' \<le> number_dci r + (if is_dci p then 1 else 0) \<and>
    number_pdu r' \<le> number_pdu r + (if is_dci p then 0 else 1)"
proof (cases p)
  case (Stim_dlsch d)
  have "number_tx_req r = number_pdu r" using assms(2) by (simp add: gen_linked_def)
  moreover have "length (sl_pdu d) < 2 ^ 29" using assms(3) Stim_dlsch by (simp add: pdu_fits_def)
  ultimately show ?thesis using assms(5) Stim_dlsch parse_dlsch_eq [OF assms(1)]
    by (simp add: parse_pdu_def is_dci_def Let_def)
next
  case (Stim_bch bs pw)
  then show ?thesis using assms by (simp add: parse_pdu_def is_dci_def Let_def gen_linked_def)
qed (use assms in \<open>simp_all add: parse_pdu_def is_dci_def Let_def\<close>)

lemma parse_pdus_total:
  assumes "rf_cfg (cfg_fapi cfg) ! 0 \<in> {6, 25, 50, 100}" "gen_linked r" "list_all pdu_fits ps"
    "number_dci r + length (filter is_dci ps) \<le> 64" "number_pdu r + length (filter (Not \<circ> is_dci) ps) \<le> 64"
  shows "\<exists>r'. parse_pdus cfg ps r = Inr r'"
  using assms(2-5)
proof (induction ps arbitrary: r)
  case (Cons p ps)
  obtain r1 where r1: "parse_pdu cfg p r = Inr r1" "number_dci r1 \<le> number_dci r + (if is_dci p then 1 else 0)"
    "number_pdu r1 \<le> number_pdu r + (if is_dci p then 0 else 1)"
    using parse_pdu_total [OF assms(1) Cons.prems(1), of p] Cons.prems by (auto split: if_splits)
  have "\<exists>r'. parse_pdus cfg ps r1 = Inr r'"
    using Cons.IH [of r1] gen_linked_pdu [OF Cons.prems(1) r1(1)] r1(2,3) Cons.prems by (auto split: if_splits)
  then show ?case using r1(1) by simp
qed simp

lemma parse_p7_loop_total:
  assumes "rf_cfg (cfg_fapi cfg) ! 0 \<in> {6, 25, 50, 100}" "list_all entry_fits es"
  shows "\<exists>is. parse_p7_loop cfg es = Inr (0, is) \<and> list_all2 gen_item_of es is"
  using assms(2)
proof (induction es)
  case (Cons e es)
  obtain ps where ps: "se_pdus e = Some ps" "length (filter is_dci ps) \<le> 64" "length (filter (Not \<circ> is_dci) ps) \<le> 64" "list_all pdu_fits ps"
    using Cons.prems by (auto simp: entry_fits_def split: option.splits)
  let ?z = "zero_dl\<lparr>number_pdcch_ofdm_symbols := w32 (se_cfi e), transmission_power_pcfich := w32 (se_cfi_power e)\<rparr>"
  have "number_dci ?z = 0" "number_pdu ?z = 0" by (simp_all add: zero_dl_def)
  then obtain r where "parse_pdus cfg ps ?z = Inr r"
    using parse_pdus_total [OF assms(1) gen_linked_start ps(4)] ps(2,3) by (metis add_0)
  then obtain c where c: "parse_p7_dl_cfg cfg e = Inr (c, r)" using ps(1) by (simp add: parse_p7_dl_cfg_def)
  from parse_p7_dl_cfg_linked [OF c] have "c = 0" by simp
  moreover obtain "is" where "parse_p7_loop cfg es = Inr (0, is)" using Cons by auto
  ultimately obtain js where js: "parse_p7_loop cfg (e # es) = Inr (0, js)" using c by (auto simp: parse_p7_ul_cfg_def)
  from parse_p7_loop_items [OF js] js show ?case by blast
qed simp

text \<open>C23: Reading a scenario. When the bandwidth is one the generator counts resource blocks for and every entry has its list of PDUs, with room for
  them in the lists of a request, the file is read without error: one item for each entry, in the order of the file, of the entry's TTI and
  number of control symbols, with an empty uplink request. In every item the PDUs of data and the blocks are as many, the PDU and the block of
  one position both carry the position as their index, and a broadcast PDU is in the first position only.
\<close>

theorem gen_scenario_read:
  assumes "w32 (p_nprb (sf_p5 s)) \<in> {6, 25, 50, 100}" "list_all entry_fits (sf_p7 s)"
  shows "\<exists>c' is. read_stim_config (Some s) c = Inr (0, c', is) \<and> list_all2 gen_item_of (sf_p7 s) is \<and>
    rf_cfg (cfg_fapi c') ! 0 = w32 (p_nprb (sf_p5 s)) \<and> cfg_auto_mib c' = g_auto_mib (sf_general s)"
proof -
  let ?c = "l2_fapi_generator_app_parse_p5 (sf_p5 s) (l2_fapi_generator_app_parse_general (sf_general s) c)"
  have b: "rf_cfg (cfg_fapi ?c) ! 0 = w32 (p_nprb (sf_p5 s))" by (simp add: l2_fapi_generator_app_parse_p5_def)
  then have "rf_cfg (cfg_fapi ?c) ! 0 \<in> {6, 25, 50, 100}" using assms(1) by simp
  from parse_p7_loop_total [OF this assms(2)] obtain "is"
    where "parse_p7_loop ?c (sf_p7 s) = Inr (0, is)" "list_all2 gen_item_of (sf_p7 s) is" by blast
  moreover have "cfg_auto_mib ?c = g_auto_mib (sf_general s)"
    by (simp add: l2_fapi_generator_app_parse_p5_def l2_fapi_generator_app_parse_general_def)
  ultimately show ?thesis using b by (auto simp: read_stim_config_def Let_def l2_fapi_generator_app_parse_p7_def)
qed

section \<open>An example\<close>

text \<open>A cell of 25 resource blocks; a block of ten bytes on three resource blocks with its DCI, then a TTI of control only.\<close>

definition ex_dlsch :: stim_dlsch where
  "ex_dlsch = \<lparr>sl_pdu = replicate 10 7, sl_rnti = 61, sl_ra_type = 0, sl_vrb_flag = None, sl_rb_coding = 3, sl_modulation = 2, sl_rv = 0,
     sl_tb = 1, sl_tb_swap = None, sl_tx_scheme = None, sl_n_layers = None, sl_n_subbands = None, sl_ue_category = None, sl_p_a = None,
     sl_delta_power = None, sl_n_gap = None, sl_n_prb = None, sl_tm = None\<rparr>"

definition ex_dci :: stim_dci where
  "ex_dci = \<lparr>sd_format = 1, sd_cce = 0, sd_l = 4, sd_rnti = 61, sd_ra_type = 0, sd_vrb_flag = None, sd_rb_coding = 3, sd_mcs_1 = 2,
     sd_rv_1 = 0, sd_ndi_1 = 1, sd_tb_swap = None, sd_mcs_2 = None, sd_rv_2 = None, sd_ndi_2 = None, sd_harq = 0, sd_tpmi = None, sd_pmi = None,
     sd_pi = None, sd_tpc = None, sd_downlink_index = None, sd_n_gap = None, sd_tbs_index = None, sd_power_offset = None, sd_prach_flag = None,
     sd_preamble_index = None, sd_prach_mask = None, sd_rnti_type = 1, sd_power = 0\<rparr>"

definition ex_file :: stim_file where
  "ex_file = \<lparr>
     sf_general = \<lparr>g_use_sibs_for_p5 = False, g_auto_mib = True, g_auto_sibs = False, g_stim_start_tti = 0, g_stim_duration = 2,
       g_stim_loop = True, g_rru_active = False, g_rru_earfcn = 0\<rparr>,
     sf_p5 = \<lparr>p_duplex = 1, p_pcfich_power_offset = 0, p_p_b = 0, p_cyclic_prefix = 0, p_nprb = 25, p_rs_power = 0, p_tx_antenna_ports = 1,
       p_rx_antenna_ports = 1, p_phich = (0, 0, 0), p_sch = (0, 0, 1), p_prach = (0, 0, 0, 0, 0), p_pusch = (0, 0, 1), p_pucch = (1, 0, 0, 0),
       p_ulrs = (0, 0, 0)\<rparr>,
     sf_p7 = [\<lparr>se_tti = 0, se_cfi = 2, se_cfi_power = 0, se_pdus = Some [Stim_dci ex_dci, Stim_dlsch ex_dlsch]\<rparr>,
              \<lparr>se_tti = 1, se_cfi = 1, se_cfi_power = 0, se_pdus = Some []\<rparr>]\<rparr>"

lemma ex_nprb: "conv_nprb (w32 (sl_ra_type ex_dlsch)) (w32 (sl_rb_coding ex_dlsch)) 25 = 3"
  by (simp add: conv_nprb_def count_bits_eq ex_dlsch_def upt_conv_Cons bit_iff_odd)

theorem gen_block_size_witness:
  "\<exists>y. parse_p7_dl_cfg_dlsch 25 ex_dlsch zero_tx = Inr y \<and> 10 \<le> unat (tb_length y) \<and>
     8 * unat (tb_length y) = Min {s \<in> tbs_sizes 3. 80 \<le> s}"
proof -
  have "tbs_table ! 1 ! 2 = 88" "tbs_table ! 1 \<in> set tbs_table" by (simp_all add: tbs_table_def)
  then have "88 \<in> tbs_sizes 3" by (force simp: tbs_sizes_def)
  then have "\<exists>s\<in>tbs_sizes 3. 80 \<le> s" by (rule bexI [rotated]) simp
  then show ?thesis using gen_block_size [of 25 ex_dlsch zero_tx] unfolding ex_nprb by (auto simp: ex_dlsch_def)
qed

theorem gen_scenario_read_witness:
  "\<forall>c. \<exists>c' is. read_stim_config (Some ex_file) c = Inr (0, c', is) \<and> list_all2 gen_item_of (sf_p7 ex_file) is \<and>
    rf_cfg (cfg_fapi c') ! 0 = 25 \<and> cfg_auto_mib c'"
  using gen_scenario_read [of ex_file]
  by (simp add: ex_file_def entry_fits_def is_dci_def pdu_fits_def ex_dlsch_def)

end
