(* ===== verification/Gen_Phy.thy ===== *)
theory Gen_Phy
  imports Gen_Scenario
begin

text \<open>
  The player of the traffic generator (\<open>l2_fapi_generator/phy/phy.c\<close>, \<open>phy/phy_common.c\<close>, \<open>l2_fapi_generator.c\<close>): the thread that starts
  the L1 when the FAPI library is connected and, for each subframe indication, sends the requests of the scenario's item of that TTI.
  What the library hands to the thread in one pass of its loop is an argument of the pass: the connection, the subframe
  indication and the messages waiting in its queues. The requests sent are recorded as a list of calls.
\<close>

section \<open>State\<close>

record gen_proc =
  tti_tx :: u32
  tti_rx :: u32
  tti_sched_ul :: u32
  frame_rx :: u32
  frame_tx :: u32
  frame_sched_ul :: u32
  sf_rx :: u32
  sf_tx :: u32
  sf_sched_ul :: u32
  abs_tti_tx :: u64
  abs_tti_rx :: u64
  rx_ind_q :: "nat option list"
  harq_ind_q :: "nat option list"
  sr_ind_q :: "nat option list"
  cqi_ind_q :: "nat option list"
  crc_ind_q :: "nat option list"
  pbch_pdu :: "u8 list"
  tx_pdu_index_p :: u32

text \<open>The calls of the FAPI library and of the scheduler's hook, with the requests as they are at the call.\<close>

datatype gen_call =
    P5_stop
  | P5_config fapi_cfg
  | P5_start
  | New_rach u32 u32 u32 u32
  | P7_dl_config sched_dl
  | P7_ul_config sched_ul
  | P7_tx sched_dl "u8 list"
  | P7_hi_dci0 sched_dl

text \<open>\<open>sched_dl_config_req\<close> and \<open>sched_ul_config_req\<close> are the request buffers of the library, one for each subframe.\<close>

record gen_state =
  gen_no :: int
  gen_running :: bool
  abs_tti :: u32
  gen_config :: gen_cfg
  phy_running :: bool
  gen_phy :: gen_proc
  stim_ptr :: nat
  stim_list :: "stim_item list"
  l1_connected :: bool
  l1_running :: bool
  sched_dl_config_req :: "sched_dl list"
  sched_ul_config_req :: "sched_ul list"
  gen_calls :: "gen_call list"

abbreviation "stim_len s \<equiv> length (stim_list s)"

text \<open>A message of an indication queue by its number, with its subframe and the count of its body; a RACH message with its preambles.\<close>

record ind_msg =
  im_id :: nat
  im_subframe :: u32
  im_count :: u32

record preamble =
  pr_preamble :: u32
  pr_timing_advance :: u32
  pr_power :: u32

record rach_msg =
  ra_frame :: u32
  ra_subframe :: u32
  ra_preambles :: "preamble list"

record gen_input =
  in_connected :: bool
  in_sf :: "(u32 \<times> u32) option"
  in_rach :: "rach_msg list"
  in_rx :: "ind_msg list"
  in_harq :: "ind_msg list"
  in_sr :: "ind_msg list"
  in_cqi :: "ind_msg list"
  in_crc :: "ind_msg list"

definition call :: "gen_call \<Rightarrow> gen_state \<Rightarrow> gen_state" where
  "call c s = s\<lparr>gen_calls := gen_calls s @ [c]\<rparr>"

section \<open>Time\<close>

definition phy_common_set_time :: "u32 \<Rightarrow> u32 \<Rightarrow> gen_proc \<Rightarrow> gen_proc" where
  "phy_common_set_time frame subframe p =
     (let tx = frame * 10 + subframe;
          rx = (if tx \<ge> 4 then tx - 4 else 10240 + tx - 4);
          ul = (tx + 4) mod 10240
      in p\<lparr>tti_tx := tx, frame_tx := frame, sf_tx := subframe,
           tti_rx := rx, frame_rx := rx div 10, sf_rx := rx mod 10,
           tti_sched_ul := ul, frame_sched_ul := ul div 10, sf_sched_ul := ul mod 10,
           abs_tti_tx := (if abs_tti_tx p mod 10240 \<noteq> ucast tx then ucast tx else abs_tti_tx p + 1),
           abs_tti_rx := (if abs_tti_rx p mod 10240 \<noteq> ucast rx then ucast rx else abs_tti_rx p + 1)\<rparr>)"

section \<open>Broadcast channel\<close>

definition mib_bandwidth :: "u32 \<Rightarrow> u8" where
  "mib_bandwidth n = (if n = 6 then push_bit 5 0 else if n = 15 then push_bit 5 1 else if n = 25 then push_bit 5 2
     else if n = 50 then push_bit 5 3 else if n = 100 then push_bit 5 4 else push_bit 5 2)"

definition mib_bytes :: "fapi_cfg \<Rightarrow> u32 \<Rightarrow> u8 list" where
  "mib_bytes c frame =
     [((mib_bandwidth (rf_cfg c ! 0) OR ucast (push_bit 4 (phich_cfg c ! 1) AND 0x10)) OR ucast (push_bit 2 (phich_cfg c ! 0)))
        OR ucast (drop_bit 8 frame AND 3),
      ucast (frame AND 0xfc), 0]"

text \<open>The PDU follows those the request already has; its place in the lists is not checked.\<close>

definition phy_common_encode_bch :: "fapi_cfg \<Rightarrow> gen_proc \<Rightarrow> sched_dl \<Rightarrow> (gen_proc \<times> sched_dl) ipc" where
  "phy_common_encode_bch c p r =
     (if sf_tx p \<noteq> 0 then Inr (p, r)
      else if frame_tx p AND 3 \<noteq> 0 then Inr (p, r)
      else
        (let n = number_pdu r; t = number_tx_req r; x = dl_config_pdu_list r ! n; y = tx_request_pdu_list r ! t in
         if n \<ge> FAPI_DL_CONFIG_MAX_PDU \<or> t \<ge> FAPI_DL_CONFIG_MAX_PDU then Inl Array_bounds
         else Inr (p\<lparr>pbch_pdu := mib_bytes c (frame_tx p) @ drop 3 (pbch_pdu p), tx_pdu_index_p := tx_pdu_index_p p + 1\<rparr>,
           r\<lparr>dl_config_pdu_list := (dl_config_pdu_list r)[n :=
               set_word 0 3 (set_word 1 (tx_pdu_index_p p) (x\<lparr>pdu_type := FAPI_DL_CONFIG_BCH_PDU_TYPE, pdu_size := 12\<rparr>))],
             tx_request_pdu_list := (tx_request_pdu_list r)[t := y\<lparr>tx_pdu_index := tx_pdu_index_p p, tx_pdu_length := 3,
               tx_num_segments := 1, tb_length := 3, tb_tag := 1, tb_data := Tb_pbch\<rparr>],
             number_pdu := Suc n, number_tx_req := Suc t\<rparr>)))"

section \<open>Requests of an item\<close>

definition phy_common_encode_pusch :: "stim_item \<Rightarrow> sched_ul \<Rightarrow> sched_ul ipc" where
  "phy_common_encode_pusch i u =
     (let n = ul_number_pdu (st_ul i) in
      if n > FAPI_DL_CONFIG_MAX_PDU then Inl Array_bounds
      else Inr (u\<lparr>ul_config_list := take n (ul_config_list (st_ul i)) @ drop n (ul_config_list u), ul_number_pdu := n\<rparr>))"

fun encode_dcis :: "dl_pdu list \<Rightarrow> sched_dl \<Rightarrow> sched_dl ipc" where
  "encode_dcis [] r = Inr r"
| "encode_dcis (x # xs) r =
     (if pdu_type x = FAPI_DL_CONFIG_DCI_DL_PDU_TYPE
      then if number_dci r \<ge> FAPI_DL_CONFIG_MAX_PDU then Inl Array_bounds
           else encode_dcis xs (r\<lparr>dl_config_dci_list := (dl_config_dci_list r)[number_dci r := x], number_dci := Suc (number_dci r)\<rparr>)
      else encode_dcis xs r)"

definition phy_common_encode_pdcch_dl :: "stim_item \<Rightarrow> sched_dl \<Rightarrow> sched_dl ipc" where
  "phy_common_encode_pdcch_dl i r = encode_dcis (take (number_dci (st_dl i)) (dl_config_dci_list (st_dl i))) r"

fun encode_data :: "(dl_pdu \<times> tx_pdu) list \<Rightarrow> gen_proc \<Rightarrow> sched_dl \<Rightarrow> (gen_proc \<times> sched_dl) ipc" where
  "encode_data [] p r = Inr (p, r)"
| "encode_data ((x, y) # xs) p r =
     (if pdu_type x = FAPI_DL_CONFIG_DLSCH_PDU_TYPE
      then if number_pdu r \<ge> FAPI_DL_CONFIG_MAX_PDU \<or> number_tx_req r \<ge> FAPI_DL_CONFIG_MAX_PDU then Inl Array_bounds
           else encode_data xs (p\<lparr>tx_pdu_index_p := tx_pdu_index_p p + 1\<rparr>)
             (r\<lparr>dl_config_pdu_list := (dl_config_pdu_list r)[number_pdu r := set_word 1 (tx_pdu_index_p p) x],
                tx_request_pdu_list := (tx_request_pdu_list r)[number_tx_req r := y\<lparr>tx_pdu_index := tx_pdu_index_p p\<rparr>],
                number_pdu := Suc (number_pdu r), number_tx_req := Suc (number_tx_req r)\<rparr>)
      else encode_data xs p r)"

definition phy_common_encode_pdsch :: "stim_item \<Rightarrow> gen_proc \<Rightarrow> sched_dl \<Rightarrow> (gen_proc \<times> sched_dl) ipc" where
  "phy_common_encode_pdsch i p r =
     encode_data (take (number_pdu (st_dl i)) (zip (dl_config_pdu_list (st_dl i)) (tx_request_pdu_list (st_dl i)))) p r"

section \<open>Indications\<close>

text \<open>
  The preamble with the highest power. The best index and power are variables of the pass: they are not reset
  from one message to the next. The hook of the scheduler is called with the preamble at that index of each message.
\<close>

fun rach_best :: "nat \<Rightarrow> preamble list \<Rightarrow> nat \<times> u32 \<Rightarrow> nat \<times> u32" where
  "rach_best i [] b = b"
| "rach_best i (x # xs) (no, val) = rach_best (Suc i) xs (if val < pr_power x then (i, pr_power x) else (no, val))"

fun phy_rach :: "rach_msg list \<Rightarrow> nat \<times> u32 \<Rightarrow> gen_state \<Rightarrow> gen_state ipc" where
  "phy_rach [] b s = Inr s"
| "phy_rach (m # ms) b s =
     (let b' = rach_best 0 (ra_preambles m) b; x = ra_preambles m ! fst b' in
      if fst b' \<ge> length (ra_preambles m) then Inl Array_bounds
      else phy_rach ms b' (call (New_rach (ra_frame m * 10 + ra_subframe m) (pr_preamble x) (pr_timing_advance x div 16) (pr_power x)) s))"

text \<open>The messages of a queue are kept by subframe; but for the received data, those with an empty body are dropped.\<close>

fun store_ind :: "bool \<Rightarrow> ind_msg list \<Rightarrow> nat option list \<Rightarrow> nat option list ipc" where
  "store_ind skip_empty [] q = Inr q"
| "store_ind skip_empty (m # ms) q =
     (if skip_empty \<and> im_count m = 0 then store_ind skip_empty ms q
      else if unat (im_subframe m) \<ge> 10 then Inl Array_bounds
      else store_ind skip_empty ms (q[unat (im_subframe m) := Some (im_id m)]))"

text \<open>The messages of the received subframe are consumed; the decoders are empty functions.\<close>

definition consume_ind :: "gen_proc \<Rightarrow> gen_proc" where
  "consume_ind p =
     (let k = unat (sf_rx p);
          p1 = (if rx_ind_q p ! k \<noteq> None then p\<lparr>rx_ind_q := (rx_ind_q p)[k := None]\<rparr> else p);
          p2 = p1\<lparr>crc_ind_q := (crc_ind_q p1)[k := None]\<rparr>
      in if harq_ind_q p2 ! k \<noteq> None \<or> sr_ind_q p2 ! k \<noteq> None \<or> cqi_ind_q p2 ! k \<noteq> None
         then p2\<lparr>harq_ind_q := (harq_ind_q p2)[k := None], sr_ind_q := (sr_ind_q p2)[k := None], cqi_ind_q := (cqi_ind_q p2)[k := None]\<rparr>
         else p2)"

definition phy_indications :: "gen_input \<Rightarrow> gen_proc \<Rightarrow> gen_proc ipc" where
  "phy_indications i p =
     (case store_ind False (in_rx i) (rx_ind_q p) of Inl e \<Rightarrow> Inl e | Inr rx \<Rightarrow>
      (case store_ind True (in_harq i) (harq_ind_q p) of Inl e \<Rightarrow> Inl e | Inr hq \<Rightarrow>
       (case store_ind True (in_sr i) (sr_ind_q p) of Inl e \<Rightarrow> Inl e | Inr sr \<Rightarrow>
        (case store_ind True (in_cqi i) (cqi_ind_q p) of Inl e \<Rightarrow> Inl e | Inr cq \<Rightarrow>
         (case store_ind True (in_crc i) (crc_ind_q p) of Inl e \<Rightarrow> Inl e | Inr cr \<Rightarrow>
            Inr (consume_ind (p\<lparr>rx_ind_q := rx, harq_ind_q := hq, sr_ind_q := sr, cqi_ind_q := cq, crc_ind_q := cr\<rparr>)))))))"

section \<open>The dispatcher\<close>

definition phy_stop_l1 :: "gen_state \<Rightarrow> gen_state" where
  "phy_stop_l1 s = (call P5_stop s)\<lparr>l1_running := False\<rparr>"

definition phy_configure_l1 :: "gen_state \<Rightarrow> gen_state" where
  "phy_configure_l1 s = call (P5_config (cfg_fapi (gen_config s))) s"

definition phy_start_l1 :: "gen_state \<Rightarrow> gen_state" where
  "phy_start_l1 s = (let s' = (if l1_running s then phy_stop_l1 s else s) in (call P5_start s')\<lparr>l1_running := True\<rparr>)"

definition clear_dl :: "sched_dl \<Rightarrow> sched_dl" where
  "clear_dl r = r\<lparr>number_pdu := 0, number_dci := 0, number_tx_req := 0, number_dci0 := 0, number_hi := 0\<rparr>"

text \<open>The scenario's part of the requests: the item at the pointer is played when its TTI is the current one modulo the number of items.\<close>

definition stim_due :: "gen_state \<Rightarrow> bool" where
  "stim_due s \<longleftrightarrow> st_tti (stim_list s ! stim_ptr s) = abs_tti s mod of_nat (stim_len s)"

definition phy_play :: "gen_state \<Rightarrow> sched_dl \<Rightarrow> sched_ul \<Rightarrow> (gen_state \<times> sched_dl \<times> sched_ul) ipc" where
  "phy_play s d u =
     (if stim_list s = [] then Inl Null_pointer
      else if stim_due s then
        (let i = stim_list s ! stim_ptr s in
         case phy_common_encode_pdcch_dl i d of Inl e \<Rightarrow> Inl e | Inr d1 \<Rightarrow>
         (case phy_common_encode_pdsch i (gen_phy s) d1 of Inl e \<Rightarrow> Inl e | Inr (p, d2) \<Rightarrow>
          (case phy_common_encode_pusch i u of Inl e \<Rightarrow> Inl e | Inr u1 \<Rightarrow>
             Inr (s\<lparr>gen_phy := p, stim_ptr := (if Suc (stim_ptr s) \<ge> stim_len s then 0 else Suc (stim_ptr s))\<rparr>,
                  d2\<lparr>number_pdcch_ofdm_symbols := number_pdcch_ofdm_symbols (st_dl i)\<rparr>, u1\<lparr>srs_present := 0\<rparr>))))
      else Inr (s, d, u))"

definition phy_bch :: "gen_state \<Rightarrow> sched_dl \<Rightarrow> (gen_state \<times> sched_dl) ipc" where
  "phy_bch s d =
     (if cfg_auto_mib (gen_config s)
      then (case phy_common_encode_bch (cfg_fapi (gen_config s)) (gen_phy s) d of
              Inl e \<Rightarrow> Inl e | Inr (p, d') \<Rightarrow> Inr (s\<lparr>gen_phy := p\<rparr>, d'))
      else Inr (s, d))"

text \<open>The requests of the subframe: filled, sent and cleared.\<close>

definition phy_send :: "sched_dl \<Rightarrow> sched_ul \<Rightarrow> gen_state \<Rightarrow> gen_state" where
  "phy_send d u s =
     (let k = unat (sf_tx (gen_phy s));
          s1 = call (P7_ul_config u) (call (P7_dl_config d) s);
          s2 = (if number_tx_req d > 0 then call (P7_tx d (pbch_pdu (gen_phy s))) s1 else s1);
          s3 = (if number_dci0 d > 0 \<or> number_hi d > 0 then call (P7_hi_dci0 d) s2 else s2)
      in s3\<lparr>sched_dl_config_req := (sched_dl_config_req s3)[k := clear_dl d],
            sched_ul_config_req := (sched_ul_config_req s3)[k := u\<lparr>ul_number_pdu := 0\<rparr>]\<rparr>)"

definition phy_requests :: "gen_state \<Rightarrow> gen_state ipc" where
  "phy_requests s =
     (let k = unat (sf_tx (gen_phy s)) in
      if k \<ge> 10 then Inl Array_bounds
      else
        (let d = clear_dl ((sched_dl_config_req s ! k)\<lparr>dl_frame := frame_tx (gen_phy s), dl_subframe := sf_tx (gen_phy s)\<rparr>);
             u = (sched_ul_config_req s ! k)\<lparr>ul_frame := frame_tx (gen_phy s), ul_subframe := sf_tx (gen_phy s), ul_number_pdu := 0\<rparr>;
             s0 = s\<lparr>gen_phy := (gen_phy s)\<lparr>tx_pdu_index_p := 0\<rparr>\<rparr>
         in case phy_play s0 d u of Inl e \<Rightarrow> Inl e | Inr (s1, d1, u1) \<Rightarrow>
            (case phy_bch s1 d1 of Inl e \<Rightarrow> Inl e | Inr (s2, d2) \<Rightarrow> Inr (phy_send d2 u1 s2))))"

text \<open>The hooks of a TTI and of the scheduler are the weak functions of the source.\<close>

definition l2_fapi_schedule :: "gen_state \<Rightarrow> int" where
  "l2_fapi_schedule s = 0"

definition phy_advance :: "u32 \<Rightarrow> u32 \<Rightarrow> gen_state \<Rightarrow> gen_state" where
  "phy_advance frame subframe s =
     (let t = abs_tti s + 1; t' = (if t mod 10 \<noteq> subframe then frame * 10 + subframe else t)
      in s\<lparr>abs_tti := t', gen_phy := phy_common_set_time frame subframe (gen_phy s)\<rparr>)"

definition phy_subframe :: "u32 \<Rightarrow> u32 \<Rightarrow> gen_input \<Rightarrow> gen_state \<Rightarrow> gen_state ipc" where
  "phy_subframe frame subframe i s =
     (case phy_rach (in_rach i) (0, 0) (phy_advance frame subframe s) of Inl e \<Rightarrow> Inl e | Inr s1 \<Rightarrow>
      (case phy_indications i (gen_phy s1) of Inl e \<Rightarrow> Inl e | Inr p \<Rightarrow>
       (let s2 = s1\<lparr>gen_phy := p\<rparr> in
        if l2_fapi_schedule s2 \<noteq> 0 then Inr s2 else phy_requests s2)))"

text \<open>One pass of the loop of \<open>phy_dispatcher_thread\<close>.\<close>

definition phy_pass :: "gen_input \<Rightarrow> gen_state \<Rightarrow> gen_state ipc" where
  "phy_pass i s =
     (if \<not> l1_connected s then
        if \<not> in_connected i then Inr s
        else Inr ((phy_start_l1 (phy_configure_l1 (phy_stop_l1 s)))\<lparr>l1_connected := True\<rparr>)
      else if \<not> in_connected i then Inr (s\<lparr>l1_connected := False\<rparr>)
      else case in_sf i of None \<Rightarrow> Inr s | Some (frame, subframe) \<Rightarrow> phy_subframe frame subframe i s)"

fun phy_passes :: "gen_input list \<Rightarrow> gen_state \<Rightarrow> gen_state ipc" where
  "phy_passes [] s = Inr s"
| "phy_passes (i # is) s = (case phy_pass i s of Inl e \<Rightarrow> Inl e | Inr s' \<Rightarrow> phy_passes is s')"

text \<open>The thread: the passes made until another thread clears \<open>running\<close>.\<close>

definition phy_dispatcher_thread :: "gen_input list \<Rightarrow> gen_state \<Rightarrow> gen_state ipc" where
  "phy_dispatcher_thread is s =
     (let s0 = s\<lparr>gen_phy := (gen_phy s)\<lparr>rx_ind_q := replicate 10 None, harq_ind_q := replicate 10 None, sr_ind_q := replicate 10 None,
          cqi_ind_q := replicate 10 None\<rparr>\<rparr>
      in case phy_passes is (phy_stop_l1 s0) of
           Inl e \<Rightarrow> Inl e
         | Inr s' \<Rightarrow> Inr (phy_stop_l1 (s'\<lparr>phy_running := False\<rparr>)))"

section \<open>Life cycle\<close>

definition zero_cfg :: gen_cfg where
  "zero_cfg = \<lparr>cfg_fapi = \<lparr>subframe_cfg = replicate 5 0, rf_cfg = replicate 5 0, phich_cfg = replicate 3 0, sch_cfg = replicate 3 0,
       prach_cfg = replicate 5 0, pusch_cfg = replicate 3 0, pucch_cfg = replicate 4 0, ulrs_cfg = replicate 3 0\<rparr>,
     cfg_use_sibs_for_p5 = False, cfg_auto_mib = False, cfg_auto_sibs = False, cfg_stim_start_tti = 0, cfg_stim_duration = 0, cfg_stim_loop = False,
     cfg_rru_active = False, cfg_rru_earfcn = 0\<rparr>"

text \<open>A generator of zeros; the request buffers are those \<open>fapi_init\<close> clears.\<close>

definition create_l2_fapi_generator :: gen_state where
  "create_l2_fapi_generator = \<lparr>gen_no = 0, gen_running = False, abs_tti = 0, gen_config = zero_cfg, phy_running = False,
     gen_phy = \<lparr>tti_tx = 0, tti_rx = 0, tti_sched_ul = 0, frame_rx = 0, frame_tx = 0, frame_sched_ul = 0, sf_rx = 0, sf_tx = 0,
       sf_sched_ul = 0, abs_tti_tx = 0, abs_tti_rx = 0, rx_ind_q = replicate 10 None, harq_ind_q = replicate 10 None,
       sr_ind_q = replicate 10 None, cqi_ind_q = replicate 10 None, crc_ind_q = replicate 10 None, pbch_pdu = replicate 4 0,
       tx_pdu_index_p = 0\<rparr>,
     stim_ptr = 0, stim_list = [], l1_connected = False, l1_running = False,
     sched_dl_config_req = replicate 10 zero_dl, sched_ul_config_req = replicate 10 zero_ul, gen_calls = []\<rparr>"

definition l2_fapi_generator_start :: "gen_state \<Rightarrow> gen_state" where
  "l2_fapi_generator_start s = s\<lparr>gen_running := True\<rparr>"

text \<open>Stopping clears the flag the thread's loop tests, then waits for the thread.\<close>

definition phy_stop :: "gen_state \<Rightarrow> gen_state" where
  "phy_stop s = s\<lparr>phy_running := False\<rparr>"

definition l2_fapi_generator_stop :: "gen_state \<Rightarrow> gen_state" where
  "l2_fapi_generator_stop s = phy_stop (s\<lparr>gen_running := False\<rparr>)"

definition phy_init :: "gen_state \<Rightarrow> gen_state" where
  "phy_init s = s\<lparr>phy_running := True\<rparr>"

text \<open>\<open>l1_init\<close> is the L1's own initialisation, \<open>None\<close> when no library provides it.\<close>

definition l2_fapi_generator_l1_init :: "(string \<Rightarrow> string \<Rightarrow> bool) option \<Rightarrow> string \<Rightarrow> string \<Rightarrow> bool" where
  "l2_fapi_generator_l1_init l1_init name conf = (case l1_init of Some f \<Rightarrow> f name conf | None \<Rightarrow> False)"

definition l2_fapi_generator_init :: "(string \<Rightarrow> string \<Rightarrow> bool) option \<Rightarrow> gen_state \<Rightarrow> bool \<times> gen_state" where
  "l2_fapi_generator_init l1_init s =
     (if \<not> l2_fapi_generator_l1_init l1_init ''l1_b4860_v1'' ''l1.conf'' then (False, s) else (True, phy_init s))"

definition l2_fapi_generator_app_entry_point ::
    "(string \<Rightarrow> string \<Rightarrow> bool) option \<Rightarrow> nat \<Rightarrow> stim_file option \<Rightarrow> (int \<times> gen_state) ipc" where
  "l2_fapi_generator_app_entry_point l1_init argc f =
     (let s = create_l2_fapi_generator\<lparr>gen_no := 0\<rparr> in
      if argc < 2 then Inr (- 1, s)
      else (case read_stim_config f (gen_config s) of
              Inl e \<Rightarrow> Inl e
            | Inr (rc, c, is) \<Rightarrow>
                (let s1 = s\<lparr>gen_config := c, stim_list := is\<rparr> in
                 if rc \<noteq> 0 then Inr (- 1, s1)
                 else (case l2_fapi_generator_init l1_init s1 of
                         (ok, s2) \<Rightarrow> if \<not> ok then Inr (- 1, s2) else Inr (0, l2_fapi_generator_start s2)))))"

end
