(* ===== verification/Gen_Props.thy ===== *)
theory Gen_Props
  imports Gen_Phy
begin

text \<open>
  What the player of the traffic generator does: its times, the broadcast block, the requests of a pass and the order in which the items
  of the scenario are played.
\<close>

section \<open>Time\<close>

lemma set_time_tx:
  assumes "frame < 1024" "subframe < 10"
  shows "unat (tti_tx (phy_common_set_time frame subframe p)) = 10 * unat frame + unat subframe"
    "10 * unat frame + unat subframe < 10240"
proof -
  have "unat frame < 1024" "unat subframe < 10" using assms by (simp_all add: word_less_nat_alt)
  then show "unat (tti_tx (phy_common_set_time frame subframe p)) = 10 * unat frame + unat subframe"
    "10 * unat frame + unat subframe < 10240"
    by (simp_all add: phy_common_set_time_def Let_def unat_word_ariths)
qed

lemma set_time_rx:
  assumes "frame < 1024" "subframe < 10"
  shows "unat (tti_rx (phy_common_set_time frame subframe p)) = (10 * unat frame + unat subframe + 10236) mod 10240"
proof -
  have *: "unat (frame * 10 + subframe) = 10 * unat frame + unat subframe" "10 * unat frame + unat subframe < 10240"
    using set_time_tx [OF assms] by (simp_all add: phy_common_set_time_def Let_def)
  show ?thesis
  proof (cases "4 \<le> 10 * unat frame + unat subframe")
    case True
    then have "(4 :: u32) \<le> frame * 10 + subframe" by (simp add: word_le_nat_alt *)
    then have "unat (tti_rx (phy_common_set_time frame subframe p)) = 10 * unat frame + unat subframe - 4"
      by (simp add: phy_common_set_time_def Let_def unat_sub *)
    also have "\<dots> = (10 * unat frame + unat subframe - 4 + 10240) mod 10240" using *(2) by simp
    finally show ?thesis using True by (simp add: add.commute)
  next
    case False
    then have n: "\<not> (4 :: u32) \<le> frame * 10 + subframe" by (simp add: word_le_nat_alt *)
    have "10240 + (frame * 10 + subframe) - 4 = (10236 :: u32) + (frame * 10 + subframe)" by simp
    then show ?thesis using n * False by (simp add: phy_common_set_time_def Let_def unat_plus_simple unat_word_ariths(1) [of 10236])
  qed
qed

lemma set_time_ul:
  assumes "frame < 1024" "subframe < 10"
  shows "unat (tti_sched_ul (phy_common_set_time frame subframe p)) = (10 * unat frame + unat subframe + 4) mod 10240"
proof -
  have *: "unat (frame * 10 + subframe) = 10 * unat frame + unat subframe" "10 * unat frame + unat subframe < 10240"
    using set_time_tx [OF assms] by (simp_all add: phy_common_set_time_def Let_def)
  have "unat (frame * 10 + subframe + 4) = 10 * unat frame + unat subframe + 4"
    using * by (simp add: unat_word_ariths(1) [of "frame * 10 + subframe"])
  then show ?thesis by (simp add: phy_common_set_time_def Let_def unat_mod)
qed

lemma set_time_parts:
  "frame_rx (phy_common_set_time f s p) = tti_rx (phy_common_set_time f s p) div 10"
  "sf_rx (phy_common_set_time f s p) = tti_rx (phy_common_set_time f s p) mod 10"
  "frame_sched_ul (phy_common_set_time f s p) = tti_sched_ul (phy_common_set_time f s p) div 10"
  "sf_sched_ul (phy_common_set_time f s p) = tti_sched_ul (phy_common_set_time f s p) mod 10"
  "frame_tx (phy_common_set_time f s p) = f" "sf_tx (phy_common_set_time f s p) = s"
  by (simp_all add: phy_common_set_time_def Let_def)

text \<open>The times of a pass. For a subframe indication of a frame below 1024 and a subframe below 10, the TTI sent is the frame's tenfold plus the
  subframe, the TTI received is four before it and the TTI scheduled in the uplink four after it, both modulo the 10240 TTIs of the frame
  counter; the frames are again below 1024 and the subframes below 10, so every index into a list by subframe is in range.
\<close>

lemma gen_times:
  fixes p :: gen_proc
  assumes "frame < 1024" "subframe < 10"
  defines "q \<equiv> phy_common_set_time frame subframe p"
  shows "unat (tti_tx q) = 10 * unat frame + unat subframe \<and>
    (unat (tti_rx q) + 4) mod 10240 = unat (tti_tx q) \<and> unat (tti_sched_ul q) = (unat (tti_tx q) + 4) mod 10240 \<and>
    unat (tti_rx q) = 10 * unat (frame_rx q) + unat (sf_rx q) \<and> frame_rx q < 1024 \<and> sf_rx q < 10 \<and>
    unat (tti_sched_ul q) = 10 * unat (frame_sched_ul q) + unat (sf_sched_ul q) \<and> frame_sched_ul q < 1024 \<and> sf_sched_ul q < 10"
proof -
  have split: "unat w = 10 * unat (w div 10) + unat (w mod 10) \<and> w div 10 < 1024 \<and> w mod 10 < 10" if "unat w < 10240" for w :: u32
    using that by (simp add: unat_div unat_mod word_less_nat_alt)
  have rx: "unat (tti_rx q) = (unat (tti_tx q) + 10236) mod 10240" "unat (tti_tx q) < 10240"
    using set_time_rx [OF assms(1,2)] set_time_tx [OF assms(1,2)] by (simp_all add: q_def)
  have ul: "unat (tti_sched_ul q) = (unat (tti_tx q) + 4) mod 10240"
    using set_time_ul [OF assms(1,2)] set_time_tx [OF assms(1,2)] by (simp add: q_def)
  have "(unat (tti_rx q) + 4) mod 10240 = unat (tti_tx q)"
    using rx by (simp add: mod_add_left_eq)
  then show ?thesis
    using ul split [of "tti_rx q"] split [of "tti_sched_ul q"] rx(1) set_time_tx(1) [OF assms(1,2), of p]
    by (simp add: set_time_parts q_def)
qed

theorem gen_times_witness:
  "unat (tti_rx (phy_common_set_time 0 1 (gen_phy create_l2_fapi_generator))) = 10237"
proof -
  let ?q = "phy_common_set_time 0 1 (gen_phy create_l2_fapi_generator)"
  have z: "(0 :: u32) < 1024" "(1 :: u32) < 10" by simp_all
  note t = gen_times [OF z, of "gen_phy create_l2_fapi_generator"]
  from t [THEN conjunct1] t [THEN conjunct2, THEN conjunct1] have "(unat (tti_rx ?q) + 4) mod 10240 = 1" by simp
  moreover have "unat (tti_rx ?q) < 10240" using set_time_rx [OF z, of "gen_phy create_l2_fapi_generator"] by simp
  ultimately show ?thesis by (cases "unat (tti_rx ?q) + 4 < 10240") (auto simp: le_mod_geq not_less)
qed

section \<open>The broadcast block\<close>

text \<open>
  The fields of a master information block as a receiver reads them: the number of resource blocks, PHICH duration and resource, frame
  number. The three bits of the bandwidth count the values n6, n15, n25, n50, n75, n100 of \<open>dl-Bandwidth\<close> (3GPP TS 36.331, 6.2.2).
\<close>

definition dl_bandwidth :: "u8 \<Rightarrow> u32" where
  "dl_bandwidth i = (if i < 6 then [6, 15, 25, 50, 75, 100] ! unat i else 0)"

definition mib_read :: "u8 list \<Rightarrow> u32 \<times> u8 \<times> u8 \<times> u32" where
  "mib_read bs = (dl_bandwidth (drop_bit 5 (bs ! 0)), drop_bit 4 (bs ! 0) AND 1, drop_bit 2 (bs ! 0) AND 3,
     push_bit 8 (ucast (bs ! 0 AND 3)) OR ucast (bs ! 1))"

lemma frame_mask:
  fixes f :: u32
  assumes "f < 1024" "f AND 3 = 0"
  shows "push_bit 8 (drop_bit 8 f AND 3) OR (f AND 0xfc) = f"
proof (rule bit_word_eqI)
  fix n :: nat
  have "unat (take_bit 10 f) = unat f"
    using assms(1) by (simp add: unsigned_take_bit_eq take_bit_nat_eq_self word_less_nat_alt)
  then have "take_bit 10 f = f" by (rule unsigned_word_eqI)
  then have h: "\<not> bit f m" if "10 \<le> m" for m by (metis bit_take_bit_iff not_le that)
  have "bit (f AND 3) m = False" for m using assms(2) by simp
  from this [of 0] this [of 1] have l: "\<not> bit f 0" "\<not> bit f (Suc 0)" by (simp_all add: bit_simps)
  assume "n < LENGTH(32)"
  consider "10 \<le> n" | "n \<in> {0, 1, 2, 3, 4, 5, 6, 7, 8, 9}" by fastforce
  then show "bit (push_bit 8 (drop_bit 8 f AND 3) OR (f AND 0xfc)) n = bit f n"
    by cases (use \<open>n < LENGTH(32)\<close> in \<open>auto simp: bit_simps h l\<close>)
qed

lemma mib_first:
  fixes d :: u32 and r :: u32 and b :: u8 and q :: u32
  assumes "b \<in> {0, 1, 2, 3, 4}" "d \<in> {0, 1}" "r \<in> {0, 1, 2, 3}" "q \<in> {0, 1, 2, 3}"
  defines "w \<equiv> ((push_bit 5 b OR ucast (push_bit 4 d AND 0x10)) OR ucast (push_bit 2 r)) OR (ucast q :: u8)"
  shows "drop_bit 5 w = b \<and> drop_bit 4 w AND 1 = ucast d \<and> drop_bit 2 w AND 3 = ucast r \<and> w AND 3 = ucast q"
  using assms(1-4) unfolding w_def by auto

lemma mib_bandwidth_read:
  obtains i where "i \<in> {0, 1, 2, 3, 4}" "mib_bandwidth n = push_bit 5 i"
    "dl_bandwidth i = (if n \<in> {6, 15, 25, 50} then n else if n = 100 then 75 else 25)"
proof -
  let ?i = "if n = 6 then 0 else if n = 15 then 1 else if n = 25 then 2 else if n = 50 then 3 else if n = 100 then 4 else (2 :: u8)"
  show thesis by (rule that [of ?i]) (simp_all add: mib_bandwidth_def dl_bandwidth_def)
qed

lemma less4_cases: "(q :: u32) < 4 \<Longrightarrow> q \<in> {0, 1, 2, 3}"
proof -
  assume "q < 4"
  define m where "m = unat q"
  have "m < 4" using \<open>q < 4\<close> by (simp add: m_def word_less_nat_alt)
  then have "m = 0 \<or> m = 1 \<or> m = 2 \<or> m = 3" by linarith
  moreover have "q = of_nat m" by (simp add: m_def)
  ultimately show ?thesis by auto
qed

lemma and3_less: "(x :: u32) AND 3 < 4"
proof -
  have "x AND 3 = take_bit 2 x" by (simp add: take_bit_eq_mask mask_numeral)
  then have "unat (x AND 3) = take_bit 2 (unat x)" by (simp add: unsigned_take_bit_eq)
  then show ?thesis using take_bit_nat_less_exp [of 2 "unat x"] by (simp add: word_less_nat_alt)
qed

lemma ucast_masks:
  fixes f :: u32
  shows "ucast (ucast (drop_bit 8 f AND 3) :: u8) = drop_bit 8 f AND 3" "ucast (ucast (f AND 0xfc) :: u8) = f AND 0xfc"
proof -
  have l: "bit w n \<Longrightarrow> n < 8" if "w AND mask 8 = w" for w :: u32 and n
    using that by (metis bit_and_iff bit_mask_iff)
  have u: "ucast (ucast w :: u8) = w" if "w AND mask 8 = w" for w :: u32
    by (rule bit_word_eqI) (auto simp: bit_simps dest: l [OF that])
  have "(drop_bit 8 f AND 3) AND mask 8 = drop_bit 8 f AND 3" "(f AND 0xfc) AND mask 8 = f AND 0xfc"
    by (simp_all add: mask_numeral and.assoc)
  then show "ucast (ucast (drop_bit 8 f AND 3) :: u8) = drop_bit 8 f AND 3" "ucast (ucast (f AND 0xfc) :: u8) = f AND 0xfc"
    by (simp_all add: u)
qed

lemma mib_bytes_read:
  assumes "f < 1024" "f AND 3 = 0" "phich_cfg c ! 1 < 2" "phich_cfg c ! 0 < 4" "n = rf_cfg c ! 0"
  shows "mib_read (mib_bytes c f @ xs) =
    (if n \<in> {6, 15, 25, 50} then n else if n = 100 then 75 else 25, ucast (phich_cfg c ! 1), ucast (phich_cfg c ! 0), f)"
proof -
  have d: "phich_cfg c ! 1 \<in> {0, 1}" using less4_cases [of "phich_cfg c ! 1"] assms(3) by (auto simp: word_less_nat_alt)
  have r: "phich_cfg c ! 0 \<in> {0, 1, 2, 3}" by (rule less4_cases) (rule assms(4))
  have q: "drop_bit 8 f AND 3 \<in> {0, 1, 2, 3}" by (rule less4_cases) (rule and3_less)
  obtain i where i: "i \<in> {0, 1, 2, 3, 4}" "mib_bandwidth n = push_bit 5 i" "dl_bandwidth i = (if n \<in> {6, 15, 25, 50} then n else if n = 100 then 75 else 25)"
    by (rule mib_bandwidth_read)
  show ?thesis
    using mib_first [OF i(1) d r q] frame_mask [OF assms(1,2)] i(2,3) assms(5)
    by (simp add: mib_read_def mib_bytes_def ucast_masks)
qed

text \<open>C25: The master information block. With a bandwidth of 6, 15, 25 or 50 resource blocks, a PHICH duration below two and a PHICH resource
  below four, the generator fills the broadcast block in the first subframe of every fourth frame below 1024
  and adds it to the request when there is room: a receiver that reads the block by the table of the standard
  finds the number of resource blocks, the PHICH duration and resource of the configuration and the number of the frame. The PDU and its
  three-byte block carry the same index and take the next position of both lists. In any other subframe the request is unchanged.
  (With 75 or 100 resource blocks a receiver finds another bandwidth, see \<open>gen_mib_wrong_bandwidth\<close>.)
\<close>

theorem gen_mib_round_trip:
  assumes "rf_cfg c ! 0 \<in> {6, 15, 25, 50}" "frame_tx p < 1024" "phich_cfg c ! 1 < 2" "phich_cfg c ! 0 < 4" "number_pdu r < 64" "number_tx_req r < 64"
    "length (dl_config_pdu_list r) = 64" "length (tx_request_pdu_list r) = 64"
  shows "\<exists>p' r'. phy_common_encode_bch c p r = Inr (p', r') \<and>
    (if sf_tx p = 0 \<and> frame_tx p AND 3 = 0
     then mib_read (pbch_pdu p') = (rf_cfg c ! 0, ucast (phich_cfg c ! 1), ucast (phich_cfg c ! 0), frame_tx p) \<and>
       number_pdu r' = Suc (number_pdu r) \<and> number_tx_req r' = Suc (number_tx_req r) \<and>
       pdu_type (dl_config_pdu_list r' ! number_pdu r) = FAPI_DL_CONFIG_BCH_PDU_TYPE \<and>
       pdu_words (dl_config_pdu_list r' ! number_pdu r) 1 = tx_pdu_index (tx_request_pdu_list r' ! number_tx_req r) \<and>
       tb_length (tx_request_pdu_list r' ! number_tx_req r) = 3 \<and> tb_data (tx_request_pdu_list r' ! number_tx_req r) = Tb_pbch
     else p' = p \<and> r' = r)"
proof (cases "sf_tx p = 0 \<and> frame_tx p AND 3 = 0")
  case True
  have "mib_read (mib_bytes c (frame_tx p) @ xs) = (rf_cfg c ! 0, ucast (phich_cfg c ! 1), ucast (phich_cfg c ! 0), frame_tx p)" for xs
    using mib_bytes_read [OF assms(2) _ assms(3,4) refl] True assms(1) by simp
  then show ?thesis using True assms(5-)
    by (simp add: phy_common_encode_bch_def Let_def set_word_def)
qed (auto simp: phy_common_encode_bch_def)

text \<open>A cell of 100 resource blocks announces 75, one of 75 announces 25.\<close>

lemma gen_mib_wrong_bandwidth:
  assumes "phy_common_encode_bch c p r = Inr (p', r')" "sf_tx p = 0" "frame_tx p AND 3 = 0" "frame_tx p < 1024" "phich_cfg c ! 1 < 2" "phich_cfg c ! 0 < 4"
  shows "(rf_cfg c ! 0 = 100 \<longrightarrow> fst (mib_read (pbch_pdu p')) = 75) \<and> (rf_cfg c ! 0 = 75 \<longrightarrow> fst (mib_read (pbch_pdu p')) = 25)"
proof -
  have "pbch_pdu p' = mib_bytes c (frame_tx p) @ drop 3 (pbch_pdu p)"
    using assms(1-3) by (auto simp: phy_common_encode_bch_def Let_def split: if_splits)
  then show ?thesis using mib_bytes_read [OF assms(4,3,5,6) refl] by simp
qed

theorem gen_mib_round_trip_witness:
  "\<exists>p' r'. phy_common_encode_bch ((cfg_fapi zero_cfg)\<lparr>rf_cfg := [50, 50]\<rparr>) ((gen_phy create_l2_fapi_generator)\<lparr>frame_tx := 1020\<rparr>) zero_dl = Inr (p', r') \<and>
     mib_read (pbch_pdu p') = (50, 0, 0, 1020)"
proof -
  have c: "phich_cfg (cfg_fapi zero_cfg) = [0, 0, 0]"
    by (simp add: zero_cfg_def numeral_3_eq_3)
  have z: "number_pdu zero_dl = 0" "number_tx_req zero_dl = 0" "length (dl_config_pdu_list zero_dl) = 64" "length (tx_request_pdu_list zero_dl) = 64"
    by (simp_all add: zero_dl_def)
  have s: "sf_tx (gen_phy create_l2_fapi_generator) = 0" by (simp add: create_l2_fapi_generator_def)
  show ?thesis
    using gen_mib_round_trip [of "(cfg_fapi zero_cfg)\<lparr>rf_cfg := [50, 50]\<rparr>" "(gen_phy create_l2_fapi_generator)\<lparr>frame_tx := 1020\<rparr>" zero_dl]
    by (auto simp: c z s)
qed

section \<open>Filling the requests\<close>

definition put_at :: "nat \<Rightarrow> 'a list \<Rightarrow> 'a list \<Rightarrow> 'a list" where
  "put_at k zs xs = take k xs @ zs @ drop (k + length zs) xs"

lemma put_at_Nil [simp]: "put_at k [] xs = xs"
  by (simp add: put_at_def)

lemma put_at_update:
  assumes "k < length xs"
  shows "put_at (Suc k) zs (xs[k := z]) = put_at k (z # zs) xs"
  using assms by (simp add: put_at_def take_Suc_conv_app_nth)

lemma length_put_at [simp]: "k + length zs \<le> length xs \<Longrightarrow> length (put_at k zs xs) = length xs"
  by (simp add: put_at_def)

lemma take_put_at: "k + length zs \<le> length xs \<Longrightarrow> take (k + length zs) (put_at k zs xs) = take k xs @ zs"
  by (simp add: put_at_def)

lemma encode_dcis_eq:
  assumes "number_dci r + length (filter (\<lambda>x. pdu_type x = 0) xs) \<le> 64" "length (dl_config_dci_list r) = 64"
  shows "encode_dcis xs r = Inr (r\<lparr>dl_config_dci_list := put_at (number_dci r) (filter (\<lambda>x. pdu_type x = 0) xs) (dl_config_dci_list r),
     number_dci := number_dci r + length (filter (\<lambda>x. pdu_type x = 0) xs)\<rparr>)"
  using assms
proof (induction xs r rule: encode_dcis.induct)
  case (2 x xs r)
  then show ?case by (cases "pdu_type x = 0") (simp_all add: put_at_update)
qed simp

text \<open>The PDUs with their blocks, numbered from an index on.\<close>

fun numbered :: "u32 \<Rightarrow> (dl_pdu \<times> tx_pdu) list \<Rightarrow> (dl_pdu \<times> tx_pdu) list" where
  "numbered t [] = []"
| "numbered t ((x, y) # xs) = (set_word 1 t x, y\<lparr>tx_pdu_index := t\<rparr>) # numbered (t + 1) xs"

lemma length_numbered [simp]: "length (numbered t xs) = length xs"
  by (induction t xs rule: numbered.induct) simp_all

lemma numbered_nth:
  "j < length xs \<Longrightarrow> numbered t xs ! j = (set_word 1 (t + of_nat j) (fst (xs ! j)), (snd (xs ! j))\<lparr>tx_pdu_index := t + of_nat j\<rparr>)"
  by (induction t xs arbitrary: j rule: numbered.induct) (auto simp: nth_Cons algebra_simps split: nat.splits)

lemma numbered_data: "map (tb_data \<circ> snd) (numbered t xs) = map (tb_data \<circ> snd) xs"
  by (induction t xs rule: numbered.induct) simp_all

definition is_dlsch :: "dl_pdu \<times> tx_pdu \<Rightarrow> bool" where
  "is_dlsch xy \<longleftrightarrow> pdu_type (fst xy) = FAPI_DL_CONFIG_DLSCH_PDU_TYPE"

lemma encode_data_eq:
  fixes p :: gen_proc
  assumes "number_tx_req r = number_pdu r" "number_pdu r + length (filter is_dlsch xs) \<le> 64"
    "length (dl_config_pdu_list r) = 64" "length (tx_request_pdu_list r) = 64"
  defines "ys \<equiv> numbered (tx_pdu_index_p p) (filter is_dlsch xs)"
  shows "encode_data xs p r = Inr (p\<lparr>tx_pdu_index_p := tx_pdu_index_p p + of_nat (length ys)\<rparr>,
     r\<lparr>dl_config_pdu_list := put_at (number_pdu r) (map fst ys) (dl_config_pdu_list r),
       tx_request_pdu_list := put_at (number_pdu r) (map snd ys) (tx_request_pdu_list r),
       number_pdu := number_pdu r + length ys, number_tx_req := number_pdu r + length ys\<rparr>)"
  using assms(1-4) unfolding ys_def
proof (induction xs p r rule: encode_data.induct)
  case (2 x y xs p r)
  then show ?case by (cases "pdu_type x = FAPI_DL_CONFIG_DLSCH_PDU_TYPE") (simp_all add: put_at_update is_dlsch_def algebra_simps)
qed simp

text \<open>What an item sends: its DCIs, and its data but for broadcast PDUs.\<close>

definition item_dcis :: "stim_item \<Rightarrow> dl_pdu list" where
  "item_dcis i = take (number_dci (st_dl i)) (dl_config_dci_list (st_dl i))"

definition item_data :: "stim_item \<Rightarrow> (dl_pdu \<times> tx_pdu) list" where
  "item_data i = filter is_dlsch (take (number_pdu (st_dl i)) (zip (dl_config_pdu_list (st_dl i)) (tx_request_pdu_list (st_dl i))))"

lemma item_dcis_all:
  assumes "gen_linked (st_dl i)"
  shows "filter (\<lambda>x. pdu_type x = 0) (item_dcis i) = item_dcis i" "length (item_dcis i) = number_dci (st_dl i)"
proof -
  show "length (item_dcis i) = number_dci (st_dl i)" using assms by (simp add: item_dcis_def gen_linked_def)
  have "pdu_type x = 0" if x: "x \<in> set (item_dcis i)" for x
  proof -
    obtain k where "k < length (item_dcis i)" "x = item_dcis i ! k" using x by (metis in_set_conv_nth)
    then show ?thesis using assms by (auto simp: item_dcis_def gen_linked_def)
  qed
  then show "filter (\<lambda>x. pdu_type x = 0) (item_dcis i) = item_dcis i" by (simp add: filter_id_conv)
qed

lemma item_data_length:
  assumes "gen_linked (st_dl i)"
  shows "length (item_data i) \<le> number_pdu (st_dl i)" "number_pdu (st_dl i) \<le> 64"
  using assms length_filter_le [of is_dlsch "take (number_pdu (st_dl i)) (zip (dl_config_pdu_list (st_dl i)) (tx_request_pdu_list (st_dl i)))"]
  by (simp_all add: item_data_def gen_linked_def)

text \<open>A request that holds the given DCIs and the blocks of the given data, each PDU with the index of its block.\<close>

definition req_ok :: "dl_pdu list \<Rightarrow> tb_data list \<Rightarrow> sched_dl \<Rightarrow> bool" where
  "req_ok dcis datas d \<longleftrightarrow>
     length (dl_config_dci_list d) = 64 \<and> length (dl_config_pdu_list d) = 64 \<and> length (tx_request_pdu_list d) = 64 \<and>
     number_dci d = length dcis \<and> take (number_dci d) (dl_config_dci_list d) = dcis \<and>
     number_pdu d = length datas \<and> number_tx_req d = number_pdu d \<and> map tb_data (take (number_pdu d) (tx_request_pdu_list d)) = datas \<and>
     (\<forall>k<number_pdu d. pdu_words (dl_config_pdu_list d ! k) 1 = of_nat k \<and> tx_pdu_index (tx_request_pdu_list d ! k) = of_nat k) \<and>
     number_dci0 d = 0 \<and> number_hi d = 0"

definition req_lists :: "sched_dl \<Rightarrow> bool" where
  "req_lists d \<longleftrightarrow> length (dl_config_dci_list d) = 64 \<and> length (dl_config_pdu_list d) = 64 \<and> length (tx_request_pdu_list d) = 64"

lemma req_ok_clear: "req_lists d \<Longrightarrow> req_ok [] [] (clear_dl (d\<lparr>dl_frame := f, dl_subframe := sf\<rparr>))"
  by (simp add: req_ok_def req_lists_def clear_dl_def)

lemma req_ok_lists: "req_ok a b d \<Longrightarrow> req_lists d \<and> req_lists (clear_dl d)"
  by (simp add: req_ok_def req_lists_def clear_dl_def)

lemma req_ok_symbols [simp]: "req_ok a b (d\<lparr>number_pdcch_ofdm_symbols := n\<rparr>) = req_ok a b d"
  by (simp add: req_ok_def)

lemma pdcch_ok:
  assumes "gen_linked (st_dl i)" "req_ok [] [] d"
  shows "\<exists>d'. phy_common_encode_pdcch_dl i d = Inr d' \<and> req_ok (item_dcis i) [] d' \<and> dl_frame d' = dl_frame d \<and> dl_subframe d' = dl_subframe d"
proof -
  have n: "length (item_dcis i) \<le> 64" "number_dci d = 0" "length (dl_config_dci_list d) = 64"
    using item_dcis_all(2) [OF assms(1)] assms by (simp_all add: gen_linked_def req_ok_def)
  have "phy_common_encode_pdcch_dl i d = Inr (d\<lparr>dl_config_dci_list := put_at 0 (item_dcis i) (dl_config_dci_list d), number_dci := length (item_dcis i)\<rparr>)"
    using encode_dcis_eq [of d "item_dcis i"] n by (simp add: phy_common_encode_pdcch_dl_def item_dcis_all(1) [OF assms(1)] flip: item_dcis_def)
  then show ?thesis using assms(2) n take_put_at [of 0 "item_dcis i" "dl_config_dci_list d"] by (simp add: req_ok_def)
qed

lemma pdsch_ok:
  assumes "gen_linked (st_dl i)" "req_ok a [] d" "tx_pdu_index_p p = 0"
  shows "\<exists>d'. phy_common_encode_pdsch i p d = Inr (p\<lparr>tx_pdu_index_p := of_nat (number_pdu d')\<rparr>, d') \<and>
    req_ok a (map (tb_data \<circ> snd) (item_data i)) d' \<and> dl_frame d' = dl_frame d \<and> dl_subframe d' = dl_subframe d"
proof -
  let ?ys = "numbered 0 (item_data i)"
  have n: "length (item_data i) \<le> 64" "number_pdu d = 0" "number_tx_req d = 0" "length (dl_config_pdu_list d) = 64" "length (tx_request_pdu_list d) = 64"
    using item_data_length [OF assms(1)] assms(2) by (simp_all add: req_ok_def)
  let ?d = "d\<lparr>dl_config_pdu_list := put_at 0 (map fst ?ys) (dl_config_pdu_list d),
      tx_request_pdu_list := put_at 0 (map snd ?ys) (tx_request_pdu_list d), number_pdu := length ?ys, number_tx_req := length ?ys\<rparr>"
  have e: "phy_common_encode_pdsch i p d = Inr (p\<lparr>tx_pdu_index_p := of_nat (length ?ys)\<rparr>, ?d)"
    using encode_data_eq [of d "take (number_pdu (st_dl i)) (zip (dl_config_pdu_list (st_dl i)) (tx_request_pdu_list (st_dl i)))" p] n assms(3)
    by (simp add: phy_common_encode_pdsch_def flip: item_data_def)
  have t: "take (length ?ys) (put_at 0 (map snd ?ys) (tx_request_pdu_list d)) = map snd ?ys"
    using take_put_at [of 0 "map snd ?ys" "tx_request_pdu_list d"] n by simp
  have k: "put_at 0 zs xs ! k = zs ! k" if "k < length zs" for zs xs :: "'a list" and k using that by (simp add: put_at_def nth_append)
  have "req_ok a (map (tb_data \<circ> snd) (item_data i)) ?d"
    using assms(2) n t numbered_data [of 0 "item_data i"]
    by (auto simp: req_ok_def k put_at_def nth_append numbered_nth set_word_def comp_def)
  then show ?thesis using e by simp
qed

lemma pusch_ok: "st_ul i = zero_ul \<Longrightarrow> phy_common_encode_pusch i u = Inr (u\<lparr>ul_number_pdu := 0\<rparr>)"
  by (simp add: phy_common_encode_pusch_def zero_ul_def)

text \<open>The next position of the pointer.\<close>

definition next_ptr :: "gen_state \<Rightarrow> nat" where
  "next_ptr s = (if stim_due s then if Suc (stim_ptr s) \<ge> stim_len s then 0 else Suc (stim_ptr s) else stim_ptr s)"

definition due_dcis :: "gen_state \<Rightarrow> dl_pdu list" where
  "due_dcis s = (if stim_due s then item_dcis (stim_list s ! stim_ptr s) else [])"

definition due_data :: "gen_state \<Rightarrow> tb_data list" where
  "due_data s = (if stim_due s then map (tb_data \<circ> snd) (item_data (stim_list s ! stim_ptr s)) else [])"

lemma play_ok:
  assumes "stim_list s \<noteq> []" "gen_linked (st_dl (stim_list s ! stim_ptr s))" "st_ul (stim_list s ! stim_ptr s) = zero_ul"
    "req_ok [] [] d" "tx_pdu_index_p (gen_phy s) = 0" "ul_number_pdu u = 0"
  shows "\<exists>d' u'. phy_play s d u = Inr (s\<lparr>gen_phy := (gen_phy s)\<lparr>tx_pdu_index_p := of_nat (number_pdu d')\<rparr>, stim_ptr := next_ptr s\<rparr>, d', u') \<and>
    req_ok (due_dcis s) (due_data s) d' \<and> dl_frame d' = dl_frame d \<and> dl_subframe d' = dl_subframe d \<and> ul_number_pdu u' = 0"
proof (cases "stim_due s")
  case True
  let ?i = "stim_list s ! stim_ptr s"
  obtain d1 where d1: "phy_common_encode_pdcch_dl ?i d = Inr d1" "req_ok (item_dcis ?i) [] d1" "dl_frame d1 = dl_frame d" "dl_subframe d1 = dl_subframe d"
    using pdcch_ok [OF assms(2,4)] by blast
  obtain d2 where d2: "phy_common_encode_pdsch ?i (gen_phy s) d1 = Inr ((gen_phy s)\<lparr>tx_pdu_index_p := of_nat (number_pdu d2)\<rparr>, d2)"
    "req_ok (item_dcis ?i) (map (tb_data \<circ> snd) (item_data ?i)) d2" "dl_frame d2 = dl_frame d1" "dl_subframe d2 = dl_subframe d1"
    using pdsch_ok [OF assms(2) d1(2) assms(5)] by blast
  show ?thesis using True assms(1,3) d1 d2
    by (simp add: phy_play_def Let_def pusch_ok next_ptr_def due_dcis_def due_data_def)
next
  case False
  have "(gen_phy s)\<lparr>tx_pdu_index_p := of_nat (number_pdu d)\<rparr> = gen_phy s" using assms(4,5) by (simp add: req_ok_def)
  then show ?thesis using False assms by (simp add: phy_play_def next_ptr_def due_dcis_def due_data_def)
qed

definition bch_due :: "gen_state \<Rightarrow> bool" where
  "bch_due s \<longleftrightarrow> cfg_auto_mib (gen_config s) \<and> sf_tx (gen_phy s) = 0 \<and> frame_tx (gen_phy s) AND 3 = 0"

lemma bch_ok:
  assumes "req_ok a b d" "bch_due s \<Longrightarrow> number_pdu d < 64" "tx_pdu_index_p (gen_phy s) = of_nat (number_pdu d)"
  shows "\<exists>d' pb t. phy_bch s d = Inr (s\<lparr>gen_phy := (gen_phy s)\<lparr>pbch_pdu := pb, tx_pdu_index_p := t\<rparr>\<rparr>, d') \<and>
    req_ok a (b @ (if bch_due s then [Tb_pbch] else [])) d' \<and> dl_frame d' = dl_frame d \<and> dl_subframe d' = dl_subframe d"
proof (cases "bch_due s")
  case True
  let ?n = "number_pdu d"
  let ?x = "set_word 0 3 (set_word 1 (of_nat ?n) ((dl_config_pdu_list d ! ?n)\<lparr>pdu_type := FAPI_DL_CONFIG_BCH_PDU_TYPE, pdu_size := 12\<rparr>))"
  let ?y = "(tx_request_pdu_list d ! ?n)\<lparr>tx_pdu_index := of_nat ?n, tx_pdu_length := 3, tx_num_segments := 1, tb_length := 3, tb_tag := 1, tb_data := Tb_pbch\<rparr>"
  let ?d = "d\<lparr>dl_config_pdu_list := (dl_config_pdu_list d)[?n := ?x], tx_request_pdu_list := (tx_request_pdu_list d)[?n := ?y],
      number_pdu := Suc ?n, number_tx_req := Suc ?n\<rparr>"
  have n: "?n < 64" "number_tx_req d = ?n" "length (tx_request_pdu_list d) = 64" using assms(1,2) True by (auto simp: req_ok_def)
  have "take (Suc ?n) ((tx_request_pdu_list d)[?n := ?y]) = take ?n (tx_request_pdu_list d) @ [?y]"
    using n by (simp add: take_Suc_conv_app_nth)
  then have "req_ok a (b @ [Tb_pbch]) ?d"
    using assms(1) n by (auto simp: req_ok_def set_word_def nth_list_update less_Suc_eq)
  then show ?thesis using True n assms(3)
    by (auto simp: phy_bch_def bch_due_def phy_common_encode_bch_def Let_def)
next
  case False
  then have "phy_bch s d = Inr (s, d)" by (auto simp: phy_bch_def bch_due_def phy_common_encode_bch_def)
  then show ?thesis using assms(1) False
    by (intro exI [of _ d] exI [of _ "pbch_pdu (gen_phy s)"] exI [of _ "tx_pdu_index_p (gen_phy s)"]) simp
qed

section \<open>A pass\<close>

text \<open>
  The state of a running generator: request buffers for ten subframes with lists of 64, lists of ten for the indications, a
  scenario of items as they are read from a file, a pointer to one of them.
\<close>

definition inds_ok :: "gen_proc \<Rightarrow> bool" where
  "inds_ok p \<longleftrightarrow> length (rx_ind_q p) = 10 \<and> length (harq_ind_q p) = 10 \<and> length (sr_ind_q p) = 10 \<and> length (cqi_ind_q p) = 10 \<and>
     length (crc_ind_q p) = 10"

definition gen_wf :: "gen_state \<Rightarrow> bool" where
  "gen_wf s \<longleftrightarrow> length (sched_dl_config_req s) = 10 \<and> length (sched_ul_config_req s) = 10 \<and> list_all req_lists (sched_dl_config_req s) \<and>
     list_all (\<lambda>i. gen_linked (st_dl i) \<and> st_ul i = zero_ul) (stim_list s) \<and> stim_ptr s < stim_len s \<and> inds_ok (gen_phy s)"

text \<open>Room for the broadcast block after the data of every item.\<close>

definition gen_room :: "gen_state \<Rightarrow> bool" where
  "gen_room s \<longleftrightarrow> (cfg_auto_mib (gen_config s) \<longrightarrow> list_all (\<lambda>i. number_pdu (st_dl i) < 64) (stim_list s))"

lemma requests_ok:
  assumes "gen_wf s" "gen_room s" "sf_tx (gen_phy s) < 10"
  shows "\<exists>s' d u pb. phy_requests s = Inr s' \<and> req_ok (due_dcis s) (due_data s @ (if bch_due s then [Tb_pbch] else [])) d \<and>
    dl_frame d = frame_tx (gen_phy s) \<and> dl_subframe d = sf_tx (gen_phy s) \<and> ul_number_pdu u = 0 \<and>
    gen_calls s' = gen_calls s @ [P7_dl_config d, P7_ul_config u] @ (if number_tx_req d > 0 then [P7_tx d pb] else []) \<and>
    gen_wf s' \<and> gen_room s' \<and> stim_ptr s' = next_ptr s \<and> abs_tti s' = abs_tti s \<and> stim_list s' = stim_list s \<and>
    l1_connected s' = l1_connected s \<and> gen_config s' = gen_config s"
proof -
  let ?k = "unat (sf_tx (gen_phy s))" and ?i = "stim_list s ! stim_ptr s"
  let ?d = "clear_dl ((sched_dl_config_req s ! ?k)\<lparr>dl_frame := frame_tx (gen_phy s), dl_subframe := sf_tx (gen_phy s)\<rparr>)"
  let ?u = "(sched_ul_config_req s ! ?k)\<lparr>ul_frame := frame_tx (gen_phy s), ul_subframe := sf_tx (gen_phy s), ul_number_pdu := 0\<rparr>"
  let ?s0 = "s\<lparr>gen_phy := (gen_phy s)\<lparr>tx_pdu_index_p := 0\<rparr>\<rparr>"
  have k: "?k < 10" using assms(3) by (simp add: word_less_nat_alt)
  have i: "?i \<in> set (stim_list s)" "stim_list s \<noteq> []" using assms(1) by (auto simp: gen_wf_def)
  have il: "gen_linked (st_dl ?i)" "st_ul ?i = zero_ul" using assms(1) i by (auto simp: gen_wf_def list_all_iff)
  have "req_lists (sched_dl_config_req s ! ?k)" using assms(1) k by (simp add: gen_wf_def list_all_length)
  then have r0: "req_ok [] [] ?d" by (rule req_ok_clear)
  have same: "due_dcis ?s0 = due_dcis s" "due_data ?s0 = due_data s" "next_ptr ?s0 = next_ptr s"
    by (simp_all add: due_dcis_def due_data_def next_ptr_def stim_due_def)
  obtain d1 u1 where p: "phy_play ?s0 ?d ?u = Inr (?s0\<lparr>gen_phy := (gen_phy ?s0)\<lparr>tx_pdu_index_p := of_nat (number_pdu d1)\<rparr>, stim_ptr := next_ptr s\<rparr>, d1, u1)"
    "req_ok (due_dcis s) (due_data s) d1" "dl_frame d1 = dl_frame ?d" "dl_subframe d1 = dl_subframe ?d" "ul_number_pdu u1 = 0"
    using play_ok [of ?s0 ?d ?u] i il r0 unfolding same by (auto simp: same)
  let ?s1 = "?s0\<lparr>gen_phy := (gen_phy ?s0)\<lparr>tx_pdu_index_p := of_nat (number_pdu d1)\<rparr>, stim_ptr := next_ptr s\<rparr>"
  have b: "bch_due ?s1 = bch_due s" by (simp add: bch_due_def)
  have "number_pdu d1 < 64" if "bch_due s"
  proof -
    have "number_pdu (st_dl ?i) < 64" using assms(2) that i by (simp add: gen_room_def bch_due_def list_all_iff)
    then show ?thesis using p(2) item_data_length(1) [OF il(1)] by (auto simp: req_ok_def due_data_def split: if_splits)
  qed
  then obtain d2 pb t where q: "phy_bch ?s1 d1 = Inr (?s1\<lparr>gen_phy := (gen_phy ?s1)\<lparr>pbch_pdu := pb, tx_pdu_index_p := t\<rparr>\<rparr>, d2)"
    "req_ok (due_dcis s) (due_data s @ (if bch_due s then [Tb_pbch] else [])) d2" "dl_frame d2 = dl_frame d1" "dl_subframe d2 = dl_subframe d1"
    using bch_ok [OF p(2), of ?s1] unfolding b by auto
  let ?s2 = "?s1\<lparr>gen_phy := (gen_phy ?s1)\<lparr>pbch_pdu := pb, tx_pdu_index_p := t\<rparr>\<rparr>"
  have h: "number_dci0 d2 = 0" "number_hi d2 = 0" using q(2) by (simp_all add: req_ok_def)
  have e: "phy_requests s = Inr (phy_send d2 u1 ?s2)"
    using k p(1) q(1) by (simp add: phy_requests_def Let_def)
  have "next_ptr s < stim_len s" using assms(1) by (auto simp: next_ptr_def gen_wf_def)
  then have "gen_wf (phy_send d2 u1 ?s2)"
    using assms(1) req_ok_lists [OF q(2)]
    by (auto simp: gen_wf_def phy_send_def Let_def call_def inds_ok_def list_all_iff dest: set_update_subset_insert [THEN subsetD])
  moreover have "gen_room (phy_send d2 u1 ?s2)" using assms(2) by (simp add: gen_room_def phy_send_def Let_def call_def)
  ultimately show ?thesis using e q p h
    by (intro exI [of _ "phy_send d2 u1 ?s2"] exI [of _ d2] exI [of _ u1] exI [of _ pb])
      (simp add: phy_send_def Let_def call_def clear_dl_def)
qed

text \<open>The messages a pass can take: indications of subframes below ten, RACH messages of equally many preambles, at least one.\<close>

definition input_ok :: "gen_input \<Rightarrow> bool" where
  "input_ok i \<longleftrightarrow> list_all (\<lambda>m. im_subframe m < 10) (in_rx i @ in_harq i @ in_sr i @ in_cqi i @ in_crc i) \<and>
     (\<exists>n>0. list_all (\<lambda>m. length (ra_preambles m) = n) (in_rach i))"

lemma rach_best_index: "i + length xs \<le> n \<Longrightarrow> fst b < n \<Longrightarrow> fst (rach_best i xs b) < n"
  by (induction i xs b rule: rach_best.induct) auto

lemma rach_ok:
  assumes "list_all (\<lambda>m. length (ra_preambles m) = n) ms" "fst b < n"
  shows "\<exists>rc. phy_rach ms b s = Inr (s\<lparr>gen_calls := gen_calls s @ rc\<rparr>) \<and> length rc = length ms \<and> (\<forall>c\<in>set rc. \<exists>t p a w. c = New_rach t p a w)"
  using assms
proof (induction ms arbitrary: b s)
  case (Cons m ms)
  let ?b = "rach_best 0 (ra_preambles m) b"
  have l: "length (ra_preambles m) = n" "fst ?b < n" "list_all (\<lambda>m. length (ra_preambles m) = n) ms"
    using Cons.prems by (auto intro: rach_best_index)
  let ?x = "ra_preambles m ! fst ?b"
  let ?c = "New_rach (ra_frame m * 10 + ra_subframe m) (pr_preamble ?x) (pr_timing_advance ?x div 16) (pr_power ?x)"
  obtain rc where "phy_rach ms ?b (call ?c s) = Inr ((call ?c s)\<lparr>gen_calls := gen_calls (call ?c s) @ rc\<rparr>)" "length rc = length ms"
      "\<forall>c\<in>set rc. \<exists>t p a w. c = New_rach t p a w"
    using Cons.IH [OF l(3,2)] by blast
  then show ?case using l(1,2) by (intro exI [of _ "?c # rc"]) (auto simp: call_def Let_def)
qed simp

lemma store_ind_ok:
  assumes "list_all (\<lambda>m. im_subframe m < 10) ms"
  shows "\<exists>q'. store_ind e ms q = Inr q' \<and> length q' = length q"
  using assms by (induction e ms q rule: store_ind.induct) (auto simp: word_less_nat_alt)

lemma consume_ind_keeps:
  "\<exists>a b c d e. consume_ind p = p\<lparr>rx_ind_q := a, harq_ind_q := b, sr_ind_q := c, cqi_ind_q := d, crc_ind_q := e\<rparr> \<and>
     length a = length (rx_ind_q p) \<and> length b = length (harq_ind_q p) \<and> length c = length (sr_ind_q p) \<and> length d = length (cqi_ind_q p) \<and>
     length e = length (crc_ind_q p)"
proof -
  let ?f = "\<lambda>q :: nat option list. if q ! unat (sf_rx p) = None then q else q[unat (sf_rx p) := None]"
  let ?c = "harq_ind_q p ! unat (sf_rx p) \<noteq> None \<or> sr_ind_q p ! unat (sf_rx p) \<noteq> None \<or> cqi_ind_q p ! unat (sf_rx p) \<noteq> None"
  let ?g = "\<lambda>q :: nat option list. if ?c then q[unat (sf_rx p) := None] else q"
  have "consume_ind p = p\<lparr>rx_ind_q := ?f (rx_ind_q p), harq_ind_q := ?g (harq_ind_q p), sr_ind_q := ?g (sr_ind_q p), cqi_ind_q := ?g (cqi_ind_q p),
      crc_ind_q := (crc_ind_q p)[unat (sf_rx p) := None]\<rparr>"
    by (simp add: consume_ind_def Let_def)
  then show ?thesis by (intro exI conjI) (assumption, simp_all)
qed

lemma indications_ok:
  assumes "input_ok i" "inds_ok p"
  shows "\<exists>a b c d e. phy_indications i p = Inr (p\<lparr>rx_ind_q := a, harq_ind_q := b, sr_ind_q := c, cqi_ind_q := d, crc_ind_q := e\<rparr>) \<and>
    inds_ok (p\<lparr>rx_ind_q := a, harq_ind_q := b, sr_ind_q := c, cqi_ind_q := d, crc_ind_q := e\<rparr>)"
proof -
  have l: "list_all (\<lambda>m. im_subframe m < 10) (in_rx i)" "list_all (\<lambda>m. im_subframe m < 10) (in_harq i)"
    "list_all (\<lambda>m. im_subframe m < 10) (in_sr i)" "list_all (\<lambda>m. im_subframe m < 10) (in_cqi i)" "list_all (\<lambda>m. im_subframe m < 10) (in_crc i)"
    using assms(1) by (simp_all add: input_ok_def)
  obtain rx where rx: "store_ind False (in_rx i) (rx_ind_q p) = Inr rx" "length rx = 10"
    using store_ind_ok [OF l(1), of False "rx_ind_q p"] assms(2) by (auto simp: inds_ok_def)
  obtain hq where hq: "store_ind True (in_harq i) (harq_ind_q p) = Inr hq" "length hq = 10"
    using store_ind_ok [OF l(2), of True "harq_ind_q p"] assms(2) by (auto simp: inds_ok_def)
  obtain sr where sr: "store_ind True (in_sr i) (sr_ind_q p) = Inr sr" "length sr = 10"
    using store_ind_ok [OF l(3), of True "sr_ind_q p"] assms(2) by (auto simp: inds_ok_def)
  obtain cq where cq: "store_ind True (in_cqi i) (cqi_ind_q p) = Inr cq" "length cq = 10"
    using store_ind_ok [OF l(4), of True "cqi_ind_q p"] assms(2) by (auto simp: inds_ok_def)
  obtain cr where cr: "store_ind True (in_crc i) (crc_ind_q p) = Inr cr" "length cr = 10"
    using store_ind_ok [OF l(5), of True "crc_ind_q p"] assms(2) by (auto simp: inds_ok_def)
  let ?p = "p\<lparr>rx_ind_q := rx, harq_ind_q := hq, sr_ind_q := sr, cqi_ind_q := cq, crc_ind_q := cr\<rparr>"
  obtain a b c d e where "consume_ind ?p = ?p\<lparr>rx_ind_q := a, harq_ind_q := b, sr_ind_q := c, cqi_ind_q := d, crc_ind_q := e\<rparr>"
      "length a = 10" "length b = 10" "length c = 10" "length d = 10" "length e = 10"
    using consume_ind_keeps [of ?p] rx hq sr cq cr by auto
  then show ?thesis using rx hq sr cq cr
    by (intro exI [of _ a] exI [of _ b] exI [of _ c] exI [of _ d] exI [of _ e]) (simp add: phy_indications_def inds_ok_def)
qed

end
