(* ===== verification/Gen_Play.thy ===== *)
theory Gen_Play
  imports Gen_Props
begin

text \<open>
  The passes of the traffic generator's thread: what is sent in a pass, and the order in which the items of the scenario are played.
\<close>

section \<open>What a pass sends\<close>

lemma advance_keeps:
  "stim_list (phy_advance f sf s) = stim_list s" "stim_ptr (phy_advance f sf s) = stim_ptr s" "gen_calls (phy_advance f sf s) = gen_calls s"
  "gen_config (phy_advance f sf s) = gen_config s" "l1_connected (phy_advance f sf s) = l1_connected s"
  "frame_tx (gen_phy (phy_advance f sf s)) = f" "sf_tx (gen_phy (phy_advance f sf s)) = sf"
  by (simp_all add: phy_advance_def Let_def set_time_parts)

lemma advance_wf: "gen_wf s \<Longrightarrow> gen_wf (phy_advance f sf s)" "gen_room s \<Longrightarrow> gen_room (phy_advance f sf s)"
  by (simp_all add: phy_advance_def Let_def gen_wf_def gen_room_def inds_ok_def phy_common_set_time_def)

definition pass_sends :: "gen_state \<Rightarrow> gen_input \<Rightarrow> gen_state \<Rightarrow> sched_dl \<Rightarrow> bool" where
  "pass_sends a i s' d \<longleftrightarrow>
     req_ok (due_dcis a) (due_data a @ (if bch_due a then [Tb_pbch] else [])) d \<and>
     dl_frame d = frame_tx (gen_phy a) \<and> dl_subframe d = sf_tx (gen_phy a) \<and>
     (\<exists>rc u pb. length rc = length (in_rach i) \<and> (\<forall>c\<in>set rc. \<exists>t p ta w. c = New_rach t p ta w) \<and> ul_number_pdu u = 0 \<and>
        gen_calls s' = gen_calls a @ rc @ [P7_dl_config d, P7_ul_config u] @ (if number_tx_req d > 0 then [P7_tx d pb] else []))"

lemma subframe_ok:
  fixes f :: u32
  assumes "gen_wf s" "gen_room s" "input_ok i" "sf < 10"
  defines "a \<equiv> phy_advance f sf s"
  shows "\<exists>s' d. phy_subframe f sf i s = Inr s' \<and> pass_sends a i s' d \<and> gen_wf s' \<and> gen_room s' \<and>
    stim_ptr s' = next_ptr a \<and> abs_tti s' = abs_tti a \<and> stim_list s' = stim_list s \<and> l1_connected s' = l1_connected s"
proof -
  have a: "gen_wf a" "gen_room a" "sf_tx (gen_phy a) = sf" using advance_wf assms(1,2) by (simp_all add: a_def advance_keeps)
  obtain n where "0 < n" "list_all (\<lambda>m. length (ra_preambles m) = n) (in_rach i)" using assms(3) by (auto simp: input_ok_def)
  then obtain rc where rc: "phy_rach (in_rach i) (0, 0) a = Inr (a\<lparr>gen_calls := gen_calls a @ rc\<rparr>)" "length rc = length (in_rach i)"
      "\<forall>c\<in>set rc. \<exists>t p ta w. c = New_rach t p ta w"
    using rach_ok [of n "in_rach i" "(0, 0)" a] by auto
  obtain q1 q2 q3 q4 q5 where q: "phy_indications i (gen_phy a) =
        Inr ((gen_phy a)\<lparr>rx_ind_q := q1, harq_ind_q := q2, sr_ind_q := q3, cqi_ind_q := q4, crc_ind_q := q5\<rparr>)"
      "inds_ok ((gen_phy a)\<lparr>rx_ind_q := q1, harq_ind_q := q2, sr_ind_q := q3, cqi_ind_q := q4, crc_ind_q := q5\<rparr>)"
    using indications_ok [OF assms(3), of "gen_phy a"] a(1) by (auto simp: gen_wf_def)
  let ?s = "a\<lparr>gen_calls := gen_calls a @ rc,
      gen_phy := (gen_phy a)\<lparr>rx_ind_q := q1, harq_ind_q := q2, sr_ind_q := q3, cqi_ind_q := q4, crc_ind_q := q5\<rparr>\<rparr>"
  have w: "gen_wf ?s" "gen_room ?s" "sf_tx (gen_phy ?s) < 10" using a q(2) assms(4) by (simp_all add: gen_wf_def gen_room_def)
  have same: "due_dcis ?s = due_dcis a" "due_data ?s = due_data a" "bch_due ?s = bch_due a" "next_ptr ?s = next_ptr a"
    by (simp_all add: due_dcis_def due_data_def bch_due_def next_ptr_def stim_due_def)
  have e: "phy_subframe f sf i s = phy_requests ?s"
    using rc(1) q(1) by (simp add: phy_subframe_def l2_fapi_schedule_def flip: a_def)
  obtain s' d u pb where "phy_requests ?s = Inr s'" "req_ok (due_dcis a) (due_data a @ (if bch_due a then [Tb_pbch] else [])) d"
      "dl_frame d = frame_tx (gen_phy a)" "dl_subframe d = sf_tx (gen_phy a)" "ul_number_pdu u = 0"
      "gen_calls s' = gen_calls a @ rc @ [P7_dl_config d, P7_ul_config u] @ (if number_tx_req d > 0 then [P7_tx d pb] else [])"
      "gen_wf s'" "gen_room s'" "stim_ptr s' = next_ptr a" "abs_tti s' = abs_tti a" "stim_list s' = stim_list a" "l1_connected s' = l1_connected a"
    using requests_ok [OF w] unfolding same by auto
  moreover have "stim_list a = stim_list s" "l1_connected a = l1_connected s" by (simp_all add: a_def advance_keeps)
  ultimately show ?thesis using e rc(2,3) unfolding pass_sends_def by auto
qed

text \<open>C11: The requests of a pass. For a connected generator in its invariant, a subframe indication and messages of valid subframes, the pass
  ends without a fault in the invariant and calls, after one hook for each RACH message, DL_CONFIG and UL_CONFIG, then TX exactly when there
  is data, and never HI_DCI0. The DL_CONFIG request is of the indicated frame and subframe; its DCIs are those of the item of the scenario that
  is due, in the item's order, its blocks those of the item's DLSCH PDUs in their order, followed by the broadcast block when
  one is due; the PDU and the block at a position both carry the position as their index, whatever earlier passes left in the buffers.
\<close>

theorem gen_pass_requests:
  fixes f :: u32
  assumes "gen_wf s" "gen_room s" "l1_connected s" "in_connected i" "in_sf i = Some (f, sf)" "sf < 10" "input_ok i"
  defines "a \<equiv> phy_advance f sf s"
  shows "\<exists>s' d rc u pb. phy_pass i s = Inr s' \<and> gen_wf s' \<and>
    gen_calls s' = gen_calls s @ rc @ [P7_dl_config d, P7_ul_config u] @ (if number_tx_req d > 0 then [P7_tx d pb] else []) \<and>
    length rc = length (in_rach i) \<and> (\<forall>c\<in>set rc. \<exists>t p ta w. c = New_rach t p ta w) \<and> ul_number_pdu u = 0 \<and>
    dl_frame d = f \<and> dl_subframe d = sf \<and> take (number_dci d) (dl_config_dci_list d) = due_dcis a \<and>
    map tb_data (take (number_tx_req d) (tx_request_pdu_list d)) = due_data a @ (if bch_due a then [Tb_pbch] else []) \<and>
    number_pdu d = number_tx_req d \<and>
    (\<forall>k<number_pdu d. pdu_words (dl_config_pdu_list d ! k) 1 = of_nat k \<and> tx_pdu_index (tx_request_pdu_list d ! k) = of_nat k)"
proof -
  obtain s' d where s': "phy_subframe f sf i s = Inr s'" "pass_sends a i s' d" "gen_wf s'"
    using subframe_ok [OF assms(1,2,7,6)] unfolding a_def by blast
  obtain rc u pb where c: "length rc = length (in_rach i)" "\<forall>c\<in>set rc. \<exists>t p ta w. c = New_rach t p ta w" "ul_number_pdu u = 0"
      "gen_calls s' = gen_calls s @ rc @ [P7_dl_config d, P7_ul_config u] @ (if number_tx_req d > 0 then [P7_tx d pb] else [])"
    using s'(2) unfolding pass_sends_def a_def advance_keeps by blast
  have d: "dl_frame d = f" "dl_subframe d = sf" "req_ok (due_dcis a) (due_data a @ (if bch_due a then [Tb_pbch] else [])) d"
    using s'(2) unfolding pass_sends_def by (simp_all add: a_def advance_keeps)
  have p: "phy_pass i s = Inr s'" using assms(3-5) s'(1) by (simp add: phy_pass_def)
  have n: "number_pdu d = number_tx_req d" "take (number_dci d) (dl_config_dci_list d) = due_dcis a"
      "\<forall>k<number_pdu d. pdu_words (dl_config_pdu_list d ! k) 1 = of_nat k \<and> tx_pdu_index (tx_request_pdu_list d ! k) = of_nat k"
      "map tb_data (take (number_pdu d) (tx_request_pdu_list d)) = due_data a @ (if bch_due a then [Tb_pbch] else [])"
    using d(3) unfolding req_ok_def by (elim conjE, simp only:)+
  from n(4) have m: "map tb_data (take (number_tx_req d) (tx_request_pdu_list d)) = due_data a @ (if bch_due a then [Tb_pbch] else [])"
    unfolding n(1) .
  show ?thesis using p s'(3) c(4) c(1-3) d(1,2) n(2) m n(1,3) by blast
qed

section \<open>The order of the items\<close>

text \<open>The pointer moves exactly in the passes in which its item is due.\<close>

lemma play_moves:
  "phy_play s d u = Inr (s1, d1, u1) \<Longrightarrow> stim_ptr s1 = next_ptr s \<and> stim_list s1 = stim_list s \<and> abs_tti s1 = abs_tti s"
  by (auto simp: phy_play_def next_ptr_def Let_def split: if_splits sum.splits)

lemma bch_moves:
  "phy_bch s d = Inr (s1, d1) \<Longrightarrow> stim_ptr s1 = stim_ptr s \<and> stim_list s1 = stim_list s \<and> abs_tti s1 = abs_tti s"
  by (auto simp: phy_bch_def split: if_splits sum.splits)

lemma requests_move:
  assumes "phy_requests s = Inr s'"
  shows "stim_ptr s' = next_ptr s \<and> stim_list s' = stim_list s \<and> abs_tti s' = abs_tti s"
proof -
  let ?s0 = "s\<lparr>gen_phy := (gen_phy s)\<lparr>tx_pdu_index_p := 0\<rparr>\<rparr>"
  obtain d u s1 d1 u1 s2 d2 where "phy_play ?s0 d u = Inr (s1, d1, u1)" "phy_bch s1 d1 = Inr (s2, d2)" "s' = phy_send d2 u1 s2"
    using assms by (auto simp: phy_requests_def Let_def split: if_splits sum.splits)
  moreover have "next_ptr ?s0 = next_ptr s" by (simp add: next_ptr_def stim_due_def)
  ultimately show ?thesis using play_moves bch_moves by (fastforce simp: phy_send_def Let_def call_def)
qed

lemma rach_keeps:
  "phy_rach ms b s = Inr s' \<Longrightarrow> stim_ptr s' = stim_ptr s \<and> stim_list s' = stim_list s \<and> abs_tti s' = abs_tti s"
  by (induction ms b s rule: phy_rach.induct) (auto simp: Let_def call_def split: if_splits)

lemma subframe_moves:
  assumes "phy_subframe f sf i s = Inr s'"
  shows "stim_ptr s' = next_ptr (phy_advance f sf s) \<and> stim_list s' = stim_list s"
proof -
  obtain s1 p where r: "phy_rach (in_rach i) (0, 0) (phy_advance f sf s) = Inr s1" "phy_requests (s1\<lparr>gen_phy := p\<rparr>) = Inr s'"
    using assms by (auto simp: phy_subframe_def l2_fapi_schedule_def Let_def split: sum.splits)
  have "next_ptr (s1\<lparr>gen_phy := p\<rparr>) = next_ptr (phy_advance f sf s)"
    using rach_keeps [OF r(1)] by (simp add: next_ptr_def stim_due_def)
  then show ?thesis using requests_move [OF r(2)] rach_keeps [OF r(1)] by (simp add: advance_keeps)
qed

lemma play_config: "phy_play s d u = Inr (s1, d1, u1) \<Longrightarrow> gen_config s1 = gen_config s"
  by (auto simp: phy_play_def Let_def split: if_splits sum.splits)

lemma requests_config: "phy_requests s = Inr s' \<Longrightarrow> gen_config s' = gen_config s"
  by (auto simp: phy_requests_def phy_bch_def phy_send_def call_def Let_def dest!: play_config split: if_splits sum.splits)

lemma rach_config: "phy_rach ms b s = Inr s' \<Longrightarrow> gen_config s' = gen_config s"
  by (induction ms b s rule: phy_rach.induct) (auto simp: Let_def call_def split: if_splits)

lemma pass_config: "phy_pass i s = Inr s' \<Longrightarrow> gen_config s' = gen_config s"
  by (auto simp: phy_pass_def phy_subframe_def l2_fapi_schedule_def phy_start_l1_def phy_configure_l1_def phy_stop_l1_def call_def Let_def advance_keeps
      dest!: requests_config rach_config split: if_splits option.splits sum.splits)

lemma start_keeps:
  "stim_ptr (phy_start_l1 (phy_configure_l1 (phy_stop_l1 s))) = stim_ptr s"
  "stim_list (phy_start_l1 (phy_configure_l1 (phy_stop_l1 s))) = stim_list s"
  by (simp_all add: phy_start_l1_def phy_configure_l1_def phy_stop_l1_def call_def Let_def)

text \<open>An item whose TTI is not below the number of items.\<close>

definition stalled :: "gen_state \<Rightarrow> bool" where
  "stalled s \<longleftrightarrow> stim_ptr s < stim_len s \<and> of_nat (stim_len s) \<le> st_tti (stim_list s ! stim_ptr s)"

lemma stalled_not_due:
  assumes "stalled s" "stim_len s < 2 ^ 31"
  shows "\<not> stim_due s"
proof -
  have n: "unat (of_nat (stim_len s) :: u32) = stim_len s" using assms(2) by (simp add: unat_of_nat)
  have "0 < stim_len s" using assms(1) unfolding stalled_def by linarith
  then have "unat (abs_tti s mod of_nat (stim_len s)) < stim_len s" unfolding unat_mod n by (rule mod_less_divisor)
  moreover have "stim_len s \<le> unat (st_tti (stim_list s ! stim_ptr s))" using assms(1) by (simp add: stalled_def word_le_nat_alt n)
  ultimately show ?thesis unfolding stim_due_def by (metis not_less)
qed

lemma stalled_pass:
  assumes "phy_pass i s = Inr s'" "stalled s" "stim_len s < 2 ^ 31"
  shows "stim_ptr s' = stim_ptr s \<and> stim_list s' = stim_list s"
proof -
  have "next_ptr (phy_advance f sf s) = stim_ptr s" for f sf
    using stalled_not_due [of "phy_advance f sf s"] assms(2,3) by (simp add: next_ptr_def stalled_def advance_keeps)
  then show ?thesis using assms(1) subframe_moves
    by (auto simp: phy_pass_def start_keeps split: if_splits option.splits)
qed

text \<open>A scenario that stalls. The TTI of an item is compared with the running TTI modulo the number of items, not modulo the duration the
  file gives: once the pointer is at an item whose TTI is not below the number of items, no sequence of passes moves it again, and neither
  that item nor any after it is ever played.
\<close>

lemma gen_scenario_stalls:
  assumes "phy_passes is s = Inr s'" "stim_ptr s < stim_len s" "of_nat (stim_len s) \<le> st_tti (stim_list s ! stim_ptr s)" "stim_len s < 2 ^ 31"
  shows "stim_ptr s' = stim_ptr s \<and> stim_list s' = stim_list s"
  using assms
proof (induction "is" arbitrary: s)
  case (Cons i "is")
  obtain s1 where s1: "phy_pass i s = Inr s1" "phy_passes is s1 = Inr s'" using Cons.prems(1) by (auto split: sum.splits)
  have "stim_ptr s1 = stim_ptr s" "stim_list s1 = stim_list s"
    using stalled_pass [OF s1(1)] Cons.prems(2-4) by (simp_all add: stalled_def)
  then show ?case using Cons.IH [OF s1(2)] Cons.prems(2-4) by simp
qed simp

text \<open>A steady run: every pass has the next subframe of the connected L1, and messages the pass can take.\<close>

fun steady :: "u32 \<Rightarrow> gen_input list \<Rightarrow> bool" where
  "steady t [] = True"
| "steady t (i # is) \<longleftrightarrow> input_ok i \<and> in_connected i \<and> (\<exists>f. in_sf i = Some (f, (t + 1) mod 10)) \<and> steady (t + 1) is"

lemma mod10_less: "(t :: u32) mod 10 < 10"
  by (simp add: word_less_nat_alt unat_mod)

lemma steady_pass:
  assumes "gen_wf s" "gen_room s" "l1_connected s" "input_ok i" "in_connected i" "in_sf i = Some (f, (abs_tti s + 1) mod 10)"
  defines "a \<equiv> phy_advance f ((abs_tti s + 1) mod 10) s"
  shows "abs_tti a = abs_tti s + 1 \<and> (\<exists>s' d. phy_pass i s = Inr s' \<and> pass_sends a i s' d \<and> gen_wf s' \<and> gen_room s' \<and> l1_connected s' \<and>
    stim_ptr s' = next_ptr a \<and> abs_tti s' = abs_tti s + 1 \<and> stim_list s' = stim_list s)"
proof -
  have t: "abs_tti a = abs_tti s + 1" by (simp add: a_def phy_advance_def Let_def)
  have p: "phy_pass i s = phy_subframe f ((abs_tti s + 1) mod 10) i s" using assms(3,5,6) by (simp add: phy_pass_def)
  show ?thesis
    using subframe_ok [OF assms(1,2,4) mod10_less, of f "abs_tti s + 1"] t assms(3) unfolding p a_def [symmetric] by auto
qed

text \<open>
  The scenarios for which the format and the code agree: looped, without a starting TTI, one item for each TTI of the loop, and the
  duration of the loop the number of items.
\<close>

definition looped :: "gen_state \<Rightarrow> bool" where
  "looped s \<longleftrightarrow> cfg_stim_loop (gen_config s) \<and> cfg_stim_start_tti (gen_config s) = - 1 \<and> stim_len s < 2 ^ 31 \<and>
     cfg_stim_duration (gen_config s) = of_nat (stim_len s) \<and> (\<forall>k < stim_len s. st_tti (stim_list s ! k) = of_nat k)"

text \<open>
  The item of a looped scenario for a pass: that of the TTI in the loop, once the TTI of the item at the pointer has come. What a pass
  sends for an item, with the broadcast block or without.
\<close>

definition loop_item :: "gen_state \<Rightarrow> nat \<Rightarrow> stim_item option" where
  "loop_item s k =
     (let t = \<lambda>j. (unat (abs_tti s) + 1 + j) mod stim_len s
      in if \<exists>j \<le> k. t j = stim_ptr s then Some (stim_list s ! t k) else None)"

definition sends_item :: "gen_state \<Rightarrow> gen_state \<Rightarrow> stim_item option \<Rightarrow> bool" where
  "sends_item s s' it \<longleftrightarrow>
     (\<exists>d rc u pb bch. gen_calls s' = gen_calls s @ rc @ [P7_dl_config d, P7_ul_config u] @ (if number_tx_req d > 0 then [P7_tx d pb] else []) \<and>
        (\<forall>c\<in>set rc. \<exists>t p ta w. c = New_rach t p ta w) \<and> bch \<in> {[], [Tb_pbch]} \<and>
        take (number_dci d) (dl_config_dci_list d) = (case it of None \<Rightarrow> [] | Some i \<Rightarrow> item_dcis i) \<and>
        map tb_data (take (number_tx_req d) (tx_request_pdu_list d)) = (case it of None \<Rightarrow> [] | Some i \<Rightarrow> map (tb_data \<circ> snd) (item_data i)) @ bch)"

lemma looped_due:
  assumes "looped s" "stim_ptr s < stim_len s"
  shows "stim_due s \<longleftrightarrow> unat (abs_tti s) mod stim_len s = stim_ptr s"
proof -
  have n: "unat (of_nat (stim_len s) :: u32) = stim_len s" "unat (of_nat (stim_ptr s) :: u32) = stim_ptr s"
    using assms by (simp_all add: looped_def unat_of_nat)
  have "stim_due s \<longleftrightarrow> unat (of_nat (stim_ptr s) :: u32) = unat (abs_tti s mod of_nat (stim_len s))"
    using assms unfolding stim_due_def looped_def by (metis unsigned_word_eqI)
  then show ?thesis unfolding unat_mod n by auto
qed

text \<open>One pass, and what it leaves for the next.\<close>

lemma loop_pass:
  assumes "gen_wf s" "gen_room s" "l1_connected s" "looped s" "unat (abs_tti s) + 1 < 2 ^ 32"
    "input_ok i" "in_connected i" "in_sf i = Some (f, (abs_tti s + 1) mod 10)"
  shows "\<exists>s'. phy_pass i s = Inr s' \<and> gen_wf s' \<and> gen_room s' \<and> l1_connected s' \<and> abs_tti s' = abs_tti s + 1 \<and> stim_list s' = stim_list s \<and>
    sends_item s s' (loop_item s 0) \<and> (\<forall>k. loop_item s' k = loop_item s (Suc k))"
proof -
  let ?a = "phy_advance f ((abs_tti s + 1) mod 10) s" and ?t = "unat (abs_tti s) + 1"
  obtain s' d where s': "abs_tti ?a = abs_tti s + 1" "phy_pass i s = Inr s'" "pass_sends ?a i s' d" "gen_wf s'" "gen_room s'" "l1_connected s'"
      "stim_ptr s' = next_ptr ?a" "abs_tti s' = abs_tti s + 1" "stim_list s' = stim_list s"
    using steady_pass [OF assms(1-3,6-8)] by blast
  have u: "unat (abs_tti s + 1) = ?t" using assms(5) by (simp add: unat_word_ariths)
  have l: "stim_ptr s < stim_len s" using assms(1) by (simp add: gen_wf_def)
  have "looped ?a" using assms(4) by (simp add: looped_def advance_keeps)
  then have due: "stim_due ?a \<longleftrightarrow> ?t mod stim_len s = stim_ptr s" using looped_due [of ?a] l s'(1) u by (simp add: advance_keeps)
  have "sends_item s s' (loop_item s 0)"
    using s'(3) due unfolding pass_sends_def sends_item_def req_ok_def due_dcis_def due_data_def loop_item_def
    by (cases "bch_due ?a") (fastforce simp: advance_keeps)+
  moreover have "loop_item s' k = loop_item s (Suc k)" for k
  proof -
    have shift: "(unat (abs_tti s') + 1 + j) mod stim_len s = (?t + Suc j) mod stim_len s" for j by (simp add: s'(8) u)
    have "(\<exists>j \<le> k. (?t + Suc j) mod stim_len s = stim_ptr s') \<longleftrightarrow> (\<exists>j \<le> Suc k. (?t + j) mod stim_len s = stim_ptr s)"
    proof (cases "stim_due ?a")
      case True
      then have "stim_ptr s' = (?t + Suc 0) mod stim_len s" using s'(7) due l by (auto simp: next_ptr_def advance_keeps mod_Suc)
      then show ?thesis using True due by (metis add_0_right le0)
    next
      case False
      then have "stim_ptr s' = stim_ptr s" using s'(7) by (simp add: next_ptr_def advance_keeps)
      then show ?thesis using False due by (metis Suc_le_mono add_0_right not0_implies_Suc)
    qed
    then show ?thesis unfolding loop_item_def Let_def s'(9) shift by presburger
  qed
  ultimately show ?thesis using s' by blast
qed

text \<open>C21: The schedule of a looped scenario. For a connected generator in its invariant and a scenario with the loop flag set, without a
  starting TTI, with an item for each TTI of the loop in their order and a duration of as many subframes as there are items, passes
  with consecutive subframes, of TTIs that do not wrap, play the scenario as its format says: each pass whose TTI is t sends one DL_CONFIG request with
  the DCIs and one TX request with the blocks of the item at t modulo the duration. Passes before the first TTI
  of the item at the pointer, at the start the beginning of the loop, send nothing of the scenario.
  (The code reads neither the flag nor the duration; other scenarios it does not play as the format says, see \<open>gen_scenario_stalls\<close>.)
\<close>

theorem gen_loop_schedule:
  assumes "gen_wf s" "gen_room s" "l1_connected s" "looped s" "steady (abs_tti s) is" "unat (abs_tti s) + length is < 2 ^ 32" "k < length is"
  shows "\<exists>s1 s2. phy_passes (take k is) s = Inr s1 \<and> phy_pass (is ! k) s1 = Inr s2 \<and> unat (abs_tti s2) = unat (abs_tti s) + 1 + k \<and>
    sends_item s1 s2 (loop_item s k)"
  using assms
proof (induction "is" arbitrary: s k)
  case (Cons i "is")
  obtain f where i: "input_ok i" "in_connected i" "in_sf i = Some (f, (abs_tti s + 1) mod 10)" "steady (abs_tti s + 1) is"
    using Cons.prems(5) by auto
  have w: "unat (abs_tti s) + 1 < 2 ^ 32" using Cons.prems(6) by simp
  then have u: "unat (abs_tti s + 1) = unat (abs_tti s) + 1" by (simp add: unat_word_ariths)
  obtain s1 where s1: "phy_pass i s = Inr s1" "gen_wf s1" "gen_room s1" "l1_connected s1" "abs_tti s1 = abs_tti s + 1" "stim_list s1 = stim_list s"
      "sends_item s s1 (loop_item s 0)" "\<And>k. loop_item s1 k = loop_item s (Suc k)"
    using loop_pass [OF Cons.prems(1-4) w i(1-3)] by blast
  show ?case
  proof (cases k)
    case 0
    then show ?thesis using s1(1,5,7) u by auto
  next
    case (Suc j)
    have "gen_config s1 = gen_config s" by (rule pass_config [OF s1(1)])
    then have "looped s1" using Cons.prems(4) s1(6) by (simp add: looped_def)
    then obtain s2 s3 where "phy_passes (take j is) s1 = Inr s2" "phy_pass (is ! j) s2 = Inr s3" "unat (abs_tti s3) = unat (abs_tti s1) + 1 + j"
        "sends_item s2 s3 (loop_item s1 j)"
      using Cons.IH [OF s1(2-4), of j] i(4) s1(5) u Cons.prems(6,7) Suc by auto
    then show ?thesis using Suc s1(1,5,8) u by auto
  qed
qed simp

section \<open>The order of the calls\<close>

text \<open>
  What the L1 accepts, as an automaton on the calls with the state \<open>running\<close>: it is configured and started while stopped, and takes
  requests while running. \<open>None\<close> is a call out of place.
\<close>

fun l1_accepts :: "bool \<Rightarrow> gen_call list \<Rightarrow> bool option" where
  "l1_accepts r [] = Some r"
| "l1_accepts r (c # cs) =
     (case c of
        P5_stop \<Rightarrow> l1_accepts False cs
      | P5_config _ \<Rightarrow> if r then None else l1_accepts r cs
      | P5_start \<Rightarrow> if r then None else l1_accepts True cs
      | New_rach _ _ _ _ \<Rightarrow> l1_accepts r cs
      | _ \<Rightarrow> if r then l1_accepts r cs else None)"

lemma l1_accepts_append: "l1_accepts r (xs @ ys) = Option.bind (l1_accepts r xs) (\<lambda>r'. l1_accepts r' ys)"
proof (induction xs arbitrary: r)
  case (Cons c cs)
  then show ?case by (cases c) simp_all
qed simp

definition l1_inv :: "gen_state \<Rightarrow> bool" where
  "l1_inv s \<longleftrightarrow> l1_accepts False (gen_calls s) = Some (l1_running s) \<and> (l1_connected s \<longrightarrow> l1_running s)"

lemma l1_inv_send:
  assumes "l1_inv s" "l1_connected s"
  shows "l1_inv (phy_send d u s) \<and> l1_connected (phy_send d u s)"
  using assms by (simp add: l1_inv_def phy_send_def Let_def call_def l1_accepts_append)

lemma l1_inv_rach: "phy_rach ms b s = Inr s' \<Longrightarrow> l1_inv s \<Longrightarrow> l1_inv s' \<and> l1_connected s' = l1_connected s"
proof (induction ms b s rule: phy_rach.induct)
  case (2 m ms b s)
  then show ?case by (auto simp: Let_def call_def l1_inv_def l1_accepts_append split: if_splits)
qed simp

lemma l1_inv_requests:
  assumes "phy_requests s = Inr s'" "l1_inv s" "l1_connected s"
  shows "l1_inv s'"
proof -
  let ?s0 = "s\<lparr>gen_phy := (gen_phy s)\<lparr>tx_pdu_index_p := 0\<rparr>\<rparr>"
  obtain d u s1 d1 u1 s2 d2 where p: "phy_play ?s0 d u = Inr (s1, d1, u1)" "phy_bch s1 d1 = Inr (s2, d2)" "s' = phy_send d2 u1 s2"
    using assms(1) by (auto simp: phy_requests_def Let_def split: if_splits sum.splits)
  have "gen_calls s1 = gen_calls s" "l1_running s1 = l1_running s" "l1_connected s1 = l1_connected s"
    using p(1) by (auto simp: phy_play_def Let_def split: if_splits sum.splits)
  moreover have "gen_calls s2 = gen_calls s1" "l1_running s2 = l1_running s1" "l1_connected s2 = l1_connected s1"
    using p(2) by (auto simp: phy_bch_def split: if_splits sum.splits)
  ultimately show ?thesis using assms(2,3) l1_inv_send [of s2] unfolding p(3) by (simp add: l1_inv_def)
qed

lemma l1_inv_subframe:
  assumes "phy_subframe f sf i s = Inr s'" "l1_inv s" "l1_connected s"
  shows "l1_inv s'"
proof -
  obtain s1 p where r: "phy_rach (in_rach i) (0, 0) (phy_advance f sf s) = Inr s1" "phy_requests (s1\<lparr>gen_phy := p\<rparr>) = Inr s'"
    using assms(1) by (auto simp: phy_subframe_def l2_fapi_schedule_def Let_def split: sum.splits)
  have "l1_inv (phy_advance f sf s)" using assms(2) by (simp add: l1_inv_def phy_advance_def Let_def)
  from l1_inv_rach [OF r(1) this] have "l1_inv s1" "l1_connected s1" using assms(3) by (simp_all add: advance_keeps)
  then show ?thesis using l1_inv_requests [OF r(2)] by (simp add: l1_inv_def)
qed

lemma l1_inv_pass:
  assumes "phy_pass i s = Inr s'" "l1_inv s"
  shows "l1_inv s'"
proof (cases "\<not> l1_connected s \<or> \<not> in_connected i")
  case True
  then show ?thesis using assms
    by (auto simp: phy_pass_def l1_inv_def phy_start_l1_def phy_configure_l1_def phy_stop_l1_def call_def Let_def l1_accepts_append split: if_splits)
next
  case False
  then show ?thesis using assms l1_inv_subframe by (auto simp: phy_pass_def split: option.splits)
qed

lemma l1_inv_passes: "phy_passes is s = Inr s' \<Longrightarrow> l1_inv s \<Longrightarrow> l1_inv s'"
proof (induction "is" arbitrary: s)
  case (Cons i "is")
  then obtain s1 where "phy_pass i s = Inr s1" "phy_passes is s1 = Inr s'" by (auto split: sum.splits)
  then show ?case using Cons.IH l1_inv_pass [of i s s1] Cons.prems(2) by simp
qed simp

text \<open>C22: The order of the calls. Whatever the library reports in the passes of the thread, losing and regaining the connection included, the L1 is
  configured and started only while it is stopped, every P7 request is sent while it runs, and the thread ends with the L1 stopped.
\<close>

theorem gen_call_order:
  assumes "phy_dispatcher_thread is s = Inr s'" "gen_calls s = []" "\<not> l1_connected s"
  shows "l1_accepts False (gen_calls s') = Some False \<and> \<not> l1_running s' \<and> \<not> phy_running s'"
proof -
  let ?s0 = "s\<lparr>gen_phy := (gen_phy s)\<lparr>rx_ind_q := replicate 10 None, harq_ind_q := replicate 10 None, sr_ind_q := replicate 10 None,
          cqi_ind_q := replicate 10 None\<rparr>\<rparr>"
  obtain s1 where s1: "phy_passes is (phy_stop_l1 ?s0) = Inr s1" "s' = phy_stop_l1 (s1\<lparr>phy_running := False\<rparr>)"
    using assms(1) by (auto simp: phy_dispatcher_thread_def Let_def split: sum.splits)
  have "l1_inv (phy_stop_l1 ?s0)" using assms(2,3) by (simp add: l1_inv_def phy_stop_l1_def call_def)
  from l1_inv_passes [OF s1(1) this] show ?thesis by (simp add: s1(2) l1_inv_def phy_stop_l1_def call_def l1_accepts_append)
qed

section \<open>An example\<close>

text \<open>A connected generator with two items, the first with a block of three bytes, and its passes.\<close>

definition ex_dl :: sched_dl where
  "ex_dl = zero_dl\<lparr>number_pdu := 1, number_tx_req := 1,
     dl_config_pdu_list := zero_pdu\<lparr>pdu_type := FAPI_DL_CONFIG_DLSCH_PDU_TYPE\<rparr> # replicate 63 zero_pdu,
     tx_request_pdu_list := zero_tx\<lparr>tx_num_segments := 1, tb_tag := 1, tb_length := 3, tb_data := Tb_own [1, 2, 3]\<rparr> # replicate 63 zero_tx\<rparr>"

definition ex_gen :: gen_state where
  "ex_gen = create_l2_fapi_generator\<lparr>abs_tti := 9, gen_config := zero_cfg\<lparr>cfg_auto_mib := True\<rparr>, l1_connected := True,
     stim_list := [\<lparr>st_tti = 0, st_dl = ex_dl, st_ul = zero_ul\<rparr>, \<lparr>st_tti = 1, st_dl = zero_dl, st_ul = zero_ul\<rparr>]\<rparr>"

definition ex_input :: "(u32 \<times> u32) option \<Rightarrow> gen_input" where
  "ex_input t = \<lparr>in_connected = True, in_sf = t, in_rach = [\<lparr>ra_frame = 3, ra_subframe = 8, ra_preambles = [\<lparr>pr_preamble = 5, pr_timing_advance = 32, pr_power = 7\<rparr>]\<rparr>],
     in_rx = [\<lparr>im_id = 1, im_subframe = 6, im_count = 1\<rparr>], in_harq = [], in_sr = [], in_cqi = [], in_crc = []\<rparr>"

definition loop_cfg :: gen_cfg where
  "loop_cfg = zero_cfg\<lparr>cfg_auto_mib := True, cfg_stim_start_tti := - 1, cfg_stim_duration := 2, cfg_stim_loop := True\<rparr>"

lemma ex_linked: "gen_linked ex_dl" "gen_linked zero_dl"
  by (simp_all add: gen_linked_def gen_data_ok_def ex_dl_def zero_dl_def zero_tx_def zero_pdu_def)

lemma ex_gen_wf: "gen_wf ex_gen" "gen_room ex_gen" "l1_connected ex_gen" "abs_tti ex_gen = 9" "stim_ptr ex_gen = 0"
    "stim_list ex_gen = [\<lparr>st_tti = 0, st_dl = ex_dl, st_ul = zero_ul\<rparr>, \<lparr>st_tti = 1, st_dl = zero_dl, st_ul = zero_ul\<rparr>]"
  by (simp_all add: gen_wf_def gen_room_def ex_gen_def create_l2_fapi_generator_def ex_linked inds_ok_def req_lists_def list_all_iff,
      simp_all add: zero_dl_def ex_dl_def)

lemma ex_input_ok: "input_ok (ex_input t)" "in_connected (ex_input t)" "in_sf (ex_input t) = t" "length (in_rach (ex_input t)) = 1"
  by (auto simp: input_ok_def ex_input_def word_less_nat_alt)

lemma ex_due: "due_data (phy_advance 4 0 ex_gen) = [Tb_own [1, 2, 3]]" "bch_due (phy_advance 4 0 ex_gen)"
proof -
  have t: "abs_tti (phy_advance 4 0 ex_gen) = 10" by (simp add: phy_advance_def Let_def ex_gen_wf)
  show "bch_due (phy_advance 4 0 ex_gen)"
    by (simp add: bch_due_def advance_keeps) (simp add: ex_gen_def)
  show "due_data (phy_advance 4 0 ex_gen) = [Tb_own [1, 2, 3]]"
    by (simp add: due_data_def stim_due_def t advance_keeps ex_gen_wf item_data_def ex_dl_def is_dlsch_def)
qed

theorem gen_pass_requests_witness:
  "\<exists>s' d. phy_pass (ex_input (Some (4, 0))) ex_gen = Inr s' \<and> number_pdu d = number_tx_req d \<and>
     map tb_data (take (number_tx_req d) (tx_request_pdu_list d)) = [Tb_own [1, 2, 3], Tb_pbch] \<and> P7_dl_config d \<in> set (gen_calls s')"
proof -
  obtain s' d rc u pb where "phy_pass (ex_input (Some (4, 0))) ex_gen = Inr s'"
      "gen_calls s' = gen_calls ex_gen @ rc @ [P7_dl_config d, P7_ul_config u] @ (if number_tx_req d > 0 then [P7_tx d pb] else [])"
      "map tb_data (take (number_tx_req d) (tx_request_pdu_list d)) =
        due_data (phy_advance 4 0 ex_gen) @ (if bch_due (phy_advance 4 0 ex_gen) then [Tb_pbch] else [])"
      "number_pdu d = number_tx_req d"
    using gen_pass_requests [OF ex_gen_wf(1-3) ex_input_ok(2,3) _ ex_input_ok(1), of 0 4] by auto
  then show ?thesis by (intro exI [of _ s'] exI [of _ d]) (simp add: ex_due)
qed

theorem gen_scenario_stalls_witness:
  "\<exists>s'. phy_passes [ex_input None] (ex_gen\<lparr>stim_list := [\<lparr>st_tti = 7, st_dl = ex_dl, st_ul = zero_ul\<rparr>]\<rparr>) = Inr s' \<and> stim_ptr s' = 0"
proof -
  let ?s = "ex_gen\<lparr>stim_list := [\<lparr>st_tti = 7, st_dl = ex_dl, st_ul = zero_ul\<rparr>]\<rparr>"
  have p: "phy_passes [ex_input None] ?s = Inr ?s" by (simp add: phy_pass_def ex_input_ok ex_gen_wf)
  have "stim_ptr ?s < stim_len ?s" "of_nat (stim_len ?s) \<le> st_tti (stim_list ?s ! stim_ptr ?s)" "stim_len ?s < 2 ^ 31"
    by (simp_all add: ex_gen_wf word_le_nat_alt)
  from gen_scenario_stalls [OF p this] p show ?thesis by (auto simp: ex_gen_wf)
qed

theorem gen_loop_schedule_witness:
  "\<exists>s1 s2. phy_passes [ex_input (Some (4, 0))] (ex_gen\<lparr>gen_config := loop_cfg\<rparr>) = Inr s1 \<and> phy_pass (ex_input (Some (4, 1))) s1 = Inr s2 \<and>
     unat (abs_tti s2) = 11 \<and> sends_item s1 s2 (Some \<lparr>st_tti = 1, st_dl = zero_dl, st_ul = zero_ul\<rparr>)"
proof -
  let ?is = "[ex_input (Some (4, 0)), ex_input (Some (4, 1))]" and ?s = "ex_gen\<lparr>gen_config := loop_cfg\<rparr>"
  have w: "gen_wf ?s" "gen_room ?s" "l1_connected ?s"
    using ex_gen_wf(1-3) by (simp_all add: gen_wf_def gen_room_def) (simp add: ex_gen_def loop_cfg_def)
  have "looped ?s" by (auto simp: looped_def ex_gen_wf loop_cfg_def less_Suc_eq)
  moreover have "steady (abs_tti ?s) ?is" "unat (abs_tti ?s) + length ?is < 2 ^ 32" "1 < length ?is" by (simp_all add: ex_gen_wf ex_input_ok)
  moreover have "loop_item ?s 1 = Some \<lparr>st_tti = 1, st_dl = zero_dl, st_ul = zero_ul\<rparr>"
    unfolding loop_item_def Let_def by (auto simp: ex_gen_wf intro!: exI [of _ 0] simp flip: numeral_2_eq_2)
  ultimately show ?thesis using gen_loop_schedule [OF w, of ?is 1] by (auto simp: ex_gen_wf)
qed

theorem gen_call_order_witness:
  "\<exists>s'. phy_dispatcher_thread [ex_input None] create_l2_fapi_generator = Inr s' \<and> l1_accepts False (gen_calls s') = Some False"
proof -
  let ?s = create_l2_fapi_generator
  obtain s' where s': "phy_dispatcher_thread [ex_input None] ?s = Inr s'"
    by (auto simp: phy_dispatcher_thread_def Let_def phy_pass_def split: sum.splits) (auto simp: phy_stop_l1_def call_def create_l2_fapi_generator_def ex_input_def)
  have "gen_calls ?s = []" "\<not> l1_connected ?s" by (simp_all add: create_l2_fapi_generator_def)
  from gen_call_order [OF s' this] s' show ?thesis by blast
qed

end
