(* ===== verification/Spec2Isabelle.thy ===== *)
theory Spec2Isabelle
  imports Core_Time IPC_TxReq IPC_Layout IPC_Lock RRU_Table FAPI_Rx_Props FAPI_Tx_Data FAPI_Buffers
    L1_Defense Blocking_Receive DSP_Samples Gen_Play
begin

text \<open>
  Verification of the host side of an LTE layer 1 on the NXP B4860, as found under \<open>src/\<close>. The base station's
  upper layers run on the PowerPC cores, the physical layer on the DSP cores of the same chip; the
  program is what connects them. Paths below are relative to \<open>src/\<close>; \<open>LL\<close> stands for \<open>b4860/libb4860\<close>.

  \<^bold>\<open>The program and its parts.\<close>

  \<^item> The kernel modules own the memory both sides share. \<open>LL/kernel/fsl_shm.c\<close> divides a segment into areas;
    \<open>LL/kernel/fsl_hetmgr.c\<close> computes the memory map and lays out the control area; \<open>LL/kernel/fsl_ipc.c\<close> puts the
    IPC channels and their descriptor rings there and turns interrupts of the DSP into wake-ups;
    \<open>LL/kernel/fsl_L1_defense.c\<close> gathers the watchdog events of the DSP cores.
  \<^item> The libraries over them: \<open>LL/fsl_shm/lib/lg_shm.c\<close> and \<open>LL/ipc/lib/fsl_usmmgr.c\<close> attach the memory and
    translate addresses, \<open>LL/ipc/lib/fsl_ipc_channel.c\<close> sends and receives over the channels,
    \<open>LL/ipc/lib/fsl_user_dma.c\<close> drives a DMA channel and \<open>LL/ipc/lib/fsl_ipc_lock.c\<close> the locks.
  \<^item> The FAPI library \<open>b4860/fapi_b4860.c\<close>, with \<open>fapi_scheduler.c\<close>: start-up, the requests of the scheduler
    to the DSP, and a thread that hands the DSP's indications to the queues of
    \<open>lib/core/block_queue.c\<close>, from which the upper layers read.
  \<^item> The boot of the DSP: \<open>LL/dsp_boot/libdspboot.c\<close> loads the images into its memory, prepares the chip by registers, releases
    the cores and restarts them in operation; \<open>LL/dsp_boot/dsp_boot.c\<close> is the command.
  \<^item> The manager of the remote radio units \<open>b4860/fapi_b4860_cpri_eth.c\<close>, with the messages of \<open>b4860/fapi_b4860_ir.h\<close>.
  \<^item> The traffic generator \<open>l2_fapi_generator/\<close>, an upper layer of its own on the FAPI library: it reads a scenario, a request for each TTI, and
    plays it in a thread driven by the subframe indications.

  \<^bold>\<open>Theories and sources.\<close> Each operation of the code is one definition with the name it has there; a state record has
  the fields of the structure or the static variables it stands for.

  \<^item> \<open>Prelude\<close>: word types, the slice of a ring, big-endian byte strings. \<open>Fifo_Interface\<close>, \<open>Area_Interface\<close> and
    \<open>Event_Interface\<close>: the locales \<open>bounded_fifo\<close>, \<open>area_allocator\<close> and \<open>event_mask\<close>, contracts that several components promise,
    each with what a client may conclude from it. The block queue and the pointer channels interpret the first, the
    kernel's allocator and the user-space memory manager the second, the two interrupt handlers the third.
  \<^item> \<open>Core_Time\<close>: \<open>lib/core/core_time.h\<close>. \<open>Block_Queue\<close>: \<open>lib/core/block_queue.c\<close>, every operation as one critical
    section, the condition variables and the threads as the step relation \<open>bq_step\<close>.
  \<^item> \<open>User_DMA\<close>: \<open>fsl_user_dma.c\<close>. \<open>IPC_Channel\<close>: the structures and operations of \<open>fsl_ipc_channel.c\<close> (record
    \<open>ipc_state\<close>: control structures by virtual address, descriptors by ring address, memory by byte). \<open>IPC_Ring\<close>: the ring as a
    list. \<open>IPC_Services\<close>: message channels, two-phase receive, isolation. \<open>IPC_TxReq\<close>: transmit requests and
    their DMA chain. \<open>IPC_Layout\<close>: \<open>fsl_B4_ipc_init\<close>. \<open>IPC_Lock\<close>: \<open>fsl_ipc_lock.c\<close>.
  \<^item> \<open>IR_Messages\<close>, \<open>RRU_Manager\<close>: the messages byte by byte, the handlers, the table of units, the thread's
    reaction to each event. \<open>RRU_Protocol\<close>: the protocol as a state machine, which the handlers refine.
    \<open>RRU_Props\<close>, \<open>RRU_Table\<close>: framing, the element loop, invariants of the table over all event sequences.
  \<^item> \<open>Shm_Allocator\<close>: the lists of \<open>fsl_shm.c\<close>. \<open>Shm_Invariant\<close>, \<open>Shm_Props\<close>: the areas tile the segment; what each entry
    point does. \<open>Shm_Driver\<close>: its ioctls. \<open>User_Memory\<close>: \<open>lg_shm.c\<close> and \<open>fsl_usmmgr.c\<close> over that driver.
  \<^item> \<open>FAPI_Memory\<close>: words in byte memory. \<open>FAPI_Dispatch\<close>, \<open>FAPI_Rx_Props\<close>: the receive thread. \<open>FAPI_Send\<close>, \<open>FAPI_Build\<close>,
    \<open>FAPI_Tx_Props\<close>, \<open>FAPI_Tx_Data\<close>: the requests. \<open>FAPI_Init\<close>, \<open>FAPI_Buffers\<close>: start-up and the buffers it allocates.
  \<^item> \<open>Kernel_IPC\<close>: message units, registration, interrupt handler and read of \<open>kernel/fsl_ipc.c\<close>. \<open>Blocking_Receive\<close>: the
    blocking receive across library and driver. \<open>Het_Manager\<close>: \<open>fsl_hetmgr.c\<close> and the channel set-up of \<open>fsl_ipc.c\<close>.
    \<open>Control_Layout\<close>: what lies where in the control area. \<open>L1_Defense\<close>: \<open>fsl_L1_defense.c\<close>.
  \<^item> \<open>Boot_Machine\<close>: the machine the boot library works on (record \<open>boot\<close>), programs over it with the laws of their parts.
    \<open>DSP_Image\<close>: the image format and its loader. \<open>DSP_Boot\<close>: the steps on the registers, first start and warm reset of \<open>libdspboot.c\<close>,
    \<open>check_validation_fields\<close> of \<open>fsl_ipc_channel.c\<close>. \<open>DSP_Boot_Props\<close>: views a step leaves alone (the locales \<open>reg_view\<close> to
    \<open>boot_view\<close>), the order of the accesses. \<open>DSP_Start\<close>: success of the first start. \<open>DSP_Command\<close>: \<open>dsp_boot.c\<close>.
    \<open>DSP_Samples\<close>: sample runs.
  \<^item> \<open>Gen_Blocks\<close>: resource blocks and block sizes of the generator (\<open>conv_nprb\<close>, \<open>tbs_tables.h\<close>). \<open>Gen_Scenario\<close>: from the decoded scenario
    file to the items (\<open>l2_fapi_generator_app.c\<close>). \<open>Gen_Phy\<close>: the player (\<open>phy/phy.c\<close>, \<open>phy/phy_common.c\<close>, \<open>l2_fapi_generator.c\<close>; record
    \<open>gen_state\<close>), one pass of its loop a function of what the library hands to it in the pass, the calls of the library a list. \<open>Gen_Props\<close>: times,
    the broadcast block, the requests as lists. \<open>Gen_Play\<close>: what a pass sends, the order of the items and of the calls.

  \<^bold>\<open>How the code is read.\<close> The build is the one of the B4860 with a 32-bit user space: \<open>int\<close>, \<open>long\<close> and pointers
  are 32-bit words, physical addresses 64-bit words, and arithmetic wraps as it does there. What faults
  in C, a null pointer or an index outside an array, is the value \<open>Inl\<close> of a sum type, an error code
  a returned integer as in the code. Calls of the operating system appear as arguments with their result. Threads
  and processors interleave at the critical sections of the code, or at single memory accesses where the
  code has none (\<open>l1d_step\<close>, \<open>blk_step\<close>). The chip under the boot library is the field \<open>hw_dev\<close> of its environment, a function that may change
  every register between two accesses; what a theorem needs of it is a hypothesis (\<open>reacts\<close>, \<open>dsp_answers\<close>).
  In \<open>ipc_state\<close> channel structures, descriptors and plain memory are separate maps: theorems about channels hold where these do
  not overlap. \<open>ipc_channel_isolation\<close> speaks of the bytes the structures, rings and buffers occupy in the one memory and has their disjointness
  as hypothesis. \<open>b4_init_separates_channels\<close> shows that the rings do not overlap each other, \<open>rings_overlap_channels\<close>
  that with the kernel's layout one ring overlaps one channel structure.

  \<^bold>\<open>What is shown.\<close> Queues and channels: refinement of a bounded list through all wrap-arounds, isolation of
  channels whose bytes are apart, no lost wake-up in the queue, and for the blocking receive the one that there is. Allocators: areas
  handed out stay disjoint under every sequence of requests, an idle allocator serves every size. Locks:
  mutual exclusion with deaths of holders. RRU manager: refinement of the protocol machine, bring-up, framing,
  table invariants, timeouts. FAPI: every indication reaches its queue in order, requests arrive at the DSP's channel as
  built and within their buffers. Drivers: events are handed out exactly once when handlers and reads do not overlap, registration, the layout of the
  control area. Boot: the loader inverts the image format, the cores are released after the last byte of the last image and held while a
  warm reset loads, the start succeeds on a sound system, every device is closed but the one of the attached segment. Generator: a scenario becomes requests whose PDUs and blocks belong
  together, of sizes the standard allows; every pass sends the item that is due, a looped scenario is played as its format says, the L1 gets requests only while it runs. Where the code loses something or leaves its bounds, a theorem says when.

  \<^bold>\<open>Termination.\<close> Loops are structural recursions or have a measure (the queue's bit loop: the word; the drain of a
  channel: the messages in it; the builders: the list still to be copied; the allocator's scan: the nine size lists). The walk over the elements of
  a radio unit's message may not end; it is a \<open>partial_function\<close> into \<open>option\<close>, and
  \<open>establishment_request_answered\<close> and \<open>zero_length_element_hangs\<close> say when it does and when not. The chain of DMA
  descriptors is followed for at most 144 steps, the number of descriptors there are. The boot library polls registers without
  a limit: \<open>poll_loop\<close> is a \<open>partial_function\<close> too, not returning is the outcome \<open>Hangs\<close> of a program, and \<open>boot_waits_for_semaphore\<close> and
  \<open>dsp_start_succeeds\<close> say when it returns.

  \<^bold>\<open>Not modelled.\<close> The ASN.1 runtime \<open>asn1/\<close> and the generated decoder (third-party code), the BSC9131 branches and the
  test programs; the part of the boot library for production releases; the reader of the
  configuration file, the P8 dump server, the tap device and the sockets of the CPRI ethernet; functions that only print; the queues between the FAPI library
  and the generator, whose contents are arguments of a pass (\<open>Block_Queue\<close> has the queues themselves). Caches, barriers and the timing of the hardware.
\<close>

section \<open>Both interrupt handlers\<close>

text \<open>C16: The two kernel drivers that gather events hand out every event exactly once. Interrupts and reads come in
  any order, one after the other; each read may fail to copy to the caller. For the ready channels of the IPC driver, with
  no channel registered for a signal, each read whose copy succeeds returns the channels entered since the read before it and nothing else;
  a read whose copy fails loses them. For the watchdog events of the L1 defense, each call that finds events and can copy
  them returns those entered since the last such call and nothing else; a call that finds none, or cannot copy, returns nothing and
  leaves the mask. What has not been taken is in the mask, and nothing is lost: in the L1 defense always, in the IPC
  driver when all copies succeed. (A call of the L1 defense that runs while the handler does can lose an event, see \<open>l1d_event_lost\<close>.)\<close>

theorem event_masks_exact:
  assumes "reading_only gs uqs k" "mask_run kipc_post kipc_fetch kops k = (ks, k')"
    "clears_ones hw" "wsrsr l = 0" "mask_run (l1d_post hw) l1d_take lops l = (ls, l')"
  shows "batches (irq_channels gs uqs) kipc_give kops (bits (msg_ready_mask k)) = (ks, bits (msg_ready_mask k')) \<and>
    (Take False \<notin> set kops \<longrightarrow> handed ks \<union> bits (msg_ready_mask k') = bits (msg_ready_mask k) \<union> posted (irq_channels gs uqs) kops) \<and>
    batches bits l1d_give lops (bits (wsrsr_bitmask l)) = (ls, bits (wsrsr_bitmask l')) \<and>
    handed ls \<union> bits (wsrsr_bitmask l') = bits (wsrsr_bitmask l) \<union> posted bits lops"
proof -
  have l: "l1d_settled hw l" using assms(3,4) by (simp add: l1d_settled_def)
  have g: "keeps_all kipc_give True" "keeps_all l1d_give c" for c by (auto simp: keeps_all_def kipc_give_def l1d_give_def)
  have "\<forall>c. Take c \<in> set kops \<longrightarrow> keeps_all kipc_give c" if "Take False \<notin> set kops" using that g(1) by (metis (full_types))
  then show ?thesis
    using kipc.run_batches [OF assms(1,2)] kipc.nothing_lost [OF assms(1,2)]
      l1d.run_batches [OF l assms(5)] l1d.nothing_lost [OF l assms(5)] g(2) by simp
qed

text \<open>Two interrupts of unit 40 and a read; watchdog events of cores 0 and 1, a call that cannot copy and one that can, core 1 again.\<close>

theorem event_masks_exact_witness:
  "\<exists>ks k' ls l'. mask_run kipc_post kipc_fetch [Post 40, Post 40, Take True] blk_sample_k = (ks, k') \<and>
     ks = [Some (wakes_for blk_sample_k 40)] \<and> bits (msg_ready_mask k') = {} \<and>
     mask_run (l1d_post (\<lambda>v r. r AND NOT v)) l1d_take [Post 1, Take False, Post 2, Take True, Post 2] \<lparr>wsrsr = 0, wsrsr_bitmask = 0\<rparr> = (ls, l') \<and>
     ls = [None, Some {0, 1}] \<and> bits (wsrsr_bitmask l') = {1}"
proof -
  let ?l = "\<lparr>wsrsr = 0, wsrsr_bitmask = 0\<rparr>" and ?hw = "\<lambda>v r :: u32. r AND NOT v"
  have b: "bits (1 :: u32) = {0}" "bits (2 :: u32) = {1}"
    using bits_push [of 0, where 'a = 32] bits_push [of 1, where 'a = 32] by simp_all
  have z: "msg_ready_mask blk_sample_k = 0" by code_simp
  have r: "reading_only (fsl_msgs blk_sample_k) (uirq blk_sample_k) blk_sample_k"
    using blk_sample_start(1) by (simp add: blk_start_def blk_sample_def)
  have hw: "clears_ones ?hw" by (simp add: clears_ones_def)
  obtain ks k' ls l' where m: "mask_run kipc_post kipc_fetch [Post 40, Post 40, Take True] blk_sample_k = (ks, k')"
    "mask_run (l1d_post ?hw) l1d_take [Post 1, Take False, Post 2, Take True, Post 2] ?l = (ls, l')"
    by (meson surj_pair)
  have "wsrsr ?l = 0" by simp
  note E = event_masks_exact [OF r m(1) hw this m(2), THEN conjunct1]
    event_masks_exact [OF r m(1) hw this m(2), THEN conjunct2, THEN conjunct2, THEN conjunct1]
  from E have "ks = [Some (wakes_for blk_sample_k 40)]" "bits (msg_ready_mask k') = {}" "ls = [None, Some {0, 1}]" "bits (wsrsr_bitmask l') = {1}"
    using z by (auto simp: b kipc_give_def l1d_give_def insert_commute)
  then show ?thesis using m by auto
qed

end
